(* ===== verification/Chubby_Prelude.thy ===== *)
theory Chubby_Prelude
  imports Main "HOL-Library.Word" "HOL-Library.Sublist"
begin

text \<open>
  Prelude of the development: the machine types of the sources (\<open>std::uint32_t\<close>,
  \<open>std::uint64_t\<close>, bytes), the result type with its sequencing operator, the pieces of
  \<open>std::string\<close>, \<open>std::map\<close> and \<open>std::list\<close> the sources use, and the lemmas and lemma
  collections that the component theories share.
\<close>

unbundle bit_operations_syntax

named_theorems codec_intros \<open>rules that build the contract of a composed XDR type\<close>
named_theorems codec_defs \<open>definitions of the XDR types of the program\<close>
named_theorems db_defs \<open>definitions of the store's operations\<close>
named_theorems api_defs \<open>definitions of the lock service's handlers\<close>
named_theorems paxos_defs \<open>definitions of the replica's operations\<close>

section \<open>Types\<close>

type_synonym byte = char
type_synonym u32 = "32 word"
type_synonym u64 = "64 word"

section \<open>Results\<close>

text \<open>
  Every raise, failed assertion and early error of the sources is a left value. \<open>bindR\<close> is
  the sequencing of two statements: the second runs only if the first did not fail.
\<close>

definition bindR :: "'e + 'a \<Rightarrow> ('a \<Rightarrow> 'e + 'b) \<Rightarrow> 'e + 'b" where
  "bindR m f = (case m of Inl e \<Rightarrow> Inl e | Inr x \<Rightarrow> f x)"

definition assertR :: "'e \<Rightarrow> bool \<Rightarrow> 'e + unit" where
  "assertR e b = (if b then Inr () else Inl e)"

lemma bindR_simps [simp]:
  "bindR (Inl e) f = Inl e"
  "bindR (Inr x) f = f x"
  by (simp_all add: bindR_def)

lemma assertR_simps [simp]:
  "assertR e True = Inr ()"
  "assertR e False = Inl e"
  by (simp_all add: assertR_def)

lemma bindR_eq_Inr [simp]:
  "bindR m f = Inr y \<longleftrightarrow> (\<exists>x. m = Inr x \<and> f x = Inr y)"
  by (cases m) auto

lemma bindR_eq_Inl:
  "bindR m f = Inl e \<longleftrightarrow> m = Inl e \<or> (\<exists>x. m = Inr x \<and> f x = Inl e)"
  by (cases m) auto

lemma assertR_eq_Inr [simp]: "assertR e b = Inr u \<longleftrightarrow> b"
  by (cases b) simp_all

lemma assertR_eq_Inl [simp]: "assertR e b = Inl e' \<longleftrightarrow> \<not> b \<and> e = e'"
  by (cases b) auto

lemma bindR_assoc: "bindR (bindR m f) g = bindR m (\<lambda>x. bindR (f x) g)"
  by (cases m) simp_all

lemma bindR_cong [fundef_cong]:
  assumes "m = m'" and "\<And>x. m' = Inr x \<Longrightarrow> f x = f' x"
  shows "bindR m f = bindR m' f'"
  using assms by (cases m') simp_all

section \<open>Containers of the C++ standard library\<close>

text \<open>
  \<open>map_at d m k\<close> is the value \<open>m[k]\<close> reads: C++'s \<open>operator[]\<close> yields (and inserts) the
  default value \<open>d\<close> for an absent key. \<open>map_touch d m k\<close> is the map after that read.
\<close>

definition map_at :: "'v \<Rightarrow> ('k \<rightharpoonup> 'v) \<Rightarrow> 'k \<Rightarrow> 'v" where
  "map_at d m k = (case m k of None \<Rightarrow> d | Some v \<Rightarrow> v)"

definition map_touch :: "'v \<Rightarrow> ('k \<rightharpoonup> 'v) \<Rightarrow> 'k \<Rightarrow> ('k \<rightharpoonup> 'v)" where
  "map_touch d m k = m(k \<mapsto> map_at d m k)"

text \<open>\<open>std::list::remove(x)\<close> drops every element equal to \<open>x\<close>: \<^const>\<open>removeAll\<close>.\<close>

lemma map_at_simps [simp]:
  "m k = Some v \<Longrightarrow> map_at d m k = v"
  "m k = None \<Longrightarrow> map_at d m k = d"
  "map_at d (m(k \<mapsto> v)) k = v"
  "k' \<noteq> k \<Longrightarrow> map_at d (m(k := ov)) k' = map_at d m k'"
  by (simp_all add: map_at_def)

lemma map_at_upd: "map_at d (m(k := ov)) k' =
    (if k' = k then (case ov of None \<Rightarrow> d | Some v \<Rightarrow> v) else map_at d m k')"
  by (simp add: map_at_def)

lemma map_touch_at [simp]: "map_at d (map_touch d m k) k' = map_at d m k'"
  by (auto simp: map_touch_def map_at_def)

section \<open>Strings\<close>

text \<open>
  \<open>str_find c s\<close> is \<open>s.find(c)\<close> for one character, with \<open>None\<close> for \<open>npos\<close>.
  \<open>getlines d s\<close> is the list of tokens that a loop of \<open>std::getline(ss, token, d)\<close> over the
  text \<open>s\<close> yields: no token after a trailing delimiter.
\<close>

fun str_find :: "char \<Rightarrow> string \<Rightarrow> nat option" where
  "str_find c [] = None"
| "str_find c (x # xs) = (if x = c then Some 0 else map_option Suc (str_find c xs))"

fun getlines_from :: "char \<Rightarrow> string \<Rightarrow> string \<Rightarrow> string list" where
  "getlines_from d acc [] = (if acc = [] then [] else [acc])"
| "getlines_from d acc (x # xs) =
     (if x = d then acc # getlines_from d [] xs else getlines_from d (acc @ [x]) xs)"

definition getlines :: "char \<Rightarrow> string \<Rightarrow> string list" where
  "getlines d s = getlines_from d [] s"

lemma str_find_None [simp]: "str_find c s = None \<longleftrightarrow> c \<notin> set s"
  by (induction s) auto

lemma str_find_Some:
  "str_find c s = Some i \<Longrightarrow> i < length s \<and> s ! i = c \<and> c \<notin> set (take i s)"
proof (induction s arbitrary: i)
  case Nil
  then show ?case by simp
next
  case (Cons x xs)
  then show ?case by (cases "x = c") auto
qed

lemma getlines_from_token:
  "d \<notin> set t \<Longrightarrow> getlines_from d acc (t @ d # s) = (acc @ t) # getlines_from d [] s"
  by (induction t arbitrary: acc) auto

lemma getlines_from_last:
  "d \<notin> set t \<Longrightarrow> getlines_from d acc t = (if acc @ t = [] then [] else [acc @ t])"
  by (induction t arbitrary: acc) auto

lemma getlines_join:
  assumes "\<forall>t \<in> set ts. d \<notin> set t \<and> t \<noteq> []"
  shows "filter (\<lambda>t. t \<noteq> []) (getlines d (concat (map (\<lambda>t. d # t) ts))) = ts"
proof -
  have "filter (\<lambda>t. t \<noteq> []) (getlines_from d [] (t0 @ concat (map (\<lambda>t. d # t) ts)))
      = (if t0 = [] then ts else t0 # ts)" if "d \<notin> set t0" for t0
    using assms that
  proof (induction ts arbitrary: t0)
    case Nil
    then show ?case by (simp add: getlines_from_last)
  next
    case (Cons t ts)
    then show ?case by (simp add: getlines_from_token)
  qed
  from this [of "[]"] show ?thesis by (simp add: getlines_def)
qed

section \<open>Rounding to multiples of four\<close>

lemma mod4_cases:
  obtains q where "n = 4 * q" | q where "n = 4 * q + 1" | q where "n = 4 * q + 2"
    | q where "n = 4 * q + (3 :: nat)"
proof -
  have "n = 4 * (n div 4) + n mod 4" and "n mod 4 < 4" by simp_all
  moreover from this consider "n mod 4 = 0" | "n mod 4 = 1" | "n mod 4 = 2" | "n mod 4 = 3"
    by linarith
  ultimately show thesis by (metis that add_0_right)
qed

lemma pad4: "n + (4 - n mod 4) mod 4 = (n + 3) div 4 * (4 :: nat)"
  by (rule mod4_cases [of n]) (simp_all add: mod_Suc)

lemma pad4_Suc: "n mod 4 \<noteq> 0 \<Longrightarrow> Suc ((4 - Suc n mod 4) mod 4) = (4 - n mod 4) mod (4 :: nat)"
  by (rule mod4_cases [of n]) (simp_all add: mod_Suc)

section \<open>Machine words and bytes\<close>

text \<open>
  The memory image of a \<open>std::uint32_t\<close> on the little-endian host the program is built for,
  and the word read back from four bytes of memory.
\<close>

definition mem32 :: "u32 \<Rightarrow> byte list" where
  "mem32 w = map (\<lambda>i. char_of (unat (drop_bit (8 * i) w))) [0, 1, 2, 3]"

definition word32_of :: "byte list \<Rightarrow> u32" where
  "word32_of bs = of_nat (\<Sum>i\<leftarrow>[0, 1, 2, 3]. of_char (bs ! i) * 256 ^ i)"

lemma length_mem32 [simp]: "length (mem32 w) = 4"
  by (simp add: mem32_def)

lemma split_bytes32:
  fixes n :: nat
  shows "n mod 256 + n div 256 mod 256 * 256 + n div 65536 mod 256 * 65536
       + n div 16777216 * 16777216 = n"
proof -
  have a: "n div 65536 = n div 256 div 256" "n div 16777216 = n div 256 div 256 div 256"
    by (simp_all add: div_mult2_eq [symmetric])
  have c: "x mod 256 + x div 256 * 256 = x" for x :: nat
    by (rule mod_div_mult_eq)
  show ?thesis
    unfolding a using c [of n] c [of "n div 256"] c [of "n div 256 div 256"] by linarith
qed

lemma word32_of_mem32 [simp]: "word32_of (mem32 w @ r) = w"
proof -
  have "unat w div 16777216 < 256"
    using unsigned_less [of w, where ?'a = nat] by simp
  then have "(\<Sum>i\<leftarrow>[0, 1, 2, 3]. of_char ((mem32 w @ r) ! i) * 256 ^ i) = unat w"
    using split_bytes32 [of "unat w"]
    by (simp add: mem32_def unat_drop_bit_eq drop_bit_eq_div [where ?'a = nat] add.assoc)
  then have "word32_of (mem32 w @ r) = of_nat (unat w)"
    by (simp only: word32_of_def)
  then show ?thesis by simp
qed

end
