(* ===== verification/Xdr_Marshal.thy ===== *)
theory Xdr_Marshal
  imports Chubby_Prelude
begin

text \<open>
  The XDR runtime of \<open>src/xdrpp/xdrpp\<close>: byte swapping (\<open>endian.h.in\<close>), the message buffer
  (\<open>message.h\<close>, \<open>marshal.cc\<close>), the archives \<open>xdr_put\<close> and \<open>xdr_get\<close> (\<open>marshal.h\<close>) and the
  traits of the basic and container types (\<open>types.h\<close>). An XDR type is a \<open>codec\<close>: its
  \<open>serial_size\<close>, its \<open>save\<close> and its \<open>load\<close>. The locale \<open>xdr_codec\<close> states the contract the
  RPC layer relies on: saving fills exactly \<open>serial_size\<close> bytes, loading inverts saving, and
  loading untrusted bytes never reads outside the buffer. The combinators for structs, unions
  and vectors keep the contract, so every type the schema compiler emits has it.

  Modelled is the little-endian host (\<open>xdr_put = xdr_generic_put<marshal_swap>\<close>). A buffer is
  a list of bytes; reading or writing past \<open>e_\<close> is the error \<open>Xdr_out_of_bounds\<close>, which the
  code would not notice.
\<close>

section \<open>Errors and buffers\<close>

datatype xdr_error =
    Xdr_overflow
  | Xdr_bad_message_size
  | Xdr_bad_discriminant
  | Xdr_should_be_zero
  | Xdr_runtime_error
  | Xdr_assert
  | Xdr_wrong_union
  | Xdr_out_of_bounds

text \<open>\<open>xdr_generic_put\<close>: the bytes written so far and the room left between \<open>p_\<close> and \<open>e_\<close>.\<close>

record xput =
  p_bytes :: "byte list"
  p_room :: nat

definition emit :: "byte list \<Rightarrow> xput \<Rightarrow> xdr_error + xput" where
  "emit bs b = (if length bs \<le> p_room b
     then Inr (b\<lparr>p_bytes := p_bytes b @ bs, p_room := p_room b - length bs\<rparr>)
     else Inl Xdr_out_of_bounds)"

section \<open>Byte swapping\<close>

definition swap32 :: "u32 \<Rightarrow> u32" where
  "swap32 v = push_bit 24 v OR push_bit 8 (v AND 0xff00) OR (drop_bit 8 v AND 0xff00)
     OR drop_bit 24 v"

definition swap64 :: "u64 \<Rightarrow> u64" where
  "swap64 v = push_bit 32 (ucast (swap32 (ucast v))) OR ucast (swap32 (ucast (drop_bit 32 v)))"

definition swap32le :: "u32 \<Rightarrow> u32" where
  "swap32le v = swap32 v"

lemma mask_ff00: "(0xff00 :: u32) = push_bit 8 (mask 8)"
  by (simp add: mask_eq_exp_minus_1 push_bit_eq_mult)

lemma nobit32: "32 \<le> n \<Longrightarrow> \<not> bit (v :: u32) n"
  using bit_imp_le_length [of v n] by auto

lemma bit_swap32_ranges:
  "n < 8 \<Longrightarrow> bit (swap32 v) n = bit v (24 + n)"
  "8 \<le> n \<Longrightarrow> n < 16 \<Longrightarrow> bit (swap32 v) n = bit v (8 + n)"
  "16 \<le> n \<Longrightarrow> n < 24 \<Longrightarrow> bit (swap32 v) n = bit v (n - 8)"
  "24 \<le> n \<Longrightarrow> n < 32 \<Longrightarrow> bit (swap32 v) n = bit v (n - 24)"
  using nobit32 [of "24 + n" v] nobit32 [of "8 + n" v] nobit32 [of "n" v]
  by (simp_all add: swap32_def mask_ff00 bit_simps less_diff_conv2)

lemma swap32_swap32 [simp]: "swap32 (swap32 v) = v"
proof (rule bit_word_eqI)
  fix n assume "n < LENGTH(32)"
  then consider "n < 8" | "8 \<le> n" "n < 16" | "16 \<le> n" "n < 24" | "24 \<le> n" "n < 32"
    by (simp; linarith)
  then show "bit (swap32 (swap32 v)) n = bit v n"
    by cases (simp_all add: bit_swap32_ranges)
qed

text \<open>The big-endian image RFC 4506 asks for, and that swapping before the store produces it.\<close>

definition be32 :: "u32 \<Rightarrow> byte list" where
  "be32 v = rev (mem32 v)"

lemma length_be32 [simp]: "length (be32 v) = 4"
  by (simp add: be32_def)

lemma byte_swap32:
  assumes "i < 4"
  shows "char_of (unat (drop_bit (8 * i) (swap32 v))) = char_of (unat (drop_bit (8 * (3 - i)) v))"
proof -
  have "take_bit 8 (drop_bit (8 * i) (swap32 v)) = take_bit 8 (drop_bit (8 * (3 - i)) v)"
    using assms
    by (intro bit_word_eqI) (auto simp: bit_simps bit_swap32_ranges less_Suc_eq numeral_eq_Suc)
  then have "unat (take_bit 8 (drop_bit (8 * i) (swap32 v)))
      = unat (take_bit 8 (drop_bit (8 * (3 - i)) v))" by (rule arg_cong)
  then have "take_bit 8 (unat (drop_bit (8 * i) (swap32 v)))
      = take_bit 8 (unat (drop_bit (8 * (3 - i)) v))"
    by (simp only: unsigned_take_bit_eq)
  then have "char_of (take_bit 8 (unat (drop_bit (8 * i) (swap32 v))))
      = (char_of (take_bit 8 (unat (drop_bit (8 * (3 - i)) v))) :: char)" by (rule arg_cong)
  then show ?thesis by (simp only: char_of_take_bit_eq order.refl)
qed

lemma mem32_swap32: "mem32 (swap32 v) = be32 v"
  using byte_swap32 [of 0 v] byte_swap32 [of 1 v] byte_swap32 [of 2 v] byte_swap32 [of 3 v]
  by (simp add: mem32_def be32_def)

section \<open>Numbers and bytes in the archives\<close>

definition put32 :: "u32 \<Rightarrow> byte list" where
  "put32 v = mem32 (swap32 v)"

text \<open>The reads advance the pointer \<open>p_\<close>; fewer bytes than they read is a read past the end.\<close>

definition get32 :: "byte list \<Rightarrow> xdr_error + u32 \<times> byte list" where
  "get32 p = (if length p < 4 then Inl Xdr_out_of_bounds else Inr (swap32 (word32_of p), drop 4 p))"

text \<open>\<open>u64conv\<close> splits a 64-bit value; element 1 is the high half on a little-endian host.\<close>

definition u64conv_hi :: "u64 \<Rightarrow> u32" where
  "u64conv_hi u = ucast (drop_bit 32 u)"

definition u64conv_lo :: "u64 \<Rightarrow> u32" where
  "u64conv_lo u = ucast u"

definition put64 :: "u64 \<Rightarrow> byte list" where
  "put64 u = mem32 (swap32 (u64conv_hi u)) @ mem32 (swap32 (u64conv_lo u))"

definition get64 :: "byte list \<Rightarrow> xdr_error + u64 \<times> byte list" where
  "get64 p = bindR (get32 p) (\<lambda>(hi, p). bindR (get32 p) (\<lambda>(lo, p). Inr (push_bit 32 (ucast hi) OR ucast lo, p)))"

text \<open>\<open>marshal_base::put_bytes\<close> and \<open>get_bytes\<close>: the padding loops.\<close>

function zero_pad :: "nat \<Rightarrow> byte list" where
  "zero_pad len = (if len mod 4 = 0 then [] else CHR 0x00 # zero_pad (Suc len))"
  by pat_completeness auto
termination
  by (relation "measure (\<lambda>len. (4 - len mod 4) mod 4)") (auto simp: mod_Suc)

declare zero_pad.simps [simp del]

definition put_bytes :: "byte list \<Rightarrow> byte list" where
  "put_bytes bs = bs @ zero_pad (length bs)"

fun skip_pad :: "nat \<Rightarrow> byte list \<Rightarrow> xdr_error + byte list" where
  "skip_pad len p =
     (if len mod 4 = 0 then Inr p
      else case p of [] \<Rightarrow> Inl Xdr_out_of_bounds
         | b # p' \<Rightarrow> if b \<noteq> CHR 0x00 then Inl Xdr_should_be_zero else skip_pad (Suc len) p')"

declare skip_pad.simps [simp del]

definition get_bytes :: "nat \<Rightarrow> byte list \<Rightarrow> xdr_error + byte list \<times> byte list" where
  "get_bytes len p =
     (if length p < len then Inl Xdr_out_of_bounds
      else bindR (skip_pad len (drop len p)) (\<lambda>r. Inr (take len p, r)))"

lemma length_put32 [simp]: "length (put32 v) = 4"
  by (simp add: put32_def)

lemma get32_put32 [simp]: "get32 (put32 v @ r) = Inr (v, r)"
proof -
  have "drop 4 (put32 v @ r) = r" by simp
  then show ?thesis by (simp add: get32_def put32_def)
qed

lemma get32_eq: "4 \<le> length p \<Longrightarrow> get32 p = Inr (swap32 (word32_of p), drop 4 p)"
  by (simp add: get32_def)

lemma get64_eq: "8 \<le> length p \<Longrightarrow> \<exists>v. get64 p = Inr (v, drop 8 p)"
  by (simp add: get64_def get32_def)

lemma length_put64 [simp]: "length (put64 v) = 8"
  by (simp add: put64_def)

lemma u64_halves: "push_bit 32 (ucast (u64conv_hi u)) OR ucast (u64conv_lo u) = (u :: u64)"
proof (rule bit_word_eqI)
  fix n assume "n < LENGTH(64)"
  then show "bit (push_bit 32 (ucast (u64conv_hi u)) OR ucast (u64conv_lo u) :: u64) n = bit u n"
    by (cases "n < 32") (simp_all add: u64conv_hi_def u64conv_lo_def bit_simps less_diff_conv2)
qed

lemma get64_put64 [simp]: "get64 (put64 v @ r) = Inr (v, r)"
proof -
  have "put64 v @ r = put32 (u64conv_hi v) @ put32 (u64conv_lo v) @ r" by (simp add: put64_def put32_def)
  then show ?thesis by (simp add: get64_def u64_halves)
qed

lemma length_zero_pad: "length (zero_pad n) = (4 - n mod 4) mod 4"
proof (induction n rule: zero_pad.induct)
  case (1 n)
  show ?case
  proof (cases "n mod 4 = 0")
    case True
    then show ?thesis by (simp add: zero_pad.simps [of n])
  next
    case False
    with "1.IH" have "length (zero_pad n) = Suc ((4 - Suc n mod 4) mod 4)"
      by (simp add: zero_pad.simps [of n])
    also have "\<dots> = (4 - n mod 4) mod 4"
      using False by (rule pad4_Suc)
    finally show ?thesis .
  qed
qed

lemma length_put_bytes [simp]: "length (put_bytes bs) = (length bs + 3) div 4 * 4"
  by (simp add: put_bytes_def length_zero_pad pad4)

lemma skip_pad_zero_pad [simp]: "skip_pad n (zero_pad n @ r) = Inr r"
proof (induction n rule: zero_pad.induct)
  case (1 n)
  then show ?case
    by (cases "n mod 4 = 0") (simp_all add: zero_pad.simps [of n] skip_pad.simps [of n])
qed

lemma get_bytes_put_bytes [simp]: "get_bytes (length bs) (put_bytes bs @ r) = Inr (bs, r)"
  by (simp add: get_bytes_def put_bytes_def)

lemma skip_pad_suffix:
  "skip_pad n p = Inr r \<Longrightarrow> suffix r p \<and> (4 dvd n + length p \<longrightarrow> 4 dvd length r)"
proof (induction n p rule: skip_pad.induct)
  case (1 n p)
  show ?case
  proof (cases "n mod 4 = 0")
    case True
    with "1.prems" have "r = p" by (subst (asm) skip_pad.simps) simp
    with True show ?thesis by (auto simp: dvd_eq_mod_eq_0 mod_add_eq [symmetric])
  next
    case False
    with "1.prems" obtain b p' where p: "p = b # p'" "b = CHR 0x00" and r: "skip_pad (Suc n) p' = Inr r"
      by (subst (asm) skip_pad.simps) (auto split: list.splits if_splits)
    from "1.IH" [OF False p(1) _ r] p show ?thesis
      by (auto intro: suffix_ConsI)
  qed
qed

lemma skip_pad_bounds: "4 dvd n + length p \<Longrightarrow> skip_pad n p \<noteq> Inl Xdr_out_of_bounds"
proof (induction n p rule: skip_pad.induct)
  case (1 n p)
  show ?case
  proof (cases p)
    case Nil
    with "1.prems" show ?thesis by (subst skip_pad.simps) auto
  next
    case (Cons b p')
    with "1.IH" "1.prems" show ?thesis by (subst skip_pad.simps) auto
  qed
qed

end
