(* ===== verification/Xdr_Codec.thy ===== *)
theory Xdr_Codec
  imports Xdr_Marshal
begin

text \<open>
  \<open>xdr_traits\<close> of \<open>src/xdrpp/xdrpp/types.h\<close> and the archives of \<open>marshal.h\<close>. A \<open>codec\<close> packs
  what \<open>xdr_traits<T>\<close> offers for one type; \<open>c_size\<close> is \<open>serial_size\<close>, \<open>c_save\<close> is the call
  operator of \<open>xdr_generic_put\<close> and \<open>c_load\<close> that of \<open>xdr_generic_get\<close>.
\<close>

record 'a codec =
  c_size :: "'a \<Rightarrow> nat"
  c_save :: "'a \<Rightarrow> xput \<Rightarrow> xdr_error + xput"
  c_load :: "byte list \<Rightarrow> xdr_error + 'a \<times> byte list"

section \<open>Archives\<close>

definition put_check :: "nat \<Rightarrow> xput \<Rightarrow> xdr_error + unit" where
  "put_check n b = assertR Xdr_overflow (n \<le> p_room b)"

definition get_check :: "nat \<Rightarrow> byte list \<Rightarrow> xdr_error + unit" where
  "get_check n p = assertR Xdr_overflow (n \<le> length p)"

definition c_u32 :: "u32 codec" where
  "c_u32 = \<lparr>c_size = (\<lambda>_. 4),
     c_save = (\<lambda>v b. bindR (put_check 4 b) (\<lambda>_. emit (put32 v) b)),
     c_load = (\<lambda>p. bindR (get_check 4 p) (\<lambda>_. get32 p))\<rparr>"

definition c_u64 :: "u64 codec" where
  "c_u64 = \<lparr>c_size = (\<lambda>_. 8),
     c_save = (\<lambda>v b. bindR (put_check 8 b) (\<lambda>_. emit (put64 v) b)),
     c_load = (\<lambda>p. bindR (get_check 8 p) (\<lambda>_. get64 p))\<rparr>"

text \<open>\<open>xdr_traits<bool>\<close>: any non-zero word loads as true.\<close>

definition bool_to_uint :: "bool \<Rightarrow> u32" where
  "bool_to_uint b = (if b then 1 else 0)"

definition c_bool :: "bool codec" where
  "c_bool = \<lparr>c_size = (\<lambda>_. 4),
     c_save = (\<lambda>v b. c_save c_u32 (bool_to_uint v) b),
     c_load = (\<lambda>p. bindR (c_load c_u32 p) (\<lambda>(u, r). Inr (u \<noteq> 0, r)))\<rparr>"

text \<open>\<open>XDR_MAX_LEN\<close>, the default bound of strings and vectors.\<close>

definition XDR_MAX_LEN :: nat where
  "XDR_MAX_LEN = 0xfffffffc"

text \<open>
  Variable-length bytes: \<open>xstring\<close> and \<open>opaque_vec\<close>. \<open>lim\<close> is the bound that \<open>t.resize(size)\<close>
  checks for \<open>opaque_vec<N>\<close>; \<open>xstring\<close> inherits the unchecked \<open>std::string::resize\<close>.
\<close>

definition c_bytes :: "nat option \<Rightarrow> byte list codec" where
  "c_bytes lim = \<lparr>c_size = (\<lambda>s. (length s + 7) div 4 * 4),
     c_save = (\<lambda>s b. bindR (put_check (4 + length s) b) (\<lambda>_.
        bindR (emit (put32 (of_nat (length s))) b) (emit (put_bytes s)))),
     c_load = (\<lambda>p. bindR (get_check 4 p) (\<lambda>_.
        bindR (get32 p) (\<lambda>(w, p).
        let size = unat w in
        bindR (get_check size p) (\<lambda>_.
        bindR (assertR Xdr_overflow (case lim of None \<Rightarrow> True | Some n \<Rightarrow> size \<le> n)) (\<lambda>_.
          get_bytes size p)))))\<rparr>"

definition c_string :: "string codec" where
  "c_string = c_bytes None"

definition c_opaque :: "nat \<Rightarrow> byte list codec" where
  "c_opaque n = c_bytes (Some n)"

text \<open>\<open>xdr_void\<close>: no bytes.\<close>

definition c_void :: "unit codec" where
  "c_void = \<lparr>c_size = (\<lambda>_. 0), c_save = (\<lambda>_ b. Inr b), c_load = (\<lambda>p. Inr ((), p))\<rparr>"

text \<open>
  \<open>xdr_struct_base\<close> archives the fields one after the other; two fields are a pair, and a
  struct is a nest of pairs seen through the record's constructor and selectors
  (\<open>field_ptr\<close>).
\<close>

definition c_pair :: "'a codec \<Rightarrow> 'b codec \<Rightarrow> ('a \<times> 'b) codec" where
  "c_pair A B = \<lparr>c_size = (\<lambda>(x, y). c_size A x + c_size B y),
     c_save = (\<lambda>(x, y) b. bindR (c_save A x b) (c_save B y)),
     c_load = (\<lambda>p. bindR (c_load A p) (\<lambda>(x, r). bindR (c_load B r) (\<lambda>(y, r'). Inr ((x, y), r'))))\<rparr>"

definition c_struct :: "('a \<Rightarrow> 'b) \<Rightarrow> ('b \<Rightarrow> 'a) \<Rightarrow> 'a codec \<Rightarrow> 'b codec" where
  "c_struct mk flds A = \<lparr>c_size = (\<lambda>x. c_size A (flds x)),
     c_save = (\<lambda>x. c_save A (flds x)),
     c_load = (\<lambda>p. bindR (c_load A p) (\<lambda>(f, r). Inr (mk f, r)))\<rparr>"

text \<open>
  Unions: the discriminant as a 32-bit word, then the selected arm. \<open>disc\<close> is
  \<open>_xdr_discriminant()\<close>; \<open>arm d\<close> is the arm \<open>_xdr_with_mem_ptr\<close> selects for \<open>d\<close>, \<open>None\<close>
  when the union has no arm and no default for it.
\<close>

definition c_union :: "('a \<Rightarrow> u32) \<Rightarrow> (u32 \<Rightarrow> 'a codec option) \<Rightarrow> 'a codec" where
  "c_union disc arm = \<lparr>
     c_size = (\<lambda>x. 4 + (case arm (disc x) of None \<Rightarrow> 0 | Some A \<Rightarrow> c_size A x)),
     c_save = (\<lambda>x b. bindR (c_save c_u32 (disc x) b) (\<lambda>b'.
        case arm (disc x) of None \<Rightarrow> Inl Xdr_bad_discriminant | Some A \<Rightarrow> c_save A x b')),
     c_load = (\<lambda>p. bindR (c_load c_u32 p) (\<lambda>(d, r).
        case arm d of None \<Rightarrow> Inl Xdr_bad_discriminant | Some A \<Rightarrow> c_load A r))\<rparr>"

text \<open>
  \<open>xdr_container_base\<close> for \<open>xvector\<close>: the element count, then the elements; loading appends
  one element after the other (\<open>extend_at\<close>).
\<close>

fun save_all :: "'a codec \<Rightarrow> 'a list \<Rightarrow> xput \<Rightarrow> xdr_error + xput" where
  "save_all A [] b = Inr b"
| "save_all A (x # xs) b = bindR (c_save A x b) (save_all A xs)"

fun load_all :: "'a codec \<Rightarrow> nat \<Rightarrow> byte list \<Rightarrow> xdr_error + 'a list \<times> byte list" where
  "load_all A 0 p = Inr ([], p)"
| "load_all A (Suc n) p =
     bindR (c_load A p) (\<lambda>(x, r). bindR (load_all A n r) (\<lambda>(xs, r'). Inr (x # xs, r')))"

definition c_vector :: "nat \<Rightarrow> 'a codec \<Rightarrow> 'a list codec" where
  "c_vector lim A = \<lparr>c_size = (\<lambda>xs. 4 + (\<Sum>x\<leftarrow>xs. c_size A x)),
     c_save = (\<lambda>xs b. bindR (c_save c_u32 (of_nat (length xs)) b) (save_all A xs)),
     c_load = (\<lambda>p. bindR (c_load c_u32 p) (\<lambda>(n, r).
        bindR (assertR Xdr_overflow (unat n \<le> lim)) (\<lambda>_. load_all A (unat n) r)))\<rparr>"

section \<open>Messages\<close>

text \<open>
  \<open>message_t\<close>: four bytes of length in network order with the high bit set, then the data.
  \<open>message_with d\<close> is \<open>message_t::alloc(d.size())\<close> followed by the copy of \<open>d\<close> into it.
\<close>

record message_t =
  m_len :: "byte list"
  m_data :: "byte list"

definition message_with :: "byte list \<Rightarrow> xdr_error + message_t" where
  "message_with d = bindR (assertR Xdr_assert (length d < 0x80000000)) (\<lambda>_.
     Inr \<lparr>m_len = mem32 (swap32le (of_nat (length d) OR 0x80000000)), m_data = d\<rparr>)"

definition raw_data :: "message_t \<Rightarrow> byte list" where
  "raw_data m = m_len m @ m_data m"

definition xdr_to_msg :: "'a codec \<Rightarrow> 'a \<Rightarrow> xdr_error + message_t" where
  "xdr_to_msg A x =
     bindR (assertR Xdr_assert (c_size A x < 0x80000000)) (\<lambda>_.
     bindR (assertR Xdr_assert (c_size A x mod 4 = 0)) (\<lambda>_.
     bindR (c_save A x \<lparr>p_bytes = [], p_room = c_size A x\<rparr>) (\<lambda>b.
     bindR (assertR Xdr_assert (p_room b = 0)) (\<lambda>_. message_with (p_bytes b)))))"

definition xdr_get_init :: "message_t \<Rightarrow> xdr_error + byte list" where
  "xdr_get_init m = bindR (assertR Xdr_bad_message_size (length (m_data m) mod 4 = 0)) (\<lambda>_. Inr (m_data m))"

definition xdr_from_msg :: "'a codec \<Rightarrow> message_t \<Rightarrow> xdr_error + 'a" where
  "xdr_from_msg A m = bindR (xdr_get_init m) (\<lambda>p.
     bindR (c_load A p) (\<lambda>(x, r).
     bindR (assertR Xdr_bad_message_size (r = [])) (\<lambda>_. Inr x)))"

section \<open>The contract of an XDR type\<close>

text \<open>The bytes a value marshals to: what \<open>save\<close> writes into a buffer of \<open>serial_size\<close>.\<close>

definition wire :: "'a codec \<Rightarrow> 'a \<Rightarrow> byte list" where
  "wire A x = (case c_save A x \<lparr>p_bytes = [], p_room = c_size A x\<rparr> of
     Inr b \<Rightarrow> p_bytes b | Inl _ \<Rightarrow> [])"

definition advance :: "byte list \<Rightarrow> xput \<Rightarrow> xput" where
  "advance bs b = b\<lparr>p_bytes := p_bytes b @ bs, p_room := p_room b - length bs\<rparr>"

lemma advance_simps [simp]:
  "p_bytes (advance bs b) = p_bytes b @ bs"
  "p_room (advance bs b) = p_room b - length bs"
  "advance ys (advance xs b) = advance (xs @ ys) b"
  "advance [] b = b"
  by (simp_all add: advance_def)

lemma emit_ok: "length bs \<le> p_room b \<Longrightarrow> emit bs b = Inr (advance bs b)"
  by (simp add: emit_def advance_def)

locale xdr_codec =
  fixes C :: "'a codec" and ok :: "'a \<Rightarrow> bool"
  assumes save_wire: "ok x \<Longrightarrow> c_size C x \<le> p_room b \<Longrightarrow> c_save C x b = Inr (advance (wire C x) b)"
    and wire_length: "ok x \<Longrightarrow> length (wire C x) = c_size C x"
    and size_aligned: "ok x \<Longrightarrow> 4 dvd c_size C x"
    and load_wire: "ok x \<Longrightarrow> c_load C (wire C x @ r) = Inr (x, r)"
    and load_suffix: "c_load C p = Inr (x, r) \<Longrightarrow> suffix r p \<and> (4 dvd length p \<longrightarrow> 4 dvd length r)"
    and load_bounds: "4 dvd length p \<Longrightarrow> c_load C p \<noteq> Inl Xdr_out_of_bounds"
begin

lemma to_msg_ok:
  assumes "ok x" and "c_size C x < 0x80000000"
  shows "\<exists>m. xdr_to_msg C x = Inr m \<and> m_data m = wire C x"
  using assms save_wire [OF assms(1), of "\<lparr>p_bytes = [], p_room = c_size C x\<rparr>"]
    wire_length [OF assms(1)] size_aligned [OF assms(1)]
  by (simp add: xdr_to_msg_def message_with_def dvd_eq_mod_eq_0 del: One_nat_def)

lemma from_msg_to_msg:
  assumes "ok x" and "c_size C x < 0x80000000"
  shows "bindR (xdr_to_msg C x) (xdr_from_msg C) = Inr x"
proof -
  obtain m where m: "xdr_to_msg C x = Inr m" "m_data m = wire C x"
    using to_msg_ok [OF assms] by blast
  moreover have "length (wire C x) mod 4 = 0"
    using wire_length [OF assms(1)] size_aligned [OF assms(1)] by auto
  moreover have "c_load C (wire C x) = Inr (x, [])"
    using load_wire [OF assms(1), of "[]"] by simp
  ultimately show ?thesis
    by (simp add: xdr_from_msg_def xdr_get_init_def)
qed

text \<open>The data of a message, copied as bytes into a fresh message, reads back the same value.\<close>

lemma from_copied_msg:
  assumes "ok x" and "c_size C x < 0x80000000"
  obtains m where "xdr_to_msg C x = Inr m" "bindR (message_with (m_data m)) (xdr_from_msg C) = Inr x"
proof -
  obtain m where m: "xdr_to_msg C x = Inr m" "m_data m = wire C x"
    using to_msg_ok [OF assms] by blast
  moreover have "xdr_from_msg C m' = Inr x" if "m_data m' = m_data m" for m'
    using from_msg_to_msg [OF assms] m that by (simp add: xdr_from_msg_def xdr_get_init_def)
  moreover have "length (m_data m) < 0x80000000"
    using m wire_length [OF assms(1)] assms(2) by simp
  ultimately show thesis by (intro that [of m]) (auto simp: message_with_def)
qed

lemma from_msg_bounds: "xdr_from_msg C m \<noteq> Inl Xdr_out_of_bounds"
  using load_bounds [of "m_data m"]
  by (auto simp: xdr_from_msg_def xdr_get_init_def bindR_eq_Inl dvd_eq_mod_eq_0 split: prod.splits)

end

section \<open>The basic types meet the contract\<close>

text \<open>A closed form \<open>e\<close> of the bytes is enough to establish the contract.\<close>

lemma codecI:
  assumes save: "\<And>x b. ok x \<Longrightarrow> c_size C x \<le> p_room b \<Longrightarrow> c_save C x b = Inr (advance (e x) b)"
    and len: "\<And>x. ok x \<Longrightarrow> length (e x) = c_size C x"
    and al: "\<And>x. ok x \<Longrightarrow> 4 dvd c_size C x"
    and load: "\<And>x r. ok x \<Longrightarrow> c_load C (e x @ r) = Inr (x, r)"
    and suf: "\<And>p x r. c_load C p = Inr (x, r) \<Longrightarrow> suffix r p \<and> (4 dvd length p \<longrightarrow> 4 dvd length r)"
    and bnd: "\<And>p. 4 dvd length p \<Longrightarrow> c_load C p \<noteq> Inl Xdr_out_of_bounds"
  shows "xdr_codec C ok"
proof -
  have "wire C x = e x" if "ok x" for x
    using save [OF that, of "\<lparr>p_bytes = [], p_room = c_size C x\<rparr>"] by (simp add: wire_def)
  then show ?thesis
    by unfold_locales (use save len al load suf bnd in auto)
qed

lemma dvd_drop4: "4 dvd length p \<Longrightarrow> 4 dvd length (drop 4 p)"
  by (cases "4 \<le> length p") (auto simp: dvd_diff_nat)

lemma dvd_drop8: "4 dvd length p \<Longrightarrow> 4 dvd length (drop 8 p)"
  using dvd_drop4 [OF dvd_drop4, of p] by (simp add: drop_drop)

lemma wire_u32: "wire c_u32 v = put32 v"
  by (simp add: wire_def c_u32_def put_check_def emit_def)

lemma codec_u32 [codec_intros]: "xdr_codec c_u32 (\<lambda>_. True)"
  by (rule codecI [where e = put32])
     (auto simp: c_u32_def put_check_def get_check_def emit_ok get32_eq suffix_drop dvd_drop4 bindR_eq_Inl
           simp del: length_drop)

lemma codec_u64 [codec_intros]: "xdr_codec c_u64 (\<lambda>_. True)"
  by (rule codecI [where e = put64])
     (auto simp: c_u64_def put_check_def get_check_def emit_ok suffix_drop dvd_drop8 bindR_eq_Inl
           simp del: length_drop dest!: get64_eq)

lemma codec_void [codec_intros]: "xdr_codec c_void (\<lambda>_. True)"
  by (rule codecI [where e = "\<lambda>_. []"]) (auto simp: c_void_def)

lemma codec_bool [codec_intros]: "xdr_codec c_bool (\<lambda>_. True)"
  by (rule codecI [where e = "\<lambda>b. put32 (bool_to_uint b)"])
     (auto simp: c_bool_def c_u32_def put_check_def get_check_def emit_ok get32_eq suffix_drop dvd_drop4
        bool_to_uint_def bindR_eq_Inl simp del: length_drop)

lemma get_bytes_suffix:
  assumes "get_bytes n p = Inr (x, r)"
  shows "suffix r p \<and> (4 dvd length p \<longrightarrow> 4 dvd length r)"
proof -
  from assms have n: "n \<le> length p" and s: "skip_pad n (drop n p) = Inr r"
    by (auto simp: get_bytes_def split: if_splits)
  from skip_pad_suffix [OF s] n show ?thesis
    by (auto intro: suffix_order.trans [OF _ suffix_drop])
qed

lemma get_bytes_bounds:
  assumes "4 dvd length p" and "n \<le> length p"
  shows "get_bytes n p \<noteq> Inl Xdr_out_of_bounds"
  using assms skip_pad_bounds [of n "drop n p"] by (auto simp: get_bytes_def bindR_eq_Inl)

lemma codec_bytes:
  assumes lim: "\<And>n. lim = Some n \<Longrightarrow> n < 2 ^ 32"
  shows "xdr_codec (c_bytes lim)
    (\<lambda>s. length s < 2 ^ 32 \<and> (case lim of None \<Rightarrow> True | Some n \<Rightarrow> length s \<le> n))"
proof (rule codecI [where e = "\<lambda>s. put32 (of_nat (length s)) @ put_bytes s"])
  fix s :: "byte list" and b r
  assume ok: "length s < 2 ^ 32 \<and> (case lim of None \<Rightarrow> True | Some n \<Rightarrow> length s \<le> n)"
  have sz: "(length s + 7) div 4 * 4 = 4 + (length s + 3) div 4 * 4"
    using div_add_self2 [of 4 "length s + 3"] by (simp add: add.assoc)
  have le: "length s \<le> (length s + 3) div 4 * 4" by (rule mod4_cases [of "length s"]) simp_all
  have un: "unat (of_nat (length s) :: u32) = length s"
    using ok by (simp add: unat_of_nat)
  show "c_save (c_bytes lim) s b = Inr (advance (put32 (of_nat (length s)) @ put_bytes s) b)"
    if "c_size (c_bytes lim) s \<le> p_room b"
    using that le by (simp add: c_bytes_def put_check_def emit_ok sz)
  show "c_load (c_bytes lim) ((put32 (of_nat (length s)) @ put_bytes s) @ r) = Inr (s, r)"
    using ok le by (auto simp: c_bytes_def get_check_def un assertR_def split: option.splits)
  show "length (put32 (of_nat (length s)) @ put_bytes s) = c_size (c_bytes lim) s"
    by (simp add: c_bytes_def sz)
  show "4 dvd c_size (c_bytes lim) s"
    by (simp add: c_bytes_def)
next
  fix p x r
  assume "c_load (c_bytes lim) p = Inr (x, r)"
  then have "get_bytes (unat (swap32 (word32_of p))) (drop 4 p) = Inr (x, r)"
    by (auto simp: c_bytes_def get_check_def get32_eq Let_def)
  from get_bytes_suffix [OF this] show "suffix r p \<and> (4 dvd length p \<longrightarrow> 4 dvd length r)"
    using dvd_drop4 [of p] suffix_order.trans [OF _ suffix_drop] by blast
next
  fix p :: "byte list" assume p: "4 dvd length p"
  then show "c_load (c_bytes lim) p \<noteq> Inl Xdr_out_of_bounds"
    using get_bytes_bounds [OF dvd_drop4 [OF p]]
    by (auto simp: c_bytes_def Let_def bindR_eq_Inl get_check_def get32_eq simp del: length_drop)
qed

lemma codec_string [codec_intros]: "xdr_codec c_string (\<lambda>s. length s < 2 ^ 32)"
  using codec_bytes [of None] by (simp add: c_string_def)

lemma codec_opaque [codec_intros]:
  assumes "n < 2 ^ 32"
  shows "xdr_codec (c_opaque n) (\<lambda>s. length s \<le> n)"
proof -
  have "(\<lambda>s :: byte list. length s < 2 ^ 32 \<and> length s \<le> n) = (\<lambda>s. length s \<le> n)"
    using assms by (auto simp: fun_eq_iff)
  with codec_bytes [of "Some n"] assms show ?thesis by (simp add: c_opaque_def)
qed

section \<open>Structs, unions and vectors keep the contract\<close>

lemma codec_pair [codec_intros]:
  assumes "xdr_codec A a" and "xdr_codec B b"
  shows "xdr_codec (c_pair A B) (\<lambda>(x, y). a x \<and> b y)"
proof -
  note A = xdr_codec.save_wire [OF assms(1)] xdr_codec.wire_length [OF assms(1)]
    xdr_codec.size_aligned [OF assms(1)] xdr_codec.load_wire [OF assms(1)]
  note B = xdr_codec.save_wire [OF assms(2)] xdr_codec.wire_length [OF assms(2)]
    xdr_codec.size_aligned [OF assms(2)] xdr_codec.load_wire [OF assms(2)]
  note S = xdr_codec.load_suffix [OF assms(1)] xdr_codec.load_suffix [OF assms(2)]
  note N = xdr_codec.load_bounds [OF assms(1)] xdr_codec.load_bounds [OF assms(2)]
  show ?thesis
  proof (rule codecI [where e = "\<lambda>(x, y). wire A x @ wire B y"])
    fix p x r assume "c_load (c_pair A B) p = Inr (x, r)"
    then show "suffix r p \<and> (4 dvd length p \<longrightarrow> 4 dvd length r)"
      by (auto simp: c_pair_def dest!: S intro: suffix_order.trans)
  next
    fix p :: "byte list" assume "4 dvd length p"
    then show "c_load (c_pair A B) p \<noteq> Inl Xdr_out_of_bounds"
      by (auto simp: c_pair_def bindR_eq_Inl dest: S N split: prod.splits)
  qed (auto simp: c_pair_def A B intro!: dvd_add)
qed

lemma codec_struct:
  assumes A: "xdr_codec A a" and mk: "\<And>x. w x \<Longrightarrow> mk (flds x) = x \<and> a (flds x)"
  shows "xdr_codec (c_struct mk flds A) w"
proof (rule codecI [where e = "\<lambda>x. wire A (flds x)"])
  fix p x r assume "c_load (c_struct mk flds A) p = Inr (x, r)"
  then show "suffix r p \<and> (4 dvd length p \<longrightarrow> 4 dvd length r)"
    by (auto simp: c_struct_def dest: xdr_codec.load_suffix [OF A])
next
  fix p :: "byte list" assume "4 dvd length p"
  then show "c_load (c_struct mk flds A) p \<noteq> Inl Xdr_out_of_bounds"
    by (auto simp: c_struct_def bindR_eq_Inl dest: xdr_codec.load_bounds [OF A] split: prod.splits)
qed (use mk in \<open>simp_all add: c_struct_def xdr_codec.save_wire [OF A] xdr_codec.wire_length [OF A]
  xdr_codec.size_aligned [OF A] xdr_codec.load_wire [OF A]\<close>)

lemma codec_union:
  assumes arms: "\<And>d A. arm d = Some A \<Longrightarrow> xdr_codec A (\<lambda>x. w x \<and> disc x = d)"
    and total: "\<And>x. w x \<Longrightarrow> arm (disc x) \<noteq> None"
  shows "xdr_codec (c_union disc arm) w"
proof (rule codecI [where e = "\<lambda>x. put32 (disc x) @ wire (the (arm (disc x))) x"])
  fix x assume w: "w x"
  then obtain A where A: "arm (disc x) = Some A" using total by blast
  from arms [OF A] have c: "xdr_codec A (\<lambda>y. w y \<and> disc y = disc x)" .
  have wx: "w x \<and> disc x = disc x" using w by simp
  note C = xdr_codec.save_wire [OF c wx] xdr_codec.wire_length [OF c wx]
    xdr_codec.size_aligned [OF c wx] xdr_codec.load_wire [OF c wx]
  show "c_save (c_union disc arm) x b = Inr (advance (put32 (disc x) @ wire (the (arm (disc x))) x) b)"
    if "c_size (c_union disc arm) x \<le> p_room b" for b
    using that by (simp add: c_union_def A xdr_codec.save_wire [OF codec_u32] wire_u32 C c_u32_def put_check_def emit_ok)
  show "length (put32 (disc x) @ wire (the (arm (disc x))) x) = c_size (c_union disc arm) x"
    by (simp add: c_union_def A C)
  show "4 dvd c_size (c_union disc arm) x"
    by (simp add: c_union_def A C)
  show "c_load (c_union disc arm) ((put32 (disc x) @ wire (the (arm (disc x))) x) @ r) = Inr (x, r)" for r
    by (simp add: c_union_def A C c_u32_def get_check_def)
next
  fix p x r assume "c_load (c_union disc arm) p = Inr (x, r)"
  then obtain d r' A where d: "c_load c_u32 p = Inr (d, r')" "arm d = Some A" "c_load A r' = Inr (x, r)"
    by (auto simp: c_union_def split: option.splits)
  show "suffix r p \<and> (4 dvd length p \<longrightarrow> 4 dvd length r)"
    using xdr_codec.load_suffix [OF codec_u32 d(1)] xdr_codec.load_suffix [OF arms [OF d(2)] d(3)]
    by (auto intro: suffix_order.trans)
next
  fix p :: "byte list" assume p: "4 dvd length p"
  show "c_load (c_union disc arm) p \<noteq> Inl Xdr_out_of_bounds"
    using xdr_codec.load_bounds [OF codec_u32 p] xdr_codec.load_bounds [OF arms]
      xdr_codec.load_suffix [OF codec_u32, of p] p
    by (auto simp: c_union_def bindR_eq_Inl split: prod.splits option.splits)
qed


lemma save_all_ok:
  assumes A: "xdr_codec A a" and xs: "\<forall>x \<in> set xs. a x"
    and room: "(\<Sum>x\<leftarrow>xs. c_size A x) \<le> p_room b"
  shows "save_all A xs b = Inr (advance (concat (map (wire A) xs)) b)"
  using xs room
proof (induction xs arbitrary: b)
  case (Cons x xs)
  then have "c_save A x b = Inr (advance (wire A x) b)"
    using xdr_codec.save_wire [OF A] by simp
  with Cons show ?case
    by (simp add: xdr_codec.wire_length [OF A])
qed simp

lemma load_all_ok:
  assumes A: "xdr_codec A a" and xs: "\<forall>x \<in> set xs. a x"
  shows "load_all A (length xs) (concat (map (wire A) xs) @ r) = Inr (xs, r)"
  using xs by (induction xs) (simp_all add: xdr_codec.load_wire [OF A])

lemma load_all_suffix:
  assumes A: "xdr_codec A a"
  shows "load_all A n p = Inr (xs, r) \<Longrightarrow> suffix r p \<and> (4 dvd length p \<longrightarrow> 4 dvd length r)"
proof (induction n arbitrary: p xs)
  case (Suc n)
  then obtain x r' ys where "c_load A p = Inr (x, r')" "load_all A n r' = Inr (ys, r)"
    by auto
  with Suc.IH xdr_codec.load_suffix [OF A] show ?case
    by (metis suffix_order.trans)
qed simp

lemma load_all_bounds:
  assumes A: "xdr_codec A a"
  shows "4 dvd length p \<Longrightarrow> load_all A n p \<noteq> Inl Xdr_out_of_bounds"
proof (induction n arbitrary: p)
  case (Suc n)
  show ?case
  proof (cases "c_load A p")
    case (Inl e)
    then show ?thesis using xdr_codec.load_bounds [OF A Suc.prems] by simp
  next
    case (Inr y)
    obtain x r where y: "y = (x, r)" by (cases y)
    from xdr_codec.load_suffix [OF A Inr [unfolded y]] Suc.prems have "4 dvd length r" by simp
    from Suc.IH [OF this] show ?thesis
      by (auto simp: Inr y bindR_eq_Inl)
  qed
qed simp

lemma sum_list_aligned:
  assumes "xdr_codec A a" and "\<forall>x \<in> set xs. a x"
  shows "4 dvd (\<Sum>x\<leftarrow>xs. c_size A x)
    \<and> length (concat (map (wire A) xs)) = (\<Sum>x\<leftarrow>xs. c_size A x)"
  using assms(2)
  by (induction xs) (auto simp: xdr_codec.size_aligned [OF assms(1)] xdr_codec.wire_length [OF assms(1)])

lemma codec_vector [codec_intros]:
  assumes A: "xdr_codec A a" and lim: "lim < 2 ^ 32"
  shows "xdr_codec (c_vector lim A) (\<lambda>xs. length xs \<le> lim \<and> (\<forall>x \<in> set xs. a x))"
proof (rule codecI [where e = "\<lambda>xs. put32 (of_nat (length xs)) @ concat (map (wire A) xs)"])
  fix xs assume xs: "length xs \<le> lim \<and> (\<forall>x \<in> set xs. a x)"
  then have ok: "\<forall>x \<in> set xs. a x" by blast
  note sl = sum_list_aligned [OF A ok]
  have un: "unat (of_nat (length xs) :: u32) = length xs"
    using xs lim by (simp add: unat_of_nat)
  show "c_save (c_vector lim A) xs b
      = Inr (advance (put32 (of_nat (length xs)) @ concat (map (wire A) xs)) b)"
    if "c_size (c_vector lim A) xs \<le> p_room b" for b
  proof -
    have "save_all A xs (advance (put32 (of_nat (length xs))) b)
        = Inr (advance (concat (map (wire A) xs)) (advance (put32 (of_nat (length xs))) b))"
      using that by (intro save_all_ok [OF A ok]) (simp add: c_vector_def)
    with that show ?thesis
      by (simp add: c_vector_def c_u32_def put_check_def emit_ok)
  qed
  show "length (put32 (of_nat (length xs)) @ concat (map (wire A) xs)) = c_size (c_vector lim A) xs"
    using sl by (simp add: c_vector_def)
  show "4 dvd c_size (c_vector lim A) xs"
    using sl by (simp add: c_vector_def)
  show "c_load (c_vector lim A) ((put32 (of_nat (length xs)) @ concat (map (wire A) xs)) @ r) = Inr (xs, r)" for r
    using xs load_all_ok [OF A ok, of r] by (simp add: c_vector_def c_u32_def get_check_def un)
next
  fix p xs r assume "c_load (c_vector lim A) p = Inr (xs, r)"
  then obtain n r' where n: "c_load c_u32 p = Inr (n, r')" "load_all A (unat n) r' = Inr (xs, r)"
    by (auto simp: c_vector_def)
  show "suffix r p \<and> (4 dvd length p \<longrightarrow> 4 dvd length r)"
    using xdr_codec.load_suffix [OF codec_u32 n(1)] load_all_suffix [OF A n(2)]
    by (auto intro: suffix_order.trans)
next
  fix p :: "byte list" assume p: "4 dvd length p"
  show "c_load (c_vector lim A) p \<noteq> Inl Xdr_out_of_bounds"
    using xdr_codec.load_bounds [OF codec_u32 p] load_all_bounds [OF A]
      xdr_codec.load_suffix [OF codec_u32, of p] p
    by (auto simp: c_vector_def bindR_eq_Inl split: prod.splits)
qed

lemma codec_weaken: "xdr_codec C w \<Longrightarrow> (\<And>x. w' x \<Longrightarrow> w x) \<Longrightarrow> xdr_codec C w'"
  by (simp add: xdr_codec_def)

text \<open>Bounds that every string and unbounded vector of the schemas carries.\<close>

definition fits :: "string \<Rightarrow> bool" where
  "fits s \<longleftrightarrow> length s < 2 ^ 32"

lemma XDR_MAX_LEN_bound: "XDR_MAX_LEN < 2 ^ 32"
  by (simp add: XDR_MAX_LEN_def)

lemmas codec_max_vector = codec_vector [OF _ XDR_MAX_LEN_bound]
lemmas codec_max_opaque = codec_opaque [OF XDR_MAX_LEN_bound]

end
