(* ===== verification/Server_Types.thy ===== *)
theory Server_Types
  imports Xdr_Codec
begin

text \<open>
  The types of the client protocol: \<open>src/include/server.hh\<close> (schema \<open>server.x\<close>) and
  \<open>src/include/event.hh\<close> (schema \<open>event.x\<close>), each with its XDR traits. Field names carry the
  type's initials because several structs share a field name.
\<close>

section \<open>Structs\<close>

record MetaData =
  md_instance_number :: u64
  md_content_generation_number :: u64
  md_lock_generation_number :: u64
  md_file_content_checksum :: u64
  md_is_directory :: bool

definition xdr_MetaData :: "MetaData codec" where
  "xdr_MetaData = c_struct
     (\<lambda>(i, c, l, k, d). \<lparr>md_instance_number = i, md_content_generation_number = c,
        md_lock_generation_number = l, md_file_content_checksum = k, md_is_directory = d\<rparr>)
     (\<lambda>m. (md_instance_number m, md_content_generation_number m, md_lock_generation_number m,
        md_file_content_checksum m, md_is_directory m))
     (c_pair c_u64 (c_pair c_u64 (c_pair c_u64 (c_pair c_u64 c_bool))))"

record FileHandler =
  fh_magic_number :: u64
  fh_master_sequence_number :: u64
  fh_file_name :: string
  fh_instance_number :: u64
  fh_write_is_allowed :: bool

definition xdr_FileHandler :: "FileHandler codec" where
  "xdr_FileHandler = c_struct
     (\<lambda>(g, q, f, i, w). \<lparr>fh_magic_number = g, fh_master_sequence_number = q, fh_file_name = f,
        fh_instance_number = i, fh_write_is_allowed = w\<rparr>)
     (\<lambda>h. (fh_magic_number h, fh_master_sequence_number h, fh_file_name h,
        fh_instance_number h, fh_write_is_allowed h))
     (c_pair c_u64 (c_pair c_u64 (c_pair c_string (c_pair c_u64 c_bool))))"

record ArgOpen =
  ao_name :: string
  ao_mode :: u64

definition xdr_ArgOpen :: "ArgOpen codec" where
  "xdr_ArgOpen = c_struct (\<lambda>(n, m). \<lparr>ao_name = n, ao_mode = m\<rparr>) (\<lambda>a. (ao_name a, ao_mode a))
     (c_pair c_string c_u64)"

record ArgReopen =
  ar_fd :: FileHandler
  ar_mode :: u64

definition xdr_ArgReopen :: "ArgReopen codec" where
  "xdr_ArgReopen = c_struct (\<lambda>(f, m). \<lparr>ar_fd = f, ar_mode = m\<rparr>) (\<lambda>a. (ar_fd a, ar_mode a))
     (c_pair xdr_FileHandler c_u64)"

record ArgSetContents =
  as_fd :: FileHandler
  as_content :: string

definition xdr_ArgSetContents :: "ArgSetContents codec" where
  "xdr_ArgSetContents = c_struct (\<lambda>(f, c). \<lparr>as_fd = f, as_content = c\<rparr>)
     (\<lambda>a. (as_fd a, as_content a)) (c_pair xdr_FileHandler c_string)"

record ContentsAndStat =
  cs_content :: string
  cs_stat :: MetaData

definition xdr_ContentsAndStat :: "ContentsAndStat codec" where
  "xdr_ContentsAndStat = c_struct (\<lambda>(c, s). \<lparr>cs_content = c, cs_stat = s\<rparr>)
     (\<lambda>a. (cs_content a, cs_stat a)) (c_pair c_string xdr_MetaData)"

section \<open>Result unions\<close>

text \<open>
  Each result union has the arms 0 (\<open>val\<close>) and 1 (\<open>errCode\<close>) and a void default, which keeps
  whatever discriminant was received.
\<close>

datatype RetBool = RetBool_val (rb_val: bool) | RetBool_errCode (rb_errCode: u32)
  | RetBool_void (rb_which: u32)

definition rb_discriminant :: "RetBool \<Rightarrow> u32" where
  "rb_discriminant r = (case r of RetBool_val _ \<Rightarrow> 0 | RetBool_errCode _ \<Rightarrow> 1 | RetBool_void d \<Rightarrow> d)"

definition xdr_RetBool :: "RetBool codec" where
  "xdr_RetBool = c_union rb_discriminant (\<lambda>d.
     if d = 0 then Some (c_struct RetBool_val rb_val c_bool)
     else if d = 1 then Some (c_struct RetBool_errCode rb_errCode c_u32)
     else Some (c_struct (\<lambda>_. RetBool_void d) (\<lambda>_. ()) c_void))"

datatype RetFd = RetFd_val (rf_val: FileHandler) | RetFd_errCode (rf_errCode: u32)
  | RetFd_void (rf_which: u32)

definition rf_discriminant :: "RetFd \<Rightarrow> u32" where
  "rf_discriminant r = (case r of RetFd_val _ \<Rightarrow> 0 | RetFd_errCode _ \<Rightarrow> 1 | RetFd_void d \<Rightarrow> d)"

definition xdr_RetFd :: "RetFd codec" where
  "xdr_RetFd = c_union rf_discriminant (\<lambda>d.
     if d = 0 then Some (c_struct RetFd_val rf_val xdr_FileHandler)
     else if d = 1 then Some (c_struct RetFd_errCode rf_errCode c_u32)
     else Some (c_struct (\<lambda>_. RetFd_void d) (\<lambda>_. ()) c_void))"

datatype RetContentsAndStat = RetContents_val (rc_val: ContentsAndStat)
  | RetContents_errCode (rc_errCode: u32) | RetContents_void (rc_which: u32)

definition rc_discriminant :: "RetContentsAndStat \<Rightarrow> u32" where
  "rc_discriminant r =
     (case r of RetContents_val _ \<Rightarrow> 0 | RetContents_errCode _ \<Rightarrow> 1 | RetContents_void d \<Rightarrow> d)"

definition xdr_RetContentsAndStat :: "RetContentsAndStat codec" where
  "xdr_RetContentsAndStat = c_union rc_discriminant (\<lambda>d.
     if d = 0 then Some (c_struct RetContents_val rc_val xdr_ContentsAndStat)
     else if d = 1 then Some (c_struct RetContents_errCode rc_errCode c_u32)
     else Some (c_struct (\<lambda>_. RetContents_void d) (\<lambda>_. ()) c_void))"

section \<open>Events\<close>

text \<open>An enum is loaded by reinterpretation, so any 32-bit value passes.\<close>

definition NOP :: u32 where "NOP = 0"
definition LOCK_CHANGED :: u32 where "LOCK_CHANGED = 0x100"
definition CONTENT_MODIFIED :: u32 where "CONTENT_MODIFIED = 0x200"

record EventContent =
  ev_event :: u32
  ev_fname :: string

definition xdr_EventContent :: "EventContent codec" where
  "xdr_EventContent = c_struct (\<lambda>(e, f). \<lparr>ev_event = e, ev_fname = f\<rparr>)
     (\<lambda>c. (ev_event c, ev_fname c)) (c_pair c_u32 c_string)"

section \<open>Contracts\<close>

lemma codec_MetaData [codec_intros]: "xdr_codec xdr_MetaData (\<lambda>_. True)"
  unfolding xdr_MetaData_def
  by (rule codec_struct, (rule codec_intros)+) simp

lemma codec_FileHandler [codec_intros]: "xdr_codec xdr_FileHandler (\<lambda>h. fits (fh_file_name h))"
  unfolding xdr_FileHandler_def
  by (rule codec_struct, (rule codec_intros)+) (simp add: fits_def)

lemma codec_ArgOpen [codec_intros]: "xdr_codec xdr_ArgOpen (\<lambda>a. fits (ao_name a))"
  unfolding xdr_ArgOpen_def
  by (rule codec_struct, (rule codec_intros)+) (simp add: fits_def)

lemma codec_ArgReopen [codec_intros]: "xdr_codec xdr_ArgReopen (\<lambda>a. fits (fh_file_name (ar_fd a)))"
  unfolding xdr_ArgReopen_def
  by (rule codec_struct, (rule codec_intros)+) (simp add: fits_def)

lemma codec_ArgSetContents [codec_intros]:
  "xdr_codec xdr_ArgSetContents (\<lambda>a. fits (fh_file_name (as_fd a)) \<and> fits (as_content a))"
  unfolding xdr_ArgSetContents_def
  by (rule codec_struct, (rule codec_intros)+) (simp add: fits_def)

lemma codec_ContentsAndStat [codec_intros]: "xdr_codec xdr_ContentsAndStat (\<lambda>a. fits (cs_content a))"
  unfolding xdr_ContentsAndStat_def
  by (rule codec_struct, (rule codec_intros)+) (simp add: fits_def)

lemma codec_EventContent [codec_intros]: "xdr_codec xdr_EventContent (\<lambda>e. fits (ev_fname e))"
  unfolding xdr_EventContent_def
  by (rule codec_struct, (rule codec_intros)+) (simp add: fits_def)

definition RetBool_ok :: "RetBool \<Rightarrow> bool" where
  "RetBool_ok r = (case r of RetBool_void d \<Rightarrow> d \<noteq> 0 \<and> d \<noteq> 1 | _ \<Rightarrow> True)"

definition RetFd_ok :: "RetFd \<Rightarrow> bool" where
  "RetFd_ok r = (case r of RetFd_val h \<Rightarrow> fits (fh_file_name h) | RetFd_void d \<Rightarrow> d \<noteq> 0 \<and> d \<noteq> 1 | _ \<Rightarrow> True)"

definition RetContents_ok :: "RetContentsAndStat \<Rightarrow> bool" where
  "RetContents_ok r = (case r of RetContents_val c \<Rightarrow> fits (cs_content c)
     | RetContents_void d \<Rightarrow> d \<noteq> 0 \<and> d \<noteq> 1 | _ \<Rightarrow> True)"

lemma codec_RetBool [codec_intros]: "xdr_codec xdr_RetBool RetBool_ok"
  unfolding xdr_RetBool_def
  by (rule codec_union)
     (auto simp: RetBool_ok_def rb_discriminant_def split: if_splits RetBool.split_asm
        intro!: codec_struct codec_intros)

lemma codec_RetFd [codec_intros]: "xdr_codec xdr_RetFd RetFd_ok"
  unfolding xdr_RetFd_def
  by (rule codec_union)
     (auto simp: RetFd_ok_def rf_discriminant_def split: if_splits RetFd.split_asm
        intro!: codec_struct codec_intros)

lemma codec_RetContentsAndStat [codec_intros]: "xdr_codec xdr_RetContentsAndStat RetContents_ok"
  unfolding xdr_RetContentsAndStat_def
  by (rule codec_union)
     (auto simp: RetContents_ok_def rc_discriminant_def split: if_splits RetContentsAndStat.split_asm
        intro!: codec_struct codec_intros)

interpretation retBool: xdr_codec xdr_RetBool RetBool_ok
  by (rule codec_RetBool)

interpretation retFd: xdr_codec xdr_RetFd RetFd_ok
  by (rule codec_RetFd)

interpretation retContents: xdr_codec xdr_RetContentsAndStat RetContents_ok
  by (rule codec_RetContentsAndStat)

interpretation fileHandler: xdr_codec xdr_FileHandler "\<lambda>h. fits (fh_file_name h)"
  by (rule codec_FileHandler)

interpretation argOpen: xdr_codec xdr_ArgOpen "\<lambda>a. fits (ao_name a)"
  by (rule codec_ArgOpen)

interpretation eventContent: xdr_codec xdr_EventContent "\<lambda>e. fits (ev_fname e)"
  by (rule codec_EventContent)

end
