(* ===== verification/Server_Paxos_Types.thy ===== *)
theory Server_Paxos_Types
  imports Server_Types
begin

text \<open>
  The replicated commands: \<open>src/server/server_paxos.hh\<close> (schema \<open>server_paxos.x\<close>). One
  parameter and one result struct per operation of the store, and the two unions that carry
  them. The schema declares \<open>instance_number\<close> as \<open>unsigned\<close>: 32 bits on the wire, where the
  store and the client protocol use 64.
\<close>

section \<open>Structs\<close>

record NewMetaData =
  nm_instance_number :: u64
  nm_content_generation_number :: u64
  nm_lock_generation_number :: u64
  nm_file_content_checksum :: u64
  nm_is_directory :: bool

definition xdr_NewMetaData :: "NewMetaData codec" where
  "xdr_NewMetaData = c_struct
     (\<lambda>(x0, x1, x2, x3, x4). \<lparr>nm_instance_number = x0, nm_content_generation_number = x1, nm_lock_generation_number = x2, nm_file_content_checksum = x3, nm_is_directory = x4\<rparr>)
     (\<lambda>r. (nm_instance_number r, nm_content_generation_number r, nm_lock_generation_number r, nm_file_content_checksum r, nm_is_directory r))
     (c_pair c_u64 (c_pair c_u64 (c_pair c_u64 (c_pair c_u64 c_bool))))"

record CheckAndCreateParam =
  ccp_file_name :: string
  ccp_is_dir :: bool

definition xdr_CheckAndCreateParam :: "CheckAndCreateParam codec" where
  "xdr_CheckAndCreateParam = c_struct
     (\<lambda>(x0, x1). \<lparr>ccp_file_name = x0, ccp_is_dir = x1\<rparr>)
     (\<lambda>r. (ccp_file_name r, ccp_is_dir r))
     (c_pair c_string c_bool)"

record CheckAndCreateResult =
  ccr_instance_number :: u32
  ccr_success :: bool

definition xdr_CheckAndCreateResult :: "CheckAndCreateResult codec" where
  "xdr_CheckAndCreateResult = c_struct
     (\<lambda>(x0, x1). \<lparr>ccr_instance_number = x0, ccr_success = x1\<rparr>)
     (\<lambda>r. (ccr_instance_number r, ccr_success r))
     (c_pair c_u32 c_bool)"

record CheckAndOpenParam =
  cop_file_name :: string

definition xdr_CheckAndOpenParam :: "CheckAndOpenParam codec" where
  "xdr_CheckAndOpenParam = c_struct
     (\<lambda>x0. \<lparr>cop_file_name = x0\<rparr>)
     (\<lambda>r. cop_file_name r)
     c_string"

record CheckAndOpenResult =
  cor_instance_number :: u32
  cor_success :: bool

definition xdr_CheckAndOpenResult :: "CheckAndOpenResult codec" where
  "xdr_CheckAndOpenResult = c_struct
     (\<lambda>(x0, x1). \<lparr>cor_instance_number = x0, cor_success = x1\<rparr>)
     (\<lambda>r. (cor_instance_number r, cor_success r))
     (c_pair c_u32 c_bool)"

record CheckAndDeleteParam =
  cdp_file_name :: string
  cdp_instance_number :: u32

definition xdr_CheckAndDeleteParam :: "CheckAndDeleteParam codec" where
  "xdr_CheckAndDeleteParam = c_struct
     (\<lambda>(x0, x1). \<lparr>cdp_file_name = x0, cdp_instance_number = x1\<rparr>)
     (\<lambda>r. (cdp_file_name r, cdp_instance_number r))
     (c_pair c_string c_u32)"

record CheckAndDeleteResult =
  cdr_success :: bool

definition xdr_CheckAndDeleteResult :: "CheckAndDeleteResult codec" where
  "xdr_CheckAndDeleteResult = c_struct
     (\<lambda>x0. \<lparr>cdr_success = x0\<rparr>)
     (\<lambda>r. cdr_success r)
     c_bool"

record CheckAndReadParam =
  crp_file_name :: string
  crp_instance_number :: u32

definition xdr_CheckAndReadParam :: "CheckAndReadParam codec" where
  "xdr_CheckAndReadParam = c_struct
     (\<lambda>(x0, x1). \<lparr>crp_file_name = x0, crp_instance_number = x1\<rparr>)
     (\<lambda>r. (crp_file_name r, crp_instance_number r))
     (c_pair c_string c_u32)"

record CheckAndReadResult =
  crr_content :: string
  crr_meta :: NewMetaData
  crr_success :: bool

definition xdr_CheckAndReadResult :: "CheckAndReadResult codec" where
  "xdr_CheckAndReadResult = c_struct
     (\<lambda>(x0, x1, x2). \<lparr>crr_content = x0, crr_meta = x1, crr_success = x2\<rparr>)
     (\<lambda>r. (crr_content r, crr_meta r, crr_success r))
     (c_pair c_string (c_pair xdr_NewMetaData c_bool))"

record CheckAndUpdateParam =
  cup_file_name :: string
  cup_instance_number :: u32
  cup_content :: string

definition xdr_CheckAndUpdateParam :: "CheckAndUpdateParam codec" where
  "xdr_CheckAndUpdateParam = c_struct
     (\<lambda>(x0, x1, x2). \<lparr>cup_file_name = x0, cup_instance_number = x1, cup_content = x2\<rparr>)
     (\<lambda>r. (cup_file_name r, cup_instance_number r, cup_content r))
     (c_pair c_string (c_pair c_u32 c_string))"

record CheckAndUpdateResult =
  cur_success :: bool

definition xdr_CheckAndUpdateResult :: "CheckAndUpdateResult codec" where
  "xdr_CheckAndUpdateResult = c_struct
     (\<lambda>x0. \<lparr>cur_success = x0\<rparr>)
     (\<lambda>r. cur_success r)
     c_bool"

record TestAndSetLockOwnerParam =
  tsp_file_name :: string
  tsp_instance_number :: u32
  tsp_client_id :: string

definition xdr_TestAndSetLockOwnerParam :: "TestAndSetLockOwnerParam codec" where
  "xdr_TestAndSetLockOwnerParam = c_struct
     (\<lambda>(x0, x1, x2). \<lparr>tsp_file_name = x0, tsp_instance_number = x1, tsp_client_id = x2\<rparr>)
     (\<lambda>r. (tsp_file_name r, tsp_instance_number r, tsp_client_id r))
     (c_pair c_string (c_pair c_u32 c_string))"

record TestAndSetLockOwnerResult =
  tsr_success :: bool

definition xdr_TestAndSetLockOwnerResult :: "TestAndSetLockOwnerResult codec" where
  "xdr_TestAndSetLockOwnerResult = c_struct
     (\<lambda>x0. \<lparr>tsr_success = x0\<rparr>)
     (\<lambda>r. tsr_success r)
     c_bool"

record ResetLockOwnerParam =
  rlp_file_name :: string
  rlp_instance_number :: u32

definition xdr_ResetLockOwnerParam :: "ResetLockOwnerParam codec" where
  "xdr_ResetLockOwnerParam = c_struct
     (\<lambda>(x0, x1). \<lparr>rlp_file_name = x0, rlp_instance_number = x1\<rparr>)
     (\<lambda>r. (rlp_file_name r, rlp_instance_number r))
     (c_pair c_string c_u32)"

record ResetLockOwnerResult =
  rlr_success :: bool

definition xdr_ResetLockOwnerResult :: "ResetLockOwnerResult codec" where
  "xdr_ResetLockOwnerResult = c_struct
     (\<lambda>x0. \<lparr>rlr_success = x0\<rparr>)
     (\<lambda>r. rlr_success r)
     c_bool"

record GetStatesParam =
  gsp_dumb :: bool

definition xdr_GetStatesParam :: "GetStatesParam codec" where
  "xdr_GetStatesParam = c_struct
     (\<lambda>x0. \<lparr>gsp_dumb = x0\<rparr>)
     (\<lambda>r. gsp_dumb r)
     c_bool"

record key_value =
  kv_key :: string
  kv_value :: string

definition xdr_key_value :: "key_value codec" where
  "xdr_key_value = c_struct
     (\<lambda>(x0, x1). \<lparr>kv_key = x0, kv_value = x1\<rparr>)
     (\<lambda>r. (kv_key r, kv_value r))
     (c_pair c_string c_string)"

record GetStatesResult =
  gsr_list :: "key_value list"

definition xdr_GetStatesResult :: "GetStatesResult codec" where
  "xdr_GetStatesResult = c_struct
     (\<lambda>x0. \<lparr>gsr_list = x0\<rparr>)
     (\<lambda>r. gsr_list r)
     (c_vector XDR_MAX_LEN xdr_key_value)"

section \<open>Unions\<close>

text \<open>\<open>enum CallType\<close>, the discriminants of the two unions.\<close>

definition CHECK_AND_CREATE :: u32 where "CHECK_AND_CREATE = 0"
definition CHECK_AND_OPEN :: u32 where "CHECK_AND_OPEN = 1"
definition CHECK_AND_DELETE :: u32 where "CHECK_AND_DELETE = 2"
definition CHECK_AND_READ :: u32 where "CHECK_AND_READ = 3"
definition CHECK_AND_UPDATE :: u32 where "CHECK_AND_UPDATE = 4"
definition TEST_AND_SET_LOCK_OWNER :: u32 where "TEST_AND_SET_LOCK_OWNER = 5"
definition RESET_LOCK_OWNER :: u32 where "RESET_LOCK_OWNER = 6"
definition GET_STATES :: u32 where "GET_STATES = 7"

lemmas CallType_defs = CHECK_AND_CREATE_def CHECK_AND_OPEN_def CHECK_AND_DELETE_def CHECK_AND_READ_def CHECK_AND_UPDATE_def TEST_AND_SET_LOCK_OWNER_def RESET_LOCK_OWNER_def GET_STATES_def

datatype ServerPaxosParam =
    Pm_CheckAndCreate (pm_CheckAndCreate: CheckAndCreateParam)
  | Pm_CheckAndOpen (pm_CheckAndOpen: CheckAndOpenParam)
  | Pm_CheckAndDelete (pm_CheckAndDelete: CheckAndDeleteParam)
  | Pm_CheckAndRead (pm_CheckAndRead: CheckAndReadParam)
  | Pm_CheckAndUpdate (pm_CheckAndUpdate: CheckAndUpdateParam)
  | Pm_TestAndSetLockOwner (pm_TestAndSetLockOwner: TestAndSetLockOwnerParam)
  | Pm_ResetLockOwner (pm_ResetLockOwner: ResetLockOwnerParam)
  | Pm_GetStates (pm_GetStates: GetStatesParam)

definition pm_type :: "ServerPaxosParam \<Rightarrow> u32" where
  "pm_type r = (case r of
       Pm_CheckAndCreate _ \<Rightarrow> CHECK_AND_CREATE
     | Pm_CheckAndOpen _ \<Rightarrow> CHECK_AND_OPEN
     | Pm_CheckAndDelete _ \<Rightarrow> CHECK_AND_DELETE
     | Pm_CheckAndRead _ \<Rightarrow> CHECK_AND_READ
     | Pm_CheckAndUpdate _ \<Rightarrow> CHECK_AND_UPDATE
     | Pm_TestAndSetLockOwner _ \<Rightarrow> TEST_AND_SET_LOCK_OWNER
     | Pm_ResetLockOwner _ \<Rightarrow> RESET_LOCK_OWNER
     | Pm_GetStates _ \<Rightarrow> GET_STATES)"

definition xdr_ServerPaxosParam :: "ServerPaxosParam codec" where
  "xdr_ServerPaxosParam = c_union pm_type (\<lambda>d.
     if d = CHECK_AND_CREATE then Some (c_struct Pm_CheckAndCreate pm_CheckAndCreate xdr_CheckAndCreateParam)
     else if d = CHECK_AND_OPEN then Some (c_struct Pm_CheckAndOpen pm_CheckAndOpen xdr_CheckAndOpenParam)
     else if d = CHECK_AND_DELETE then Some (c_struct Pm_CheckAndDelete pm_CheckAndDelete xdr_CheckAndDeleteParam)
     else if d = CHECK_AND_READ then Some (c_struct Pm_CheckAndRead pm_CheckAndRead xdr_CheckAndReadParam)
     else if d = CHECK_AND_UPDATE then Some (c_struct Pm_CheckAndUpdate pm_CheckAndUpdate xdr_CheckAndUpdateParam)
     else if d = TEST_AND_SET_LOCK_OWNER then Some (c_struct Pm_TestAndSetLockOwner pm_TestAndSetLockOwner xdr_TestAndSetLockOwnerParam)
     else if d = RESET_LOCK_OWNER then Some (c_struct Pm_ResetLockOwner pm_ResetLockOwner xdr_ResetLockOwnerParam)
     else if d = GET_STATES then Some (c_struct Pm_GetStates pm_GetStates xdr_GetStatesParam)
     else None)"

datatype ServerPaxosResult =
    Rs_CheckAndCreate (rs_CheckAndCreate: CheckAndCreateResult)
  | Rs_CheckAndOpen (rs_CheckAndOpen: CheckAndOpenResult)
  | Rs_CheckAndDelete (rs_CheckAndDelete: CheckAndDeleteResult)
  | Rs_CheckAndRead (rs_CheckAndRead: CheckAndReadResult)
  | Rs_CheckAndUpdate (rs_CheckAndUpdate: CheckAndUpdateResult)
  | Rs_TestAndSetLockOwner (rs_TestAndSetLockOwner: TestAndSetLockOwnerResult)
  | Rs_ResetLockOwner (rs_ResetLockOwner: ResetLockOwnerResult)
  | Rs_GetStates (rs_GetStates: GetStatesResult)

definition rs_type :: "ServerPaxosResult \<Rightarrow> u32" where
  "rs_type r = (case r of
       Rs_CheckAndCreate _ \<Rightarrow> CHECK_AND_CREATE
     | Rs_CheckAndOpen _ \<Rightarrow> CHECK_AND_OPEN
     | Rs_CheckAndDelete _ \<Rightarrow> CHECK_AND_DELETE
     | Rs_CheckAndRead _ \<Rightarrow> CHECK_AND_READ
     | Rs_CheckAndUpdate _ \<Rightarrow> CHECK_AND_UPDATE
     | Rs_TestAndSetLockOwner _ \<Rightarrow> TEST_AND_SET_LOCK_OWNER
     | Rs_ResetLockOwner _ \<Rightarrow> RESET_LOCK_OWNER
     | Rs_GetStates _ \<Rightarrow> GET_STATES)"

definition xdr_ServerPaxosResult :: "ServerPaxosResult codec" where
  "xdr_ServerPaxosResult = c_union rs_type (\<lambda>d.
     if d = CHECK_AND_CREATE then Some (c_struct Rs_CheckAndCreate rs_CheckAndCreate xdr_CheckAndCreateResult)
     else if d = CHECK_AND_OPEN then Some (c_struct Rs_CheckAndOpen rs_CheckAndOpen xdr_CheckAndOpenResult)
     else if d = CHECK_AND_DELETE then Some (c_struct Rs_CheckAndDelete rs_CheckAndDelete xdr_CheckAndDeleteResult)
     else if d = CHECK_AND_READ then Some (c_struct Rs_CheckAndRead rs_CheckAndRead xdr_CheckAndReadResult)
     else if d = CHECK_AND_UPDATE then Some (c_struct Rs_CheckAndUpdate rs_CheckAndUpdate xdr_CheckAndUpdateResult)
     else if d = TEST_AND_SET_LOCK_OWNER then Some (c_struct Rs_TestAndSetLockOwner rs_TestAndSetLockOwner xdr_TestAndSetLockOwnerResult)
     else if d = RESET_LOCK_OWNER then Some (c_struct Rs_ResetLockOwner rs_ResetLockOwner xdr_ResetLockOwnerResult)
     else if d = GET_STATES then Some (c_struct Rs_GetStates rs_GetStates xdr_GetStatesResult)
     else None)"

section \<open>Contracts\<close>

definition NewMetaData_ok :: "NewMetaData \<Rightarrow> bool" where
  "NewMetaData_ok r \<longleftrightarrow> True"

lemma codec_NewMetaData [codec_intros]: "xdr_codec xdr_NewMetaData NewMetaData_ok"
  unfolding xdr_NewMetaData_def
  by (rule codec_struct, (rule codec_intros codec_max_vector codec_max_opaque)+) (auto simp: NewMetaData_ok_def fits_def)

definition CheckAndCreateParam_ok :: "CheckAndCreateParam \<Rightarrow> bool" where
  "CheckAndCreateParam_ok r \<longleftrightarrow> fits (ccp_file_name r)"

lemma codec_CheckAndCreateParam [codec_intros]: "xdr_codec xdr_CheckAndCreateParam CheckAndCreateParam_ok"
  unfolding xdr_CheckAndCreateParam_def
  by (rule codec_struct, (rule codec_intros codec_max_vector codec_max_opaque)+) (auto simp: CheckAndCreateParam_ok_def fits_def)

definition CheckAndCreateResult_ok :: "CheckAndCreateResult \<Rightarrow> bool" where
  "CheckAndCreateResult_ok r \<longleftrightarrow> True"

lemma codec_CheckAndCreateResult [codec_intros]: "xdr_codec xdr_CheckAndCreateResult CheckAndCreateResult_ok"
  unfolding xdr_CheckAndCreateResult_def
  by (rule codec_struct, (rule codec_intros codec_max_vector codec_max_opaque)+) (auto simp: CheckAndCreateResult_ok_def fits_def)

definition CheckAndOpenParam_ok :: "CheckAndOpenParam \<Rightarrow> bool" where
  "CheckAndOpenParam_ok r \<longleftrightarrow> fits (cop_file_name r)"

lemma codec_CheckAndOpenParam [codec_intros]: "xdr_codec xdr_CheckAndOpenParam CheckAndOpenParam_ok"
  unfolding xdr_CheckAndOpenParam_def
  by (rule codec_struct, (rule codec_intros codec_max_vector codec_max_opaque)+) (auto simp: CheckAndOpenParam_ok_def fits_def)

definition CheckAndOpenResult_ok :: "CheckAndOpenResult \<Rightarrow> bool" where
  "CheckAndOpenResult_ok r \<longleftrightarrow> True"

lemma codec_CheckAndOpenResult [codec_intros]: "xdr_codec xdr_CheckAndOpenResult CheckAndOpenResult_ok"
  unfolding xdr_CheckAndOpenResult_def
  by (rule codec_struct, (rule codec_intros codec_max_vector codec_max_opaque)+) (auto simp: CheckAndOpenResult_ok_def fits_def)

definition CheckAndDeleteParam_ok :: "CheckAndDeleteParam \<Rightarrow> bool" where
  "CheckAndDeleteParam_ok r \<longleftrightarrow> fits (cdp_file_name r)"

lemma codec_CheckAndDeleteParam [codec_intros]: "xdr_codec xdr_CheckAndDeleteParam CheckAndDeleteParam_ok"
  unfolding xdr_CheckAndDeleteParam_def
  by (rule codec_struct, (rule codec_intros codec_max_vector codec_max_opaque)+) (auto simp: CheckAndDeleteParam_ok_def fits_def)

definition CheckAndDeleteResult_ok :: "CheckAndDeleteResult \<Rightarrow> bool" where
  "CheckAndDeleteResult_ok r \<longleftrightarrow> True"

lemma codec_CheckAndDeleteResult [codec_intros]: "xdr_codec xdr_CheckAndDeleteResult CheckAndDeleteResult_ok"
  unfolding xdr_CheckAndDeleteResult_def
  by (rule codec_struct, (rule codec_intros codec_max_vector codec_max_opaque)+) (auto simp: CheckAndDeleteResult_ok_def fits_def)

definition CheckAndReadParam_ok :: "CheckAndReadParam \<Rightarrow> bool" where
  "CheckAndReadParam_ok r \<longleftrightarrow> fits (crp_file_name r)"

lemma codec_CheckAndReadParam [codec_intros]: "xdr_codec xdr_CheckAndReadParam CheckAndReadParam_ok"
  unfolding xdr_CheckAndReadParam_def
  by (rule codec_struct, (rule codec_intros codec_max_vector codec_max_opaque)+) (auto simp: CheckAndReadParam_ok_def fits_def)

definition CheckAndReadResult_ok :: "CheckAndReadResult \<Rightarrow> bool" where
  "CheckAndReadResult_ok r \<longleftrightarrow> fits (crr_content r) \<and> NewMetaData_ok (crr_meta r)"

lemma codec_CheckAndReadResult [codec_intros]: "xdr_codec xdr_CheckAndReadResult CheckAndReadResult_ok"
  unfolding xdr_CheckAndReadResult_def
  by (rule codec_struct, (rule codec_intros codec_max_vector codec_max_opaque)+) (auto simp: CheckAndReadResult_ok_def fits_def)

definition CheckAndUpdateParam_ok :: "CheckAndUpdateParam \<Rightarrow> bool" where
  "CheckAndUpdateParam_ok r \<longleftrightarrow> fits (cup_file_name r) \<and> fits (cup_content r)"

lemma codec_CheckAndUpdateParam [codec_intros]: "xdr_codec xdr_CheckAndUpdateParam CheckAndUpdateParam_ok"
  unfolding xdr_CheckAndUpdateParam_def
  by (rule codec_struct, (rule codec_intros codec_max_vector codec_max_opaque)+) (auto simp: CheckAndUpdateParam_ok_def fits_def)

definition CheckAndUpdateResult_ok :: "CheckAndUpdateResult \<Rightarrow> bool" where
  "CheckAndUpdateResult_ok r \<longleftrightarrow> True"

lemma codec_CheckAndUpdateResult [codec_intros]: "xdr_codec xdr_CheckAndUpdateResult CheckAndUpdateResult_ok"
  unfolding xdr_CheckAndUpdateResult_def
  by (rule codec_struct, (rule codec_intros codec_max_vector codec_max_opaque)+) (auto simp: CheckAndUpdateResult_ok_def fits_def)

definition TestAndSetLockOwnerParam_ok :: "TestAndSetLockOwnerParam \<Rightarrow> bool" where
  "TestAndSetLockOwnerParam_ok r \<longleftrightarrow> fits (tsp_file_name r) \<and> fits (tsp_client_id r)"

lemma codec_TestAndSetLockOwnerParam [codec_intros]: "xdr_codec xdr_TestAndSetLockOwnerParam TestAndSetLockOwnerParam_ok"
  unfolding xdr_TestAndSetLockOwnerParam_def
  by (rule codec_struct, (rule codec_intros codec_max_vector codec_max_opaque)+) (auto simp: TestAndSetLockOwnerParam_ok_def fits_def)

definition TestAndSetLockOwnerResult_ok :: "TestAndSetLockOwnerResult \<Rightarrow> bool" where
  "TestAndSetLockOwnerResult_ok r \<longleftrightarrow> True"

lemma codec_TestAndSetLockOwnerResult [codec_intros]: "xdr_codec xdr_TestAndSetLockOwnerResult TestAndSetLockOwnerResult_ok"
  unfolding xdr_TestAndSetLockOwnerResult_def
  by (rule codec_struct, (rule codec_intros codec_max_vector codec_max_opaque)+) (auto simp: TestAndSetLockOwnerResult_ok_def fits_def)

definition ResetLockOwnerParam_ok :: "ResetLockOwnerParam \<Rightarrow> bool" where
  "ResetLockOwnerParam_ok r \<longleftrightarrow> fits (rlp_file_name r)"

lemma codec_ResetLockOwnerParam [codec_intros]: "xdr_codec xdr_ResetLockOwnerParam ResetLockOwnerParam_ok"
  unfolding xdr_ResetLockOwnerParam_def
  by (rule codec_struct, (rule codec_intros codec_max_vector codec_max_opaque)+) (auto simp: ResetLockOwnerParam_ok_def fits_def)

definition ResetLockOwnerResult_ok :: "ResetLockOwnerResult \<Rightarrow> bool" where
  "ResetLockOwnerResult_ok r \<longleftrightarrow> True"

lemma codec_ResetLockOwnerResult [codec_intros]: "xdr_codec xdr_ResetLockOwnerResult ResetLockOwnerResult_ok"
  unfolding xdr_ResetLockOwnerResult_def
  by (rule codec_struct, (rule codec_intros codec_max_vector codec_max_opaque)+) (auto simp: ResetLockOwnerResult_ok_def fits_def)

definition GetStatesParam_ok :: "GetStatesParam \<Rightarrow> bool" where
  "GetStatesParam_ok r \<longleftrightarrow> True"

lemma codec_GetStatesParam [codec_intros]: "xdr_codec xdr_GetStatesParam GetStatesParam_ok"
  unfolding xdr_GetStatesParam_def
  by (rule codec_struct, (rule codec_intros codec_max_vector codec_max_opaque)+) (auto simp: GetStatesParam_ok_def fits_def)

definition key_value_ok :: "key_value \<Rightarrow> bool" where
  "key_value_ok r \<longleftrightarrow> fits (kv_key r) \<and> fits (kv_value r)"

lemma codec_key_value [codec_intros]: "xdr_codec xdr_key_value key_value_ok"
  unfolding xdr_key_value_def
  by (rule codec_struct, (rule codec_intros codec_max_vector codec_max_opaque)+) (auto simp: key_value_ok_def fits_def)

definition key_values_ok :: "key_value list \<Rightarrow> bool" where
  "key_values_ok xs \<longleftrightarrow> length xs \<le> XDR_MAX_LEN \<and> (\<forall>x \<in> set xs. key_value_ok x)"

definition GetStatesResult_ok :: "GetStatesResult \<Rightarrow> bool" where
  "GetStatesResult_ok r \<longleftrightarrow> key_values_ok (gsr_list r)"

lemma codec_GetStatesResult [codec_intros]: "xdr_codec xdr_GetStatesResult GetStatesResult_ok"
  unfolding xdr_GetStatesResult_def
  by (rule codec_struct, (rule codec_intros codec_max_vector codec_max_opaque)+) (auto simp: GetStatesResult_ok_def key_values_ok_def)

definition ServerPaxosParam_ok :: "ServerPaxosParam \<Rightarrow> bool" where
  "ServerPaxosParam_ok r = (case r of
       Pm_CheckAndCreate x \<Rightarrow> CheckAndCreateParam_ok x
     | Pm_CheckAndOpen x \<Rightarrow> CheckAndOpenParam_ok x
     | Pm_CheckAndDelete x \<Rightarrow> CheckAndDeleteParam_ok x
     | Pm_CheckAndRead x \<Rightarrow> CheckAndReadParam_ok x
     | Pm_CheckAndUpdate x \<Rightarrow> CheckAndUpdateParam_ok x
     | Pm_TestAndSetLockOwner x \<Rightarrow> TestAndSetLockOwnerParam_ok x
     | Pm_ResetLockOwner x \<Rightarrow> ResetLockOwnerParam_ok x
     | Pm_GetStates x \<Rightarrow> GetStatesParam_ok x)"

lemma codec_ServerPaxosParam [codec_intros]: "xdr_codec xdr_ServerPaxosParam ServerPaxosParam_ok"
  unfolding xdr_ServerPaxosParam_def
  apply (rule codec_union)
   apply (auto simp: ServerPaxosParam_ok_def pm_type_def CallType_defs
      split: if_splits ServerPaxosParam.split_asm intro!: codec_struct codec_intros)[1]
  apply (auto simp: pm_type_def CallType_defs split: ServerPaxosParam.splits)
  done

definition ServerPaxosResult_ok :: "ServerPaxosResult \<Rightarrow> bool" where
  "ServerPaxosResult_ok r = (case r of
       Rs_CheckAndCreate x \<Rightarrow> CheckAndCreateResult_ok x
     | Rs_CheckAndOpen x \<Rightarrow> CheckAndOpenResult_ok x
     | Rs_CheckAndDelete x \<Rightarrow> CheckAndDeleteResult_ok x
     | Rs_CheckAndRead x \<Rightarrow> CheckAndReadResult_ok x
     | Rs_CheckAndUpdate x \<Rightarrow> CheckAndUpdateResult_ok x
     | Rs_TestAndSetLockOwner x \<Rightarrow> TestAndSetLockOwnerResult_ok x
     | Rs_ResetLockOwner x \<Rightarrow> ResetLockOwnerResult_ok x
     | Rs_GetStates x \<Rightarrow> GetStatesResult_ok x)"

lemma codec_ServerPaxosResult [codec_intros]: "xdr_codec xdr_ServerPaxosResult ServerPaxosResult_ok"
  unfolding xdr_ServerPaxosResult_def
  apply (rule codec_union)
   apply (auto simp: ServerPaxosResult_ok_def rs_type_def CallType_defs
      split: if_splits ServerPaxosResult.split_asm intro!: codec_struct codec_intros)[1]
  apply (auto simp: rs_type_def CallType_defs split: ServerPaxosResult.splits)
  done

interpretation paxosParam: xdr_codec xdr_ServerPaxosParam ServerPaxosParam_ok
  by (rule codec_ServerPaxosParam)

interpretation paxosResult: xdr_codec xdr_ServerPaxosResult ServerPaxosResult_ok
  by (rule codec_ServerPaxosResult)

end
