(* ===== verification/Paxos_Types.thy ===== *)
theory Paxos_Types
  imports Xdr_Codec
begin

text \<open>
  The inter-replica protocol: \<open>src/paxos/paxos.hh\<close> (schema \<open>paxos.x\<close>). Views, the normal-case
  messages (\<open>execute\<close>, \<open>replicate\<close>), the view-change messages and the \<open>init_view_request\<close>
  that a new leader broadcasts inside a \<open>replicate_arg\<close>.
\<close>

section \<open>Views and the normal case\<close>

record viewid_t =
  vi_counter :: u64
  vi_manager :: string

definition xdr_viewid_t :: "viewid_t codec" where
  "xdr_viewid_t = c_struct
     (\<lambda>(x0, x1). \<lparr>vi_counter = x0, vi_manager = x1\<rparr>)
     (\<lambda>r. (vi_counter r, vi_manager r))
     (c_pair c_u64 c_string)"

record viewstamp_t =
  vs_vid :: viewid_t
  vs_ts :: u32

definition xdr_viewstamp_t :: "viewstamp_t codec" where
  "xdr_viewstamp_t = c_struct
     (\<lambda>(x0, x1). \<lparr>vs_vid = x0, vs_ts = x1\<rparr>)
     (\<lambda>r. (vs_vid r, vs_ts r))
     (c_pair xdr_viewid_t c_u32)"

record cohort_t =
  co_id :: string
  co_addr :: string

definition xdr_cohort_t :: "cohort_t codec" where
  "xdr_cohort_t = c_struct
     (\<lambda>(x0, x1). \<lparr>co_id = x0, co_addr = x1\<rparr>)
     (\<lambda>r. (co_id r, co_addr r))
     (c_pair c_string c_string)"

record view_t =
  vw_vid :: viewid_t
  vw_primary :: cohort_t
  vw_backups :: "cohort_t list"

definition xdr_view_t :: "view_t codec" where
  "xdr_view_t = c_struct
     (\<lambda>(x0, x1, x2). \<lparr>vw_vid = x0, vw_primary = x1, vw_backups = x2\<rparr>)
     (\<lambda>r. (vw_vid r, vw_primary r, vw_backups r))
     (c_pair xdr_viewid_t (c_pair xdr_cohort_t (c_vector XDR_MAX_LEN xdr_cohort_t)))"

record execute_arg =
  ea_cid :: string
  ea_rid :: u32
  ea_vid :: viewid_t
  ea_request :: "byte list"

definition xdr_execute_arg :: "execute_arg codec" where
  "xdr_execute_arg = c_struct
     (\<lambda>(x0, x1, x2, x3). \<lparr>ea_cid = x0, ea_rid = x1, ea_vid = x2, ea_request = x3\<rparr>)
     (\<lambda>r. (ea_cid r, ea_rid r, ea_vid r, ea_request r))
     (c_pair c_string (c_pair c_u32 (c_pair xdr_viewid_t (c_opaque XDR_MAX_LEN))))"

record replicate_arg =
  ra_vs :: viewstamp_t
  ra_arg :: execute_arg
  ra_committed :: viewstamp_t

definition xdr_replicate_arg :: "replicate_arg codec" where
  "xdr_replicate_arg = c_struct
     (\<lambda>(x0, x1, x2). \<lparr>ra_vs = x0, ra_arg = x1, ra_committed = x2\<rparr>)
     (\<lambda>r. (ra_vs r, ra_arg r, ra_committed r))
     (c_pair xdr_viewstamp_t (c_pair xdr_execute_arg xdr_viewstamp_t))"

record replicate_res =
  rr_vs :: viewstamp_t

definition xdr_replicate_res :: "replicate_res codec" where
  "xdr_replicate_res = c_struct
     (\<lambda>x0. \<lparr>rr_vs = x0\<rparr>)
     (\<lambda>r. rr_vs r)
     xdr_viewstamp_t"

record execute_viewinfo =
  ei_vid :: viewid_t
  ei_primary :: string

definition xdr_execute_viewinfo :: "execute_viewinfo codec" where
  "xdr_execute_viewinfo = c_struct
     (\<lambda>(x0, x1). \<lparr>ei_vid = x0, ei_primary = x1\<rparr>)
     (\<lambda>r. (ei_vid r, ei_primary r))
     (c_pair xdr_viewid_t c_string)"

datatype execute_res = Er_reply (er_reply: "byte list") | Er_viewinfo (er_viewinfo: execute_viewinfo)

definition er_disc :: "execute_res \<Rightarrow> u32" where
  "er_disc r = bool_to_uint (case r of Er_reply _ \<Rightarrow> True | Er_viewinfo _ \<Rightarrow> False)"

definition xdr_execute_res :: "execute_res codec" where
  "xdr_execute_res = c_union er_disc (\<lambda>d.
     if d \<noteq> 0 then Some (c_struct Er_reply er_reply (c_opaque XDR_MAX_LEN))
     else Some (c_struct Er_viewinfo er_viewinfo xdr_execute_viewinfo))"

section \<open>View change\<close>

text \<open>\<open>vc_state::_mode_t\<close>\<close>

definition VC_ACTIVE :: u32 where "VC_ACTIVE = 0"
definition VC_MANAGER :: u32 where "VC_MANAGER = 1"
definition VC_UNDERLING :: u32 where "VC_UNDERLING = 2"

lemmas mode_defs = VC_ACTIVE_def VC_MANAGER_def VC_UNDERLING_def

record vc_state =
  vc_mode :: u32
  vc_view :: view_t

definition xdr_vc_state :: "vc_state codec" where
  "xdr_vc_state = c_struct
     (\<lambda>(x0, x1). \<lparr>vc_mode = x0, vc_view = x1\<rparr>)
     (\<lambda>r. (vc_mode r, vc_view r))
     (c_pair c_u32 xdr_view_t)"

record view_change_arg =
  va_oldview :: view_t
  va_newvid :: viewid_t

definition xdr_view_change_arg :: "view_change_arg codec" where
  "xdr_view_change_arg = c_struct
     (\<lambda>(x0, x1). \<lparr>va_oldview = x0, va_newvid = x1\<rparr>)
     (\<lambda>r. (va_oldview r, va_newvid r))
     (c_pair xdr_view_t xdr_viewid_t)"

record view_change_reject =
  vj_oldview :: view_t
  vj_newid :: viewid_t

definition xdr_view_change_reject :: "view_change_reject codec" where
  "xdr_view_change_reject = c_struct
     (\<lambda>(x0, x1). \<lparr>vj_oldview = x0, vj_newid = x1\<rparr>)
     (\<lambda>r. (vj_oldview r, vj_newid r))
     (c_pair xdr_view_t xdr_viewid_t)"

record view_change_accept =
  vt_myid :: string
  vt_latest :: viewstamp_t
  vt_newview :: view_t

definition xdr_view_change_accept :: "view_change_accept codec" where
  "xdr_view_change_accept = c_struct
     (\<lambda>(x0, x1, x2). \<lparr>vt_myid = x0, vt_latest = x1, vt_newview = x2\<rparr>)
     (\<lambda>r. (vt_myid r, vt_latest r, vt_newview r))
     (c_pair c_string (c_pair xdr_viewstamp_t xdr_view_t))"

datatype view_change_res = Vr_accept (vr_accept: view_change_accept) | Vr_reject (vr_reject: view_change_reject)

definition vr_disc :: "view_change_res \<Rightarrow> u32" where
  "vr_disc r = bool_to_uint (case r of Vr_accept _ \<Rightarrow> True | Vr_reject _ \<Rightarrow> False)"

definition xdr_view_change_res :: "view_change_res codec" where
  "xdr_view_change_res = c_union vr_disc (\<lambda>d.
     if d \<noteq> 0 then Some (c_struct Vr_accept vr_accept xdr_view_change_accept)
     else Some (c_struct Vr_reject vr_reject xdr_view_change_reject))"

record new_view_arg =
  na_latest :: viewstamp_t
  na_view :: view_t

definition xdr_new_view_arg :: "new_view_arg codec" where
  "xdr_new_view_arg = c_struct
     (\<lambda>(x0, x1). \<lparr>na_latest = x0, na_view = x1\<rparr>)
     (\<lambda>r. (na_latest r, na_view r))
     (c_pair xdr_viewstamp_t xdr_view_t)"

record new_view_res =
  nr_accepted :: bool

definition xdr_new_view_res :: "new_view_res codec" where
  "xdr_new_view_res = c_struct
     (\<lambda>x0. \<lparr>nr_accepted = x0\<rparr>)
     (\<lambda>r. nr_accepted r)
     c_bool"

record init_view_arg =
  ia_view :: view_t

definition xdr_init_view_arg :: "init_view_arg codec" where
  "xdr_init_view_arg = c_struct
     (\<lambda>x0. \<lparr>ia_view = x0\<rparr>)
     (\<lambda>r. ia_view r)
     xdr_view_t"

record init_view_res =
  ir_succeed :: bool

definition xdr_init_view_res :: "init_view_res codec" where
  "xdr_init_view_res = c_struct
     (\<lambda>x0. \<lparr>ir_succeed = x0\<rparr>)
     (\<lambda>r. ir_succeed r)
     c_bool"

record init_view_request =
  iq_newview :: view_t
  iq_prev :: viewstamp_t

definition xdr_init_view_request :: "init_view_request codec" where
  "xdr_init_view_request = c_struct
     (\<lambda>(x0, x1). \<lparr>iq_newview = x0, iq_prev = x1\<rparr>)
     (\<lambda>r. (iq_newview r, iq_prev r))
     (c_pair xdr_view_t xdr_viewstamp_t)"

section \<open>Contracts\<close>

definition viewid_t_ok :: "viewid_t \<Rightarrow> bool" where
  "viewid_t_ok r \<longleftrightarrow> fits (vi_manager r)"

lemma codec_viewid_t [codec_intros]: "xdr_codec xdr_viewid_t viewid_t_ok"
  unfolding xdr_viewid_t_def
  by (rule codec_struct, (rule codec_intros codec_max_vector codec_max_opaque)+) (auto simp: viewid_t_ok_def fits_def)

definition viewstamp_t_ok :: "viewstamp_t \<Rightarrow> bool" where
  "viewstamp_t_ok r \<longleftrightarrow> viewid_t_ok (vs_vid r)"

lemma codec_viewstamp_t [codec_intros]: "xdr_codec xdr_viewstamp_t viewstamp_t_ok"
  unfolding xdr_viewstamp_t_def
  by (rule codec_struct, (rule codec_intros codec_max_vector codec_max_opaque)+) (auto simp: viewstamp_t_ok_def fits_def)

definition cohort_t_ok :: "cohort_t \<Rightarrow> bool" where
  "cohort_t_ok r \<longleftrightarrow> fits (co_id r) \<and> fits (co_addr r)"

lemma codec_cohort_t [codec_intros]: "xdr_codec xdr_cohort_t cohort_t_ok"
  unfolding xdr_cohort_t_def
  by (rule codec_struct, (rule codec_intros codec_max_vector codec_max_opaque)+) (auto simp: cohort_t_ok_def fits_def)

definition cohort_ts_ok :: "cohort_t list \<Rightarrow> bool" where
  "cohort_ts_ok xs \<longleftrightarrow> length xs \<le> XDR_MAX_LEN \<and> (\<forall>x \<in> set xs. cohort_t_ok x)"

definition view_t_ok :: "view_t \<Rightarrow> bool" where
  "view_t_ok r \<longleftrightarrow> viewid_t_ok (vw_vid r) \<and> cohort_t_ok (vw_primary r) \<and> cohort_ts_ok (vw_backups r)"

lemma codec_view_t [codec_intros]: "xdr_codec xdr_view_t view_t_ok"
  unfolding xdr_view_t_def
  by (rule codec_struct, (rule codec_intros codec_max_vector codec_max_opaque)+) (auto simp: view_t_ok_def fits_def cohort_ts_ok_def)

definition execute_arg_ok :: "execute_arg \<Rightarrow> bool" where
  "execute_arg_ok r \<longleftrightarrow> fits (ea_cid r) \<and> viewid_t_ok (ea_vid r) \<and> length (ea_request r) \<le> XDR_MAX_LEN"

lemma codec_execute_arg [codec_intros]: "xdr_codec xdr_execute_arg execute_arg_ok"
  unfolding xdr_execute_arg_def
  by (rule codec_struct, (rule codec_intros codec_max_vector codec_max_opaque)+) (auto simp: execute_arg_ok_def fits_def)

definition replicate_arg_ok :: "replicate_arg \<Rightarrow> bool" where
  "replicate_arg_ok r \<longleftrightarrow> viewstamp_t_ok (ra_vs r) \<and> execute_arg_ok (ra_arg r) \<and> viewstamp_t_ok (ra_committed r)"

lemma codec_replicate_arg [codec_intros]: "xdr_codec xdr_replicate_arg replicate_arg_ok"
  unfolding xdr_replicate_arg_def
  by (rule codec_struct, (rule codec_intros codec_max_vector codec_max_opaque)+) (auto simp: replicate_arg_ok_def fits_def)

definition replicate_res_ok :: "replicate_res \<Rightarrow> bool" where
  "replicate_res_ok r \<longleftrightarrow> viewstamp_t_ok (rr_vs r)"

lemma codec_replicate_res [codec_intros]: "xdr_codec xdr_replicate_res replicate_res_ok"
  unfolding xdr_replicate_res_def
  by (rule codec_struct, (rule codec_intros codec_max_vector codec_max_opaque)+) (auto simp: replicate_res_ok_def fits_def)

definition execute_viewinfo_ok :: "execute_viewinfo \<Rightarrow> bool" where
  "execute_viewinfo_ok r \<longleftrightarrow> viewid_t_ok (ei_vid r) \<and> fits (ei_primary r)"

lemma codec_execute_viewinfo [codec_intros]: "xdr_codec xdr_execute_viewinfo execute_viewinfo_ok"
  unfolding xdr_execute_viewinfo_def
  by (rule codec_struct, (rule codec_intros codec_max_vector codec_max_opaque)+) (auto simp: execute_viewinfo_ok_def fits_def)

definition execute_res_ok :: "execute_res \<Rightarrow> bool" where
  "execute_res_ok r = (case r of Er_reply x \<Rightarrow> length (x) \<le> XDR_MAX_LEN | Er_viewinfo x \<Rightarrow> execute_viewinfo_ok (x))"

lemma codec_execute_res [codec_intros]: "xdr_codec xdr_execute_res execute_res_ok"
  unfolding xdr_execute_res_def
  by (rule codec_union)
     (auto simp: execute_res_ok_def er_disc_def bool_to_uint_def split: if_splits execute_res.split_asm
        intro!: codec_struct codec_intros codec_max_opaque)

definition vc_state_ok :: "vc_state \<Rightarrow> bool" where
  "vc_state_ok r \<longleftrightarrow> view_t_ok (vc_view r)"

lemma codec_vc_state [codec_intros]: "xdr_codec xdr_vc_state vc_state_ok"
  unfolding xdr_vc_state_def
  by (rule codec_struct, (rule codec_intros codec_max_vector codec_max_opaque)+) (auto simp: vc_state_ok_def fits_def)

definition view_change_arg_ok :: "view_change_arg \<Rightarrow> bool" where
  "view_change_arg_ok r \<longleftrightarrow> view_t_ok (va_oldview r) \<and> viewid_t_ok (va_newvid r)"

lemma codec_view_change_arg [codec_intros]: "xdr_codec xdr_view_change_arg view_change_arg_ok"
  unfolding xdr_view_change_arg_def
  by (rule codec_struct, (rule codec_intros codec_max_vector codec_max_opaque)+) (auto simp: view_change_arg_ok_def fits_def)

definition view_change_reject_ok :: "view_change_reject \<Rightarrow> bool" where
  "view_change_reject_ok r \<longleftrightarrow> view_t_ok (vj_oldview r) \<and> viewid_t_ok (vj_newid r)"

lemma codec_view_change_reject [codec_intros]: "xdr_codec xdr_view_change_reject view_change_reject_ok"
  unfolding xdr_view_change_reject_def
  by (rule codec_struct, (rule codec_intros codec_max_vector codec_max_opaque)+) (auto simp: view_change_reject_ok_def fits_def)

definition view_change_accept_ok :: "view_change_accept \<Rightarrow> bool" where
  "view_change_accept_ok r \<longleftrightarrow> fits (vt_myid r) \<and> viewstamp_t_ok (vt_latest r) \<and> view_t_ok (vt_newview r)"

lemma codec_view_change_accept [codec_intros]: "xdr_codec xdr_view_change_accept view_change_accept_ok"
  unfolding xdr_view_change_accept_def
  by (rule codec_struct, (rule codec_intros codec_max_vector codec_max_opaque)+) (auto simp: view_change_accept_ok_def fits_def)

definition view_change_res_ok :: "view_change_res \<Rightarrow> bool" where
  "view_change_res_ok r = (case r of Vr_accept x \<Rightarrow> view_change_accept_ok (x) | Vr_reject x \<Rightarrow> view_change_reject_ok (x))"

lemma codec_view_change_res [codec_intros]: "xdr_codec xdr_view_change_res view_change_res_ok"
  unfolding xdr_view_change_res_def
  by (rule codec_union)
     (auto simp: view_change_res_ok_def vr_disc_def bool_to_uint_def split: if_splits view_change_res.split_asm
        intro!: codec_struct codec_intros codec_max_opaque)

definition new_view_arg_ok :: "new_view_arg \<Rightarrow> bool" where
  "new_view_arg_ok r \<longleftrightarrow> viewstamp_t_ok (na_latest r) \<and> view_t_ok (na_view r)"

lemma codec_new_view_arg [codec_intros]: "xdr_codec xdr_new_view_arg new_view_arg_ok"
  unfolding xdr_new_view_arg_def
  by (rule codec_struct, (rule codec_intros codec_max_vector codec_max_opaque)+) (auto simp: new_view_arg_ok_def fits_def)

definition new_view_res_ok :: "new_view_res \<Rightarrow> bool" where
  "new_view_res_ok r \<longleftrightarrow> True"

lemma codec_new_view_res [codec_intros]: "xdr_codec xdr_new_view_res new_view_res_ok"
  unfolding xdr_new_view_res_def
  by (rule codec_struct, (rule codec_intros codec_max_vector codec_max_opaque)+) (auto simp: new_view_res_ok_def fits_def)

definition init_view_arg_ok :: "init_view_arg \<Rightarrow> bool" where
  "init_view_arg_ok r \<longleftrightarrow> view_t_ok (ia_view r)"

lemma codec_init_view_arg [codec_intros]: "xdr_codec xdr_init_view_arg init_view_arg_ok"
  unfolding xdr_init_view_arg_def
  by (rule codec_struct, (rule codec_intros codec_max_vector codec_max_opaque)+) (auto simp: init_view_arg_ok_def fits_def)

definition init_view_res_ok :: "init_view_res \<Rightarrow> bool" where
  "init_view_res_ok r \<longleftrightarrow> True"

lemma codec_init_view_res [codec_intros]: "xdr_codec xdr_init_view_res init_view_res_ok"
  unfolding xdr_init_view_res_def
  by (rule codec_struct, (rule codec_intros codec_max_vector codec_max_opaque)+) (auto simp: init_view_res_ok_def fits_def)

definition init_view_request_ok :: "init_view_request \<Rightarrow> bool" where
  "init_view_request_ok r \<longleftrightarrow> view_t_ok (iq_newview r) \<and> viewstamp_t_ok (iq_prev r)"

lemma codec_init_view_request [codec_intros]: "xdr_codec xdr_init_view_request init_view_request_ok"
  unfolding xdr_init_view_request_def
  by (rule codec_struct, (rule codec_intros codec_max_vector codec_max_opaque)+) (auto simp: init_view_request_ok_def fits_def)

interpretation replicateArg: xdr_codec xdr_replicate_arg replicate_arg_ok
  by (rule codec_replicate_arg)

interpretation executeRes: xdr_codec xdr_execute_res execute_res_ok
  by (rule codec_execute_res)

interpretation initViewRequest: xdr_codec xdr_init_view_request init_view_request_ok
  by (rule codec_init_view_request)

end
