(* ===== verification/Rpc_Msg.thy ===== *)
theory Rpc_Msg
  imports Xdr_Codec
begin

text \<open>
  RPC messages (RFC 5531): the types of \<open>src/xdrpp/xdrpp/rpc_msg.x\<close>, the header checks and
  error replies of \<open>rpc_msg.cc\<close>, \<open>srpc.cc\<close> and \<open>server.cc\<close>.
\<close>

section \<open>Types\<close>

text \<open>Enumerations, loaded without a range check.\<close>

definition CALL :: u32 where "CALL = 0"
definition REPLY :: u32 where "REPLY = 1"
definition MSG_ACCEPTED :: u32 where "MSG_ACCEPTED = 0"
definition MSG_DENIED :: u32 where "MSG_DENIED = 1"
definition SUCCESS :: u32 where "SUCCESS = 0"
definition PROG_UNAVAIL :: u32 where "PROG_UNAVAIL = 1"
definition PROG_MISMATCH :: u32 where "PROG_MISMATCH = 2"
definition PROC_UNAVAIL :: u32 where "PROC_UNAVAIL = 3"
definition GARBAGE_ARGS :: u32 where "GARBAGE_ARGS = 4"
definition SYSTEM_ERR :: u32 where "SYSTEM_ERR = 5"
definition RPC_MISMATCH :: u32 where "RPC_MISMATCH = 0"
definition AUTH_ERROR :: u32 where "AUTH_ERROR = 1"
definition AUTH_FAILED :: u32 where "AUTH_FAILED = 7"

lemmas rpc_enum_defs = CALL_def REPLY_def MSG_ACCEPTED_def MSG_DENIED_def SUCCESS_def
  PROG_UNAVAIL_def PROG_MISMATCH_def PROC_UNAVAIL_def GARBAGE_ARGS_def SYSTEM_ERR_def
  RPC_MISMATCH_def AUTH_ERROR_def AUTH_FAILED_def

record opaque_auth =
  oa_flavor :: u32
  oa_body :: "byte list"

definition xdr_opaque_auth :: "opaque_auth codec" where
  "xdr_opaque_auth = c_struct
     (\<lambda>(x0, x1). \<lparr>oa_flavor = x0, oa_body = x1\<rparr>)
     (\<lambda>r. (oa_flavor r, oa_body r))
     (c_pair c_u32 (c_opaque 400))"

record call_body =
  cb_rpcvers :: u32
  cb_prog :: u32
  cb_vers :: u32
  cb_proc :: u32
  cb_cred :: opaque_auth
  cb_verf :: opaque_auth

definition xdr_call_body :: "call_body codec" where
  "xdr_call_body = c_struct
     (\<lambda>(x0, x1, x2, x3, x4, x5). \<lparr>cb_rpcvers = x0, cb_prog = x1, cb_vers = x2, cb_proc = x3, cb_cred = x4, cb_verf = x5\<rparr>)
     (\<lambda>r. (cb_rpcvers r, cb_prog r, cb_vers r, cb_proc r, cb_cred r, cb_verf r))
     (c_pair c_u32 (c_pair c_u32 (c_pair c_u32 (c_pair c_u32 (c_pair xdr_opaque_auth xdr_opaque_auth)))))"

record mismatch_info =
  mi_low :: u32
  mi_high :: u32

definition xdr_mismatch_info :: "mismatch_info codec" where
  "xdr_mismatch_info = c_struct
     (\<lambda>(x0, x1). \<lparr>mi_low = x0, mi_high = x1\<rparr>)
     (\<lambda>r. (mi_low r, mi_high r))
     (c_pair c_u32 c_u32)"

text \<open>
  The status union of an accepted reply: \<open>SUCCESS\<close> carries an empty opaque array, every value
  but \<open>PROG_MISMATCH\<close> is void.
\<close>

datatype reply_data = Rd_mismatch (rd_mismatch: mismatch_info) | Rd_stat (rd_stat: u32)

definition rd_disc :: "reply_data \<Rightarrow> u32" where
  "rd_disc r = (case r of Rd_mismatch _ \<Rightarrow> PROG_MISMATCH | Rd_stat s \<Rightarrow> s)"

definition xdr_reply_data :: "reply_data codec" where
  "xdr_reply_data = c_union rd_disc (\<lambda>d.
     if d = PROG_MISMATCH then Some (c_struct Rd_mismatch rd_mismatch xdr_mismatch_info)
     else Some (c_struct (\<lambda>_. Rd_stat d) (\<lambda>_. ()) c_void))"

record accepted_reply =
  ac_verf :: opaque_auth
  ac_reply_data :: reply_data

definition xdr_accepted_reply :: "accepted_reply codec" where
  "xdr_accepted_reply = c_struct
     (\<lambda>(x0, x1). \<lparr>ac_verf = x0, ac_reply_data = x1\<rparr>)
     (\<lambda>r. (ac_verf r, ac_reply_data r))
     (c_pair xdr_opaque_auth xdr_reply_data)"

datatype rejected_reply = Rj_mismatch (rj_mismatch: mismatch_info) | Rj_auth (rj_why: u32)

definition rj_disc :: "rejected_reply \<Rightarrow> u32" where
  "rj_disc r = (case r of Rj_mismatch _ \<Rightarrow> RPC_MISMATCH | Rj_auth _ \<Rightarrow> AUTH_ERROR)"

definition xdr_rejected_reply :: "rejected_reply codec" where
  "xdr_rejected_reply = c_union rj_disc (\<lambda>d.
     if d = RPC_MISMATCH then Some (c_struct Rj_mismatch rj_mismatch xdr_mismatch_info)
     else if d = AUTH_ERROR then Some (c_struct Rj_auth rj_why c_u32)
     else None)"

datatype reply_body = Rb_areply (rb_areply: accepted_reply) | Rb_rreply (rb_rreply: rejected_reply)

definition rb_disc :: "reply_body \<Rightarrow> u32" where
  "rb_disc r = (case r of Rb_areply _ \<Rightarrow> MSG_ACCEPTED | Rb_rreply _ \<Rightarrow> MSG_DENIED)"

definition xdr_reply_body :: "reply_body codec" where
  "xdr_reply_body = c_union rb_disc (\<lambda>d.
     if d = MSG_ACCEPTED then Some (c_struct Rb_areply rb_areply xdr_accepted_reply)
     else if d = MSG_DENIED then Some (c_struct Rb_rreply rb_rreply xdr_rejected_reply)
     else None)"

datatype rpc_body = Rp_cbody (rp_cbody: call_body) | Rp_rbody (rp_rbody: reply_body)

definition mtype :: "rpc_body \<Rightarrow> u32" where
  "mtype r = (case r of Rp_cbody _ \<Rightarrow> CALL | Rp_rbody _ \<Rightarrow> REPLY)"

definition xdr_rpc_body :: "rpc_body codec" where
  "xdr_rpc_body = c_union mtype (\<lambda>d.
     if d = CALL then Some (c_struct Rp_cbody rp_cbody xdr_call_body)
     else if d = REPLY then Some (c_struct Rp_rbody rp_rbody xdr_reply_body)
     else None)"

record rpc_msg =
  rm_xid :: u32
  rm_body :: rpc_body

definition xdr_rpc_msg :: "rpc_msg codec" where
  "xdr_rpc_msg = c_struct
     (\<lambda>(x0, x1). \<lparr>rm_xid = x0, rm_body = x1\<rparr>)
     (\<lambda>r. (rm_xid r, rm_body r))
     (c_pair c_u32 xdr_rpc_body)"

section \<open>Contracts\<close>

lemma codec_auth_body: "xdr_codec (c_opaque 400) (\<lambda>s. length s \<le> 400)"
  by (rule codec_opaque) simp

definition opaque_auth_ok :: "opaque_auth \<Rightarrow> bool" where
  "opaque_auth_ok r \<longleftrightarrow> length (oa_body r) \<le> 400"

lemma codec_opaque_auth [codec_intros]: "xdr_codec xdr_opaque_auth opaque_auth_ok"
  unfolding xdr_opaque_auth_def
  by (rule codec_struct, (rule codec_intros codec_auth_body)+) (auto simp: opaque_auth_ok_def fits_def)

definition call_body_ok :: "call_body \<Rightarrow> bool" where
  "call_body_ok r \<longleftrightarrow> opaque_auth_ok (cb_cred r) \<and> opaque_auth_ok (cb_verf r)"

lemma codec_call_body [codec_intros]: "xdr_codec xdr_call_body call_body_ok"
  unfolding xdr_call_body_def
  by (rule codec_struct, (rule codec_intros codec_auth_body)+) (auto simp: call_body_ok_def fits_def)

definition mismatch_info_ok :: "mismatch_info \<Rightarrow> bool" where
  "mismatch_info_ok r \<longleftrightarrow> True"

lemma codec_mismatch_info [codec_intros]: "xdr_codec xdr_mismatch_info mismatch_info_ok"
  unfolding xdr_mismatch_info_def
  by (rule codec_struct, (rule codec_intros codec_auth_body)+) (auto simp: mismatch_info_ok_def fits_def)

definition reply_data_ok :: "reply_data \<Rightarrow> bool" where
  "reply_data_ok r = (case r of Rd_mismatch _ \<Rightarrow> True | Rd_stat s \<Rightarrow> s \<noteq> PROG_MISMATCH)"

lemma codec_reply_data [codec_intros]: "xdr_codec xdr_reply_data reply_data_ok"
  unfolding xdr_reply_data_def
  by (rule codec_union)
     (auto simp: reply_data_ok_def rd_disc_def mismatch_info_ok_def split: if_splits reply_data.split_asm
        intro!: codec_struct codec_intros)

definition accepted_reply_ok :: "accepted_reply \<Rightarrow> bool" where
  "accepted_reply_ok r \<longleftrightarrow> opaque_auth_ok (ac_verf r) \<and> reply_data_ok (ac_reply_data r)"

lemma codec_accepted_reply [codec_intros]: "xdr_codec xdr_accepted_reply accepted_reply_ok"
  unfolding xdr_accepted_reply_def
  by (rule codec_struct, (rule codec_intros)+) (auto simp: accepted_reply_ok_def fits_def)

lemma codec_rejected_reply [codec_intros]: "xdr_codec xdr_rejected_reply (\<lambda>_. True)"
  unfolding xdr_rejected_reply_def
  apply (rule codec_union)
   apply (auto simp: rj_disc_def rpc_enum_defs mismatch_info_ok_def
      split: if_splits rejected_reply.split_asm intro!: codec_struct codec_intros)[1]
  apply (auto simp: rj_disc_def split: rejected_reply.splits)
  done

definition reply_body_ok :: "reply_body \<Rightarrow> bool" where
  "reply_body_ok r = (case r of Rb_areply a \<Rightarrow> accepted_reply_ok a | Rb_rreply _ \<Rightarrow> True)"

lemma codec_reply_body [codec_intros]: "xdr_codec xdr_reply_body reply_body_ok"
  unfolding xdr_reply_body_def
  apply (rule codec_union)
   apply (auto simp: rb_disc_def rpc_enum_defs reply_body_ok_def
      split: if_splits reply_body.split_asm intro!: codec_struct codec_intros)[1]
  apply (auto simp: rb_disc_def split: reply_body.splits)
  done

definition rpc_body_ok :: "rpc_body \<Rightarrow> bool" where
  "rpc_body_ok r = (case r of Rp_cbody c \<Rightarrow> call_body_ok c | Rp_rbody b \<Rightarrow> reply_body_ok b)"

lemma codec_rpc_body [codec_intros]: "xdr_codec xdr_rpc_body rpc_body_ok"
  unfolding xdr_rpc_body_def
  apply (rule codec_union)
   apply (auto simp: mtype_def rpc_enum_defs rpc_body_ok_def
      split: if_splits rpc_body.split_asm intro!: codec_struct codec_intros)[1]
  apply (auto simp: mtype_def split: rpc_body.splits)
  done

definition rpc_msg_ok :: "rpc_msg \<Rightarrow> bool" where
  "rpc_msg_ok r \<longleftrightarrow> rpc_body_ok (rm_body r)"

lemma codec_rpc_msg [codec_intros]: "xdr_codec xdr_rpc_msg rpc_msg_ok"
  unfolding xdr_rpc_msg_def
  by (rule codec_struct, (rule codec_intros)+) (auto simp: rpc_msg_ok_def fits_def)

interpretation rpcMsg: xdr_codec xdr_rpc_msg rpc_msg_ok
  by (rule codec_rpc_msg)

section \<open>Headers\<close>

definition auth_none :: opaque_auth where
  "auth_none = \<lparr>oa_flavor = 0, oa_body = []\<rparr>"

text \<open>\<open>rhdr.body.mtype(REPLY).rbody().stat(MSG_ACCEPTED).areply().reply_data.stat(s)\<close> on a fresh header.\<close>

definition accepted_hdr :: "u32 \<Rightarrow> u32 \<Rightarrow> rpc_msg" where
  "accepted_hdr xid s = \<lparr>rm_xid = xid, rm_body = Rp_rbody (Rb_areply
     \<lparr>ac_verf = auth_none, ac_reply_data = (if s = PROG_MISMATCH
        then Rd_mismatch \<lparr>mi_low = 0, mi_high = 0\<rparr> else Rd_stat s)\<rparr>)\<rparr>"

text \<open>\<open>rpc_mkerr\<close>: the request header turned into an error reply; the xid stays.\<close>

definition rpc_mkerr_accept :: "rpc_msg \<Rightarrow> u32 \<Rightarrow> rpc_msg" where
  "rpc_mkerr_accept m stat = accepted_hdr (rm_xid m) stat"

definition rpc_mkerr_reject :: "rpc_msg \<Rightarrow> u32 \<Rightarrow> rpc_msg" where
  "rpc_mkerr_reject m stat = m\<lparr>rm_body := Rp_rbody (Rb_rreply
     (if stat = RPC_MISMATCH then Rj_mismatch \<lparr>mi_low = 2, mi_high = 2\<rparr> else Rj_auth AUTH_FAILED))\<rparr>"

text \<open>\<open>prepare_call\<close>: the global \<open>xid_counter\<close> is incremented first.\<close>

definition prepare_call :: "u32 \<Rightarrow> u32 \<Rightarrow> u32 \<Rightarrow> u32 \<Rightarrow> u32 \<times> rpc_msg" where
  "prepare_call prog vers proc xid_counter =
     (xid_counter + 1, \<lparr>rm_xid = xid_counter + 1, rm_body = Rp_cbody
        \<lparr>cb_rpcvers = 2, cb_prog = prog, cb_vers = vers, cb_proc = proc,
         cb_cred = auth_none, cb_verf = auth_none\<rparr>\<rparr>)"

text \<open>
  \<open>check_call_hdr\<close>: what the client throws for each header. A left value is the exception
  with the status it carries.
\<close>

datatype call_error = Call_not_reply | Call_accept u32 | Call_auth u32 | Call_reject u32

definition check_call_hdr :: "rpc_msg \<Rightarrow> call_error + unit" where
  "check_call_hdr hdr = (case rm_body hdr of
       Rp_cbody _ \<Rightarrow> Inl Call_not_reply
     | Rp_rbody (Rb_areply a) \<Rightarrow>
         if rd_disc (ac_reply_data a) = SUCCESS then Inr ()
         else Inl (Call_accept (rd_disc (ac_reply_data a)))
     | Rp_rbody (Rb_rreply (Rj_auth why)) \<Rightarrow> Inl (Call_auth why)
     | Rp_rbody (Rb_rreply (Rj_mismatch _)) \<Rightarrow> Inl (Call_reject RPC_MISMATCH))"

lemma accepted_hdr_ok [simp]: "rpc_msg_ok (accepted_hdr xid s)"
  by (simp add: rpc_msg_ok_def accepted_hdr_def rpc_body_ok_def reply_body_ok_def
      accepted_reply_ok_def reply_data_ok_def opaque_auth_ok_def auth_none_def)

lemma rpc_mkerr_ok [simp]: "rpc_msg_ok (rpc_mkerr_accept m s)" "rpc_msg_ok (rpc_mkerr_reject m s)"
  by (simp_all add: rpc_mkerr_accept_def) (simp add: rpc_mkerr_reject_def rpc_msg_ok_def
      rpc_body_ok_def reply_body_ok_def)

lemma prepare_call_ok [simp]: "rpc_msg_ok (snd (prepare_call p v c x))"
  by (simp add: prepare_call_def rpc_msg_ok_def rpc_body_ok_def call_body_ok_def
      opaque_auth_ok_def auth_none_def)

lemma check_accepted_hdr:
  "check_call_hdr (accepted_hdr xid s) = (if s = SUCCESS then Inr () else Inl (Call_accept s))"
  by (simp add: check_call_hdr_def accepted_hdr_def rd_disc_def rpc_enum_defs)

end
