(* ===== verification/Decimal.thy ===== *)
theory Decimal
  imports Chubby_Prelude
begin

text \<open>
  Numbers as text: \<open>std::to_string\<close> and the format \<open>%d\<close> write them, \<open>std::stoi\<close> and \<open>std::stoul\<close> read
  them. Reading inverts writing.
\<close>

section \<open>Writing\<close>

fun digits :: "nat \<Rightarrow> string" where
  "digits n = (if n < 10 then [char_of (48 + n)] else digits (n div 10) @ [char_of (48 + n mod 10)])"

declare digits.simps [simp del]

section \<open>Reading\<close>

definition is_digit :: "char \<Rightarrow> bool" where
  "is_digit c \<longleftrightarrow> of_char c \<in> {48..(57 :: nat)}"

definition is_space :: "char \<Rightarrow> bool" where
  "is_space c \<longleftrightarrow> of_char c = (32 :: nat) \<or> of_char c \<in> {9..(13 :: nat)}"

definition digits_value :: "string \<Rightarrow> int" where
  "digits_value s = foldl (\<lambda>v c. 10 * v + (int (of_char c) - 48)) 0 s"

text \<open>
  What \<open>strtol\<close> and \<open>strtoul\<close> read in base 10: white space, an optional sign, at least one digit; the
  rest is ignored. The result is the sign and the magnitude.
\<close>

definition strto :: "string \<Rightarrow> (bool \<times> int) option" where
  "strto s =
     (let s = dropWhile is_space s;
          neg = (s \<noteq> [] \<and> hd s = CHR ''-'');
          s = (if s \<noteq> [] \<and> hd s \<in> {CHR ''-'', CHR ''+''} then tl s else s);
          ds = takeWhile is_digit s
      in if ds = [] then None else Some (neg, digits_value ds))"

text \<open>
  \<open>std::stoul\<close>, on 64 bits: a negative number wraps around, and a magnitude that does not fit
  throws, like a text without a number.
\<close>

definition stoul :: "string \<Rightarrow> u64 option" where
  "stoul s = (case strto s of
     None \<Rightarrow> None
   | Some (neg, n) \<Rightarrow> if 2 ^ 64 \<le> n then None else Some (if neg then - word_of_int n else word_of_int n))"

section \<open>Reading what was written\<close>

lemma digit_char: "d < 10 \<Longrightarrow> of_char (char_of (48 + d) :: char) = (48 + d :: nat)"
  by (simp add: of_char_of)

lemma digits_value_append: "digits_value (s @ [c]) = 10 * digits_value s + (int (of_char c) - 48)"
  by (simp add: digits_value_def)

lemma digits_value_digits: "digits_value (digits n) = int n"
proof (induction n rule: digits.induct)
  case (1 n)
  show ?case
  proof (cases "n < 10")
    case True
    then show ?thesis using digit_char [of n] by (subst digits.simps) (simp add: digits_value_def)
  next
    case False
    with 1 have IH: "digits_value (digits (n div 10)) = int (n div 10)" by simp
    have "digits n = digits (n div 10) @ [char_of (48 + n mod 10)]"
      using False by (subst digits.simps) simp
    then show ?thesis
      using IH digit_char [of "n mod 10"] by (simp add: digits_value_append zdiv_int zmod_int)
  qed
qed

lemma digits_digits: "\<forall>c \<in> set (digits n). is_digit c"
proof (induction n rule: digits.induct)
  case (1 n)
  then show ?case
    using digit_char [of n] digit_char [of "n mod 10"]
    by (subst digits.simps) (auto simp: is_digit_def)
qed

lemma digits_nonempty: "digits n \<noteq> []"
  by (subst digits.simps) simp

lemma is_digit_sign: "is_digit c \<Longrightarrow> \<not> is_space c \<and> c \<noteq> CHR ''-'' \<and> c \<noteq> CHR ''+'' \<and> c \<noteq> CHR 0x0A"
  by (auto simp: is_digit_def is_space_def)

lemma strto_digits [simp]: "strto (digits n) = Some (False, int n)"
proof -
  obtain c s where d: "digits n = c # s" using digits_nonempty [of n] by (cases "digits n") auto
  have c: "is_digit c" and all: "takeWhile is_digit (c # s) = c # s"
    using digits_digits [of n] d by (auto simp: takeWhile_eq_all_conv)
  show ?thesis
    using is_digit_sign [OF c] all digits_value_digits [of n] unfolding d strto_def by (simp add: Let_def)
qed

lemma digits_inj [simp]: "digits m = digits n \<longleftrightarrow> m = n"
  by (metis digits_value_digits of_nat_eq_iff)

lemma stoul_digits: "n < 2 ^ 64 \<Longrightarrow> stoul (digits n) = Some (of_nat n)"
proof -
  assume "n < 2 ^ 64"
  then have "int n < 2 ^ 64" by (simp only: of_nat_less_numeral_power_cancel_iff)
  then have "\<not> 2 ^ 64 \<le> int n" by (simp only: not_le)
  then show ?thesis by (simp only: stoul_def strto_digits option.case prod.case if_False of_int_of_nat_eq)
qed

end
