(* ===== verification/Chubby_Names.thy ===== *)
theory Chubby_Names
  imports Chubby_Prelude
begin

text \<open>
  Node names: \<open>checkName\<close> and \<open>checkChar\<close> of \<open>src/server/serverimpl.cc\<close>, and \<open>getParentName\<close>,
  which \<open>serverimpl.cc\<close> and \<open>serverdb.cc\<close> both define with the same body.
\<close>

section \<open>Definitions\<close>

text \<open>The loop runs \<open>pos\<close> down from the last character and stops at 0 or at a slash.\<close>

fun parent_pos :: "string \<Rightarrow> nat \<Rightarrow> nat" where
  "parent_pos key 0 = 0"
| "parent_pos key (Suc pos) =
     (if key ! Suc pos = CHR ''/'' then Suc pos else parent_pos key pos)"

text \<open>For the empty key \<open>pos\<close> is \<open>-1\<close>: the loop does not run and \<open>string(key, 0, -1)\<close> is the key.\<close>

definition getParentName :: "string \<Rightarrow> string" where
  "getParentName key =
     (if key = [] then []
      else let pos = parent_pos key (length key - 1)
           in if pos = 0 then ''/'' else take pos key)"

definition validChars :: string where
  "validChars = ''_/0123456789abcdefghijklmnopqrstuvwxyzABCDEFGHIJKLMNOPQRSTUVWXYZ''"

definition checkChar :: "char \<Rightarrow> bool" where
  "checkChar c \<longleftrightarrow> c \<in> set validChars"

fun has_double_slash :: "string \<Rightarrow> bool" where
  "has_double_slash (a # b # s) = (a = CHR ''/'' \<and> b = CHR ''/'' \<or> has_double_slash (b # s))"
| "has_double_slash s = False"

text \<open>\<open>key[0]\<close> of the empty string is the terminating NUL.\<close>

definition checkName :: "string \<Rightarrow> bool" where
  "checkName key =
     (if key = [] \<or> key ! 0 \<noteq> CHR ''/'' then False
      else if key ! (length key - 1) = CHR ''/'' then False
      else if \<not> list_all checkChar key then False
      else \<not> has_double_slash key)"

section \<open>Lemmas\<close>

lemma has_double_slash_iff:
  "has_double_slash s \<longleftrightarrow> (\<exists>i. Suc i < length s \<and> s ! i = CHR ''/'' \<and> s ! Suc i = CHR ''/'')"
proof (induction s rule: has_double_slash.induct)
  case (1 a b s)
  show ?case (is "_ \<longleftrightarrow> (\<exists>i. ?P i)")
  proof
    assume "has_double_slash (a # b # s)"
    then consider "a = CHR ''/''" "b = CHR ''/''" | "has_double_slash (b # s)" by auto
    then show "\<exists>i. ?P i"
    proof cases
      case 1
      then have "?P 0" by simp
      then show ?thesis by blast
    next
      case 2
      with "1" obtain i where "Suc i < length (b # s)" "(b # s) ! i = CHR ''/''"
        "(b # s) ! Suc i = CHR ''/''" by blast
      then have "?P (Suc i)" by simp
      then show ?thesis by blast
    qed
  next
    assume "\<exists>i. ?P i"
    then obtain i where i: "?P i" by blast
    show "has_double_slash (a # b # s)"
    proof (cases i)
      case 0
      with i show ?thesis by simp
    next
      case (Suc j)
      with i "1" show ?thesis by auto
    qed
  qed
qed auto

lemma parent_pos_le: "parent_pos key n \<le> n"
  by (induction n) (auto intro: le_SucI)

lemma parent_pos_slash: "parent_pos key n \<noteq> 0 \<Longrightarrow> key ! parent_pos key n = CHR ''/''"
  by (induction n) auto

lemma parent_pos_last: "parent_pos key n < i \<Longrightarrow> i \<le> n \<Longrightarrow> key ! i \<noteq> CHR ''/''"
  by (induction n) (auto simp: le_Suc_eq split: if_splits)

lemma checkName_simps:
  assumes "checkName n"
  shows "n \<noteq> []" "n ! 0 = CHR ''/''" "n ! (length n - 1) \<noteq> CHR ''/''" "list_all checkChar n"
    "\<not> has_double_slash n"
  using assms by (auto simp: checkName_def split: if_splits)

lemma checkName_length: "checkName n \<Longrightarrow> 1 < length n"
  using checkName_simps [of n] by (cases n; cases "tl n") auto

lemma checkName_char: "checkName n \<Longrightarrow> c \<in> set n \<Longrightarrow> checkChar c"
  using checkName_simps(4) [of n] by (auto simp: list_all_iff)

lemma checkName_special:
  assumes "checkName n"
  shows "CHR ''|'' \<notin> set n" "CHR 0x22 \<notin> set n" "CHR 0x00 \<notin> set n"
proof -
  have "\<not> checkChar (CHR ''|'')" "\<not> checkChar (CHR 0x22)" "\<not> checkChar (CHR 0x00)"
    by (simp_all add: checkChar_def validChars_def)
  then show "CHR ''|'' \<notin> set n" "CHR 0x22 \<notin> set n" "CHR 0x00 \<notin> set n"
    using checkName_char [OF assms] by blast+
qed

lemma parent_pos_checkName:
  assumes n: "checkName n" and False: "parent_pos n (length n - 1) \<noteq> 0"
  shows "checkName (take (parent_pos n (length n - 1)) n)"
proof -
  let ?pos = "parent_pos n (length n - 1)"
  have lt: "?pos < length n"
    using parent_pos_le [of n "length n - 1"] checkName_simps(1) [OF n] by (cases n) auto
  let ?p = "take ?pos n"
  have slash: "n ! ?pos = CHR ''/''" by (rule parent_pos_slash [OF False])
  have "n ! (?pos - 1) \<noteq> CHR ''/''"
  proof
    assume "n ! (?pos - 1) = CHR ''/''"
    with slash lt False have "Suc (?pos - 1) < length n \<and> n ! (?pos - 1) = CHR ''/''
        \<and> n ! Suc (?pos - 1) = CHR ''/''" by simp
    then have "has_double_slash n" unfolding has_double_slash_iff by blast
    with checkName_simps(5) [OF n] show False by blast
  qed
  moreover have "\<not> has_double_slash ?p"
    using checkName_simps(5) [OF n] lt unfolding has_double_slash_iff by auto
  moreover have "list_all checkChar ?p"
    using checkName_simps(4) [OF n] by (auto simp: list_all_iff dest: in_set_takeD)
  ultimately show "checkName ?p"
    using False lt checkName_simps(2) [OF n] by (auto simp: checkName_def)
qed

lemma getParentName_root_or_name:
  assumes "checkName n"
  shows "getParentName n = ''/'' \<or> checkName (getParentName n)"
  using checkName_simps(1) [OF assms] parent_pos_checkName [OF assms]
  by (simp add: getParentName_def Let_def)

lemma getParentName_shorter:
  assumes "checkName n"
  shows "length (getParentName n) < length n"
proof -
  have "parent_pos n (length n - 1) < length n"
    using parent_pos_le [of n "length n - 1"] checkName_length [OF assms] by linarith
  then show ?thesis
    using checkName_length [OF assms] checkName_simps(1) [OF assms]
    by (simp add: getParentName_def Let_def)
qed

lemma getParentName_neq: "checkName n \<Longrightarrow> getParentName n \<noteq> n"
  using getParentName_shorter [of n] by auto

lemma not_checkName_root: "\<not> checkName ''/''"
  by (simp add: checkName_def)

text \<open>A name splits into its parent and a last component without a slash.\<close>

lemma getParentName_split:
  assumes "checkName n"
  obtains base where "base \<noteq> []" and "CHR ''/'' \<notin> set base"
    and "n = (if getParentName n = ''/'' then ''/'' else getParentName n @ ''/'') @ base"
proof -
  let ?pos = "parent_pos n (length n - 1)"
  have n: "1 < length n" by (rule checkName_length [OF assms])
  have lt: "?pos < length n" using parent_pos_le [of n "length n - 1"] n by linarith
  have slash: "n ! ?pos = CHR ''/''"
  proof (cases "?pos = 0")
    case True
    with checkName_simps(2) [OF assms] show ?thesis by simp
  next
    case False
    then show ?thesis by (rule parent_pos_slash)
  qed
  have eq: "n = take ?pos n @ CHR ''/'' # drop (Suc ?pos) n"
    using id_take_nth_drop [OF lt] slash by simp
  have base: "CHR ''/'' \<notin> set (drop (Suc ?pos) n)"
  proof
    assume "CHR ''/'' \<in> set (drop (Suc ?pos) n)"
    then obtain i where "i < length n - Suc ?pos" "n ! (Suc ?pos + i) = CHR ''/''"
      by (auto simp: in_set_conv_nth)
    with parent_pos_last [of n "length n - 1" "Suc ?pos + i"] show False by auto
  qed
  have "?pos \<noteq> length n - 1"
    using slash checkName_simps(3) [OF assms] by metis
  with lt have ne: "drop (Suc ?pos) n \<noteq> []" by auto
  have "n = (if getParentName n = ''/'' then ''/'' else getParentName n @ ''/'') @ drop (Suc ?pos) n"
  proof (cases "?pos = 0")
    case True
    with eq n show ?thesis by (auto simp: getParentName_def)
  next
    case False
    have "getParentName n = take ?pos n" using n False by (auto simp: getParentName_def)
    moreover have "take ?pos n \<noteq> ''/''"
      using parent_pos_checkName [OF assms False] not_checkName_root by metis
    ultimately show ?thesis using eq by simp
  qed
  with ne base that show thesis by blast
qed

end
