(* ===== verification/Server_Db.thy ===== *)
theory Server_Db
  imports Decimal Chubby_Names Server_Types
begin

text \<open>
  The replicated store: class \<open>ServerDB\<close> of \<open>src/server/serverdb.cc\<close>. The state is the content
  of the two tables \<open>fs\<close> and \<open>kvpairs\<close>; every operation is the sequence of checks, queries and
  updates of the method of the same name.

  Statements are built as text with \<open>sqlite3_vmprintf\<close>. What the conversions do to the
  arguments is part of the model: \<open>%s\<close> stops at the first NUL byte, \<open>%d\<close> takes the low 32 bits
  of its 64-bit argument as a signed number, and a double-quoted \<open>%s\<close> that spells the name of a
  column is that column of the updated row. A double quote inside an argument ends the quoted
  text, so that the statement is no longer the one of the program: the error \<open>Sql_text\<close>. The
  limits of the library (a million bytes of statement, memory) are not modelled.
\<close>

section \<open>Tables\<close>

record fs_row =
  r_rowid :: int
  r_name :: string
  r_content :: string
  r_lock_owner :: string
  r_instance_number :: int
  r_content_generation_number :: int
  r_lock_generation_number :: int
  r_file_content_checksum :: int
  r_is_directory :: int

text \<open>The rows of \<open>fs\<close> are listed in the order of their row ids, the order of a table scan.\<close>

record server_db =
  fs :: "fs_row list"
  kvpairs :: "string \<rightharpoonup> int"

datatype db_error = Sql_text | Db_assert

definition NO_OWNER :: string where
  "NO_OWNER = ''empty''"

section \<open>The text of a statement\<close>

definition cstr :: "string \<Rightarrow> string" where
  "cstr s = takeWhile (\<lambda>c. c \<noteq> CHR 0x00) s"

definition fmt_d :: "u64 \<Rightarrow> int" where
  "fmt_d v = sint (ucast v :: 32 word)"

text \<open>\<open>s.integer(i)\<close> assigned to a \<open>uint64_t\<close>.\<close>

definition integer :: "int \<Rightarrow> u64" where
  "integer v = word_of_int v"

definition lower_char :: "char \<Rightarrow> char" where
  "lower_char c = (if of_char c \<in> {65..(90 :: nat)} then char_of (of_char c + 32 :: nat) else c)"

definition columns :: "string list" where
  "columns = [''name'', ''content'', ''lock_owner'', ''instance_number'',
     ''content_generation_number'', ''lock_generation_number'', ''file_content_checksum'',
     ''is_directory'', ''rowid'', ''oid'', ''_rowid_'']"

definition is_column :: "string \<Rightarrow> bool" where
  "is_column s \<longleftrightarrow> map lower_char s \<in> set columns"

definition int_text :: "int \<Rightarrow> string" where
  "int_text i = (if i < 0 then CHR ''-'' # digits (nat (- i)) else digits (nat i))"

text \<open>The text of a column of a row, by the column's name.\<close>

definition col_text :: "fs_row \<Rightarrow> string \<Rightarrow> string" where
  "col_text r c =
     (let c = map lower_char c in
      if c = ''name'' then r_name r
      else if c = ''content'' then r_content r
      else if c = ''lock_owner'' then r_lock_owner r
      else if c = ''instance_number'' then int_text (r_instance_number r)
      else if c = ''content_generation_number'' then int_text (r_content_generation_number r)
      else if c = ''lock_generation_number'' then int_text (r_lock_generation_number r)
      else if c = ''file_content_checksum'' then int_text (r_file_content_checksum r)
      else if c = ''is_directory'' then int_text (r_is_directory r)
      else int_text (r_rowid r))"

text \<open>
  \<open>SET column = "s"\<close> in an update of \<open>fs\<close>, and \<open>WHERE name = "s"\<close>. A name that spells a
  column would turn the condition into a comparison of two columns; names of nodes begin with
  a slash, and the model stops at any other.
\<close>

definition sql_value :: "string \<Rightarrow> db_error + (fs_row \<Rightarrow> string)" where
  "sql_value s =
     (let s = cstr s in
      if CHR 0x22 \<in> set s then Inl Sql_text
      else Inr (\<lambda>r. if is_column s then col_text r s else s))"

definition sql_name :: "string \<Rightarrow> db_error + string" where
  "sql_name s =
     (let s = cstr s in
      if CHR 0x22 \<in> set s \<or> is_column s then Inl Sql_text else Inr s)"

section \<open>Queries and updates\<close>

definition select :: "server_db \<Rightarrow> string \<Rightarrow> fs_row option" where
  "select db n = List.find (\<lambda>r. r_name r = n) (fs db)"

definition update_where :: "string \<Rightarrow> (fs_row \<Rightarrow> fs_row) \<Rightarrow> server_db \<Rightarrow> server_db" where
  "update_where n f db = db\<lparr>fs := map (\<lambda>r. if r_name r = n then f r else r) (fs db)\<rparr>"

definition delete_where :: "string \<Rightarrow> server_db \<Rightarrow> server_db" where
  "delete_where n db = db\<lparr>fs := filter (\<lambda>r. r_name r \<noteq> n) (fs db)\<rparr>"

text \<open>The row id of a new row is one above the greatest in the table.\<close>

definition insert_row :: "string \<Rightarrow> u64 \<Rightarrow> bool \<Rightarrow> server_db \<Rightarrow> server_db" where
  "insert_row n i d db =
     db\<lparr>fs := fs db @
       [\<lparr>r_rowid = (case fs db of [] \<Rightarrow> 1 | r # rs \<Rightarrow> r_rowid (last (fs db)) + 1),
         r_name = n, r_content = '''', r_lock_owner = NO_OWNER,
         r_instance_number = fmt_d i, r_content_generation_number = 0,
         r_lock_generation_number = 0, r_file_content_checksum = 0,
         r_is_directory = (if d then 1 else 0)\<rparr>]\<rparr>"

definition set_kv :: "string \<Rightarrow> u64 \<Rightarrow> server_db \<Rightarrow> server_db" where
  "set_kv k v db = db\<lparr>kvpairs := (kvpairs db)(k := map_option (\<lambda>_. fmt_d v) (kvpairs db k))\<rparr>"

text \<open>
  \<open>UPDATE fs SET content = "%s", content_generation_number = %d, file_content_checksum = %d
  WHERE name = "%s";\<close>
\<close>

definition update_content ::
    "string \<Rightarrow> u64 \<Rightarrow> u64 \<Rightarrow> string \<Rightarrow> server_db \<Rightarrow> db_error + server_db" where
  "update_content c cn cs n db =
     bindR (sql_value c) (\<lambda>v. bindR (sql_name n) (\<lambda>n.
       Inr (update_where n (\<lambda>r. r\<lparr>r_content := v r,
         r_content_generation_number := fmt_d cn, r_file_content_checksum := fmt_d cs\<rparr>) db)))"

definition dirContentCreate :: "string \<Rightarrow> string \<Rightarrow> string" where
  "dirContentCreate content node = content @ ''|'' @ node"

definition dirContentDelete :: "string \<Rightarrow> string \<Rightarrow> string" where
  "dirContentDelete content node =
     foldl (\<lambda>str token. if token = [] then str
                        else if node \<noteq> token then str @ ''|'' @ token else str)
       '''' (getlines CHR ''|'' content)"

section \<open>Operations\<close>

text \<open>
  An operation returns its result and the new store. A result that the method stores through a
  pointer is an option: \<open>None\<close> when the method returns false and leaves the pointed-to variable
  as it was. The parameter \<open>h\<close> is \<open>str_hash\<close>, the \<open>std::hash\<close> of the C++ library.
\<close>

definition checkAndCreate ::
    "(string \<Rightarrow> u64) \<Rightarrow> string \<Rightarrow> bool \<Rightarrow> server_db \<Rightarrow> db_error + (u64 option \<times> server_db)" where
  "checkAndCreate h file_name is_dir db =
     bindR (sql_name file_name) (\<lambda>n.
     if select db n \<noteq> None then Inr (None, db)
     else let parent_name = getParentName file_name in
     bindR (if parent_name \<noteq> ''/''
            then bindR (sql_name parent_name) (\<lambda>p.
              case select db p of
                None \<Rightarrow> Inr None
              | Some par \<Rightarrow>
                  if r_is_directory par = 0 then Inr None
                  else Inr (Some (r_content par, integer (r_content_generation_number par))))
            else Inr (Some ('''', 0)))
       (\<lambda>parent. case parent of
         None \<Rightarrow> Inr (None, db)
       | Some (parent_content, parent_cn) \<Rightarrow>
           (case kvpairs db ''max_instance_number'' of
              None \<Rightarrow> Inl Db_assert
            | Some v \<Rightarrow>
                let max_instance_num = integer v + 1;
                    db1 = insert_row n max_instance_num is_dir db;
                    db2 = set_kv ''max_instance_number'' max_instance_num db1
                in bindR (if parent_name \<noteq> ''/''
                          then let new_parent_c = dirContentCreate parent_content file_name
                               in update_content new_parent_c (parent_cn + 1) (h new_parent_c)
                                    parent_name db2
                          else Inr db2)
                     (\<lambda>db3. Inr (Some max_instance_num, db3)))))"

definition checkAndOpen :: "string \<Rightarrow> server_db \<Rightarrow> db_error + (u64 option \<times> server_db)" where
  "checkAndOpen file_name db =
     bindR (sql_name file_name) (\<lambda>n.
       case select db n of
         None \<Rightarrow> Inr (None, db)
       | Some r \<Rightarrow> Inr (Some (integer (r_instance_number r)), db))"

definition checkAndDelete ::
    "(string \<Rightarrow> u64) \<Rightarrow> string \<Rightarrow> u64 \<Rightarrow> server_db \<Rightarrow> db_error + (bool \<times> server_db)" where
  "checkAndDelete h file_name instance_number db =
     bindR (sql_name file_name) (\<lambda>n.
     case select db n of
       None \<Rightarrow> Inr (False, db)
     | Some r \<Rightarrow>
         if r_lock_owner r \<noteq> NO_OWNER then Inr (False, db)
         else if integer (r_instance_number r) \<noteq> instance_number then Inr (False, db)
         else if r_is_directory r \<noteq> 0 \<and> r_content r \<noteq> '''' then Inr (False, db)
         else let parent_name = getParentName file_name in
         bindR (if parent_name \<noteq> ''/''
                then bindR (sql_name parent_name) (\<lambda>p.
                  case select db p of
                    None \<Rightarrow> Inl Db_assert
                  | Some par \<Rightarrow>
                      if r_is_directory par \<noteq> 1 then Inl Db_assert
                      else Inr (r_content par, integer (r_content_generation_number par)))
                else Inr ('''', 0))
           (\<lambda>(parent_content, parent_cn).
             let db1 = delete_where n db
             in bindR (if parent_name \<noteq> ''/''
                       then let new_parent_c = dirContentDelete parent_content file_name
                            in update_content new_parent_c (parent_cn + 1) (h new_parent_c)
                                 parent_name db1
                       else Inr db1)
                  (\<lambda>db2. Inr (True, db2))))"

definition checkAndRead ::
    "string \<Rightarrow> u64 \<Rightarrow> server_db \<Rightarrow> db_error + ((string \<times> MetaData) option \<times> server_db)" where
  "checkAndRead file_name instance_number db =
     bindR (sql_name file_name) (\<lambda>n.
     case select db n of
       None \<Rightarrow> Inr (None, db)
     | Some r \<Rightarrow>
         if integer (r_instance_number r) \<noteq> instance_number then Inr (None, db)
         else Inr (Some (r_content r,
           \<lparr>md_instance_number = integer (r_instance_number r),
            md_content_generation_number = integer (r_content_generation_number r),
            md_lock_generation_number = integer (r_lock_generation_number r),
            md_file_content_checksum = integer (r_file_content_checksum r),
            md_is_directory = (r_is_directory r \<noteq> 0)\<rparr>), db))"

definition checkAndUpdate ::
    "(string \<Rightarrow> u64) \<Rightarrow> string \<Rightarrow> u64 \<Rightarrow> string \<Rightarrow> server_db \<Rightarrow> db_error + (bool \<times> server_db)" where
  "checkAndUpdate h file_name instance_number content db =
     bindR (sql_name file_name) (\<lambda>n.
     case select db n of
       None \<Rightarrow> Inr (False, db)
     | Some r \<Rightarrow>
         if integer (r_instance_number r) \<noteq> instance_number then Inr (False, db)
         else bindR (update_content content
                (integer (r_content_generation_number r + 1)) (h content) file_name db)
                (\<lambda>db1. Inr (True, db1)))"

definition testAndSetLockOwner ::
    "string \<Rightarrow> u64 \<Rightarrow> string \<Rightarrow> server_db \<Rightarrow> db_error + (bool \<times> server_db)" where
  "testAndSetLockOwner file_name instance_number client_id db =
     bindR (sql_name file_name) (\<lambda>n.
     case select db n of
       None \<Rightarrow> Inr (False, db)
     | Some r \<Rightarrow>
         if integer (r_instance_number r) \<noteq> instance_number then Inr (False, db)
         else if r_lock_owner r \<noteq> NO_OWNER then Inr (False, db)
         else bindR (sql_value client_id) (\<lambda>v.
           Inr (True, update_where n (\<lambda>q. q\<lparr>r_lock_owner := v q,
             r_lock_generation_number := fmt_d (integer (r_lock_generation_number r + 1))\<rparr>) db)))"

definition resetLockOwner ::
    "string \<Rightarrow> u64 \<Rightarrow> server_db \<Rightarrow> db_error + (bool \<times> server_db)" where
  "resetLockOwner file_name instance_number db =
     bindR (sql_name file_name) (\<lambda>n.
     case select db n of
       None \<Rightarrow> Inr (False, db)
     | Some r \<Rightarrow>
         if integer (r_instance_number r) \<noteq> instance_number then Inr (False, db)
         else Inr (True, update_where n (\<lambda>q. q\<lparr>r_lock_owner := NO_OWNER\<rparr>) db))"

text \<open>\<open>getStates\<close> appends to the vector it is given.\<close>

definition getStates :: "server_db \<Rightarrow> (string \<times> string) list \<Rightarrow> (string \<times> string) list" where
  "getStates db file_and_owner_list =
     file_and_owner_list @ map (\<lambda>r. (r_name r, r_lock_owner r)) (fs db)"

definition create :: server_db where
  "create = \<lparr>fs = [], kvpairs = [''max_instance_number'' \<mapsto> 0]\<rparr>"

section \<open>Commands\<close>

text \<open>The operations of the store as one command language, with one result type.\<close>

datatype db_cmd =
    Create string bool
  | Open string
  | Delete string u64
  | Read string u64
  | Update string u64 string
  | Lock string u64 string
  | Unlock string u64
  | States

datatype db_reply =
    Instance "u64 option"
  | Success bool
  | Contents "(string \<times> MetaData) option"
  | Owners "(string \<times> string) list"

fun run_cmd ::
    "(string \<Rightarrow> u64) \<Rightarrow> db_cmd \<Rightarrow> server_db \<Rightarrow> db_error + (db_reply \<times> server_db)" where
  "run_cmd h (Create n d) db = bindR (checkAndCreate h n d db) (\<lambda>(x, db). Inr (Instance x, db))"
| "run_cmd h (Open n) db = bindR (checkAndOpen n db) (\<lambda>(x, db). Inr (Instance x, db))"
| "run_cmd h (Delete n i) db = bindR (checkAndDelete h n i db) (\<lambda>(x, db). Inr (Success x, db))"
| "run_cmd h (Read n i) db = bindR (checkAndRead n i db) (\<lambda>(x, db). Inr (Contents x, db))"
| "run_cmd h (Update n i c) db =
     bindR (checkAndUpdate h n i c db) (\<lambda>(x, db). Inr (Success x, db))"
| "run_cmd h (Lock n i c) db =
     bindR (testAndSetLockOwner n i c db) (\<lambda>(x, db). Inr (Success x, db))"
| "run_cmd h (Unlock n i) db = bindR (resetLockOwner n i db) (\<lambda>(x, db). Inr (Success x, db))"
| "run_cmd h States db = Inr (Owners (getStates db []), db)"

fun run_cmds ::
    "(string \<Rightarrow> u64) \<Rightarrow> db_cmd list \<Rightarrow> server_db \<Rightarrow> db_error + (db_reply list \<times> server_db)" where
  "run_cmds h [] db = Inr ([], db)"
| "run_cmds h (c # cs) db =
     bindR (run_cmd h c db) (\<lambda>(x, db). bindR (run_cmds h cs db) (\<lambda>(xs, db). Inr (x # xs, db)))"

end
