(* ===== verification/Server_Db_Spec.thy ===== *)
theory Server_Db_Spec
  imports Server_Db
begin

text \<open>
  What the store promises: a tree of nodes with contents, locks and instance numbers, given as
  functions on a map from names to nodes, the invariants of the tables, and the lemmas that the
  operations of \<open>Server_Db\<close> keep the invariants and implement the functions on the map.
\<close>

section \<open>Abstract store\<close>

datatype body = File string | Dir "string list"

record inode =
  i_body :: body
  i_owner :: "string option"
  i_instance :: u64
  i_cgen :: u64
  i_lgen :: u64
  i_sum :: u64

record fsys =
  nodes :: "string \<rightharpoonup> inode"
  last_instance :: u64

definition listing :: "string list \<Rightarrow> string" where
  "listing ns = concat (map (\<lambda>n. CHR ''|'' # n) ns)"

definition node_is_dir :: "fsys \<Rightarrow> string \<Rightarrow> bool" where
  "node_is_dir s n = (case nodes s n of Some i \<Rightarrow> (case i_body i of Dir _ \<Rightarrow> True | File _ \<Rightarrow> False)
                 | None \<Rightarrow> False)"

text \<open>The checksum that survives the statement text: 32 bits of the hash, sign-extended.\<close>

definition sum32 :: "(string \<Rightarrow> u64) \<Rightarrow> string \<Rightarrow> u64" where
  "sum32 h c = integer (fmt_d (h c))"

definition set_children ::
    "(string \<Rightarrow> u64) \<Rightarrow> string \<Rightarrow> (string list \<Rightarrow> string list) \<Rightarrow> (string \<rightharpoonup> inode) \<Rightarrow> (string \<rightharpoonup> inode)" where
  "set_children h p f m =
     (case m p of
        None \<Rightarrow> m
      | Some i \<Rightarrow>
          (case i_body i of
             File _ \<Rightarrow> m
           | Dir ns \<Rightarrow> m(p \<mapsto> i\<lparr>i_body := Dir (f ns), i_cgen := i_cgen i + 1,
                              i_sum := sum32 h (listing (f ns))\<rparr>)))"

definition new_node :: "u64 \<Rightarrow> bool \<Rightarrow> inode" where
  "new_node i d = \<lparr>i_body = (if d then Dir [] else File ''''), i_owner = None, i_instance = i,
     i_cgen = 0, i_lgen = 0, i_sum = 0\<rparr>"

definition node_text :: "inode \<Rightarrow> string" where
  "node_text i = (case i_body i of File c \<Rightarrow> c | Dir ns \<Rightarrow> listing ns)"

definition node_meta :: "inode \<Rightarrow> MetaData" where
  "node_meta i = \<lparr>md_instance_number = i_instance i, md_content_generation_number = i_cgen i,
     md_lock_generation_number = i_lgen i, md_file_content_checksum = i_sum i,
     md_is_directory = (case i_body i of Dir _ \<Rightarrow> True | File _ \<Rightarrow> False)\<rparr>"

text \<open>The node of a name, if it is the incarnation the caller's handle was opened on.\<close>

definition node_of :: "fsys \<Rightarrow> string \<Rightarrow> u64 \<Rightarrow> inode option" where
  "node_of s n i = (case nodes s n of
     Some d \<Rightarrow> if i_instance d = i then Some d else None | None \<Rightarrow> None)"

fun spec_cmd :: "(string \<Rightarrow> u64) \<Rightarrow> db_cmd \<Rightarrow> fsys \<Rightarrow> db_reply \<times> fsys" where
  "spec_cmd h (Create n d) s =
     (if nodes s n \<noteq> None \<or> getParentName n \<noteq> ''/'' \<and> \<not> node_is_dir s (getParentName n)
      then (Instance None, s)
      else let i = last_instance s + 1
           in (Instance (Some i),
               s\<lparr>nodes := (set_children h (getParentName n) (\<lambda>ns. ns @ [n]) (nodes s))
                            (n \<mapsto> new_node i d),
                 last_instance := i\<rparr>))"
| "spec_cmd h (Open n) s = (Instance (map_option i_instance (nodes s n)), s)"
| "spec_cmd h (Delete n i) s =
     (case node_of s n i of
        None \<Rightarrow> (Success False, s)
      | Some d \<Rightarrow>
          if i_owner d \<noteq> None \<or> (case i_body d of Dir ns \<Rightarrow> ns \<noteq> [] | File _ \<Rightarrow> False)
          then (Success False, s)
          else (Success True, s\<lparr>nodes :=
                 set_children h (getParentName n) (filter (\<lambda>k. k \<noteq> n)) ((nodes s)(n := None))\<rparr>))"
| "spec_cmd h (Read n i) s =
     (Contents (map_option (\<lambda>d. (node_text d, node_meta d)) (node_of s n i)), s)"
| "spec_cmd h (Update n i c) s =
     (case node_of s n i of
        None \<Rightarrow> (Success False, s)
      | Some d \<Rightarrow> (Success True, s\<lparr>nodes := (nodes s)(n \<mapsto> d\<lparr>i_body := File c,
                    i_cgen := i_cgen d + 1, i_sum := sum32 h c\<rparr>)\<rparr>))"
| "spec_cmd h (Lock n i c) s =
     (case node_of s n i of
        None \<Rightarrow> (Success False, s)
      | Some d \<Rightarrow>
          if i_owner d \<noteq> None then (Success False, s)
          else (Success True, s\<lparr>nodes := (nodes s)(n \<mapsto> d\<lparr>i_owner := Some c,
                  i_lgen := i_lgen d + 1\<rparr>)\<rparr>))"
| "spec_cmd h (Unlock n i) s =
     (case node_of s n i of
        None \<Rightarrow> (Success False, s)
      | Some d \<Rightarrow> (Success True, s\<lparr>nodes := (nodes s)(n \<mapsto> d\<lparr>i_owner := None\<rparr>)\<rparr>))"
| "spec_cmd h States s = (Owners [], s)"

fun spec_cmds :: "(string \<Rightarrow> u64) \<Rightarrow> db_cmd list \<Rightarrow> fsys \<Rightarrow> db_reply list \<times> fsys" where
  "spec_cmds h [] s = ([], s)"
| "spec_cmds h (c # cs) s =
     (let (x, s) = spec_cmd h c s; (xs, s) = spec_cmds h cs s in (x # xs, s))"

text \<open>
  The commands the correspondence is stated for: valid names, texts that stand for themselves in
  a statement, no client named like the mark of a free lock, no replacement of a directory's
  listing, and no \<open>States\<close>, whose answer depends on the order of the rows.
\<close>

definition plain :: "string \<Rightarrow> bool" where
  "plain c \<longleftrightarrow> CHR 0x22 \<notin> set c \<and> CHR 0x00 \<notin> set c \<and> \<not> is_column c"

fun cmd_ok :: "fsys \<Rightarrow> db_cmd \<Rightarrow> bool" where
  "cmd_ok s (Create n d) = checkName n"
| "cmd_ok s (Open n) = checkName n"
| "cmd_ok s (Delete n i) = checkName n"
| "cmd_ok s (Read n i) = checkName n"
| "cmd_ok s (Update n i c) = (checkName n \<and> plain c \<and> \<not> node_is_dir s n)"
| "cmd_ok s (Lock n i c) = (checkName n \<and> plain c \<and> c \<noteq> NO_OWNER)"
| "cmd_ok s (Unlock n i) = checkName n"
| "cmd_ok s States = False"

fun cmds_ok :: "(string \<Rightarrow> u64) \<Rightarrow> db_cmd list \<Rightarrow> fsys \<Rightarrow> bool" where
  "cmds_ok h [] s = True"
| "cmds_ok h (c # cs) s = (cmd_ok s c \<and> cmds_ok h cs (snd (spec_cmd h c s)))"

section \<open>Invariants of the tables\<close>

definition children :: "server_db \<Rightarrow> string \<Rightarrow> string list" where
  "children db p = filter (\<lambda>n. getParentName n = p) (map r_name (fs db))"

definition row_wf :: "int \<Rightarrow> int \<Rightarrow> fs_row \<Rightarrow> bool" where
  "row_wf m v r \<longleftrightarrow> checkName (r_name r) \<and> 0 < r_instance_number r \<and> r_instance_number r \<le> v
     \<and> 0 \<le> r_content_generation_number r \<and> r_content_generation_number r \<le> m
     \<and> 0 \<le> r_lock_generation_number r \<and> r_lock_generation_number r \<le> m
     \<and> (r_is_directory r = 0 \<or> r_is_directory r = 1)"

text \<open>\<open>m\<close> bounds the counters: a run of \<open>m\<close> commands from the empty store keeps them below it.\<close>

definition db_wf :: "int \<Rightarrow> server_db \<Rightarrow> bool" where
  "db_wf m db \<longleftrightarrow> (case kvpairs db ''max_instance_number'' of
     None \<Rightarrow> False
   | Some v \<Rightarrow> 0 \<le> v \<and> v \<le> m \<and> list_all (row_wf m v) (fs db))
     \<and> distinct (map r_name (fs db)) \<and> distinct (map r_instance_number (fs db))"

definition has_dir :: "server_db \<Rightarrow> string \<Rightarrow> bool" where
  "has_dir db p \<longleftrightarrow> list_ex (\<lambda>r. r_name r = p \<and> r_is_directory r = 1) (fs db)"

definition row_tree :: "server_db \<Rightarrow> fs_row \<Rightarrow> bool" where
  "row_tree db r \<longleftrightarrow> (getParentName (r_name r) = ''/'' \<or> has_dir db (getParentName (r_name r)))
     \<and> (r_is_directory r = 1 \<longrightarrow> r_content r = listing (children db (r_name r)))"

definition db_tree :: "server_db \<Rightarrow> bool" where
  "db_tree db \<longleftrightarrow> list_all (row_tree db) (fs db)"

section \<open>Abstraction\<close>

definition abs_row :: "fs_row \<Rightarrow> inode" where
  "abs_row r = \<lparr>i_body = (if r_is_directory r = 1
        then Dir (filter (\<lambda>t. t \<noteq> []) (getlines CHR ''|'' (r_content r)))
        else File (r_content r)),
     i_owner = (if r_lock_owner r = NO_OWNER then None else Some (r_lock_owner r)),
     i_instance = integer (r_instance_number r),
     i_cgen = integer (r_content_generation_number r),
     i_lgen = integer (r_lock_generation_number r),
     i_sum = integer (r_file_content_checksum r)\<rparr>"

definition abs_db :: "server_db \<Rightarrow> fsys" where
  "abs_db db = \<lparr>nodes = (\<lambda>n. map_option abs_row (select db n)),
     last_instance = (case kvpairs db ''max_instance_number'' of Some v \<Rightarrow> integer v | None \<Rightarrow> 0)\<rparr>"

end
