(* ===== verification/Store_Interface.thy ===== *)
theory Store_Interface
  imports Server_Db_Spec
begin

text \<open>
  The contract between a store and its clients. Whoever executes commands one by one so that
  each does what the abstract store of \<open>Server_Db_Spec\<close> says executes sequences of commands that
  way, hands out increasing instance numbers, and keeps a lock with its owner until the lock is
  reset. The tables of \<open>src/server/serverdb.cc\<close> and the replicated methods of
  \<open>src/server/serverdb_paxos.cc\<close> are both instances.
\<close>

section \<open>Runs of commands\<close>

fun run_with :: "('c \<Rightarrow> 's \<Rightarrow> 'e + ('r \<times> 's)) \<Rightarrow> 'c list \<Rightarrow> 's \<Rightarrow> 'e + ('r list \<times> 's)" where
  "run_with exec [] s = Inr ([], s)"
| "run_with exec (c # cs) s =
     bindR (exec c s) (\<lambda>(x, s). bindR (run_with exec cs s) (\<lambda>(xs, s). Inr (x # xs, s)))"

text \<open>Every command of a sequence satisfies a condition on the state it is executed in.\<close>

fun oks_with :: "('c \<Rightarrow> 's \<Rightarrow> 'e + ('r \<times> 's)) \<Rightarrow> ('c \<Rightarrow> 's \<Rightarrow> bool) \<Rightarrow> 'c list \<Rightarrow> 's \<Rightarrow> bool" where
  "oks_with exec ok [] s = True"
| "oks_with exec ok (c # cs) s =
     (ok c s \<and> (case exec c s of Inl _ \<Rightarrow> False | Inr (_, s') \<Rightarrow> oks_with exec ok cs s'))"

text \<open>The instance numbers that the creations of a run returned, in order.\<close>

fun new_instances :: "db_cmd list \<Rightarrow> db_reply list \<Rightarrow> u64 list" where
  "new_instances (Create n d # cs) (Instance (Some i) # xs) = i # new_instances cs xs"
| "new_instances (c # cs) (x # xs) = new_instances cs xs"
| "new_instances cs xs = []"

text \<open>The node is locked by a client.\<close>

definition owned :: "string \<Rightarrow> string \<Rightarrow> u64 \<Rightarrow> fsys \<Rightarrow> bool" where
  "owned n c i s \<longleftrightarrow> (\<exists>d. nodes s n = Some d \<and> i_owner d = Some c \<and> i_instance d = i)"

text \<open>Replies to attempts to take the lock of a node or to delete it.\<close>

definition refused :: "string \<Rightarrow> db_cmd \<Rightarrow> db_reply \<Rightarrow> bool" where
  "refused n cmd x \<longleftrightarrow> ((\<exists>j c'. cmd = Lock n j c' \<or> cmd = Delete n j) \<longrightarrow> x = Success False)"

section \<open>Numbers\<close>

lemma integer_inj:
  assumes "0 \<le> a" "a < 2 ^ 31" "0 \<le> b" "b < 2 ^ 31"
  shows "integer a = integer b \<longleftrightarrow> a = b"
proof -
  have "uint (integer a) = a" "uint (integer b) = b"
    using assms by (simp_all add: integer_def uint_word_of_int_eq take_bit_int_eq_self)
  then show ?thesis by metis
qed

lemma integer_add [simp]: "integer a + 1 = integer (a + 1)"
  by (simp add: integer_def)

lemma integer_less: "0 \<le> a \<Longrightarrow> a < b \<Longrightarrow> b < 2 ^ 31 \<Longrightarrow> integer a < integer b"
  by (simp add: integer_def word_less_def uint_word_of_int_eq take_bit_int_eq_self)

lemma sorted_integers:
  "sorted_wrt (<) vs \<Longrightarrow> \<forall>w \<in> set vs. 0 \<le> w \<and> w < 2 ^ 31 \<Longrightarrow> sorted_wrt (<) (map integer vs)"
  by (induction vs) (auto simp: integer_less)

section \<open>The abstract store\<close>

lemma spec_last_instance:
  "spec_cmd h c s = (x, s') \<Longrightarrow>
     (if \<exists>n d i. c = Create n d \<and> x = Instance (Some i)
      then x = Instance (Some (last_instance s + 1)) \<and> last_instance s' = last_instance s + 1
      else last_instance s' = last_instance s)"
  by (cases c) (auto simp: Let_def split: if_splits option.splits)

lemma set_children_owned:
  "nodes s n = Some d \<Longrightarrow> \<exists>d'. set_children h p f (nodes s) n = Some d' \<and> i_owner d' = i_owner d
     \<and> i_instance d' = i_instance d"
  by (auto simp: set_children_def split: option.splits body.splits)

lemma spec_owned:
  assumes "owned n c i s" and "\<And>j. cmd \<noteq> Unlock n j"
  shows "owned n c i (snd (spec_cmd h cmd s))" and "refused n cmd (fst (spec_cmd h cmd s))"
proof -
  from assms(1) obtain d where d: "nodes s n = Some d" "i_owner d = Some c" "i_instance d = i"
    by (auto simp: owned_def)
  show "refused n cmd (fst (spec_cmd h cmd s))"
    using d by (auto simp: refused_def node_of_def)
  show "owned n c i (snd (spec_cmd h cmd s))"
  proof (cases cmd)
    case (Create k e)
    then show ?thesis using d set_children_owned [OF d(1)] by (auto simp: owned_def Let_def)
  next
    case (Delete k j)
    have "nodes (s\<lparr>nodes := (nodes s)(k := None)\<rparr>) n = Some d" if "k \<noteq> n" using d that by simp
    with Delete d set_children_owned [of "s\<lparr>nodes := (nodes s)(k := None)\<rparr>" n d] show ?thesis
      by (cases "k = n") (auto simp: owned_def node_of_def split: option.splits)
  qed (use assms d in \<open>auto simp: owned_def node_of_def split: option.splits\<close>)
qed

section \<open>The contract\<close>

text \<open>
  \<open>inv m s\<close> says that the state is consistent and its counters are at most \<open>m\<close>; each command
  adds at most two to a counter. \<open>ok c s\<close> is what the store needs of a command.
\<close>

locale refined_store =
  fixes h :: "string \<Rightarrow> u64"
    and exec :: "db_cmd \<Rightarrow> 's \<Rightarrow> 'e + (db_reply \<times> 's)"
    and abs :: "'s \<Rightarrow> fsys"
    and inv :: "int \<Rightarrow> 's \<Rightarrow> bool"
    and ok :: "db_cmd \<Rightarrow> 's \<Rightarrow> bool"
  assumes exec_refines: "inv m s \<Longrightarrow> m + 2 < 2 ^ 31 \<Longrightarrow> ok c s \<Longrightarrow>
      \<exists>x s'. exec c s = Inr (x, s') \<and> inv (m + 2) s' \<and> spec_cmd h c (abs s) = (x, abs s')"
    and inv_last: "inv m s \<Longrightarrow> \<exists>v. 0 \<le> v \<and> v \<le> m \<and> last_instance (abs s) = integer v"
begin

lemma run_step:
  assumes "inv m s" "m + 2 * int (length (c # cs)) < 2 ^ 31" "oks_with exec ok (c # cs) s"
  obtains x s1 where "exec c s = Inr (x, s1)" "inv (m + 2) s1" "spec_cmd h c (abs s) = (x, abs s1)"
    "m + 2 + 2 * int (length cs) < 2 ^ 31" "oks_with exec ok cs s1"
proof -
  from exec_refines [OF assms(1), of c] assms(2,3) obtain x s1 where
    "exec c s = Inr (x, s1)" "inv (m + 2) s1" "spec_cmd h c (abs s) = (x, abs s1)" by auto
  with assms show thesis by (intro that [of x s1]) auto
qed

lemma run_refines:
  assumes "inv m s" "m + 2 * int (length cs) < 2 ^ 31" "oks_with exec ok cs s"
  shows "\<exists>xs s'. run_with exec cs s = Inr (xs, s') \<and> inv (m + 2 * int (length cs)) s'
    \<and> spec_cmds h cs (abs s) = (xs, abs s')"
  using assms
proof (induction cs arbitrary: m s)
  case (Cons c cs)
  from run_step [OF Cons.prems] obtain x s1 where 1: "exec c s = Inr (x, s1)" "inv (m + 2) s1"
    "spec_cmd h c (abs s) = (x, abs s1)" "m + 2 + 2 * int (length cs) < 2 ^ 31" "oks_with exec ok cs s1" .
  from Cons.IH [OF 1(2,4,5)] 1 show ?case by (auto simp: algebra_simps)
qed simp

lemma run_owned:
  assumes "inv m s" "m + 2 * int (length cs) < 2 ^ 31" "oks_with exec ok cs s"
    and "owned n c i (abs s)" "\<forall>j. Unlock n j \<notin> set cs"
  shows "\<exists>xs s'. run_with exec cs s = Inr (xs, s') \<and> owned n c i (abs s') \<and> list_all2 (refused n) cs xs"
  using assms
proof (induction cs arbitrary: m s)
  case (Cons cmd cs)
  from run_step [OF Cons.prems(1-3)] obtain x s1 where 1: "exec cmd s = Inr (x, s1)" "inv (m + 2) s1"
    "spec_cmd h cmd (abs s) = (x, abs s1)" "m + 2 + 2 * int (length cs) < 2 ^ 31" "oks_with exec ok cs s1" .
  have "\<And>j. cmd \<noteq> Unlock n j" using Cons.prems(5) by auto
  note own = spec_owned [where h = h, OF Cons.prems(4) this]
  from Cons.IH [OF 1(2,4,5)] own 1 Cons.prems(5) show ?case by auto
qed simp

lemma step_instance:
  assumes "inv m s" "m + 2 < 2 ^ 31" "ok c s" and v: "0 \<le> v" "v \<le> m" "last_instance (abs s) = integer v"
  obtains x s' v' where "exec c s = Inr (x, s')" "inv (m + 2) s'" "0 \<le> v'" "v' \<le> m + 2" "v \<le> v'"
    "last_instance (abs s') = integer v'"
    "\<And>n d i. c = Create n d \<Longrightarrow> x = Instance (Some i) \<Longrightarrow> i = integer (v + 1) \<and> v' = v + 1"
proof -
  from exec_refines [OF assms(1-3)] obtain x s' where
    step: "exec c s = Inr (x, s')" "inv (m + 2) s'" "spec_cmd h c (abs s) = (x, abs s')" by auto
  show thesis
  proof (cases "\<exists>n d i. c = Create n d \<and> x = Instance (Some i)")
    case True
    with spec_last_instance [OF step(3)] step v show thesis by (intro that [of x s' "v + 1"]) auto
  next
    case False
    with spec_last_instance [OF step(3)] step v show thesis by (intro that [of x s' v]) auto
  qed
qed

lemma new_instances_values:
  assumes "inv m s" "m + 2 * int (length cs) < 2 ^ 31" "oks_with exec ok cs s"
    and "0 \<le> v" "v \<le> m" "last_instance (abs s) = integer v"
  shows "\<exists>xs s' vs. run_with exec cs s = Inr (xs, s') \<and> new_instances cs xs = map integer vs
    \<and> sorted_wrt (<) vs \<and> (\<forall>w \<in> set vs. v < w \<and> w \<le> m + 2 * int (length cs))"
  using assms
proof (induction cs arbitrary: m s v)
  case (Cons c cs)
  from Cons.prems have "ok c s" "m + 2 < 2 ^ 31" by auto
  from step_instance [OF Cons.prems(1) this(2,1) Cons.prems(4-6)] obtain x s1 v1 where
    1: "exec c s = Inr (x, s1)" "inv (m + 2) s1" "0 \<le> v1" "v1 \<le> m + 2" "v \<le> v1"
    "last_instance (abs s1) = integer v1"
    "\<And>n d i. c = Create n d \<Longrightarrow> x = Instance (Some i) \<Longrightarrow> i = integer (v + 1) \<and> v1 = v + 1"
    by metis
  have oks: "oks_with exec ok cs s1" using Cons.prems(3) 1(1) by simp
  from Cons.IH [OF 1(2) _ oks 1(3,4,6)] Cons.prems(2) obtain xs s' vs where
    2: "run_with exec cs s1 = Inr (xs, s')" "new_instances cs xs = map integer vs"
    "sorted_wrt (<) vs" "\<forall>w \<in> set vs. v1 < w \<and> w \<le> m + 2 + 2 * int (length cs)" by auto
  have 3: "\<forall>w \<in> set vs. v1 < w \<and> v < w \<and> w \<le> m + 2 * int (length (c # cs))" using 2(4) 1(5) by auto
  show ?case
  proof (cases "\<exists>n d i. c = Create n d \<and> x = Instance (Some i)")
    case True
    with 1(7) have "new_instances (c # cs) (x # xs) = map integer (v1 # vs)" "v1 = v + 1"
      using 2(2) by auto
    with 1 2(1,3) 3 show ?thesis by (auto intro!: exI [of _ "v1 # vs"])
  next
    case False
    then have "new_instances (c # cs) (x # xs) = map integer vs"
      using 2(2) by (cases "(c # cs, x # xs)" rule: new_instances.cases) auto
    with 1 2(1,3) 3 show ?thesis by (auto intro!: exI [of _ vs])
  qed
qed simp

lemma instances_increase:
  assumes "inv m s" "m + 2 * int (length cs) < 2 ^ 31" "oks_with exec ok cs s"
  shows "\<exists>xs s'. run_with exec cs s = Inr (xs, s') \<and> sorted_wrt (<) (new_instances cs xs)"
proof -
  from inv_last [OF assms(1)] obtain v where v: "0 \<le> v" "v \<le> m" "last_instance (abs s) = integer v" by blast
  from new_instances_values [OF assms v] obtain xs s' vs where
    "run_with exec cs s = Inr (xs, s')" "new_instances cs xs = map integer vs"
    "sorted_wrt (<) vs" "\<forall>w \<in> set vs. v < w \<and> w \<le> m + 2 * int (length cs)" by blast
  moreover from this assms(2) v have "sorted_wrt (<) (map integer vs)"
    by (intro sorted_integers) auto
  ultimately show ?thesis by auto
qed

end

end
