(* ===== verification/Server_Db_Refine.thy ===== *)
theory Server_Db_Refine
  imports Store_Interface
begin

text \<open>
  The tables of \<open>Server_Db\<close> implement the abstract store of \<open>Server_Db_Spec\<close>: the text of
  statements, queries and updates of a row, the two invariants \<open>db_wf\<close> (names, instance numbers
  and counters) and \<open>db_tree\<close> (parents exist and directories list their children) and that every
  operation keeps them, and the correspondence for one command and for a run.
\<close>

section \<open>Numbers and texts in statements\<close>

lemma fmt_d_integer: "0 \<le> a \<Longrightarrow> a < 2 ^ 31 \<Longrightarrow> fmt_d (integer a) = a"
  by (simp add: fmt_d_def integer_def sint_uint unsigned_ucast_eq uint_word_of_int_eq
      take_bit_int_eq_self signed_take_bit_int_eq_self)

lemma cstr_id: "CHR 0x00 \<notin> set s \<Longrightarrow> cstr s = s"
  unfolding cstr_def by (rule takeWhile_eq_all_conv [THEN iffD2]) auto

lemma not_column_first: "s = c # s' \<Longrightarrow> c \<in> {CHR ''/'', CHR ''|''} \<Longrightarrow> \<not> is_column s"
  by (auto simp: is_column_def columns_def lower_char_def)

lemma plain_value [simp]: "plain c \<Longrightarrow> sql_value c = Inr (\<lambda>_. c)"
  by (simp add: plain_def sql_value_def cstr_id)

lemma checkName_plain: "checkName n \<Longrightarrow> plain n"
proof -
  assume n: "checkName n"
  then obtain s where "n = CHR ''/'' # s"
    using checkName_simps(1,2) [OF n] by (cases n) auto
  then show "plain n"
    using not_column_first checkName_special [OF n] by (auto simp: plain_def)
qed

lemma checkName_sql [simp]: "checkName n \<Longrightarrow> sql_name n = Inr n"
  using checkName_plain [of n] by (simp add: sql_name_def plain_def cstr_id)

lemma listing_simps [simp]:
  "listing [] = []" "listing (n # ns) = CHR ''|'' # n @ listing ns"
  "listing (ns @ ns') = listing ns @ listing ns'"
  by (simp_all add: listing_def)

lemma listing_empty [simp]: "listing ns = [] \<longleftrightarrow> ns = []"
  by (cases ns) auto

lemma listing_plain:
  assumes "\<forall>n \<in> set ns. checkName n"
  shows "plain (listing ns)"
proof -
  have "CHR 0x22 \<notin> set (listing ns)" "CHR 0x00 \<notin> set (listing ns)"
    using assms by (induction ns) (auto dest: checkName_special)
  moreover have "\<not> is_column (listing ns)"
  proof (cases ns)
    case Nil
    then show ?thesis by (simp add: is_column_def columns_def)
  next
    case (Cons n ns')
    then show ?thesis by (intro not_column_first) auto
  qed
  ultimately show ?thesis by (simp add: plain_def)
qed

lemma getlines_listing:
  assumes "\<forall>n \<in> set ns. checkName n"
  shows "filter (\<lambda>t. t \<noteq> []) (getlines CHR ''|'' (listing ns)) = ns"
  using getlines_join [of ns "CHR ''|''"] assms checkName_special checkName_simps(1)
  unfolding listing_def by blast

lemma dirContentCreate_listing: "dirContentCreate (listing ns) n = listing (ns @ [n])"
  by (simp add: dirContentCreate_def)

lemma dirContentDelete_foldl:
  "foldl (\<lambda>str token. if token = [] then str
                      else if node \<noteq> token then str @ ''|'' @ token else str) acc ts
   = acc @ listing (filter (\<lambda>t. t \<noteq> node) (filter (\<lambda>t. t \<noteq> []) ts))"
  by (induction ts arbitrary: acc) auto

lemma dirContentDelete_listing:
  assumes "\<forall>n \<in> set ns. checkName n"
  shows "dirContentDelete (listing ns) node = listing (filter (\<lambda>t. t \<noteq> node) ns)"
  unfolding dirContentDelete_def dirContentDelete_foldl getlines_listing [OF assms] by simp

section \<open>Queries and updates\<close>

lemma select_eq_None: "select db n = None \<longleftrightarrow> n \<notin> r_name ` set (fs db)"
  by (auto simp: select_def find_None_iff)

lemma select_SomeD: "select db n = Some r \<Longrightarrow> r \<in> set (fs db) \<and> r_name r = n"
  by (auto simp: select_def find_Some_iff)

lemma select_unique:
  assumes "distinct (map r_name (fs db))"
  shows "select db n = Some r \<longleftrightarrow> r \<in> set (fs db) \<and> r_name r = n"
proof
  assume r: "r \<in> set (fs db) \<and> r_name r = n"
  then have "select db n \<noteq> None" by (auto simp: select_eq_None)
  then obtain q where q: "select db n = Some q" by blast
  with select_SomeD [OF q] r assms have "q = r"
    by (metis (no_types, lifting) distinct_map inj_on_def)
  with q show "select db n = Some r" by simp
qed (auto dest: select_SomeD)

lemma find_map_where:
  "(\<And>r. r_name (f r) = r_name r) \<Longrightarrow>
   List.find (\<lambda>r. r_name r = k) (map (\<lambda>r. if r_name r = n then f r else r) rs)
   = (if k = n then map_option f (List.find (\<lambda>r. r_name r = n) rs)
      else List.find (\<lambda>r. r_name r = k) rs)"
  by (induction rs) auto

lemma select_update_where:
  assumes "\<And>r. r_name (f r) = r_name r"
  shows "select (update_where n f db) k
       = (if k = n then map_option f (select db n) else select db k)"
  using find_map_where [OF assms] by (simp add: select_def update_where_def)

lemma find_filter_where:
  "List.find (\<lambda>r. r_name r = k) (filter (\<lambda>r. r_name r \<noteq> n) rs)
   = (if k = n then None else List.find (\<lambda>r. r_name r = k) rs)"
  by (induction rs) auto

lemma select_delete_where:
  "select (delete_where n db) k = (if k = n then None else select db k)"
  by (simp add: select_def delete_where_def find_filter_where)

definition new_row :: "server_db \<Rightarrow> string \<Rightarrow> u64 \<Rightarrow> bool \<Rightarrow> fs_row" where
  "new_row db n i d = last (fs (insert_row n i d db))"

lemma new_row_simps [simp]:
  "r_name (new_row db n i d) = n" "r_content (new_row db n i d) = ''''"
  "r_lock_owner (new_row db n i d) = NO_OWNER" "r_instance_number (new_row db n i d) = fmt_d i"
  "r_content_generation_number (new_row db n i d) = 0"
  "r_lock_generation_number (new_row db n i d) = 0"
  "r_file_content_checksum (new_row db n i d) = 0"
  "r_is_directory (new_row db n i d) = (if d then 1 else 0)"
  by (simp_all add: new_row_def insert_row_def)

lemma fs_insert_row: "fs (insert_row n i d db) = fs db @ [new_row db n i d]"
  by (simp add: insert_row_def new_row_def)

lemma find_append: "List.find P (xs @ ys) = (case List.find P xs of None \<Rightarrow> List.find P ys | r \<Rightarrow> r)"
  by (induction xs) auto

lemma select_insert_row:
  "select db n = None \<Longrightarrow>
   select (insert_row n i d db) k = (if k = n then Some (new_row db n i d) else select db k)"
  unfolding select_def fs_insert_row find_append by (auto split: option.splits)

lemma fs_updates [simp]:
  "kvpairs (insert_row n i d db) = kvpairs db"
  "fs (set_kv k v db) = fs db"
  "kvpairs (update_where n f db) = kvpairs db"
  "kvpairs (delete_where n db) = kvpairs db"
  "kvpairs db k = Some w \<Longrightarrow> kvpairs (set_kv k v db) = (kvpairs db)(k \<mapsto> fmt_d v)"
  "select (set_kv k v db) m = select db m"
  by (simp_all add: insert_row_def set_kv_def update_where_def delete_where_def select_def)

lemma update_where_cong:
  assumes "\<And>r. r \<in> set (fs db) \<Longrightarrow> r_name r = n \<Longrightarrow> f r = g r"
  shows "update_where n f db = update_where n g db"
  using assms by (auto simp: update_where_def intro!: map_cong)

lemma update_where_absent: "n \<notin> r_name ` set (fs db) \<Longrightarrow> update_where n f db = db"
proof -
  assume "n \<notin> r_name ` set (fs db)"
  then have "map (\<lambda>r. if r_name r = n then f r else r) (fs db) = fs db"
    by (auto intro!: map_idI)
  then show ?thesis by (simp add: update_where_def)
qed

lemma map_update_where:
  "(\<And>r. g (f r) = g r) \<Longrightarrow> map g (fs (update_where n f db)) = map g (fs db)"
  by (simp add: update_where_def)

lemma set_update_where:
  "set (fs (update_where n f db)) = (\<lambda>r. if r_name r = n then f r else r) ` set (fs db)"
  by (simp add: update_where_def)

section \<open>Keeping the invariants\<close>

lemma db_wfE:
  assumes "db_wf m db"
  obtains v where "kvpairs db ''max_instance_number'' = Some v" "0 \<le> v" "v \<le> m"
    "\<And>r. r \<in> set (fs db) \<Longrightarrow> row_wf m v r"
    "distinct (map r_name (fs db))" "distinct (map r_instance_number (fs db))"
  using assms by (auto simp: db_wf_def list_all_iff split: option.splits)

lemma db_wfI:
  assumes "kvpairs db ''max_instance_number'' = Some v" "0 \<le> v" "v \<le> m"
    "\<And>r. r \<in> set (fs db) \<Longrightarrow> row_wf m v r"
    "distinct (map r_name (fs db))" "distinct (map r_instance_number (fs db))"
  shows "db_wf m db"
  using assms by (simp add: db_wf_def list_all_iff)

lemma row_wf_mono: "row_wf m v r \<Longrightarrow> m \<le> m' \<Longrightarrow> v \<le> v' \<Longrightarrow> row_wf m' v' r"
  by (auto simp: row_wf_def)

lemma db_wf_mono: "db_wf m db \<Longrightarrow> m \<le> m' \<Longrightarrow> db_wf m' db"
  by (auto elim!: db_wfE intro!: db_wfI intro: row_wf_mono)

text \<open>An update of one row's content, lock or counters; names, instances and kinds stay.\<close>

definition keeps_id :: "(fs_row \<Rightarrow> fs_row) \<Rightarrow> bool" where
  "keeps_id f \<longleftrightarrow> (\<forall>r. r_name (f r) = r_name r \<and> r_instance_number (f r) = r_instance_number r
     \<and> r_is_directory (f r) = r_is_directory r)"

lemma wf_update_where:
  assumes wf: "db_wf m db" and f: "keeps_id f" and m: "m \<le> m'"
    and gen: "\<And>v r. row_wf m v r \<Longrightarrow> row_wf m' v (f r)"
  shows "db_wf m' (update_where n f db)"
proof -
  from wf obtain v where v: "kvpairs db ''max_instance_number'' = Some v" "0 \<le> v" "v \<le> m"
    "\<And>r. r \<in> set (fs db) \<Longrightarrow> row_wf m v r"
    "distinct (map r_name (fs db))" "distinct (map r_instance_number (fs db))"
    by (rule db_wfE) blast
  have "row_wf m' v r" if "r \<in> set (fs (update_where n f db))" for r
    using that v(4) gen row_wf_mono [OF _ m order_refl]
    by (auto simp: update_where_def split: if_splits)
  with v m f show ?thesis
    by (intro db_wfI [of _ v]) (simp_all add: map_update_where keeps_id_def)
qed

lemma wf_delete_where: "db_wf m db \<Longrightarrow> db_wf m (delete_where n db)"
  by (erule db_wfE, rule db_wfI)
    (auto simp: delete_where_def distinct_map intro: inj_on_subset)

lemma wf_insert_row:
  assumes wf: "db_wf m db" and m: "m + 1 < 2 ^ 31" and n: "checkName n" "select db n = None"
    and v: "kvpairs db ''max_instance_number'' = Some v"
  shows "db_wf (m + 1) (set_kv ''max_instance_number'' (integer (v + 1))
           (insert_row n (integer (v + 1)) d db))"
proof -
  from wf v have I: "0 \<le> v" "v \<le> m" "\<And>r. r \<in> set (fs db) \<Longrightarrow> row_wf m v r"
    "distinct (map r_name (fs db))" "distinct (map r_instance_number (fs db))"
    by (auto elim!: db_wfE)
  have num: "fmt_d (integer (v + 1)) = v + 1" using I m by (intro fmt_d_integer) auto
  have "v + 1 \<notin> r_instance_number ` set (fs db)"
    using I(3) by (force simp: row_wf_def)
  moreover have "row_wf (m + 1) (v + 1) r" if "r \<in> set (fs db)" for r
    using I(3) [OF that] by (rule row_wf_mono) simp_all
  moreover have "row_wf (m + 1) (v + 1) (new_row db n (integer (v + 1)) d)"
    using n(1) I num by (simp add: row_wf_def)
  ultimately show ?thesis
    using I n(2) v num by (intro db_wfI [of _ "v + 1"]) (auto simp: fs_insert_row select_eq_None)
qed

lemma has_dir_iff: "has_dir db p \<longleftrightarrow> (\<exists>r \<in> set (fs db). r_name r = p \<and> r_is_directory r = 1)"
  by (auto simp: has_dir_def list_ex_iff)

lemma db_treeD:
  assumes "db_tree db" "r \<in> set (fs db)"
  shows "getParentName (r_name r) = ''/'' \<or> has_dir db (getParentName (r_name r))"
    and "r_is_directory r = 1 \<Longrightarrow> r_content r = listing (children db (r_name r))"
  using assms by (auto simp: db_tree_def list_all_iff row_tree_def)

lemma has_dir_map:
  "has_dir db p \<longleftrightarrow> (p, 1) \<in> set (map (\<lambda>r. (r_name r, r_is_directory r)) (fs db))"
  by (force simp: has_dir_iff)

lemma has_dir_update_where: "keeps_id f \<Longrightarrow> has_dir (update_where n f db) p = has_dir db p"
  unfolding has_dir_map by (subst map_update_where) (auto simp: keeps_id_def)

lemma children_update_where: "keeps_id f \<Longrightarrow> children (update_where n f db) p = children db p"
  unfolding children_def by (subst map_update_where) (auto simp: keeps_id_def)

text \<open>
  A tree in which only the listing of \<open>p\<close> is out of date becomes a tree when that listing is
  replaced by the right one.
\<close>

lemma tree_update_where:
  assumes f: "keeps_id f"
    and par: "\<And>r. r \<in> set (fs db) \<Longrightarrow>
        getParentName (r_name r) = ''/'' \<or> has_dir db (getParentName (r_name r))"
    and other: "\<And>r. r \<in> set (fs db) \<Longrightarrow> r_name r \<noteq> p \<Longrightarrow> r_is_directory r = 1 \<Longrightarrow>
        r_content r = listing (children db (r_name r))"
    and this_: "\<And>r. r \<in> set (fs db) \<Longrightarrow> r_name r = p \<Longrightarrow> r_is_directory r = 1 \<Longrightarrow>
        r_content (f r) = listing (children db p)"
  shows "db_tree (update_where p f db)"
proof -
  have "row_tree (update_where p f db) (if r_name r = p then f r else r)"
    if "r \<in> set (fs db)" for r
    using par [OF that] other [OF that] this_ [OF that] f
    by (auto simp: row_tree_def has_dir_update_where children_update_where) (auto simp: keeps_id_def)
  then show ?thesis
    unfolding db_tree_def list_all_iff set_update_where by blast
qed

section \<open>The operations on a well-formed store\<close>

text \<open>
  What the methods do to the row of the parent directory, and the stores that a successful
  creation and deletion leave.
\<close>

definition relist :: "(string \<Rightarrow> u64) \<Rightarrow> (string \<Rightarrow> string) \<Rightarrow> fs_row \<Rightarrow> fs_row" where
  "relist h g r = r\<lparr>r_content := g (r_content r),
     r_content_generation_number := fmt_d (integer (r_content_generation_number r + 1)),
     r_file_content_checksum := fmt_d (h (g (r_content r)))\<rparr>"

definition inserted :: "string \<Rightarrow> bool \<Rightarrow> int \<Rightarrow> server_db \<Rightarrow> server_db" where
  "inserted n d v db = set_kv ''max_instance_number'' (integer (v + 1))
     (insert_row n (integer (v + 1)) d db)"

definition created :: "(string \<Rightarrow> u64) \<Rightarrow> string \<Rightarrow> bool \<Rightarrow> int \<Rightarrow> server_db \<Rightarrow> server_db" where
  "created h n d v db =
     update_where (getParentName n) (relist h (\<lambda>c. dirContentCreate c n)) (inserted n d v db)"

definition deleted :: "(string \<Rightarrow> u64) \<Rightarrow> string \<Rightarrow> server_db \<Rightarrow> server_db" where
  "deleted h n db =
     update_where (getParentName n) (relist h (\<lambda>c. dirContentDelete c n)) (delete_where n db)"

lemma keeps_id_relist [simp]: "keeps_id (relist h g)"
  by (simp add: keeps_id_def relist_def)

lemma inserted_simps:
  "fs (inserted n d v db) = fs db @ [new_row db n (integer (v + 1)) d]"
  "kvpairs db ''max_instance_number'' = Some w \<Longrightarrow>
     kvpairs (inserted n d v db) = (kvpairs db)(''max_instance_number'' \<mapsto> fmt_d (integer (v + 1)))"
  by (simp_all add: inserted_def fs_insert_row)

lemma root_absent:
  assumes "db_wf m db" shows "''/'' \<notin> r_name ` set (fs db)"
proof
  assume "''/'' \<in> r_name ` set (fs db)"
  then obtain r where "r \<in> set (fs db)" "r_name r = ''/''" by auto
  with assms have "checkName ''/''" by (metis db_wfE row_wf_def)
  then show False using not_checkName_root by simp
qed

lemma parent_name_neq_root: "checkName n \<Longrightarrow> n \<noteq> ''/''"
  using not_checkName_root by auto

lemma children_checkName: "db_wf m db \<Longrightarrow> \<forall>k \<in> set (children db p). checkName k"
  by (erule db_wfE) (auto simp: children_def row_wf_def)

lemma select_dirD:
  assumes "db_wf m db" "db_tree db" "select db p = Some r" "r_is_directory r \<noteq> 0"
  shows "r \<in> set (fs db)" "r_name r = p" "r_is_directory r = 1" "has_dir db p"
    "r_content r = listing (children db p)" "checkName p"
proof -
  show r: "r \<in> set (fs db)" "r_name r = p" using select_SomeD [OF assms(3)] by auto
  obtain v where "row_wf m v r" using assms(1) r(1) by (metis db_wfE)
  with r assms(4) show d: "r_is_directory r = 1" and "checkName p" by (auto simp: row_wf_def)
  with r show "has_dir db p" by (auto simp: has_dir_iff select_eq_None)
  from db_treeD(2) [OF assms(2) r(1) d] r(2)
  show "r_content r = listing (children db p)" by simp
qed

lemma has_dir_select:
  assumes "db_wf m db"
  shows "has_dir db p \<longleftrightarrow> (\<exists>r. select db p = Some r \<and> r_is_directory r \<noteq> 0)"
proof -
  from assms have "distinct (map r_name (fs db))"
    and "\<And>r. r \<in> set (fs db) \<Longrightarrow> r_is_directory r = 0 \<or> r_is_directory r = 1"
    by (auto elim!: db_wfE simp: row_wf_def)
  then show ?thesis unfolding has_dir_iff by (auto simp: select_unique)
qed

lemma update_content_relist:
  assumes p: "checkName p" and c: "plain (g (r_content r))"
    and r: "\<And>q. q \<in> set (fs db) \<Longrightarrow> r_name q = p \<Longrightarrow> q = r"
  shows "update_content (g (r_content r)) (integer (r_content_generation_number r) + 1)
           (h (g (r_content r))) p db = Inr (update_where p (relist h g) db)"
proof -
  have "update_where p (\<lambda>q. q\<lparr>r_content := g (r_content r),
      r_content_generation_number := fmt_d (integer (r_content_generation_number r + 1)),
      r_file_content_checksum := fmt_d (h (g (r_content r)))\<rparr>) db
    = update_where p (relist h g) db"
    by (rule update_where_cong) (use r in \<open>auto simp: relist_def\<close>)
  with p c show ?thesis by (simp add: update_content_def)
qed

lemma checkAndCreate_eq:
  assumes wf: "db_wf m db" and tree: "db_tree db" and n: "checkName n"
    and v: "kvpairs db ''max_instance_number'' = Some v"
  shows "checkAndCreate h n d db =
    (if select db n \<noteq> None \<or> getParentName n \<noteq> ''/'' \<and> \<not> has_dir db (getParentName n)
     then Inr (None, db) else Inr (Some (integer (v + 1)), created h n d v db))"
proof (cases "select db n = None")
  case False
  with n show ?thesis by (simp add: checkAndCreate_def)
next
  case new: True
  let ?p = "getParentName n"
  show ?thesis
  proof (cases "?p = ''/''")
    case True
    have "created h n d v db = inserted n d v db"
      unfolding created_def True using root_absent [OF wf] parent_name_neq_root [OF n]
      by (intro update_where_absent) (auto simp: inserted_simps)
    with True n new v show ?thesis by (simp add: checkAndCreate_def inserted_def Let_def)
  next
    case False
    then have p: "checkName ?p" using getParentName_root_or_name [OF n] by blast
    show ?thesis
    proof (cases "has_dir db ?p")
      case dir: True
      then obtain r where r: "select db ?p = Some r" "r_is_directory r \<noteq> 0"
        using has_dir_select [OF wf] by blast
      note R = select_dirD [OF wf tree r]
      have c: "plain (dirContentCreate (r_content r) n)"
        unfolding R(5) dirContentCreate_listing using children_checkName [OF wf] n
        by (intro listing_plain) auto
      have u: "q = r" if "q \<in> set (fs (inserted n d v db))" "r_name q = ?p" for q
      proof -
        have "q \<in> set (fs db)" using that getParentName_neq [OF n] by (auto simp: inserted_simps)
        with that R(1,2) wf show ?thesis by (metis db_wfE select_unique option.inject)
      qed
      have "update_content (dirContentCreate (r_content r) n)
          (integer (r_content_generation_number r) + 1) (h (dirContentCreate (r_content r) n)) ?p
          (inserted n d v db) = Inr (created h n d v db)"
        unfolding created_def by (rule update_content_relist [where g = "\<lambda>c. dirContentCreate c n", OF p c u])
      then show ?thesis using False p n new v dir r
        by (simp add: checkAndCreate_def inserted_def Let_def)
    next
      case nodir: False
      then have "select db ?p = None \<or> (\<exists>r. select db ?p = Some r \<and> r_is_directory r = 0)"
        using has_dir_select [OF wf, of ?p] by (cases "select db ?p") auto
      with nodir False p n new show ?thesis by (auto simp: checkAndCreate_def)
    qed
  qed
qed

lemma checkAndDelete_eq:
  assumes wf: "db_wf m db" and tree: "db_tree db" and n: "checkName n"
  shows "checkAndDelete h n i db =
    (case select db n of
       None \<Rightarrow> Inr (False, db)
     | Some r \<Rightarrow>
         if r_lock_owner r \<noteq> NO_OWNER \<or> integer (r_instance_number r) \<noteq> i
            \<or> r_is_directory r \<noteq> 0 \<and> r_content r \<noteq> ''''
         then Inr (False, db) else Inr (True, deleted h n db))"
proof (cases "select db n")
  case None
  with n show ?thesis by (simp add: checkAndDelete_def)
next
  case (Some r)
  let ?p = "getParentName n"
  show ?thesis
  proof (cases "?p = ''/''")
    case True
    have "deleted h n db = delete_where n db"
      unfolding deleted_def True using root_absent [OF wf]
      by (intro update_where_absent) (auto simp: delete_where_def)
    with True n Some show ?thesis by (simp add: checkAndDelete_def Let_def)
  next
    case False
    then have p: "checkName ?p" using getParentName_root_or_name [OF n] by blast
    have "has_dir db ?p"
      using db_treeD(1) [OF tree] select_SomeD [OF Some] False by auto
    then obtain q where q: "select db ?p = Some q" "r_is_directory q \<noteq> 0"
      using has_dir_select [OF wf] by blast
    note Q = select_dirD [OF wf tree q]
    have c: "plain (dirContentDelete (r_content q) n)"
      unfolding Q(5) dirContentDelete_listing [OF children_checkName [OF wf]]
      using children_checkName [OF wf] by (intro listing_plain) auto
    have u: "q' = q" if "q' \<in> set (fs (delete_where n db))" "r_name q' = ?p" for q'
    proof -
      have "q' \<in> set (fs db)" using that by (auto simp: delete_where_def)
      with that Q(1,2) wf show ?thesis by (metis db_wfE select_unique option.inject)
    qed
    have "update_content (dirContentDelete (r_content q) n)
        (integer (r_content_generation_number q) + 1) (h (dirContentDelete (r_content q) n)) ?p
        (delete_where n db) = Inr (deleted h n db)"
      unfolding deleted_def by (rule update_content_relist [where g = "\<lambda>c. dirContentDelete c n", OF p c u])
    then show ?thesis using False p n Some q Q(3)
      by (simp add: checkAndDelete_def Let_def)
  qed
qed

section \<open>Every operation keeps the invariants\<close>

lemma row_wf_relist:
  "row_wf m v r \<Longrightarrow> m < m' \<Longrightarrow> m' < 2 ^ 31 \<Longrightarrow> row_wf m' v (relist h g r)"
  by (simp add: row_wf_def relist_def fmt_d_integer)

lemma created_wf:
  assumes "db_wf m db" "m + 2 < 2 ^ 31" "checkName n" "select db n = None"
    "kvpairs db ''max_instance_number'' = Some v"
  shows "db_wf (m + 2) (created h n d v db)"
proof -
  have "db_wf (m + 1) (inserted n d v db)"
    using wf_insert_row [of m db n v d] assms by (simp add: inserted_def)
  then show ?thesis unfolding created_def
    by (rule wf_update_where [OF _ keeps_id_relist]) (use assms(2) in \<open>auto intro: row_wf_relist\<close>)
qed

lemma deleted_wf:
  assumes "db_wf m db" "m + 1 < 2 ^ 31"
  shows "db_wf (m + 1) (deleted h n db)"
  unfolding deleted_def using assms
  by (auto intro!: wf_update_where [OF wf_delete_where keeps_id_relist] intro: row_wf_relist)

lemma children_inserted:
  "children (inserted n d v db) p = children db p @ (if getParentName n = p then [n] else [])"
  by (simp add: children_def inserted_simps)

lemma children_absent:
  assumes tree: "db_tree db" and n: "n \<noteq> ''/''" and abs: "\<not> has_dir db n"
  shows "children db n = []"
proof -
  have "getParentName (r_name r) \<noteq> n" if "r \<in> set (fs db)" for r
    using db_treeD(1) [OF tree that] n abs by auto
  then show ?thesis by (auto simp: children_def filter_empty_conv)
qed

lemma created_tree:
  assumes wf: "db_wf m db" and tree: "db_tree db" and n: "checkName n" "select db n = None"
    and par: "getParentName n = ''/'' \<or> has_dir db (getParentName n)"
  shows "db_tree (created h n d v db)"
  unfolding created_def
proof (rule tree_update_where [OF keeps_id_relist])
  let ?db = "inserted n d v db"
  have hd: "has_dir db p \<Longrightarrow> has_dir ?db p" for p by (auto simp: has_dir_iff inserted_simps)
  have none: "children db n = []"
    using children_absent [OF tree parent_name_neq_root [OF n(1)]] n(2)
    by (auto simp: has_dir_iff select_eq_None)
  fix r assume r: "r \<in> set (fs ?db)"
  show "getParentName (r_name r) = ''/'' \<or> has_dir ?db (getParentName (r_name r))"
    using r db_treeD(1) [OF tree] par hd by (auto simp: inserted_simps)
  show "r_content r = listing (children ?db (r_name r))"
    if "r_name r \<noteq> getParentName n" "r_is_directory r = 1"
    using r that db_treeD(2) [OF tree] none by (auto simp: inserted_simps children_inserted)
  show "r_content (relist h (\<lambda>c. dirContentCreate c n) r) = listing (children ?db (getParentName n))"
    if "r_name r = getParentName n" "r_is_directory r = 1"
    using r that db_treeD(2) [OF tree] getParentName_neq [OF n(1)]
    by (auto simp: inserted_simps children_inserted relist_def dirContentCreate_def)
qed

lemma children_deleted: "children (delete_where n db) p = filter (\<lambda>k. k \<noteq> n) (children db p)"
  by (simp add: children_def delete_where_def filter_map comp_def conj_commute)

lemma deleted_tree:
  assumes wf: "db_wf m db" and tree: "db_tree db" and r: "select db n = Some r"
    and empty: "r_is_directory r = 0 \<or> r_content r = ''''"
  shows "db_tree (deleted h n db)"
  unfolding deleted_def
proof (rule tree_update_where [OF keeps_id_relist])
  let ?db = "delete_where n db"
  have R: "r \<in> set (fs db)" "r_name r = n" using select_SomeD [OF r] by auto
  have none: "getParentName (r_name q) \<noteq> n \<or> getParentName (r_name q) = ''/''"
    if q: "q \<in> set (fs db)" for q
  proof (rule ccontr)
    assume neg: "\<not> ?thesis"
    then have "has_dir db n" using db_treeD(1) [OF tree q] by auto
    with has_dir_select [OF wf] r have dir: "r_is_directory r \<noteq> 0" by auto
    with empty select_dirD [OF wf tree r dir] have "children db n = []" by auto
    with q neg show False by (auto simp: children_def filter_empty_conv)
  qed
  have hd: "has_dir ?db p" if "has_dir db p" "p \<noteq> n" for p
    using that by (auto simp: has_dir_iff delete_where_def)
  fix q assume "q \<in> set (fs ?db)"
  then have q: "q \<in> set (fs db)" by (auto simp: delete_where_def)
  show "getParentName (r_name q) = ''/'' \<or> has_dir ?db (getParentName (r_name q))"
    using db_treeD(1) [OF tree q] none [OF q] hd by blast
  have keep: "filter (\<lambda>k. k \<noteq> n) (children db p) = children db p" if "p \<noteq> getParentName n" for p
    using that by (auto simp: children_def intro!: filter_cong)
  show "r_content q = listing (children ?db (r_name q))"
    if "r_name q \<noteq> getParentName n" "r_is_directory q = 1"
    using db_treeD(2) [OF tree q that(2)] keep [OF that(1)] by (simp add: children_deleted)
  show "r_content (relist h (\<lambda>c. dirContentDelete c n) q) = listing (children ?db (getParentName n))"
    if "r_name q = getParentName n" "r_is_directory q = 1"
    using db_treeD(2) [OF tree q that(2)] that(1) children_checkName [OF wf]
    by (simp add: relist_def children_deleted dirContentDelete_listing)
qed

section \<open>The operations implement the abstract store\<close>

definition db_inv :: "int \<Rightarrow> server_db \<Rightarrow> bool" where
  "db_inv m db \<longleftrightarrow> db_wf m db \<and> db_tree db"

lemma fsys_eqI: "nodes s = nodes t \<Longrightarrow> last_instance s = last_instance t \<Longrightarrow> s = (t :: fsys)"
  by simp

lemma nodes_abs [simp]: "nodes (abs_db db) n = map_option abs_row (select db n)"
  by (simp add: abs_db_def)

lemma last_instance_abs:
  "kvpairs db ''max_instance_number'' = Some v \<Longrightarrow> last_instance (abs_db db) = integer v"
  by (simp add: abs_db_def)

lemma abs_row_simps [simp]:
  "i_owner (abs_row r) = None \<longleftrightarrow> r_lock_owner r = NO_OWNER"
  "i_instance (abs_row r) = integer (r_instance_number r)"
  "i_cgen (abs_row r) = integer (r_content_generation_number r)"
  "i_lgen (abs_row r) = integer (r_lock_generation_number r)"
  by (simp_all add: abs_row_def)

lemma abs_row_file: "r_is_directory r \<noteq> 1 \<Longrightarrow> i_body (abs_row r) = File (r_content r)"
  by (simp add: abs_row_def)

lemma abs_row_dir:
  assumes "r_is_directory r = 1" "r_content r = listing ns" "\<forall>k \<in> set ns. checkName k"
  shows "i_body (abs_row r) = Dir ns"
  using assms getlines_listing [of ns] by (simp add: abs_row_def)

lemma node_is_dir_abs:
  assumes "db_wf m db" shows "node_is_dir (abs_db db) p \<longleftrightarrow> has_dir db p"
proof (cases "select db p")
  case None
  then show ?thesis by (simp add: node_is_dir_def has_dir_select [OF assms])
next
  case (Some r)
  obtain v where "row_wf m v r" using assms select_SomeD [OF Some] by (metis db_wfE)
  with Some show ?thesis
    by (auto simp: node_is_dir_def has_dir_select [OF assms] abs_row_def row_wf_def)
qed

lemma nodes_update_where:
  "keeps_id f \<Longrightarrow> nodes (abs_db (update_where n f db)) =
     (nodes (abs_db db))(n := map_option (abs_row \<circ> f) (select db n))"
  by (auto simp: fun_eq_iff select_update_where keeps_id_def option.map_comp)

lemma abs_update_where:
  assumes "keeps_id f" "select db n = Some r" "abs_row (f r) = g (abs_row r)"
  shows "abs_db (update_where n f db)
       = (abs_db db)\<lparr>nodes := (nodes (abs_db db))(n \<mapsto> g (abs_row r))\<rparr>"
proof -
  have "nodes (abs_db (update_where n f db)) = (nodes (abs_db db))(n \<mapsto> g (abs_row r))"
    using nodes_update_where [OF assms(1), of n db] assms(2,3) by simp
  then show ?thesis by (simp add: abs_db_def)
qed

lemma abs_row_relist:
  assumes "r_is_directory r = 1" "r_content r = listing ns" "g (listing ns) = listing (f ns)"
    "\<forall>k \<in> set (f ns). checkName k" "row_wf m v r" "m + 1 < 2 ^ 31"
  shows "abs_row (relist h g r) = (abs_row r)\<lparr>i_body := Dir (f ns),
    i_cgen := i_cgen (abs_row r) + 1, i_sum := sum32 h (listing (f ns))\<rparr>"
  using assms getlines_listing [of "f ns"]
  by (simp add: abs_row_def relist_def sum32_def fmt_d_integer row_wf_def)

lemma nodes_relist:
  assumes wf: "db_wf m db" "m + 1 < 2 ^ 31"
    and p: "\<And>r. select db p = Some r \<Longrightarrow> r_is_directory r = 1 \<and> r_content r = listing ns"
    and ns: "\<forall>k \<in> set ns. checkName k" "\<forall>k \<in> set (f ns). checkName k"
    and g: "g (listing ns) = listing (f ns)"
  shows "nodes (abs_db (update_where p (relist h g) db)) = set_children h p f (nodes (abs_db db))"
proof (cases "select db p")
  case None
  then show ?thesis by (simp add: nodes_update_where set_children_def fun_upd_idem)
next
  case (Some r)
  with p have r: "r_is_directory r = 1" "r_content r = listing ns" by auto
  obtain v where "row_wf m v r" using wf(1) select_SomeD [OF Some] by (metis db_wfE)
  with abs_row_relist [where f = f and g = g, OF r g ns(2) _ wf(2)] abs_row_dir [OF r ns(1)] Some show ?thesis
    by (simp add: nodes_update_where set_children_def)
qed

lemma nodes_inserted:
  assumes "db_wf m db" "m + 1 < 2 ^ 31" "select db n = None"
    "kvpairs db ''max_instance_number'' = Some v"
  shows "nodes (abs_db (inserted n d v db)) = (nodes (abs_db db))(n \<mapsto> new_node (integer (v + 1)) d)"
proof -
  have "0 \<le> v" "v \<le> m" using assms(1,4) by (auto elim!: db_wfE)
  with assms(2) have "fmt_d (integer (v + 1)) = v + 1" by (intro fmt_d_integer) auto
  then have "abs_row (new_row db n (integer (v + 1)) d) = new_node (integer (v + 1)) d"
    by (simp add: abs_row_def new_node_def integer_def getlines_def)
  then show ?thesis
    by (auto simp: fun_eq_iff inserted_def select_insert_row [OF assms(3)])
qed

lemma set_children_upd:
  "p \<noteq> n \<Longrightarrow> set_children h p f (m(n \<mapsto> x)) = (set_children h p f m)(n \<mapsto> x)"
  by (auto simp: set_children_def fun_upd_twist split: option.splits body.splits)

lemma select_dir_row:
  assumes "db_wf m db" "db_tree db" "has_dir db p \<or> p = ''/''" "select db p = Some r"
  shows "r_is_directory r = 1" "r_content r = listing (children db p)"
proof -
  have "p \<noteq> ''/''" using root_absent [OF assms(1)] select_SomeD [OF assms(4)] by force
  with assms(3,4) have "r_is_directory r \<noteq> 0" using has_dir_select [OF assms(1), of p] by auto
  from select_dirD [OF assms(1,2,4) this]
  show "r_is_directory r = 1" "r_content r = listing (children db p)" by auto
qed

lemma abs_created:
  assumes wf: "db_wf m db" and m: "m + 2 < 2 ^ 31" and tree: "db_tree db"
    and n: "checkName n" "select db n = None"
    and par: "getParentName n = ''/'' \<or> has_dir db (getParentName n)"
    and v: "kvpairs db ''max_instance_number'' = Some v"
  shows "abs_db (created h n d v db) = (abs_db db)\<lparr>
    nodes := (set_children h (getParentName n) (\<lambda>ns. ns @ [n]) (nodes (abs_db db)))
               (n \<mapsto> new_node (integer (v + 1)) d), last_instance := integer (v + 1)\<rparr>"
proof -
  let ?p = "getParentName n"
  have ins: "db_wf (m + 1) (inserted n d v db)"
    using wf_insert_row [of m db n v d] assms by (simp add: inserted_def)
  have neq: "?p \<noteq> n" by (rule getParentName_neq [OF n(1)])
  have "nodes (abs_db (created h n d v db))
      = set_children h ?p (\<lambda>ns. ns @ [n]) (nodes (abs_db (inserted n d v db)))"
    unfolding created_def
  proof (rule nodes_relist [OF ins])
    show "r_is_directory r = 1 \<and> r_content r = listing (children db ?p)"
      if "select (inserted n d v db) ?p = Some r" for r
      using that neq par select_dir_row [OF wf tree, of ?p r]
      by (auto simp: inserted_def select_insert_row [OF n(2)])
  qed (use m n children_checkName [OF wf] in \<open>auto simp: dirContentCreate_def\<close>)
  also have "\<dots> = (set_children h ?p (\<lambda>ns. ns @ [n]) (nodes (abs_db db)))
      (n \<mapsto> new_node (integer (v + 1)) d)"
    using nodes_inserted [OF wf _ n(2) v] m neq by (simp add: set_children_upd)
  finally have "nodes (abs_db (created h n d v db)) = \<dots>" .
  moreover have "0 \<le> v" "v \<le> m" using wf v by (auto elim!: db_wfE)
  then have "last_instance (abs_db (created h n d v db)) = integer (v + 1)"
    using v m by (simp add: abs_db_def created_def inserted_simps fmt_d_integer)
  ultimately show ?thesis by (intro fsys_eqI) simp_all
qed

lemma abs_deleted:
  assumes wf: "db_wf m db" and m: "m + 1 < 2 ^ 31" and tree: "db_tree db"
    and n: "checkName n" "select db n = Some r"
  shows "abs_db (deleted h n db) = (abs_db db)\<lparr>nodes :=
    set_children h (getParentName n) (filter (\<lambda>k. k \<noteq> n)) ((nodes (abs_db db))(n := None))\<rparr>"
proof -
  let ?p = "getParentName n"
  have neq: "?p \<noteq> n" by (rule getParentName_neq [OF n(1)])
  have par: "has_dir db ?p \<or> ?p = ''/''"
    using db_treeD(1) [OF tree] select_SomeD [OF n(2)] by auto
  have "nodes (abs_db (deleted h n db))
      = set_children h ?p (filter (\<lambda>k. k \<noteq> n)) (nodes (abs_db (delete_where n db)))"
    unfolding deleted_def
  proof (rule nodes_relist [OF wf_delete_where [OF wf] m])
    show "r_is_directory q = 1 \<and> r_content q = listing (children db ?p)"
      if "select (delete_where n db) ?p = Some q" for q
      using that neq par select_dir_row [OF wf tree, of ?p q]
      by (auto simp: select_delete_where)
  qed (use children_checkName [OF wf] in \<open>auto simp: dirContentDelete_listing\<close>)
  moreover have "nodes (abs_db (delete_where n db)) = (nodes (abs_db db))(n := None)"
    by (auto simp: fun_eq_iff select_delete_where)
  moreover have "last_instance (abs_db (deleted h n db)) = last_instance (abs_db db)"
    by (simp add: abs_db_def deleted_def)
  ultimately show ?thesis by (intro fsys_eqI) simp_all
qed

text \<open>The row of a lock taken by \<open>c\<close>, and of a released lock.\<close>

definition locked :: "string \<Rightarrow> fs_row \<Rightarrow> fs_row" where
  "locked c r = r\<lparr>r_lock_owner := c,
     r_lock_generation_number := fmt_d (integer (r_lock_generation_number r + 1))\<rparr>"

definition unlocked :: "fs_row \<Rightarrow> fs_row" where
  "unlocked r = r\<lparr>r_lock_owner := NO_OWNER\<rparr>"

lemma keeps_id_lock [simp]: "keeps_id (locked c)" "keeps_id unlocked"
  by (simp_all add: keeps_id_def locked_def unlocked_def)

lemma select_only:
  "db_wf m db \<Longrightarrow> select db n = Some r \<Longrightarrow> q \<in> set (fs db) \<Longrightarrow> r_name q = n \<Longrightarrow> q = r"
  by (metis db_wfE select_unique option.inject)

lemma checkAndUpdate_eq:
  assumes wf: "db_wf m db" and n: "checkName n" and c: "plain c"
  shows "checkAndUpdate h n i c db =
    (case select db n of
       None \<Rightarrow> Inr (False, db)
     | Some r \<Rightarrow> if integer (r_instance_number r) \<noteq> i then Inr (False, db)
                else Inr (True, update_where n (relist h (\<lambda>_. c)) db))"
proof (cases "select db n")
  case None
  with n show ?thesis by (simp add: checkAndUpdate_def)
next
  case (Some r)
  have "update_content c (integer (r_content_generation_number r) + 1) (h c) n db
      = Inr (update_where n (relist h (\<lambda>_. c)) db)"
    by (rule update_content_relist [where g = "\<lambda>_. c", OF n]) (use c select_only [OF wf Some] in auto)
  with Some n show ?thesis by (simp add: checkAndUpdate_def)
qed

lemma testAndSetLockOwner_eq:
  assumes wf: "db_wf m db" and n: "checkName n" and c: "plain c"
  shows "testAndSetLockOwner n i c db =
    (case select db n of
       None \<Rightarrow> Inr (False, db)
     | Some r \<Rightarrow> if integer (r_instance_number r) \<noteq> i \<or> r_lock_owner r \<noteq> NO_OWNER
                then Inr (False, db) else Inr (True, update_where n (locked c) db))"
proof (cases "select db n")
  case None
  with n show ?thesis by (simp add: testAndSetLockOwner_def)
next
  case (Some r)
  have "update_where n (\<lambda>q. q\<lparr>r_lock_owner := c,
      r_lock_generation_number := fmt_d (integer (r_lock_generation_number r + 1))\<rparr>) db
    = update_where n (locked c) db"
    by (rule update_where_cong) (use select_only [OF wf Some] in \<open>auto simp: locked_def\<close>)
  with Some n c show ?thesis by (simp add: testAndSetLockOwner_def)
qed

lemma resetLockOwner_eq:
  assumes "checkName n"
  shows "resetLockOwner n i db =
    (case select db n of
       None \<Rightarrow> Inr (False, db)
     | Some r \<Rightarrow> if integer (r_instance_number r) \<noteq> i then Inr (False, db)
                else Inr (True, update_where n unlocked db))"
proof -
  have "unlocked = (\<lambda>q. q\<lparr>r_lock_owner := NO_OWNER\<rparr>)" by (simp add: fun_eq_iff unlocked_def)
  then show ?thesis using assms by (cases "select db n") (simp_all add: resetLockOwner_def)
qed

lemma row_wf_lock:
  "row_wf m v r \<Longrightarrow> m < m' \<Longrightarrow> m' < 2 ^ 31 \<Longrightarrow> row_wf m' v (locked c r)"
  "row_wf m v r \<Longrightarrow> m \<le> m' \<Longrightarrow> row_wf m' v (unlocked r)"
  by (simp_all add: row_wf_def locked_def unlocked_def fmt_d_integer)

lemma tree_same_content:
  assumes "db_tree db" "keeps_id f"
    "\<And>r. select db n = Some r \<Longrightarrow> r_is_directory r = 1 \<Longrightarrow> r_content (f r) = r_content r"
    "db_wf m db"
  shows "db_tree (update_where n f db)"
proof (rule tree_update_where [OF assms(2)])
  fix r assume r: "r \<in> set (fs db)"
  show "getParentName (r_name r) = ''/'' \<or> has_dir db (getParentName (r_name r))"
    by (rule db_treeD(1) [OF assms(1) r])
  show "r_content r = listing (children db (r_name r))"
    if "r_is_directory r = 1" by (rule db_treeD(2) [OF assms(1) r that])
  show "r_content (f r) = listing (children db n)"
    if "r_name r = n" "r_is_directory r = 1"
  proof -
    have "select db n = Some r" using assms(4) r that(1) by (metis db_wfE select_unique)
    with that db_treeD(2) [OF assms(1) r that(2)] assms(3) show ?thesis by simp
  qed
qed

lemma abs_row_locked:
  "row_wf m v r \<Longrightarrow> m + 1 < 2 ^ 31 \<Longrightarrow> c \<noteq> NO_OWNER \<Longrightarrow>
   abs_row (locked c r) = (abs_row r)\<lparr>i_owner := Some c, i_lgen := i_lgen (abs_row r) + 1\<rparr>"
  "abs_row (unlocked r) = (abs_row r)\<lparr>i_owner := None\<rparr>"
  by (simp_all add: row_wf_def locked_def unlocked_def abs_row_def fmt_d_integer)

lemma abs_row_update:
  "row_wf m v r \<Longrightarrow> m + 1 < 2 ^ 31 \<Longrightarrow> r_is_directory r \<noteq> 1 \<Longrightarrow>
   abs_row (relist h (\<lambda>_. c) r) = (abs_row r)\<lparr>i_body := File c, i_cgen := i_cgen (abs_row r) + 1,
     i_sum := sum32 h c\<rparr>"
  by (simp add: row_wf_def relist_def abs_row_def fmt_d_integer sum32_def)

lemma node_of_abs:
  "node_of (abs_db db) n i = (case select db n of
     Some r \<Rightarrow> if integer (r_instance_number r) = i then Some (abs_row r) else None
   | None \<Rightarrow> None)"
  by (auto simp: node_of_def split: option.splits)

text \<open>One command: it does not fail, keeps the invariants and does what the abstract store says.\<close>

definition step_ok :: "(string \<Rightarrow> u64) \<Rightarrow> int \<Rightarrow> db_cmd \<Rightarrow> server_db \<Rightarrow> bool" where
  "step_ok h m c db \<longleftrightarrow> (\<exists>x db'. run_cmd h c db = Inr (x, db') \<and> db_inv (m + 2) db'
     \<and> spec_cmd h c (abs_db db) = (x, abs_db db'))"

lemma step_okI:
  "run_cmd h c db = Inr (x, db') \<Longrightarrow> db_inv (m + 2) db' \<Longrightarrow>
   spec_cmd h c (abs_db db) = (x, abs_db db') \<Longrightarrow> step_ok h m c db"
  by (auto simp: step_ok_def)

lemma db_invD: "db_inv m db \<Longrightarrow> db_wf m db" "db_inv m db \<Longrightarrow> db_tree db"
  by (simp_all add: db_inv_def)

lemma db_inv_mono: "db_inv m db \<Longrightarrow> m \<le> m' \<Longrightarrow> db_inv m' db"
  using db_wf_mono [of m db m'] by (simp add: db_inv_def)

lemma update_inv:
  assumes "db_inv m db" "keeps_id f" "\<And>v r. row_wf m v r \<Longrightarrow> row_wf (m + 2) v (f r)"
    "\<And>r. select db n = Some r \<Longrightarrow> r_is_directory r = 1 \<Longrightarrow> r_content (f r) = r_content r"
  shows "db_inv (m + 2) (update_where n f db)"
  unfolding db_inv_def using db_invD [OF assms(1)] assms(2-4)
  by (auto intro!: wf_update_where tree_same_content)

lemma select_wf: "db_wf m db \<Longrightarrow> select db n = Some r \<Longrightarrow> \<exists>v. row_wf m v r"
  using select_SomeD [of db n r] by (metis db_wfE)

lemma step_create:
  assumes inv: "db_inv m db" and m: "m + 2 < 2 ^ 31" and n: "checkName n"
  shows "step_ok h m (Create n d) db"
proof -
  note wf = db_invD(1) [OF inv] and tree = db_invD(2) [OF inv]
  from wf obtain v where v: "kvpairs db ''max_instance_number'' = Some v" by (rule db_wfE)
  note eq = checkAndCreate_eq [OF wf tree n v, of h d]
  show ?thesis
  proof (cases "select db n \<noteq> None \<or> getParentName n \<noteq> ''/'' \<and> \<not> has_dir db (getParentName n)")
    case True
    with eq inv db_inv_mono [of m db "m + 2"] show ?thesis
      by (intro step_okI [of _ _ _ "Instance None" db]) (auto simp: node_is_dir_abs [OF wf])
  next
    case False
    then have new: "select db n = None"
      and par: "getParentName n = ''/'' \<or> has_dir db (getParentName n)" by auto
    have "db_inv (m + 2) (created h n d v db)"
      using created_wf [OF wf m n new v] created_tree [OF wf tree n new par]
      by (simp add: db_inv_def)
    with eq new par abs_created [OF wf m tree n new par v, of h d] last_instance_abs [OF v]
    show ?thesis
      by (intro step_okI [of _ _ _ "Instance (Some (integer (v + 1)))" "created h n d v db"])
        (auto simp: node_is_dir_abs [OF wf] Let_def)
  qed
qed

lemma step_delete:
  assumes inv: "db_inv m db" and m: "m + 2 < 2 ^ 31" and n: "checkName n"
  shows "step_ok h m (Delete n i) db"
proof -
  note wf = db_invD(1) [OF inv] and tree = db_invD(2) [OF inv]
  note eq = checkAndDelete_eq [OF wf tree n, of h i]
  have fail: ?thesis if "checkAndDelete h n i db = Inr (False, db)"
    "spec_cmd h (Delete n i) (abs_db db) = (Success False, abs_db db)"
    using that db_inv_mono [OF inv, of "m + 2"]
    by (intro step_okI [of _ _ _ "Success False" db]) auto
  show ?thesis
  proof (cases "select db n")
    case None
    with eq show ?thesis by (intro fail) (simp_all add: node_of_abs)
  next
    case (Some r)
    have body: "(case i_body (abs_row r) of Dir ns \<Rightarrow> ns \<noteq> [] | File _ \<Rightarrow> False)
        \<longleftrightarrow> r_is_directory r \<noteq> 0 \<and> r_content r \<noteq> []"
    proof (cases "r_is_directory r = 0")
      case True
      then show ?thesis by (simp add: abs_row_file)
    next
      case False
      from select_dirD [OF wf tree Some False] abs_row_dir [of r, OF _ _ children_checkName [OF wf]]
      show ?thesis by simp
    qed
    show ?thesis
    proof (cases "r_lock_owner r \<noteq> NO_OWNER \<or> integer (r_instance_number r) \<noteq> i
        \<or> r_is_directory r \<noteq> 0 \<and> r_content r \<noteq> []")
      case True
      with eq Some body show ?thesis by (intro fail) (auto simp: node_of_abs)
    next
      case False
      have "db_inv (m + 2) (deleted h n db)"
        using deleted_wf [OF wf, of h n] db_wf_mono [of "m + 1" "deleted h n db" "m + 2"] m
          deleted_tree [OF wf tree Some, of h] False by (auto simp: db_inv_def)
      with eq Some False body abs_deleted [OF wf _ tree n Some, of h] m show ?thesis
        by (intro step_okI [of _ _ _ "Success True" "deleted h n db"]) (auto simp: node_of_abs)
    qed
  qed
qed

lemma step_update_where:
  assumes inv: "db_inv m db" and r: "select db n = Some r" and f: "keeps_id f"
    and wf: "\<And>v r. row_wf m v r \<Longrightarrow> row_wf (m + 2) v (f r)"
    and keep: "r_is_directory r = 1 \<Longrightarrow> r_content (f r) = r_content r"
    and run: "run_cmd h c db = Inr (Success True, update_where n f db)"
    and spec: "spec_cmd h c (abs_db db) = (Success True, (abs_db db)\<lparr>nodes :=
                 (nodes (abs_db db))(n \<mapsto> abs_row (f r))\<rparr>)"
  shows "step_ok h m c db"
proof (rule step_okI [OF run])
  show "db_inv (m + 2) (update_where n f db)"
    by (rule update_inv [OF inv f wf]) (use r keep in auto)
  show "spec_cmd h c (abs_db db) = (Success True, abs_db (update_where n f db))"
    using spec abs_update_where [OF f r, of "\<lambda>_. abs_row (f r)"] by simp
qed

lemma step_same:
  assumes "db_inv m db" "run_cmd h c db = Inr (x, db)" "spec_cmd h c (abs_db db) = (x, abs_db db)"
  shows "step_ok h m c db"
  using assms db_inv_mono [of m db "m + 2"] by (intro step_okI) auto

lemma step_update:
  assumes inv: "db_inv m db" and m: "m + 2 < 2 ^ 31" and n: "checkName n" and c: "plain c"
    and nodir: "\<not> node_is_dir (abs_db db) n"
  shows "step_ok h m (Update n i c) db"
proof -
  note wf = db_invD(1) [OF inv]
  note eq = checkAndUpdate_eq [OF wf n c, of h i]
  show ?thesis
  proof (cases "node_of (abs_db db) n i")
    case None
    with eq show ?thesis
      by (intro step_same [OF inv, of _ _ "Success False"]) (auto simp: node_of_abs split: option.splits if_splits)
  next
    case (Some d)
    then obtain r where r: "select db n = Some r" "integer (r_instance_number r) = i"
      by (auto simp: node_of_abs split: option.splits if_splits)
    obtain v where v: "row_wf m v r" using select_wf [OF wf r(1)] by blast
    have "r_is_directory r \<noteq> 1"
      using nodir r(1) node_is_dir_abs [OF wf, of n] has_dir_select [OF wf, of n] by auto
    with abs_row_update [OF v, of h c] m eq r Some row_wf_relist [of m] show ?thesis
      by (intro step_update_where [OF inv r(1) keeps_id_relist]) (auto simp: node_of_abs)
  qed
qed

lemma step_lock:
  assumes inv: "db_inv m db" and m: "m + 2 < 2 ^ 31" and n: "checkName n" and c: "plain c"
    "c \<noteq> NO_OWNER"
  shows "step_ok h m (Lock n i c) db"
proof -
  note wf = db_invD(1) [OF inv]
  note eq = testAndSetLockOwner_eq [OF wf n c(1), of i]
  show ?thesis
  proof (cases "\<exists>d. node_of (abs_db db) n i = Some d \<and> i_owner d = None")
    case False
    then have "testAndSetLockOwner n i c db = Inr (False, db)"
      by (subst eq) (auto simp: node_of_abs abs_row_def split: option.splits)
    moreover from False have "spec_cmd h (Lock n i c) (abs_db db) = (Success False, abs_db db)"
      by (auto split: option.splits)
    ultimately show ?thesis
      by (intro step_same [OF inv, of _ _ "Success False"]) auto
  next
    case True
    then obtain r where r: "select db n = Some r" "integer (r_instance_number r) = i"
      "r_lock_owner r = NO_OWNER"
      by (auto simp: node_of_abs split: option.splits if_splits)
    obtain v where v: "row_wf m v r" using select_wf [OF wf r(1)] by blast
    from abs_row_locked(1) [OF v _ c(2)] m eq r row_wf_lock(1) [of m] show ?thesis
      by (intro step_update_where [OF inv r(1) keeps_id_lock(1)])
        (auto simp: node_of_abs locked_def)
  qed
qed

lemma step_unlock:
  assumes inv: "db_inv m db" and m: "m + 2 < 2 ^ 31" and n: "checkName n"
  shows "step_ok h m (Unlock n i) db"
proof (cases "node_of (abs_db db) n i")
  case None
  with resetLockOwner_eq [OF n, of i db] show ?thesis
    by (intro step_same [OF inv, of _ _ "Success False"]) (auto simp: node_of_abs split: option.splits if_splits)
next
  case (Some d)
  then obtain r where r: "select db n = Some r" "integer (r_instance_number r) = i"
    by (auto simp: node_of_abs split: option.splits if_splits)
  from abs_row_locked(2) [of r] resetLockOwner_eq [OF n, of i db] r row_wf_lock(2) [of m] show ?thesis
    by (intro step_update_where [OF inv r(1) keeps_id_lock(2)])
      (auto simp: node_of_abs unlocked_def)
qed

lemma step_open:
  assumes "db_inv m db" "checkName n"
  shows "step_ok h m (Open n) db"
  using assms by (intro step_same) (auto simp: checkAndOpen_def split: option.splits)

lemma node_text_abs:
  assumes "db_wf m db" "db_tree db" "select db n = Some r"
  shows "node_text (abs_row r) = r_content r" "md_is_directory (node_meta (abs_row r)) = (r_is_directory r \<noteq> 0)"
proof -
  have "node_text (abs_row r) = r_content r
      \<and> md_is_directory (node_meta (abs_row r)) = (r_is_directory r \<noteq> 0)"
  proof (cases "r_is_directory r = 0")
    case True
    then show ?thesis by (simp add: node_text_def node_meta_def abs_row_file)
  next
    case False
    from select_dirD [OF assms False] abs_row_dir [of r, OF _ _ children_checkName [OF assms(1)]]
    show ?thesis by (simp add: node_text_def node_meta_def)
  qed
  then show "node_text (abs_row r) = r_content r"
    "md_is_directory (node_meta (abs_row r)) = (r_is_directory r \<noteq> 0)" by auto
qed

lemma step_read:
  assumes inv: "db_inv m db" and n: "checkName n"
  shows "step_ok h m (Read n i) db"
proof (cases "node_of (abs_db db) n i")
  case None
  with n show ?thesis
    by (intro step_same [OF inv, of _ _ "Contents None"])
      (auto simp: checkAndRead_def node_of_abs split: option.splits if_splits)
next
  case (Some d)
  then obtain r where r: "select db n = Some r" "integer (r_instance_number r) = i" "d = abs_row r"
    by (auto simp: node_of_abs split: option.splits if_splits)
  note tx = node_text_abs [OF db_invD [OF inv] r(1)]
  have "i_sum (abs_row r) = integer (r_file_content_checksum r)" by (simp add: abs_row_def)
  with n Some r tx show ?thesis
    by (intro step_same [OF inv, of _ _ "Contents (Some (node_text d, node_meta d))"])
      (auto simp: checkAndRead_def node_meta_def)
qed

lemma run_cmd_refines:
  assumes "db_inv m db" "m + 2 < 2 ^ 31" "cmd_ok (abs_db db) c"
  shows "step_ok h m c db"
  using assms
  by (cases c) (auto intro: step_create step_delete step_update step_lock step_unlock step_open step_read)

lemma create_inv: "db_inv 0 create"
  by (simp add: db_inv_def db_wf_def db_tree_def create_def)

section \<open>The tables as an instance of the contract\<close>

interpretation store: refined_store h "run_cmd h" abs_db db_inv "\<lambda>c db. cmd_ok (abs_db db) c" for h
proof unfold_locales
  show "\<exists>x db'. run_cmd h c db = Inr (x, db') \<and> db_inv (m + 2) db' \<and> spec_cmd h c (abs_db db) = (x, abs_db db')"
    if "db_inv m db" "m + 2 < 2 ^ 31" "cmd_ok (abs_db db) c" for m db c
    using run_cmd_refines [OF that] by (simp add: step_ok_def)
  show "\<exists>v. 0 \<le> v \<and> v \<le> m \<and> last_instance (abs_db db) = integer v" if "db_inv m db" for m db
    using db_invD(1) [OF that] by (auto simp: last_instance_abs elim!: db_wfE)
qed

lemma run_cmds_with: "run_cmds h cs db = run_with (run_cmd h) cs db"
  by (induction cs arbitrary: db) (auto simp: bindR_def split: sum.splits)

text \<open>For the tables the condition on a run can be read off the abstract store.\<close>

lemma store_oks:
  assumes "db_inv m db" "m + 2 * int (length cs) < 2 ^ 31" "cmds_ok h cs (abs_db db)"
  shows "oks_with (run_cmd h) (\<lambda>c db. cmd_ok (abs_db db) c) cs db"
  using assms
proof (induction cs arbitrary: m db)
  case (Cons c cs)
  then have "step_ok h m c db" by (intro run_cmd_refines) auto
  then obtain x db1 where 1: "run_cmd h c db = Inr (x, db1)" "db_inv (m + 2) db1"
    "spec_cmd h c (abs_db db) = (x, abs_db db1)" by (auto simp: step_ok_def)
  with Cons.prems have "m + 2 + 2 * int (length cs) < 2 ^ 31" "cmds_ok h cs (abs_db db1)" by auto
  with Cons.IH [OF 1(2)] Cons.prems 1(1) show ?case by simp
qed simp

lemma run_cmds_refines:
  assumes "db_inv m db" "m + 2 * int (length cs) < 2 ^ 31" "cmds_ok h cs (abs_db db)"
  shows "\<exists>xs db'. run_cmds h cs db = Inr (xs, db') \<and> db_inv (m + 2 * int (length cs)) db'
    \<and> spec_cmds h cs (abs_db db) = (xs, abs_db db')"
  using store.run_refines [OF assms(1,2) store_oks [OF assms]] by (simp add: run_cmds_with)

end
