(* ===== verification/Server_Db_Properties.thy ===== *)
theory Server_Db_Properties
  imports Server_Db_Refine
begin

text \<open>
  The properties of the replicated store (\<open>src/server/serverdb.cc\<close>): correspondence with the
  abstract store and tree invariant for every run of commands, increasing instance numbers,
  locks, the read-back of an update, and the behaviours that depart from the description in
  \<open>src/server/serverdb.h\<close>.
\<close>

section \<open>Locks in the tables\<close>

lemma abs_row_owner:
  "i_owner (abs_row r) = (if r_lock_owner r = NO_OWNER then None else Some (r_lock_owner r))"
  by (simp add: abs_row_def)

lemma owned_abs:
  "owned n c i (abs_db d) \<longleftrightarrow> (\<exists>r. select d n = Some r \<and> r_lock_owner r = c
      \<and> c \<noteq> NO_OWNER \<and> integer (r_instance_number r) = i)"
  by (cases "select d n") (auto simp: owned_def abs_row_owner split: if_splits)

section \<open>Correspondence and invariants of every run\<close>

text \<open>C1: Starting from the empty store, any sequence of up to a thousand million commands with
  valid names and plain texts, in which no directory's listing is overwritten, runs to its end
  without a failed assertion or a broken statement, and every reply and the final tables are
  those of the abstract store (a map from names to nodes, where a directory can be removed
  exactly when it has no children).\<close>

theorem store_refines:
  assumes "cmds_ok h cs (abs_db create)" and "2 * int (length cs) < 2 ^ 31"
  shows "\<exists>xs db. run_cmds h cs create = Inr (xs, db)
           \<and> spec_cmds h cs (abs_db create) = (xs, abs_db db)"
  using run_cmds_refines [OF create_inv, of cs h] assms by auto

definition sample_cmds :: "db_cmd list" where
  "sample_cmds = [Create ''/a'' True, Create ''/a/b'' False, Delete ''/a'' 1,
     Lock ''/a/b'' 2 ''c1'', Update ''/a/b'' 2 ''x'']"

lemma sample_cmds_ok: "cmds_ok (\<lambda>_. 7) sample_cmds (abs_db create)"
  by (simp add: sample_cmds_def checkName_def checkChar_def validChars_def select_def create_def
      getParentName_def node_of_def node_is_dir_def abs_db_def set_children_def new_node_def Let_def
      plain_def is_column_def columns_def lower_char_def NO_OWNER_def integer_def)

theorem store_refines_witness:
  "\<exists>xs db. run_cmds (\<lambda>_. 7) sample_cmds create = Inr (xs, db)
     \<and> spec_cmds (\<lambda>_. 7) sample_cmds (abs_db create) = (xs, abs_db db)"
  by (rule store_refines [OF sample_cmds_ok]) (simp add: sample_cmds_def)

text \<open>C21: After any such run the tables form a tree: names are valid and unique, instance numbers
  are unique and bounded by the stored maximum, every node's parent is the root or an existing
  directory, and the content of every directory lists exactly its children.\<close>

theorem store_tree:
  assumes "cmds_ok h cs (abs_db create)" and "2 * int (length cs) < 2 ^ 31"
  shows "\<exists>xs db. run_cmds h cs create = Inr (xs, db)
           \<and> db_wf (2 * int (length cs)) db \<and> db_tree db"
  using run_cmds_refines [OF create_inv, of cs h] assms by (auto simp: db_inv_def)

theorem store_tree_witness:
  "\<exists>xs db. run_cmds (\<lambda>_. 7) sample_cmds create = Inr (xs, db)
     \<and> db_wf (2 * int (length sample_cmds)) db \<and> db_tree db"
  by (rule store_tree [OF sample_cmds_ok]) (simp add: sample_cmds_def)

text \<open>C23: The instance numbers returned by the successful creations of a run strictly increase: a
  handle to a deleted node never matches a later node of the same name.\<close>

theorem instance_numbers_increase:
  assumes "cmds_ok h cs (abs_db create)" and "2 * int (length cs) < 2 ^ 31"
  shows "\<exists>xs db. run_cmds h cs create = Inr (xs, db) \<and> sorted_wrt (<) (new_instances cs xs)"
  using store.instances_increase [OF create_inv _ store_oks [OF create_inv _ assms(1)]] assms(2)
  by (simp add: run_cmds_with)

theorem instance_numbers_increase_witness:
  "\<exists>xs db. run_cmds (\<lambda>_. 7) sample_cmds create = Inr (xs, db)
     \<and> sorted_wrt (<) (new_instances sample_cmds xs)"
  by (rule instance_numbers_increase [OF sample_cmds_ok]) (simp add: sample_cmds_def)

text \<open>C22: A lock recorded in the store stays with its owner until it is reset: whatever other
  commands run, every attempt to take the same lock and every attempt to delete the locked
  node fails, and the owner and the instance of the node stay the same.\<close>

theorem lock_kept_until_reset:
  assumes "db_inv m db" and "m + 2 * int (length cs) < 2 ^ 31" and "cmds_ok h cs (abs_db db)"
    and "select db n = Some r" and "r_lock_owner r \<noteq> NO_OWNER" and "\<forall>j. Unlock n j \<notin> set cs"
  shows "\<exists>xs db' r'. run_cmds h cs db = Inr (xs, db') \<and> select db' n = Some r'
    \<and> r_lock_owner r' = r_lock_owner r \<and> integer (r_instance_number r') = integer (r_instance_number r)
    \<and> list_all2 (refused n) cs xs"
proof -
  have "owned n (r_lock_owner r) (integer (r_instance_number r)) (abs_db db)"
    using assms(4,5) by (simp add: owned_abs)
  from store.run_owned [OF assms(1,2) store_oks [OF assms(1-3)] this assms(6)] show ?thesis
    unfolding owned_abs run_cmds_with by blast
qed

definition sample_locked :: server_db where
  "sample_locked = \<lparr>fs = [\<lparr>r_rowid = 1, r_name = ''/f'', r_content = '''', r_lock_owner = ''c1'',
     r_instance_number = 1, r_content_generation_number = 0, r_lock_generation_number = 1,
     r_file_content_checksum = 0, r_is_directory = 0\<rparr>], kvpairs = [''max_instance_number'' \<mapsto> 1]\<rparr>"

lemmas name_simps = checkName_def checkChar_def validChars_def getParentName_def Let_def

lemma sample_locked_inv: "db_inv 1 sample_locked"
  by (simp add: db_inv_def db_wf_def db_tree_def row_wf_def row_tree_def sample_locked_def name_simps)

theorem lock_kept_until_reset_witness:
  "\<exists>xs db' r'. run_cmds (\<lambda>_. 7) [Lock ''/f'' 1 ''c2'', Delete ''/f'' 1] sample_locked = Inr (xs, db')
    \<and> select db' ''/f'' = Some r' \<and> r_lock_owner r' = ''c1'' \<and> integer (r_instance_number r') = integer 1
    \<and> list_all2 (refused ''/f'') [Lock ''/f'' 1 ''c2'', Delete ''/f'' 1] xs"
proof -
  have "select sample_locked ''/f'' = Some (hd (fs sample_locked))"
    by (simp add: select_def sample_locked_def)
  from lock_kept_until_reset [OF sample_locked_inv _ _ this,
      of "[Lock ''/f'' 1 ''c2'', Delete ''/f'' 1]" "\<lambda>_. 7"]
  show ?thesis
    by (simp add: sample_locked_def name_simps plain_def is_column_def columns_def lower_char_def NO_OWNER_def)
qed

text \<open>A successful update is read back: the content is the one written, the content generation
  number has grown by one, the checksum is the 32-bit image of the hash, the lock generation
  number and the kind are as before, and no other node has changed.\<close>

theorem update_then_read:
  assumes "db_wf m db" and "m + 1 < 2 ^ 31" and "checkName n" and "plain c"
    and "select db n = Some r" and "integer (r_instance_number r) = i"
  shows "\<exists>db'. checkAndUpdate h n i c db = Inr (True, db')
    \<and> checkAndRead n i db' = Inr (Some (c, \<lparr>md_instance_number = i,
        md_content_generation_number = integer (r_content_generation_number r) + 1,
        md_lock_generation_number = integer (r_lock_generation_number r),
        md_file_content_checksum = sum32 h c, md_is_directory = (r_is_directory r \<noteq> 0)\<rparr>), db')
    \<and> (\<forall>k. k \<noteq> n \<longrightarrow> select db' k = select db k)"
proof -
  let ?db = "update_where n (relist h (\<lambda>_. c)) db"
  have sel: "select ?db k = (if k = n then Some (relist h (\<lambda>_. c) r) else select db k)" for k
    using select_update_where [of "relist h (\<lambda>_. c)" n db] assms(5) by (simp add: relist_def)
  obtain v where "row_wf m v r" using select_wf [OF assms(1,5)] by blast
  then have "fmt_d (integer (r_content_generation_number r + 1)) = r_content_generation_number r + 1"
    using assms(2) by (intro fmt_d_integer) (auto simp: row_wf_def)
  then have "checkAndRead n i ?db = Inr (Some (c, \<lparr>md_instance_number = i,
        md_content_generation_number = integer (r_content_generation_number r) + 1,
        md_lock_generation_number = integer (r_lock_generation_number r),
        md_file_content_checksum = sum32 h c, md_is_directory = (r_is_directory r \<noteq> 0)\<rparr>), ?db)"
    using sel assms(3,6) by (simp add: checkAndRead_def relist_def sum32_def)
  moreover have "checkAndUpdate h n i c db = Inr (True, ?db)"
    using checkAndUpdate_eq [OF assms(1,3,4), of h i] assms(5,6) by simp
  ultimately show ?thesis using sel by auto
qed

theorem update_then_read_witness:
  "\<exists>db'. checkAndUpdate (\<lambda>_. 7) ''/f'' (integer 1) ''hello'' sample_locked = Inr (True, db')
    \<and> checkAndRead ''/f'' (integer 1) db' = Inr (Some (''hello'', \<lparr>md_instance_number = integer 1,
        md_content_generation_number = integer 0 + 1, md_lock_generation_number = integer 1,
        md_file_content_checksum = sum32 (\<lambda>_. 7) ''hello'', md_is_directory = False\<rparr>), db')
    \<and> (\<forall>k. k \<noteq> ''/f'' \<longrightarrow> select db' k = select sample_locked k)"
proof -
  have "select sample_locked ''/f'' = Some (hd (fs sample_locked))"
    by (simp add: select_def sample_locked_def)
  from update_then_read [OF db_invD(1) [OF sample_locked_inv] _ _ _ this,
      of "''hello''" "integer 1" "\<lambda>_. 7"]
  show ?thesis
    by (simp add: sample_locked_def name_simps plain_def is_column_def columns_def lower_char_def)
qed

section \<open>Where the store departs from its description\<close>

text \<open>A content that spells the name of a column is not stored: writing \<open>name\<close> into a node
  succeeds, and reading it back gives the node's own name.\<close>

theorem update_with_column_name:
  assumes "checkName n" and "select db n = Some r" and "integer (r_instance_number r) = i"
  shows "\<exists>db' meta. checkAndUpdate h n i ''name'' db = Inr (True, db')
    \<and> checkAndRead n i db' = Inr (Some (n, meta), db')"
proof -
  have v: "sql_value ''name'' = Inr r_name"
    by (simp add: sql_value_def cstr_def is_column_def columns_def col_text_def lower_char_def fun_eq_iff)
  define f :: "fs_row \<Rightarrow> fs_row" where "f = (\<lambda>q. q\<lparr>r_content := r_name q,
    r_content_generation_number := fmt_d (integer (r_content_generation_number r + 1)),
    r_file_content_checksum := fmt_d (h ''name'')\<rparr>)"
  have "checkAndUpdate h n i ''name'' db = Inr (True, update_where n f db)"
    using assms v by (simp add: checkAndUpdate_def update_content_def f_def)
  moreover have "select (update_where n f db) n = Some (f r)"
    using select_update_where [of f n db n] assms(2) by (simp add: f_def)
  then have "\<exists>meta. checkAndRead n i (update_where n f db) = Inr (Some (n, meta), update_where n f db)"
    using assms select_SomeD [OF assms(2)] by (simp add: checkAndRead_def f_def)
  ultimately show ?thesis by blast
qed

theorem update_with_column_name_witness:
  "\<exists>db' meta. checkAndUpdate (\<lambda>_. 7) ''/f'' (integer 1) ''name'' sample_locked = Inr (True, db')
    \<and> checkAndRead ''/f'' (integer 1) db' = Inr (Some (''/f'', meta), db')"
  by (rule update_with_column_name [of _ _ "hd (fs sample_locked)"])
    (simp_all add: select_def sample_locked_def name_simps)

lemmas db_eval = checkAndCreate_def checkAndDelete_def checkAndUpdate_def create_def sql_name_def
  sql_value_def cstr_def is_column_def columns_def lower_char_def select_def insert_row_def
  set_kv_def update_content_def update_where_def delete_where_def dirContentCreate_def name_simps
  NO_OWNER_def integer_def fmt_d_def dirContentDelete_def getlines_def

text \<open>The content of a directory can be overwritten like that of a file, and then the directory
  can be deleted although it has a child; deleting the child afterwards fails the assertion
  that its parent exists, which stops every replica.\<close>

theorem orphan_fails_assertion:
  "(\<exists>db. run_cmds h [Create ''/a'' True, Create ''/a/b'' False, Update ''/a'' 1 [], Delete ''/a'' 1] create
      = Inr ([Instance (Some 1), Instance (Some 2), Success True, Success True], db))
   \<and> run_cmds h [Create ''/a'' True, Create ''/a/b'' False, Update ''/a'' 1 [], Delete ''/a'' 1,
       Delete ''/a/b'' 2] create = Inl Db_assert"
  by (simp add: db_eval)

text \<open>C38: Instance numbers are stored through \<open>%d\<close>: when the counter reaches the largest signed
  32-bit number, the next creation returns an instance number that is not the one stored, so
  that the handle it yields can not read the node it was created for.\<close>

theorem instance_number_wraps:
  assumes "checkName n" and "getParentName n = ''/''" and "select db n = None"
    and "kvpairs db ''max_instance_number'' = Some (2 ^ 31 - 1)"
  shows "\<exists>db'. checkAndCreate h n d db = Inr (Some (2 ^ 31), db')
    \<and> checkAndOpen n db' = Inr (Some (- (2 ^ 31)), db')
    \<and> checkAndRead n (2 ^ 31) db' = Inr (None, db')"
proof -
  let ?db = "inserted n d (2 ^ 31 - 1) db"
  have i: "integer (2 ^ 31 - 1 + 1) = 2 ^ 31" by (simp add: integer_def)
  have d: "fmt_d (2 ^ 31) = - (2 ^ 31)" by (simp add: fmt_d_def)
  have "select ?db n = Some (new_row db n (2 ^ 31) d)"
    using i by (simp add: inserted_def select_insert_row [OF assms(3)])
  moreover have "checkAndCreate h n d db = Inr (Some (2 ^ 31), ?db)"
    using assms i by (simp add: checkAndCreate_def inserted_def Let_def)
  moreover have "integer (- (2 ^ 31)) = - (2 ^ 31)" by (simp add: integer_def)
  ultimately show ?thesis
    using assms(1) d by (simp add: checkAndOpen_def checkAndRead_def)
qed

theorem instance_number_wraps_witness:
  "\<exists>db'. checkAndCreate (\<lambda>_. 7) ''/f'' False (create\<lparr>kvpairs := [''max_instance_number'' \<mapsto> 2 ^ 31 - 1]\<rparr>)
        = Inr (Some (2 ^ 31), db')
    \<and> checkAndOpen ''/f'' db' = Inr (Some (- (2 ^ 31)), db')
    \<and> checkAndRead ''/f'' (2 ^ 31) db' = Inr (None, db')"
  by (rule instance_number_wraps) (simp_all add: name_simps select_def create_def)

end
