(* ===== verification/Backstore.thy ===== *)
theory Backstore
  imports Server_Db_Properties Server_Paxos_Types Paxos_Types
begin

text \<open>
  The replicated view of the store: \<open>ServerdbBackstore::Run\<close> (\<open>src/server/serverdb_backstore.cc\<close>)
  executes a serialised command on a replica's store, and the methods of \<open>ServerDBPaxos\<close>
  (\<open>src/server/serverdb_paxos.cc\<close>) serialise a command, have it executed by the Paxos library and
  take the reply apart.
\<close>

section \<open>Executing a serialised command\<close>

text \<open>
  A failure is an exception of the XDR library, an exception or failed assertion of the store,
  or the exception \<open>Not the Paxos leader.\<close> of \<open>runPaxos\<close>.
\<close>

datatype rs_error = Rs_xdr xdr_error | Rs_db db_error | Not_leader

definition lift_xdr :: "xdr_error + 'a \<Rightarrow> rs_error + 'a" where
  "lift_xdr m = (case m of Inl e \<Rightarrow> Inl (Rs_xdr e) | Inr x \<Rightarrow> Inr x)"

definition lift_db :: "db_error + 'a \<Rightarrow> rs_error + 'a" where
  "lift_db m = (case m of Inl e \<Rightarrow> Inl (Rs_db e) | Inr x \<Rightarrow> Inr x)"

text \<open>
  The switch of \<open>Run\<close>. The local variable \<open>instance_number\<close> has no initial value: when a creation
  or an opening fails it is copied into the result as it is, the parameter \<open>junk\<close>. The other
  variables are classes with default values.
\<close>

definition no_meta :: NewMetaData where
  "no_meta = \<lparr>nm_instance_number = 0, nm_content_generation_number = 0,
     nm_lock_generation_number = 0, nm_file_content_checksum = 0, nm_is_directory = False\<rparr>"

definition copy_meta :: "MetaData \<Rightarrow> NewMetaData" where
  "copy_meta meta = \<lparr>nm_instance_number = md_instance_number meta,
     nm_content_generation_number = md_content_generation_number meta,
     nm_lock_generation_number = md_lock_generation_number meta,
     nm_file_content_checksum = md_file_content_checksum meta,
     nm_is_directory = md_is_directory meta\<rparr>"

definition run_switch ::
    "(string \<Rightarrow> u64) \<Rightarrow> u64 \<Rightarrow> ServerPaxosParam \<Rightarrow> server_db \<Rightarrow> db_error + (ServerPaxosResult \<times> server_db)" where
  "run_switch h junk param db = (case param of
     Pm_CheckAndCreate p \<Rightarrow>
       bindR (checkAndCreate h (ccp_file_name p) (ccp_is_dir p) db) (\<lambda>(r, db). Inr (Rs_CheckAndCreate
         \<lparr>ccr_instance_number = ucast (case r of Some i \<Rightarrow> i | None \<Rightarrow> junk),
          ccr_success = (r \<noteq> None)\<rparr>, db))
   | Pm_CheckAndOpen p \<Rightarrow>
       bindR (checkAndOpen (cop_file_name p) db) (\<lambda>(r, db). Inr (Rs_CheckAndOpen
         \<lparr>cor_instance_number = ucast (case r of Some i \<Rightarrow> i | None \<Rightarrow> junk),
          cor_success = (r \<noteq> None)\<rparr>, db))
   | Pm_CheckAndDelete p \<Rightarrow>
       bindR (checkAndDelete h (cdp_file_name p) (ucast (cdp_instance_number p)) db) (\<lambda>(r, db).
         Inr (Rs_CheckAndDelete \<lparr>cdr_success = r\<rparr>, db))
   | Pm_CheckAndRead p \<Rightarrow>
       bindR (checkAndRead (crp_file_name p) (ucast (crp_instance_number p)) db) (\<lambda>(r, db).
         Inr (Rs_CheckAndRead (case r of
           Some (c, meta) \<Rightarrow> \<lparr>crr_content = c, crr_meta = copy_meta meta, crr_success = True\<rparr>
         | None \<Rightarrow> \<lparr>crr_content = '''', crr_meta = no_meta, crr_success = False\<rparr>), db))
   | Pm_CheckAndUpdate p \<Rightarrow>
       bindR (checkAndUpdate h (cup_file_name p) (ucast (cup_instance_number p)) (cup_content p) db)
         (\<lambda>(r, db). Inr (Rs_CheckAndUpdate \<lparr>cur_success = r\<rparr>, db))
   | Pm_TestAndSetLockOwner p \<Rightarrow>
       bindR (testAndSetLockOwner (tsp_file_name p) (ucast (tsp_instance_number p)) (tsp_client_id p) db)
         (\<lambda>(r, db). Inr (Rs_TestAndSetLockOwner \<lparr>tsr_success = r\<rparr>, db))
   | Pm_ResetLockOwner p \<Rightarrow>
       bindR (resetLockOwner (rlp_file_name p) (ucast (rlp_instance_number p)) db)
         (\<lambda>(r, db). Inr (Rs_ResetLockOwner \<lparr>rlr_success = r\<rparr>, db))
   | Pm_GetStates p \<Rightarrow>
       let client2heldLock = getStates db [];
           client2heldLock = getStates db client2heldLock
       in Inr (Rs_GetStates \<lparr>gsr_list =
            map (\<lambda>(k, v). \<lparr>kv_key = k, kv_value = v\<rparr>) client2heldLock\<rparr>, db))"

definition Run ::
    "(string \<Rightarrow> u64) \<Rightarrow> u64 \<Rightarrow> byte list \<Rightarrow> server_db \<Rightarrow> rs_error + (byte list \<times> server_db)" where
  "Run h junk input db =
     bindR (lift_xdr (bindR (message_with input) (xdr_from_msg xdr_ServerPaxosParam))) (\<lambda>param.
     bindR (lift_db (run_switch h junk param db)) (\<lambda>(result, db).
     bindR (lift_xdr (xdr_to_msg xdr_ServerPaxosResult result)) (\<lambda>m. Inr (m_data m, db))))"

section \<open>The interface that runs a command through Paxos\<close>

text \<open>
  \<open>execute\<close> is the method of \<open>paxos_client_v1_server\<close> that \<open>runPaxos\<close> calls, on a state of any
  type: the theory of the replicas provides it. The request is the whole \<open>execute_arg\<close>; its
  other fields keep their default values.
\<close>

type_synonym 's execute_fn = "execute_arg \<Rightarrow> 's \<Rightarrow> rs_error + (execute_res \<times> 's)"

definition new_execute_arg :: execute_arg where
  "new_execute_arg = \<lparr>ea_cid = '''', ea_rid = 0, ea_vid = \<lparr>vi_counter = 0, vi_manager = ''''\<rparr>,
     ea_request = []\<rparr>"

definition runPaxos ::
    "'s execute_fn \<Rightarrow> ServerPaxosParam \<Rightarrow> 's \<Rightarrow> rs_error + (ServerPaxosResult \<times> 's)" where
  "runPaxos execute param s =
     bindR (lift_xdr (xdr_to_msg xdr_ServerPaxosParam param)) (\<lambda>m.
     bindR (execute (new_execute_arg\<lparr>ea_request := m_data m\<rparr>) s) (\<lambda>(result, s).
     case result of
       Er_reply reply \<Rightarrow>
         bindR (lift_xdr (bindR (message_with reply) (xdr_from_msg xdr_ServerPaxosResult)))
           (\<lambda>r. Inr (r, s))
     | Er_viewinfo _ \<Rightarrow> Inl Not_leader))"

section \<open>Methods of \<open>ServerDBPaxos\<close>\<close>

text \<open>
  The accessors of a union throw when the union holds another arm. Instance numbers pass
  through the 32-bit fields of the commands. \<open>checkAndCreate\<close> and \<open>checkAndOpen\<close> store the
  instance number also when they return false.
\<close>

definition px_checkAndCreate ::
    "'s execute_fn \<Rightarrow> string \<Rightarrow> bool \<Rightarrow> 's \<Rightarrow> rs_error + ((bool \<times> u64) \<times> 's)" where
  "px_checkAndCreate execute file_name is_dir s =
     bindR (runPaxos execute (Pm_CheckAndCreate \<lparr>ccp_file_name = file_name, ccp_is_dir = is_dir\<rparr>) s)
       (\<lambda>(r, s). case r of
          Rs_CheckAndCreate x \<Rightarrow> Inr ((ccr_success x, ucast (ccr_instance_number x)), s)
        | _ \<Rightarrow> Inl (Rs_xdr Xdr_wrong_union))"

definition px_checkAndOpen ::
    "'s execute_fn \<Rightarrow> string \<Rightarrow> 's \<Rightarrow> rs_error + ((bool \<times> u64) \<times> 's)" where
  "px_checkAndOpen execute file_name s =
     bindR (runPaxos execute (Pm_CheckAndOpen \<lparr>cop_file_name = file_name\<rparr>) s)
       (\<lambda>(r, s). case r of
          Rs_CheckAndOpen x \<Rightarrow> Inr ((cor_success x, ucast (cor_instance_number x)), s)
        | _ \<Rightarrow> Inl (Rs_xdr Xdr_wrong_union))"

definition px_checkAndDelete ::
    "'s execute_fn \<Rightarrow> string \<Rightarrow> u64 \<Rightarrow> 's \<Rightarrow> rs_error + (bool \<times> 's)" where
  "px_checkAndDelete execute file_name instance_number s =
     bindR (runPaxos execute (Pm_CheckAndDelete
         \<lparr>cdp_file_name = file_name, cdp_instance_number = ucast instance_number\<rparr>) s)
       (\<lambda>(r, s). case r of
          Rs_CheckAndDelete x \<Rightarrow> Inr (cdr_success x, s)
        | _ \<Rightarrow> Inl (Rs_xdr Xdr_wrong_union))"

definition px_checkAndRead ::
    "'s execute_fn \<Rightarrow> string \<Rightarrow> u64 \<Rightarrow> 's \<Rightarrow> rs_error + ((bool \<times> string \<times> MetaData) \<times> 's)" where
  "px_checkAndRead execute file_name instance_number s =
     bindR (runPaxos execute (Pm_CheckAndRead
         \<lparr>crp_file_name = file_name, crp_instance_number = ucast instance_number\<rparr>) s)
       (\<lambda>(r, s). case r of
          Rs_CheckAndRead x \<Rightarrow>
            Inr ((crr_success x, crr_content x,
              \<lparr>md_instance_number = nm_instance_number (crr_meta x),
               md_content_generation_number = nm_content_generation_number (crr_meta x),
               md_lock_generation_number = nm_lock_generation_number (crr_meta x),
               md_file_content_checksum = nm_file_content_checksum (crr_meta x),
               md_is_directory = nm_is_directory (crr_meta x)\<rparr>), s)
        | _ \<Rightarrow> Inl (Rs_xdr Xdr_wrong_union))"

definition px_checkAndUpdate ::
    "'s execute_fn \<Rightarrow> string \<Rightarrow> u64 \<Rightarrow> string \<Rightarrow> 's \<Rightarrow> rs_error + (bool \<times> 's)" where
  "px_checkAndUpdate execute file_name instance_number content s =
     bindR (runPaxos execute (Pm_CheckAndUpdate \<lparr>cup_file_name = file_name,
         cup_instance_number = ucast instance_number, cup_content = content\<rparr>) s)
       (\<lambda>(r, s). case r of
          Rs_CheckAndUpdate x \<Rightarrow> Inr (cur_success x, s)
        | _ \<Rightarrow> Inl (Rs_xdr Xdr_wrong_union))"

definition px_testAndSetLockOwner ::
    "'s execute_fn \<Rightarrow> string \<Rightarrow> u64 \<Rightarrow> string \<Rightarrow> 's \<Rightarrow> rs_error + (bool \<times> 's)" where
  "px_testAndSetLockOwner execute file_name instance_number client_id s =
     bindR (runPaxos execute (Pm_TestAndSetLockOwner \<lparr>tsp_file_name = file_name,
         tsp_instance_number = ucast instance_number, tsp_client_id = client_id\<rparr>) s)
       (\<lambda>(r, s). case r of
          Rs_TestAndSetLockOwner x \<Rightarrow> Inr (tsr_success x, s)
        | _ \<Rightarrow> Inl (Rs_xdr Xdr_wrong_union))"

definition px_resetLockOwner ::
    "'s execute_fn \<Rightarrow> string \<Rightarrow> u64 \<Rightarrow> 's \<Rightarrow> rs_error + (bool \<times> 's)" where
  "px_resetLockOwner execute file_name instance_number s =
     bindR (runPaxos execute (Pm_ResetLockOwner
         \<lparr>rlp_file_name = file_name, rlp_instance_number = ucast instance_number\<rparr>) s)
       (\<lambda>(r, s). case r of
          Rs_ResetLockOwner x \<Rightarrow> Inr (rlr_success x, s)
        | _ \<Rightarrow> Inl (Rs_xdr Xdr_wrong_union))"

definition px_getStates ::
    "'s execute_fn \<Rightarrow> (string \<times> string) list \<Rightarrow> 's \<Rightarrow> rs_error + ((string \<times> string) list \<times> 's)" where
  "px_getStates execute client2heldLock s =
     bindR (runPaxos execute (Pm_GetStates \<lparr>gsp_dumb = False\<rparr>) s)
       (\<lambda>(r, s). case r of
          Rs_GetStates x \<Rightarrow>
            Inr (client2heldLock @ map (\<lambda>e. (kv_key e, kv_value e)) (gsr_list x), s)
        | _ \<Rightarrow> Inl (Rs_xdr Xdr_wrong_union))"

section \<open>One replica\<close>

text \<open>
  \<open>local_execute\<close> is \<open>execute\<close> as the calling replica sees it: the test for the leader and
  \<open>back_store_->Run\<close>; what the other replicas answer is ignored. The state is the replica's
  leader flag and its store.
\<close>

definition local_execute :: "(string \<Rightarrow> u64) \<Rightarrow> u64 \<Rightarrow> (bool \<times> server_db) execute_fn" where
  "local_execute h junk arg = (\<lambda>(leader, db).
     if \<not> leader then Inr (Er_viewinfo \<lparr>ei_vid = \<lparr>vi_counter = 0, vi_manager = ''''\<rparr>,
            ei_primary = []\<rparr>, leader, db)
     else bindR (Run h junk (ea_request arg) db) (\<lambda>(reply, db). Inr (Er_reply reply, leader, db)))"


section \<open>A replicated method does what the store's method does\<close>

lemma lift_simps [simp]:
  "lift_xdr (Inr x) = Inr x" "lift_xdr (Inl e) = Inl (Rs_xdr e)"
  "lift_db (Inr x) = Inr x" "lift_db (Inl e') = Inl (Rs_db e')"
  by (simp_all add: lift_xdr_def lift_db_def)

definition small_param :: "ServerPaxosParam \<Rightarrow> bool" where
  "small_param p \<longleftrightarrow> ServerPaxosParam_ok p \<and> c_size xdr_ServerPaxosParam p < 0x80000000"

definition small_result :: "ServerPaxosResult \<Rightarrow> bool" where
  "small_result r \<longleftrightarrow> ServerPaxosResult_ok r \<and> c_size xdr_ServerPaxosResult r < 0x80000000"

lemma runPaxos_local:
  assumes p: "small_param p" and r: "\<And>r db'. run_switch h junk p db = Inr (r, db') \<Longrightarrow> small_result r"
  shows "runPaxos (local_execute h junk) p (True, db)
       = bindR (lift_db (run_switch h junk p db)) (\<lambda>(r, db'). Inr (r, True, db'))"
proof -
  from p obtain m where m: "xdr_to_msg xdr_ServerPaxosParam p = Inr m"
    "bindR (message_with (m_data m)) (xdr_from_msg xdr_ServerPaxosParam) = Inr p"
    using paxosParam.from_copied_msg [of p] by (auto simp: small_param_def)
  show ?thesis
  proof (cases "run_switch h junk p db")
    case (Inl e)
    with m show ?thesis by (simp add: runPaxos_def local_execute_def Run_def del: bindR_eq_Inr)
  next
    case (Inr y)
    then obtain x db' where y: "run_switch h junk p db = Inr (x, db')" by (cases y) auto
    from r [OF this] obtain k where k: "xdr_to_msg xdr_ServerPaxosResult x = Inr k"
      "bindR (message_with (m_data k)) (xdr_from_msg xdr_ServerPaxosResult) = Inr x"
      using paxosResult.from_copied_msg [of x] by (auto simp: small_result_def)
    with m y show ?thesis by (simp add: runPaxos_def local_execute_def Run_def del: bindR_eq_Inr)
  qed
qed

lemmas size_defs = xdr_ServerPaxosParam_def xdr_ServerPaxosResult_def c_union_def c_struct_def
  c_pair_def c_string_def c_bytes_def c_u32_def c_u64_def c_bool_def pm_type_def rs_type_def
  CallType_defs xdr_CheckAndCreateParam_def xdr_CheckAndOpenParam_def xdr_CheckAndDeleteParam_def
  xdr_CheckAndReadParam_def xdr_CheckAndUpdateParam_def xdr_TestAndSetLockOwnerParam_def
  xdr_ResetLockOwnerParam_def xdr_GetStatesParam_def xdr_CheckAndCreateResult_def
  xdr_CheckAndOpenResult_def xdr_CheckAndDeleteResult_def xdr_CheckAndReadResult_def
  xdr_CheckAndUpdateResult_def xdr_TestAndSetLockOwnerResult_def xdr_ResetLockOwnerResult_def
  xdr_NewMetaData_def

lemmas ok_defs = ServerPaxosParam_ok_def ServerPaxosResult_ok_def CheckAndCreateParam_ok_def
  CheckAndOpenParam_ok_def CheckAndDeleteParam_ok_def CheckAndReadParam_ok_def
  CheckAndUpdateParam_ok_def TestAndSetLockOwnerParam_ok_def ResetLockOwnerParam_ok_def
  GetStatesParam_ok_def CheckAndCreateResult_ok_def CheckAndOpenResult_ok_def
  CheckAndDeleteResult_ok_def CheckAndReadResult_ok_def CheckAndUpdateResult_ok_def
  TestAndSetLockOwnerResult_ok_def ResetLockOwnerResult_ok_def NewMetaData_ok_def fits_def

lemma str_size: "length s < 2 ^ 29 \<Longrightarrow> (length s + 7) div 4 * 4 < 2 ^ 29 + 8"
  by linarith

lemma small_params:
  assumes "length n < 2 ^ 29" and "length c < 2 ^ 29"
  shows "small_param (Pm_CheckAndCreate \<lparr>ccp_file_name = n, ccp_is_dir = d\<rparr>)"
    "small_param (Pm_CheckAndOpen \<lparr>cop_file_name = n\<rparr>)"
    "small_param (Pm_CheckAndDelete \<lparr>cdp_file_name = n, cdp_instance_number = i\<rparr>)"
    "small_param (Pm_CheckAndRead \<lparr>crp_file_name = n, crp_instance_number = i\<rparr>)"
    "small_param (Pm_CheckAndUpdate \<lparr>cup_file_name = n, cup_instance_number = i, cup_content = c\<rparr>)"
    "small_param (Pm_TestAndSetLockOwner \<lparr>tsp_file_name = n, tsp_instance_number = i, tsp_client_id = c\<rparr>)"
    "small_param (Pm_ResetLockOwner \<lparr>rlp_file_name = n, rlp_instance_number = i\<rparr>)"
    "small_param (Pm_GetStates \<lparr>gsp_dumb = d\<rparr>)"
  using str_size [OF assms(1)] str_size [OF assms(2)] assms
  by (simp_all add: small_param_def size_defs ok_defs)

lemma small_results:
  "small_result (Rs_CheckAndCreate x1)" "small_result (Rs_CheckAndOpen x2)"
  "small_result (Rs_CheckAndDelete x3)" "small_result (Rs_CheckAndUpdate x4)"
  "small_result (Rs_TestAndSetLockOwner x5)" "small_result (Rs_ResetLockOwner x6)"
  "length (crr_content x7) < 2 ^ 29 \<Longrightarrow> small_result (Rs_CheckAndRead x7)"
  using str_size [of "crr_content x7"] by (auto simp: small_result_def size_defs ok_defs)

text \<open>The commands of the store issued through \<open>ServerDBPaxos\<close>.\<close>

fun px_cmd :: "'s execute_fn \<Rightarrow> db_cmd \<Rightarrow> 's \<Rightarrow> rs_error + (db_reply \<times> 's)" where
  "px_cmd ex (Create n d) s = bindR (px_checkAndCreate ex n d s)
     (\<lambda>((ok, i), s). Inr (Instance (if ok then Some i else None), s))"
| "px_cmd ex (Open n) s = bindR (px_checkAndOpen ex n s)
     (\<lambda>((ok, i), s). Inr (Instance (if ok then Some i else None), s))"
| "px_cmd ex (Delete n i) s = bindR (px_checkAndDelete ex n i s) (\<lambda>(x, s). Inr (Success x, s))"
| "px_cmd ex (Read n i) s = bindR (px_checkAndRead ex n i s)
     (\<lambda>((ok, c, meta), s). Inr (Contents (if ok then Some (c, meta) else None), s))"
| "px_cmd ex (Update n i c) s = bindR (px_checkAndUpdate ex n i c s) (\<lambda>(x, s). Inr (Success x, s))"
| "px_cmd ex (Lock n i c) s = bindR (px_testAndSetLockOwner ex n i c s) (\<lambda>(x, s). Inr (Success x, s))"
| "px_cmd ex (Unlock n i) s = bindR (px_resetLockOwner ex n i s) (\<lambda>(x, s). Inr (Success x, s))"
| "px_cmd ex States s = bindR (px_getStates ex [] s) (\<lambda>(x, s). Inr (Owners x, s))"

fun cmd_fits :: "db_cmd \<Rightarrow> bool" where
  "cmd_fits (Create n d) = (length n < 2 ^ 29)"
| "cmd_fits (Open n) = (length n < 2 ^ 29)"
| "cmd_fits (Delete n i) = (length n < 2 ^ 29 \<and> i < 2 ^ 32)"
| "cmd_fits (Read n i) = (length n < 2 ^ 29 \<and> i < 2 ^ 32)"
| "cmd_fits (Update n i c) = (length n < 2 ^ 29 \<and> length c < 2 ^ 29 \<and> i < 2 ^ 32)"
| "cmd_fits (Lock n i c) = (length n < 2 ^ 29 \<and> length c < 2 ^ 29 \<and> i < 2 ^ 32)"
| "cmd_fits (Unlock n i) = (length n < 2 ^ 29 \<and> i < 2 ^ 32)"
| "cmd_fits States = False"

text \<open>Instance numbers that fit in 32 bits pass through the commands unchanged.\<close>

lemma through_u32: "i < 2 ^ 32 \<Longrightarrow> ucast (ucast (i :: u64) :: u32) = i"
proof -
  assume "i < 2 ^ 32"
  then have "take_bit 32 (uint i) = uint i"
    by (intro take_bit_int_eq_self) (simp_all add: word_less_def)
  then show ?thesis by (simp add: word_uint_eq_iff unsigned_ucast_eq unsigned_take_bit_eq)
qed

lemma integer_u32: "0 \<le> v \<Longrightarrow> v < 2 ^ 31 \<Longrightarrow> integer v < 2 ^ 32"
  by (simp add: integer_def word_less_def uint_word_of_int_eq take_bit_int_eq_self)

text \<open>The text that a reply carries is shorter than 512 MB.\<close>

definition reply_fits :: "db_reply \<Rightarrow> bool" where
  "reply_fits x \<longleftrightarrow> (case x of Contents (Some (c, _)) \<Rightarrow> length c < 2 ^ 29 | _ \<Rightarrow> True)"

lemma created_u32:
  assumes inv: "db_inv m db" "m + 2 < 2 ^ 31" "checkName n" and c: "checkAndCreate h n d db = Inr (Some i, db')"
  shows "i < 2 ^ 32"
proof -
  note wf = db_invD [OF inv(1)]
  from wf(1) obtain v where v: "kvpairs db ''max_instance_number'' = Some v" "0 \<le> v" "v \<le> m"
    by (rule db_wfE)
  from checkAndCreate_eq [OF wf inv(3) v(1), of h d] c have "i = integer (v + 1)"
    by (auto split: if_splits)
  with integer_u32 [of "v + 1"] v inv(2) show ?thesis by auto
qed

lemma select_u32:
  assumes "db_inv m db" "m + 2 < 2 ^ 31" "select db n = Some r"
  shows "integer (r_instance_number r) < 2 ^ 32"
proof -
  from db_invD(1) [OF assms(1)] obtain v where "v \<le> m" "row_wf m v r"
    using select_SomeD [OF assms(3)] by (auto elim!: db_wfE)
  with assms(2) show ?thesis by (intro integer_u32) (auto simp: row_wf_def)
qed

lemma px_create:
  assumes "length n < 2 ^ 29"
  shows "px_checkAndCreate (local_execute h junk) n d (True, db) =
    bindR (lift_db (checkAndCreate h n d db)) (\<lambda>(x, db').
      Inr ((x \<noteq> None, ucast (ucast (case x of Some i \<Rightarrow> i | None \<Rightarrow> junk) :: u32)), True, db'))"
  unfolding px_checkAndCreate_def
  by (subst runPaxos_local)
    (use assms in \<open>auto intro: small_params [where c = "[]"] simp: small_results run_switch_def bindR_def
      lift_db_def split: prod.splits sum.splits\<close>)

lemma px_open:
  assumes "length n < 2 ^ 29"
  shows "px_checkAndOpen (local_execute h junk) n (True, db) =
    bindR (lift_db (checkAndOpen n db)) (\<lambda>(x, db').
      Inr ((x \<noteq> None, ucast (ucast (case x of Some i \<Rightarrow> i | None \<Rightarrow> junk) :: u32)), True, db'))"
  unfolding px_checkAndOpen_def
  by (subst runPaxos_local)
    (use assms in \<open>auto intro: small_params [where c = "[]"] simp: small_results run_switch_def bindR_def
      lift_db_def split: prod.splits sum.splits\<close>)

lemma px_delete:
  assumes "length n < 2 ^ 29"
  shows "px_checkAndDelete (local_execute h junk) n i (True, db) =
    bindR (lift_db (checkAndDelete h n (ucast (ucast i :: u32)) db)) (\<lambda>(x, db'). Inr (x, True, db'))"
  unfolding px_checkAndDelete_def
  by (subst runPaxos_local)
    (use assms in \<open>auto intro: small_params [where c = "[]"] simp: small_results run_switch_def bindR_def
      lift_db_def split: prod.splits sum.splits\<close>)

lemma px_update:
  assumes "length n < 2 ^ 29" "length c < 2 ^ 29"
  shows "px_checkAndUpdate (local_execute h junk) n i c (True, db) =
    bindR (lift_db (checkAndUpdate h n (ucast (ucast i :: u32)) c db)) (\<lambda>(x, db'). Inr (x, True, db'))"
  unfolding px_checkAndUpdate_def
  by (subst runPaxos_local)
    (use assms in \<open>auto intro: small_params simp: small_results run_switch_def bindR_def
      lift_db_def split: prod.splits sum.splits\<close>)

lemma px_lock:
  assumes "length n < 2 ^ 29" "length c < 2 ^ 29"
  shows "px_testAndSetLockOwner (local_execute h junk) n i c (True, db) =
    bindR (lift_db (testAndSetLockOwner n (ucast (ucast i :: u32)) c db)) (\<lambda>(x, db'). Inr (x, True, db'))"
  unfolding px_testAndSetLockOwner_def
  by (subst runPaxos_local)
    (use assms in \<open>auto intro: small_params simp: small_results run_switch_def bindR_def
      lift_db_def split: prod.splits sum.splits\<close>)

lemma px_unlock:
  assumes "length n < 2 ^ 29"
  shows "px_resetLockOwner (local_execute h junk) n i (True, db) =
    bindR (lift_db (resetLockOwner n (ucast (ucast i :: u32)) db)) (\<lambda>(x, db'). Inr (x, True, db'))"
  unfolding px_resetLockOwner_def
  by (subst runPaxos_local)
    (use assms in \<open>auto intro: small_params [where c = "[]"] simp: small_results run_switch_def bindR_def
      lift_db_def split: prod.splits sum.splits\<close>)

lemma px_read:
  assumes "length n < 2 ^ 29" and f: "\<And>c meta db'. checkAndRead n (ucast (ucast i :: u32)) db = Inr (Some (c, meta), db') \<Longrightarrow> length c < 2 ^ 29"
  shows "px_checkAndRead (local_execute h junk) n i (True, db) =
    bindR (lift_db (checkAndRead n (ucast (ucast i :: u32)) db)) (\<lambda>(x, db'). Inr ((case x of
       Some (c, meta) \<Rightarrow> (True, c, meta)
     | None \<Rightarrow> (False, [], \<lparr>md_instance_number = 0, md_content_generation_number = 0,
         md_lock_generation_number = 0, md_file_content_checksum = 0, md_is_directory = False\<rparr>)), True, db'))"
proof -
  let ?p = "Pm_CheckAndRead \<lparr>crp_file_name = n, crp_instance_number = ucast i\<rparr>"
  have sm: "small_result r" if "run_switch h junk ?p db = Inr (r, db')" for r db'
    using that f by (auto simp: run_switch_def intro!: small_results(7) split: option.splits prod.splits)
  show ?thesis unfolding px_checkAndRead_def
    by (subst runPaxos_local [OF _ sm])
      (use assms(1) in \<open>auto intro: small_params [where c = "[]"] simp: run_switch_def bindR_def
        copy_meta_def no_meta_def lift_db_def split: prod.splits sum.splits option.splits\<close>)
qed

lemma checkAndOpen_u32:
  assumes "db_inv m db" "m + 2 < 2 ^ 31" "checkAndOpen n db = Inr (Some i, db')"
  shows "i < 2 ^ 32"
  using assms select_u32 [OF assms(1,2)] by (auto simp: checkAndOpen_def split: option.splits)

lemma px_cmd_local:
  assumes inv: "db_inv m db" "m + 2 < 2 ^ 31" "cmd_ok (abs_db db) c"
    and sz: "cmd_fits c" "reply_fits (fst (spec_cmd h c (abs_db db)))"
  shows "px_cmd (local_execute h junk) c (True, db)
       = bindR (lift_db (run_cmd h c db)) (\<lambda>(x, db). Inr (x, True, db))"
proof (cases c)
  case (Create n d)
  have "ucast (ucast i :: u32) = i" if "checkAndCreate h n d db = Inr (Some i, db')" for i db'
    using through_u32 [OF created_u32 [OF inv(1,2) _ that]] inv(3) Create by simp
  with Create sz show ?thesis
    by (cases "checkAndCreate h n d db") (auto simp: px_create split: option.splits)
next
  case (Open n)
  have "ucast (ucast i :: u32) = i" if "checkAndOpen n db = Inr (Some i, db')" for i db'
    using through_u32 [OF checkAndOpen_u32 [OF inv(1,2) that]] .
  with Open sz show ?thesis
    by (cases "checkAndOpen n db") (auto simp: px_open split: option.splits)
next
  case (Read n i)
  have "length t < 2 ^ 29" if "checkAndRead n i db = Inr (Some (t, meta), db')" for t meta db'
    using store.exec_refines [of m db c h] inv sz(2) that Read by (auto simp: reply_fits_def)
  then have "px_checkAndRead (local_execute h junk) n i (True, db) =
      bindR (lift_db (checkAndRead n i db)) (\<lambda>(x, db'). Inr ((case x of Some (c, meta) \<Rightarrow> (True, c, meta)
        | None \<Rightarrow> (False, [], \<lparr>md_instance_number = 0, md_content_generation_number = 0,
            md_lock_generation_number = 0, md_file_content_checksum = 0, md_is_directory = False\<rparr>)), True, db'))"
    using px_read [of n i db h junk] Read sz(1) by (simp add: through_u32)
  with Read sz show ?thesis by (cases "checkAndRead n i db") (auto split: option.splits)
next
  case (Delete n i)
  with sz show ?thesis by (cases "checkAndDelete h n i db") (auto simp: px_delete through_u32)
next
  case (Update n i c)
  with sz show ?thesis by (cases "checkAndUpdate h n i c db") (auto simp: px_update through_u32)
next
  case (Lock n i c)
  with sz show ?thesis by (cases "testAndSetLockOwner n i c db") (auto simp: px_lock through_u32)
next
  case (Unlock n i)
  with sz show ?thesis by (cases "resetLockOwner n i db") (auto simp: px_unlock through_u32)
next
  case States
  with sz show ?thesis by simp
qed

text \<open>The replicated methods on the leader as an instance of the contract of a store.\<close>

definition px_cmd_ok :: "(string \<Rightarrow> u64) \<Rightarrow> db_cmd \<Rightarrow> fsys \<Rightarrow> bool" where
  "px_cmd_ok h c s \<longleftrightarrow> cmd_ok s c \<and> cmd_fits c \<and> reply_fits (fst (spec_cmd h c s))"

definition px_ok :: "(string \<Rightarrow> u64) \<Rightarrow> db_cmd \<Rightarrow> bool \<times> server_db \<Rightarrow> bool" where
  "px_ok h c s \<longleftrightarrow> px_cmd_ok h c (abs_db (snd s))"

interpretation replicated: refined_store h "px_cmd (local_execute h junk)" "\<lambda>s. abs_db (snd s)"
  "\<lambda>m s. fst s \<and> db_inv m (snd s)" "px_ok h" for h junk
proof unfold_locales
  show "\<exists>x s'. px_cmd (local_execute h junk) c s = Inr (x, s') \<and> (fst s' \<and> db_inv (m + 2) (snd s'))
      \<and> spec_cmd h c (abs_db (snd s)) = (x, abs_db (snd s'))"
    if s: "fst s \<and> db_inv m (snd s)" "m + 2 < 2 ^ 31" "px_ok h c s" for m s c
  proof -
    obtain db where db: "s = (True, db)" using s(1) by (cases s) auto
    with s px_cmd_local [of m db c h junk] store.exec_refines [of m db c h] show ?thesis
      by (auto simp: px_ok_def px_cmd_ok_def)
  qed
  show "\<exists>v. 0 \<le> v \<and> v \<le> m \<and> last_instance (abs_db (snd s)) = integer v" if "fst s \<and> db_inv m (snd s)" for m s
    using store.inv_last that by blast
qed

text \<open>The conditions on the commands of a sequence, along the run of the abstract store.\<close>

fun px_cmds_ok :: "(string \<Rightarrow> u64) \<Rightarrow> db_cmd list \<Rightarrow> fsys \<Rightarrow> bool" where
  "px_cmds_ok h [] s = True"
| "px_cmds_ok h (c # cs) s = (px_cmd_ok h c s \<and> px_cmds_ok h cs (snd (spec_cmd h c s)))"

lemma replicated_oks:
  assumes "fst s \<and> db_inv m (snd s)" "m + 2 * int (length cs) < 2 ^ 31" "px_cmds_ok h cs (abs_db (snd s))"
  shows "oks_with (px_cmd (local_execute h junk)) (px_ok h) cs s"
  using assms
proof (induction cs arbitrary: m s)
  case (Cons c cs)
  then have "px_ok h c s" by (simp add: px_ok_def)
  with replicated.exec_refines [OF Cons.prems(1), where c = c and h = h and junk = junk] Cons.prems obtain x s1 where
    1: "px_cmd (local_execute h junk) c s = Inr (x, s1)" "fst s1 \<and> db_inv (m + 2) (snd s1)"
      "spec_cmd h c (abs_db (snd s)) = (x, abs_db (snd s1))" by auto
  with Cons.prems have "m + 2 + 2 * int (length cs) < 2 ^ 31" "px_cmds_ok h cs (abs_db (snd s1))" by auto
  with Cons.IH [OF 1(2)] 1(1) \<open>px_ok h c s\<close> show ?case by simp
qed simp

section \<open>Properties\<close>

text \<open>Issued through the replicated interface on the leader, a command whose strings are shorter
  than 512 MB and whose instance number fits in 32 bits has the same outcome as the method of
  the store itself: the serialisation of the command, the execution of the bytes by the back
  store and the parsing of the reply lose nothing and never fail.\<close>

theorem replicated_command_is_store_command:
  assumes "db_inv m db" and "m + 2 < 2 ^ 31" and "cmd_ok (abs_db db) c" and "cmd_fits c"
    and "reply_fits (fst (spec_cmd h c (abs_db db)))"
  shows "px_cmd (local_execute h junk) c (True, db)
       = bindR (lift_db (run_cmd h c db)) (\<lambda>(x, db). Inr (x, True, db))"
  using px_cmd_local [OF assms] .

theorem replicated_command_is_store_command_witness:
  "px_cmd (local_execute (\<lambda>_. 7) 9) (Lock ''/f'' 1 ''c2'') (True, sample_locked)
     = bindR (lift_db (run_cmd (\<lambda>_. 7) (Lock ''/f'' 1 ''c2'') sample_locked)) (\<lambda>(x, db). Inr (x, True, db))"
  by (rule replicated_command_is_store_command [OF sample_locked_inv])
    (simp_all add: name_simps plain_def is_column_def columns_def lower_char_def NO_OWNER_def
      reply_fits_def split: option.split)

text \<open>C4: A sequence of commands issued through the replicated interface on a leader whose store is
  consistent runs to its end, with the replies and the final state of the abstract store and with
  strictly increasing instance numbers. The conditions are on the abstract run alone: valid names
  and plain texts, no listing of a directory is overwritten, the strings of a command and the text
  that a read returns are shorter than 512 MB, instance numbers fit in 32 bits, and the sequence is
  short enough for counters to stay below \<open>2^31\<close>.\<close>

theorem replicated_store_refines:
  assumes "db_inv m db" and "m + 2 * int (length cs) < 2 ^ 31" and "px_cmds_ok h cs (abs_db db)"
  shows "\<exists>xs db'. run_with (px_cmd (local_execute h junk)) cs (True, db) = Inr (xs, True, db')
    \<and> spec_cmds h cs (abs_db db) = (xs, abs_db db') \<and> sorted_wrt (<) (new_instances cs xs)"
  using replicated_oks [of "(True, db)" m cs h junk] replicated.run_refines [of "(True, db)" m cs h junk]
    replicated.instances_increase [of "(True, db)" m cs h junk] assms by auto

lemma sample_px_oks: "px_cmds_ok (\<lambda>_. 7) [Open ''/f'', Unlock ''/f'' 1] (abs_db sample_locked)"
  by (simp add: px_cmd_ok_def name_simps reply_fits_def split: option.split)

theorem replicated_store_refines_witness:
  "\<exists>xs db'. run_with (px_cmd (local_execute (\<lambda>_. 7) 9)) [Open ''/f'', Unlock ''/f'' 1] (True, sample_locked)
       = Inr (xs, True, db')
    \<and> spec_cmds (\<lambda>_. 7) [Open ''/f'', Unlock ''/f'' 1] (abs_db sample_locked) = (xs, abs_db db')
    \<and> sorted_wrt (<) (new_instances [Open ''/f'', Unlock ''/f'' 1] xs)"
  by (rule replicated_store_refines [OF sample_locked_inv _ sample_px_oks]) simp

text \<open>A replica that is not the leader refuses every command with the exception of \<open>runPaxos\<close>
  and leaves its store alone.\<close>

theorem not_leader_refuses:
  assumes "small_param p"
  shows "runPaxos (local_execute h junk) p (False, db) = Inl Not_leader"
proof -
  from assms obtain m where "xdr_to_msg xdr_ServerPaxosParam p = Inr m"
    using paxosParam.to_msg_ok [of p] by (auto simp: small_param_def)
  then show ?thesis by (simp add: runPaxos_def local_execute_def)
qed

theorem not_leader_refuses_witness:
  "runPaxos (local_execute (\<lambda>_. 7) 9) (Pm_CheckAndOpen \<lparr>cop_file_name = ''/f''\<rparr>) (False, create) = Inl Not_leader"
  by (rule not_leader_refuses) (simp add: small_params(2) [of _ "[]"])

text \<open>The commands carry 32 bits of an instance number: two handles whose 64-bit instance
  numbers differ by a multiple of \<open>2 ^ 32\<close> are not told apart by the replicated store.\<close>

theorem instance_number_truncated:
  "px_checkAndDelete execute n (i + 2 ^ 32) s = px_checkAndDelete execute n i s
   \<and> px_checkAndRead execute n (i + 2 ^ 32) s = px_checkAndRead execute n i s
   \<and> px_checkAndUpdate execute n (i + 2 ^ 32) c s = px_checkAndUpdate execute n i c s
   \<and> px_testAndSetLockOwner execute n (i + 2 ^ 32) c s = px_testAndSetLockOwner execute n i c s
   \<and> px_resetLockOwner execute n (i + 2 ^ 32) s = px_resetLockOwner execute n i s"
proof -
  have "(ucast (i + 2 ^ 32) :: u32) = ucast i"
    by (simp add: word_uint_eq_iff unsigned_ucast_eq uint_word_ariths take_bit_eq_mod mod_mod_cancel)
  then show ?thesis
    by (simp add: px_checkAndDelete_def px_checkAndRead_def px_checkAndUpdate_def
        px_testAndSetLockOwner_def px_resetLockOwner_def)
qed

text \<open>The list of locks that a new leader reads contains every node twice: the back store
  appends the rows to the same vector two times.\<close>

theorem states_listed_twice:
  assumes "small_result (Rs_GetStates \<lparr>gsr_list =
      map (\<lambda>(k, v). \<lparr>kv_key = k, kv_value = v\<rparr>) (getStates db [] @ getStates db [])\<rparr>)"
  shows "px_getStates (local_execute h junk) [] (True, db)
       = Inr (getStates db [] @ getStates db [], True, db)"
proof -
  have "getStates db (getStates db []) = getStates db [] @ getStates db []"
    by (simp add: getStates_def)
  then show ?thesis unfolding px_getStates_def
    by (subst runPaxos_local)
      (use assms small_params(8) [of "[]" "[]"] in \<open>auto simp: run_switch_def Let_def comp_def split_beta\<close>)
qed

theorem states_listed_twice_witness:
  "px_getStates (local_execute (\<lambda>_. 7) 9) [] (True, sample_locked)
     = Inr ([(''/f'', ''c1''), (''/f'', ''c1'')], True, sample_locked)"
proof -
  have "getStates sample_locked [] @ getStates sample_locked [] = [(''/f'', ''c1''), (''/f'', ''c1'')]"
    by (simp add: getStates_def sample_locked_def)
  with states_listed_twice [of sample_locked "\<lambda>_. 7" 9] show ?thesis
    by (simp add: small_result_def size_defs ok_defs xdr_GetStatesResult_def xdr_key_value_def
        c_vector_def GetStatesResult_ok_def key_values_ok_def key_value_ok_def XDR_MAX_LEN_def)
qed


end
