(* ===== verification/Paxos_Replica.thy ===== *)
theory Paxos_Replica
  imports Backstore
begin

text \<open>
  The replicas of \<open>src/paxos\<close>: the configuration and state of one replica (\<open>replica_state\<close>),
  the helper functions (\<open>helper\<close>), the remote interfaces (\<open>paxos_impl\<close>), the replication of
  commands (\<open>execute_replicate_engine\<close>) and the change of views (\<open>change_view_engine\<close>). A remote
  call is a function on the list of all replicas; which replica can call which is a parameter
  \<open>link\<close>, the answer of \<open>ReplicaClientSet::getReplicaClient\<close> after its attempt to connect.

  What the mutexes of a replica protect is one step of the model. The back store is a parameter:
  \<open>run\<close> stands for \<open>BackStoreInterface::Run\<close> and \<open>boot\<close> for the command, if any, that
  \<open>BackStoreInterface::Initialize\<close> has executed through the library.
\<close>

section \<open>Reading the configuration\<close>

datatype px_error = Px_assert | Px_index | Px_stoi | Px_xdr xdr_error | Px_run rs_error

text \<open>
  \<open>std::getline(config_file, line)\<close> on the rest of the file, the end-of-file flag and the value
  of \<open>line\<close>: once the flag is set the string is left as it is.
\<close>

fun getline :: "string \<times> bool \<times> string \<Rightarrow> string \<times> bool \<times> string" where
  "getline (s, eof, line) =
     (if eof then (s, eof, line)
      else case str_find (CHR 0x0A) s of
             Some k \<Rightarrow> (drop (Suc k) s, False, take k s)
           | None \<Rightarrow> ([], True, s))"

text \<open>\<open>std::stoi\<close>\<close>

definition stoi :: "string \<Rightarrow> px_error + int" where
  "stoi s = (case strto s of
     None \<Rightarrow> Inl Px_stoi
   | Some (neg, n) \<Rightarrow>
       (let v = (if neg then - n else n) in if v < - (2 ^ 31) \<or> 2 ^ 31 \<le> v then Inl Px_stoi else Inr v))"

text \<open>\<open>ReplicaState\<close> derives from \<open>vc_state\<close>.\<close>

record ReplicaState = vc_state +
  isLeader :: bool
  isInitialized :: bool
  quota :: int
  max_num_client :: int
  self_rank :: nat
  replica_address :: "string list"
  client_use_address :: "string list"

fun read_addresses ::
    "nat \<Rightarrow> string \<times> bool \<times> string \<Rightarrow> string list \<times> string list" where
  "read_addresses 0 f = ([], [])"
| "read_addresses (Suc n) f =
     (let f1 = getline f; f2 = getline f1; (rs, cs) = read_addresses n f2
      in (snd (snd f1) # rs, snd (snd f2) # cs))"

definition empty_view :: view_t where
  "empty_view = \<lparr>vw_vid = \<lparr>vi_counter = 0, vi_manager = []\<rparr>,
     vw_primary = \<lparr>co_id = [], co_addr = []\<rparr>, vw_backups = []\<rparr>"

definition new_ReplicaState :: "string \<Rightarrow> nat \<Rightarrow> px_error + ReplicaState" where
  "new_ReplicaState config_file rank =
     (let f1 = getline (config_file, False, []); f2 = getline f1 in
      bindR (stoi (snd (snd f1))) (\<lambda>q.
      bindR (stoi (snd (snd f2))) (\<lambda>n.
      let (rs, cs) = read_addresses (nat n) f2
      in Inr \<lparr>vc_mode = VC_MANAGER, vc_view = empty_view, isLeader = False, isInitialized = False,
           quota = q, max_num_client = n, self_rank = rank, replica_address = rs,
           client_use_address = cs\<rparr>)))"

text \<open>Indexing a vector out of range has no defined value.\<close>

definition at :: "'a list \<Rightarrow> nat \<Rightarrow> px_error + 'a" where
  "at xs i = (if i < length xs then Inr (xs ! i) else Inl Px_index)"

definition getReplicaAddress :: "ReplicaState \<Rightarrow> nat \<Rightarrow> px_error + string" where
  "getReplicaAddress st rank = at (replica_address st) rank"

definition getClientUseAddress :: "ReplicaState \<Rightarrow> nat \<Rightarrow> px_error + string" where
  "getClientUseAddress st rank = at (client_use_address st) rank"

fun find_index :: "'a list \<Rightarrow> 'a \<Rightarrow> nat option" where
  "find_index [] x = None"
| "find_index (y # ys) x = (if y = x then Some 0 else map_option Suc (find_index ys x))"

definition getReplicaAddressRank :: "ReplicaState \<Rightarrow> string \<Rightarrow> int" where
  "getReplicaAddressRank st a =
     (case find_index (replica_address st) a of None \<Rightarrow> -1 | Some i \<Rightarrow> int i)"

definition getClientUseAddressRank :: "ReplicaState \<Rightarrow> string \<Rightarrow> int" where
  "getClientUseAddressRank st a =
     (case find_index (client_use_address st) a of None \<Rightarrow> -1 | Some i \<Rightarrow> int i)"

section \<open>Network addresses\<close>

definition analyzeNetworkAddress :: "string \<Rightarrow> px_error + (string \<times> string)" where
  "analyzeNetworkAddress a =
     (case str_find (CHR '':'') a of
        None \<Rightarrow> Inl Px_assert
      | Some k \<Rightarrow> Inr (take k a, drop (Suc k) a))"

definition analyzeNetworkPort :: "string \<Rightarrow> px_error + string" where
  "analyzeNetworkPort a =
     (case str_find (CHR '':'') a of
        None \<Rightarrow> Inl Px_assert
      | Some k \<Rightarrow> Inr (drop (Suc k) a))"

definition ReturnOtherReplicas :: "ReplicaState \<Rightarrow> px_error + (nat \<rightharpoonup> string)" where
  "ReturnOtherReplicas st =
     foldl (\<lambda>m i. bindR m (\<lambda>m. if i \<noteq> self_rank st
               then bindR (getReplicaAddress st i) (\<lambda>a. Inr (m(i \<mapsto> a))) else Inr m))
       (Inr Map.empty) [0..<nat (max_num_client st)]"

section \<open>Replicas and calls between them\<close>

record 's replica =
  rp_state :: ReplicaState
  rp_store :: 's

type_synonym 's cluster = "'s replica list"
type_synonym link = "nat \<Rightarrow> nat \<Rightarrow> bool"
type_synonym 's run_fn = "byte list \<Rightarrow> 's \<Rightarrow> rs_error + (byte list \<times> 's)"

definition lift_px_xdr :: "xdr_error + 'a \<Rightarrow> px_error + 'a" where
  "lift_px_xdr m = (case m of Inl e \<Rightarrow> Inl (Px_xdr e) | Inr x \<Rightarrow> Inr x)"

definition lift_px_run :: "rs_error + 'a \<Rightarrow> px_error + 'a" where
  "lift_px_run m = (case m of Inl e \<Rightarrow> Inl (Px_run e) | Inr x \<Rightarrow> Inr x)"

text \<open>
  \<open>getReplicaClient\<close> asserts that the rank is one of the other replicas and answers whether
  there is a connection.
\<close>

definition getReplicaClient :: "link \<Rightarrow> ReplicaState \<Rightarrow> nat \<Rightarrow> px_error + bool" where
  "getReplicaClient link st rank =
     (if rank \<noteq> self_rank st \<and> rank < nat (max_num_client st)
      then Inr (link (self_rank st) rank) else Inl Px_assert)"

text \<open>
  \<open>paxos_v1_server::replicate\<close>. The bytes of a view request include the four bytes of length:
  they are copied over the raw data of a message of four bytes less. The branch for a command
  ends without a \<open>return\<close>: \<open>None\<close> is the missing result, which the callers ignore.
\<close>

definition no_viewstamp :: viewstamp_t where
  "no_viewstamp = \<lparr>vs_vid = \<lparr>vi_counter = 0, vi_manager = []\<rparr>, vs_ts = 0\<rparr>"

definition replicate_call ::
    "'s run_fn \<Rightarrow> replicate_arg \<Rightarrow> 's replica \<Rightarrow> px_error + (replicate_res option \<times> 's replica)" where
  "replicate_call run arg r =
     (if vs_ts (ra_vs arg) = 0
      then let request = ea_request (ra_arg arg) in
        if length request < 4 \<or> 0x80000000 \<le> length request - 4 then Inl Px_assert
        else bindR (lift_px_xdr (xdr_from_msg xdr_init_view_request
                      \<lparr>m_len = take 4 request, m_data = drop 4 request\<rparr>)) (\<lambda>q.
          Inr (Some \<lparr>rr_vs = no_viewstamp\<rparr>, r\<lparr>rp_state :=
            (rp_state r)\<lparr>isLeader := False, vc_view := iq_newview q\<rparr>\<rparr>))
      else bindR (lift_px_run (run (ea_request (ra_arg arg)) (rp_store r))) (\<lambda>(_, s).
             Inr (None, r\<lparr>rp_store := s\<rparr>)))"

definition on_replica ::
    "nat \<Rightarrow> ('s replica \<Rightarrow> px_error + ('a \<times> 's replica)) \<Rightarrow> 's cluster \<Rightarrow> px_error + ('a \<times> 's cluster)" where
  "on_replica i f cl = bindR (at cl i) (\<lambda>r. bindR (f r) (\<lambda>(x, r'). Inr (x, cl[i := r'])))"

definition set_state :: "nat \<Rightarrow> (ReplicaState \<Rightarrow> ReplicaState) \<Rightarrow> 's cluster \<Rightarrow> px_error + 's cluster" where
  "set_state me f cl =
     bindR (on_replica me (\<lambda>r. Inr ((), r\<lparr>rp_state := f (rp_state r)\<rparr>)) cl) (\<lambda>(_, cl). Inr cl)"

text \<open>The loop of both \<open>replicateCommand\<close> methods over the ranks.\<close>

fun send_all ::
    "link \<Rightarrow> 's run_fn \<Rightarrow> nat \<Rightarrow> replicate_arg \<Rightarrow> nat list \<Rightarrow> 's cluster \<Rightarrow> px_error + 's cluster" where
  "send_all link run me arg [] cl = Inr cl"
| "send_all link run me arg (i # is) cl =
     bindR (at cl me) (\<lambda>r.
     if i \<noteq> self_rank (rp_state r)
     then bindR (getReplicaClient link (rp_state r) i) (\<lambda>connected.
       if connected
       then bindR (on_replica i (replicate_call run arg) cl) (\<lambda>(_, cl). send_all link run me arg is cl)
       else send_all link run me arg is cl)
     else send_all link run me arg is cl)"

definition new_replicate_arg :: "u32 \<Rightarrow> byte list \<Rightarrow> replicate_arg" where
  "new_replicate_arg ts request =
     \<lparr>ra_vs = no_viewstamp\<lparr>vs_ts := ts\<rparr>, ra_arg = new_execute_arg\<lparr>ea_request := request\<rparr>,
      ra_committed = no_viewstamp\<rparr>"

definition all_ranks :: "nat \<Rightarrow> 's cluster \<Rightarrow> px_error + nat list" where
  "all_ranks me cl = bindR (at cl me) (\<lambda>r. Inr [0..<nat (max_num_client (rp_state r))])"

definition replicateView ::
    "link \<Rightarrow> 's run_fn \<Rightarrow> nat \<Rightarrow> init_view_request \<Rightarrow> 's cluster \<Rightarrow> px_error + 's cluster" where
  "replicateView link run me request cl =
     bindR (lift_px_xdr (xdr_to_msg xdr_init_view_request request)) (\<lambda>m.
     bindR (all_ranks me cl) (\<lambda>is.
       send_all link run me (new_replicate_arg 0 (raw_data m)) is cl))"

definition replicateCommand ::
    "link \<Rightarrow> 's run_fn \<Rightarrow> nat \<Rightarrow> byte list \<Rightarrow> 's cluster \<Rightarrow> px_error + (byte list \<times> 's cluster)" where
  "replicateCommand link run me request cl =
     bindR (all_ranks me cl) (\<lambda>is.
     bindR (send_all link run me (new_replicate_arg 1 request) is cl) (\<lambda>cl.
       on_replica me (\<lambda>r. bindR (lift_px_run (run request (rp_store r)))
         (\<lambda>(reply, s). Inr (reply, r\<lparr>rp_store := s\<rparr>))) cl))"

text \<open>\<open>paxos_client_v1_server::execute\<close>\<close>

definition execute ::
    "link \<Rightarrow> 's run_fn \<Rightarrow> nat \<Rightarrow> execute_arg \<Rightarrow> 's cluster \<Rightarrow> px_error + (execute_res \<times> 's cluster)" where
  "execute link run me arg cl =
     bindR (at cl me) (\<lambda>r.
     if \<not> isLeader (rp_state r)
     then Inr (Er_viewinfo \<lparr>ei_vid = \<lparr>vi_counter = 0, vi_manager = []\<rparr>, ei_primary = []\<rparr>, cl)
     else bindR (replicateCommand link run me (ea_request arg) cl)
            (\<lambda>(result, cl). Inr (Er_reply result, cl)))"

text \<open>\<open>ExecuteReplicateEngine::initializeLeader\<close>\<close>

definition initializeLeader ::
    "link \<Rightarrow> 's run_fn \<Rightarrow> byte list option \<Rightarrow> nat \<Rightarrow> 's cluster \<Rightarrow> px_error + 's cluster" where
  "initializeLeader link run boot me cl =
     bindR (case boot of
              None \<Rightarrow> Inr cl
            | Some request \<Rightarrow>
                bindR (execute link run me (new_execute_arg\<lparr>ea_request := request\<rparr>) cl) (\<lambda>(res, cl).
                  case res of Er_reply _ \<Rightarrow> Inr cl | Er_viewinfo _ \<Rightarrow> Inl (Px_run Not_leader)))
       (set_state me (\<lambda>st. st\<lparr>isInitialized := True\<rparr>))"

text \<open>
  Taking over the lead, the same statements in \<open>init_view\<close> and \<open>NotifyNewLeader\<close>.
\<close>

definition promote :: "nat \<Rightarrow> ReplicaState \<Rightarrow> px_error + ReplicaState" where
  "promote rank st =
     bindR (getReplicaAddress st rank) (\<lambda>a.
     bindR (getClientUseAddress st rank) (\<lambda>c.
       Inr (st\<lparr>isLeader := True,
         vc_view := (vc_view st)\<lparr>vw_primary := \<lparr>co_id = a, co_addr = c\<rparr>\<rparr>, vc_mode := VC_ACTIVE\<rparr>)))"

definition promote_replica :: "nat \<Rightarrow> 's cluster \<Rightarrow> px_error + 's cluster" where
  "promote_replica me cl =
     bindR (on_replica me (\<lambda>r. bindR (promote (self_rank (rp_state r)) (rp_state r))
              (\<lambda>st. Inr ((), r\<lparr>rp_state := st\<rparr>))) cl) (\<lambda>(_, cl). Inr cl)"

text \<open>Broadcasting the view of the new leader and initialising it.\<close>

definition announce ::
    "link \<Rightarrow> 's run_fn \<Rightarrow> byte list option \<Rightarrow> nat \<Rightarrow> 's cluster \<Rightarrow> px_error + 's cluster" where
  "announce link run boot me cl =
     bindR (at cl me) (\<lambda>r.
     bindR (replicateView link run me \<lparr>iq_newview = vc_view (rp_state r), iq_prev = no_viewstamp\<rparr> cl)
       (initializeLeader link run boot me))"

text \<open>\<open>paxos_v1_server::init_view\<close>; the result is \<open>res->succeed\<close>.\<close>

definition init_view ::
    "link \<Rightarrow> 's run_fn \<Rightarrow> byte list option \<Rightarrow> nat \<Rightarrow> 's cluster \<Rightarrow> px_error + (bool \<times> 's cluster)" where
  "init_view link run boot me cl =
     bindR (at cl me) (\<lambda>r.
     if isLeader (rp_state r) then Inr (False, cl)
     else bindR (promote_replica me cl) (\<lambda>cl.
          bindR (announce link run boot me cl) (\<lambda>cl. Inr (True, cl))))"

section \<open>Change of views\<close>

definition isLeaderDown :: "link \<Rightarrow> ReplicaState \<Rightarrow> px_error + bool" where
  "isLeaderDown link st =
     (if isLeader st then Inr False
      else if co_addr (vw_primary (vc_view st)) = [] then Inr True
      else let leader_rank = getClientUseAddressRank st (co_addr (vw_primary (vc_view st))) in
        bindR (assertR Px_assert (leader_rank \<noteq> -1)) (\<lambda>_.
        bindR (getReplicaClient link st (nat leader_rank)) (\<lambda>connected. Inr (\<not> connected))))"

text \<open>The loop of \<open>getNewLeaderRank\<close> stops at the first replica that can be reached.\<close>

fun newLeaderRank :: "link \<Rightarrow> ReplicaState \<Rightarrow> nat \<Rightarrow> nat list \<Rightarrow> px_error + nat" where
  "newLeaderRank link st result [] = Inr result"
| "newLeaderRank link st result (i # is) =
     (if i \<noteq> self_rank st
      then bindR (getReplicaClient link st i) (\<lambda>connected.
             if connected then Inr (if i < result then i else result)
             else newLeaderRank link st result is)
      else newLeaderRank link st result is)"

definition getNewLeaderRank :: "link \<Rightarrow> ReplicaState \<Rightarrow> px_error + nat" where
  "getNewLeaderRank link st = newLeaderRank link st (self_rank st) [0..<nat (max_num_client st)]"

definition NotifyNewLeader ::
    "link \<Rightarrow> 's run_fn \<Rightarrow> byte list option \<Rightarrow> nat \<Rightarrow> 's cluster \<Rightarrow> px_error + (bool \<times> 's cluster)" where
  "NotifyNewLeader link run boot me cl =
     bindR (at cl me) (\<lambda>r.
     bindR (isLeaderDown link (rp_state r)) (\<lambda>down.
     bindR (assertR Px_assert down) (\<lambda>_.
     bindR (getNewLeaderRank link (rp_state r)) (\<lambda>rank.
     if rank = self_rank (rp_state r)
     then bindR (promote_replica me cl) (\<lambda>cl. Inr (True, cl))
     else bindR (getReplicaClient link (rp_state r) rank) (\<lambda>connected.
          bindR (assertR Px_assert connected) (\<lambda>_.
          bindR (init_view link run boot rank cl) (\<lambda>(succeed, cl).
          bindR (getReplicaAddress (rp_state r) rank) (\<lambda>a.
          bindR (getClientUseAddress (rp_state r) rank) (\<lambda>c.
          bindR (set_state me (\<lambda>st. if succeed then st else
                   st\<lparr>isLeader := False,
                      vc_view := (vc_view st)\<lparr>vw_primary := \<lparr>co_id = a, co_addr = c\<rparr>\<rparr>\<rparr>) cl) (\<lambda>cl.
          bindR (set_state me (\<lambda>st. st\<lparr>vc_mode := VC_ACTIVE\<rparr>) cl) (\<lambda>cl. Inr (False, cl))))))))))))"

text \<open>One iteration of the endless loop of \<open>ChangeViewEngine::run\<close>, without its sleeps.\<close>

definition change_view_step ::
    "link \<Rightarrow> 's run_fn \<Rightarrow> byte list option \<Rightarrow> nat \<Rightarrow> 's cluster \<Rightarrow> px_error + 's cluster" where
  "change_view_step link run boot me cl =
     bindR (at cl me) (\<lambda>r.
     if vc_mode (rp_state r) = VC_MANAGER
     then bindR (NotifyNewLeader link run boot me cl) (\<lambda>(becomeLeader, cl).
            if becomeLeader then announce link run boot me cl else Inr cl)
     else bindR (isLeaderDown link (rp_state r)) (\<lambda>down.
            if down then set_state me (\<lambda>st. st\<lparr>vc_mode := VC_MANAGER\<rparr>) cl else Inr cl))"

section \<open>Histories\<close>

text \<open>
  A history is a sequence of iterations of the change-view threads and of client commands, each
  with the connections that hold at the time.
\<close>

datatype px_event = Iterate nat | Client nat "byte list"

fun px_step ::
    "'s run_fn \<Rightarrow> byte list option \<Rightarrow> link \<times> px_event \<Rightarrow> 's cluster \<Rightarrow> px_error + 's cluster" where
  "px_step run boot (link, Iterate k) cl = change_view_step link run boot k cl"
| "px_step run boot (link, Client k request) cl =
     bindR (execute link run k (new_execute_arg\<lparr>ea_request := request\<rparr>) cl) (\<lambda>(_, cl). Inr cl)"

fun px_history ::
    "'s run_fn \<Rightarrow> byte list option \<Rightarrow> (link \<times> px_event) list \<Rightarrow> 's cluster \<Rightarrow> px_error + 's cluster" where
  "px_history run boot [] cl = Inr cl"
| "px_history run boot (e # es) cl = bindR (px_step run boot e cl) (px_history run boot es)"

text \<open>The same as a step relation: the states a cluster can reach.\<close>

inductive px_reach :: "'s run_fn \<Rightarrow> byte list option \<Rightarrow> 's cluster \<Rightarrow> 's cluster \<Rightarrow> bool"
  for run :: "'s run_fn" and boot :: "byte list option" and cl0 :: "'s cluster" where
  start: "px_reach run boot cl0 cl0"
| iterate: "px_reach run boot cl0 cl \<Longrightarrow> change_view_step link run boot k cl = Inr cl'
    \<Longrightarrow> px_reach run boot cl0 cl'"
| client: "px_reach run boot cl0 cl \<Longrightarrow> execute link run k arg cl = Inr (res, cl')
    \<Longrightarrow> px_reach run boot cl0 cl'"

definition start_cluster :: "string list \<Rightarrow> string list \<Rightarrow> 's \<Rightarrow> 's cluster" where
  "start_cluster rs cs s = map (\<lambda>k. \<lparr>rp_state = \<lparr>vc_mode = VC_MANAGER, vc_view = empty_view,
     isLeader = False, isInitialized = False, quota = 1, max_num_client = int (length rs),
     self_rank = k, replica_address = rs, client_use_address = cs\<rparr>, rp_store = s\<rparr>) [0..<length rs]"

end
