(* ===== verification/Paxos_Properties.thy ===== *)
theory Paxos_Properties
  imports Paxos_Replica
begin

text \<open>
  The invariant of a cluster of replicas and its properties. The locale \<open>px_config\<close> collects what
  a sound configuration offers (unique non-empty client addresses of bounded length); it is
  interpreted on the addresses of \<open>src/paxos/config.txt\<close>.
\<close>

section \<open>The state invariant of a cluster\<close>

definition view_of :: "string list \<Rightarrow> string list \<Rightarrow> nat \<Rightarrow> view_t" where
  "view_of rs cs j = empty_view\<lparr>vw_primary := \<lparr>co_id = rs ! j, co_addr = cs ! j\<rparr>\<rparr>"

text \<open>
  Replica \<open>k\<close> knows its configuration, its view is empty or names a replica of the cluster, and
  it is the leader exactly when its view names itself.
\<close>

definition replica_ok :: "string list \<Rightarrow> string list \<Rightarrow> nat \<Rightarrow> ReplicaState \<Rightarrow> bool" where
  "replica_ok rs cs k st \<longleftrightarrow> self_rank st = k \<and> max_num_client st = int (length rs)
     \<and> replica_address st = rs \<and> client_use_address st = cs
     \<and> (vc_view st = empty_view \<and> \<not> isLeader st
        \<or> list_ex (\<lambda>j. vc_view st = view_of rs cs j \<and> (isLeader st \<longleftrightarrow> j = k)) [0..<length rs])"

definition cluster_ok :: "string list \<Rightarrow> string list \<Rightarrow> 's cluster \<Rightarrow> bool" where
  "cluster_ok rs cs cl \<longleftrightarrow> length cl = length rs
     \<and> list_all (\<lambda>k. replica_ok rs cs k (rp_state (cl ! k))) [0..<length rs]"

definition config_ok :: "string list \<Rightarrow> string list \<Rightarrow> bool" where
  "config_ok rs cs \<longleftrightarrow> length rs = length cs \<and> distinct cs \<and> [] \<notin> set cs
     \<and> list_all (\<lambda>a. length a < 2 ^ 16) (rs @ cs)"

lemma at_eq [simp]: "at xs i = Inr x \<longleftrightarrow> i < length xs \<and> x = xs ! i"
  by (auto simp: at_def)

lemma at_Inr: "i < length xs \<Longrightarrow> at xs i = Inr (xs ! i)"
  by (simp add: at_def)

lemma lift_px_simps [simp]:
  "lift_px_xdr (Inr x) = Inr x" "lift_px_xdr (Inl e) = Inl (Px_xdr e)"
  "lift_px_run (Inr x) = Inr x" "lift_px_run (Inl e') = Inl (Px_run e')"
  by (simp_all add: lift_px_xdr_def lift_px_run_def)

lemma on_replica_eq:
  "on_replica i f cl = Inr (x, cl') \<longleftrightarrow> i < length cl \<and> (\<exists>r. f (cl ! i) = Inr (x, r) \<and> cl' = cl[i := r])"
  by (auto simp: on_replica_def)

lemma set_state_eq:
  "set_state me f cl = Inr cl' \<longleftrightarrow>
     me < length cl \<and> cl' = cl[me := (cl ! me)\<lparr>rp_state := f (rp_state (cl ! me))\<rparr>]"
  by (auto simp: set_state_def on_replica_eq)

lemma find_index_nth: "distinct xs \<Longrightarrow> i < length xs \<Longrightarrow> find_index xs (xs ! i) = Some i"
  by (induction xs arbitrary: i) (auto simp: nth_Cons split: nat.splits)

definition view_request :: "string list \<Rightarrow> string list \<Rightarrow> nat \<Rightarrow> init_view_request" where
  "view_request rs cs j = \<lparr>iq_newview = view_of rs cs j, iq_prev = no_viewstamp\<rparr>"

locale px_config =
  fixes rs cs :: "string list"
  assumes cfg: "config_ok rs cs"
begin

lemma cfg_len: "length cs = length rs" and cfg_distinct: "distinct cs"
  and cfg_nonempty: "j < length rs \<Longrightarrow> cs ! j \<noteq> []"
  and cfg_short: "j < length rs \<Longrightarrow> length (rs ! j) < 2 ^ 16 \<and> length (cs ! j) < 2 ^ 16"
  using cfg by (auto simp: config_ok_def list_all_iff dest: nth_mem)

lemma view_of_inj: "i < length rs \<Longrightarrow> j < length rs \<Longrightarrow> view_of rs cs i = view_of rs cs j \<longleftrightarrow> i = j"
  using cfg_distinct cfg_len by (auto simp: view_of_def empty_view_def nth_eq_iff_index_eq)

lemma view_of_nonempty: "j < length rs \<Longrightarrow> view_of rs cs j \<noteq> empty_view"
  using cfg_nonempty [of j] by (auto simp: view_of_def empty_view_def)

lemma replica_okD:
  assumes "replica_ok rs cs k st"
  shows "self_rank st = k" "max_num_client st = int (length rs)" "replica_address st = rs"
    "client_use_address st = cs"
    "vc_view st = empty_view \<and> \<not> isLeader st
      \<or> (\<exists>j < length rs. vc_view st = view_of rs cs j \<and> (isLeader st \<longleftrightarrow> j = k))"
  using assms by (auto simp: replica_ok_def list_ex_iff)

lemma replica_ok_cong:
  "replica_ok rs cs k st \<Longrightarrow> vc_view st' = vc_view st \<Longrightarrow> isLeader st' = isLeader st \<Longrightarrow>
   self_rank st' = self_rank st \<Longrightarrow> max_num_client st' = max_num_client st \<Longrightarrow>
   replica_address st' = replica_address st \<Longrightarrow> client_use_address st' = client_use_address st \<Longrightarrow>
   replica_ok rs cs k st'"
  by (simp add: replica_ok_def)

lemma replica_ok_view:
  assumes "replica_ok rs cs k st" and "j < length rs" and "b \<longleftrightarrow> j = k"
  shows "replica_ok rs cs k (st\<lparr>isLeader := b, vc_view := view_of rs cs j\<rparr>)"
  using assms by (auto simp: replica_ok_def list_ex_iff)

lemma cluster_ok_iff:
  "cluster_ok rs cs cl \<longleftrightarrow> length cl = length rs
     \<and> (\<forall>k < length rs. replica_ok rs cs k (rp_state (cl ! k)))"
  by (auto simp: cluster_ok_def list_all_iff)

lemma cluster_ok_update:
  assumes "cluster_ok rs cs cl" and "i < length rs \<Longrightarrow> replica_ok rs cs i (rp_state r)"
  shows "cluster_ok rs cs (cl[i := r])"
  using assms by (cases "i < length cl") (auto simp: cluster_ok_iff nth_list_update)

text \<open>A view of this cluster survives its way through the bytes of a request.\<close>

lemma view_request_ok:
  assumes "j < length rs"
  shows "init_view_request_ok (view_request rs cs j)" "c_size xdr_init_view_request (view_request rs cs j) < 0x40000"
proof -
  have "(length a + 7) div 4 * 4 < 0x10010" if "length a < 2 ^ 16" for a :: string
    using that using div_times_less_eq_dividend [of "length a + 7" 4] by (simp del: div_times_less_eq_dividend)
  from this [of "rs ! j"] this [of "cs ! j"] cfg_short [OF assms]
  show "init_view_request_ok (view_request rs cs j)"
    "c_size xdr_init_view_request (view_request rs cs j) < 0x40000"
  by (simp_all add: view_request_def view_of_def empty_view_def no_viewstamp_def init_view_request_ok_def
      view_t_ok_def viewid_t_ok_def viewstamp_t_ok_def cohort_t_ok_def cohort_ts_ok_def fits_def
      xdr_init_view_request_def xdr_view_t_def xdr_viewid_t_def xdr_viewstamp_t_def xdr_cohort_t_def
      c_struct_def c_pair_def c_string_def c_bytes_def c_vector_def c_u64_def c_u32_def)
qed

lemma view_request_bytes:
  assumes "j < length rs"
  obtains m where "xdr_to_msg xdr_init_view_request (view_request rs cs j) = Inr m"
    "4 \<le> length (raw_data m)" "length (raw_data m) - 4 < 0x80000000"
    "xdr_from_msg xdr_init_view_request \<lparr>m_len = take 4 (raw_data m), m_data = drop 4 (raw_data m)\<rparr>
       = Inr (view_request rs cs j)"
proof -
  note ok = view_request_ok [OF assms]
  from ok have sz: "c_size xdr_init_view_request (view_request rs cs j) < 0x80000000" by simp
  obtain m where m: "xdr_to_msg xdr_init_view_request (view_request rs cs j) = Inr m"
    "m_data m = wire xdr_init_view_request (view_request rs cs j)"
    using initViewRequest.to_msg_ok [OF ok(1) sz] by blast
  have len: "length (m_len m) = 4"
    using m(1) by (auto simp: xdr_to_msg_def message_with_def)
  have "xdr_from_msg xdr_init_view_request m = Inr (view_request rs cs j)"
    using initViewRequest.from_msg_to_msg [OF ok(1) sz] m(1) by simp
  moreover have "\<lparr>m_len = take 4 (raw_data m), m_data = drop 4 (raw_data m)\<rparr> = m"
    using len by (simp add: raw_data_def)
  moreover have "length (raw_data m) - 4 < 0x80000000" "4 \<le> length (raw_data m)"
    using len m(2) sz initViewRequest.wire_length [OF ok(1)] by (simp_all add: raw_data_def)
  ultimately show thesis using m(1) that by simp
qed

end

context px_config begin

section \<open>Every step keeps the invariant\<close>

lemma replicate_view_call:
  assumes "j < length rs"
  obtains m where "xdr_to_msg xdr_init_view_request (view_request rs cs j) = Inr m"
    "\<And>run r. replicate_call run (new_replicate_arg 0 (raw_data m)) r
       = Inr (Some \<lparr>rr_vs = no_viewstamp\<rparr>, r\<lparr>rp_state :=
           (rp_state r)\<lparr>isLeader := False, vc_view := view_of rs cs j\<rparr>\<rparr>)"
proof -
  obtain m where m: "xdr_to_msg xdr_init_view_request (view_request rs cs j) = Inr m"
    "4 \<le> length (raw_data m)" "length (raw_data m) - 4 < 0x80000000"
    "xdr_from_msg xdr_init_view_request \<lparr>m_len = take 4 (raw_data m), m_data = drop 4 (raw_data m)\<rparr>
       = Inr (view_request rs cs j)"
    by (rule view_request_bytes [OF assms])
  then show thesis
    by (intro that [of m]) (simp_all add: replicate_call_def new_replicate_arg_def view_request_def
        no_viewstamp_def new_execute_arg_def Let_def)
qed

text \<open>
  The effect of the loop over the ranks: every other replica that is connected has taken the
  call, all others are as before.
\<close>

lemma send_all_effect:
  assumes "send_all link run me arg is cl = Inr cl'" and "distinct is"
    and "me < length cl" and "self_rank (rp_state (cl ! me)) = me"
  shows "length cl' = length cl \<and> cl' ! me = cl ! me
    \<and> (\<forall>i < length cl. if i \<in> set is \<and> i \<noteq> me \<and> link me i
         then \<exists>x. replicate_call run arg (cl ! i) = Inr (x, cl' ! i) else cl' ! i = cl ! i)"
  using assms
proof (induction "is" arbitrary: cl)
  case Nil
  then show ?case by simp
next
  case (Cons i "is")
  show ?case
  proof (cases "i \<noteq> me \<and> link me i")
    case False
    have skip: "send_all link run me arg is cl = Inr cl'"
      using Cons.prems False by (auto simp: getReplicaClient_def at_Inr split: if_splits)
    from Cons.IH [OF skip] Cons.prems False show ?thesis by (auto split: if_splits)
  next
    case True
    from Cons.prems True obtain x r where r: "i < length cl" "replicate_call run arg (cl ! i) = Inr (x, r)"
      and rest: "send_all link run me arg is (cl[i := r]) = Inr cl'"
      by (auto simp: getReplicaClient_def at_Inr on_replica_eq split: if_splits)
    from Cons.IH [OF rest] Cons.prems True have IH: "length cl' = length cl" "cl' ! me = cl ! me"
      "\<And>k. k < length cl \<Longrightarrow> if k \<in> set is \<and> k \<noteq> me \<and> link me k
         then \<exists>x. replicate_call run arg (cl[i := r] ! k) = Inr (x, cl' ! k) else cl' ! k = cl[i := r] ! k"
      by auto
    have "if k \<in> set (i # is) \<and> k \<noteq> me \<and> link me k
         then \<exists>x. replicate_call run arg (cl ! k) = Inr (x, cl' ! k) else cl' ! k = cl ! k"
      if "k < length cl" for k
      using IH(3) [OF that] True r Cons.prems(2) that by (cases "k = i") auto
    with IH(1,2) show ?thesis by blast
  qed
qed

lemma cluster_ok_self: "cluster_ok rs cs cl \<Longrightarrow> k < length cl \<Longrightarrow> self_rank (rp_state (cl ! k)) = k"
  using replica_okD(1) by (auto simp: cluster_ok_iff)

lemma cluster_ok_max:
  "cluster_ok rs cs cl \<Longrightarrow> k < length cl \<Longrightarrow> max_num_client (rp_state (cl ! k)) = int (length rs)"
  using replica_okD(2) by (auto simp: cluster_ok_iff)

lemma all_ranks_ok:
  "cluster_ok rs cs cl \<Longrightarrow> me < length cl \<Longrightarrow> all_ranks me cl = Inr [0..<length rs]"
  by (simp add: all_ranks_def at_Inr cluster_ok_max)

lemma replicateView_effect:
  assumes ok: "cluster_ok rs cs cl" and me: "me < length cl" and j: "j < length rs"
    and run: "replicateView link run me (view_request rs cs j) cl = Inr cl'"
  shows "length cl' = length cl \<and> cl' ! me = cl ! me \<and> (\<forall>i < length cl. i \<noteq> me \<longrightarrow>
     cl' ! i = (if link me i then (cl ! i)\<lparr>rp_state := (rp_state (cl ! i))
        \<lparr>isLeader := False, vc_view := view_of rs cs j\<rparr>\<rparr> else cl ! i))"
proof -
  obtain m where m: "xdr_to_msg xdr_init_view_request (view_request rs cs j) = Inr m"
    "\<And>r. replicate_call run (new_replicate_arg 0 (raw_data m)) r
       = Inr (Some \<lparr>rr_vs = no_viewstamp\<rparr>, r\<lparr>rp_state :=
           (rp_state r)\<lparr>isLeader := False, vc_view := view_of rs cs j\<rparr>\<rparr>)"
    by (rule replicate_view_call [OF j]) blast
  from run m(1) all_ranks_ok [OF ok me]
  have "send_all link run me (new_replicate_arg 0 (raw_data m)) [0..<length rs] cl = Inr cl'"
    by (simp add: replicateView_def)
  from send_all_effect [OF this _ me cluster_ok_self [OF ok me]] ok show ?thesis
    by (auto simp: m(2) cluster_ok_iff split: if_splits)
qed

lemma replicateView_total:
  assumes ok: "cluster_ok rs cs cl" and me: "me < length cl" and j: "j < length rs"
  shows "\<exists>cl'. replicateView link run me (view_request rs cs j) cl = Inr cl'"
proof -
  obtain m where m: "xdr_to_msg xdr_init_view_request (view_request rs cs j) = Inr m"
    "\<And>r. replicate_call run (new_replicate_arg 0 (raw_data m)) r
       = Inr (Some \<lparr>rr_vs = no_viewstamp\<rparr>, r\<lparr>rp_state :=
           (rp_state r)\<lparr>isLeader := False, vc_view := view_of rs cs j\<rparr>\<rparr>)"
    by (rule replicate_view_call [OF j]) blast
  have "\<exists>cl'. send_all link run me (new_replicate_arg 0 (raw_data m)) is cl = Inr cl'"
    if "set is \<subseteq> {..<length rs}" "length cl = length rs" "self_rank (rp_state (cl ! me)) = me"
      "max_num_client (rp_state (cl ! me)) = int (length rs)" "me < length rs" for "is" and cl :: "'a cluster"
    using that
  proof (induction "is" arbitrary: cl)
    case (Cons i "is")
    show ?case
    proof (cases "i \<noteq> me \<and> link me i")
      case False
      with Cons show ?thesis by (auto simp: getReplicaClient_def at_Inr)
    next
      case True
      let ?cl = "cl[i := (cl ! i)\<lparr>rp_state := (rp_state (cl ! i))\<lparr>isLeader := False, vc_view := view_of rs cs j\<rparr>\<rparr>]"
      have "\<exists>cl'. send_all link run me (new_replicate_arg 0 (raw_data m)) is ?cl = Inr cl'"
        by (rule Cons.IH) (use Cons.prems True in auto)
      with Cons.prems True show ?thesis
        by (auto simp: getReplicaClient_def at_Inr on_replica_def m(2))
    qed
  qed simp
  from this [of "[0..<length rs]" cl] cluster_ok_self [OF ok me] cluster_ok_max [OF ok me] ok me
  show ?thesis
    using m(1) all_ranks_ok [OF ok me] by (auto simp: replicateView_def cluster_ok_iff atLeast0LessThan)
qed

end

context px_config begin

lemma command_call:
  "replicate_call run (new_replicate_arg 1 request) r = Inr (x, r') \<longleftrightarrow>
     (\<exists>reply s. run request (rp_store r) = Inr (reply, s) \<and> r' = r\<lparr>rp_store := s\<rparr> \<and> x = None)"
  by (cases "run request (rp_store r)")
    (auto simp: replicate_call_def new_replicate_arg_def no_viewstamp_def new_execute_arg_def)

lemma replicateCommand_effect:
  assumes ok: "cluster_ok rs cs cl" and me: "me < length cl"
    and run: "replicateCommand link run me request cl = Inr (reply, cl')"
  shows "length cl' = length cl \<and> (\<forall>i < length cl. rp_state (cl' ! i) = rp_state (cl ! i)
    \<and> (if i = me then run request (rp_store (cl ! i)) = Inr (reply, rp_store (cl' ! i))
       else if link me i then \<exists>x. run request (rp_store (cl ! i)) = Inr (x, rp_store (cl' ! i))
       else rp_store (cl' ! i) = rp_store (cl ! i)))"
proof -
  from run all_ranks_ok [OF ok me] obtain cl1 where
    1: "send_all link run me (new_replicate_arg 1 request) [0..<length rs] cl = Inr cl1"
    and 2: "on_replica me (\<lambda>r. bindR (lift_px_run (run request (rp_store r)))
         (\<lambda>(reply, s). Inr (reply, r\<lparr>rp_store := s\<rparr>))) cl1 = Inr (reply, cl')"
    by (auto simp: replicateCommand_def)
  note E = send_all_effect [OF 1 _ me cluster_ok_self [OF ok me]]
  from 2 obtain s where s: "run request (rp_store (cl1 ! me)) = Inr (reply, s)"
    "cl' = cl1[me := (cl1 ! me)\<lparr>rp_store := s\<rparr>]"
    by (cases "run request (rp_store (cl1 ! me))") (auto simp: on_replica_eq)
  show ?thesis
  proof (intro conjI allI impI)
    show "length cl' = length cl" using E s by simp
    fix i assume i: "i < length cl"
    have len: "length rs = length cl" using ok by (simp add: cluster_ok_iff)
    have "rp_state (cl' ! i) = rp_state (cl ! i)
      \<and> (if i = me then run request (rp_store (cl ! i)) = Inr (reply, rp_store (cl' ! i))
       else if link me i then \<exists>x. run request (rp_store (cl ! i)) = Inr (x, rp_store (cl' ! i))
       else rp_store (cl' ! i) = rp_store (cl ! i))"
    proof (cases "i = me")
      case True
      with E s i show ?thesis by auto
    next
      case False
      have "if link me i then \<exists>x. replicate_call run (new_replicate_arg 1 request) (cl ! i) = Inr (x, cl1 ! i)
          else cl1 ! i = cl ! i"
        using E i len False by auto
      with False s(2) show ?thesis by (auto simp: command_call split: if_splits)
    qed
    then show "rp_state (cl' ! i) = rp_state (cl ! i)"
      "if i = me then run request (rp_store (cl ! i)) = Inr (reply, rp_store (cl' ! i))
       else if link me i then \<exists>x. run request (rp_store (cl ! i)) = Inr (x, rp_store (cl' ! i))
       else rp_store (cl' ! i) = rp_store (cl ! i)" by auto
  qed
qed

lemma cluster_ok_states:
  assumes "cluster_ok rs cs cl" "length cl' = length cl"
    "\<And>i. i < length cl \<Longrightarrow> rp_state (cl' ! i) = rp_state (cl ! i)"
  shows "cluster_ok rs cs cl'"
  using assms by (auto simp: cluster_ok_iff)

lemma execute_states:
  assumes ok: "cluster_ok rs cs cl" and run: "execute link run me arg cl = Inr (res, cl')"
  shows "length cl' = length cl \<and> (\<forall>i < length cl. rp_state (cl' ! i) = rp_state (cl ! i))"
proof -
  from run have me: "me < length cl" by (auto simp: execute_def)
  show ?thesis
  proof (cases "isLeader (rp_state (cl ! me))")
    case True
    with run obtain reply where "replicateCommand link run me (ea_request arg) cl = Inr (reply, cl')"
      by (auto simp: execute_def)
    from replicateCommand_effect [OF ok me this] show ?thesis by blast
  next
    case False
    with run show ?thesis by (auto simp: execute_def)
  qed
qed

lemma execute_ok:
  "cluster_ok rs cs cl \<Longrightarrow> execute link run me arg cl = Inr (res, cl') \<Longrightarrow> cluster_ok rs cs cl'"
  using execute_states cluster_ok_states by blast

lemma set_state_ok:
  assumes "cluster_ok rs cs cl" "set_state me f cl = Inr cl'"
    "me < length cl \<Longrightarrow> replica_ok rs cs me (f (rp_state (cl ! me)))"
  shows "cluster_ok rs cs cl'"
  using assms by (auto simp: set_state_eq intro!: cluster_ok_update)

lemma initializeLeader_states:
  assumes ok: "cluster_ok rs cs cl" and run: "initializeLeader link run boot me cl = Inr cl'"
  shows "length cl' = length cl \<and> (\<forall>i < length cl. rp_state (cl' ! i) =
    (if i = me then (rp_state (cl ! i))\<lparr>isInitialized := True\<rparr> else rp_state (cl ! i)))"
proof -
  from run obtain cl1 where "cl1 = cl \<or> (\<exists>req res. execute link run me req cl = Inr (res, cl1))"
    and s: "set_state me (\<lambda>st. st\<lparr>isInitialized := True\<rparr>) cl1 = Inr cl'"
    by (auto simp: initializeLeader_def split: option.splits execute_res.splits) (metis execute_res.exhaust)
  with execute_states [OF ok] have "length cl1 = length cl"
    "\<And>i. i < length cl \<Longrightarrow> rp_state (cl1 ! i) = rp_state (cl ! i)" by blast+
  with s show ?thesis by (auto simp: set_state_eq nth_list_update)
qed

lemma initializeLeader_ok:
  assumes "cluster_ok rs cs cl" "initializeLeader link run boot me cl = Inr cl'"
  shows "cluster_ok rs cs cl'"
  using initializeLeader_states [OF assms] assms(1)
  by (auto simp: cluster_ok_iff intro: replica_ok_cong)

lemma promote_ok:
  assumes "replica_ok rs cs k st" "k < length rs" "promote k st = Inr st'"
  shows "st' = st\<lparr>isLeader := True, vc_view := view_of rs cs k, vc_mode := VC_ACTIVE\<rparr>"
proof -
  have "(vc_view st)\<lparr>vw_primary := \<lparr>co_id = rs ! k, co_addr = cs ! k\<rparr>\<rparr> = view_of rs cs k"
    using replica_okD(5) [OF assms(1)] by (auto simp: view_of_def)
  with assms show ?thesis using replica_okD(3,4) [OF assms(1)]
    by (auto simp: promote_def getReplicaAddress_def getClientUseAddress_def)
qed

lemma promote_replica_effect:
  assumes ok: "cluster_ok rs cs cl" and run: "promote_replica me cl = Inr cl'"
  shows "me < length cl \<and> cl' = cl[me := (cl ! me)\<lparr>rp_state := (rp_state (cl ! me))
    \<lparr>isLeader := True, vc_view := view_of rs cs me, vc_mode := VC_ACTIVE\<rparr>\<rparr>]"
proof -
  from run obtain st' where me: "me < length cl" "promote (self_rank (rp_state (cl ! me))) (rp_state (cl ! me)) = Inr st'"
    "cl' = cl[me := (cl ! me)\<lparr>rp_state := st'\<rparr>]"
    by (auto simp: promote_replica_def on_replica_eq)
  with ok promote_ok [of me "rp_state (cl ! me)" st'] cluster_ok_self [OF ok me(1)] show ?thesis
    by (auto simp: cluster_ok_iff)
qed

lemma promote_replica_ok:
  assumes ok: "cluster_ok rs cs cl" and run: "promote_replica me cl = Inr cl'"
  shows "cluster_ok rs cs cl'" and "vc_view (rp_state (cl' ! me)) = view_of rs cs me"
    and "isLeader (rp_state (cl' ! me))"
proof -
  note E = promote_replica_effect [OF ok run]
  then have me: "me < length rs" using ok by (simp add: cluster_ok_iff)
  have "replica_ok rs cs me ((rp_state (cl ! me))\<lparr>isLeader := True, vc_view := view_of rs cs me\<rparr>)"
    using ok me by (intro replica_ok_view) (auto simp: cluster_ok_iff)
  then have "replica_ok rs cs me ((rp_state (cl ! me))
      \<lparr>isLeader := True, vc_view := view_of rs cs me, vc_mode := VC_ACTIVE\<rparr>)"
    by (rule replica_ok_cong) simp_all
  with E ok show "cluster_ok rs cs cl'" by (auto intro!: cluster_ok_update)
  show "vc_view (rp_state (cl' ! me)) = view_of rs cs me" "isLeader (rp_state (cl' ! me))"
    using E by simp_all
qed

end

context px_config begin

lemma view_broadcast_ok:
  assumes ok: "cluster_ok rs cs cl" and me: "me < length cl"
    and 1: "replicateView link run me (view_request rs cs me) cl = Inr cl1"
  shows "cluster_ok rs cs cl1"
proof -
  have len: "length cl = length rs" using ok by (simp add: cluster_ok_iff)
  note E = replicateView_effect [OF ok me _ 1]
  have "replica_ok rs cs i (rp_state (cl1 ! i))" if i: "i < length rs" for i
  proof (cases "i = me")
    case True
    with E ok me len show ?thesis by (auto simp: cluster_ok_iff)
  next
    case False
    have "replica_ok rs cs i ((rp_state (cl ! i))\<lparr>isLeader := False, vc_view := view_of rs cs me\<rparr>)"
      using ok i me len False by (intro replica_ok_view) (auto simp: cluster_ok_iff)
    with False E ok i len me show ?thesis by (auto simp: cluster_ok_iff)
  qed
  with E me len show ?thesis by (auto simp: cluster_ok_iff)
qed

lemma announce_states:
  assumes ok: "cluster_ok rs cs cl" and me: "me < length cl"
    and view: "vc_view (rp_state (cl ! me)) = view_of rs cs me"
    and run: "announce link run boot me cl = Inr cl'"
  shows "length cl' = length cl \<and> (\<forall>i < length cl. rp_state (cl' ! i) =
    (if i = me then (rp_state (cl ! i))\<lparr>isInitialized := True\<rparr>
     else if link me i then (rp_state (cl ! i))\<lparr>isLeader := False, vc_view := view_of rs cs me\<rparr>
     else rp_state (cl ! i)))"
    and "cluster_ok rs cs cl'"
proof -
  have len: "length cl = length rs" using ok by (simp add: cluster_ok_iff)
  from run me view obtain cl1 where
    1: "replicateView link run me (view_request rs cs me) cl = Inr cl1"
    and 2: "initializeLeader link run boot me cl1 = Inr cl'"
    by (auto simp: announce_def view_request_def)
  note E = replicateView_effect [OF ok me _ 1]
  have ok1: "cluster_ok rs cs cl1" by (rule view_broadcast_ok [OF ok me 1])
  show "cluster_ok rs cs cl'" by (rule initializeLeader_ok [OF ok1 2])
  show "length cl' = length cl \<and> (\<forall>i < length cl. rp_state (cl' ! i) =
    (if i = me then (rp_state (cl ! i))\<lparr>isInitialized := True\<rparr>
     else if link me i then (rp_state (cl ! i))\<lparr>isLeader := False, vc_view := view_of rs cs me\<rparr>
     else rp_state (cl ! i)))"
    using initializeLeader_states [OF ok1 2] E me len by auto
qed

lemma init_view_ok:
  assumes ok: "cluster_ok rs cs cl" and run: "init_view link run boot k cl = Inr (b, cl')"
  shows "cluster_ok rs cs cl'"
proof (cases "isLeader (rp_state (cl ! k))")
  case True
  with run ok show ?thesis by (auto simp: init_view_def)
next
  case False
  with run obtain cl1 where 1: "promote_replica k cl = Inr cl1" "announce link run boot k cl1 = Inr cl'"
    by (auto simp: init_view_def)
  note P = promote_replica_ok [OF ok 1(1)]
  have "k < length cl1" using promote_replica_effect [OF ok 1(1)] by simp
  from announce_states(2) [OF P(1) this P(2) 1(2)] show ?thesis .
qed

lemma newLeaderRank_bound:
  assumes "newLeaderRank link st res is = Inr k" and "res < length rs" and "set is \<subseteq> {..<length rs}"
  shows "k < length rs"
  using assms
proof (induction "is" arbitrary: res)
  case (Cons i "is")
  then show ?case by (auto split: if_splits)
qed simp

lemma getNewLeaderRank_bound:
  assumes "replica_ok rs cs k st" "k < length rs" "getNewLeaderRank link st = Inr j"
  shows "j < length rs"
  using assms replica_okD(1,2) [OF assms(1)]
  by (auto simp: getNewLeaderRank_def atLeast0LessThan intro: newLeaderRank_bound)

lemma NotifyNewLeader_ok:
  assumes ok: "cluster_ok rs cs cl" and run: "NotifyNewLeader link run boot me cl = Inr (b, cl')"
  shows "cluster_ok rs cs cl'"
    and "b \<Longrightarrow> me < length cl' \<and> vc_view (rp_state (cl' ! me)) = view_of rs cs me"
proof -
  have len: "length cl = length rs" using ok by (simp add: cluster_ok_iff)
  from run obtain rank where me: "me < length cl"
    and rank: "getNewLeaderRank link (rp_state (cl ! me)) = Inr rank"
    by (auto simp: NotifyNewLeader_def)
  have self: "self_rank (rp_state (cl ! me)) = me" by (rule cluster_ok_self [OF ok me])
  have rok: "replica_ok rs cs me (rp_state (cl ! me))" using ok me len by (simp add: cluster_ok_iff)
  have "cluster_ok rs cs cl' \<and> (b \<longrightarrow> me < length cl' \<and> vc_view (rp_state (cl' ! me)) = view_of rs cs me)"
  proof (cases "rank = me")
    case True
    with run me rank self have "promote_replica me cl = Inr cl'" by (auto simp: NotifyNewLeader_def)
    from promote_replica_ok [OF ok this] promote_replica_effect [OF ok this] show ?thesis by simp
  next
    case False
    have "rank < length rs" by (rule getNewLeaderRank_bound [OF rok _ rank]) (use me len in simp)
    from run me rank self False obtain su cl1 a c cl2 where
      1: "init_view link run boot rank cl = Inr (su, cl1)"
      and ac: "getReplicaAddress (rp_state (cl ! me)) rank = Inr a"
        "getClientUseAddress (rp_state (cl ! me)) rank = Inr c"
      and 2: "set_state me (\<lambda>st. if su then st else st\<lparr>isLeader := False,
           vc_view := (vc_view st)\<lparr>vw_primary := \<lparr>co_id = a, co_addr = c\<rparr>\<rparr>\<rparr>) cl1 = Inr cl2"
      and 3: "set_state me (\<lambda>st. st\<lparr>vc_mode := VC_ACTIVE\<rparr>) cl2 = Inr cl'" and b: "\<not> b"
      by (auto simp: NotifyNewLeader_def)
    have ok1: "cluster_ok rs cs cl1" by (rule init_view_ok [OF ok 1])
    have rok1: "replica_ok rs cs me (rp_state (cl1 ! me))" using ok1 me len by (simp add: cluster_ok_iff)
    have view: "(vc_view (rp_state (cl1 ! me)))\<lparr>vw_primary := \<lparr>co_id = a, co_addr = c\<rparr>\<rparr> = view_of rs cs rank"
      using replica_okD(5) [OF rok1] ac replica_okD(3,4) [OF rok] \<open>rank < length rs\<close>
      by (auto simp: view_of_def getReplicaAddress_def getClientUseAddress_def)
    have "replica_ok rs cs me ((rp_state (cl1 ! me))\<lparr>isLeader := False, vc_view := view_of rs cs rank\<rparr>)"
      using rok1 \<open>rank < length rs\<close> False by (intro replica_ok_view) auto
    then have ok2: "cluster_ok rs cs cl2"
      using rok1 view by (intro set_state_ok [OF ok1 2]) auto
    have "replica_ok rs cs me (rp_state (cl2 ! me))" using ok2 me len by (simp add: cluster_ok_iff)
    then have "cluster_ok rs cs cl'"
      by (intro set_state_ok [OF ok2 3]) (auto intro: replica_ok_cong)
    with b show ?thesis by simp
  qed
  then show "cluster_ok rs cs cl'"
    and "b \<Longrightarrow> me < length cl' \<and> vc_view (rp_state (cl' ! me)) = view_of rs cs me" by auto
qed

lemma change_view_step_ok:
  assumes ok: "cluster_ok rs cs cl" and run: "change_view_step link run boot me cl = Inr cl'"
  shows "cluster_ok rs cs cl'"
proof (cases "vc_mode (rp_state (cl ! me)) = VC_MANAGER")
  case True
  with run obtain b cl1 where 1: "NotifyNewLeader link run boot me cl = Inr (b, cl1)"
    and 2: "if b then announce link run boot me cl1 = Inr cl' else cl' = cl1"
    by (fastforce simp: change_view_step_def split: if_splits)
  note N = NotifyNewLeader_ok [OF ok 1]
  show ?thesis
  proof (cases b)
    case True
    with N 2 show ?thesis by (auto intro: announce_states(2))
  next
    case False
    with N 2 show ?thesis by simp
  qed
next
  case False
  with run have "cl' = cl \<or> set_state me (\<lambda>st. st\<lparr>vc_mode := VC_MANAGER\<rparr>) cl = Inr cl'"
    by (auto simp: change_view_step_def split: if_splits)
  moreover have "replica_ok rs cs me ((rp_state (cl ! me))\<lparr>vc_mode := VC_MANAGER\<rparr>)" if "me < length cl"
    using ok that by (auto simp: cluster_ok_iff intro: replica_ok_cong)
  ultimately show ?thesis using ok set_state_ok [OF ok] by blast
qed

lemma start_cluster_ok: "cluster_ok rs cs (start_cluster rs cs s)"
  by (simp add: cluster_ok_iff start_cluster_def replica_ok_def)

lemma px_reach_ok: "px_reach run boot (start_cluster rs cs s) cl \<Longrightarrow> cluster_ok rs cs cl"
  by (induction rule: px_reach.induct) (auto intro: start_cluster_ok change_view_step_ok execute_ok)

text \<open>In every such state the assertions of \<open>isLeaderDown\<close> and \<open>getReplicaClient\<close> hold.\<close>

lemma isLeaderDown_total:
  assumes ok: "replica_ok rs cs k st"
  shows "isLeaderDown link st = Inr (\<not> isLeader st \<and> (vc_view st = empty_view
     \<or> (\<exists>j < length rs. vc_view st = view_of rs cs j \<and> \<not> link k j)))"
proof (cases "isLeader st \<or> vc_view st = empty_view")
  case True
  then show ?thesis by (auto simp: isLeaderDown_def empty_view_def)
next
  case False
  with replica_okD(5) [OF ok] obtain j where j: "j < length rs" "vc_view st = view_of rs cs j" "j \<noteq> k"
    by auto
  have "getClientUseAddressRank st (cs ! j) = int j"
    using replica_okD(4) [OF ok] find_index_nth [OF cfg_distinct, of j] j(1) cfg_len
    by (simp add: getClientUseAddressRank_def)
  with False j cfg_nonempty [OF j(1)] replica_okD(1,2) [OF ok] view_of_inj [OF j(1)] show ?thesis
    by (auto simp: isLeaderDown_def getReplicaClient_def view_of_def [of rs cs j] Let_def)
qed

end

text \<open>
  The command that initialises a new leader runs on its store and on those it reaches, and changes
  no other.
\<close>

definition boot_runs :: "link \<Rightarrow> 's run_fn \<Rightarrow> byte list option \<Rightarrow> nat \<Rightarrow> 's cluster \<Rightarrow> bool" where
  "boot_runs link run boot k cl \<longleftrightarrow> (case boot of None \<Rightarrow> True
     | Some request \<Rightarrow> \<forall>i < length cl. i = k \<or> link k i \<longrightarrow> (\<exists>x s. run request (rp_store (cl ! i)) = Inr (x, s)))"

definition boot_effect :: "link \<Rightarrow> 's run_fn \<Rightarrow> byte list option \<Rightarrow> nat \<Rightarrow> 's cluster \<Rightarrow> 's cluster \<Rightarrow> bool" where
  "boot_effect link run boot k cl cl' \<longleftrightarrow> (\<forall>i < length cl. case boot of
       Some request \<Rightarrow> if i = k \<or> link k i then \<exists>x. run request (rp_store (cl ! i)) = Inr (x, rp_store (cl' ! i))
         else rp_store (cl' ! i) = rp_store (cl ! i)
     | None \<Rightarrow> rp_store (cl' ! i) = rp_store (cl ! i))"

context px_config begin

lemma newLeaderRank_least:
  assumes "sorted is" "set is \<subseteq> {..<length rs}" "replica_ok rs cs k st"
  shows "\<exists>r. newLeaderRank link st k is = Inr r \<and> (r = k \<or> r < k \<and> r \<in> set is \<and> link k r)
    \<and> (\<forall>i \<in> set is. i \<noteq> k \<and> link k i \<longrightarrow> r \<le> i)"
  using assms
proof (induction "is")
  case Nil
  then show ?case by simp
next
  case (Cons i "is")
  note st = replica_okD(1,2) [OF Cons.prems(3)]
  from Cons obtain r where IH: "newLeaderRank link st k is = Inr r"
    "r = k \<or> r < k \<and> r \<in> set is \<and> link k r" "\<forall>i \<in> set is. i \<noteq> k \<and> link k i \<longrightarrow> r \<le> i" by auto
  show ?case
  proof (cases "i \<noteq> k \<and> link k i")
    case True
    with Cons.prems st show ?thesis
      by (auto simp: getReplicaClient_def intro!: exI [of _ "if i < k then i else k"])
  next
    case False
    with Cons.prems st IH show ?thesis by (auto simp: getReplicaClient_def)
  qed
qed

lemma getNewLeaderRank_least:
  assumes "replica_ok rs cs k st"
  shows "\<exists>r. getNewLeaderRank link st = Inr r \<and> (r = k \<or> r < k \<and> link k r)
    \<and> (\<forall>i < length rs. i \<noteq> k \<and> link k i \<longrightarrow> r \<le> i)"
proof -
  have "sorted [0..<length rs]" "set [0..<length rs] \<subseteq> {..<length rs}" by auto
  from newLeaderRank_least [OF this assms, of link] replica_okD(1,2) [OF assms] show ?thesis
    by (auto simp: getNewLeaderRank_def)
qed

lemma promote_replica_total:
  assumes ok: "cluster_ok rs cs cl" and k: "k < length cl"
  shows "\<exists>cl'. promote_replica k cl = Inr cl'"
proof -
  have r: "replica_ok rs cs k (rp_state (cl ! k))" and "k < length rs"
    using ok k by (auto simp: cluster_ok_iff)
  with replica_okD(1,3,4) [OF r] cfg_len show ?thesis
    by (auto simp: promote_replica_def on_replica_def promote_def at_Inr getReplicaAddress_def
        getClientUseAddress_def k)
qed

lemma boot_stores:
  assumes "length cl1 = length cl" "\<And>i. i < length cl \<Longrightarrow> rp_store (cl1 ! i) = rp_store (cl ! i)"
  shows "boot_runs link run boot k cl1 = boot_runs link run boot k cl" "boot_effect link run boot k cl1 cl' = boot_effect link run boot k cl cl'"
  using assms by (auto simp: boot_runs_def boot_effect_def split: option.splits)

lemma send_command_total:
  assumes "distinct is" "set is \<subseteq> {..<length rs}" "length cl = length rs" "self_rank (rp_state (cl ! me)) = me"
    "max_num_client (rp_state (cl ! me)) = int (length rs)" "me < length rs"
    "\<And>i. i \<in> set is \<Longrightarrow> i \<noteq> me \<Longrightarrow> link me i \<Longrightarrow> \<exists>x s. run request (rp_store (cl ! i)) = Inr (x, s)"
  shows "\<exists>cl'. send_all link run me (new_replicate_arg 1 request) is cl = Inr cl'"
  using assms
proof (induction "is" arbitrary: cl)
  case (Cons i "is")
  show ?case
  proof (cases "i \<noteq> me \<and> link me i")
    case False
    with Cons show ?thesis by (auto simp: getReplicaClient_def at_Inr)
  next
    case True
    with Cons.prems(7) [of i] obtain x s where x: "run request (rp_store (cl ! i)) = Inr (x, s)" by auto
    have "\<exists>cl'. send_all link run me (new_replicate_arg 1 request) is (cl[i := (cl ! i)\<lparr>rp_store := s\<rparr>]) = Inr cl'"
    proof (rule Cons.IH)
      fix j assume "j \<in> set is" "j \<noteq> me" "link me j"
      with Cons.prems(1) Cons.prems(7) [of j] show "\<exists>x s'. run request (rp_store (cl[i := (cl ! i)\<lparr>rp_store := s\<rparr>] ! j)) = Inr (x, s')"
        by (cases "j = i") auto
    qed (use Cons.prems True in auto)
    moreover have "replicate_call run (new_replicate_arg 1 request) (cl ! i) = Inr (None, (cl ! i)\<lparr>rp_store := s\<rparr>)"
      using x by (simp add: command_call)
    ultimately show ?thesis using Cons.prems True by (auto simp: getReplicaClient_def at_Inr on_replica_def)
  qed
qed simp

lemma execute_total:
  assumes ok: "cluster_ok rs cs cl" and k: "k < length cl" "isLeader (rp_state (cl ! k))" and runs: "boot_runs link run (Some (ea_request arg)) k cl"
  shows "\<exists>reply cl'. execute link run k arg cl = Inr (Er_reply reply, cl')"
proof -
  have len: "length cl = length rs" using ok by (simp add: cluster_ok_iff)
  have "\<exists>cl1. send_all link run k (new_replicate_arg 1 (ea_request arg)) [0..<length rs] cl = Inr cl1"
    using cluster_ok_self [OF ok k(1)] cluster_ok_max [OF ok k(1)] k(1) len runs by (intro send_command_total) (auto simp: boot_runs_def)
  then obtain cl1 where 1: "send_all link run k (new_replicate_arg 1 (ea_request arg)) [0..<length rs] cl = Inr cl1" by blast
  from send_all_effect [OF 1 _ k(1) cluster_ok_self [OF ok k(1)]] have e: "length cl1 = length cl" "cl1 ! k = cl ! k" by simp_all
  obtain x s where "run (ea_request arg) (rp_store (cl ! k)) = Inr (x, s)" using runs k(1) by (auto simp: boot_runs_def)
  with 1 e k show ?thesis
    by (simp add: execute_def replicateCommand_def at_Inr all_ranks_ok [OF ok k(1)] on_replica_def lift_px_run_def)
qed

lemma initializeLeader_total:
  assumes ok: "cluster_ok rs cs cl" and k: "k < length cl" "isLeader (rp_state (cl ! k))" and runs: "boot_runs link run boot k cl"
  shows "\<exists>cl'. initializeLeader link run boot k cl = Inr cl' \<and> boot_effect link run boot k cl cl'"
proof (cases boot)
  case None
  then show ?thesis using k by (simp add: initializeLeader_def set_state_def on_replica_def at_Inr boot_effect_def nth_list_update)
next
  case (Some request)
  let ?arg = "new_execute_arg\<lparr>ea_request := request\<rparr>"
  have runs': "boot_runs link run (Some (ea_request ?arg)) k cl" using runs Some by simp
  obtain reply cl1 where 1: "execute link run k ?arg cl = Inr (Er_reply reply, cl1)"
    using execute_total [OF ok k runs'] by blast
  then have "replicateCommand link run k request cl = Inr (reply, cl1)" using k by (auto simp: execute_def at_Inr)
  from replicateCommand_effect [OF ok k(1) this] have "length cl1 = length cl" "boot_effect link run boot k cl cl1"
    using Some by (auto simp: boot_effect_def split: if_splits)
  with 1 k Some show ?thesis
    by (simp add: initializeLeader_def set_state_def on_replica_def at_Inr boot_effect_def nth_list_update)
qed

lemma announce_total:
  assumes ok: "cluster_ok rs cs cl" and k: "k < length cl" "isLeader (rp_state (cl ! k))"
    and view: "vc_view (rp_state (cl ! k)) = view_of rs cs k" and runs: "boot_runs link run boot k cl"
  shows "\<exists>cl'. announce link run boot k cl = Inr cl' \<and> boot_effect link run boot k cl cl'"
proof -
  have len: "length cl = length rs" "k < length rs" using ok k by (simp_all add: cluster_ok_iff)
  from replicateView_total [OF ok k(1) len(2), of link run] obtain cl1 where
    1: "replicateView link run k (view_request rs cs k) cl = Inr cl1" by blast
  note E = replicateView_effect [OF ok k(1) len(2) 1]
  have "rp_store (cl1 ! i) = rp_store (cl ! i)" if "i < length cl" for i using E that by (cases "i = k") auto
  with E have B: "boot_runs link run boot k cl1" "boot_effect link run boot k cl1 cl' = boot_effect link run boot k cl cl'" for cl'
    using boot_stores [of cl1 cl] runs by auto
  have "cluster_ok rs cs cl1" using view_broadcast_ok [OF ok k(1) 1] .
  from initializeLeader_total [OF this _ _ B(1)] E k B(2) 1 view show ?thesis
    by (auto simp: announce_def at_Inr view_request_def [symmetric])
qed

text \<open>
  A candidate that can not reach the leader of its view, nor any replica of lower rank, takes
  the lead, and every replica it reaches follows it.
\<close>

lemma takeover:
  assumes ok: "cluster_ok rs cs cl" and k: "k < length cl"
    and mode: "vc_mode (rp_state (cl ! k)) = VC_MANAGER"
    and down: "isLeaderDown link (rp_state (cl ! k)) = Inr True"
    and low: "\<forall>i < k. \<not> link k i" and runs: "boot_runs link run boot k cl"
  obtains cl' where "change_view_step link run boot k cl = Inr cl'" "cluster_ok rs cs cl'"
    "length cl' = length cl" "isLeader (rp_state (cl' ! k))" "isInitialized (rp_state (cl' ! k))"
    "\<And>i. i < length cl \<Longrightarrow> i \<noteq> k \<Longrightarrow> rp_state (cl' ! i) =
       (if link k i then (rp_state (cl ! i))\<lparr>isLeader := False, vc_view := view_of rs cs k\<rparr>
        else rp_state (cl ! i))" "boot_effect link run boot k cl cl'"
proof -
  have r: "replica_ok rs cs k (rp_state (cl ! k))" using ok k by (simp add: cluster_ok_iff)
  note self = replica_okD(1) [OF r]
  obtain c where c: "getNewLeaderRank link (rp_state (cl ! k)) = Inr c" "c = k \<or> c < k \<and> link k c"
    using getNewLeaderRank_least [OF r] by blast
  with low have c: "getNewLeaderRank link (rp_state (cl ! k)) = Inr k" by auto
  obtain cl1 where 1: "promote_replica k cl = Inr cl1" using promote_replica_total [OF ok k] by blast
  note P = promote_replica_ok [OF ok 1] and E = promote_replica_effect [OF ok 1]
  have k1: "k < length cl1" using E by simp
  have "rp_store (cl1 ! i) = rp_store (cl ! i)" for i using E by (auto simp: nth_list_update)
  with E have B: "boot_runs link run boot k cl1" "boot_effect link run boot k cl1 cl' = boot_effect link run boot k cl cl'" for cl'
    using boot_stores [of cl1 cl] runs by auto
  obtain cl' where 2: "announce link run boot k cl1 = Inr cl'" "boot_effect link run boot k cl1 cl'"
    using announce_total [OF P(1) k1 P(3,2) B(1)] by blast
  note A = announce_states [OF P(1) k1 P(2) 2(1)]
  have "change_view_step link run boot k cl = Inr cl'"
    using k mode down c self 1 2(1) by (simp add: change_view_step_def NotifyNewLeader_def at_Inr)
  then show thesis using A E P 2(2) B(2) by (intro that [of cl']) auto
qed

lemma reached_candidate_aborts:
  assumes ok: "cluster_ok rs cs cl" and i: "i < length cl" "k < length rs" "link i k"
    and st: "vc_mode (rp_state (cl ! i)) = VC_MANAGER" "\<not> isLeader (rp_state (cl ! i))"
      "vc_view (rp_state (cl ! i)) = view_of rs cs k"
  shows "change_view_step link run boot i cl = Inl Px_assert"
proof -
  have r: "replica_ok rs cs i (rp_state (cl ! i))" using ok i by (simp add: cluster_ok_iff)
  have "isLeaderDown link (rp_state (cl ! i)) = Inr False"
    using isLeaderDown_total [OF r, of link] st i view_of_nonempty [of k] view_of_inj [of k] by auto
  with i st show ?thesis by (simp add: change_view_step_def NotifyNewLeader_def at_Inr)
qed

end

text \<open>The cluster of \<open>src/paxos/config.txt\<close>.\<close>

definition config_replicas :: "string list" where
  "config_replicas = [''localhost:8111'', ''localhost:8333'', ''localhost:8555'', ''localhost:8777'',
     ''localhost:8999'']"

definition config_clients :: "string list" where
  "config_clients = [''localhost:4004'', ''localhost:8444'', ''localhost:8666'', ''localhost:8888'',
     ''localhost:8000'']"

interpretation config_txt: px_config config_replicas config_clients
  by unfold_locales (simp add: config_ok_def config_replicas_def config_clients_def)

section \<open>Properties\<close>

lemmas px = px_config.intro

lemma config_txt_ok: "config_ok config_replicas config_clients"
  by (rule config_txt.cfg)

text \<open>C24: In every state a cluster can reach from its start, whatever connections come and go, each
  replica's view is empty or names a replica of the configuration, a replica is leader exactly
  when its view names itself, and the assertions of \<open>isLeaderDown\<close> (the leader of the view is a
  known address, its rank is that of another replica) hold.\<close>

theorem reachable_cluster:
  assumes "config_ok rs cs" and "px_reach run boot (start_cluster rs cs s) cl" and "k < length cl"
  shows "cluster_ok rs cs cl \<and> (\<exists>down. isLeaderDown link (rp_state (cl ! k)) = Inr down)"
proof -
  have ok: "cluster_ok rs cs cl" by (rule px_config.px_reach_ok [OF px [OF assms(1)] assms(2)])
  with assms(3) have "replica_ok rs cs k (rp_state (cl ! k))"
    by (simp add: px_config.cluster_ok_iff [OF px [OF assms(1)]])
  from px_config.isLeaderDown_total [OF px [OF assms(1)] this] ok show ?thesis by blast
qed

theorem reachable_cluster_witness:
  "cluster_ok config_replicas config_clients (start_cluster config_replicas config_clients ())
   \<and> (\<exists>down. isLeaderDown (\<lambda>_ _. True)
        (rp_state (start_cluster config_replicas config_clients () ! 2)) = Inr down)"
  by (rule reachable_cluster [OF config_txt_ok px_reach.start [of "\<lambda>_ s. Inr ([], s)" None]])
    (simp add: start_cluster_def config_replicas_def)

text \<open>The new leader that a replica chooses is itself or a connected replica of lower rank, and
  no connected replica has a lower rank than the chosen one.\<close>

theorem new_leader_has_least_rank:
  assumes "config_ok rs cs" and "replica_ok rs cs k st"
  shows "\<exists>r. getNewLeaderRank link st = Inr r \<and> (r = k \<or> r < k \<and> link k r)
    \<and> (\<forall>i < length rs. i \<noteq> k \<and> link k i \<longrightarrow> r \<le> i)"
  using px_config.getNewLeaderRank_least [OF px [OF assms(1)] assms(2)] .

theorem new_leader_has_least_rank_witness:
  "\<exists>r. getNewLeaderRank (\<lambda>_ i. i = 1) (rp_state (start_cluster config_replicas config_clients () ! 2)) = Inr r
    \<and> (r = 2 \<or> r < 2 \<and> (\<lambda>_ i. i = 1) (2 :: nat) r)
    \<and> (\<forall>i < length config_replicas. i \<noteq> 2 \<and> (\<lambda>_ i. i = 1) (2 :: nat) i \<longrightarrow> r \<le> i)"
  by (rule new_leader_has_least_rank [OF config_txt_ok])
    (simp add: replica_ok_def start_cluster_def config_replicas_def)

text \<open>C25: A candidate that has lost its leader and reaches no replica of lower rank takes the lead in
  one iteration of its loop: it is leader and initialised, every replica it reaches follows its
  view, and every other replica is as before. The command with which the leader initialises itself
  (\<open>GET_STATES\<close> in the server; there may be none) is run on its store and, through the replication, on
  those of the replicas it reaches; it is assumed to run there, and no other store changes.\<close>

theorem candidate_takes_over:
  assumes "config_ok rs cs" and "cluster_ok rs cs cl" and "k < length cl"
    and "vc_mode (rp_state (cl ! k)) = VC_MANAGER"
    and "isLeaderDown link (rp_state (cl ! k)) = Inr True" and "\<forall>i < k. \<not> link k i"
    and "\<forall>request i. boot = Some request \<longrightarrow> i < length cl \<longrightarrow> i = k \<or> link k i \<longrightarrow> (\<exists>x s. run request (rp_store (cl ! i)) = Inr (x, s))"
  shows "\<exists>cl'. change_view_step link run boot k cl = Inr cl' \<and> cluster_ok rs cs cl'
    \<and> isLeader (rp_state (cl' ! k)) \<and> isInitialized (rp_state (cl' ! k))
    \<and> (\<forall>i < length cl. i \<noteq> k \<longrightarrow> rp_state (cl' ! i) =
         (if link k i then (rp_state (cl ! i))\<lparr>isLeader := False, vc_view := view_of rs cs k\<rparr>
          else rp_state (cl ! i)))
    \<and> (\<forall>i < length cl. case boot of
         Some request \<Rightarrow> if i = k \<or> link k i then \<exists>x. run request (rp_store (cl ! i)) = Inr (x, rp_store (cl' ! i))
           else rp_store (cl' ! i) = rp_store (cl ! i)
       | None \<Rightarrow> rp_store (cl' ! i) = rp_store (cl ! i))"
proof -
  have "boot_runs link run boot k cl" using assms(7) by (auto simp: boot_runs_def split: option.split)
  then show ?thesis
  proof (rule px_config.takeover [OF px [OF assms(1)] assms(2-6)])
    fix cl' assume T: "change_view_step link run boot k cl = Inr cl'" "cluster_ok rs cs cl'"
      "isLeader (rp_state (cl' ! k))" "isInitialized (rp_state (cl' ! k))"
      "\<And>i. i < length cl \<Longrightarrow> i \<noteq> k \<Longrightarrow> rp_state (cl' ! i) =
         (if link k i then (rp_state (cl ! i))\<lparr>isLeader := False, vc_view := view_of rs cs k\<rparr> else rp_state (cl ! i))"
      "boot_effect link run boot k cl cl'"
    show ?thesis by (intro exI [of _ cl'] conjI allI impI T(1-4) T(5) T(6) [unfolded boot_effect_def, rule_format])
  qed
qed

lemma start_takeover:
  assumes "config_ok rs cs" "k < length rs"
  shows "cluster_ok rs cs (start_cluster rs cs s)" "k < length (start_cluster rs cs s)"
    "vc_mode (rp_state (start_cluster rs cs s ! k)) = VC_MANAGER"
    "isLeaderDown link (rp_state (start_cluster rs cs s ! k)) = Inr True"
  using assms px_config.start_cluster_ok [OF px [OF assms(1)]]
  by (auto simp: start_cluster_def isLeaderDown_def empty_view_def)

theorem candidate_takes_over_witness:
  "\<exists>cl'. change_view_step (\<lambda>_ _. True) (\<lambda>b s. Inr ([], s @ [b])) (Some ''all'') 0
        (start_cluster config_replicas config_clients []) = Inr cl'
    \<and> isLeader (rp_state (cl' ! 0)) \<and> isInitialized (rp_state (cl' ! 0)) \<and> rp_store (cl' ! 0) = [''all''] \<and> rp_store (cl' ! 4) = [''all'']"
proof -
  have n: "0 < length config_replicas" by (simp add: config_replicas_def)
  note S = start_takeover [where s = "[]", OF config_txt_ok n]
  have e: "rp_store (start_cluster config_replicas config_clients [] ! 0) = []" "rp_store (start_cluster config_replicas config_clients [] ! 4) = []"
    "length (start_cluster config_replicas config_clients []) = 5"
    by (simp_all add: start_cluster_def config_replicas_def)
  from candidate_takes_over [OF config_txt_ok S, where link = "\<lambda>_ _. True" and run = "\<lambda>b s. Inr ([], s @ [b])" and boot = "Some ''all''"]
  obtain cl' where c: "change_view_step (\<lambda>_ _. True) (\<lambda>b s. Inr ([], s @ [b])) (Some ''all'') 0 (start_cluster config_replicas config_clients []) = Inr cl'"
    "isLeader (rp_state (cl' ! 0))" "isInitialized (rp_state (cl' ! 0))"
    "\<And>i. i < 5 \<Longrightarrow> rp_store (cl' ! i) = rp_store (start_cluster config_replicas config_clients [] ! i) @ [''all'']"
    unfolding e(3) by auto
  from c(4) [of 0] c(4) [of 4] c(1-3) e show ?thesis by auto
qed

text \<open>C3: A command that the leader executes reaches the store of the leader and of every connected
  replica, and no other; the states of the replicas stay as they are. When all are connected and
  the stores were equal they are equal afterwards, and the reply is that of the store.\<close>

theorem execute_replicates:
  assumes "config_ok rs cs" and "cluster_ok rs cs cl" and "execute link run k arg cl = Inr (Er_reply reply, cl')"
  shows "run (ea_request arg) (rp_store (cl ! k)) = Inr (reply, rp_store (cl' ! k))
    \<and> (\<forall>i < length cl. i \<noteq> k \<longrightarrow> (if link k i
         then \<exists>x. run (ea_request arg) (rp_store (cl ! i)) = Inr (x, rp_store (cl' ! i))
         else rp_store (cl' ! i) = rp_store (cl ! i)))
    \<and> ((\<forall>i < length cl. rp_store (cl ! i) = s \<and> (i \<noteq> k \<longrightarrow> link k i)) \<longrightarrow>
        (\<forall>i < length cl. run (ea_request arg) s = Inr (reply, rp_store (cl' ! i))))"
proof -
  from assms(3) have k: "k < length cl" and c: "replicateCommand link run k (ea_request arg) cl = Inr (reply, cl')"
    by (auto simp: execute_def split: if_splits)
  from px_config.replicateCommand_effect [OF px [OF assms(1)] assms(2) k c]
  have E: "\<And>i. i < length cl \<Longrightarrow> if i = k then run (ea_request arg) (rp_store (cl ! i)) = Inr (reply, rp_store (cl' ! i))
       else if link k i then \<exists>x. run (ea_request arg) (rp_store (cl ! i)) = Inr (x, rp_store (cl' ! i))
       else rp_store (cl' ! i) = rp_store (cl ! i)" by blast
  have "run (ea_request arg) s = Inr (reply, rp_store (cl' ! i))"
    if "\<forall>i < length cl. rp_store (cl ! i) = s \<and> (i \<noteq> k \<longrightarrow> link k i)" "i < length cl" for i
    using E [OF k] E [OF that(2)] that k by (auto split: if_splits)
  with E [OF k] E show ?thesis by auto
qed

definition one_leader :: "unit cluster" where
  "one_leader = (start_cluster [''a:1'', ''b:1''] [''a:2'', ''b:2''] ())[0 :=
     \<lparr>rp_state = (rp_state (start_cluster [''a:1'', ''b:1''] [''a:2'', ''b:2''] () ! 0))
        \<lparr>isLeader := True, vc_view := view_of [''a:1'', ''b:1''] [''a:2'', ''b:2''] 0, vc_mode := VC_ACTIVE\<rparr>,
      rp_store = ()\<rparr>]"

lemma one_leader_ok: "cluster_ok [''a:1'', ''b:1''] [''a:2'', ''b:2''] one_leader"
  by (simp add: cluster_ok_def one_leader_def start_cluster_def replica_ok_def upt_rec)

theorem execute_replicates_witness:
  "\<exists>reply cl'. execute (\<lambda>_ _. True) (\<lambda>_ s. Inr (''ok'', s)) 0 new_execute_arg one_leader = Inr (Er_reply reply, cl')
    \<and> (\<lambda>_ s. Inr (''ok'', s)) (ea_request new_execute_arg) (rp_store (one_leader ! 0)) = (Inr (reply, rp_store (cl' ! 0)) :: rs_error + (byte list \<times> unit))"
proof -
  have c: "config_ok [''a:1'', ''b:1''] [''a:2'', ''b:2'']" by (simp add: config_ok_def)
  obtain reply cl' where e: "execute (\<lambda>_ _. True) (\<lambda>_ s. Inr (''ok'', s)) 0 new_execute_arg one_leader
      = Inr (Er_reply reply, cl')"
    by (simp add: execute_def replicateCommand_def all_ranks_def at_def one_leader_def start_cluster_def
        upt_rec getReplicaClient_def on_replica_def replicate_call_def new_replicate_arg_def no_viewstamp_def)
  from execute_replicates [OF c one_leader_ok e] e show ?thesis by blast
qed

text \<open>A leader answers a command even when it reaches no other replica: there is no quorum, and
  the command is then known to the leader alone.\<close>

theorem no_quorum_needed:
  assumes "config_ok rs cs" and "cluster_ok rs cs cl" and "k < length cl"
    and "isLeader (rp_state (cl ! k))" and "run (ea_request arg) (rp_store (cl ! k)) = Inr (reply, s)"
  shows "execute (\<lambda>_ _. False) run k arg cl
    = Inr (Er_reply reply, cl[k := (cl ! k)\<lparr>rp_store := s\<rparr>])"
proof -
  note C = px [OF assms(1)]
  have "send_all (\<lambda>_ _. False) run k a is cl = Inr cl" if "set is \<subseteq> {..<length rs}" for a "is"
    using that px_config.cluster_ok_self [OF C assms(2,3)] px_config.cluster_ok_max [OF C assms(2,3)]
    by (induction "is") (auto simp: at_Inr assms(3) getReplicaClient_def)
  then show ?thesis
    using assms(3-5) px_config.all_ranks_ok [OF C assms(2,3)]
    by (simp add: execute_def at_Inr replicateCommand_def on_replica_def atLeast0LessThan)
qed

theorem no_quorum_needed_witness:
  "execute (\<lambda>_ _. False) (\<lambda>_ s. Inr (''ok'', s)) 0 new_execute_arg one_leader
    = Inr (Er_reply ''ok'', one_leader[0 := (one_leader ! 0)\<lparr>rp_store := ()\<rparr>])"
  by (rule no_quorum_needed [OF _ one_leader_ok])
    (simp_all add: config_ok_def one_leader_def start_cluster_def upt_rec)

text \<open>C37: Two replicas that can not reach each other both become leader: from the start of any
  cluster of at least two replicas a state with two leaders is reachable.\<close>

theorem two_leaders_reachable:
  assumes "config_ok rs cs" and "1 < length rs"
  shows "\<exists>cl. px_reach run None (start_cluster rs cs s) cl
    \<and> isLeader (rp_state (cl ! 0)) \<and> isLeader (rp_state (cl ! 1))"
proof -
  note C = px [OF assms(1)]
  have "0 < length rs" using assms(2) by linarith
  note S = start_takeover [where s = s, OF assms(1) this]
  obtain cl1 where 1: "change_view_step (\<lambda>_ _. False) run None 0 (start_cluster rs cs s) = Inr cl1"
    "cluster_ok rs cs cl1" "length cl1 = length (start_cluster rs cs s)" "isLeader (rp_state (cl1 ! 0))"
    "\<And>i. i < length (start_cluster rs cs s) \<Longrightarrow> i \<noteq> 0 \<Longrightarrow> rp_state (cl1 ! i) = rp_state (start_cluster rs cs s ! i)"
    by (rule px_config.takeover [where link = "\<lambda>_ _. False" and run = run and boot = None, OF C S]) (simp_all add: boot_runs_def)
  note S1 = start_takeover [where s = s, OF assms]
  have same: "rp_state (cl1 ! 1) = rp_state (start_cluster rs cs s ! 1)" using 1(5) S1(2) by simp
  obtain cl2 where 2: "change_view_step (\<lambda>_ _. False) run None 1 cl1 = Inr cl2" "isLeader (rp_state (cl2 ! 1))"
    "\<And>i. i < length cl1 \<Longrightarrow> i \<noteq> 1 \<Longrightarrow> rp_state (cl2 ! i) = rp_state (cl1 ! i)"
    by (rule px_config.takeover [OF C 1(2), of 1 "\<lambda>_ _. False" run None]) (use 1(3) S1 same in \<open>auto simp: boot_runs_def\<close>)
  have "isLeader (rp_state (cl2 ! 0))" using 2(3) [of 0] 1(3,4) S(2) by simp
  moreover have "px_reach run None (start_cluster rs cs s) cl2"
    using px_reach.iterate [OF px_reach.iterate [OF px_reach.start 1(1)] 2(1)] .
  ultimately show ?thesis using 2(2) by blast
qed

theorem two_leaders_reachable_witness:
  "\<exists>cl. px_reach (\<lambda>_ s. Inr ([], s)) None (start_cluster config_replicas config_clients ()) cl
    \<and> isLeader (rp_state (cl ! 0)) \<and> isLeader (rp_state (cl ! 1))"
  by (rule two_leaders_reachable [OF config_txt_ok]) (simp add: config_replicas_def)

text \<open>When two replicas have both noticed that the leader is gone, the second one fails the
  assertion of \<open>NotifyNewLeader\<close> after the first one has taken over: accepting a new view does
  not leave the mode in which a replica starts a view change.\<close>

theorem second_candidate_aborts:
  assumes "config_ok rs cs" and "cluster_ok rs cs cl" and "k < length cl" and "i < length cl" and "i \<noteq> k"
    and "vc_mode (rp_state (cl ! k)) = VC_MANAGER" and "vc_mode (rp_state (cl ! i)) = VC_MANAGER"
    and "isLeaderDown link (rp_state (cl ! k)) = Inr True" and "\<forall>j < k. \<not> link k j"
    and "link k i" and "link' i k"
  shows "\<exists>cl'. change_view_step link run None k cl = Inr cl'
    \<and> change_view_step link' run boot i cl' = Inl Px_assert"
proof -
  note C = px [OF assms(1)]
  obtain cl' where 1: "change_view_step link run None k cl = Inr cl'" "cluster_ok rs cs cl'"
    "length cl' = length cl" "rp_state (cl' ! i) = (rp_state (cl ! i))\<lparr>isLeader := False, vc_view := view_of rs cs k\<rparr>"
    by (rule px_config.takeover [OF C assms(2,3,6,8,9), of run None]) (use assms(4,5,10) in \<open>auto simp: boot_runs_def\<close>)
  have "k < length rs" using assms(2,3) by (simp add: px_config.cluster_ok_iff [OF C])
  from px_config.reached_candidate_aborts [where link = link' and i = i and k = k, OF C 1(2) _ this assms(11)] 1 assms(4,7) show ?thesis by auto
qed

theorem second_candidate_aborts_witness:
  "\<exists>cl'. change_view_step (\<lambda>_ _. True) (\<lambda>_ s. Inr ([], s)) None 0 (start_cluster config_replicas config_clients ()) = Inr cl'
    \<and> change_view_step (\<lambda>_ _. True) (\<lambda>_ s. Inr ([], s)) None 1 cl' = Inl Px_assert"
  by (rule second_candidate_aborts [OF config_txt_ok start_takeover(1) [OF config_txt_ok, of 0]])
    (simp_all add: config_replicas_def start_cluster_def isLeaderDown_def empty_view_def)

section \<open>The configuration file\<close>

lemma stoi_digits: "n < 2 ^ 31 \<Longrightarrow> stoi (digits n) = Inr (int n)"
  by (simp add: stoi_def)

text \<open>A configuration file: quota, number of replicas, and two lines of addresses for each.\<close>

definition config_text :: "nat \<Rightarrow> string list \<Rightarrow> string list \<Rightarrow> string" where
  "config_text q rs cs = digits q @ [CHR 0x0A] @ digits (length rs) @ [CHR 0x0A]
     @ concat (map (\<lambda>(r, c). r @ [CHR 0x0A] @ c @ [CHR 0x0A]) (zip rs cs))"

lemma str_find_append: "c \<notin> set s \<Longrightarrow> str_find c (s @ c # r) = Some (length s)"
  by (induction s) auto

lemma getline_line: "CHR 0x0A \<notin> set l \<Longrightarrow> getline (l @ CHR 0x0A # r, False, x) = (r, False, l)"
  by (simp add: str_find_append)

lemma read_addresses_text:
  assumes "length rs = length cs" "\<forall>a \<in> set (rs @ cs). CHR 0x0A \<notin> set a"
  shows "read_addresses (length rs)
    (concat (map (\<lambda>(r, c). r @ [CHR 0x0A] @ c @ [CHR 0x0A]) (zip rs cs)), False, x) = (rs, cs)"
  using assms
proof (induction rs cs arbitrary: x rule: list_induct2)
  case (Cons r rs c cs)
  then show ?case by (simp add: getline_line Let_def del: getline.simps)
qed simp

text \<open>A replica reads back the configuration that a file in the documented format describes:
  quota, number of replicas and both lists of addresses.\<close>

theorem config_file_roundtrip:
  assumes "q < 2 ^ 31" and "length rs < 2 ^ 31" and "length rs = length cs"
    and "\<forall>a \<in> set (rs @ cs). CHR 0x0A \<notin> set a"
  shows "new_ReplicaState (config_text q rs cs) k = Inr \<lparr>vc_mode = VC_MANAGER, vc_view = empty_view,
     isLeader = False, isInitialized = False, quota = int q, max_num_client = int (length rs),
     self_rank = k, replica_address = rs, client_use_address = cs\<rparr>"
proof -
  have nl: "CHR 0x0A \<notin> set (digits m)" for m using digits_digits [of m] is_digit_sign by blast
  let ?rest = "concat (map (\<lambda>(r, c). r @ [CHR 0x0A] @ c @ [CHR 0x0A]) (zip rs cs))"
  have "getline (config_text q rs cs, False, []) = (digits (length rs) @ CHR 0x0A # ?rest, False, digits q)"
    unfolding config_text_def using getline_line [OF nl] by simp
  moreover have "getline (digits (length rs) @ CHR 0x0A # ?rest, False, digits q) = (?rest, False, digits (length rs))"
    by (rule getline_line [OF nl])
  ultimately show ?thesis
    using read_addresses_text [OF assms(3,4)] stoi_digits assms(1,2)
    by (simp add: new_ReplicaState_def Let_def del: getline.simps)
qed

theorem config_file_roundtrip_witness:
  "new_ReplicaState (config_text 1 config_replicas config_clients) 3 = Inr \<lparr>vc_mode = VC_MANAGER,
     vc_view = empty_view, isLeader = False, isInitialized = False, quota = int 1,
     max_num_client = int (length config_replicas), self_rank = 3,
     replica_address = config_replicas, client_use_address = config_clients\<rparr>"
  by (rule config_file_roundtrip) (simp_all add: config_replicas_def config_clients_def)

end
