(* ===== verification/Chubby_Api.thy ===== *)
theory Chubby_Api
  imports Backstore
begin

text \<open>
  The lock service: class \<open>api_v1_server\<close> of \<open>src/server/serverimpl.cc\<close>. One definition per remote
  procedure and helper. The maps of the class are the fields of a record; a \<open>FileHandler *\<close> is
  an address in an explicit heap, so that the handles shared by \<open>file2fd_map\<close> and
  \<open>session2fd_map\<close>, and their deletion, are part of the model. What \<open>chubby_server_\<close> is told to
  send is appended to \<open>outbox\<close>. The store is reached through the methods of \<open>ServerDBPaxos\<close> with
  \<open>local_execute\<close> as the library call.
\<close>

section \<open>State\<close>

definition READ :: u64 where "READ = 0x1"
definition WRITE :: u64 where "WRITE = 0x2"
definition CREATE_DIRECTORY :: u64 where "CREATE_DIRECTORY = 0x4"
definition CREATE_FILE :: u64 where "CREATE_FILE = 0x8"
definition EPHEMERAL :: u64 where "EPHEMERAL = 0x10"
definition EV_LOCK_CHANGED :: u64 where "EV_LOCK_CHANGED = 0x100"
definition EV_CONTENT_MODIFIED :: u64 where "EV_CONTENT_MODIFIED = 0x200"

definition BAD_ARG :: u32 where "BAD_ARG = 0"
definition FS_FAIL :: u32 where "FS_FAIL = 1"
definition PAXOS_ERROR :: u32 where "PAXOS_ERROR = 2"

lemmas mode_defs = READ_def WRITE_def CREATE_DIRECTORY_def CREATE_FILE_def EPHEMERAL_def
  EV_LOCK_CHANGED_def EV_CONTENT_MODIFIED_def

definition has_mode :: "u64 \<Rightarrow> u64 \<Rightarrow> bool" where
  "has_mode mode flag \<longleftrightarrow> mode AND flag \<noteq> 0"

type_synonym session = u32

datatype ret = R_fd RetFd | R_bool RetBool | R_contents RetContentsAndStat | R_int u32

datatype outmsg = Reply session u32 ret | Event session EventContent

datatype cell = Live FileHandler | Freed FileHandler

record api_state =
  api_db :: server_db
  api_leader :: bool
  api_initialized :: bool
  master_sequence_number :: u64
  session2client_map :: "session \<rightharpoonup> string"
  file2fd_map :: "string \<rightharpoonup> (session \<times> nat) list"
  session2fd_map :: "session \<rightharpoonup> nat list"
  file2lockQueue_map :: "string \<rightharpoonup> (session \<times> u32) list"
  client2heldLock_map :: "string \<rightharpoonup> string set"
  client2ephemeral_map :: "string \<rightharpoonup> string set"
  file2lockChange_map :: "string \<rightharpoonup> session list"
  file2contentChange_map :: "string \<rightharpoonup> session list"
  heap :: "nat \<rightharpoonup> cell"
  next_addr :: nat
  outbox :: "outmsg list"

text \<open>
  How a handler ends otherwise than by returning: a failed assertion, a loop without end, the
  use of a deleted handle through the maps (\<open>Api_dangling\<close>), the read of the name of a handle that
  \<open>fileDelete\<close> has just deleted, when that read ends the process (\<open>Api_stale\<close>), and a failure inside
  the store that the handlers do not catch.
\<close>

datatype api_error = Api_assert | Api_loop | Api_dangling | Api_stale | Api_store rs_error

text \<open>
  Parameters of the environment: the hash function, the value of an uninitialised variable of
  the back store, and what reading the name of a deleted handle does: it ends the process (\<open>None\<close>),
  or yields some text.
\<close>

record api_env =
  e_hash :: "string \<Rightarrow> u64"
  e_junk :: u64
  e_ghost :: "string \<Rightarrow> string option"

section \<open>Helpers\<close>

definition map_push :: "'v \<Rightarrow> 'k \<Rightarrow> ('k \<rightharpoonup> 'v list) \<Rightarrow> ('k \<rightharpoonup> 'v list)" where
  "map_push x k m = m(k \<mapsto> map_at [] m k @ [x])"

text \<open>\<open>m[k].remove(x); if (m[k].empty()) m.erase(k);\<close>\<close>

definition map_remove :: "'v \<Rightarrow> 'k \<Rightarrow> ('k \<rightharpoonup> 'v list) \<Rightarrow> ('k \<rightharpoonup> 'v list)" where
  "map_remove x k m =
     (let l = removeAll x (map_at [] m k) in if l = [] then m(k := None) else m(k \<mapsto> l))"

text \<open>\<open>m[k].erase(x); if (m[k].empty()) m.erase(k);\<close> for sets.\<close>

definition map_erase :: "'v \<Rightarrow> 'k \<Rightarrow> ('k \<rightharpoonup> 'v set) \<Rightarrow> ('k \<rightharpoonup> 'v set)" where
  "map_erase x k m =
     (let l = map_at {} m k - {x} in if l = {} then m(k := None) else m(k \<mapsto> l))"

definition map_insert :: "'v \<Rightarrow> 'k \<Rightarrow> ('k \<rightharpoonup> 'v set) \<Rightarrow> ('k \<rightharpoonup> 'v set)" where
  "map_insert x k m = m(k \<mapsto> insert x (map_at {} m k))"

definition reply :: "session \<Rightarrow> u32 \<Rightarrow> ret \<Rightarrow> api_state \<Rightarrow> api_state" where
  "reply sid xid r s = (if xid = -1 then s else s\<lparr>outbox := outbox s @ [Reply sid xid r]\<rparr>)"

definition send_events :: "u32 \<Rightarrow> string \<Rightarrow> session list \<Rightarrow> api_state \<Rightarrow> api_state" where
  "send_events ev file_name ss s =
     s\<lparr>outbox := outbox s @ map (\<lambda>sid. Event sid \<lparr>ev_event = ev, ev_fname = file_name\<rparr>) ss\<rparr>"

definition sendLockChangeEvent :: "string \<Rightarrow> api_state \<Rightarrow> api_state" where
  "sendLockChangeEvent file_name s =
     (case file2lockChange_map s file_name of
        None \<Rightarrow> s
      | Some ss \<Rightarrow> send_events LOCK_CHANGED file_name ss s)"

definition sendContentChangeEvent :: "string \<Rightarrow> api_state \<Rightarrow> api_state" where
  "sendContentChangeEvent file_name s =
     (case file2contentChange_map s file_name of
        None \<Rightarrow> s
      | Some ss \<Rightarrow> send_events CONTENT_MODIFIED file_name ss s)"

text \<open>\<open>std::string client_id = session2client_map[session_id]; assert(!client_id.empty());\<close>\<close>

definition client_of :: "session \<Rightarrow> api_state \<Rightarrow> api_error + (string \<times> api_state)" where
  "client_of sid s =
     (let c = map_at [] (session2client_map s) sid
      in if c = [] then Inl Api_assert
         else Inr (c, s\<lparr>session2client_map := map_touch [] (session2client_map s) sid\<rparr>))"

definition deref :: "nat \<Rightarrow> api_state \<Rightarrow> api_error + FileHandler" where
  "deref p s = (case heap s p of Some (Live fh) \<Rightarrow> Inr fh | _ \<Rightarrow> Inl Api_dangling)"

text \<open>\<open>new FileHandler\<close> with its value, and \<open>delete\<close>; deleting twice is an error as well.\<close>

definition new_fd :: "FileHandler \<Rightarrow> api_state \<Rightarrow> nat \<times> api_state" where
  "new_fd fh s = (next_addr s, s\<lparr>heap := (heap s)(next_addr s \<mapsto> Live fh), next_addr := Suc (next_addr s)\<rparr>)"

definition delete_fd :: "nat \<Rightarrow> api_state \<Rightarrow> api_error + api_state" where
  "delete_fd p s = bindR (deref p s) (\<lambda>fh. Inr (s\<lparr>heap := (heap s)(p \<mapsto> Freed fh)\<rparr>))"

definition add_fd :: "session \<Rightarrow> FileHandler \<Rightarrow> api_state \<Rightarrow> nat \<times> api_state" where
  "add_fd sid fh s =
     (let (p, s) = new_fd fh s
      in (p, s\<lparr>file2fd_map := map_push (sid, p) (fh_file_name fh) (file2fd_map s),
             session2fd_map := map_push p sid (session2fd_map s)\<rparr>))"

fun scan_fds :: "FileHandler \<Rightarrow> nat list \<Rightarrow> api_state \<Rightarrow> api_error + nat option" where
  "scan_fds fd [] s = Inr None"
| "scan_fds fd (p # ps) s =
     bindR (deref p s) (\<lambda>fh. if fh = fd then Inr (Some p) else scan_fds fd ps s)"

text \<open>
  \<open>findFd\<close> returns the session's handle that agrees with \<open>fd\<close> in all fields, and otherwise
  registers a copy of \<open>fd\<close>: it never returns a null pointer.
\<close>

definition findFd :: "session \<Rightarrow> FileHandler \<Rightarrow> api_state \<Rightarrow> api_error + (nat \<times> api_state)" where
  "findFd sid fd s =
     (let l = map_at [] (session2fd_map s) sid;
          s = s\<lparr>session2fd_map := map_touch [] (session2fd_map s) sid\<rparr>
      in bindR (scan_fds fd l s) (\<lambda>r. case r of Some p \<Rightarrow> Inr (p, s) | None \<Rightarrow> Inr (add_fd sid fd s)))"

text \<open>
  A call of the store inside \<open>try { ... } catch (std::exception &e)\<close>: \<open>None\<close> is a caught
  exception, that the replica is not the leader or that a message can not be unmarshaled. A failed
  assertion stops the process, and the model has no outcome for a statement that is not the one of
  the program (\<open>Sql_text\<close>).
\<close>

definition caught :: "rs_error \<Rightarrow> bool" where
  "caught e = (case e of Not_leader \<Rightarrow> True | Rs_xdr x \<Rightarrow> x \<noteq> Xdr_assert | Rs_db _ \<Rightarrow> False)"

definition call_db ::
    "(bool \<times> server_db \<Rightarrow> rs_error + ('a \<times> bool \<times> server_db)) \<Rightarrow> api_state \<Rightarrow> api_error + ('a option \<times> api_state)" where
  "call_db f s =
     (case f (api_leader s, api_db s) of
        Inr (x, _, db) \<Rightarrow> Inr (Some x, s\<lparr>api_db := db\<rparr>)
      | Inl e \<Rightarrow> if caught e then Inr (None, s) else Inl (Api_store e))"

abbreviation exec_db :: "api_env \<Rightarrow> (bool \<times> server_db) execute_fn" where
  "exec_db env \<equiv> local_execute (e_hash env) (e_junk env)"

definition ret_err :: "u32 \<Rightarrow> ret" where "ret_err e = R_bool (RetBool_errCode e)"
definition ret_val :: "bool \<Rightarrow> ret" where "ret_val b = R_bool (RetBool_val b)"

section \<open>Handlers\<close>

text \<open>\<open>increment\<close> and \<open>decrement\<close> are the test procedures of the interface.\<close>

definition test_message :: "string \<Rightarrow> u32 \<Rightarrow> session \<Rightarrow> u32 \<Rightarrow> api_state \<Rightarrow> api_state" where
  "test_message name res sid xid s =
     send_events NOP (name @ '' done'') [sid]
       (reply sid xid (R_int res) (send_events NOP name [sid] s))"

definition increment :: "u32 \<Rightarrow> session \<Rightarrow> u32 \<Rightarrow> api_state \<Rightarrow> api_error + api_state" where
  "increment arg sid xid s = Inr (test_message ''inc'' (arg + 1) sid xid s)"

definition decrement :: "u32 \<Rightarrow> session \<Rightarrow> u32 \<Rightarrow> api_state \<Rightarrow> api_error + api_state" where
  "decrement arg sid xid s = Inr (test_message ''dec'' (arg - 1) sid xid s)"

definition register_events :: "u64 \<Rightarrow> string \<Rightarrow> session \<Rightarrow> api_state \<Rightarrow> api_state" where
  "register_events mode file_name sid s =
     (let s = (if has_mode mode EV_LOCK_CHANGED
               then s\<lparr>file2lockChange_map := map_push sid file_name (file2lockChange_map s)\<rparr> else s)
      in if has_mode mode EV_CONTENT_MODIFIED
         then s\<lparr>file2contentChange_map := map_push sid file_name (file2contentChange_map s)\<rparr> else s)"

text \<open>The handle a successful open returns; its number is a hash over the other fields.\<close>

definition signed_fd :: "api_env \<Rightarrow> u64 \<Rightarrow> string \<Rightarrow> u64 \<Rightarrow> bool \<Rightarrow> FileHandler" where
  "signed_fd env seqno file_name i w =
     \<lparr>fh_magic_number = e_hash env (file_name @ digits (unat i) @ (if w then ''1'' else ''0'')),
      fh_master_sequence_number = seqno, fh_file_name = file_name, fh_instance_number = i,
      fh_write_is_allowed = w\<rparr>"

definition open_node ::
    "api_env \<Rightarrow> string \<Rightarrow> u64 \<Rightarrow> string \<Rightarrow> api_state \<Rightarrow> api_error + ((bool \<times> u64) option \<times> api_state)" where
  "open_node env file_name mode client_id s =
     (if has_mode mode CREATE_DIRECTORY \<or> has_mode mode CREATE_FILE
      then bindR (call_db (px_checkAndCreate (exec_db env) file_name (has_mode mode CREATE_DIRECTORY)) s)
        (\<lambda>(r, s). Inr (r, case r of
           Some (True, _) \<Rightarrow> if has_mode mode EPHEMERAL
             then s\<lparr>client2ephemeral_map := map_insert file_name client_id (client2ephemeral_map s)\<rparr> else s
         | _ \<Rightarrow> s))
      else call_db (px_checkAndOpen (exec_db env) file_name) s)"

definition fileOpen :: "api_env \<Rightarrow> ArgOpen \<Rightarrow> session \<Rightarrow> u32 \<Rightarrow> api_state \<Rightarrow> api_error + api_state" where
  "fileOpen env arg sid xid s =
     (let file_name = ao_name arg; mode = ao_mode arg in
      bindR (client_of sid s) (\<lambda>(client_id, s).
      if \<not> checkName file_name then Inr (reply sid xid (R_fd (RetFd_errCode BAD_ARG)) s)
      else if has_mode mode CREATE_DIRECTORY \<and> has_mode mode CREATE_FILE
      then Inr (reply sid xid (R_fd (RetFd_errCode BAD_ARG)) s)
      else bindR (open_node env file_name mode client_id s) (\<lambda>(r, s). case r of
        None \<Rightarrow> Inr (reply sid xid (R_fd (RetFd_errCode PAXOS_ERROR)) s)
      | Some (ok, i) \<Rightarrow>
          if \<not> ok then Inr (reply sid xid (R_fd (RetFd_errCode FS_FAIL)) s)
          else let fh = signed_fd env (master_sequence_number s) file_name i (has_mode mode WRITE);
                   (p, s) = add_fd sid fh s;
                   s = register_events mode file_name sid s;
                   s = reply sid xid (R_fd (RetFd_val fh)) s;
                   parent_name = getParentName file_name
               in Inr (if parent_name \<noteq> ''/'' then sendContentChangeEvent parent_name s else s))))"

text \<open>
  Deleting all handles of a file: the list of pairs is copied before. Afterwards \<open>fd\<close>, the
  handle the caller found, is deleted too, and \<open>fd->file_name\<close> is read from it.
\<close>

fun delete_fds :: "(session \<times> nat) list \<Rightarrow> api_state \<Rightarrow> api_error + api_state" where
  "delete_fds [] s = Inr s"
| "delete_fds ((sid, f) # l) s =
     bindR (delete_fd f (s\<lparr>session2fd_map := map_remove f sid (session2fd_map s)\<rparr>)) (delete_fds l)"

definition ghost_name :: "api_env \<Rightarrow> nat \<Rightarrow> api_state \<Rightarrow> string option" where
  "ghost_name env p s =
     (case heap s p of
        Some (Live fh) \<Rightarrow> Some (fh_file_name fh)
      | Some (Freed fh) \<Rightarrow> e_ghost env (fh_file_name fh)
      | None \<Rightarrow> None)"

text \<open>What follows a successful deletion in the store.\<close>

definition drop_node ::
    "api_env \<Rightarrow> string \<Rightarrow> nat \<Rightarrow> string \<Rightarrow> session \<Rightarrow> u32 \<Rightarrow> api_state \<Rightarrow> api_error + api_state" where
  "drop_node env file_name fd client_id sid xid s =
     (let l = map_at [] (file2fd_map s) file_name;
          s = s\<lparr>file2fd_map := map_touch [] (file2fd_map s) file_name\<rparr>
      in bindR (delete_fds l s) (\<lambda>s.
         let s = s\<lparr>file2fd_map := (file2fd_map s)(file_name := None),
                   file2lockQueue_map := (file2lockQueue_map s)(file_name := None)\<rparr>
         in case ghost_name env fd s of
           None \<Rightarrow> Inl Api_stale
         | Some name \<Rightarrow>
         let s = s\<lparr>client2ephemeral_map := map_erase name client_id (client2ephemeral_map s)\<rparr>;
             s = reply sid xid (ret_val True) s;
             s = sendContentChangeEvent file_name s;
             parent_name = getParentName file_name;
             s = (if parent_name \<noteq> ''/'' then sendContentChangeEvent parent_name s else s)
         in Inr (s\<lparr>file2contentChange_map := (file2contentChange_map s)(file_name := None),
                  file2lockChange_map := (file2lockChange_map s)(file_name := None)\<rparr>)))"

definition fileDelete :: "api_env \<Rightarrow> FileHandler \<Rightarrow> session \<Rightarrow> u32 \<Rightarrow> api_state \<Rightarrow> api_error + api_state" where
  "fileDelete env arg sid xid s =
     bindR (client_of sid s) (\<lambda>(client_id, s).
     bindR (findFd sid arg s) (\<lambda>(fd, s).
     bindR (deref fd s) (\<lambda>fh.
     bindR (call_db (px_checkAndDelete (exec_db env) (fh_file_name fh) (fh_instance_number fh)) s) (\<lambda>(r, s).
     case r of
       None \<Rightarrow> Inr (reply sid xid (ret_err PAXOS_ERROR) s)
     | Some False \<Rightarrow> Inr (reply sid xid (ret_val False) s)
     | Some True \<Rightarrow> drop_node env (fh_file_name arg) fd client_id sid xid s))))"

definition getContentsAndStat ::
    "api_env \<Rightarrow> FileHandler \<Rightarrow> session \<Rightarrow> u32 \<Rightarrow> api_state \<Rightarrow> api_error + api_state" where
  "getContentsAndStat env arg sid xid s =
     bindR (findFd sid arg s) (\<lambda>(fd, s).
     bindR (deref fd s) (\<lambda>fh.
     bindR (call_db (px_checkAndRead (exec_db env) (fh_file_name fh) (fh_instance_number fh)) s) (\<lambda>(r, s).
     case r of
       None \<Rightarrow> Inr (reply sid xid (R_contents (RetContents_errCode PAXOS_ERROR)) s)
     | Some (False, _, _) \<Rightarrow> Inr (reply sid xid (R_contents (RetContents_errCode FS_FAIL)) s)
     | Some (True, content, meta) \<Rightarrow>
         Inr (reply sid xid (R_contents (RetContents_val \<lparr>cs_content = content, cs_stat = meta\<rparr>)) s))))"

definition setContents ::
    "api_env \<Rightarrow> ArgSetContents \<Rightarrow> session \<Rightarrow> u32 \<Rightarrow> api_state \<Rightarrow> api_error + api_state" where
  "setContents env arg sid xid s =
     bindR (findFd sid (as_fd arg) s) (\<lambda>(fd, s).
     bindR (deref fd s) (\<lambda>fh.
     bindR (call_db (px_checkAndUpdate (exec_db env) (fh_file_name fh) (fh_instance_number fh) (as_content arg)) s) (\<lambda>(r, s).
     case r of
       None \<Rightarrow> Inr (reply sid xid (ret_err PAXOS_ERROR) s)
     | Some False \<Rightarrow> Inr (reply sid xid (ret_err FS_FAIL) s)
     | Some True \<Rightarrow>
         Inr (sendContentChangeEvent (fh_file_name fh) (reply sid xid (ret_val True) s)))))"

text \<open>What \<open>acquire\<close> and \<open>tryAcquire\<close> do when the store has recorded the new owner.\<close>

definition lock_granted ::
    "string \<Rightarrow> string \<Rightarrow> session \<Rightarrow> u32 \<Rightarrow> api_state \<Rightarrow> api_error + api_state" where
  "lock_granted file_name client_id sid xid s =
     bindR (assertR Api_assert (file2lockQueue_map s file_name = None)) (\<lambda>_.
     let s = s\<lparr>client2heldLock_map := map_insert file_name client_id (client2heldLock_map s)\<rparr>
     in Inr (sendLockChangeEvent file_name (reply sid xid (ret_val True) s)))"

definition acquire :: "api_env \<Rightarrow> FileHandler \<Rightarrow> session \<Rightarrow> u32 \<Rightarrow> api_state \<Rightarrow> api_error + api_state" where
  "acquire env arg sid xid s =
     bindR (client_of sid s) (\<lambda>(client_id, s).
     bindR (findFd sid arg s) (\<lambda>(fd, s).
     bindR (deref fd s) (\<lambda>fh.
     bindR (call_db (px_testAndSetLockOwner (exec_db env) (fh_file_name fh) (fh_instance_number fh) client_id) s) (\<lambda>(r, s).
     case r of
       None \<Rightarrow> Inr (reply sid xid (ret_err PAXOS_ERROR) s)
     | Some True \<Rightarrow> lock_granted (fh_file_name fh) client_id sid xid s
     | Some False \<Rightarrow>
         Inr (s\<lparr>file2lockQueue_map := map_push (sid, xid) (fh_file_name fh) (file2lockQueue_map s)\<rparr>)))))"

definition tryAcquire :: "api_env \<Rightarrow> FileHandler \<Rightarrow> session \<Rightarrow> u32 \<Rightarrow> api_state \<Rightarrow> api_error + api_state" where
  "tryAcquire env arg sid xid s =
     bindR (client_of sid s) (\<lambda>(client_id, s).
     bindR (findFd sid arg s) (\<lambda>(fd, s).
     bindR (deref fd s) (\<lambda>fh.
     bindR (call_db (px_testAndSetLockOwner (exec_db env) (fh_file_name fh) (fh_instance_number fh) client_id) s) (\<lambda>(r, s).
     case r of
       None \<Rightarrow> Inr (reply sid xid (ret_err PAXOS_ERROR) s)
     | Some True \<Rightarrow> lock_granted (fh_file_name fh) client_id sid xid s
     | Some False \<Rightarrow> Inr (reply sid xid (ret_val False) s)))))"

text \<open>Handing a released lock to the first session in the queue.\<close>

definition hand_over :: "string \<Rightarrow> api_state \<Rightarrow> api_error + api_state" where
  "hand_over file_name s =
     (case file2lockQueue_map s file_name of
        None \<Rightarrow> Inr s
      | Some [] \<Rightarrow> Inl Api_assert
      | Some ((sid, xid) # lock_queue) \<Rightarrow>
          bindR (client_of sid s) (\<lambda>(client_id_rpc, s).
          let s = s\<lparr>client2heldLock_map := map_insert file_name client_id_rpc (client2heldLock_map s)\<rparr>;
              s = reply sid xid (ret_val True) s
          in Inr (s\<lparr>file2lockQueue_map := (file2lockQueue_map s)
                     (file_name := (if lock_queue = [] then None else Some lock_queue))\<rparr>)))"

text \<open>What follows a successful reset of the owner in the store.\<close>

definition lock_released ::
    "string \<Rightarrow> string \<Rightarrow> session \<Rightarrow> u32 \<Rightarrow> api_state \<Rightarrow> api_error + api_state" where
  "lock_released file_name client_id sid xid s =
     (let s = s\<lparr>client2heldLock_map := map_erase file_name client_id (client2heldLock_map s)\<rparr>;
          s = reply sid xid (ret_val True) s
      in bindR (hand_over file_name s) (\<lambda>s. Inr (sendLockChangeEvent file_name s)))"

definition release :: "api_env \<Rightarrow> FileHandler \<Rightarrow> session \<Rightarrow> u32 \<Rightarrow> api_state \<Rightarrow> api_error + api_state" where
  "release env arg sid xid s =
     bindR (client_of sid s) (\<lambda>(client_id, s).
     bindR (findFd sid arg s) (\<lambda>(fd, s).
     bindR (deref fd s) (\<lambda>fh.
     bindR (call_db (px_resetLockOwner (exec_db env) (fh_file_name fh) (fh_instance_number fh)) s) (\<lambda>(r, s).
     case r of
       None \<Rightarrow> Inr (reply sid xid (ret_err PAXOS_ERROR) s)
     | Some False \<Rightarrow> Inr (reply sid xid (ret_err FS_FAIL) s)
     | Some True \<Rightarrow> lock_released (fh_file_name fh) client_id sid xid s))))"

definition startSession :: "string \<Rightarrow> session \<Rightarrow> u32 \<Rightarrow> api_state \<Rightarrow> api_error + api_state" where
  "startSession arg sid xid s =
     (if \<not> (api_leader s \<and> api_initialized s) then Inr (reply sid xid (ret_val False) s)
      else Inr (reply sid xid (ret_val True)
             (s\<lparr>session2client_map := (session2client_map s)(sid \<mapsto> arg)\<rparr>)))"

definition fileReopen :: "ArgReopen \<Rightarrow> session \<Rightarrow> u32 \<Rightarrow> api_state \<Rightarrow> api_error + api_state" where
  "fileReopen arg sid xid s =
     (let fd = ar_fd arg; mode = ar_mode arg;
          (p, s) = add_fd sid fd s;
          s = register_events mode (fh_file_name fd) sid s;
          client_id = map_at [] (session2client_map s) sid;
          s = s\<lparr>session2client_map := map_touch [] (session2client_map s) sid\<rparr>;
          s = (if has_mode mode EPHEMERAL
               then s\<lparr>client2ephemeral_map := map_insert (fh_file_name fd) client_id (client2ephemeral_map s)\<rparr>
               else s)
      in Inr (reply sid xid (ret_val True) s))"

text \<open>
  The loop of \<open>fileClose\<close> over the copy of the lock queue: its iterator is never advanced, so it
  ends only at the end of the queue or at an entry of the session.
\<close>

partial_function (option) queue_position :: "(session \<times> u32) list \<Rightarrow> nat \<Rightarrow> session \<Rightarrow> nat option" where
  "queue_position q it sid =
     (if it < length q
      then (if fst (q ! it) = sid then Some it else queue_position q it sid)
      else Some it)"

definition clear_queue :: "string \<Rightarrow> session \<Rightarrow> api_state \<Rightarrow> api_error + api_state" where
  "clear_queue file_name sid s =
     (case file2lockQueue_map s file_name of
        None \<Rightarrow> Inr s
      | Some queue \<Rightarrow>
          (case queue_position queue 0 sid of
             None \<Rightarrow> Inl Api_loop
           | Some it \<Rightarrow>
               let queue = (if it < length queue then take it queue @ drop (Suc it) queue else queue)
               in Inr (if queue = []
                       then s\<lparr>file2lockQueue_map := (file2lockQueue_map s)(file_name := None)\<rparr> else s)))"

definition clear_events :: "string \<Rightarrow> session \<Rightarrow> api_state \<Rightarrow> api_state" where
  "clear_events file_name sid s =
     (let s = (if file2lockChange_map s file_name = None then s
               else s\<lparr>file2lockChange_map := map_remove sid file_name (file2lockChange_map s)\<rparr>)
      in if file2contentChange_map s file_name = None then s
         else s\<lparr>file2contentChange_map := map_remove sid file_name (file2contentChange_map s)\<rparr>)"

text \<open>The last part of \<open>fileClose\<close>, for a node that is not ephemeral.\<close>

definition close_fd :: "nat \<Rightarrow> FileHandler \<Rightarrow> session \<Rightarrow> u32 \<Rightarrow> api_state \<Rightarrow> api_error + api_state" where
  "close_fd fd fh sid xid s =
     (let s = s\<lparr>file2fd_map := map_remove (sid, fd) (fh_file_name fh) (file2fd_map s),
                session2fd_map := map_remove fd sid (session2fd_map s)\<rparr>
      in bindR (clear_queue (fh_file_name fh) sid s) (\<lambda>s.
         bindR (delete_fd fd (clear_events (fh_file_name fh) sid s)) (\<lambda>s.
           Inr (reply sid xid (ret_val True) s))))"

definition fileClose :: "api_env \<Rightarrow> FileHandler \<Rightarrow> session \<Rightarrow> u32 \<Rightarrow> api_state \<Rightarrow> api_error + api_state" where
  "fileClose env arg sid xid s =
     bindR (client_of sid s) (\<lambda>(client_id, s).
     bindR (findFd sid arg s) (\<lambda>(fd, s).
     bindR (deref fd s) (\<lambda>fh.
     bindR (if fh_file_name fh \<in> map_at {} (client2heldLock_map s) client_id
            then release env fh sid (-1) s else Inr s) (\<lambda>s.
     bindR (deref fd s) (\<lambda>fh.
     let s = s\<lparr>client2ephemeral_map := map_touch {} (client2ephemeral_map s) client_id\<rparr> in
     if fh_file_name fh \<in> map_at {} (client2ephemeral_map s) client_id
     then bindR (fileDelete env fh sid (-1) s) (\<lambda>s. Inr (reply sid xid (ret_val True) s))
     else close_fd fd fh sid xid s)))))"

fun close_all :: "api_env \<Rightarrow> session \<Rightarrow> nat list \<Rightarrow> api_state \<Rightarrow> api_error + api_state" where
  "close_all env sid [] s = Inr s"
| "close_all env sid (fd # fds) s =
     bindR (deref fd s) (\<lambda>fh. bindR (fileClose env fh sid (-1) s) (close_all env sid fds))"

definition disconnect :: "api_env \<Rightarrow> session \<Rightarrow> api_state \<Rightarrow> api_error + api_state" where
  "disconnect env sid s =
     (let openedFds = map_at [] (session2fd_map s) sid;
          s = s\<lparr>session2fd_map := map_touch [] (session2fd_map s) sid\<rparr>
      in bindR (close_all env sid openedFds s) (\<lambda>s.
           Inr (s\<lparr>session2client_map := (session2client_map s)(sid := None)\<rparr>)))"

text \<open>
  \<open>initializeLeader\<close> drops the maps (the handles they point to are not deleted) and reads the
  owners of all locks; the exception of \<open>getStates\<close> is not caught here.
\<close>

definition api_initializeLeader :: "api_env \<Rightarrow> api_state \<Rightarrow> api_error + api_state" where
  "api_initializeLeader env s =
     (let s = s\<lparr>session2client_map := Map.empty, file2fd_map := Map.empty, session2fd_map := Map.empty,
            file2lockQueue_map := Map.empty, client2heldLock_map := Map.empty,
            client2ephemeral_map := Map.empty, file2lockChange_map := Map.empty,
            file2contentChange_map := Map.empty\<rparr>
      in case px_getStates (exec_db env) [] (api_leader s, api_db s) of
           Inl e \<Rightarrow> Inl (Api_store e)
         | Inr (file_and_owner_list, _, db) \<Rightarrow>
             Inr (s\<lparr>api_db := db, client2heldLock_map :=
               foldl (\<lambda>m (file, owner). map_insert file owner m) Map.empty file_and_owner_list\<rparr>))"

section \<open>Requests\<close>

text \<open>The procedures of the interface \<open>api_v1\<close>, and the end of a session.\<close>

datatype request =
    Rq_fileOpen ArgOpen
  | Rq_fileClose FileHandler
  | Rq_fileDelete FileHandler
  | Rq_getContentsAndStat FileHandler
  | Rq_setContents ArgSetContents
  | Rq_acquire FileHandler
  | Rq_tryAcquire FileHandler
  | Rq_release FileHandler
  | Rq_startSession string
  | Rq_fileReopen ArgReopen
  | Rq_increment u32
  | Rq_decrement u32

fun handle :: "api_env \<Rightarrow> request \<Rightarrow> session \<Rightarrow> u32 \<Rightarrow> api_state \<Rightarrow> api_error + api_state" where
  "handle env (Rq_fileOpen a) sid xid s = fileOpen env a sid xid s"
| "handle env (Rq_fileClose a) sid xid s = fileClose env a sid xid s"
| "handle env (Rq_fileDelete a) sid xid s = fileDelete env a sid xid s"
| "handle env (Rq_getContentsAndStat a) sid xid s = getContentsAndStat env a sid xid s"
| "handle env (Rq_setContents a) sid xid s = setContents env a sid xid s"
| "handle env (Rq_acquire a) sid xid s = acquire env a sid xid s"
| "handle env (Rq_tryAcquire a) sid xid s = tryAcquire env a sid xid s"
| "handle env (Rq_release a) sid xid s = release env a sid xid s"
| "handle env (Rq_startSession a) sid xid s = startSession a sid xid s"
| "handle env (Rq_fileReopen a) sid xid s = fileReopen a sid xid s"
| "handle env (Rq_increment a) sid xid s = increment a sid xid s"
| "handle env (Rq_decrement a) sid xid s = decrement a sid xid s"

datatype server_event = Request session u32 request | Disconnect session | Promoted

fun server_step :: "api_env \<Rightarrow> server_event \<Rightarrow> api_state \<Rightarrow> api_error + api_state" where
  "server_step env (Request sid xid r) s = handle env r sid xid s"
| "server_step env (Disconnect sid) s = disconnect env sid s"
| "server_step env Promoted s = api_initializeLeader env s"

fun server_run :: "api_env \<Rightarrow> server_event list \<Rightarrow> api_state \<Rightarrow> api_error + api_state" where
  "server_run env [] s = Inr s"
| "server_run env (e # es) s = bindR (server_step env e s) (server_run env es)"

definition new_api_state :: "server_db \<Rightarrow> u64 \<Rightarrow> api_state" where
  "new_api_state db seqno = \<lparr>api_db = db, api_leader = True, api_initialized = True,
     master_sequence_number = seqno, session2client_map = Map.empty, file2fd_map = Map.empty,
     session2fd_map = Map.empty, file2lockQueue_map = Map.empty, client2heldLock_map = Map.empty,
     client2ephemeral_map = Map.empty, file2lockChange_map = Map.empty,
     file2contentChange_map = Map.empty, heap = Map.empty, next_addr = 0, outbox = []\<rparr>"

end
