(* ===== verification/Chubby_Api_Handles.thy ===== *)
theory Chubby_Api_Handles
  imports Chubby_Api
begin

text \<open>
  The handles of the lock service: the two maps \<open>file2fd_map\<close> and \<open>session2fd_map\<close> and the heap of
  \<open>src/server/serverimpl.cc\<close> agree (\<open>fd_ok\<close>), every handler keeps them so and never uses a deleted
  handle (\<open>safe\<close>), and the end of a session closes its handles when none is of an ephemeral node.
\<close>

section \<open>The invariant of the handle maps\<close>

definition fds_of :: "api_state \<Rightarrow> session \<Rightarrow> nat list" where
  "fds_of s sid = map_at [] (session2fd_map s) sid"

definition pairs_of :: "api_state \<Rightarrow> string \<Rightarrow> (session \<times> nat) list" where
  "pairs_of s n = map_at [] (file2fd_map s) n"

definition live :: "api_state \<Rightarrow> nat \<Rightarrow> string \<Rightarrow> bool" where
  "live s p n \<longleftrightarrow> (\<exists>fh. heap s p = Some (Live fh) \<and> fh_file_name fh = n)"

text \<open>
  Every handle in the list of a session is alive and is in the list of its file, under that
  session, and the other way round; no list has a handle twice and no two sessions share one.
\<close>

definition fd_ok :: "api_state \<Rightarrow> bool" where
  "fd_ok s \<longleftrightarrow> (\<forall>p. heap s p \<noteq> None \<longrightarrow> p < next_addr s)
     \<and> (\<forall>sid. \<forall>p \<in> set (fds_of s sid). \<exists>n. live s p n \<and> (sid, p) \<in> set (pairs_of s n))
     \<and> (\<forall>n. \<forall>(sid, p) \<in> set (pairs_of s n). p \<in> set (fds_of s sid) \<and> live s p n)
     \<and> (\<forall>sid. distinct (fds_of s sid)) \<and> (\<forall>n. distinct (pairs_of s n))
     \<and> (\<forall>sid sid' p. p \<in> set (fds_of s sid) \<longrightarrow> p \<in> set (fds_of s sid') \<longrightarrow> sid = sid')"

text \<open>The part of the state that the invariant is about.\<close>

definition same_fds :: "api_state \<Rightarrow> api_state \<Rightarrow> bool" where
  "same_fds s s' \<longleftrightarrow> heap s' = heap s \<and> next_addr s' = next_addr s \<and> fds_of s' = fds_of s \<and> pairs_of s' = pairs_of s"

lemma same_fdsD: "same_fds s s' \<Longrightarrow> fd_ok s \<Longrightarrow> fd_ok s'"
  by (simp add: same_fds_def fd_ok_def live_def)

lemma same_fds_refl [simp]: "same_fds s s"
  by (simp add: same_fds_def)

lemma same_fds_trans: "same_fds s s' \<Longrightarrow> same_fds s' s'' \<Longrightarrow> same_fds s s''"
  by (simp add: same_fds_def)

lemma fds_of_cong: "session2fd_map s' = session2fd_map s \<Longrightarrow> fds_of s' = fds_of s"
  and pairs_of_cong: "file2fd_map s' = file2fd_map s \<Longrightarrow> pairs_of s' = pairs_of s"
  by (auto simp: fds_of_def [abs_def] pairs_of_def [abs_def])

lemma same_fds_updates [simp]:
  "same_fds s (t\<lparr>outbox := x1\<rparr>) = same_fds s t" "same_fds s (t\<lparr>session2client_map := x2\<rparr>) = same_fds s t"
  "same_fds s (t\<lparr>api_db := x3\<rparr>) = same_fds s t" "same_fds s (t\<lparr>client2heldLock_map := x4\<rparr>) = same_fds s t"
  "same_fds s (t\<lparr>client2ephemeral_map := x5\<rparr>) = same_fds s t"
  "same_fds s (t\<lparr>file2lockQueue_map := x6\<rparr>) = same_fds s t"
  "same_fds s (t\<lparr>file2lockChange_map := x7\<rparr>) = same_fds s t"
  "same_fds s (t\<lparr>file2contentChange_map := x8\<rparr>) = same_fds s t"
  by (simp_all add: same_fds_def fds_of_def [abs_def] pairs_of_def [abs_def])

lemma same_fds_touch [simp]:
  "same_fds s (t\<lparr>session2fd_map := map_touch [] (session2fd_map t) sid\<rparr>) = same_fds s t"
  "same_fds s (t\<lparr>file2fd_map := map_touch [] (file2fd_map t) n\<rparr>) = same_fds s t"
proof -
  have "map_at [] (map_touch [] m k) = map_at [] m" for m :: "'a \<rightharpoonup> 'b list" and k
    by (simp add: fun_eq_iff)
  then show "same_fds s (t\<lparr>session2fd_map := map_touch [] (session2fd_map t) sid\<rparr>) = same_fds s t"
    "same_fds s (t\<lparr>file2fd_map := map_touch [] (file2fd_map t) n\<rparr>) = same_fds s t"
    by (simp_all add: same_fds_def fds_of_def [abs_def] pairs_of_def [abs_def] fun_eq_iff)
qed

lemma same_fds_send [simp]:
  "same_fds s (reply sid xid r t) = same_fds s t" "same_fds s (send_events e n ss t) = same_fds s t"
  "same_fds s (sendLockChangeEvent n t) = same_fds s t"
  "same_fds s (sendContentChangeEvent n t) = same_fds s t"
  by (auto simp: reply_def sendLockChangeEvent_def sendContentChangeEvent_def send_events_def
      split: option.splits)

lemma same_fds_client: "client_of sid t = Inr (c, s') \<Longrightarrow> same_fds s s' = same_fds s t"
  by (auto simp: client_of_def Let_def split: if_splits)

lemma same_fds_call_db: "call_db f t = Inr (r, s') \<Longrightarrow> same_fds s s' = same_fds s t"
  by (auto simp: call_db_def split: sum.splits prod.splits if_splits)

lemma same_fds_granted: "lock_granted n c sid xid t = Inr s' \<Longrightarrow> same_fds s s' = same_fds s t"
  by (auto simp: lock_granted_def Let_def)

lemma same_fds_hand_over: "hand_over n t = Inr s' \<Longrightarrow> same_fds s s' = same_fds s t"
  by (auto simp: hand_over_def Let_def same_fds_client split: option.splits list.splits)

lemma fd_okD:
  assumes "fd_ok s"
  shows "heap s p \<noteq> None \<Longrightarrow> p < next_addr s"
    "p \<in> set (fds_of s sid) \<Longrightarrow> \<exists>n. live s p n \<and> (sid, p) \<in> set (pairs_of s n)"
    "(sid, p) \<in> set (pairs_of s n) \<Longrightarrow> p \<in> set (fds_of s sid)"
    "(sid, p) \<in> set (pairs_of s n) \<Longrightarrow> live s p n"
    "distinct (fds_of s sid)" "distinct (pairs_of s n)"
    "p \<in> set (fds_of s sid) \<Longrightarrow> p \<in> set (fds_of s sid') \<Longrightarrow> sid = sid'"
  using assms by (auto simp: fd_ok_def)

lemma fd_okI:
  assumes "\<And>p. heap s p \<noteq> None \<Longrightarrow> p < next_addr s"
    "\<And>sid p. p \<in> set (fds_of s sid) \<Longrightarrow> \<exists>n. live s p n \<and> (sid, p) \<in> set (pairs_of s n)"
    "\<And>n sid p. (sid, p) \<in> set (pairs_of s n) \<Longrightarrow> p \<in> set (fds_of s sid) \<and> live s p n"
    "\<And>sid. distinct (fds_of s sid)" "\<And>n. distinct (pairs_of s n)"
    "\<And>sid sid' p. p \<in> set (fds_of s sid) \<Longrightarrow> p \<in> set (fds_of s sid') \<Longrightarrow> sid = sid'"
  shows "fd_ok s"
  using assms by (auto simp: fd_ok_def)

lemma live_in_session: "fd_ok s \<Longrightarrow> p \<in> set (fds_of s sid) \<Longrightarrow> \<exists>fh. deref p s = Inr fh"
  using fd_okD(2) [of s p sid] by (auto simp: live_def deref_def)

lemma scan_fds_total:
  assumes "fd_ok s" "set ps \<subseteq> set (fds_of s sid)"
  shows "\<exists>r. scan_fds fd ps s = Inr r \<and> (\<forall>p. r = Some p \<longrightarrow> p \<in> set ps \<and> deref p s = Inr fd)"
  using assms(2)
proof (induction ps)
  case (Cons p ps)
  then have "p \<in> set (fds_of s sid)" by simp
  then obtain fh where "deref p s = Inr fh" using live_in_session [OF assms(1)] by blast
  with Cons show ?case by auto
qed simp

lemma add_fd_ok:
  assumes ok: "fd_ok s" and a: "add_fd sid fh s = (p, s')"
  shows "fd_ok s'" "p \<in> set (fds_of s' sid)" "deref p s' = Inr fh"
proof -
  from a have p: "p = next_addr s" and heap': "heap s' = (heap s)(p \<mapsto> Live fh)" and next': "next_addr s' = Suc p"
    and F: "\<And>k. fds_of s' k = fds_of s k @ (if k = sid then [p] else [])"
    and P: "\<And>n. pairs_of s' n = pairs_of s n @ (if n = fh_file_name fh then [(sid, p)] else [])"
    by (auto simp: add_fd_def new_fd_def fds_of_def pairs_of_def map_push_def map_at_upd)
  have fresh: "heap s p = None" using fd_okD(1) [OF ok, of p] p by (cases "heap s p") auto
  have notin: "p \<notin> set (fds_of s k)" for k
    using fd_okD(2) [OF ok, of p k] fresh by (auto simp: live_def)
  have notin2: "(k, p) \<notin> set (pairs_of s n)" for k n
    using fd_okD(3) [OF ok] notin by blast
  have live': "live s' q n \<longleftrightarrow> (if q = p then n = fh_file_name fh else live s q n)" for q n
    using heap' by (auto simp: live_def)
  show "deref p s' = Inr fh" using heap' by (simp add: deref_def)
  show "p \<in> set (fds_of s' sid)" using F by simp
  show "fd_ok s'"
  proof (rule fd_okI)
    show "q < next_addr s'" if "heap s' q \<noteq> None" for q
      using that heap' next' fd_okD(1) [OF ok, of q] p by (auto split: if_splits)
    show "\<exists>n. live s' q n \<and> (k, q) \<in> set (pairs_of s' n)" if "q \<in> set (fds_of s' k)" for k q
      using that fd_okD(2) [OF ok, of q k] notin by (auto simp: F P live' split: if_splits)
    show "q \<in> set (fds_of s' k) \<and> live s' q n" if "(k, q) \<in> set (pairs_of s' n)" for n k q
      using that fd_okD(3,4) [OF ok, of k q n] notin2 by (auto simp: F P live' split: if_splits)
    show "distinct (fds_of s' k)" for k using fd_okD(5) [OF ok, of k] notin by (auto simp: F)
    show "distinct (pairs_of s' n)" for n using fd_okD(6) [OF ok, of n] notin2 by (auto simp: P)
    show "k = k'" if "q \<in> set (fds_of s' k)" "q \<in> set (fds_of s' k')" for k k' q
      using that fd_okD(7) [OF ok, of q k k'] notin by (auto simp: F split: if_splits)
  qed
qed

lemma findFd_ok:
  assumes ok: "fd_ok s"
  obtains p s' where "findFd sid fd s = Inr (p, s')" "fd_ok s'" "p \<in> set (fds_of s' sid)" "deref p s' = Inr fd"
proof -
  let ?s = "s\<lparr>session2fd_map := map_touch [] (session2fd_map s) sid\<rparr>"
  have same: "same_fds s ?s" by simp
  have ok': "fd_ok ?s" by (rule same_fdsD [OF same ok])
  have l: "map_at [] (session2fd_map s) sid = fds_of ?s sid" by (simp add: fds_of_def)
  obtain r where r: "scan_fds fd (fds_of ?s sid) ?s = Inr r"
    "\<And>p. r = Some p \<Longrightarrow> p \<in> set (fds_of ?s sid) \<and> deref p ?s = Inr fd"
    using scan_fds_total [OF ok' subset_refl] by blast
  show thesis
  proof (cases r)
    case (Some p)
    with r that [of p ?s] ok' l show thesis by (simp add: findFd_def Let_def)
  next
    case None
    obtain p s' where a: "add_fd sid fd ?s = (p, s')" by (cases "add_fd sid fd ?s")
    with None r l that [of p s'] add_fd_ok [OF ok' a] show thesis by (simp add: findFd_def Let_def)
  qed
qed

section \<open>Deleting handles\<close>

lemma map_at_remove: "map_at [] (map_remove x k m) j = (if j = k then removeAll x (map_at [] m k) else map_at [] m j)"
  by (simp add: map_remove_def Let_def map_at_upd)

text \<open>A state in which a set \<open>D\<close> of handles has been taken out of the lists and deleted.\<close>

lemma fd_ok_delete:
  assumes ok: "fd_ok s" and heap': "\<And>p. heap s' p = (if p \<in> D then map_option (\<lambda>_. Freed (c p)) (heap s p) else heap s p)"
    and next': "next_addr s' = next_addr s"
    and F: "\<And>k. fds_of s' k = filter (\<lambda>p. p \<notin> D) (fds_of s k)"
    and P: "\<And>n. pairs_of s' n = filter (\<lambda>(k, p). p \<notin> D) (pairs_of s n)"
  shows "fd_ok s'"
proof (rule fd_okI)
  have live': "live s' q n \<longleftrightarrow> live s q n \<and> q \<notin> D" for q n
    using heap' by (auto simp: live_def)
  show "q < next_addr s'" if "heap s' q \<noteq> None" for q
    using that heap' next' fd_okD(1) [OF ok, of q] by (auto split: if_splits)
  show "\<exists>n. live s' q n \<and> (k, q) \<in> set (pairs_of s' n)" if "q \<in> set (fds_of s' k)" for k q
    using that fd_okD(2) [OF ok, of q k] by (auto simp: F P live')
  show "q \<in> set (fds_of s' k) \<and> live s' q n" if "(k, q) \<in> set (pairs_of s' n)" for n k q
    using that fd_okD(3,4) [OF ok, of k q n] by (auto simp: F P live')
  show "distinct (fds_of s' k)" for k using fd_okD(5) [OF ok, of k] by (auto simp: F)
  show "distinct (pairs_of s' n)" for n using fd_okD(6) [OF ok, of n] by (auto simp: P)
  show "k = k'" if "q \<in> set (fds_of s' k)" "q \<in> set (fds_of s' k')" for k k' q
    using that fd_okD(7) [OF ok, of q k k'] by (auto simp: F)
qed

lemma delete_fds_effect:
  assumes "distinct (map snd l)" and "\<And>k p. (k, p) \<in> set l \<Longrightarrow> \<exists>fh. heap s p = Some (Live fh)"
  shows "\<exists>s' c. delete_fds l s = Inr s' \<and> next_addr s' = next_addr s \<and> file2fd_map s' = file2fd_map s
    \<and> (\<forall>k. fds_of s' k = filter (\<lambda>p. (k, p) \<notin> set l) (fds_of s k))
    \<and> (\<forall>p. heap s' p = (if p \<in> snd ` set l then map_option (\<lambda>_. Freed (c p)) (heap s p) else heap s p))"
  using assms
proof (induction l arbitrary: s)
  case Nil
  then show ?case by simp
next
  case (Cons kp l)
  obtain k p where kp: "kp = (k, p)" by (cases kp)
  have "\<exists>fh. heap s p = Some (Live fh)" using Cons.prems(2) [of k p] kp by simp
  then obtain fh where fh: "heap s p = Some (Live fh)" by blast
  define s1 where "s1 = s\<lparr>session2fd_map := map_remove p k (session2fd_map s), heap := (heap s)(p \<mapsto> Freed fh)\<rparr>"
  have d: "delete_fd p (s\<lparr>session2fd_map := map_remove p k (session2fd_map s)\<rparr>) = Inr s1"
    using fh by (simp add: delete_fd_def deref_def s1_def)
  have F1: "fds_of s1 j = (if j = k then removeAll p (fds_of s k) else fds_of s j)" for j
    by (simp add: s1_def fds_of_def map_at_remove)
  have "\<exists>s' c. delete_fds l s1 = Inr s' \<and> next_addr s' = next_addr s1 \<and> file2fd_map s' = file2fd_map s1
    \<and> (\<forall>k. fds_of s' k = filter (\<lambda>p. (k, p) \<notin> set l) (fds_of s1 k))
    \<and> (\<forall>p. heap s' p = (if p \<in> snd ` set l then map_option (\<lambda>_. Freed (c p)) (heap s1 p) else heap s1 p))"
    by (rule Cons.IH) (use Cons.prems kp in \<open>auto simp: s1_def image_iff\<close>)
  then obtain s' c where IH: "delete_fds l s1 = Inr s'" "next_addr s' = next_addr s1" "file2fd_map s' = file2fd_map s1"
    "\<And>j. fds_of s' j = filter (\<lambda>p. (j, p) \<notin> set l) (fds_of s1 j)"
    "\<And>q. heap s' q = (if q \<in> snd ` set l then map_option (\<lambda>_. Freed (c q)) (heap s1 q) else heap s1 q)" by blast
  have notin: "p \<notin> snd ` set l" using Cons.prems(1) kp by auto
  show ?case
  proof (rule exI [of _ s'], rule exI [of _ "c(p := fh)"], intro conjI allI)
    show "delete_fds (kp # l) s = Inr s'" using kp d IH(1) by simp
    show "next_addr s' = next_addr s" "file2fd_map s' = file2fd_map s" using IH(2,3) by (simp_all add: s1_def)
    show "fds_of s' j = filter (\<lambda>p. (j, p) \<notin> set (kp # l)) (fds_of s j)" for j
      by (auto simp: IH(4) F1 kp removeAll_filter_not_eq intro!: filter_cong)
    show "heap s' q = (if q \<in> snd ` set (kp # l) then map_option (\<lambda>_. Freed ((c(p := fh)) q)) (heap s q) else heap s q)" for q
      using IH(5) [of q] notin kp fh by (auto simp: s1_def)
  qed
qed

lemma pairs_distinct_snd:
  assumes "fd_ok s" shows "distinct (map snd (pairs_of s n))"
proof -
  have "inj_on snd (set (pairs_of s n))"
  proof (rule inj_onI)
    fix x y assume x: "x \<in> set (pairs_of s n)" and y: "y \<in> set (pairs_of s n)" and eq: "snd x = snd y"
    obtain k p k' where xy: "x = (k, p)" "y = (k', p)" using eq by (cases x, cases y) auto
    with x y fd_okD(3) [OF assms] have "p \<in> set (fds_of s k)" "p \<in> set (fds_of s k')" by auto
    with fd_okD(7) [OF assms] xy show "x = y" by blast
  qed
  with fd_okD(6) [OF assms, of n] show ?thesis by (simp add: distinct_map)
qed

text \<open>Deleting all handles of a file and dropping its list.\<close>

lemma delete_file_fds:
  assumes ok: "fd_ok s" and f: "file2fd_map s' = (file2fd_map s)(n := None)"
    and d: "delete_fds (pairs_of s n) s = Inr t" and t: "heap s' = heap t" "next_addr s' = next_addr t"
      "session2fd_map s' = session2fd_map t"
  shows "fd_ok s'"
proof -
  let ?D = "snd ` set (pairs_of s n)"
  have lv: "\<exists>fh. heap s p = Some (Live fh)" if "(k, p) \<in> set (pairs_of s n)" for k p
    using fd_okD(4) [OF ok that] by (auto simp: live_def)
  obtain c where E: "next_addr t = next_addr s"
    "\<And>k. fds_of t k = filter (\<lambda>p. (k, p) \<notin> set (pairs_of s n)) (fds_of s k)"
    "\<And>p. heap t p = (if p \<in> ?D then map_option (\<lambda>_. Freed (c p)) (heap s p) else heap s p)"
    using delete_fds_effect [of "pairs_of s n" s, OF pairs_distinct_snd [OF ok]] lv d by auto
  have own: "(k, p) \<in> set (pairs_of s n) \<longleftrightarrow> p \<in> ?D" if "p \<in> set (fds_of s k)" for k p
  proof
    assume "p \<in> ?D"
    then obtain k' where k': "(k', p) \<in> set (pairs_of s n)" by auto
    with fd_okD(7) [OF ok that fd_okD(3) [OF ok k']] show "(k, p) \<in> set (pairs_of s n)" by simp
  qed force
  have other: "p \<notin> ?D" if "(k, p) \<in> set (pairs_of s j)" "j \<noteq> n" for k p j
  proof
    assume "p \<in> ?D"
    then obtain k' where "(k', p) \<in> set (pairs_of s n)" by auto
    from fd_okD(4) [OF ok this] fd_okD(4) [OF ok that(1)] that(2) show False by (auto simp: live_def)
  qed
  show ?thesis
  proof (rule fd_ok_delete [OF ok, of s' ?D c])
    show "fds_of s' k = filter (\<lambda>p. p \<notin> ?D) (fds_of s k)" for k
      using E(2) [of k] t(3) own [of _ k] by (auto simp: fds_of_def intro!: filter_cong)
    show "pairs_of s' j = filter (\<lambda>(k, p). p \<notin> ?D) (pairs_of s j)" for j
    proof (cases "j = n")
      case True
      have "filter (\<lambda>(k, p). p \<notin> ?D) (pairs_of s n) = []" by (force simp: filter_empty_conv)
      with True f show ?thesis by (simp add: pairs_of_def [of s'])
    next
      case False
      then have "filter (\<lambda>(k, p). p \<notin> ?D) (pairs_of s j) = pairs_of s j"
        using other by (auto intro!: filter_True)
      with False f show ?thesis by (simp add: pairs_of_def)
    qed
  qed (use E t in auto)
qed

section \<open>Every handler keeps the handle maps consistent\<close>

text \<open>A handler is safe on a state when it neither uses a deleted handle of the maps nor breaks the maps.\<close>

definition safe :: "api_error + api_state \<Rightarrow> bool" where
  "safe r = (case r of Inl e \<Rightarrow> e \<noteq> Api_dangling | Inr s \<Rightarrow> fd_ok s)"

lemma safe_simps [simp]: "safe (Inl e) = (e \<noteq> Api_dangling)" "safe (Inr s) = fd_ok s"
  by (simp_all add: safe_def)

lemma safe_bind:
  assumes "\<And>e. m = Inl e \<Longrightarrow> e \<noteq> Api_dangling" "\<And>x. m = Inr x \<Longrightarrow> safe (f x)"
  shows "safe (bindR m f)"
  using assms by (cases m) auto

lemma safe_client:
  assumes ok: "fd_ok s" and f: "\<And>c s'. fd_ok s' \<Longrightarrow> safe (f (c, s'))"
  shows "safe (bindR (client_of sid s) f)"
proof (rule safe_bind)
  show "e \<noteq> Api_dangling" if "client_of sid s = Inl e" for e
    using that by (auto simp: client_of_def Let_def split: if_splits)
  show "safe (f x)" if "client_of sid s = Inr x" for x
    using that f same_fdsD [OF _ ok] same_fds_client [of sid s "fst x" "snd x" s] by (cases x) auto
qed

lemma safe_find:
  assumes ok: "fd_ok s"
    and f: "\<And>p s'. fd_ok s' \<Longrightarrow> p \<in> set (fds_of s' sid) \<Longrightarrow> deref p s' = Inr fd \<Longrightarrow> safe (f (p, s'))"
  shows "safe (bindR (findFd sid fd s) f)"
  using findFd_ok [OF ok, of sid fd] f by (metis bindR_simps(2))

lemma safe_db:
  assumes ok: "fd_ok s" and f: "\<And>r s'. same_fds s s' \<Longrightarrow> fd_ok s' \<Longrightarrow> safe (g (r, s'))"
  shows "safe (bindR (call_db op s) g)"
proof (rule safe_bind)
  show "e \<noteq> Api_dangling" if "call_db op s = Inl e" for e
    using that by (auto simp: call_db_def split: sum.splits prod.splits if_splits)
  show "safe (g x)" if "call_db op s = Inr x" for x
    using that f same_fdsD [OF _ ok] same_fds_call_db [of op s "fst x" "snd x" s] by (cases x) auto
qed

lemma fd_ok_simps [simp]:
  "fd_ok (reply sid xid r s) = fd_ok s" "fd_ok (sendLockChangeEvent n s) = fd_ok s"
  "fd_ok (sendContentChangeEvent n s) = fd_ok s" "fd_ok (send_events e n ss s) = fd_ok s"
  "fd_ok (s\<lparr>session2client_map := x2\<rparr>) = fd_ok s" "fd_ok (s\<lparr>client2heldLock_map := x4\<rparr>) = fd_ok s"
  "fd_ok (s\<lparr>client2ephemeral_map := x5\<rparr>) = fd_ok s" "fd_ok (s\<lparr>file2lockQueue_map := x6\<rparr>) = fd_ok s"
  "fd_ok (s\<lparr>file2lockChange_map := x7\<rparr>) = fd_ok s" "fd_ok (s\<lparr>file2contentChange_map := x8\<rparr>) = fd_ok s"
  "fd_ok (s\<lparr>session2fd_map := map_touch [] (session2fd_map s) sid\<rparr>) = fd_ok s"
  "fd_ok (s\<lparr>file2fd_map := map_touch [] (file2fd_map s) n\<rparr>) = fd_ok s"
proof -
  have iff: "fd_ok t = fd_ok u" if "same_fds u t" for t u
    using that by (auto simp: same_fds_def fd_ok_def live_def)
  show "fd_ok (reply sid xid r s) = fd_ok s" "fd_ok (sendLockChangeEvent n s) = fd_ok s"
  "fd_ok (sendContentChangeEvent n s) = fd_ok s" "fd_ok (send_events e n ss s) = fd_ok s"
  "fd_ok (s\<lparr>session2client_map := x2\<rparr>) = fd_ok s" "fd_ok (s\<lparr>client2heldLock_map := x4\<rparr>) = fd_ok s"
  "fd_ok (s\<lparr>client2ephemeral_map := x5\<rparr>) = fd_ok s" "fd_ok (s\<lparr>file2lockQueue_map := x6\<rparr>) = fd_ok s"
  "fd_ok (s\<lparr>file2lockChange_map := x7\<rparr>) = fd_ok s" "fd_ok (s\<lparr>file2contentChange_map := x8\<rparr>) = fd_ok s"
  "fd_ok (s\<lparr>session2fd_map := map_touch [] (session2fd_map s) sid\<rparr>) = fd_ok s"
  "fd_ok (s\<lparr>file2fd_map := map_touch [] (file2fd_map s) n\<rparr>) = fd_ok s"
    by (simp_all add: iff)
qed

lemma granted_safe: "fd_ok s \<Longrightarrow> safe (lock_granted n c sid xid s)"
  by (auto simp: lock_granted_def Let_def assertR_def)

lemma hand_over_safe: "fd_ok s \<Longrightarrow> safe (hand_over n s)"
  by (auto simp: hand_over_def Let_def intro!: safe_client split: option.splits list.splits)

lemma getContents_safe: "fd_ok s \<Longrightarrow> safe (getContentsAndStat env arg sid xid s)"
  unfolding getContentsAndStat_def
  by (auto intro!: safe_find safe_db split: option.splits bool.splits)

lemma setContents_safe: "fd_ok s \<Longrightarrow> safe (setContents env arg sid xid s)"
  unfolding setContents_def
  by (auto intro!: safe_find safe_db split: option.splits bool.splits)

lemma acquire_safe: "fd_ok s \<Longrightarrow> safe (acquire env arg sid xid s)"
  unfolding acquire_def
  by (auto intro!: safe_client safe_find safe_db granted_safe split: option.splits bool.splits)

lemma tryAcquire_safe: "fd_ok s \<Longrightarrow> safe (tryAcquire env arg sid xid s)"
  unfolding tryAcquire_def
  by (auto intro!: safe_client safe_find safe_db granted_safe split: option.splits bool.splits)

lemma lock_released_safe: "fd_ok s \<Longrightarrow> safe (lock_released n c sid xid s)"
  using hand_over_safe [of "reply sid xid (ret_val True)
      (s\<lparr>client2heldLock_map := map_erase n c (client2heldLock_map s)\<rparr>)" n]
  by (auto simp: lock_released_def Let_def safe_def bindR_def split: sum.splits)

lemma release_safe: "fd_ok s \<Longrightarrow> safe (release env arg sid xid s)"
  unfolding release_def
  by (auto intro!: safe_client safe_find safe_db lock_released_safe split: option.splits bool.splits)

lemma startSession_safe: "fd_ok s \<Longrightarrow> safe (startSession arg sid xid s)"
  by (simp add: startSession_def)

lemma register_events_fds [simp]: "fd_ok (register_events mode n sid s) = fd_ok s"
  by (simp add: register_events_def Let_def)

lemma fileReopen_safe: "fd_ok s \<Longrightarrow> safe (fileReopen arg sid xid s)"
  using add_fd_ok(1) [of s sid "ar_fd arg"] by (auto simp: fileReopen_def Let_def split: prod.splits)

lemma safe_open_node:
  assumes ok: "fd_ok s" and f: "\<And>r s'. fd_ok s' \<Longrightarrow> safe (g (r, s'))"
  shows "safe (bindR (open_node env n mode c s) g)"
proof (cases "has_mode mode CREATE_DIRECTORY \<or> has_mode mode CREATE_FILE")
  case True
  then show ?thesis unfolding open_node_def bindR_assoc if_P [OF True]
    by (auto intro!: safe_db [OF ok] f split: option.splits prod.splits bool.splits)
next
  case False
  then show ?thesis unfolding open_node_def if_not_P [OF False]
    by (auto intro!: safe_db [OF ok] f)
qed

lemma add_fd_snd: "fd_ok s \<Longrightarrow> fd_ok (snd (add_fd sid fh s))"
  using add_fd_ok(1) [of s sid fh "fst (add_fd sid fh s)" "snd (add_fd sid fh s)"] by simp

lemma fileOpen_safe: "fd_ok s \<Longrightarrow> safe (fileOpen env arg sid xid s)"
  unfolding fileOpen_def Let_def case_prod_beta
  by (auto intro!: safe_client safe_open_node simp: add_fd_snd split: option.splits)

lemma drop_node_safe:
  assumes ok: "fd_ok s" shows "safe (drop_node env n fd c sid xid s)"
proof -
  define s1 where "s1 = s\<lparr>file2fd_map := map_touch [] (file2fd_map s) n\<rparr>"
  have ok1: "fd_ok s1" using ok by (simp add: s1_def)
  have l: "map_at [] (file2fd_map s) n = pairs_of s1 n" by (simp add: s1_def pairs_of_def)
  have lv: "\<exists>fh. heap s1 p = Some (Live fh)" if "(k, p) \<in> set (pairs_of s1 n)" for k p
    using fd_okD(4) [OF ok1 that] by (auto simp: live_def)
  obtain t where t: "delete_fds (pairs_of s1 n) s1 = Inr t" "file2fd_map t = file2fd_map s1"
    using delete_fds_effect [of "pairs_of s1 n" s1, OF pairs_distinct_snd [OF ok1]] lv by blast
  have "fd_ok (t\<lparr>file2fd_map := (file2fd_map t)(n := None)\<rparr>)"
    by (rule delete_file_fds [OF ok1 _ t(1)]) (simp_all add: t(2))
  then have "fd_ok (t\<lparr>file2fd_map := (file2fd_map t)(n := None), file2lockQueue_map := q\<rparr>)" for q
    by simp
  with t(1) l show ?thesis by (simp add: drop_node_def Let_def s1_def [symmetric] split: option.split)
qed

text \<open>The handle through which a node is deleted is among those that are deleted; its name is read afterwards.\<close>

lemma delete_fds_cells:
  "delete_fds l s = Inr s' \<Longrightarrow> heap s p = Some (Live fh) \<or> heap s p = Some (Freed fh) \<Longrightarrow>
   heap s' p = Some (Live fh) \<or> heap s' p = Some (Freed fh)"
proof (induction l s rule: delete_fds.induct)
  case (2 sid f l s)
  then obtain g t where "heap s f = Some (Live g)" "t = s\<lparr>session2fd_map := map_remove f sid (session2fd_map s), heap := (heap s)(f \<mapsto> Freed g)\<rparr>"
    "delete_fds l t = Inr s'" by (auto simp: delete_fd_def deref_def split: option.splits cell.splits)
  with 2 show ?case by (cases "p = f") (auto simp: delete_fd_def deref_def)
qed auto

lemma drop_node_stale:
  assumes ok: "fd_ok s" and p: "(k, p) \<in> set (pairs_of s n)" "heap s p = Some (Live fh)" and g: "e_ghost env (fh_file_name fh) = None"
  shows "drop_node env n p c sid xid s = Inl Api_stale"
proof -
  define s1 where "s1 = s\<lparr>file2fd_map := map_touch [] (file2fd_map s) n\<rparr>"
  have ok1: "fd_ok s1" using ok by (simp add: s1_def)
  have l: "map_at [] (file2fd_map s) n = pairs_of s1 n" "pairs_of s1 n = pairs_of s n" by (simp_all add: s1_def pairs_of_def)
  have lv: "\<exists>fh. heap s1 p = Some (Live fh)" if "(k, p) \<in> set (pairs_of s1 n)" for k p
    using fd_okD(4) [OF ok1 that] by (auto simp: live_def)
  obtain t cc where t: "delete_fds (pairs_of s1 n) s1 = Inr t"
    "\<forall>p. heap t p = (if p \<in> snd ` set (pairs_of s1 n) then map_option (\<lambda>_. Freed (cc p)) (heap s1 p) else heap s1 p)"
    using delete_fds_effect [of "pairs_of s1 n" s1, OF pairs_distinct_snd [OF ok1]] lv by blast
  have h: "heap s1 p = Some (Live fh)" using p(2) by (simp add: s1_def)
  moreover have "p \<in> snd ` set (pairs_of s1 n)" using p(1) l(2) by force
  ultimately have "heap t p = Some (Freed (cc p))" using t(2) by simp
  with delete_fds_cells [OF t(1)] h have "heap t p = Some (Freed fh)" by force
  with t(1) l(1) g show ?thesis by (simp add: drop_node_def Let_def s1_def [symmetric] ghost_name_def)
qed

lemma fileDelete_safe: "fd_ok s \<Longrightarrow> safe (fileDelete env arg sid xid s)"
  unfolding fileDelete_def
  by (auto intro!: safe_client safe_find safe_db drop_node_safe split: option.splits bool.splits)

lemma scan_fds_found:
  assumes ok: "fd_ok s" and ps: "set ps \<subseteq> set (fds_of s sid)" and p: "p \<in> set ps" "deref p s = Inr fh"
  shows "\<exists>q. scan_fds fh ps s = Inr (Some q)"
  using ps p
proof (induction ps)
  case (Cons q ps)
  then obtain fq where "deref q s = Inr fq" using live_in_session [OF ok, of q sid] by auto
  with Cons show ?case by auto
qed simp

lemma findFd_existing:
  assumes ok: "fd_ok s" and p: "p \<in> set (fds_of s sid)" "deref p s = Inr fh"
  shows "\<exists>q. findFd sid fh s = Inr (q, s\<lparr>session2fd_map := map_touch [] (session2fd_map s) sid\<rparr>)"
proof -
  let ?s = "s\<lparr>session2fd_map := map_touch [] (session2fd_map s) sid\<rparr>"
  have "fd_ok ?s" "p \<in> set (fds_of ?s sid)" "deref p ?s = Inr fh"
    using ok p by (simp_all add: fds_of_def deref_def)
  from scan_fds_found [OF this(1) subset_refl this(2,3)] show ?thesis
    by (auto simp: findFd_def Let_def fds_of_def)
qed

text \<open>Releasing a lock through a handle of the session leaves all handles where they are.\<close>

lemma lock_released_same: "lock_released n c sid xid t = Inr s' \<Longrightarrow> same_fds s s' = same_fds s t"
  by (auto simp: lock_released_def Let_def same_fds_hand_over)

lemma release_steps:
  assumes "release env fh sid xid s = Inr s'"
  obtains c s1 q s2 fq r3 s3 where "client_of sid s = Inr (c, s1)" "findFd sid fh s1 = Inr (q, s2)"
    "deref q s2 = Inr fq"
    "call_db (px_resetLockOwner (exec_db env) (fh_file_name fq) (fh_instance_number fq)) s2 = Inr (r3, s3)"
    "s' = reply sid xid (ret_err PAXOS_ERROR) s3 \<or> s' = reply sid xid (ret_err FS_FAIL) s3
      \<or> lock_released (fh_file_name fq) c sid xid s3 = Inr s'"
proof -
  from assms obtain c s1 q s2 fq r3 s3 where 1: "client_of sid s = Inr (c, s1)" "findFd sid fh s1 = Inr (q, s2)"
    "deref q s2 = Inr fq"
    and 3: "call_db (px_resetLockOwner (exec_db env) (fh_file_name fq) (fh_instance_number fq)) s2 = Inr (r3, s3)"
    and r3: "(case r3 of None \<Rightarrow> Inr (reply sid xid (ret_err PAXOS_ERROR) s3)
       | Some False \<Rightarrow> Inr (reply sid xid (ret_err FS_FAIL) s3)
       | Some True \<Rightarrow> lock_released (fh_file_name fq) c sid xid s3) = Inr s'"
    unfolding release_def by (simp only: bindR_eq_Inr split_paired_Ex prod.case) blast
  have "s' = reply sid xid (ret_err PAXOS_ERROR) s3 \<or> s' = reply sid xid (ret_err FS_FAIL) s3
      \<or> lock_released (fh_file_name fq) c sid xid s3 = Inr s'"
    using r3 by (auto split: option.splits bool.splits)
  with 1 3 show thesis by (rule that)
qed

lemma release_same_fds:
  assumes ok: "fd_ok s" and p: "p \<in> set (fds_of s sid)" "deref p s = Inr fh"
    and r: "release env fh sid xid s = Inr s'"
  shows "same_fds s s'"
  using r
proof (rule release_steps)
  fix c s1 q s2 fq r3 s3
  assume 1: "client_of sid s = Inr (c, s1)" "findFd sid fh s1 = Inr (q, s2)"
    and 3: "call_db (px_resetLockOwner (exec_db env) (fh_file_name fq) (fh_instance_number fq)) s2 = Inr (r3, s3)"
    and alt: "s' = reply sid xid (ret_err PAXOS_ERROR) s3 \<or> s' = reply sid xid (ret_err FS_FAIL) s3
      \<or> lock_released (fh_file_name fq) c sid xid s3 = Inr s'"
  have s1: "same_fds s s1" using same_fds_client [OF 1(1), of s] by simp
  then have "fd_ok s1" "p \<in> set (fds_of s1 sid)" "deref p s1 = Inr fh"
    using ok p same_fdsD by (auto simp: same_fds_def deref_def)
  from findFd_existing [OF this] 1(2) s1 have s2: "same_fds s s2" by auto
  have "same_fds s s3" using same_fds_call_db [OF 3, of s] s2 by simp
  with alt show ?thesis by (auto simp: lock_released_same)
qed

lemma queue_position_Some:
  assumes "queue_position q it sid = Some r"
  shows "r = it \<and> (it < length q \<longrightarrow> fst (q ! it) = sid)"
proof (rule queue_position.raw_induct [OF _ assms])
  fix f :: "(session \<times> u32) list \<Rightarrow> nat \<Rightarrow> session \<Rightarrow> nat option" and q it sid y
  assume "\<And>q it sid y. f q it sid = Some y \<Longrightarrow> y = it \<and> (it < length q \<longrightarrow> fst (q ! it) = sid)"
    and "(if it < length q then if fst (q ! it) = sid then Some it else f q it sid else Some it) = Some y"
  then show "y = it \<and> (it < length q \<longrightarrow> fst (q ! it) = sid)" by (auto split: if_splits)
qed

lemma queue_position_eq:
  "queue_position q it sid = (if it < length q \<and> fst (q ! it) \<noteq> sid then None else Some it)"
proof (cases "it < length q \<and> fst (q ! it) \<noteq> sid")
  case True
  then have "queue_position q it sid \<noteq> Some r" for r using queue_position_Some [of q it sid r] by auto
  with True show ?thesis by (cases "queue_position q it sid") auto
next
  case False
  then show ?thesis by (subst queue_position.simps) auto
qed

lemma clear_queue_same: "clear_queue n sid t = Inr s' \<Longrightarrow> same_fds s s' = same_fds s t"
  by (auto simp: clear_queue_def Let_def split: option.splits if_splits)

lemma clear_queue_error: "clear_queue n sid t = Inl e \<Longrightarrow> e \<noteq> Api_dangling"
  by (auto simp: clear_queue_def Let_def split: option.splits)

lemma clear_events_same [simp]: "same_fds s (clear_events n sid t) = same_fds s t"
  by (simp add: clear_events_def Let_def)

text \<open>Taking one handle out of both lists and deleting it.\<close>

lemma fd_ok_delete_one:
  assumes ok: "fd_ok s" and p: "p \<in> set (fds_of s sid)" "deref p s = Inr fh"
    and m: "same_fds (s\<lparr>file2fd_map := map_remove (sid, p) (fh_file_name fh) (file2fd_map s),
                       session2fd_map := map_remove p sid (session2fd_map s)\<rparr>) t" (is "same_fds ?s t")
    and d: "delete_fd p t = Inr s'"
  shows "fd_ok s'"
proof -
  have fh: "heap s p = Some (Live fh)" using p(2) by (auto simp: deref_def split: option.splits cell.splits)
  have t: "heap t = heap s" "next_addr t = next_addr s" "fds_of t = fds_of ?s" "pairs_of t = pairs_of ?s"
    using m by (simp_all add: same_fds_def)
  have s': "s' = t\<lparr>heap := (heap t)(p \<mapsto> Freed fh)\<rparr>"
    using d fh t(1) by (auto simp: delete_fd_def deref_def)
  have F: "fds_of s' k = (if k = sid then removeAll p (fds_of s k) else fds_of s k)" for k
    using t(3) by (simp add: s' fds_of_def [abs_def] map_at_remove fun_eq_iff)
  have P: "pairs_of s' n = (if n = fh_file_name fh then removeAll (sid, p) (pairs_of s n) else pairs_of s n)" for n
    using t(4) by (simp add: s' pairs_of_def [abs_def] map_at_remove fun_eq_iff)
  have own: "k = sid" if "p \<in> set (fds_of s k)" for k using fd_okD(7) [OF ok that p(1)] .
  have own2: "k = sid \<and> n = fh_file_name fh" if "(k, p) \<in> set (pairs_of s n)" for k n
    using own [OF fd_okD(3) [OF ok that]] fd_okD(4) [OF ok that] fh by (simp add: live_def)
  show ?thesis
  proof (rule fd_ok_delete [OF ok, of s' "{p}" "\<lambda>_. fh"])
    show "fds_of s' k = filter (\<lambda>q. q \<notin> {p}) (fds_of s k)" for k
      using own [of k] by (auto simp: F removeAll_filter_not_eq intro!: filter_cong filter_True [symmetric])
    show "pairs_of s' n = filter (\<lambda>(k, q). q \<notin> {p}) (pairs_of s n)" for n
      using own2 [of _ n] by (auto simp: P removeAll_filter_not_eq intro!: filter_cong filter_True [symmetric])
  qed (use fh t in \<open>auto simp: s'\<close>)
qed

lemma same_fds_handle: "same_fds s s' \<Longrightarrow> fds_of s' = fds_of s \<and> deref p s' = deref p s"
  by (simp add: same_fds_def deref_def)

lemma clear_events_deref [simp]: "deref p (clear_events n sid s) = deref p s"
  by (simp add: clear_events_def deref_def Let_def)

lemma clear_queue_deref: "clear_queue n sid s = Inr s' \<Longrightarrow> deref p s' = deref p s"
  by (auto simp: clear_queue_def deref_def Let_def split: option.splits if_splits)

text \<open>The last part of \<open>fileClose\<close>.\<close>

lemma close_fd_safe:
  assumes ok: "fd_ok s" and p: "p \<in> set (fds_of s sid)" "deref p s = Inr fh"
  shows "safe (close_fd p fh sid xid s)"
  unfolding close_fd_def Let_def
proof (rule safe_bind)
  let ?s = "s\<lparr>file2fd_map := map_remove (sid, p) (fh_file_name fh) (file2fd_map s),
                session2fd_map := map_remove p sid (session2fd_map s)\<rparr>"
  show "e \<noteq> Api_dangling" if "clear_queue (fh_file_name fh) sid ?s = Inl e" for e
    by (rule clear_queue_error [OF that])
  fix t assume t: "clear_queue (fh_file_name fh) sid ?s = Inr t"
  let ?t = "clear_events (fh_file_name fh) sid t"
  have d: "deref p ?t = Inr fh" using clear_queue_deref [OF t, of p] p(2) by (simp add: deref_def [of p s] deref_def [of p ?s])
  have m: "same_fds ?s ?t" using clear_queue_same [OF t, of ?s] by simp
  obtain u where u: "delete_fd p ?t = Inr u" using d by (simp add: delete_fd_def)
  show "safe (bindR (delete_fd p ?t) (\<lambda>s. Inr (reply sid xid (ret_val True) s)))"
    using fd_ok_delete_one [OF ok p m u] u by simp
qed

lemma fileClose_safe:
  assumes "fd_ok s" shows "safe (fileClose env arg sid xid s)"
  unfolding fileClose_def
proof (rule safe_client [OF assms], unfold prod.case, rule safe_find, assumption, unfold prod.case)
  fix c p s assume ok: "fd_ok s" and p: "p \<in> set (fds_of s sid)" "deref p s = Inr arg"
  let ?rel = "if fh_file_name arg \<in> map_at {} (client2heldLock_map s) c then release env arg sid (-1) s else Inr s"
  let ?rest = "\<lambda>s. bindR (deref p s) (\<lambda>fh.
     let s = s\<lparr>client2ephemeral_map := map_touch {} (client2ephemeral_map s) c\<rparr> in
     if fh_file_name fh \<in> map_at {} (client2ephemeral_map s) c
     then bindR (fileDelete env fh sid (-1) s) (\<lambda>s. Inr (reply sid xid (ret_val True) s))
     else close_fd p fh sid xid s)"
  have "safe (bindR ?rel ?rest)"
  proof (rule safe_bind)
    show "e \<noteq> Api_dangling" if "?rel = Inl e" for e
      using that release_safe [OF ok, of env arg sid "-1"] by (auto simp: safe_def split: if_splits)
    fix t assume t: "?rel = Inr t"
    have same: "same_fds s t"
      using t release_same_fds [OF ok p, of env "-1" t] by (auto split: if_splits)
    let ?t = "t\<lparr>client2ephemeral_map := map_touch {} (client2ephemeral_map t) c\<rparr>"
    have "same_fds s ?t" using same by simp
    then have t': "fd_ok ?t" "p \<in> set (fds_of ?t sid)" "deref p ?t = Inr arg"
      using same_fdsD [OF _ ok] same_fds_handle [of s ?t p] p by auto
    have dt: "deref p t = Inr arg" using same_fds_handle [OF same] p by simp
    have "safe (bindR (fileDelete env arg sid (-1) ?t) (\<lambda>s. Inr (reply sid xid (ret_val True) s)))"
      using fileDelete_safe [OF t'(1), of env arg sid "-1"]
      by (intro safe_bind) (auto simp: safe_def)
    with close_fd_safe [OF t', of xid] show "safe (?rest t)"
      by (simp only: dt bindR_simps Let_def) simp
  qed
  then show "safe (bindR (deref p s) (\<lambda>fh. bindR (if fh_file_name fh \<in> map_at {} (client2heldLock_map s) c
      then release env fh sid (-1) s else Inr s) ?rest))"
    by (simp only: p(2) bindR_simps)
qed

lemma handle_safe: "fd_ok s \<Longrightarrow> safe (handle env r sid xid s)"
  by (cases r) (simp_all add: fileOpen_safe fileClose_safe fileDelete_safe getContents_safe setContents_safe
      acquire_safe tryAcquire_safe release_safe startSession_safe fileReopen_safe
      increment_def decrement_def test_message_def)

lemma promoted_safe:
  assumes "fd_ok s" shows "safe (api_initializeLeader env s)"
proof -
  have "fd_ok t" if "heap t = heap s" "next_addr t = next_addr s" "file2fd_map t = Map.empty"
    "session2fd_map t = Map.empty" for t
    using fd_okD(1) [OF assms] that by (auto simp: fd_ok_def fds_of_def pairs_of_def)
  then show ?thesis by (auto simp: api_initializeLeader_def Let_def split: sum.splits)
qed

section \<open>The end of a session\<close>

definition same_cl :: "api_state \<Rightarrow> api_state \<Rightarrow> bool" where
  "same_cl s s' \<longleftrightarrow> map_at [] (session2client_map s') = map_at [] (session2client_map s)
     \<and> map_at {} (client2ephemeral_map s') = map_at {} (client2ephemeral_map s)"

lemma map_at_touch_fun: "map_at d (map_touch d m k) = map_at d m"
  by (simp add: fun_eq_iff)

lemma same_cl_updates [simp]:
  "same_cl s s"
  "same_cl s (t\<lparr>outbox := x1\<rparr>) = same_cl s t" "same_cl s (t\<lparr>heap := x2\<rparr>) = same_cl s t"
  "same_cl s (t\<lparr>api_db := x3\<rparr>) = same_cl s t" "same_cl s (t\<lparr>client2heldLock_map := x4\<rparr>) = same_cl s t"
  "same_cl s (t\<lparr>file2fd_map := x5\<rparr>) = same_cl s t" "same_cl s (t\<lparr>session2fd_map := x9\<rparr>) = same_cl s t"
  "same_cl s (t\<lparr>file2lockQueue_map := x6\<rparr>) = same_cl s t"
  "same_cl s (t\<lparr>file2lockChange_map := x7\<rparr>) = same_cl s t"
  "same_cl s (t\<lparr>file2contentChange_map := x8\<rparr>) = same_cl s t"
  "same_cl s (t\<lparr>session2client_map := map_touch [] (session2client_map t) sid\<rparr>) = same_cl s t"
  "same_cl s (t\<lparr>client2ephemeral_map := map_touch {} (client2ephemeral_map t) c\<rparr>) = same_cl s t"
  by (simp_all add: same_cl_def map_at_touch_fun)

lemma same_cl_send [simp]:
  "same_cl s (reply sid xid r t) = same_cl s t" "same_cl s (sendLockChangeEvent n t) = same_cl s t"
  by (auto simp: reply_def sendLockChangeEvent_def send_events_def split: option.splits)

lemma same_cl_client: "client_of sid t = Inr (c, s') \<Longrightarrow> same_cl s s' = same_cl s t"
  by (auto simp: client_of_def Let_def split: if_splits)

lemma same_cl_call_db: "call_db f t = Inr (r, s') \<Longrightarrow> same_cl s s' = same_cl s t"
  by (auto simp: call_db_def split: sum.splits prod.splits if_splits)

lemma same_cl_released: "lock_released n c sid xid t = Inr s' \<Longrightarrow> same_cl s s' = same_cl s t"
  by (auto simp: lock_released_def hand_over_def Let_def same_cl_client split: option.splits list.splits)

lemma same_cl_clear [simp]: "same_cl s (clear_events n sid t) = same_cl s t"
  by (simp add: clear_events_def Let_def)

lemma same_cl_queue: "clear_queue n sid t = Inr s' \<Longrightarrow> same_cl s s' = same_cl s t"
  by (auto simp: clear_queue_def Let_def split: option.splits if_splits)

lemma same_cl_add [simp]: "same_cl s (snd (add_fd sid fh t)) = same_cl s t"
  by (simp add: add_fd_def new_fd_def same_cl_def)

lemma same_cl_find:
  assumes "findFd sid fh t = Inr (p, s')" shows "same_cl s s' = same_cl s t"
proof -
  let ?t = "t\<lparr>session2fd_map := map_touch [] (session2fd_map t) sid\<rparr>"
  have "s' = ?t \<or> s' = snd (add_fd sid fh ?t)"
    using assms by (force simp: findFd_def Let_def split: option.splits)
  then show ?thesis by auto
qed

lemma same_cl_release:
  assumes "release env fh sid xid s = Inr s'" shows "same_cl s s'"
  using assms
proof (rule release_steps)
  fix c s1 q s2 fq r3 s3
  assume 1: "client_of sid s = Inr (c, s1)" "findFd sid fh s1 = Inr (q, s2)"
    and 3: "call_db (px_resetLockOwner (exec_db env) (fh_file_name fq) (fh_instance_number fq)) s2 = Inr (r3, s3)"
    and alt: "s' = reply sid xid (ret_err PAXOS_ERROR) s3 \<or> s' = reply sid xid (ret_err FS_FAIL) s3
      \<or> lock_released (fh_file_name fq) c sid xid s3 = Inr s'"
  have "same_cl s s3"
    using same_cl_client [OF 1(1), of s] same_cl_find [OF 1(2), of s] same_cl_call_db [OF 3, of s] by simp
  with alt show ?thesis by (auto simp: same_cl_released)
qed

text \<open>Closing the first handle in the list of a session, when its file is not ephemeral.\<close>

lemma findFd_head:
  assumes "fds_of s sid = p # ps" "deref p s = Inr fh"
  shows "findFd sid fh s = Inr (p, s\<lparr>session2fd_map := map_touch [] (session2fd_map s) sid\<rparr>)"
  using assms by (simp add: findFd_def Let_def fds_of_def deref_def)

lemma close_fd_effect:
  assumes ok: "fd_ok s" and p: "p \<in> set (fds_of s sid)" "deref p s = Inr fh"
    and r: "close_fd p fh sid xid s = Inr s'"
  shows "same_cl s s'" "fds_of s' sid = removeAll p (fds_of s sid)"
    "\<And>q. q \<noteq> p \<Longrightarrow> deref q s' = deref q s"
proof -
  let ?n = "fh_file_name fh"
  let ?u = "s\<lparr>file2fd_map := map_remove (sid, p) ?n (file2fd_map s), session2fd_map := map_remove p sid (session2fd_map s)\<rparr>"
  obtain v w where v: "clear_queue ?n sid ?u = Inr v" and w: "delete_fd p (clear_events ?n sid v) = Inr w"
    and s': "s' = reply sid xid (ret_val True) w"
    using r by (auto simp: close_fd_def Let_def)
  have vw: "w = (clear_events ?n sid v)\<lparr>heap := (heap (clear_events ?n sid v))(p \<mapsto> Freed fh)\<rparr>"
    using w clear_queue_deref [OF v, of p] p(2) by (auto simp: delete_fd_def deref_def [of p s] deref_def [of p ?u])
  have sv: "same_fds ?u (clear_events ?n sid v)" using clear_queue_same [OF v, of ?u] by simp
  show "same_cl s s'" using same_cl_queue [OF v, of s] by (simp add: s' vw)
  show "fds_of s' sid = removeAll p (fds_of s sid)"
    using sv by (simp add: s' vw reply_def same_fds_def fds_of_def [abs_def] fun_eq_iff map_at_remove)
  show "deref q s' = deref q s" if "q \<noteq> p" for q
    using sv that by (simp add: s' vw deref_def reply_def same_fds_def)
qed

lemma fileClose_head:
  assumes ok: "fd_ok s" and p: "fds_of s sid = p # ps" "deref p s = Inr fh"
    and e: "fh_file_name fh \<notin> map_at {} (client2ephemeral_map s) (map_at [] (session2client_map s) sid)"
    and r: "fileClose env fh sid xid s = Inr s'"
  shows "same_cl s s'" "fds_of s' sid = ps" "\<And>q. q \<noteq> p \<Longrightarrow> deref q s' = deref q s"
proof -
  let ?n = "fh_file_name fh" and ?c = "map_at [] (session2client_map s) sid"
  define s0 where "s0 = s\<lparr>session2client_map := map_touch [] (session2client_map s) sid\<rparr>"
  define s1 where "s1 = s0\<lparr>session2fd_map := map_touch [] (session2fd_map s0) sid\<rparr>"
  have c: "client_of sid s = Inr (?c, s0)"
    using r by (auto simp: fileClose_def client_of_def Let_def s0_def split: if_splits)
  have "fds_of s0 sid = p # ps" "deref p s0 = Inr fh" using p by (simp_all add: s0_def fds_of_def deref_def)
  then have f: "findFd sid fh s0 = Inr (p, s1)" unfolding s1_def by (rule findFd_head)
  have "same_fds s s0" "same_cl s s0" by (simp_all add: s0_def)
  then have s1: "same_fds s s1" "same_cl s s1" by (simp_all add: s1_def)
  have ok1: "fd_ok s1" "p \<in> set (fds_of s1 sid)" "deref p s1 = Inr fh"
    using same_fdsD [OF s1(1) ok] same_fds_handle [OF s1(1), of p] p by auto
  let ?rel = "if ?n \<in> map_at {} (client2heldLock_map s1) ?c then release env fh sid (-1) s1 else Inr s1"
  obtain t where t: "?rel = Inr t" and rest: "bindR (deref p t) (\<lambda>fh.
     let s = t\<lparr>client2ephemeral_map := map_touch {} (client2ephemeral_map t) ?c\<rparr> in
     if fh_file_name fh \<in> map_at {} (client2ephemeral_map s) ?c
     then bindR (fileDelete env fh sid (-1) s) (\<lambda>s. Inr (reply sid xid (ret_val True) s))
     else close_fd p fh sid xid s) = Inr s'"
    using r unfolding fileClose_def c bindR_simps prod.case f ok1(3) by (auto simp only: bindR_eq_Inr)
  have "same_fds s1 t" "same_cl s1 t"
    using t release_same_fds [OF ok1, of env "-1" t] same_cl_release [of env fh sid "-1" s1 t]
    by (auto split: if_splits)
  with s1 have t': "same_fds s t" "same_cl s t" using same_fds_trans by (auto simp: same_cl_def)
  let ?t = "t\<lparr>client2ephemeral_map := map_touch {} (client2ephemeral_map t) ?c\<rparr>"
  have "same_fds s ?t" using t'(1) by simp
  then have ok2: "fd_ok ?t" "p \<in> set (fds_of ?t sid)" "deref p ?t = Inr fh" and eq: "fds_of ?t = fds_of s"
    "\<And>q. deref q ?t = deref q s"
    using same_fdsD [OF _ ok] same_fds_handle [of s ?t] p by auto
  have "close_fd p fh sid xid ?t = Inr s'"
    using rest same_fds_handle [OF t'(1), of p] p(2) t'(2) e by (simp add: Let_def same_cl_def)
  note E = close_fd_effect [OF ok2 this]
  show "same_cl s s'" using E(1) t'(2) by (auto simp: same_cl_def map_at_touch_fun)
  show "fds_of s' sid = ps" using E(2) eq p(1) fd_okD(5) [OF ok, of sid] by simp
  show "deref q s' = deref q s" if "q \<noteq> p" for q using E(3) [OF that] eq by simp
qed

text \<open>No handle in the list is of a file that is ephemeral for the client of the session.\<close>

definition no_ephemeral :: "session \<Rightarrow> api_state \<Rightarrow> bool" where
  "no_ephemeral sid s \<longleftrightarrow> (\<forall>p fh. p \<in> set (fds_of s sid) \<longrightarrow> deref p s = Inr fh
     \<longrightarrow> fh_file_name fh \<notin> map_at {} (client2ephemeral_map s) (map_at [] (session2client_map s) sid))"

lemma close_all_safe:
  assumes "fd_ok s" "fds_of s sid = ps" "no_ephemeral sid s"
  shows "safe (close_all env sid ps s) \<and> (\<forall>s'. close_all env sid ps s = Inr s' \<longrightarrow> fds_of s' sid = [])"
  using assms
proof (induction ps arbitrary: s)
  case (Cons p ps)
  obtain fh where d: "deref p s = Inr fh" using live_in_session [OF Cons.prems(1), of p sid] Cons.prems(2) by auto
  have e: "fh_file_name fh \<notin> map_at {} (client2ephemeral_map s) (map_at [] (session2client_map s) sid)"
    using Cons.prems(2,3) d by (auto simp: no_ephemeral_def)
  have sf: "safe (fileClose env fh sid (-1) s)" by (rule fileClose_safe [OF Cons.prems(1)])
  show ?case
  proof (cases "fileClose env fh sid (-1) s")
    case (Inl err)
    with d sf show ?thesis by simp
  next
    case (Inr t)
    note E = fileClose_head [OF Cons.prems(1,2) d e Inr]
    have "p \<notin> set ps" using fd_okD(5) [OF Cons.prems(1), of sid] Cons.prems(2) by simp
    then have "no_ephemeral sid t" using Cons.prems(2,3) E
      by (force simp: no_ephemeral_def same_cl_def)
    moreover have "fd_ok t" using sf Inr by simp
    ultimately have "safe (close_all env sid ps t) \<and> (\<forall>s'. close_all env sid ps t = Inr s' \<longrightarrow> fds_of s' sid = [])"
      using Cons.IH E(2) by blast
    with d Inr show ?thesis by simp
  qed
qed simp

lemma disconnect_effect:
  assumes "fd_ok s" "no_ephemeral sid s"
  shows "safe (disconnect env sid s) \<and> (\<forall>s'. disconnect env sid s = Inr s' \<longrightarrow> fds_of s' sid = [])"
proof -
  define s0 where "s0 = s\<lparr>session2fd_map := map_touch [] (session2fd_map s) sid\<rparr>"
  have same: "same_fds s s0" "same_cl s s0" by (simp_all add: s0_def)
  have "fd_ok s0" "fds_of s0 sid = map_at [] (session2fd_map s) sid" "no_ephemeral sid s0"
    using same_fdsD [OF same(1) assms(1)] same_fds_handle [OF same(1)] same(2) assms(2)
    by (simp_all add: no_ephemeral_def same_cl_def fds_of_def [of s])
  note E = close_all_safe [OF this, of env]
  show ?thesis
    using E unfolding disconnect_def Let_def s0_def [symmetric]
    by (cases "close_all env sid (map_at [] (session2fd_map s) sid) s0") (auto simp: fds_of_def)
qed

end
