(* ===== verification/Chubby_Api_Properties.thy ===== *)
theory Chubby_Api_Properties
  imports Chubby_Api_Handles
begin

text \<open>
  Properties of the procedures of \<open>src/server/serverimpl.cc\<close>: what each does to the store, the
  queues and the messages sent, on the leader and on a replica that is not the leader, and the
  runs in which the service departs from its description in \<open>src/include/client.h\<close>.
\<close>

section \<open>Calls of the store\<close>

text \<open>A call of the replicated store on the leader is a call of the store.\<close>

definition lift_call :: "db_error + ('a \<times> server_db) \<Rightarrow> api_state \<Rightarrow> api_error + ('a option \<times> api_state)" where
  "lift_call r s = (case r of Inl e \<Rightarrow> Inl (Api_store (Rs_db e)) | Inr (x, db) \<Rightarrow> Inr (Some x, s\<lparr>api_db := db\<rparr>))"

lemma lift_call_simps [simp]:
  "lift_call (Inl e) s = Inl (Api_store (Rs_db e))" "lift_call (Inr (x, db)) s = Inr (Some x, s\<lparr>api_db := db\<rparr>)"
  by (simp_all add: lift_call_def)

lemma call_db_leader:
  assumes "f (True, api_db s) = bindR (lift_db r) (\<lambda>(x, db). Inr (g x, True, db))" "api_leader s"
  shows "call_db f s = lift_call (bindR r (\<lambda>(x, db). Inr (g x, db))) s"
  using assms by (cases r) (auto simp: call_db_def caught_def split: prod.splits)

lemma call_db_leader_id:
  assumes "f (True, api_db s) = bindR (lift_db r) (\<lambda>(x, db). Inr (x, True, db))" "api_leader s"
  shows "call_db f s = lift_call r s"
  using assms by (cases r) (auto simp: call_db_def caught_def split: prod.splits)

lemma call_store:
  assumes "api_leader s" "length n < 2 ^ 29"
  shows "call_db (px_resetLockOwner (exec_db env) n i) s = lift_call (resetLockOwner n (ucast (ucast i :: u32)) (api_db s)) s"
    "call_db (px_checkAndDelete (exec_db env) n i) s
       = lift_call (checkAndDelete (e_hash env) n (ucast (ucast i :: u32)) (api_db s)) s"
    "length c < 2 ^ 29 \<Longrightarrow> call_db (px_testAndSetLockOwner (exec_db env) n i c) s
       = lift_call (testAndSetLockOwner n (ucast (ucast i :: u32)) c (api_db s)) s"
    "length c < 2 ^ 29 \<Longrightarrow> call_db (px_checkAndUpdate (exec_db env) n i c) s
       = lift_call (checkAndUpdate (e_hash env) n (ucast (ucast i :: u32)) c (api_db s)) s"
    "call_db (px_checkAndCreate (exec_db env) n d) s
       = lift_call (bindR (checkAndCreate (e_hash env) n d (api_db s)) (\<lambda>(x, db).
           Inr ((x \<noteq> None, ucast (ucast (case x of Some i \<Rightarrow> i | None \<Rightarrow> e_junk env) :: u32)), db))) s"
    "call_db (px_checkAndOpen (exec_db env) n) s
       = lift_call (bindR (checkAndOpen n (api_db s)) (\<lambda>(x, db).
           Inr ((x \<noteq> None, ucast (ucast (case x of Some i \<Rightarrow> i | None \<Rightarrow> e_junk env) :: u32)), db))) s"
  by (rule call_db_leader_id call_db_leader, rule px_unlock px_delete px_lock px_update px_create px_open;
      use assms in simp)+

section \<open>The end of a session\<close>

text \<open>
  Closing the handles of a session needs no call of the store when its client holds no lock on
  their files, none of them is ephemeral for the client, and nobody waits for their locks.
\<close>

definition quiet :: "session \<Rightarrow> api_state \<Rightarrow> bool" where
  "quiet sid s \<longleftrightarrow> map_at [] (session2client_map s) sid \<noteq> []
     \<and> (\<forall>p fh. p \<in> set (fds_of s sid) \<longrightarrow> deref p s = Inr fh
         \<longrightarrow> fh_file_name fh \<notin> map_at {} (client2ephemeral_map s) (map_at [] (session2client_map s) sid)
           \<and> fh_file_name fh \<notin> map_at {} (client2heldLock_map s) (map_at [] (session2client_map s) sid)
           \<and> file2lockQueue_map s (fh_file_name fh) = None)"

lemma reply_fields [simp]:
  "client2heldLock_map (reply sid xid r s) = client2heldLock_map s"
  "file2lockQueue_map (reply sid xid r s) = file2lockQueue_map s"
  by (simp_all add: reply_def)

lemma clear_events_fields [simp]:
  "client2heldLock_map (clear_events n sid s) = client2heldLock_map s"
  "file2lockQueue_map (clear_events n sid s) = file2lockQueue_map s"
  by (simp_all add: clear_events_def Let_def)

lemma close_fd_quiet:
  assumes "deref p s = Inr fh" "file2lockQueue_map s (fh_file_name fh) = None"
  shows "\<exists>s'. close_fd p fh sid xid s = Inr s' \<and> client2heldLock_map s' = client2heldLock_map s
    \<and> file2lockQueue_map s' = file2lockQueue_map s"
proof -
  let ?s = "s\<lparr>file2fd_map := map_remove (sid, p) (fh_file_name fh) (file2fd_map s),
              session2fd_map := map_remove p sid (session2fd_map s)\<rparr>"
  have "deref p ?s = Inr fh" using assms(1) by (simp add: deref_def)
  with assms(2) show ?thesis by (simp add: close_fd_def Let_def clear_queue_def delete_fd_def)
qed

lemma fileClose_quiet:
  assumes p: "fds_of s sid = p # ps" "deref p s = Inr fh" and q: "quiet sid s"
  shows "\<exists>s'. fileClose env fh sid xid s = Inr s' \<and> client2heldLock_map s' = client2heldLock_map s
    \<and> file2lockQueue_map s' = file2lockQueue_map s"
proof -
  let ?n = "fh_file_name fh" and ?c = "map_at [] (session2client_map s) sid"
  define s0 where "s0 = s\<lparr>session2client_map := map_touch [] (session2client_map s) sid\<rparr>"
  define s1 where "s1 = s0\<lparr>session2fd_map := map_touch [] (session2fd_map s0) sid\<rparr>"
  define s2 where "s2 = s1\<lparr>client2ephemeral_map := map_touch {} (client2ephemeral_map s1) ?c\<rparr>"
  have c: "client_of sid s = Inr (?c, s0)"
    using q by (simp add: quiet_def client_of_def Let_def s0_def)
  have "fds_of s0 sid = p # ps" "deref p s0 = Inr fh" using p by (simp_all add: s0_def fds_of_def deref_def)
  then have f: "findFd sid fh s0 = Inr (p, s1)" unfolding s1_def by (rule findFd_head)
  have d: "deref p s1 = Inr fh" "deref p s2 = Inr fh" using p by (simp_all add: s0_def s1_def s2_def deref_def)
  have n: "?n \<notin> map_at {} (client2heldLock_map s1) ?c" "?n \<notin> map_at {} (client2ephemeral_map s1) ?c"
    "file2lockQueue_map s2 ?n = None"
    using q p by (auto simp: quiet_def s0_def s1_def s2_def)
  have "fileClose env fh sid xid s = close_fd p fh sid xid s2"
    using n d by (simp add: fileClose_def c f Let_def s2_def [symmetric])
  moreover have "client2heldLock_map s2 = client2heldLock_map s" "file2lockQueue_map s2 = file2lockQueue_map s"
    by (simp_all add: s0_def s1_def s2_def)
  ultimately show ?thesis using close_fd_quiet [OF d(2) n(3), of sid xid] by simp
qed

lemma close_all_quiet:
  assumes "fd_ok s" "fds_of s sid = ps" "quiet sid s"
  shows "\<exists>s'. close_all env sid ps s = Inr s' \<and> fd_ok s' \<and> fds_of s' sid = []"
  using assms
proof (induction ps arbitrary: s)
  case (Cons p ps)
  obtain fh where d: "deref p s = Inr fh" using live_in_session [OF Cons.prems(1), of p sid] Cons.prems(2) by auto
  from fileClose_quiet [OF Cons.prems(2) d Cons.prems(3)] obtain t where
    t: "fileClose env fh sid (-1) s = Inr t" "client2heldLock_map t = client2heldLock_map s"
      "file2lockQueue_map t = file2lockQueue_map s" by blast
  have "fh_file_name fh \<notin> map_at {} (client2ephemeral_map s) (map_at [] (session2client_map s) sid)"
    using Cons.prems(2,3) d by (auto simp: quiet_def)
  note E = fileClose_head [OF Cons.prems(1,2) d this t(1)]
  have "p \<notin> set ps" using fd_okD(5) [OF Cons.prems(1), of sid] Cons.prems(2) by simp
  then have "quiet sid t" using Cons.prems(2,3) E t(2,3) by (force simp: quiet_def same_cl_def)
  moreover have "fd_ok t" using fileClose_safe [OF Cons.prems(1), of env fh sid "-1"] t(1) by simp
  ultimately obtain s' where "close_all env sid ps t = Inr s'" "fd_ok s'" "fds_of s' sid = []"
    using Cons.IH E(2) by blast
  with d t show ?case by simp
qed simp

fun calm :: "api_env \<Rightarrow> server_event list \<Rightarrow> api_state \<Rightarrow> bool" where
  "calm env [] s = True"
| "calm env (e # es) s =
     ((\<forall>sid. e = Disconnect sid \<longrightarrow> no_ephemeral sid s)
      \<and> (case server_step env e s of Inl _ \<Rightarrow> True | Inr s' \<Rightarrow> calm env es s'))"

lemma server_step_safe:
  assumes "fd_ok s" "\<And>sid. e = Disconnect sid \<Longrightarrow> no_ephemeral sid s"
  shows "safe (server_step env e s)"
  using assms handle_safe promoted_safe disconnect_effect by (cases e) auto

lemma server_run_safe: "fd_ok s \<Longrightarrow> calm env es s \<Longrightarrow> safe (server_run env es s)"
proof (induction es arbitrary: s)
  case (Cons e es)
  have "safe (server_step env e s)" using Cons.prems by (intro server_step_safe) auto
  with Cons show ?case by (cases "server_step env e s") auto
qed simp

lemma new_api_state_ok: "fd_ok (new_api_state db n)"
  by (simp add: fd_ok_def new_api_state_def fds_of_def pairs_of_def)

section \<open>Effects of the lock procedures\<close>

text \<open>What looking up the client and the handle leaves unchanged.\<close>

definition kept :: "api_state \<Rightarrow> api_state \<Rightarrow> bool" where
  "kept s s' \<longleftrightarrow> api_db s' = api_db s \<and> api_leader s' = api_leader s \<and> outbox s' = outbox s
     \<and> file2lockQueue_map s' = file2lockQueue_map s \<and> client2heldLock_map s' = client2heldLock_map s
     \<and> file2lockChange_map s' = file2lockChange_map s \<and> file2contentChange_map s' = file2contentChange_map s
     \<and> same_cl s s'"

lemma kept_find:
  assumes "findFd sid fh t = Inr (p, s')" "kept s t" shows "kept s s'"
proof -
  let ?t = "t\<lparr>session2fd_map := map_touch [] (session2fd_map t) sid\<rparr>"
  have "s' = ?t \<or> s' = snd (add_fd sid fh ?t)"
    using assms(1) by (force simp: findFd_def Let_def split: option.splits)
  then show ?thesis using assms(2) by (auto simp: kept_def add_fd_def new_fd_def same_cl_def)
qed

lemma find_entry:
  assumes "fd_ok s"
  obtains p s1 where "findFd sid fh s = Inr (p, s1)" "deref p s1 = Inr fh" "fd_ok s1" "kept s s1"
proof -
  from findFd_ok [OF assms, of sid fh] obtain p s1 where
    1: "findFd sid fh s = Inr (p, s1)" "fd_ok s1" "deref p s1 = Inr fh" by blast
  moreover have "kept s s" by (simp add: kept_def)
  ultimately show thesis using that [OF 1(1,3,2) kept_find] by blast
qed

lemma client_entry:
  assumes "fd_ok s" "map_at [] (session2client_map s) sid = c" "c \<noteq> []"
  obtains s0 p s1 where "client_of sid s = Inr (c, s0)" "findFd sid fh s0 = Inr (p, s1)"
    "deref p s1 = Inr fh" "fd_ok s1" "kept s s1"
proof -
  let ?s0 = "s\<lparr>session2client_map := map_touch [] (session2client_map s) sid\<rparr>"
  have c: "client_of sid s = Inr (c, ?s0)" using assms(2,3) by (auto simp: client_of_def Let_def)
  have "fd_ok ?s0" "kept s ?s0" using assms(1) by (simp_all add: kept_def)
  then show thesis using find_entry [of ?s0 sid fh] kept_find that [OF c] by metis
qed

lemma kept_reply: "kept s t \<Longrightarrow> kept s ((reply sid xid r t)\<lparr>outbox := outbox s\<rparr>)"
  by (simp add: kept_def same_cl_def reply_def)

lemma reply_outbox: "xid \<noteq> -1 \<Longrightarrow> outbox (reply sid xid r t) = outbox t @ [Reply sid xid r]"
  by (simp add: reply_def)

lemma send_fields [simp]:
  "api_db (reply sid xid r s) = api_db s" "api_db (sendLockChangeEvent n s) = api_db s"
  "api_db (sendContentChangeEvent n s) = api_db s" "api_db (send_events e n ss s) = api_db s"
  "client2heldLock_map (sendLockChangeEvent n s) = client2heldLock_map s"
  "file2lockQueue_map (sendLockChangeEvent n s) = file2lockQueue_map s"
  by (simp_all add: reply_def sendLockChangeEvent_def sendContentChangeEvent_def send_events_def split: option.splits)

text \<open>The messages that announce a change to the sessions that asked for it.\<close>

definition announced :: "u32 \<Rightarrow> string \<Rightarrow> (string \<rightharpoonup> session list) \<Rightarrow> outmsg list" where
  "announced ev n m = map (\<lambda>sid. Event sid \<lparr>ev_event = ev, ev_fname = n\<rparr>) (map_at [] m n)"

lemma outbox_send [simp]:
  "outbox (reply sid xid r s) = outbox s @ (if xid = -1 then [] else [Reply sid xid r])"
  "outbox (sendLockChangeEvent n s) = outbox s @ announced LOCK_CHANGED n (file2lockChange_map s)"
  "outbox (sendContentChangeEvent n s) = outbox s @ announced CONTENT_MODIFIED n (file2contentChange_map s)"
  by (simp_all add: reply_def sendLockChangeEvent_def sendContentChangeEvent_def send_events_def announced_def
      split: option.splits)

lemma reply_maps [simp]:
  "session2client_map (reply sid xid r s) = session2client_map s"
  "file2lockChange_map (reply sid xid r s) = file2lockChange_map s"
  "file2contentChange_map (reply sid xid r s) = file2contentChange_map s"
  by (simp_all add: reply_def)

text \<open>A handle whose file name is valid and whose instance number was not cut, on a leader with a
  consistent store, for a client that has started a session.\<close>

definition lock_ready :: "FileHandler \<Rightarrow> session \<Rightarrow> string \<Rightarrow> api_state \<Rightarrow> bool" where
  "lock_ready fh sid c s \<longleftrightarrow> fd_ok s \<and> api_leader s \<and> (\<exists>m. db_wf m (api_db s))
     \<and> map_at [] (session2client_map s) sid = c \<and> c \<noteq> [] \<and> plain c \<and> c \<noteq> NO_OWNER \<and> length c < 2 ^ 29
     \<and> checkName (fh_file_name fh) \<and> length (fh_file_name fh) < 2 ^ 29 \<and> fh_instance_number fh < 2 ^ 32"

definition lock_free :: "FileHandler \<Rightarrow> server_db \<Rightarrow> bool" where
  "lock_free fh db \<longleftrightarrow> (\<exists>r. select db (fh_file_name fh) = Some r
     \<and> integer (r_instance_number r) = fh_instance_number fh \<and> r_lock_owner r = NO_OWNER)"

lemma lock_call:
  assumes "lock_ready fh sid c s" "kept s s1"
  shows "call_db (px_testAndSetLockOwner (exec_db env) (fh_file_name fh) (fh_instance_number fh) c) s1
    = Inr (Some (lock_free fh (api_db s)), if lock_free fh (api_db s)
        then s1\<lparr>api_db := update_where (fh_file_name fh) (locked c) (api_db s)\<rparr> else s1)"
proof -
  from assms have d: "api_leader s1" "api_db s1 = api_db s" by (auto simp: lock_ready_def kept_def)
  from assms obtain m where m: "db_wf m (api_db s)" by (auto simp: lock_ready_def)
  have s1: "s1\<lparr>api_db := api_db s\<rparr> = s1" using d by simp
  have "call_db (px_testAndSetLockOwner (exec_db env) (fh_file_name fh) (fh_instance_number fh) c) s1
    = lift_call (testAndSetLockOwner (fh_file_name fh) (fh_instance_number fh) c (api_db s)) s1"
    using assms d by (simp add: call_store lock_ready_def through_u32)
  then show ?thesis
    using assms s1 testAndSetLockOwner_eq [OF m, of "fh_file_name fh" c "fh_instance_number fh"]
    by (auto simp: lock_ready_def lock_free_def split: option.splits)
qed

lemma lock_request:
  assumes r: "lock_ready fh sid c s"
  obtains s1 s2 where "kept s s1"
    "acquire env fh sid xid s =
      (if lock_free fh (api_db s) then if file2lockQueue_map s (fh_file_name fh) = None then Inr s2 else Inl Api_assert
       else Inr (s1\<lparr>file2lockQueue_map := map_push (sid, xid) (fh_file_name fh) (file2lockQueue_map s)\<rparr>))"
    "tryAcquire env fh sid xid s =
      (if lock_free fh (api_db s) then if file2lockQueue_map s (fh_file_name fh) = None then Inr s2 else Inl Api_assert
       else Inr (reply sid xid (ret_val False) s1))"
    "s2 = sendLockChangeEvent (fh_file_name fh) (reply sid xid (ret_val True)
       (s1\<lparr>api_db := update_where (fh_file_name fh) (locked c) (api_db s),
           client2heldLock_map := map_insert (fh_file_name fh) c (client2heldLock_map s)\<rparr>))"
proof -
  have "fd_ok s" "map_at [] (session2client_map s) sid = c" "c \<noteq> []" using r by (auto simp: lock_ready_def)
  from client_entry [OF this, of fh] obtain s0 p s1 where 1: "client_of sid s = Inr (c, s0)"
    "findFd sid fh s0 = Inr (p, s1)" "deref p s1 = Inr fh" "fd_ok s1" "kept s s1" .
  note call = lock_call [OF r 1(5)]
  have k: "file2lockQueue_map s1 = file2lockQueue_map s" "client2heldLock_map s1 = client2heldLock_map s"
    using 1(5) by (simp_all add: kept_def)
  show thesis
    by (rule that [OF 1(5)]) (use 1 call k in \<open>auto simp: acquire_def tryAcquire_def lock_granted_def Let_def\<close>)
qed

lemma select_locked: "select (update_where n (locked c) db) n = map_option (locked c) (select db n)"
  using select_update_where [of "locked c" n db n] by (simp add: locked_def)

lemma select_unlocked: "select (update_where n unlocked db) n = map_option unlocked (select db n)"
  using select_update_where [of unlocked n db n] by (simp add: unlocked_def)

lemma created_node:
  assumes "db_inv m db" "m + 2 < 2 ^ 31" "checkName n" "fst (spec_cmd h (Create n d) (abs_db db)) = Instance (Some i)"
  obtains db' r where "checkAndCreate h n d db = Inr (Some i, db')" "i < 2 ^ 32"
    "select db' n = Some r" "integer (r_instance_number r) = i"
proof -
  from store.exec_refines [of m db "Create n d" h] assms obtain db' where
    db': "run_cmd h (Create n d) db = Inr (Instance (Some i), db')"
      "spec_cmd h (Create n d) (abs_db db) = (Instance (Some i), abs_db db')"
    by (auto simp del: run_cmd.simps spec_cmd.simps)
  then have c: "checkAndCreate h n d db = Inr (Some i, db')" by auto
  have "Some (new_node i d) = nodes (abs_db db') n"
    using db'(2) by (auto simp: Let_def simp del: nodes_abs split: if_splits dest!: arg_cong [where f = "\<lambda>s. nodes s n"])
  then obtain r where "select db' n = Some r" "i_instance (abs_row r) = i" by (cases "select db' n") (auto simp: new_node_def abs_row_def)
  with c created_u32 [OF assms(1-3) c] show thesis by (intro that) (auto simp: abs_row_def)
qed

lemma fds_register [simp]: "fds_of (register_events mode n sid s) = fds_of s" "deref p (register_events mode n sid s) = deref p s"
  by (auto simp: register_events_def Let_def fds_of_def [abs_def] deref_def)

lemma fds_send [simp]:
  "fds_of (reply sid xid r s) = fds_of s" "fds_of (sendContentChangeEvent n s) = fds_of s"
  "deref p (reply sid xid r s) = deref p s" "deref p (sendContentChangeEvent n s) = deref p s"
  by (auto simp: reply_def sendContentChangeEvent_def send_events_def fds_of_def [abs_def] deref_def split: option.splits)

lemma register_fields [simp]:
  "outbox (register_events mode n sid s) = outbox s" "api_db (register_events mode n sid s) = api_db s"
  by (simp_all add: register_events_def Let_def)

lemma add_fd_fields [simp]: "outbox (snd (add_fd sid fh s)) = outbox s" "api_db (snd (add_fd sid fh s)) = api_db s"
  by (simp_all add: add_fd_def new_fd_def)

lemma opened:
  assumes "fd_ok s" and "open_node env n mode c s0 = Inr (Some (True, i), s)"
    and "client_of sid t = Inr (c, s0)" and "checkName n" "\<not> (has_mode mode CREATE_DIRECTORY \<and> has_mode mode CREATE_FILE)"
    and x: "xid \<noteq> -1"
  defines "fh \<equiv> signed_fd env (master_sequence_number s) n i (has_mode mode WRITE)"
  shows "\<exists>s' p. fileOpen env \<lparr>ao_name = n, ao_mode = mode\<rparr> sid xid t = Inr s' \<and> fd_ok s' \<and> api_db s' = api_db s
    \<and> p \<in> set (fds_of s' sid) \<and> deref p s' = Inr fh \<and> Reply sid xid (R_fd (RetFd_val fh)) \<in> set (outbox s')"
proof -
  obtain p s1 where a: "add_fd sid fh s = (p, s1)" by (cases "add_fd sid fh s")
  note ok = add_fd_ok [OF assms(1) a]
  have db: "api_db s1 = api_db s" using arg_cong [OF a, of "\<lambda>x. api_db (snd x)"] by simp
  have "fileOpen env \<lparr>ao_name = n, ao_mode = mode\<rparr> sid xid t = Inr (let s' = reply sid xid (R_fd (RetFd_val fh))
      (register_events mode n sid s1) in if getParentName n \<noteq> ''/'' then sendContentChangeEvent (getParentName n) s' else s')"
    using assms(2-5) a by (auto simp: fileOpen_def Let_def fh_def [symmetric])
  then show ?thesis using ok x db by (auto simp: Let_def intro!: exI [of _ p])
qed

text \<open>What a replica that is not the leader answers to the requests that need the store.\<close>

fun refusal :: "request \<Rightarrow> ret option" where
  "refusal (Rq_fileOpen a) = (if checkName (ao_name a)
      \<and> \<not> (has_mode (ao_mode a) CREATE_DIRECTORY \<and> has_mode (ao_mode a) CREATE_FILE)
     then Some (R_fd (RetFd_errCode PAXOS_ERROR)) else None)"
| "refusal (Rq_getContentsAndStat a) = Some (R_contents (RetContents_errCode PAXOS_ERROR))"
| "refusal (Rq_fileDelete a) = Some (ret_err PAXOS_ERROR)"
| "refusal (Rq_setContents a) = Some (ret_err PAXOS_ERROR)"
| "refusal (Rq_acquire a) = Some (ret_err PAXOS_ERROR)"
| "refusal (Rq_tryAcquire a) = Some (ret_err PAXOS_ERROR)"
| "refusal (Rq_release a) = Some (ret_err PAXOS_ERROR)"
| "refusal r = None"

text \<open>The strings of a request are shorter than 512 MB.\<close>

fun rq_fits :: "request \<Rightarrow> bool" where
  "rq_fits (Rq_fileOpen a) = (length (ao_name a) < 2 ^ 29)"
| "rq_fits (Rq_fileClose a) = (length (fh_file_name a) < 2 ^ 29)"
| "rq_fits (Rq_fileDelete a) = (length (fh_file_name a) < 2 ^ 29)"
| "rq_fits (Rq_getContentsAndStat a) = (length (fh_file_name a) < 2 ^ 29)"
| "rq_fits (Rq_setContents a) = (length (fh_file_name (as_fd a)) < 2 ^ 29 \<and> length (as_content a) < 2 ^ 29)"
| "rq_fits (Rq_acquire a) = (length (fh_file_name a) < 2 ^ 29)"
| "rq_fits (Rq_tryAcquire a) = (length (fh_file_name a) < 2 ^ 29)"
| "rq_fits (Rq_release a) = (length (fh_file_name a) < 2 ^ 29)"
| "rq_fits r = True"

lemma follower_runPaxos:
  "small_param p \<Longrightarrow> runPaxos (local_execute h junk) p (False, db) = Inl Not_leader"
  using paxosParam.to_msg_ok [of p] by (auto simp: small_param_def runPaxos_def local_execute_def)

lemma call_follower:
  assumes "\<not> api_leader s" "length n < 2 ^ 29" "length c < 2 ^ 29"
  shows "call_db (px_resetLockOwner (exec_db env) n i) s = Inr (None, s)"
    "call_db (px_checkAndDelete (exec_db env) n i) s = Inr (None, s)"
    "call_db (px_testAndSetLockOwner (exec_db env) n i c) s = Inr (None, s)"
    "call_db (px_checkAndUpdate (exec_db env) n i c) s = Inr (None, s)"
    "call_db (px_checkAndCreate (exec_db env) n d) s = Inr (None, s)"
    "call_db (px_checkAndOpen (exec_db env) n) s = Inr (None, s)"
    "call_db (px_checkAndRead (exec_db env) n i) s = Inr (None, s)"
  using assms small_params [of n c]
  by (simp_all add: call_db_def caught_def px_resetLockOwner_def px_checkAndDelete_def px_testAndSetLockOwner_def
      px_checkAndUpdate_def px_checkAndCreate_def px_checkAndOpen_def px_checkAndRead_def follower_runPaxos)

section \<open>Sample states\<close>

definition sample_env :: api_env where
  "sample_env = \<lparr>e_hash = (\<lambda>_. 7), e_junk = 0, e_ghost = Some\<rparr>"

text \<open>Two sessions; the node \<open>/f\<close> is locked by the client of the second.\<close>

definition sample_api :: api_state where
  "sample_api = (new_api_state sample_locked 3)\<lparr>session2client_map := [1 \<mapsto> ''c2'', 2 \<mapsto> ''c1'']\<rparr>"

definition sample_fh :: FileHandler where
  "sample_fh = \<lparr>fh_magic_number = 0, fh_master_sequence_number = 3, fh_file_name = ''/f'',
     fh_instance_number = 1, fh_write_is_allowed = False\<rparr>"

lemma sample_api_ok: "fd_ok sample_api"
  by (simp add: sample_api_def new_api_state_ok)

lemma sample_api_simps [simp]:
  "api_leader sample_api" "api_db sample_api = sample_locked" "master_sequence_number sample_api = 3"
  "session2client_map sample_api = [1 \<mapsto> ''c2'', 2 \<mapsto> ''c1'']" "file2lockQueue_map sample_api = Map.empty"
  "client2heldLock_map sample_api = Map.empty" "client2ephemeral_map sample_api = Map.empty"
  "outbox sample_api = []" "file2lockChange_map sample_api = Map.empty" "file2contentChange_map sample_api = Map.empty"
  by (simp_all add: sample_api_def new_api_state_def)

lemma sample_fh_simps [simp]: "fh_file_name sample_fh = ''/f''" "fh_instance_number sample_fh = 1"
  by (simp_all add: sample_fh_def)

lemma sample_select: "select sample_locked ''/f'' = Some (hd (fs sample_locked))"
  by (simp add: select_def sample_locked_def)

lemma sample_row: "r_lock_owner (hd (fs sample_locked)) = ''c1''" "integer (r_instance_number (hd (fs sample_locked))) = 1"
  by (simp_all add: sample_locked_def integer_def)

lemmas plain_eval = plain_def is_column_def columns_def lower_char_def NO_OWNER_def

lemma sample_ready: "lock_ready sample_fh 1 ''c2'' sample_api" "lock_ready sample_fh 2 ''c1'' sample_api"
  using sample_api_ok db_invD(1) [OF sample_locked_inv]
  by (auto simp: lock_ready_def plain_eval name_simps)

lemma sample_not_free: "\<not> lock_free sample_fh sample_locked"
  by (simp add: lock_free_def sample_select sample_row NO_OWNER_def)

lemmas db_evals = db_eval checkAndOpen_def testAndSetLockOwner_def resetLockOwner_def digits.simps

lemmas api_eval = startSession_def new_api_state_def fileOpen_def client_of_def open_node_def call_store
  has_mode_def mode_defs db_evals add_fd_def new_fd_def register_events_def reply_def map_push_def map_insert_def
  sendContentChangeEvent_def sendLockChangeEvent_def send_events_def signed_fd_def map_touch_def
  disconnect_def fileClose_def findFd_def deref_def map_at_upd fileDelete_def drop_node_def ghost_name_def delete_fd_def
  map_remove_def map_erase_def acquire_def tryAcquire_def lock_granted_def release_def lock_released_def hand_over_def

section \<open>Handles\<close>

text \<open>C5: Whatever requests arrive, from the start of the service, no handler uses or deletes a handle
  of the two maps of handles that has been deleted, and the maps stay consistent with each other: every
  handle of a session is listed once, alive, and listed under its file, and the other way round.
  This includes the ends of sessions, unless the session still has handles to ephemeral nodes. It
  does not include the handle that \<open>fileDelete\<close> has found and deleted itself, whose name it reads
  afterwards: that read ends the process or yields any text.\<close>

theorem handles_never_dangle:
  assumes "calm env es (new_api_state db n)"
  shows "server_run env es (new_api_state db n) \<noteq> Inl Api_dangling
    \<and> (\<forall>s. server_run env es (new_api_state db n) = Inr s \<longrightarrow> fd_ok s)"
  using server_run_safe [OF new_api_state_ok assms] by (auto simp: safe_def)

definition ephemeral_run :: "server_event list" where
  "ephemeral_run = [Request 1 10 (Rq_startSession ''c1''),
     Request 1 11 (Rq_fileOpen \<lparr>ao_name = ''/e'', ao_mode = 0x18\<rparr>),
     Request 1 12 (Rq_fileOpen \<lparr>ao_name = ''/e'', ao_mode = 0x1\<rparr>),
     Disconnect 1]"

theorem handles_never_dangle_witness:
  "\<exists>s. server_run sample_env (take 3 ephemeral_run) (new_api_state create 3) = Inr s \<and> fd_ok s"
proof -
  have "calm sample_env (take 3 ephemeral_run) (new_api_state create 3)"
    by (simp add: ephemeral_run_def api_eval)
  moreover obtain s where "server_run sample_env (take 3 ephemeral_run) (new_api_state create 3) = Inr s"
    by (simp add: ephemeral_run_def api_eval)
  ultimately show ?thesis using handles_never_dangle by blast
qed

text \<open>C34: Every deletion that succeeds in the store reads the handle of the request after it has deleted it:
  when reading the name of a deleted handle ends the process, the request does.\<close>

theorem delete_reads_deleted:
  assumes "fd_ok s" and c: "map_at [] (session2client_map s) sid = c" "c \<noteq> []" and "api_leader s" "length (fh_file_name fh) < 2 ^ 29"
    and d: "checkAndDelete (e_hash env) (fh_file_name fh) (ucast (ucast (fh_instance_number fh) :: u32)) (api_db s) = Inr (True, db)"
    and g: "e_ghost env (fh_file_name fh) = None"
  shows "fileDelete env fh sid xid s = Inl Api_stale"
proof -
  let ?s0 = "s\<lparr>session2client_map := map_touch [] (session2client_map s) sid\<rparr>"
  have cl: "client_of sid s = Inr (c, ?s0)" using c by (auto simp: client_of_def Let_def)
  have "fd_ok ?s0" "kept s ?s0" using assms(1) by (simp_all add: kept_def)
  then obtain p s1 where 1: "findFd sid fh ?s0 = Inr (p, s1)" "fd_ok s1" "p \<in> set (fds_of s1 sid)" "deref p s1 = Inr fh" "kept s s1"
    using findFd_ok [of ?s0 sid fh] kept_find by metis
  have h: "heap s1 p = Some (Live fh)" using 1(4) by (auto simp: deref_def split: option.splits cell.splits)
  moreover have "(sid, p) \<in> set (pairs_of s1 (fh_file_name fh))" using fd_okD(2) [OF 1(2,3)] h by (auto simp: live_def)
  moreover define s2 where "s2 = s1\<lparr>api_db := db\<rparr>"
  moreover have "same_fds s1 s2" by (simp add: s2_def)
  ultimately have "drop_node env (fh_file_name fh) p c sid xid s2 = Inl Api_stale"
    using same_fdsD [of s1 s2, OF _ 1(2)] g by (intro drop_node_stale [of s2 sid]) (auto simp: s2_def pairs_of_def)
  moreover have "call_db (px_checkAndDelete (exec_db env) (fh_file_name fh) (fh_instance_number fh)) s1 = Inr (Some True, s2)"
    using d assms(4,5) 1(5) by (simp add: call_store kept_def s2_def)
  ultimately show ?thesis using cl 1 by (simp add: fileDelete_def)
qed

theorem delete_reads_deleted_witness:
  "\<exists>s db. server_run (sample_env\<lparr>e_ghost := \<lambda>_. None\<rparr>) (take 2 ephemeral_run) (new_api_state create 3) = Inr s
    \<and> checkAndDelete (\<lambda>_. 7) ''/e'' 1 (api_db s) = Inr (True, db)
    \<and> fileDelete (sample_env\<lparr>e_ghost := \<lambda>_. None\<rparr>) (sample_fh\<lparr>fh_file_name := ''/e''\<rparr>) 1 5 s = Inl Api_stale"
proof -
  let ?env = "sample_env\<lparr>e_ghost := \<lambda>_. None\<rparr>"
  obtain s where s: "server_run ?env (take 2 ephemeral_run) (new_api_state create 3) = Inr s"
    by (simp add: ephemeral_run_def api_eval)
  moreover have "fd_ok s" using server_run_safe [OF new_api_state_ok, of ?env "take 2 ephemeral_run" create 3] s
    by (simp add: ephemeral_run_def api_eval)
  moreover obtain db where "checkAndDelete (\<lambda>_. 7) ''/e'' 1 (api_db s) = Inr (True, db)" "api_leader s"
      "map_at [] (session2client_map s) 1 = ''c1''"
    using s by (auto simp: ephemeral_run_def api_eval)
  ultimately show ?thesis
    using delete_reads_deleted [of s 1 "''c1''" "sample_fh\<lparr>fh_file_name := ''/e''\<rparr>" ?env db 5]
    by (auto simp: sample_env_def)
qed

text \<open>The end of a session whose client holds none of the locks of its open nodes, has no ephemeral
  node among them, and whose nodes nobody waits for, closes every handle of the session and
  forgets the session; it always returns.\<close>

theorem disconnect_closes_all:
  assumes "fd_ok s" and "quiet sid s"
  shows "\<exists>s'. disconnect env sid s = Inr s' \<and> fd_ok s' \<and> fds_of s' sid = [] \<and> session2client_map s' sid = None"
proof -
  define s0 where "s0 = s\<lparr>session2fd_map := map_touch [] (session2fd_map s) sid\<rparr>"
  have s0: "same_fds s s0" "same_cl s s0" by (simp_all add: s0_def)
  have "fd_ok s0" "fds_of s0 sid = map_at [] (session2fd_map s) sid"
    using same_fdsD [OF s0(1) assms(1)] same_fds_handle [OF s0(1)] by (simp_all add: fds_of_def [of s])
  moreover have "quiet sid s0"
    using assms(2) same_fds_handle [OF s0(1)] s0(2) by (simp add: quiet_def same_cl_def s0_def)
  ultimately show ?thesis
    using close_all_quiet [of s0 sid _ env] by (fastforce simp: disconnect_def Let_def s0_def [symmetric] fds_of_def)
qed

theorem disconnect_closes_all_witness:
  "\<exists>s'. disconnect sample_env 1 sample_api = Inr s' \<and> fd_ok s' \<and> fds_of s' 1 = [] \<and> session2client_map s' 1 = None"
  by (rule disconnect_closes_all [OF sample_api_ok]) (simp add: quiet_def)

text \<open>A session that has opened an ephemeral node twice brings the server down when it ends: closing
  the first handle deletes the node and both handles, and the second is then used.\<close>

lemma two_ephemeral_handles_dangle:
  assumes "e_ghost env ''/e'' = Some x"
  shows "server_run env ephemeral_run (new_api_state create n) = Inl Api_dangling"
  using assms by (simp add: ephemeral_run_def api_eval)

text \<open>C35: Closing a handle, by a client that holds neither the lock of the node nor the node as an
  ephemeral one, never returns when the first request waiting for the lock is of another session: the
  loop over the queue does not advance its iterator.\<close>

theorem close_never_ends:
  assumes "fd_ok s" and "map_at [] (session2client_map s) sid = c" and "c \<noteq> []"
    and "fh_file_name fh \<notin> map_at {} (client2heldLock_map s) c"
    and "fh_file_name fh \<notin> map_at {} (client2ephemeral_map s) c"
    and "file2lockQueue_map s (fh_file_name fh) = Some ((sid', xid') # q)" and "sid' \<noteq> sid"
  shows "fileClose env fh sid xid s = Inl Api_loop"
proof -
  from client_entry [OF assms(1-3), of fh] obtain s0 p s1 where 1: "client_of sid s = Inr (c, s0)"
    "findFd sid fh s0 = Inr (p, s1)" "deref p s1 = Inr fh" "fd_ok s1" "kept s s1" .
  then show ?thesis using assms(4-7)
    by (simp add: fileClose_def Let_def kept_def same_cl_def close_fd_def clear_queue_def queue_position_eq)
qed

theorem close_never_ends_witness:
  "fileClose sample_env sample_fh 1 5
     (sample_api\<lparr>file2lockQueue_map := [''/f'' \<mapsto> [(2, 7)]]\<rparr>) = Inl Api_loop"
  using close_never_ends [of "sample_api\<lparr>file2lockQueue_map := [''/f'' \<mapsto> [(2, 7)]]\<rparr>" 1 "''c2''" sample_fh 2 7 "[]" sample_env 5]
  by (simp add: sample_api_ok)

section \<open>Locks\<close>

text \<open>C2: A request for a lock on the leader has one of three outcomes. If the store has the node under the
  instance number of the handle without an owner, and no request waits for it, the client becomes
  the owner in the store, the lock is recorded as held, the request is answered with success and the
  change is announced. If the store has it without an owner although requests wait, as after a
  release that handed the lock over in memory only, an assertion stops the server. Otherwise the
  request is appended to the queue of the node and gets no answer yet.\<close>

theorem acquire_outcome:
  assumes r: "lock_ready fh sid c s" and x: "xid \<noteq> -1"
  shows "if lock_free fh (api_db s)
    then if file2lockQueue_map s (fh_file_name fh) = None
      then \<exists>s'. acquire env fh sid xid s = Inr s'
        \<and> (\<exists>r. select (api_db s') (fh_file_name fh) = Some r \<and> r_lock_owner r = c)
        \<and> fh_file_name fh \<in> map_at {} (client2heldLock_map s') c
        \<and> outbox s' = outbox s @ [Reply sid xid (ret_val True)]
             @ announced LOCK_CHANGED (fh_file_name fh) (file2lockChange_map s)
      else acquire env fh sid xid s = Inl Api_assert
    else \<exists>s'. acquire env fh sid xid s = Inr s' \<and> api_db s' = api_db s \<and> outbox s' = outbox s
        \<and> map_at [] (file2lockQueue_map s') (fh_file_name fh)
            = map_at [] (file2lockQueue_map s) (fh_file_name fh) @ [(sid, xid)]"
proof -
  from lock_request [OF r, of env xid] obtain s1 s2 where 1: "kept s s1"
    "acquire env fh sid xid s =
      (if lock_free fh (api_db s) then if file2lockQueue_map s (fh_file_name fh) = None then Inr s2 else Inl Api_assert
       else Inr (s1\<lparr>file2lockQueue_map := map_push (sid, xid) (fh_file_name fh) (file2lockQueue_map s)\<rparr>))"
    "s2 = sendLockChangeEvent (fh_file_name fh) (reply sid xid (ret_val True)
       (s1\<lparr>api_db := update_where (fh_file_name fh) (locked c) (api_db s),
           client2heldLock_map := map_insert (fh_file_name fh) c (client2heldLock_map s)\<rparr>))" by blast
  then show ?thesis
    using x by (auto simp: kept_def select_locked lock_free_def map_insert_def map_push_def locked_def)
qed

theorem acquire_outcome_witness:
  "\<exists>s'. acquire sample_env sample_fh 1 5 sample_api = Inr s' \<and> api_db s' = sample_locked \<and> outbox s' = []
     \<and> map_at [] (file2lockQueue_map s') ''/f'' = [(1, 5)]"
  using acquire_outcome [OF sample_ready(1), of 5 sample_env] sample_not_free by simp

text \<open>A non-blocking request for a lock has the same effect when the lock is free, and otherwise is
  answered at once with failure and changes neither the store nor the queue.\<close>

theorem tryAcquire_outcome:
  assumes r: "lock_ready fh sid c s" and x: "xid \<noteq> -1"
    and f: "lock_free fh (api_db s) \<longrightarrow> file2lockQueue_map s (fh_file_name fh) = None"
  shows "\<exists>s'. tryAcquire env fh sid xid s = Inr s' \<and>
    (if lock_free fh (api_db s)
     then (\<exists>r. select (api_db s') (fh_file_name fh) = Some r \<and> r_lock_owner r = c)
       \<and> fh_file_name fh \<in> map_at {} (client2heldLock_map s') c
       \<and> outbox s' = outbox s @ [Reply sid xid (ret_val True)]
            @ announced LOCK_CHANGED (fh_file_name fh) (file2lockChange_map s)
     else api_db s' = api_db s \<and> outbox s' = outbox s @ [Reply sid xid (ret_val False)]
       \<and> file2lockQueue_map s' = file2lockQueue_map s)"
proof -
  from lock_request [OF r, of env xid] obtain s1 s2 where 1: "kept s s1"
    "tryAcquire env fh sid xid s =
      (if lock_free fh (api_db s) then if file2lockQueue_map s (fh_file_name fh) = None then Inr s2 else Inl Api_assert
       else Inr (reply sid xid (ret_val False) s1))"
    "s2 = sendLockChangeEvent (fh_file_name fh) (reply sid xid (ret_val True)
       (s1\<lparr>api_db := update_where (fh_file_name fh) (locked c) (api_db s),
           client2heldLock_map := map_insert (fh_file_name fh) c (client2heldLock_map s)\<rparr>))" by blast
  then show ?thesis
    using x f by (auto simp: kept_def select_locked lock_free_def map_insert_def locked_def)
qed

theorem tryAcquire_outcome_witness:
  "\<exists>s'. tryAcquire sample_env sample_fh 1 5 sample_api = Inr s' \<and> api_db s' = sample_locked
     \<and> outbox s' = [Reply 1 5 (ret_val False)] \<and> file2lockQueue_map s' = Map.empty"
  using tryAcquire_outcome [OF sample_ready(1), of 5 sample_env] sample_not_free by simp

text \<open>C33: Releasing a lock for which a request waits answers the first waiting request with success and records
  its client as the holder, but the store keeps the lock free: the hand-over is not replicated.\<close>

theorem release_hands_over:
  assumes r: "lock_ready fh sid c s" and x: "xid \<noteq> -1" "xid' \<noteq> -1"
    and n: "select (api_db s) (fh_file_name fh) = Some row" "integer (r_instance_number row) = fh_instance_number fh"
    and q: "file2lockQueue_map s (fh_file_name fh) = Some ((sid', xid') # q)"
    and c': "map_at [] (session2client_map s) sid' = c'" "c' \<noteq> []"
  shows "\<exists>s'. release env fh sid xid s = Inr s'
    \<and> fh_file_name fh \<in> map_at {} (client2heldLock_map s') c'
    \<and> lock_free fh (api_db s')
    \<and> map_at [] (file2lockQueue_map s') (fh_file_name fh) = q
    \<and> outbox s' = outbox s @ [Reply sid xid (ret_val True), Reply sid' xid' (ret_val True)]
         @ announced LOCK_CHANGED (fh_file_name fh) (file2lockChange_map s)"
proof -
  let ?n = "fh_file_name fh"
  have "fd_ok s" "map_at [] (session2client_map s) sid = c" "c \<noteq> []" using r by (auto simp: lock_ready_def)
  from client_entry [OF this, of fh] obtain s0 p s1 where 1: "client_of sid s = Inr (c, s0)"
    "findFd sid fh s0 = Inr (p, s1)" "deref p s1 = Inr fh" "fd_ok s1" "kept s s1" .
  let ?db = "update_where ?n unlocked (api_db s)"
  have "call_db (px_resetLockOwner (exec_db env) ?n (fh_instance_number fh)) s1 = Inr (Some True, s1\<lparr>api_db := ?db\<rparr>)"
    using r n 1(5) resetLockOwner_eq [of ?n "fh_instance_number fh" "api_db s"]
    by (simp add: call_store lock_ready_def through_u32 kept_def)
  moreover have "map_at [] (session2client_map s1) sid' = c'" using 1(5) c'(1) by (simp add: kept_def same_cl_def)
  ultimately show ?thesis
    using 1 q c'(2) x n
    by (auto simp: release_def lock_released_def hand_over_def client_of_def Let_def kept_def map_insert_def
        lock_free_def select_unlocked unlocked_def)
qed

theorem release_hands_over_witness:
  "\<exists>s'. release sample_env sample_fh 2 5 (sample_api\<lparr>file2lockQueue_map := [''/f'' \<mapsto> [(1, 7)]]\<rparr>) = Inr s'
    \<and> ''/f'' \<in> map_at {} (client2heldLock_map s') ''c2'' \<and> lock_free sample_fh (api_db s')
    \<and> map_at [] (file2lockQueue_map s') ''/f'' = []
    \<and> outbox s' = [Reply 2 5 (ret_val True), Reply 1 7 (ret_val True)]"
proof -
  let ?s = "sample_api\<lparr>file2lockQueue_map := [''/f'' \<mapsto> [(1, 7)]]\<rparr>"
  have "lock_ready sample_fh 2 ''c1'' ?s" using sample_ready(2) by (simp add: lock_ready_def)
  from release_hands_over [OF this, of 5 7 "hd (fs sample_locked)" 1 "[]" "''c2''" sample_env] show ?thesis
    by (simp add: sample_select sample_row announced_def)
qed

definition handover_run :: "FileHandler \<Rightarrow> server_event list" where
  "handover_run fh = [Request 1 10 (Rq_startSession ''c1''), Request 2 10 (Rq_startSession ''c2''),
     Request 3 10 (Rq_startSession ''c3''),
     Request 1 11 (Rq_fileOpen \<lparr>ao_name = ''/f'', ao_mode = 0x8\<rparr>),
     Request 1 12 (Rq_acquire fh), Request 2 11 (Rq_acquire fh), Request 1 13 (Rq_release fh),
     Request 3 11 (Rq_tryAcquire fh)]"

text \<open>Because of this, two clients can hold the same lock: the first client takes it, the second waits, the
  first releases it, which hands it to the second, and a third then takes it as well; both are
  told that they have the lock, and the second has not released it.\<close>

lemma two_lock_holders:
  "\<exists>s. server_run env (handover_run (signed_fd env n ''/f'' 1 False)) (new_api_state create n) = Inr s
     \<and> Reply 2 11 (ret_val True) \<in> set (outbox s) \<and> Reply 3 11 (ret_val True) \<in> set (outbox s)
     \<and> ''/f'' \<in> map_at {} (client2heldLock_map s) ''c2'' \<and> ''/f'' \<in> map_at {} (client2heldLock_map s) ''c3''"
  by (simp add: handover_run_def api_eval)

section \<open>Opening and writing\<close>

text \<open>C26: Opening with exactly one of the two creation flags, when the store can create the node, returns a
  handle with the new instance number; the handle is registered for the session, and the store
  has the node under that instance number.\<close>

theorem fileOpen_creates:
  assumes "fd_ok s" and "api_leader s" and "map_at [] (session2client_map s) sid = c" and "c \<noteq> []"
    and "db_inv m (api_db s)" and "m + 2 < 2 ^ 31" and "checkName n" and "length n < 2 ^ 29" and "xid \<noteq> -1"
    and "has_mode mode CREATE_DIRECTORY \<noteq> has_mode mode CREATE_FILE"
    and "fst (spec_cmd (e_hash env) (Create n (has_mode mode CREATE_DIRECTORY)) (abs_db (api_db s))) = Instance (Some i)"
  shows "\<exists>s' p r. fileOpen env \<lparr>ao_name = n, ao_mode = mode\<rparr> sid xid s = Inr s' \<and> fd_ok s'
    \<and> p \<in> set (fds_of s' sid)
    \<and> deref p s' = Inr (signed_fd env (master_sequence_number s) n i (has_mode mode WRITE))
    \<and> Reply sid xid (R_fd (RetFd_val (signed_fd env (master_sequence_number s) n i (has_mode mode WRITE))))
        \<in> set (outbox s')
    \<and> select (api_db s') n = Some r \<and> integer (r_instance_number r) = i"
proof -
  let ?s0 = "s\<lparr>session2client_map := map_touch [] (session2client_map s) sid\<rparr>"
  let ?d = "has_mode mode CREATE_DIRECTORY"
  have c: "client_of sid s = Inr (c, ?s0)" using assms(3,4) by (auto simp: client_of_def Let_def)
  from created_node [OF assms(5-7,11)] obtain db' r where
    db': "checkAndCreate (e_hash env) n ?d (api_db s) = Inr (Some i, db')" "i < 2 ^ 32"
      "select db' n = Some r" "integer (r_instance_number r) = i" .
  have call: "call_db (px_checkAndCreate (exec_db env) n ?d) ?s0 = Inr (Some (True, i), ?s0\<lparr>api_db := db'\<rparr>)"
    using assms(2,8) db' by (simp add: call_store through_u32)
  define s1 where "s1 = (if has_mode mode EPHEMERAL
      then ?s0\<lparr>api_db := db', client2ephemeral_map := map_insert n c (client2ephemeral_map s)\<rparr> else ?s0\<lparr>api_db := db'\<rparr>)"
  have o: "open_node env n mode c ?s0 = Inr (Some (True, i), s1)"
    using call assms(10) by (auto simp: open_node_def s1_def)
  have "same_fds s s1" by (simp add: s1_def)
  then have "fd_ok s1" using assms(1) same_fdsD by blast
  moreover have "master_sequence_number s1 = master_sequence_number s" "api_db s1 = db'" by (simp_all add: s1_def)
  ultimately show ?thesis
    using opened [OF _ o c assms(7) _ assms(9)] assms(10) db'(3,4) by auto
qed

theorem fileOpen_creates_witness:
  "\<exists>s' p r. fileOpen sample_env \<lparr>ao_name = ''/g'', ao_mode = 0x8\<rparr> 1 5 sample_api = Inr s' \<and> fd_ok s'
    \<and> p \<in> set (fds_of s' 1) \<and> deref p s' = Inr (signed_fd sample_env 3 ''/g'' 2 False)
    \<and> Reply 1 5 (R_fd (RetFd_val (signed_fd sample_env 3 ''/g'' 2 False))) \<in> set (outbox s')
    \<and> select (api_db s') ''/g'' = Some r \<and> integer (r_instance_number r) = 2"
proof -
  have m: "has_mode 0x8 CREATE_FILE" "\<not> has_mode 0x8 CREATE_DIRECTORY" "\<not> has_mode 0x8 WRITE"
    by (simp_all add: has_mode_def mode_defs)
  have "fst (spec_cmd (e_hash sample_env) (Create ''/g'' False) (abs_db sample_locked)) = Instance (Some 2)"
    by (simp add: name_simps last_instance_abs select_def sample_locked_def integer_def)
  with fileOpen_creates [OF sample_api_ok, of 1 "''c2''" 1 "''/g''" 5 "0x8" sample_env 2] m show ?thesis
    by (simp add: sample_locked_inv name_simps)
qed

text \<open>A name that is not valid, or a request to create a file and a directory at once, is refused with
  \<open>BAD_ARG\<close> and changes neither the store nor the queues nor the handles.\<close>

theorem fileOpen_refuses:
  assumes "map_at [] (session2client_map s) sid = c" and "c \<noteq> []" and "xid \<noteq> -1"
    and "\<not> checkName (ao_name arg) \<or> has_mode (ao_mode arg) CREATE_DIRECTORY \<and> has_mode (ao_mode arg) CREATE_FILE"
  shows "\<exists>s'. fileOpen env arg sid xid s = Inr s' \<and> kept (s\<lparr>outbox := outbox s'\<rparr>) s'
    \<and> same_fds s s' \<and> outbox s' = outbox s @ [Reply sid xid (R_fd (RetFd_errCode BAD_ARG))]"
proof -
  let ?s0 = "s\<lparr>session2client_map := map_touch [] (session2client_map s) sid\<rparr>"
  have c: "client_of sid s = Inr (c, ?s0)" using assms(1,2) by (auto simp: client_of_def Let_def)
  have "fileOpen env arg sid xid s = Inr (reply sid xid (R_fd (RetFd_errCode BAD_ARG)) ?s0)"
    using assms(4) c by (auto simp: fileOpen_def Let_def)
  then show ?thesis using assms(3) by (auto simp: kept_def same_cl_def reply_def map_at_touch_fun)
qed

theorem fileOpen_refuses_witness:
  "\<exists>s'. fileOpen sample_env \<lparr>ao_name = ''/a//b'', ao_mode = 0x8\<rparr> 1 5 sample_api = Inr s'
    \<and> kept (sample_api\<lparr>outbox := outbox s'\<rparr>) s' \<and> same_fds sample_api s'
    \<and> outbox s' = outbox sample_api @ [Reply 1 5 (R_fd (RetFd_errCode BAD_ARG))]"
  by (rule fileOpen_refuses [of _ _ "''c2''"]) (simp_all add: name_simps)

text \<open>A write on the leader succeeds through any handle that names the node and its instance: the
  permission to write, the number that signs the handle and the session that opened it are not
  looked at. The content is replaced, the request is answered and the change is announced.\<close>

theorem write_through_any_handle:
  assumes "fd_ok s" and "api_leader s" and "db_wf m (api_db s)" and "xid \<noteq> -1"
    and "checkName (fh_file_name fh)" and "length (fh_file_name fh) < 2 ^ 29" and "fh_instance_number fh < 2 ^ 32"
    and "plain t" and "length t < 2 ^ 29"
    and "select (api_db s) (fh_file_name fh) = Some r" and "integer (r_instance_number r) = fh_instance_number fh"
  shows "\<exists>s' r'. setContents env \<lparr>as_fd = fh, as_content = t\<rparr> sid xid s = Inr s'
    \<and> select (api_db s') (fh_file_name fh) = Some r' \<and> r_content r' = t
    \<and> outbox s' = outbox s @ [Reply sid xid (ret_val True)]
         @ announced CONTENT_MODIFIED (fh_file_name fh) (file2contentChange_map s)"
proof -
  let ?n = "fh_file_name fh" and ?f = "relist (e_hash env) (\<lambda>_. t)"
  from find_entry [OF assms(1), of sid fh] obtain p s1 where 1: "findFd sid fh s = Inr (p, s1)"
    "deref p s1 = Inr fh" "fd_ok s1" "kept s s1" .
  have "call_db (px_checkAndUpdate (exec_db env) ?n (fh_instance_number fh) t) s1
     = Inr (Some True, s1\<lparr>api_db := update_where ?n ?f (api_db s)\<rparr>)"
    using assms 1(4) checkAndUpdate_eq [of m "api_db s" ?n t "e_hash env" "fh_instance_number fh"]
    by (simp add: call_store through_u32 kept_def)
  moreover have "select (update_where ?n ?f (api_db s)) ?n = Some (?f r)"
    using select_update_where [of ?f ?n "api_db s" ?n] assms(10) by (simp add: relist_def)
  ultimately show ?thesis using 1 assms(4) by (simp add: setContents_def kept_def relist_def)
qed

theorem write_through_any_handle_witness:
  "\<not> fh_write_is_allowed sample_fh \<and> (\<exists>s' r'. setContents sample_env \<lparr>as_fd = sample_fh, as_content = ''x''\<rparr> 1 5 sample_api = Inr s'
    \<and> select (api_db s') ''/f'' = Some r' \<and> r_content r' = ''x'' \<and> outbox s' = [Reply 1 5 (ret_val True)])"
proof -
  have "db_wf 1 (api_db sample_api)" using db_invD(1) [OF sample_locked_inv] by simp
  from write_through_any_handle [OF sample_api_ok _ this, of 5 sample_fh "''x''" "hd (fs sample_locked)" sample_env 1]
  show ?thesis by (simp add: sample_select sample_row plain_eval name_simps announced_def sample_fh_def)
qed

text \<open>C27: A replica that is not the leader answers the requests \<open>fileOpen\<close>, \<open>fileDelete\<close>,
  \<open>getContentsAndStat\<close>, \<open>setContents\<close>, \<open>acquire\<close>, \<open>tryAcquire\<close> and \<open>release\<close> with \<open>PAXOS_ERROR\<close>. Its
  store, the queues and holders of locks, the registrations for events, the ephemeral nodes and the
  clients of the sessions stay as they are; the maps of handles, to which the handle of the request is
  added when it is not there, stay consistent.\<close>

theorem follower_refuses:
  assumes ok: "fd_ok s" and l: "\<not> api_leader s" and c: "map_at [] (session2client_map s) sid = c" "c \<noteq> []"
    and len: "length c < 2 ^ 29" and fits: "rq_fits r" and x: "xid \<noteq> -1" and ref: "refusal r = Some a"
  shows "\<exists>s'. handle env r sid xid s = Inr s' \<and> kept s (s'\<lparr>outbox := outbox s\<rparr>) \<and> outbox s' = outbox s @ [Reply sid xid a] \<and> fd_ok s'"
proof -
  note calls = call_follower(1,2,5,6,7) [where c = "[]"] call_follower(3,4)
  have lk: "\<not> api_leader s1" if "kept s s1" for s1 using that l by (simp add: kept_def)
  show ?thesis
  proof (cases "\<exists>a. r = Rq_fileOpen a")
    case True
    then obtain b where o: "r = Rq_fileOpen b" by blast
    let ?s0 = "s\<lparr>session2client_map := map_touch [] (session2client_map s) sid\<rparr>"
    have "client_of sid s = Inr (c, ?s0)" using c by (auto simp: client_of_def Let_def)
    moreover have "kept s ?s0" by (simp add: kept_def)
    ultimately show ?thesis using o ref fits l x ok
      by (auto simp: fileOpen_def Let_def open_node_def calls kept_reply split: if_splits)
  next
    case False
    show ?thesis
    proof (cases "\<exists>g. r = Rq_getContentsAndStat g \<or> (\<exists>t. r = Rq_setContents t \<and> g = as_fd t)")
      case True
      then obtain g where g: "r = Rq_getContentsAndStat g \<or> (\<exists>t. r = Rq_setContents t \<and> g = as_fd t)" by blast
      from find_entry [OF ok, of sid g] obtain p s1 where 1: "findFd sid g s = Inr (p, s1)"
        "deref p s1 = Inr g" "fd_ok s1" "kept s s1" .
      with g ref fits lk [OF 1(4)] x show ?thesis
        by (auto simp: getContentsAndStat_def setContents_def calls kept_reply reply_outbox) (simp_all add: kept_def)
    next
      case F: False
      with False ref obtain g where g: "r = Rq_fileDelete g \<or> r = Rq_acquire g \<or> r = Rq_tryAcquire g \<or> r = Rq_release g"
        by (cases r) auto
      from client_entry [OF ok c, of g] obtain s0 p s1 where 1: "client_of sid s = Inr (c, s0)"
        "findFd sid g s0 = Inr (p, s1)" "deref p s1 = Inr g" "fd_ok s1" "kept s s1" .
      with g ref fits lk [OF 1(5)] x len show ?thesis
        by (auto simp: fileDelete_def acquire_def tryAcquire_def release_def calls kept_reply reply_outbox) (simp_all add: kept_def)
    qed
  qed
qed

theorem follower_refuses_witness:
  "\<exists>s'. handle sample_env (Rq_acquire sample_fh) 1 5 (sample_api\<lparr>api_leader := False\<rparr>) = Inr s'
    \<and> api_db s' = sample_locked \<and> outbox s' = [Reply 1 5 (ret_err PAXOS_ERROR)]"
proof -
  have "fd_ok (sample_api\<lparr>api_leader := False\<rparr>)"
    using sample_api_ok by (simp add: fd_ok_def fds_of_def pairs_of_def live_def)
  from follower_refuses [OF this, of 1 "''c2''" "Rq_acquire sample_fh" 5 "ret_err PAXOS_ERROR" sample_env]
  show ?thesis by (auto simp: kept_def)
qed

end
