(* ===== verification/Msg_Sock.thy ===== *)
theory Msg_Sock
  imports Xdr_Codec
begin

text \<open>
  Delimited messages on a stream socket: class \<open>msg_sock\<close> (\<open>src/xdrpp/xdrpp/msgsock.h\<close>,
  \<open>msgsock.cc\<close>), which the servers use on non-blocking sockets, and the two functions for blocking
  ones, \<open>read_message\<close> and \<open>write_message\<close> (\<open>srpc.cc\<close>). The kernel is a parameter: the bytes of
  the stream and, for every system call, how many of them it transfers, or that it has none, that
  the peer has closed the stream, or an error. The two flags \<open>rcb_on\<close> and \<open>wcb_on\<close> are not members of
  the class: they stand for what the poll set has for the descriptor, and an assignment to one is the
  call of \<open>fd_cb\<close> that the code makes there.
\<close>

section \<open>The kernel\<close>

text \<open>
  An answer to one call: up to \<open>Suc k\<close> bytes are ready, \<open>EAGAIN\<close>, the end of the stream, or
  another error. Without further answers a call returns \<open>EAGAIN\<close>.
\<close>

datatype answer = Ready nat | Again | Eof | Broken

record kernel =
  k_stream :: "byte list"
  k_answers :: "answer list"

datatype read_result = Rd_n "byte list" | Rd_eof | Rd_again | Rd_err

definition sys_read :: "nat \<Rightarrow> kernel \<Rightarrow> read_result \<times> kernel" where
  "sys_read cap k = (case k_answers k of
     [] \<Rightarrow> (Rd_again, k)
   | a # as \<Rightarrow> (case a of
       Ready n \<Rightarrow> (let m = min (Suc n) (min cap (length (k_stream k)))
         in if m = 0 then (Rd_again, k\<lparr>k_answers := as\<rparr>)
            else (Rd_n (take m (k_stream k)), k\<lparr>k_stream := drop m (k_stream k), k_answers := as\<rparr>))
     | Again \<Rightarrow> (Rd_again, k\<lparr>k_answers := as\<rparr>)
     | Eof \<Rightarrow> (Rd_eof, k\<lparr>k_answers := as\<rparr>)
     | Broken \<Rightarrow> (Rd_err, k\<lparr>k_answers := as\<rparr>)))"

section \<open>The socket\<close>

record msg_sock =
  maxmsglen :: nat
  nextlen :: "byte list"
  rdmsg :: "byte list option"
  rdpos :: nat
  wqueue :: "message_t list"
  wsize :: nat
  wstart :: nat
  wfail :: bool
  rcb_on :: bool
  wcb_on :: bool

text \<open>The constructor and \<open>setrcb\<close>; the four bytes of \<open>nextlen_\<close> have no initial value.\<close>

definition new_msg_sock :: "byte list \<Rightarrow> nat \<Rightarrow> msg_sock" where
  "new_msg_sock junk maxlen = \<lparr>maxmsglen = maxlen, nextlen = junk, rdmsg = None, rdpos = 0,
     wqueue = [], wsize = 0, wstart = 0, wfail = False, rcb_on = True, wcb_on = False\<rparr>"

section \<open>Input\<close>

text \<open>
  A connection: the socket, the kernel, the state of the receiver and whether a callback has
  deleted the socket. The receiver \<open>rcb\<close> gets a message, or \<open>None\<close> for the null pointer, and
  says whether it deletes the socket.
\<close>

record 'c conn =
  sock :: msg_sock
  kern :: kernel
  app :: 'c
  gone :: bool

type_synonym 'c rcb = "byte list option \<Rightarrow> 'c \<Rightarrow> 'c \<times> bool"

text \<open>
  A call of the receive callback: \<open>app\<close> is all that it may change, the rest of the program with the
  other sockets and the queue of messages to send on this one, which \<open>input\<close> neither reads nor
  writes; it may also delete the socket.
\<close>

definition call_rcb :: "'c rcb \<Rightarrow> byte list option \<Rightarrow> 'c conn \<Rightarrow> 'c conn" where
  "call_rcb rcb m s = (case rcb m (app s) of (c, d) \<Rightarrow> s\<lparr>app := c, gone := gone s \<or> d\<rparr>)"

text \<open>How a part of the loop's body ends: the function returns, or the body goes on.\<close>

datatype 'a flow = Return 'a | Go 'a

definition overwrite :: "nat \<Rightarrow> byte list \<Rightarrow> byte list \<Rightarrow> byte list" where
  "overwrite i bs buf = take i buf @ bs @ drop (i + length bs) buf"

definition read_body :: "'c rcb \<Rightarrow> byte list \<Rightarrow> 'c conn \<Rightarrow> 'c conn flow" where
  "read_body rcb buf s =
     (let pos = rdpos (sock s); want = length buf - pos in
      case sys_read (want + 4) (kern s) of
        (Rd_n bs, k) \<Rightarrow>
          (let buf = overwrite pos (take want bs) buf;
               pos = pos + length bs;
               s = s\<lparr>kern := k, sock := (sock s)\<lparr>rdmsg := Some buf, rdpos := pos,
                      nextlen := overwrite 0 (drop want bs) (nextlen (sock s))\<rparr>\<rparr>
           in if length buf \<le> pos
              then let s = call_rcb rcb (Some buf)
                     (s\<lparr>sock := (sock s)\<lparr>rdmsg := None, rdpos := pos - length buf\<rparr>\<rparr>)
                   in if gone s then Return s else Go s
              else Go s)
      | (Rd_again, k) \<Rightarrow> Return (s\<lparr>kern := k\<rparr>)
      | (_, k) \<Rightarrow> Return (call_rcb rcb None (s\<lparr>kern := k\<rparr>)))"

definition read_length :: "'c rcb \<Rightarrow> 'c conn \<Rightarrow> 'c conn flow" where
  "read_length rcb s =
     (let pos = rdpos (sock s) in
      case sys_read (4 - pos) (kern s) of
        (Rd_n bs, k) \<Rightarrow> Go (s\<lparr>kern := k, sock := (sock s)\<lparr>rdpos := pos + length bs,
           nextlen := overwrite pos bs (nextlen (sock s))\<rparr>\<rparr>)
      | (Rd_again, k) \<Rightarrow> Return (s\<lparr>kern := k\<rparr>)
      | (_, k) \<Rightarrow> Return (call_rcb rcb None (s\<lparr>kern := k\<rparr>)))"

definition read_part :: "'c rcb \<Rightarrow> 'c conn \<Rightarrow> 'c conn flow" where
  "read_part rcb s = (case rdmsg (sock s) of
     Some buf \<Rightarrow> read_body rcb buf s
   | None \<Rightarrow> if rdpos (sock s) < 4 then read_length rcb s else Go s)"

text \<open>
  The second half of the body: once the four bytes of a length are there, it allocates the
  buffer. \<open>alloc\<close> is the memory allocator: a buffer with arbitrary content, or \<open>None\<close> when
  \<open>std::bad_alloc\<close> is thrown.
\<close>

definition take_length :: "'c rcb \<Rightarrow> (nat \<Rightarrow> byte list option) \<Rightarrow> 'c conn \<Rightarrow> 'c conn flow" where
  "take_length rcb alloc s =
     (if rdmsg (sock s) \<noteq> None \<or> rdpos (sock s) < 4 then Return s
      else let len = swap32le (word32_of (nextlen (sock s))) in
      if len AND 0x80000000 = 0 then Return (call_rcb rcb None s)
      else let len = unat (len AND 0x7fffffff) in
      if len = 0 then Go (call_rcb rcb (Some []) (s\<lparr>sock := (sock s)\<lparr>rdpos := 0\<rparr>\<rparr>))
      else let s = (if len \<le> maxmsglen (sock s)
                    then s\<lparr>sock := (sock s)\<lparr>rdmsg := alloc len\<rparr>\<rparr>
                    else s\<lparr>sock := (sock s)\<lparr>rcb_on := False\<rparr>\<rparr>)
      in if rdmsg (sock s) \<noteq> None then Go (s\<lparr>sock := (sock s)\<lparr>rdpos := 0\<rparr>\<rparr>)
         else Go (call_rcb rcb None s))"

fun input_loop :: "'c rcb \<Rightarrow> (nat \<Rightarrow> byte list option) \<Rightarrow> nat \<Rightarrow> 'c conn \<Rightarrow> 'c conn" where
  "input_loop rcb alloc 0 s = s"
| "input_loop rcb alloc (Suc i) s =
     (if gone s then s
      else case read_part rcb s of
        Return s \<Rightarrow> s
      | Go s \<Rightarrow> (case take_length rcb alloc s of
          Return s \<Rightarrow> s
        | Go s \<Rightarrow> input_loop rcb alloc i s))"

definition input :: "'c rcb \<Rightarrow> (nat \<Rightarrow> byte list option) \<Rightarrow> 'c conn \<Rightarrow> 'c conn" where
  "input rcb alloc s = input_loop rcb alloc 3 s"

text \<open>Rounds of the poll set in which the descriptor is readable.\<close>

fun poll_input :: "'c rcb \<Rightarrow> (nat \<Rightarrow> byte list option) \<Rightarrow> nat \<Rightarrow> 'c conn \<Rightarrow> 'c conn" where
  "poll_input rcb alloc 0 s = s"
| "poll_input rcb alloc (Suc n) s =
     (if gone s \<or> \<not> rcb_on (sock s) then s else poll_input rcb alloc n (input rcb alloc s))"

section \<open>Output\<close>

text \<open>A failed assertion, and reading the front of an empty queue.\<close>

datatype sock_error = Sock_assert | Sock_no_front

definition raw_size :: "message_t \<Rightarrow> nat" where
  "raw_size m = length (m_data m) + 4"

text \<open>The kernel accepts a part of the bytes of a \<open>writev\<close>, nothing, or reports an error.\<close>

datatype write_result = Wr_n nat | Wr_again | Wr_err

definition sys_writev :: "byte list \<Rightarrow> kernel \<Rightarrow> write_result \<times> kernel" where
  "sys_writev bs k = (case k_answers k of
     [] \<Rightarrow> (Wr_again, k)
   | a # as \<Rightarrow> (case a of
       Ready n \<Rightarrow> (let m = min (Suc n) (length bs)
         in (Wr_n m, k\<lparr>k_stream := k_stream k @ take m bs, k_answers := as\<rparr>))
     | Again \<Rightarrow> (Wr_again, k\<lparr>k_answers := as\<rparr>)
     | Eof \<Rightarrow> (Wr_n 0, k\<lparr>k_answers := as\<rparr>)
     | Broken \<Rightarrow> (Wr_err, k\<lparr>k_answers := as\<rparr>)))"

text \<open>The loop of \<open>pop_wbytes\<close> over whole messages.\<close>

fun pop_whole :: "nat \<Rightarrow> message_t list \<Rightarrow> sock_error + nat \<times> message_t list" where
  "pop_whole n [] = (if n > 0 then Inl Sock_no_front else Inr (n, []))"
| "pop_whole n (m # q) =
     (if n > 0 \<and> n \<ge> raw_size m then pop_whole (n - raw_size m) q else Inr (n, m # q))"

definition pop_wbytes :: "nat \<Rightarrow> msg_sock \<Rightarrow> sock_error + msg_sock" where
  "pop_wbytes n ms =
     (if n = 0 then Inr ms
      else bindR (assertR Sock_assert (n \<le> wsize ms)) (\<lambda>_.
      let ms = ms\<lparr>wsize := wsize ms - n\<rparr> in
      case wqueue ms of
        [] \<Rightarrow> Inl Sock_no_front
      | m # q \<Rightarrow>
          let frontbytes = raw_size m - wstart ms in
          if n < frontbytes then Inr (ms\<lparr>wstart := wstart ms + n\<rparr>)
          else bindR (pop_whole (n - frontbytes) q) (\<lambda>(n, q). Inr (ms\<lparr>wqueue := q, wstart := n\<rparr>))))"

text \<open>The vector of at most eight messages, the first without the bytes already sent.\<close>

definition iov :: "msg_sock \<Rightarrow> byte list" where
  "iov ms = (case take 8 (wqueue ms) of
     [] \<Rightarrow> []
   | m # q \<Rightarrow> drop (wstart ms) (raw_data m) @ concat (map raw_data q))"

definition sock_output :: "bool \<Rightarrow> msg_sock \<times> kernel \<Rightarrow> sock_error + msg_sock \<times> kernel" where
  "sock_output cbset = (\<lambda>(ms, k).
     case sys_writev (iov ms) k of
       (Wr_again, k) \<Rightarrow> Inr (ms, k)
     | (Wr_err, k) \<Rightarrow> Inr (ms\<lparr>wfail := True, wsize := 0, wstart := 0, wqueue := []\<rparr>, k)
     | (Wr_n n, k) \<Rightarrow>
         if n = 0 then Inr (ms\<lparr>wfail := True, wsize := 0, wstart := 0, wqueue := []\<rparr>, k)
         else bindR (pop_wbytes n ms) (\<lambda>ms.
           if wsize ms \<noteq> 0 \<and> \<not> cbset then Inr (ms\<lparr>wcb_on := True\<rparr>, k)
           else if wsize ms = 0 \<and> cbset then Inr (ms\<lparr>wcb_on := False\<rparr>, k)
           else Inr (ms, k)))"

definition putmsg :: "message_t \<Rightarrow> msg_sock \<times> kernel \<Rightarrow> sock_error + msg_sock \<times> kernel" where
  "putmsg m = (\<lambda>(ms, k).
     if wfail ms then Inr (ms, k)
     else let was_empty = (wsize ms = 0);
              ms = ms\<lparr>wsize := wsize ms + raw_size m, wqueue := wqueue ms @ [m]\<rparr>
     in if was_empty then sock_output False (ms, k) else Inr (ms, k))"

text \<open>What happens to the socket: a message is queued, or the poll set finds it writable.\<close>

datatype out_event = Put message_t | Writable

fun out_step :: "out_event \<Rightarrow> msg_sock \<times> kernel \<Rightarrow> sock_error + msg_sock \<times> kernel" where
  "out_step (Put m) s = putmsg m s"
| "out_step Writable s = (if wcb_on (fst s) then sock_output True s else Inr s)"

fun out_run :: "out_event list \<Rightarrow> msg_sock \<times> kernel \<Rightarrow> sock_error + msg_sock \<times> kernel" where
  "out_run [] s = Inr s"
| "out_run (e # es) s = bindR (out_step e s) (out_run es)"

section \<open>Blocking sockets\<close>

text \<open>The four bytes that \<open>message_t::alloc\<close> writes in front of a message.\<close>

definition length_bytes :: "nat \<Rightarrow> byte list" where
  "length_bytes n = mem32 (swap32le (of_nat n OR 0x80000000))"

datatype io_error = Io_system | Io_size | Io_assert | Io_alloc

definition read_message :: "(nat \<Rightarrow> byte list option) \<Rightarrow> kernel \<Rightarrow> io_error + message_t \<times> kernel" where
  "read_message alloc k =
     (case sys_read 4 k of
        (Rd_n bs, k) \<Rightarrow>
          let n = length bs in
          if n < 4 then Inl Io_size
          else if n mod 4 \<noteq> 0 then Inl Io_size
          else if n \<ge> 0x80000000 then Inl Io_size
          else let len = swap32le (word32_of bs) in
          if len AND 0x80000000 = 0 then Inl Io_size
          else let len = unat (len AND 0x7fffffff) in
          (case alloc len of
             None \<Rightarrow> Inl Io_alloc
           | Some _ \<Rightarrow>
               if len = 0 then Inr (\<lparr>m_len = length_bytes len, m_data = []\<rparr>, k)
               else (case sys_read len k of
                 (Rd_n d, k) \<Rightarrow> if length d \<noteq> len then Inl Io_size else Inr (\<lparr>m_len = length_bytes len, m_data = d\<rparr>, k)
               | (Rd_eof, k) \<Rightarrow> Inl Io_size
               | (_, k) \<Rightarrow> Inl Io_system))
      | (Rd_eof, k) \<Rightarrow> Inl Io_size
      | (_, k) \<Rightarrow> Inl Io_system)"

definition write_message :: "message_t \<Rightarrow> kernel \<Rightarrow> io_error + kernel" where
  "write_message m k =
     (case sys_writev (raw_data m) k of
        (Wr_n n, k) \<Rightarrow> if n = raw_size m then Inr k else Inl Io_assert
      | (_, k) \<Rightarrow> Inl Io_system)"

end
