(* ===== verification/Msg_Sock_Properties.thy ===== *)
theory Msg_Sock_Properties
  imports Msg_Sock
begin

text \<open>
  Properties of the sockets of \<open>Msg_Sock\<close>: whatever the kernel transfers per call, the messages
  that the receiver gets are a prefix of those that the sender queued, and all of them when every
  call transfers something. \<open>sync\<close> is the invariant of the input: the messages delivered, the
  bytes held back and the rest of the stream make up the frames sent. \<open>accounted\<close> is that of the
  output: the bytes sent and those queued make up the messages queued so far.
\<close>

section \<open>Frames\<close>


lemma and_high: "(of_nat n OR 0x80000000 :: u32) AND 0x80000000 \<noteq> 0"
proof
  assume "(of_nat n OR 0x80000000 :: u32) AND 0x80000000 = 0"
  then have "bit ((of_nat n OR 0x80000000 :: u32) AND push_bit 31 1) 31 = bit (0 :: u32) 31"
    by (simp add: push_bit_eq_mult)
  then show False by (simp add: bit_simps)
qed

lemma and_low: "n < 2 ^ 31 \<Longrightarrow> unat ((of_nat n OR 0x80000000 :: u32) AND 0x7fffffff) = n"
proof -
  assume n: "n < 2 ^ 31"
  have m: "(0x7fffffff :: u32) = mask 31" by (simp add: mask_eq_exp_minus_1)
  have p: "\<not> bit (0x80000000 :: u32) i" "\<not> bit (0x80000000 :: int) i" "\<not> bit (0x80000000 :: nat) i" if "i < 31" for i
    using that bit_push_bit_iff [of 31 "1 :: u32" i] bit_push_bit_iff [of 31 "1 :: int" i]
      bit_push_bit_iff [of 31 "1 :: nat" i] by (simp_all add: push_bit_eq_mult)
  have "(of_nat n OR 0x80000000 :: u32) AND 0x7fffffff = take_bit 31 (of_nat n)"
    unfolding m by (rule bit_word_eqI) (auto simp: bit_simps p)
  then show ?thesis using n by (simp add: unsigned_take_bit_eq unsigned_of_nat take_bit_nat_eq_self)
qed

lemma length_length_bytes [simp]: "length (length_bytes n) = 4"
  by (simp add: length_bytes_def)

lemma length_bytes_read [simp]:
  "swap32le (word32_of (length_bytes n)) = of_nat n OR 0x80000000"
  using word32_of_mem32 [of "swap32le (of_nat n OR 0x80000000)" "[]"]
  by (simp add: length_bytes_def swap32le_def)

definition frame :: "byte list \<Rightarrow> byte list" where
  "frame d = length_bytes (length d) @ d"

lemma message_with_frame: "message_with d = Inr m \<Longrightarrow> raw_data m = frame d \<and> m_data m = d"
  by (auto simp: message_with_def raw_data_def frame_def length_bytes_def)

lemma length_frame [simp]: "length (frame d) = length d + 4"
  by (simp add: frame_def)

lemma frame_inject:
  assumes "length_bytes n @ x = frame d @ y" "n < 2 ^ 31" "length d < 2 ^ 31"
  shows "n = length d"
proof -
  have "length_bytes n = length_bytes (length d)" using assms(1) by (simp add: frame_def)
  then have "(of_nat n OR 0x80000000 :: u32) = of_nat (length d) OR 0x80000000"
    by (metis length_bytes_read)
  then show ?thesis using and_low assms(2,3) by metis
qed


section \<open>The invariant of the input\<close>

text \<open>A receiver that records what it gets and deletes the socket at the end of the stream.\<close>

definition log_rcb :: "byte list option list rcb" where
  "log_rcb m log = (log @ [m], m = None)"

lemma call_log_rcb [simp]:
  "call_rcb log_rcb m s = s\<lparr>app := app s @ [m], gone := gone s \<or> m = None\<rparr>"
  by (simp add: call_rcb_def log_rcb_def)

definition alloc_ok :: "(nat \<Rightarrow> byte list option) \<Rightarrow> bool" where
  "alloc_ok alloc \<longleftrightarrow> (\<forall>n b. alloc n = Some b \<longrightarrow> length b = n)"

definition fits_sock :: "msg_sock \<Rightarrow> byte list list \<Rightarrow> bool" where
  "fits_sock ms msgs \<longleftrightarrow> (\<forall>d \<in> set msgs. length d \<le> maxmsglen ms \<and> length d < 2 ^ 31)"

text \<open>The bytes of a message that has not arrived completely.\<close>

definition held :: "msg_sock \<Rightarrow> byte list" where
  "held ms = (case rdmsg ms of
     None \<Rightarrow> take (rdpos ms) (nextlen ms)
   | Some buf \<Rightarrow> length_bytes (length buf) @ take (rdpos ms) buf)"

definition mid_ok :: "msg_sock \<Rightarrow> bool" where
  "mid_ok ms \<longleftrightarrow> length (nextlen ms) = 4 \<and> (case rdmsg ms of
     None \<Rightarrow> rdpos ms \<le> 4 | Some buf \<Rightarrow> rdpos ms < length buf \<and> length buf < 2 ^ 31)"

definition in_ok :: "msg_sock \<Rightarrow> bool" where
  "in_ok ms \<longleftrightarrow> mid_ok ms \<and> (rdmsg ms = None \<longrightarrow> rdpos ms < 4)"

definition sync :: "byte list \<Rightarrow> byte list list \<Rightarrow> byte list option list conn \<Rightarrow> bool" where
  "sync fut msgs s \<longleftrightarrow> (\<exists>log rest. msgs = log @ rest \<and> app s = map Some log @ (if gone s then [None] else [])
     \<and> (\<not> gone s \<longrightarrow> held (sock s) @ k_stream (kern s) @ fut = concat (map frame rest)))"

definition kept :: "'c conn \<Rightarrow> 'c conn \<Rightarrow> bool" where
  "kept s s' \<longleftrightarrow> maxmsglen (sock s') = maxmsglen (sock s) \<and> (rcb_on (sock s) \<longrightarrow> rcb_on (sock s'))"

lemma frames_head:
  assumes "length_bytes n @ x = concat (map frame rest)" "n < 2 ^ 31" "\<forall>d \<in> set rest. length d < 2 ^ 31"
  obtains d rest' where "rest = d # rest'" "length d = n" "x = d @ concat (map frame rest')"
proof (cases rest)
  case Nil
  with assms(1) have "length (length_bytes n) = 0" by simp
  then show ?thesis by simp
next
  case (Cons d rest')
  have "length_bytes n @ x = frame d @ concat (map frame rest')" using assms(1) Cons by simp
  with frame_inject [OF this assms(2)] assms(3) Cons show ?thesis
    by (intro that [of d rest']) (auto simp: frame_def)
qed

lemma sys_readE:
  assumes "sys_read cap k = (r, k')"
  obtains bs where "r = Rd_n bs" "bs \<noteq> []" "length bs \<le> cap" "k_stream k = bs @ k_stream k'"
  | "r \<in> {Rd_again, Rd_eof, Rd_err}" "k_stream k' = k_stream k"
  using assms that by (auto simp: sys_read_def Let_def split: list.splits answer.splits if_splits)

lemma take_overwrite [simp]:
  "i + length bs \<le> length buf \<Longrightarrow> take (i + length bs) (overwrite i bs buf) = take i buf @ bs"
  by (simp add: overwrite_def)

lemma length_overwrite [simp]: "i + length bs \<le> length buf \<Longrightarrow> length (overwrite i bs buf) = length buf"
  by (simp add: overwrite_def)

lemma syncE:
  assumes "sync fut msgs s" "\<not> gone s"
  obtains log rest where "msgs = log @ rest" "app s = map Some log"
    "held (sock s) @ k_stream (kern s) @ fut = concat (map frame rest)"
  using assms by (auto simp: sync_def)

lemma syncI:
  "msgs = log @ rest \<Longrightarrow> app s = map Some log \<Longrightarrow> \<not> gone s
    \<Longrightarrow> held (sock s) @ k_stream (kern s) @ fut = concat (map frame rest) \<Longrightarrow> sync fut msgs s"
  by (auto simp: sync_def)

lemma sync_closed:
  assumes "sync fut msgs s" "\<not> gone s" "app s' = app s @ [None]" "gone s'"
  shows "sync fut msgs s'"
  using assms by (auto simp: sync_def)

lemma read_length_sync:
  assumes "\<not> gone s" "in_ok (sock s)" "rdmsg (sock s) = None" "sync fut msgs s"
  shows "case read_length log_rcb s of
      Return s' \<Rightarrow> sync fut msgs s' \<and> kept s s' \<and> (\<not> gone s' \<longrightarrow> in_ok (sock s'))
    | Go s' \<Rightarrow> sync fut msgs s' \<and> kept s s' \<and> \<not> gone s' \<and> mid_ok (sock s')"
proof -
  obtain r k' where r: "sys_read (4 - rdpos (sock s)) (kern s) = (r, k')" by fastforce
  have len: "length (nextlen (sock s)) = 4" "rdpos (sock s) < 4"
    using assms(2,3) by (auto simp: in_ok_def mid_ok_def)
  from r show ?thesis
  proof (cases rule: sys_readE)
    case (1 bs)
    have n: "rdpos (sock s) + length bs \<le> length (nextlen (sock s))" using 1(3) len by simp
    have "held (sock s) @ k_stream (kern s) = take (rdpos (sock s)) (nextlen (sock s)) @ bs @ k_stream k'"
      using 1(4) assms(3) by (simp add: held_def)
    with assms(1,4) show ?thesis
      using r 1 n assms(3) len
      by (auto simp: read_length_def Let_def kept_def mid_ok_def sync_def held_def)
  next
    case 2
    with assms show ?thesis using r by (auto simp: read_length_def Let_def kept_def sync_def)
  qed
qed

lemma read_body_sync:
  assumes "\<not> gone s" "in_ok (sock s)" "rdmsg (sock s) = Some buf" "sync fut msgs s" "fits_sock (sock s) msgs"
  shows "case read_body log_rcb buf s of
      Return s' \<Rightarrow> sync fut msgs s' \<and> kept s s' \<and> (\<not> gone s' \<longrightarrow> in_ok (sock s'))
    | Go s' \<Rightarrow> sync fut msgs s' \<and> kept s s' \<and> \<not> gone s' \<and> mid_ok (sock s')"
proof -
  let ?pos = "rdpos (sock s)" and ?want = "length buf - rdpos (sock s)"
  obtain r k' where r: "sys_read (?want + 4) (kern s) = (r, k')" by fastforce
  have len: "length (nextlen (sock s)) = 4" "?pos < length buf" "length buf < 2 ^ 31"
    using assms(2,3) by (auto simp: in_ok_def mid_ok_def)
  from assms(4,1) obtain log rest where S: "msgs = log @ rest" "app s = map Some log"
    "held (sock s) @ k_stream (kern s) @ fut = concat (map frame rest)" by (rule syncE)
  from r show ?thesis
  proof (cases rule: sys_readE)
    case (1 bs)
    show ?thesis
    proof (cases "?want \<le> length bs")
      case False
      then have n: "?pos + length bs < length buf" by simp
      then have "take (?pos + length bs) (overwrite ?pos bs buf) = take ?pos buf @ bs" by simp
      then show ?thesis using False n r 1 len S assms(1,3)
        by (auto simp: read_body_def Let_def kept_def mid_ok_def sync_def held_def overwrite_def [of 0])
    next
      case True
      define d where "d = take ?pos buf @ take ?want bs"
      have d: "overwrite ?pos (take ?want bs) buf = d" "length d = length buf"
        using True len by (simp_all add: overwrite_def d_def)
      have n: "length (drop ?want bs) \<le> length (nextlen (sock s))" using 1(3) len by simp
      have "length_bytes (length buf) @ d @ drop ?want bs @ k_stream k' @ fut = concat (map frame rest)"
        using S(3) 1(4) assms(3) by (simp add: held_def d_def) (metis append.assoc append_take_drop_id)
      then obtain d' rest' where h: "rest = d' # rest'" "length d' = length buf"
        "d @ drop ?want bs @ k_stream k' @ fut = d' @ concat (map frame rest')"
        using frames_head [of "length buf" _ rest] len(3) assms(5) S(1) unfolding fits_sock_def by (metis Un_iff set_append)
      then have h': "d' = d" "drop ?want bs @ k_stream k' @ fut = concat (map frame rest')" using d(2) by auto
      have t: "take (length bs - ?want) (overwrite 0 (drop ?want bs) (nextlen (sock s))) = drop ?want bs"
        using take_overwrite [of 0 "drop ?want bs" "nextlen (sock s)"] n by simp
      have e: "?pos + length bs - length buf = length bs - ?want" using len(2) by simp
      have "sync fut msgs s'" if "sock s' = (sock s)\<lparr>rdmsg := None, rdpos := length bs - ?want,
          nextlen := overwrite 0 (drop ?want bs) (nextlen (sock s))\<rparr>" "kern s' = k'" "\<not> gone s'"
          "app s' = app s @ [Some d]" for s'
        using that S(1,2) h h' t by (intro syncI [of _ "log @ [d]" rest']) (simp_all add: held_def)
      then show ?thesis using True r 1 len n assms(1) d e
        by (simp add: read_body_def Let_def kept_def mid_ok_def)
    qed
  next
    case 2
    with assms show ?thesis using r by (auto simp: read_body_def Let_def kept_def sync_def)
  qed
qed


primrec flow_state :: "'a flow \<Rightarrow> 'a" where
  "flow_state (Return s) = s"
| "flow_state (Go s) = s"

lemma read_part_sync:
  assumes "\<not> gone s" "in_ok (sock s)" "sync fut msgs s" "fits_sock (sock s) msgs"
  shows "case read_part log_rcb s of
      Return s' \<Rightarrow> sync fut msgs s' \<and> kept s s' \<and> (\<not> gone s' \<longrightarrow> in_ok (sock s'))
    | Go s' \<Rightarrow> sync fut msgs s' \<and> kept s s' \<and> \<not> gone s' \<and> mid_ok (sock s')"
proof (cases "rdmsg (sock s)")
  case None
  then have "rdpos (sock s) < 4" using assms(2) by (simp add: in_ok_def)
  then show ?thesis using read_length_sync [OF assms(1,2) None assms(3)] None by (simp add: read_part_def)
next
  case (Some buf)
  then show ?thesis using read_body_sync [OF assms(1,2) Some assms(3,4)] by (simp add: read_part_def)
qed

lemma take_length_sync:
  assumes "\<not> gone s" "mid_ok (sock s)" "sync fut msgs s" "fits_sock (sock s) msgs" "alloc_ok alloc"
  defines "s' \<equiv> flow_state (take_length log_rcb alloc s)"
  shows "sync fut msgs s' \<and> kept s s' \<and> (\<not> gone s' \<longrightarrow> in_ok (sock s')) \<and> kern s' = kern s
    \<and> ((\<forall>n. alloc n \<noteq> None) \<longrightarrow> \<not> gone s')"
proof (cases "rdmsg (sock s) \<noteq> None \<or> rdpos (sock s) < 4")
  case True
  with assms show ?thesis by (auto simp: s'_def take_length_def kept_def in_ok_def)
next
  case False
  then have N: "rdmsg (sock s) = None" "rdpos (sock s) = 4" "length (nextlen (sock s)) = 4"
    using assms(2) by (auto simp: mid_ok_def)
  from assms(3,1) obtain log rest where S: "msgs = log @ rest" "app s = map Some log"
    "held (sock s) @ k_stream (kern s) @ fut = concat (map frame rest)" by (rule syncE)
  from S(3) N have "rest \<noteq> []" by (auto simp: held_def)
  then obtain d rest' where rest: "rest = d # rest'" by (cases rest) auto
  have d: "length d \<le> maxmsglen (sock s)" "length d < 2 ^ 31"
    using assms(4) S(1) rest by (auto simp: fits_sock_def)
  have "nextlen (sock s) @ k_stream (kern s) @ fut = length_bytes (length d) @ d @ concat (map frame rest')"
    using S(3) N rest by (simp add: held_def frame_def)
  then have h: "nextlen (sock s) = length_bytes (length d)" "k_stream (kern s) @ fut = d @ concat (map frame rest')"
    using N(3) by simp_all
  have len: "swap32le (word32_of (nextlen (sock s))) AND 0x80000000 \<noteq> 0"
    "unat (swap32le (word32_of (nextlen (sock s))) AND 0x7fffffff) = length d"
    using and_high and_low [OF d(2)] by (simp_all only: h(1) length_bytes_read not_False_eq_True)
  show ?thesis
  proof (cases "d = []")
    case True
    have "s' = s\<lparr>sock := (sock s)\<lparr>rdpos := 0\<rparr>, app := app s @ [Some []]\<rparr>"
      using len N True assms(1) by (simp add: s'_def take_length_def)
    then show ?thesis using N S h True assms(1) rest
      by (auto simp: kept_def in_ok_def mid_ok_def held_def intro!: syncI [of _ "log @ [[]]" rest'])
  next
    case False
    show ?thesis
    proof (cases "alloc (length d)")
      case None
      have "s' = s\<lparr>sock := (sock s)\<lparr>rdmsg := None\<rparr>, app := app s @ [None], gone := True\<rparr>"
        using len N False d(1) assms(1) None by (simp add: s'_def take_length_def Let_def)
      then show ?thesis using None sync_closed [OF assms(3,1)] by (auto simp: kept_def)
    next
      case (Some b)
      then have b: "length b = length d" using assms(5) by (auto simp: alloc_ok_def)
      have "s' = s\<lparr>sock := (sock s)\<lparr>rdmsg := Some b, rdpos := 0\<rparr>\<rparr>"
        using len N False d(1) assms(1) Some by (simp add: s'_def take_length_def Let_def)
      then show ?thesis using N S h False assms(1) rest b d(2)
        by (auto simp: kept_def in_ok_def mid_ok_def held_def frame_def intro!: syncI [of _ "log" "d # rest'"])
    qed
  qed
qed

lemma keptD: "kept s s' \<Longrightarrow> fits_sock (sock s) msgs \<Longrightarrow> fits_sock (sock s') msgs"
  "kept s s' \<Longrightarrow> kept s' s'' \<Longrightarrow> kept s s''" "kept s s"
  by (auto simp: kept_def fits_sock_def)

lemma input_loop_sync:
  assumes "alloc_ok alloc" "sync fut msgs s" "fits_sock (sock s) msgs" "\<not> gone s \<Longrightarrow> in_ok (sock s)"
  shows "sync fut msgs (input_loop log_rcb alloc i s) \<and> kept s (input_loop log_rcb alloc i s)
    \<and> (\<not> gone (input_loop log_rcb alloc i s) \<longrightarrow> in_ok (sock (input_loop log_rcb alloc i s)))"
  using assms(2-)
proof (induction i arbitrary: s)
  case 0
  then show ?case by (simp add: keptD(3))
next
  case (Suc i)
  show ?case
  proof (cases "gone s")
    case True
    then show ?thesis using Suc.prems by (simp add: keptD(3))
  next
    case False
    note R = read_part_sync [OF False Suc.prems(3) [OF False] Suc.prems(1,2)]
    show ?thesis
    proof (cases "read_part log_rcb s")
      case (Return s1)
      with R False show ?thesis by simp
    next
      case (Go s1)
      with R have 1: "\<not> gone s1" "mid_ok (sock s1)" "sync fut msgs s1" "kept s s1" "fits_sock (sock s1) msgs"
        using keptD(1) Suc.prems(2) by auto
      note T = take_length_sync [OF 1(1,2,3,5) assms(1)]
      show ?thesis
      proof (cases "take_length log_rcb alloc s1")
        case (Return s2)
        with T Go False 1(4) show ?thesis by (auto intro: keptD(2))
      next
        case 2: (Go s2)
        with T 1 have "sync fut msgs s2" "fits_sock (sock s2) msgs" "\<not> gone s2 \<Longrightarrow> in_ok (sock s2)" "kept s s2"
          by (auto intro: keptD)
        with Suc.IH [of s2] Go False 2 show ?thesis by (auto intro: keptD)
      qed
    qed
  qed
qed


lemma poll_input_sync:
  assumes "alloc_ok alloc" "sync fut msgs s" "fits_sock (sock s) msgs" "\<not> gone s \<Longrightarrow> in_ok (sock s)"
  shows "sync fut msgs (poll_input log_rcb alloc n s) \<and> fits_sock (sock (poll_input log_rcb alloc n s)) msgs"
  using assms(2-)
proof (induction n arbitrary: s)
  case (Suc n)
  show ?case
  proof (cases "gone s \<or> \<not> rcb_on (sock s)")
    case False
    with Suc.IH [of "input log_rcb alloc s"] input_loop_sync [OF assms(1) Suc.prems, of 3] Suc.prems(2)
    show ?thesis by (auto simp: input_def intro: keptD)
  qed (use Suc.prems in auto)
qed simp

section \<open>Progress\<close>

text \<open>Every call of the kernel transfers something as long as the stream has bytes.\<close>

definition live :: "kernel \<Rightarrow> bool" where
  "live k \<longleftrightarrow> (\<forall>a \<in> set (k_answers k). \<exists>n. a = Ready n)"

lemma sys_read_live:
  assumes "live k" "sys_read cap k = (r, k')"
  shows "live k'" "r = Rd_again \<or> (\<exists>bs. r = Rd_n bs)" "length (k_answers k) \<le> Suc (length (k_answers k'))"
    "length (k_stream k') \<le> length (k_stream k)"
    "0 < cap \<Longrightarrow> k_answers k \<noteq> [] \<Longrightarrow> k_stream k \<noteq> [] \<Longrightarrow> length (k_stream k') < length (k_stream k)"
  using assms by (auto simp: sys_read_def live_def Let_def min_def split: list.splits answer.splits if_splits)

lemma read_part_live:
  assumes "live (kern s)" "\<not> gone s"
  defines "s' \<equiv> flow_state (read_part log_rcb s)"
  shows "\<not> gone s' \<and> live (kern s') \<and> length (k_answers (kern s)) \<le> Suc (length (k_answers (kern s')))
    \<and> length (k_stream (kern s')) \<le> length (k_stream (kern s))
    \<and> (in_ok (sock s) \<and> k_answers (kern s) \<noteq> [] \<and> k_stream (kern s) \<noteq> []
         \<longrightarrow> length (k_stream (kern s')) < length (k_stream (kern s)))"
proof (cases "rdmsg (sock s)")
  case None
  obtain r k' where r: "sys_read (4 - rdpos (sock s)) (kern s) = (r, k')" by fastforce
  from sys_read_live [OF assms(1) r] r None assms(1,2) show ?thesis
    by (auto simp: s'_def read_part_def read_length_def Let_def in_ok_def)
next
  case (Some buf)
  obtain r k' where r: "sys_read (length buf - rdpos (sock s) + 4) (kern s) = (r, k')" by fastforce
  note L = sys_read_live [OF assms(1) r]
  from L(2) show ?thesis
  proof (elim disjE exE)
    assume "r = Rd_again"
    with L r Some assms(2) show ?thesis by (simp add: s'_def read_part_def read_body_def Let_def)
  next
    fix bs assume "r = Rd_n bs"
    with L r Some assms(2) show ?thesis by (simp add: s'_def read_part_def read_body_def Let_def)
  qed
qed

lemma input_loop_live:
  assumes "alloc_ok alloc" "\<forall>n. alloc n \<noteq> None"
    and "sync fut msgs s" "fits_sock (sock s) msgs" "in_ok (sock s)" "\<not> gone s" "live (kern s)"
  defines "s' i \<equiv> input_loop log_rcb alloc i s"
  shows "\<not> gone (s' i) \<and> live (kern (s' i)) \<and> length (k_answers (kern s)) \<le> i + length (k_answers (kern (s' i)))
    \<and> length (k_stream (kern (s' i))) \<le> length (k_stream (kern s))
    \<and> (0 < i \<and> k_answers (kern s) \<noteq> [] \<and> k_stream (kern s) \<noteq> []
         \<longrightarrow> length (k_stream (kern (s' i))) < length (k_stream (kern s)))"
  unfolding s'_def using assms(3-7)
proof (induction i arbitrary: s)
  case (Suc i)
  note R = read_part_sync [OF Suc.prems(4,3,1,2)] and L = read_part_live [OF Suc.prems(5,4)]
  show ?case
  proof (cases "read_part log_rcb s")
    case (Return s1)
    with L Suc.prems(3,4) show ?thesis by auto
  next
    case (Go s1)
    with R have 1: "\<not> gone s1" "mid_ok (sock s1)" "sync fut msgs s1" "kept s s1" "fits_sock (sock s1) msgs"
      using keptD(1) Suc.prems(2) by auto
    note T = take_length_sync [OF 1(1,2,3,5) assms(1)]
    show ?thesis
    proof (cases "take_length log_rcb alloc s1")
      case (Return s2)
      with T Go L assms(2) Suc.prems(3,4) show ?thesis by auto
    next
      case 2: (Go s2)
      with T 1 assms(2) have "sync fut msgs s2" "fits_sock (sock s2) msgs" "in_ok (sock s2)" "\<not> gone s2" "kern s2 = kern s1"
        by (auto intro: keptD)
      with Suc.IH [of s2] Go 2 L Suc.prems(3,4) show ?thesis by auto
    qed
  qed
qed simp

lemma poll_input_live:
  assumes "alloc_ok alloc" "\<forall>n. alloc n \<noteq> None"
    and "sync fut msgs s" "fits_sock (sock s) msgs" "in_ok (sock s)" "\<not> gone s" "live (kern s)"
    and "rcb_on (sock s)" "length (k_stream (kern s)) \<le> n" "3 * n \<le> length (k_answers (kern s))"
  shows "k_stream (kern (poll_input log_rcb alloc n s)) = [] \<and> \<not> gone (poll_input log_rcb alloc n s)
    \<and> in_ok (sock (poll_input log_rcb alloc n s))"
  using assms(3-)
proof (induction n arbitrary: s)
  case (Suc n)
  let ?s = "input log_rcb alloc s"
  note S = input_loop_sync [OF assms(1) Suc.prems(1,2,3), of 3] 
  note L = input_loop_live [OF assms(1,2) Suc.prems(1-5), of 3]
  have "length (k_stream (kern ?s)) \<le> n"
    using L Suc.prems(7,8) by (cases "k_stream (kern s) = []") (auto simp: input_def)
  with S L Suc.prems Suc.IH [of ?s] show ?case by (auto simp: input_def kept_def fits_sock_def)
qed simp

lemma held_short:
  assumes "in_ok ms" "held ms = concat (map frame rest)" "fits_sock ms rest"
  shows "rest = []"
proof (rule ccontr)
  assume "rest \<noteq> []"
  then obtain d rest' where r: "rest = d # rest'" by (cases rest) auto
  show False
  proof (cases "rdmsg ms")
    case None
    have "length (held ms) < 4" using assms(1) None by (simp add: held_def in_ok_def mid_ok_def)
    with assms(2) r show False by simp
  next
    case (Some buf)
    then have b: "rdpos ms < length buf" "length buf < 2 ^ 31" using assms(1) by (simp_all add: in_ok_def mid_ok_def)
    from assms(2) Some have "length_bytes (length buf) @ take (rdpos ms) buf = concat (map frame rest)" by (simp add: held_def)
    then obtain d rest' where "length d = length buf" "take (rdpos ms) buf = d @ concat (map frame rest')"
      using frames_head [of "length buf" _ rest] b assms(3) unfolding fits_sock_def by metis
    from arg_cong [OF this(2), of length] this(1) b show False by simp
  qed
qed

section \<open>A new connection\<close>

definition new_conn :: "byte list \<Rightarrow> nat \<Rightarrow> byte list \<Rightarrow> answer list \<Rightarrow> byte list option list conn" where
  "new_conn junk maxlen bytes answers = \<lparr>sock = new_msg_sock junk maxlen,
     kern = \<lparr>k_stream = bytes, k_answers = answers\<rparr>, app = [], gone = False\<rparr>"

lemma new_conn_ok:
  assumes "length junk = 4"
  shows "in_ok (sock (new_conn junk maxlen bytes answers))"
    "bytes @ fut = concat (map frame msgs) \<Longrightarrow> sync fut msgs (new_conn junk maxlen bytes answers)"
  using assms by (auto simp: new_conn_def new_msg_sock_def in_ok_def mid_ok_def held_def intro: syncI [of _ "[]"])

lemma input_in_order:
  assumes "length junk = 4" and "alloc_ok alloc" and "\<forall>d \<in> set msgs. length d \<le> maxlen \<and> length d < 2 ^ 31"
    and "prefix bytes (concat (map frame msgs))"
  shows "\<exists>log. prefix log msgs \<and> (let s = poll_input log_rcb alloc n (new_conn junk maxlen bytes answers)
    in app s = map Some log @ (if gone s then [None] else []))"
proof -
  obtain fut where "bytes @ fut = concat (map frame msgs)" using assms(4) by (auto simp: prefix_def)
  from poll_input_sync [OF assms(2) new_conn_ok(2) [OF assms(1) this], of maxlen answers n] assms(1,3)
  show ?thesis
    by (auto simp: sync_def Let_def prefix_def new_conn_ok(1) fits_sock_def) (auto simp: new_conn_def new_msg_sock_def)
qed

lemma input_complete:
  assumes "length junk = 4" and "alloc_ok alloc" and "\<forall>n. alloc n \<noteq> None"
    and "\<forall>d \<in> set msgs. length d \<le> maxlen \<and> length d < 2 ^ 31"
    and "bytes = concat (map frame msgs)" and "\<forall>a \<in> set answers. \<exists>k. a = Ready k"
    and "length bytes \<le> n" and "3 * n \<le> length answers"
  shows "app (poll_input log_rcb alloc n (new_conn junk maxlen bytes answers)) = map Some msgs"
proof -
  let ?s = "new_conn junk maxlen bytes answers" and ?s' = "poll_input log_rcb alloc n (new_conn junk maxlen bytes answers)"
  have s: "sync [] msgs ?s" "fits_sock (sock ?s) msgs" "in_ok (sock ?s)" "\<not> gone ?s" "live (kern ?s)" "rcb_on (sock ?s)"
    using new_conn_ok [OF assms(1)] assms(4,5,6) by (auto simp: fits_sock_def live_def) (auto simp: new_conn_def new_msg_sock_def)
  have e: "k_stream (kern ?s') = []" "\<not> gone ?s'" "in_ok (sock ?s')"
    using poll_input_live [OF assms(2,3) s] assms(7,8) by (simp_all add: new_conn_def)
  have f: "sync [] msgs ?s'" "fits_sock (sock ?s') msgs" using poll_input_sync [OF assms(2) s(1,2)] s(3) by blast+
  then obtain log rest where l: "msgs = log @ rest" "app ?s' = map Some log" "held (sock ?s') = concat (map frame rest)"
    using e(1,2) by (auto elim!: syncE)
  with f(2) have "fits_sock (sock ?s') rest" by (simp add: fits_sock_def)
  from held_short [OF e(3) l(3) this] l show ?thesis by simp
qed


section \<open>The queue of the output\<close>

definition queued :: "msg_sock \<Rightarrow> byte list" where
  "queued ms = drop (wstart ms) (concat (map raw_data (wqueue ms)))"

definition headed :: "message_t \<Rightarrow> bool" where
  "headed m \<longleftrightarrow> length (m_len m) = 4"

lemma length_raw_data: "headed m \<Longrightarrow> length (raw_data m) = raw_size m"
  by (simp add: headed_def raw_data_def raw_size_def)

definition starts_in :: "nat \<Rightarrow> message_t list \<Rightarrow> bool" where
  "starts_in n q \<longleftrightarrow> (case q of [] \<Rightarrow> n = 0 | m # _ \<Rightarrow> n < raw_size m) \<and> (\<forall>m \<in> set q. headed m)"

definition out_ok :: "msg_sock \<Rightarrow> bool" where
  "out_ok ms \<longleftrightarrow> starts_in (wstart ms) (wqueue ms) \<and> wsize ms = length (queued ms) \<and> (wfail ms \<longrightarrow> wqueue ms = [])"

lemma pop_whole_ok:
  assumes "n \<le> length (concat (map raw_data q))" "\<forall>m \<in> set q. headed m"
  shows "\<exists>n' q'. pop_whole n q = Inr (n', q') \<and> starts_in n' q'
    \<and> drop n' (concat (map raw_data q')) = drop n (concat (map raw_data q))"
  using assms
proof (induction n q rule: pop_whole.induct)
  case (2 n m q)
  then show ?case by (auto simp: starts_in_def length_raw_data raw_size_def)
qed (simp add: starts_in_def)

lemma pop_wbytes_ok:
  assumes "out_ok ms" "n \<le> wsize ms"
  obtains ms' where "pop_wbytes n ms = Inr ms'" "out_ok ms'" "queued ms' = drop n (queued ms)"
    "wfail ms' = wfail ms" "wcb_on ms' = wcb_on ms"
proof (cases "n = 0")
  case True
  with assms that show ?thesis by (simp add: pop_wbytes_def)
next
  case False
  with assms have "queued ms \<noteq> []" by (auto simp: out_ok_def)
  then obtain m q where q: "wqueue ms = m # q" by (cases "wqueue ms") (auto simp: queued_def)
  have h: "headed m" "\<forall>m \<in> set q. headed m" "wstart ms < raw_size m" "\<not> wfail ms"
    using assms(1) q by (auto simp: out_ok_def starts_in_def)
  have len: "wsize ms = raw_size m - wstart ms + length (concat (map raw_data q))"
    using assms(1) q h by (simp add: out_ok_def queued_def length_raw_data)
  show ?thesis
  proof (cases "n < raw_size m - wstart ms")
    case True
    then show ?thesis using False assms q h
      by (intro that [of "ms\<lparr>wsize := wsize ms - n, wstart := wstart ms + n\<rparr>"])
        (auto simp: pop_wbytes_def Let_def out_ok_def starts_in_def queued_def add.commute length_raw_data)
  next
    case large: False
    then obtain n' q' where p: "pop_whole (n - (raw_size m - wstart ms)) q = Inr (n', q')" "starts_in n' q'"
      "drop n' (concat (map raw_data q')) = drop (n - (raw_size m - wstart ms)) (concat (map raw_data q))"
      using pop_whole_ok [OF _ h(2), of "n - (raw_size m - wstart ms)"] assms(2) len
      by (metis diff_le_mono add.commute diff_add_inverse2)
    let ?ms = "ms\<lparr>wsize := wsize ms - n, wqueue := q', wstart := n'\<rparr>"
    have "drop n (queued ms) = drop n' (concat (map raw_data q'))"
      using p(3) large h q by (simp add: queued_def length_raw_data drop_append)
    then have "queued ?ms = drop n (queued ms)" by (simp add: queued_def)
    then show ?thesis using False assms q h p(1,2) large
      by (intro that [of ?ms]) (simp_all add: pop_wbytes_def Let_def out_ok_def)
  qed
qed

lemma iov_prefix:
  assumes "out_ok ms"
  shows "prefix (iov ms) (queued ms)" "queued ms \<noteq> [] \<Longrightarrow> iov ms \<noteq> []"
proof -
  show "prefix (iov ms) (queued ms)"
  proof (cases "wqueue ms")
    case (Cons m q)
    then have h: "headed m" "wstart ms < raw_size m" using assms by (auto simp: out_ok_def starts_in_def)
    have "concat (map raw_data q) = concat (map raw_data (take 7 q)) @ concat (map raw_data (drop 7 q))"
      by (metis append_take_drop_id concat_append map_append)
    then show ?thesis using Cons h by (simp add: iov_def queued_def length_raw_data numeral_eq_Suc)
  qed (simp add: iov_def)
  show "iov ms \<noteq> []" if "queued ms \<noteq> []"
  proof (cases "wqueue ms")
    case (Cons m q)
    then have "headed m" "wstart ms < raw_size m" using assms by (auto simp: out_ok_def starts_in_def)
    then have "drop (wstart ms) (raw_data m) \<noteq> []" by (simp add: length_raw_data)
    then show ?thesis using Cons by (simp add: iov_def numeral_eq_Suc)
  qed (use that in \<open>simp add: queued_def\<close>)
qed

text \<open>\<open>all\<close> is what has been queued so far: it has been sent or still is in the queue.\<close>

definition accounted :: "byte list \<Rightarrow> msg_sock \<times> kernel \<Rightarrow> bool" where
  "accounted all = (\<lambda>(ms, k). out_ok ms
     \<and> (if wfail ms then prefix (k_stream k) all else k_stream k @ queued ms = all))"

definition failed_sock :: "msg_sock \<Rightarrow> msg_sock" where
  "failed_sock ms = ms\<lparr>wfail := True, wsize := 0, wstart := 0, wqueue := []\<rparr>"

lemma failed_accounted: "accounted all (ms, k) \<Longrightarrow> k_stream k' = k_stream k \<Longrightarrow> accounted all (failed_sock ms, k')"
  by (auto simp: accounted_def failed_sock_def out_ok_def queued_def starts_in_def split: if_splits)

lemma sock_output_ok:
  assumes "accounted all (ms, k)"
  obtains ms' k' where "sock_output cbset (ms, k) = Inr (ms', k')" "accounted all (ms', k')"
proof -
  obtain r k' where r: "sys_writev (iov ms) k = (r, k')" by fastforce
  have ok: "out_ok ms" using assms by (simp add: accounted_def)
  show ?thesis
  proof (cases "\<exists>n > 0. r = Wr_n n")
    case False
    then have "k_stream k' = k_stream k"
      using r by (auto simp: sys_writev_def Let_def split: list.splits answer.splits)
    moreover have "accounted all (ms, k')" using assms calculation by (auto simp: accounted_def)
    ultimately show ?thesis using False r that failed_accounted [OF assms, of k']
      by (cases r) (auto simp: sock_output_def failed_sock_def)
  next
    case True
    then obtain n where n: "r = Wr_n n" "0 < n" by blast
    have k: "n \<le> length (iov ms)" "k_stream k' = k_stream k @ take n (iov ms)"
      using r n by (auto simp: sys_writev_def Let_def split: list.splits answer.splits)
    obtain z where z: "queued ms = iov ms @ z" using iov_prefix(1) [OF ok] by (auto simp: prefix_def)
    then have le: "n \<le> wsize ms" using ok k(1) by (simp add: out_ok_def)
    obtain ms' where p: "pop_wbytes n ms = Inr ms'" "out_ok ms'" "queued ms' = drop n (queued ms)"
      "wfail ms' = wfail ms" "wcb_on ms' = wcb_on ms"
      by (rule pop_wbytes_ok [OF ok le])
    have "take n (iov ms) @ drop n (queued ms) = queued ms"
      using z k(1) by (metis append_take_drop_id take_append diff_is_0_eq' take_0 append_Nil2)
    moreover have "\<not> wfail ms" using ok n k(1) by (auto simp: out_ok_def iov_def)
    ultimately have a: "accounted all (ms'\<lparr>wcb_on := b\<rparr>, k')" "accounted all (ms', k')" for b
      using assms p k(2) by (auto simp: accounted_def out_ok_def queued_def)
    have "sock_output cbset (ms, k) = Inr (if wsize ms' \<noteq> 0 \<and> \<not> cbset then ms'\<lparr>wcb_on := True\<rparr>
        else if wsize ms' = 0 \<and> cbset then ms'\<lparr>wcb_on := False\<rparr> else ms', k')"
      using r n p(1) by (simp add: sock_output_def)
    then show ?thesis by (rule that) (simp add: a)
  qed
qed

lemma putmsg_ok:
  assumes "accounted all (ms, k)" "headed m"
  obtains ms' k' where "putmsg m (ms, k) = Inr (ms', k')" "accounted (all @ raw_data m) (ms', k')"
proof (cases "wfail ms")
  case True
  then show ?thesis using assms that [of ms k] by (auto simp: putmsg_def accounted_def)
next
  case False
  let ?ms = "ms\<lparr>wsize := wsize ms + raw_size m, wqueue := wqueue ms @ [m]\<rparr>"
  have "starts_in (wstart ms) (wqueue ms)" using assms by (simp add: accounted_def out_ok_def)
  then have "wstart ms \<le> length (concat (map raw_data (wqueue ms)))" "starts_in (wstart ms) (wqueue ms @ [m])"
    using assms(2) by (auto simp: starts_in_def length_raw_data raw_size_def split: list.splits)
  then have "queued ?ms = queued ms @ raw_data m" "starts_in (wstart ?ms) (wqueue ?ms)" by (simp_all add: queued_def)
  then have a: "accounted (all @ raw_data m) (?ms, k)"
    using assms False by (auto simp: accounted_def out_ok_def length_raw_data)
  show ?thesis
  proof (cases "wsize ms = 0")
    case True
    with False a that show ?thesis by (auto simp: putmsg_def Let_def intro: sock_output_ok [OF a, of False])
  next
    case ne: False
    with False a that show ?thesis by (auto simp: putmsg_def Let_def)
  qed
qed

fun puts :: "out_event list \<Rightarrow> message_t list" where
  "puts [] = []"
| "puts (Put m # es) = m # puts es"
| "puts (Writable # es) = puts es"

lemma out_run_ok:
  assumes "accounted all s" "\<forall>m \<in> set (puts es). headed m"
  shows "\<exists>s'. out_run es s = Inr s' \<and> accounted (all @ concat (map raw_data (puts es))) s'"
  using assms
proof (induction es arbitrary: all s)
  case (Cons e es)
  obtain ms k where s: "s = (ms, k)" by (cases s)
  show ?case
  proof (cases e)
    case (Put m)
    with Cons.prems s obtain ms' k' where "putmsg m (ms, k) = Inr (ms', k')" "accounted (all @ raw_data m) (ms', k')"
      using putmsg_ok [of all ms k m] by auto
    with Cons.IH [of "all @ raw_data m" "(ms', k')"] Cons.prems(2) Put s show ?thesis by auto
  next
    case Writable
    obtain s' where "out_step e s = Inr s'" "accounted all s'"
      using Cons.prems(1) s Writable sock_output_ok [of all ms k True] by (cases "wcb_on ms") auto
    with Cons.IH [of all s'] Cons.prems(2) Writable show ?thesis by auto
  qed
qed simp


text \<open>The callback for writing is registered exactly while something is queued.\<close>

definition armed :: "msg_sock \<Rightarrow> bool" where
  "armed ms \<longleftrightarrow> \<not> wfail ms \<and> (wcb_on ms \<longleftrightarrow> wsize ms \<noteq> 0)"

lemma sock_output_live:
  assumes "out_ok ms" "\<not> wfail ms" "queued ms \<noteq> []" "live k" "k_answers k \<noteq> []" "cbset = wcb_on ms"
  obtains ms' k' where "sock_output cbset (ms, k) = Inr (ms', k')" "armed ms'" "live k'"
    "length (k_answers k) = Suc (length (k_answers k'))" "wsize ms' < wsize ms"
proof -
  obtain n as where k: "k_answers k = Ready n # as" using assms(4,5) by (cases "k_answers k") (auto simp: live_def)
  let ?n = "min (Suc n) (length (iov ms))" and ?k = "k\<lparr>k_stream := k_stream k @ take (min (Suc n) (length (iov ms))) (iov ms), k_answers := as\<rparr>"
  have n: "0 < ?n" using iov_prefix(2) [OF assms(1,3)] by simp
  have "?n \<le> wsize ms" using prefix_length_le [OF iov_prefix(1) [OF assms(1)]] assms(1) by (simp add: out_ok_def)
  then obtain ms' where p: "pop_wbytes ?n ms = Inr ms'" "out_ok ms'" "queued ms' = drop ?n (queued ms)"
      "wfail ms' = wfail ms" "wcb_on ms' = wcb_on ms" by (rule pop_wbytes_ok [OF assms(1)])
  have w: "wsize ms' < wsize ms" using p(2,3) assms(1,3) n by (simp add: out_ok_def del: min_less_iff_conj) 
  have "sock_output cbset (ms, k) = Inr (if wsize ms' \<noteq> 0 \<and> \<not> cbset then ms'\<lparr>wcb_on := True\<rparr>
        else if wsize ms' = 0 \<and> cbset then ms'\<lparr>wcb_on := False\<rparr> else ms', ?k)"
    using n p(1) k by (simp add: sock_output_def sys_writev_def Let_def del: min_less_iff_conj)
  then show ?thesis
    by (rule that) (use p(4,5) assms(2,4,6) k w in \<open>auto simp: armed_def live_def\<close>)
qed

lemma putmsg_live:
  assumes "out_ok ms" "armed ms" "live k" "k_answers k \<noteq> []" "headed m"
  obtains ms' k' where "putmsg m (ms, k) = Inr (ms', k')" "armed ms'" "live k'"
    "length (k_answers k) \<le> Suc (length (k_answers k'))"
proof (cases "wsize ms = 0")
  case False
  then show ?thesis
    using assms that [of "ms\<lparr>wsize := wsize ms + raw_size m, wqueue := wqueue ms @ [m]\<rparr>" k]
    by (auto simp: putmsg_def armed_def)
next
  case True
  let ?ms = "ms\<lparr>wsize := wsize ms + raw_size m, wqueue := wqueue ms @ [m]\<rparr>"
  have "queued ms = []" using assms(1) True by (simp add: out_ok_def)
  moreover from this assms(1) have "wqueue ms = []" "wstart ms = 0"
    by (auto simp: out_ok_def starts_in_def queued_def length_raw_data split: list.splits)
  ultimately have o: "out_ok ?ms" "queued ?ms \<noteq> []" using assms(2,5) True
    by (auto simp: out_ok_def starts_in_def queued_def length_raw_data armed_def) (auto simp: raw_size_def headed_def raw_data_def)
  have a: "\<not> wfail ?ms" "False = wcb_on ?ms" using assms(2) True by (simp_all add: armed_def)
  obtain ms' k' where
    "sock_output False (?ms, k) = Inr (ms', k')" "armed ms'" "live k'" "length (k_answers k) = Suc (length (k_answers k'))"
    by (rule sock_output_live [OF o(1) a(1) o(2) assms(3,4) a(2)])
  with True assms(2) that show ?thesis by (auto simp: putmsg_def armed_def Let_def)
qed

lemma out_step_live:
  assumes "accounted all s" "armed (fst s)" "live (snd s)" "k_answers (snd s) \<noteq> []" "\<forall>m \<in> set (puts [e]). headed m"
  obtains s' where "out_step e s = Inr s'" "accounted (all @ concat (map raw_data (puts [e]))) s'" "armed (fst s')" "live (snd s')"
    "length (k_answers (snd s)) \<le> Suc (length (k_answers (snd s')))" "e = Writable \<Longrightarrow> wsize (fst s') \<le> wsize (fst s) - 1"
proof -
  obtain ms k where s: "s = (ms, k)" by (cases s)
  have ok: "out_ok ms" using assms(1) s by (simp add: accounted_def)
  have "out_run [e] s = Inr s' \<Longrightarrow> accounted (all @ concat (map raw_data (puts [e]))) s'" for s'
    using out_run_ok [OF assms(1,5)] by auto
  then have A: "out_step e s = Inr s' \<Longrightarrow> accounted (all @ concat (map raw_data (puts [e]))) s'" for s' by simp
  show ?thesis
  proof (cases e)
    case (Put m)
    then obtain ms' k' where "putmsg m (ms, k) = Inr (ms', k')" "armed ms'" "live k'"
      "length (k_answers k) \<le> Suc (length (k_answers k'))"
      using putmsg_live [OF ok, of k m] assms s by auto
    then show ?thesis using Put s A by (intro that [of "(ms', k')"]) auto
  next
    case Writable
    show ?thesis
    proof (cases "wcb_on ms")
      case True
      then have q: "\<not> wfail ms" "queued ms \<noteq> []" "live k" "k_answers k \<noteq> []" "True = wcb_on ms"
        using assms s ok by (auto simp: armed_def out_ok_def)
      obtain ms' k' where "sock_output True (ms, k) = Inr (ms', k')" "armed ms'" "live k'"
        "length (k_answers k) = Suc (length (k_answers k'))" "wsize ms' < wsize ms"
        by (rule sock_output_live [OF ok q])
      then show ?thesis using Writable s A True by (intro that [of "(ms', k')"]) auto
    next
      case False
      then show ?thesis using Writable s A assms(2,3) by (intro that [of s]) (auto simp: armed_def)
    qed
  qed
qed

lemma out_run_live:
  assumes "accounted all s" "armed (fst s)" "live (snd s)" "length es \<le> length (k_answers (snd s))" "\<forall>m \<in> set (puts es). headed m"
  shows "\<exists>s'. out_run es s = Inr s' \<and> accounted (all @ concat (map raw_data (puts es))) s' \<and> armed (fst s') \<and> live (snd s')
    \<and> length (k_answers (snd s)) \<le> length es + length (k_answers (snd s'))
    \<and> (puts es = [] \<and> wsize (fst s) \<le> length es \<longrightarrow> wsize (fst s') = 0)"
  using assms
proof (induction es arbitrary: all s)
  case (Cons e es)
  have h: "\<forall>m \<in> set (puts [e]). headed m" "\<forall>m \<in> set (puts es). headed m"
    "puts (e # es) = puts [e] @ puts es" using Cons.prems(5) by (cases e; simp)+
  have "k_answers (snd s) \<noteq> []" using Cons.prems(4) by auto
  from out_step_live [OF Cons.prems(1-3) this h(1)] obtain s1 where 1: "out_step e s = Inr s1"
    "accounted (all @ concat (map raw_data (puts [e]))) s1" "armed (fst s1)" "live (snd s1)"
    "length (k_answers (snd s)) \<le> Suc (length (k_answers (snd s1)))" "e = Writable \<Longrightarrow> wsize (fst s1) \<le> wsize (fst s) - 1"
    by blast
  have "length es \<le> length (k_answers (snd s1))" using 1(5) Cons.prems(4) by simp
  from Cons.IH [OF 1(2-4) this h(2)] 1(1,5,6) h(3) show ?case by (cases e) auto
qed (auto)

section \<open>Properties\<close>

definition whole :: "nat \<Rightarrow> message_t \<Rightarrow> bool" where
  "whole maxlen m \<longleftrightarrow> message_with (m_data m) = Inr m \<and> length (m_data m) \<le> maxlen"

lemma wholeD:
  "whole maxlen m \<Longrightarrow> headed m" "whole maxlen m \<Longrightarrow> raw_data m = frame (m_data m)" 
  "whole maxlen m \<Longrightarrow> length (m_data m) \<le> maxlen \<and> length (m_data m) < 2 ^ 31"
  using message_with_frame [of "m_data m" m]
  by (auto simp: whole_def headed_def frame_def raw_data_def message_with_def)

lemma whole_puts:
  assumes "\<forall>m \<in> set (puts es). whole maxlen m"
  shows "\<forall>m \<in> set (puts es). headed m"
    "concat (map raw_data (puts es)) = concat (map frame (map m_data (puts es)))"
    "\<forall>d \<in> set (map m_data (puts es)). length d \<le> maxlen \<and> length d < 2 ^ 31"
proof -
  have "map raw_data (puts es) = map (frame \<circ> m_data) (puts es)" using assms by (auto simp: wholeD(2))
  then show "concat (map raw_data (puts es)) = concat (map frame (map m_data (puts es)))" by (simp only: map_map)
qed (use assms wholeD in auto)

definition new_out :: "byte list \<Rightarrow> nat \<Rightarrow> answer list \<Rightarrow> msg_sock \<times> kernel" where
  "new_out junk maxlen answers = (new_msg_sock junk maxlen, \<lparr>k_stream = [], k_answers = answers\<rparr>)"

lemma new_out_ok: "accounted [] (new_out junk maxlen answers)" "armed (fst (new_out junk maxlen answers))"
  by (simp_all add: new_out_def new_msg_sock_def accounted_def armed_def out_ok_def starts_in_def queued_def)

definition ping_run :: "out_event list" where
  "ping_run = [Put \<lparr>m_len = length_bytes 4, m_data = ''ping''\<rparr>, Writable, Put \<lparr>m_len = length_bytes 0, m_data = []\<rparr>]"

lemma ping_run_whole: "\<forall>m \<in> set (puts ping_run). whole 16 m"
  by (simp add: ping_run_def whole_def message_with_def length_bytes_def)

lemma replicate_alloc: "alloc_ok (\<lambda>n. Some (replicate n (CHR 0x00)))"
  by (simp add: alloc_ok_def)

text \<open>C7: Messages arrive in order and unchanged: whatever part of a write or a read the kernel
  transfers at a time, whatever errors it reports, and whenever the poll set calls the two
  sockets, the output queue never fails its assertion, and the receiver of the other end is
  given a prefix of the list of messages that were queued, followed by at most one notice that
  the stream has ended.\<close>

theorem delivery_in_order:
  assumes "\<forall>m \<in> set (puts es). whole maxlen m" and "alloc_ok alloc" and "length junk = 4"
  shows "\<exists>ms k log. out_run es (new_out junk maxlen answers) = Inr (ms, k) \<and> prefix log (map m_data (puts es))
    \<and> (let s = poll_input log_rcb alloc n (new_conn junk maxlen (k_stream k) answers')
       in app s = map Some log @ (if gone s then [None] else []))"
proof -
  note W = whole_puts [OF assms(1)]
  from out_run_ok [OF new_out_ok(1) W(1), of junk maxlen answers] obtain ms k where r: "out_run es (new_out junk maxlen answers) = Inr (ms, k)"
    "accounted (concat (map raw_data (puts es))) (ms, k)" by auto
  then have "prefix (k_stream k) (concat (map frame (map m_data (puts es))))"
    unfolding W(2) by (auto simp: accounted_def intro: prefixI [OF sym] split: if_splits)
  from input_in_order [OF assms(3,2) W(3) this, of n answers'] r(1) show ?thesis by blast
qed

theorem delivery_in_order_witness:
  "\<exists>ms k log. out_run ping_run (new_out ''abcd'' 16 [Ready 2, Ready 9, Again]) = Inr (ms, k)
    \<and> prefix log (map m_data (puts ping_run))
    \<and> (let s = poll_input log_rcb (\<lambda>n. Some (replicate n (CHR 0x00))) 5
         (new_conn ''abcd'' 16 (k_stream k) [Ready 1, Ready 5, Again, Eof])
       in app s = map Some log @ (if gone s then [None] else []))"
  by (rule delivery_in_order [OF ping_run_whole replicate_alloc]) simp

text \<open>C8: All messages arrive: when every call of the kernel transfers at least one byte and no
  allocation fails, the queued messages are all sent after as many rounds of the poll set as
  there are bytes, and the receiver is given exactly the list of messages.\<close>

theorem delivery_complete:
  assumes "\<forall>m \<in> set (puts es). whole maxlen m" and "alloc_ok alloc" and "\<forall>n. alloc n \<noteq> None" and "length junk = 4"
    and "\<forall>a \<in> set answers \<union> set answers'. \<exists>k. a = Ready k"
    and "bytes = concat (map raw_data (puts es))"
    and "length es + length bytes \<le> length answers" and "3 * length bytes \<le> length answers'"
  shows "\<exists>ms k. out_run (es @ replicate (length bytes) Writable) (new_out junk maxlen answers) = Inr (ms, k)
    \<and> app (poll_input log_rcb alloc (length bytes) (new_conn junk maxlen (k_stream k) answers')) = map Some (map m_data (puts es))"
proof -
  note W = whole_puts [OF assms(1)]
  have ans: "live (snd (new_out junk maxlen answers))" "length es \<le> length (k_answers (snd (new_out junk maxlen answers)))"
    using assms(5,7) by (simp_all add: new_out_def live_def)
  from out_run_live [OF new_out_ok ans W(1)] obtain s1 where 1: "out_run es (new_out junk maxlen answers) = Inr s1"
    "accounted bytes s1" "armed (fst s1)" "live (snd s1)" "length answers \<le> length es + length (k_answers (snd s1))"
    using assms(6) by (auto simp: new_out_def)
  have p: "puts (replicate n Writable) = []" for n by (induction n) simp_all
  have "wsize (fst s1) \<le> length bytes"
    using 1(2,3) by (cases s1) (auto simp: accounted_def out_ok_def armed_def)
  with out_run_live [OF 1(2-4), of "replicate (length bytes) Writable"] 1(5) assms(7) obtain ms k where
    2: "out_run (replicate (length bytes) Writable) s1 = Inr (ms, k)" "accounted bytes (ms, k)" "armed ms" "wsize ms = 0"
    by (auto simp: p)
  then have k: "k_stream k = bytes" by (auto simp: accounted_def armed_def out_ok_def)
  have "out_run (xs @ ys) s = bindR (out_run xs s) (out_run ys)" for xs ys s
    by (induction xs arbitrary: s) (auto simp: bindR_assoc intro: bindR_cong)
  with 1(1) 2(1) have "out_run (es @ replicate (length bytes) Writable) (new_out junk maxlen answers) = Inr (ms, k)" by simp
  with input_complete [OF assms(4,2,3) W(3), of "k_stream k" answers' "length bytes"] k W(2) assms(5,6,8)
  show ?thesis by (intro exI [of _ ms] exI [of _ k]) simp
qed

theorem delivery_complete_witness:
  "\<exists>ms k. out_run (ping_run @ replicate 12 Writable) (new_out ''abcd'' 16 (replicate 15 (Ready 1))) = Inr (ms, k)
    \<and> app (poll_input log_rcb (\<lambda>n. Some (replicate n (CHR 0x00))) 12
        (new_conn ''abcd'' 16 (k_stream k) (replicate 36 (Ready 0)))) = map Some (map m_data (puts ping_run))"
proof -
  have l: "length (concat (map raw_data (puts ping_run))) = 12" by (simp add: ping_run_def raw_data_def)
  show ?thesis
    using delivery_complete [OF ping_run_whole replicate_alloc, of "''abcd''" "replicate 15 (Ready 1)"
        "replicate 36 (Ready 0)" "concat (map raw_data (puts ping_run))"]
    unfolding l by (simp add: ping_run_def)
qed

text \<open>A message that is queued while the kernel has no room is never sent: \<open>output\<close> returns on
  \<open>EAGAIN\<close> without registering the callback for writing, and later messages are only appended to
  the queue, because it is not empty.\<close>

theorem output_stalls:
  assumes "out_ok ms" and "\<not> wfail ms" and "wsize ms = 0" and "\<not> wcb_on ms" and "headed m"
    and "k_answers k = Again # as" and "\<forall>m \<in> set (puts es). headed m"
  shows "\<exists>ms' k'. out_run (Put m # es) (ms, k) = Inr (ms', k') \<and> k_stream k' = k_stream k
    \<and> raw_size m \<le> wsize ms' \<and> \<not> wcb_on ms' \<and> \<not> wfail ms'"
proof -
  define ms1 where "ms1 = ms\<lparr>wsize := raw_size m, wqueue := wqueue ms @ [m]\<rparr>"
  have 1: "putmsg m (ms, k) = Inr (ms1, k\<lparr>k_answers := as\<rparr>)"
    using assms(2,3,6) by (simp add: putmsg_def sock_output_def sys_writev_def ms1_def)
  have "\<exists>ms'. out_run es (ms1, k1) = Inr (ms', k1) \<and> raw_size m \<le> wsize ms' \<and> \<not> wcb_on ms' \<and> \<not> wfail ms'"
    if "raw_size m \<le> wsize ms1" "\<not> wcb_on ms1" "\<not> wfail ms1" for k1 ms1
    using that
  proof (induction es arbitrary: ms1)
    case (Cons e es)
    have "0 < wsize ms1" using Cons.prems by (simp add: raw_size_def)
    with Cons.prems Cons.IH [of ms1] Cons.IH [of "ms1\<lparr>wsize := wsize ms1 + raw_size n, wqueue := wqueue ms1 @ [n]\<rparr>" for n]
    show ?case by (cases e) (auto simp: putmsg_def)
  qed auto
  from this [of ms1 "k\<lparr>k_answers := as\<rparr>"] 1 assms(2,4) show ?thesis by (auto simp: ms1_def)
qed

theorem output_stalls_witness:
  "\<exists>ms' k'. out_run (Put \<lparr>m_len = length_bytes 4, m_data = ''ping''\<rparr> # ping_run)
      (new_msg_sock ''abcd'' 16, \<lparr>k_stream = [], k_answers = Again # replicate 9 (Ready 100)\<rparr>) = Inr (ms', k')
    \<and> k_stream k' = k_stream \<lparr>k_stream = [], k_answers = Again # replicate 9 (Ready 100)\<rparr>
    \<and> raw_size \<lparr>m_len = length_bytes 4, m_data = ''ping''\<rparr> \<le> wsize ms' \<and> \<not> wcb_on ms' \<and> \<not> wfail ms'"
  by (rule output_stalls [where as = "replicate 9 (Ready 100)"])
    (simp_all add: new_msg_sock_def out_ok_def starts_in_def queued_def headed_def ping_run_def)

text \<open>On a blocking socket whose calls transfer all bytes asked for, \<open>write_message\<close> writes the
  length and the data of a message, and \<open>read_message\<close> at the other end reads that message and
  leaves the bytes after it.\<close>

theorem read_after_write:
  assumes "whole (2 ^ 31) m" and "\<forall>n. alloc n \<noteq> None" and "raw_size m \<le> Suc n"
    and "k_stream k' = raw_data m @ rest" and "k_answers k' = Ready a # Ready b # as" and "3 \<le> a" and "length (m_data m) \<le> Suc b"
  shows "\<exists>w. write_message m \<lparr>k_stream = sent, k_answers = [Ready n]\<rparr> = Inr w \<and> k_stream w = sent @ raw_data m
    \<and> (\<exists>k''. read_message alloc k' = Inr (m, k'') \<and> k_stream k'' = rest)"
proof -
  have m: "raw_data m = frame (m_data m)" "length (m_data m) < 2 ^ 31" "length (raw_data m) = raw_size m"
    using wholeD [OF assms(1)] by (auto simp: raw_size_def)
  have len: "m = \<lparr>m_len = length_bytes (length (m_data m)), m_data = m_data m\<rparr>"
    using assms(1) m(1) by (cases m) (simp add: raw_data_def frame_def whole_def message_with_def length_bytes_def)
  have "min (Suc a) (min 4 (length (frame (m_data m) @ rest))) = 4" using assms(6) by simp
  then have r1: "sys_read 4 k' = (Rd_n (length_bytes (length (m_data m))),
      k'\<lparr>k_stream := m_data m @ rest, k_answers := Ready b # as\<rparr>)"
    using assms(4,5) m(1) by (simp add: sys_read_def frame_def)
  obtain x where x: "alloc (length (m_data m)) = Some x" using assms(2) by blast
  show ?thesis
    using assms(3,7) m r1 x len and_high [of "length (m_data m)"] and_low [OF m(2)]
    by (auto simp: write_message_def sys_writev_def read_message_def sys_read_def Let_def)
qed

theorem read_after_write_witness:
  "\<exists>w. write_message \<lparr>m_len = length_bytes 4, m_data = ''ping''\<rparr> \<lparr>k_stream = ''x'', k_answers = [Ready 9]\<rparr> = Inr w
    \<and> k_stream w = ''x'' @ raw_data \<lparr>m_len = length_bytes 4, m_data = ''ping''\<rparr>
    \<and> (\<exists>k''. read_message (\<lambda>n. Some (replicate n (CHR 0x00)))
          \<lparr>k_stream = raw_data \<lparr>m_len = length_bytes 4, m_data = ''ping''\<rparr> @ ''rest'', k_answers = [Ready 3, Ready 8]\<rparr>
          = Inr (\<lparr>m_len = length_bytes 4, m_data = ''ping''\<rparr>, k'') \<and> k_stream k'' = ''rest'')"
  by (rule read_after_write [where a = 3 and b = 8 and as = "[]"])
    (simp_all add: whole_def message_with_def length_bytes_def raw_size_def)

end
