(* ===== verification/Pollset.thy ===== *)
theory Pollset
  imports Chubby_Prelude
begin

text \<open>
  The event harness: class \<open>pollset\<close> of \<open>src/xdrpp/xdrpp/pollset.h\<close> and \<open>pollset.cc\<close>, with which
  the servers and the client wait for their sockets. The state is the vector given to the system
  call \<open>poll\<close>, the map from descriptors to callbacks, and the timeouts. A callback is a value of any
  type; what running it does to the world, the poll set included, is a parameter. The kernel's
  answer to \<open>poll\<close> and the time are parameters too.
\<close>

section \<open>State\<close>

text \<open>The bits \<open>POLLIN\<close> and \<open>POLLOUT\<close> of \<open>events\<close>.\<close>

record pollfd =
  pfd_fd :: nat
  pfd_in :: bool
  pfd_out :: bool

definition events :: "pollfd \<Rightarrow> bool" where
  "events p \<longleftrightarrow> pfd_in p \<or> pfd_out p"

record 'cb fd_state =
  fs_rcb :: "'cb option"
  fs_wcb :: "'cb option"
  fs_idx :: "nat option"
  fs_roneshot :: bool
  fs_woneshot :: bool

text \<open>Timeouts are kept in the order of their times; a \<open>Timeout\<close> is an iterator, here a number.\<close>

record 'cb pollset =
  pollfds :: "pollfd list"
  pstate :: "nat \<rightharpoonup> 'cb fd_state"
  time_cbs :: "(int \<times> nat \<times> 'cb) list"
  next_timer :: nat

definition new_pollset :: "'cb pollset" where
  "new_pollset = \<lparr>pollfds = [], pstate = Map.empty, time_cbs = [], next_timer = 0\<rparr>"

text \<open>A failed assertion, \<open>std::terminate\<close>, and \<open>at\<close> on a missing key or index.\<close>

datatype ps_error = Ps_assert | Ps_terminate | Ps_range

datatype op_t = Read | Write | ReadWrite | ReadOnce | WriteOnce

definition has_read :: "op_t \<Rightarrow> bool" where
  "has_read op \<longleftrightarrow> op \<in> {Read, ReadWrite, ReadOnce}"

definition has_write :: "op_t \<Rightarrow> bool" where
  "has_write op \<longleftrightarrow> op \<in> {Write, ReadWrite, WriteOnce}"

definition has_once :: "op_t \<Rightarrow> bool" where
  "has_once op \<longleftrightarrow> op \<in> {ReadOnce, WriteOnce}"

section \<open>Registering callbacks\<close>

definition fresh_fd_state :: "'cb fd_state" where
  "fresh_fd_state = \<lparr>fs_rcb = None, fs_wcb = None, fs_idx = None, fs_roneshot = False, fs_woneshot = False\<rparr>"

text \<open>The entry of a descriptor, added at the end of the vector when there is none.\<close>

definition fd_slot :: "nat \<Rightarrow> 'cb pollset \<Rightarrow> ps_error + nat \<times> 'cb fd_state \<times> pollfd list" where
  "fd_slot fd ps =
     (let fs = map_at fresh_fd_state (pstate ps) fd in
      case fs_idx fs of
        None \<Rightarrow> Inr (length (pollfds ps), fs\<lparr>fs_idx := Some (length (pollfds ps))\<rparr>,
          pollfds ps @ [\<lparr>pfd_fd = fd, pfd_in = False, pfd_out = False\<rparr>])
      | Some i \<Rightarrow>
          if length (pollfds ps) \<le> i then Inl Ps_range
          else if pfd_fd (pollfds ps ! i) \<noteq> fd then Inl Ps_assert
          else Inr (i, fs, pollfds ps))"

text \<open>\<open>fd_cb_helper(fd, op) = cb\<close>\<close>

definition fd_cb_assign :: "nat \<Rightarrow> op_t \<Rightarrow> 'cb option \<Rightarrow> 'cb pollset \<Rightarrow> ps_error + 'cb pollset" where
  "fd_cb_assign fd op cb ps =
     bindR (fd_slot fd ps) (\<lambda>(i, fs, pfds).
     if has_read op
     then if has_write op then Inl Ps_terminate
          else Inr (ps\<lparr>pollfds := pfds[i := (pfds ! i)\<lparr>pfd_in := True\<rparr>],
                 pstate := (pstate ps)(fd \<mapsto> fs\<lparr>fs_roneshot := has_once op, fs_rcb := cb\<rparr>)\<rparr>)
     else if has_write op
     then Inr (ps\<lparr>pollfds := pfds[i := (pfds ! i)\<lparr>pfd_out := True\<rparr>],
                 pstate := (pstate ps)(fd \<mapsto> fs\<lparr>fs_woneshot := has_once op, fs_wcb := cb\<rparr>)\<rparr>)
     else Inl Ps_terminate)"

text \<open>\<open>fd_cb(fd, op)\<close>: removing callbacks.\<close>

definition fd_cb_remove :: "nat \<Rightarrow> op_t \<Rightarrow> 'cb pollset \<Rightarrow> ps_error + 'cb pollset" where
  "fd_cb_remove fd op ps = (case pstate ps fd of
     None \<Rightarrow> Inr ps
   | Some fs \<Rightarrow> (case fs_idx fs of
       None \<Rightarrow> Inl Ps_range
     | Some i \<Rightarrow>
         if length (pollfds ps) \<le> i then Inl Ps_range
         else let p = pollfds ps ! i in
           Inr (ps\<lparr>pollfds := (pollfds ps)[i := p\<lparr>pfd_in := pfd_in p \<and> \<not> has_read op,
                                               pfd_out := pfd_out p \<and> \<not> has_write op\<rparr>],
             pstate := (pstate ps)(fd \<mapsto> fs\<lparr>fs_rcb := (if has_read op then None else fs_rcb fs),
                                          fs_wcb := (if has_write op then None else fs_wcb fs)\<rparr>)\<rparr>)))"

text \<open>\<open>fd_cb(fd, op, cb)\<close>: an empty callback is removed again.\<close>

definition fd_cb :: "nat \<Rightarrow> op_t \<Rightarrow> 'cb option \<Rightarrow> 'cb pollset \<Rightarrow> ps_error + 'cb pollset" where
  "fd_cb fd op cb ps = bindR (fd_cb_assign fd op cb ps) (\<lambda>ps.
     if cb = None then fd_cb_remove fd op ps else Inr ps)"

definition num_cbs :: "'cb pollset \<Rightarrow> nat" where
  "num_cbs ps = length (pollfds ps) + length (time_cbs ps)"

section \<open>Timeouts\<close>

text \<open>\<open>std::multimap::emplace\<close>: after the entries with the same key.\<close>

fun timer_insert :: "int \<times> nat \<times> 'cb \<Rightarrow> (int \<times> nat \<times> 'cb) list \<Rightarrow> (int \<times> nat \<times> 'cb) list" where
  "timer_insert x [] = [x]"
| "timer_insert x (y # ys) = (if fst y \<le> fst x then y # timer_insert x ys else x # y # ys)"

definition timeout_at :: "int \<Rightarrow> 'cb \<Rightarrow> 'cb pollset \<Rightarrow> nat \<times> 'cb pollset" where
  "timeout_at ms cb ps =
     (next_timer ps, ps\<lparr>next_timer := Suc (next_timer ps), time_cbs := timer_insert (ms, next_timer ps, cb) (time_cbs ps)\<rparr>)"

definition timer_erase :: "nat \<Rightarrow> 'cb pollset \<Rightarrow> 'cb pollset" where
  "timer_erase t ps = ps\<lparr>time_cbs := filter (\<lambda>x. fst (snd x) \<noteq> t) (time_cbs ps)\<rparr>"

definition timer_of :: "nat \<Rightarrow> 'cb pollset \<Rightarrow> (int \<times> nat \<times> 'cb) option" where
  "timer_of t ps = find (\<lambda>x. fst (snd x) = t) (time_cbs ps)"

text \<open>
  The null \<open>Timeout\<close> is \<open>None\<close>. Using the iterator of a timeout that is no longer there has no
  defined behaviour; the model reports it.
\<close>

definition timeout_cancel :: "nat option \<Rightarrow> 'cb pollset \<Rightarrow> ps_error + nat option \<times> 'cb pollset" where
  "timeout_cancel t ps = (case t of
     None \<Rightarrow> Inr (t, ps)
   | Some tm \<Rightarrow> (case timer_of tm ps of
       None \<Rightarrow> Inl Ps_range
     | Some _ \<Rightarrow> Inr (None, timer_erase tm ps)))"

definition timeout_reschedule_at :: "nat \<Rightarrow> int \<Rightarrow> 'cb pollset \<Rightarrow> ps_error + nat \<times> 'cb pollset" where
  "timeout_reschedule_at tm ms ps = (case timer_of tm ps of
     None \<Rightarrow> Inl Ps_range
   | Some (_, _, cb) \<Rightarrow> (case timeout_at ms cb ps of (tm', ps) \<Rightarrow> Inr (tm', timer_erase tm ps)))"

text \<open>The time to wait, in milliseconds; the difference is cut to the range of an \<open>int\<close>.\<close>

definition next_timeout :: "int \<Rightarrow> int \<Rightarrow> 'cb pollset \<Rightarrow> int" where
  "next_timeout now ms ps = (case time_cbs ps of
     [] \<Rightarrow> ms
   | (t, _) # _ \<Rightarrow>
       if t \<le> now then 0
       else let wait = min (t - now) (2 ^ 31 - 1) in if 0 \<le> ms \<and> ms \<le> wait then ms else wait)"

section \<open>One round\<close>

text \<open>
  The world in which callbacks run holds the poll set and everything else. A callback is run by
  \<open>run\<close>, which may change the poll set.
\<close>

type_synonym ('cb, 'a) world = "'cb pollset \<times> 'a"
type_synonym ('cb, 'a) run_cb = "'cb \<Rightarrow> ('cb, 'a) world \<Rightarrow> ps_error + ('cb, 'a) world"

text \<open>The bits of \<open>revents\<close>.\<close>

record revents =
  POLLIN :: bool
  POLLOUT :: bool
  POLLHUP :: bool
  POLLERR :: bool
  POLLNVAL :: bool

definition any_event :: "revents \<Rightarrow> bool" where
  "any_event re \<longleftrightarrow> POLLIN re \<or> POLLOUT re \<or> POLLHUP re \<or> POLLERR re \<or> POLLNVAL re"

definition ready_in :: "revents \<Rightarrow> bool" where
  "ready_in re \<longleftrightarrow> POLLIN re \<or> POLLHUP re \<or> POLLERR re"

definition ready_out :: "revents \<Rightarrow> bool" where
  "ready_out re \<longleftrightarrow> POLLOUT re \<or> POLLHUP re \<or> POLLERR re"

definition call_read :: "('cb, 'a) run_cb \<Rightarrow> nat \<Rightarrow> nat \<Rightarrow> ('cb, 'a) world \<Rightarrow> ps_error + ('cb, 'a) world" where
  "call_read run i fd = (\<lambda>(ps, x). case pstate ps fd of
     None \<Rightarrow> Inl Ps_range
   | Some fs \<Rightarrow> (case fs_rcb fs of
       None \<Rightarrow> Inr (ps, x)
     | Some cb \<Rightarrow>
         if fs_roneshot fs
         then run cb (ps\<lparr>pstate := (pstate ps)(fd \<mapsto> fs\<lparr>fs_rcb := None\<rparr>),
                         pollfds := (pollfds ps)[i := (pollfds ps ! i)\<lparr>pfd_in := False\<rparr>]\<rparr>, x)
         else run cb (ps, x)))"

definition call_write :: "('cb, 'a) run_cb \<Rightarrow> nat \<Rightarrow> nat \<Rightarrow> ('cb, 'a) world \<Rightarrow> ps_error + ('cb, 'a) world" where
  "call_write run i fd = (\<lambda>(ps, x). case pstate ps fd of
     None \<Rightarrow> Inl Ps_range
   | Some fs \<Rightarrow> (case fs_wcb fs of
       None \<Rightarrow> Inr (ps, x)
     | Some cb \<Rightarrow>
         if fs_woneshot fs
         then run cb (ps\<lparr>pstate := (pstate ps)(fd \<mapsto> fs\<lparr>fs_wcb := None\<rparr>),
                         pollfds := (pollfds ps)[i := (pollfds ps ! i)\<lparr>pfd_out := False\<rparr>]\<rparr>, x)
         else run cb (ps, x)))"

text \<open>
  The loop over the entries that the vector had when \<open>poll\<close> was called; \<open>r\<close> counts down the entries
  with events that are left.
\<close>

fun poll_loop :: "('cb, 'a) run_cb \<Rightarrow> nat \<Rightarrow> nat \<Rightarrow> revents list \<Rightarrow> ('cb, 'a) world \<Rightarrow> ps_error + ('cb, 'a) world" where
  "poll_loop run r i [] w = Inr w"
| "poll_loop run r i (re # rs) w =
     (if r = 0 then Inr w
      else if length (pollfds (fst w)) \<le> i then Inl Ps_range
      else let fd = pfd_fd (pollfds (fst w) ! i) in
      if pstate (fst w) fd = None then Inl Ps_range
      else if POLLNVAL re then Inl Ps_assert
      else bindR (if ready_in re then call_read run i fd w else Inr w) (\<lambda>w.
        if length (pollfds (fst w)) \<le> i then Inl Ps_range
        else bindR (if ready_out re then call_write run i fd w else Inr w)
          (poll_loop run (if any_event re then r - 1 else r) (Suc i) rs)))"

text \<open>
  \<open>run_timeouts\<close>: the iterator is a number, \<open>None\<close> at the end; it moves on, and the timeout is
  removed, after its callback has run. A callback may add timeouts that are due at once, so the
  loop need not end; the first argument bounds its iterations, and \<open>None\<close> is that it has not ended.
\<close>

fun timer_next :: "nat \<Rightarrow> (int \<times> nat \<times> 'cb) list \<Rightarrow> nat option" where
  "timer_next t [] = None"
| "timer_next t (x # xs) =
     (if fst (snd x) = t then (case xs of [] \<Rightarrow> None | y # _ \<Rightarrow> Some (fst (snd y))) else timer_next t xs)"

fun timeout_loop ::
    "nat \<Rightarrow> ('cb, 'a) run_cb \<Rightarrow> int \<Rightarrow> nat option \<Rightarrow> ('cb, 'a) world \<Rightarrow> (ps_error + ('cb, 'a) world) option" where
  "timeout_loop 0 run now it w = None"
| "timeout_loop (Suc n) run now None w = Some (Inr w)"
| "timeout_loop (Suc n) run now (Some tm) w = (case timer_of tm (fst w) of
     None \<Rightarrow> Some (Inl Ps_range)
   | Some (t, _, cb) \<Rightarrow>
       if now < t then Some (Inr w)
       else (case run cb w of
         Inl e \<Rightarrow> Some (Inl e)
       | Inr (ps, x) \<Rightarrow>
           if timer_of tm ps = None then Some (Inl Ps_range)
           else timeout_loop n run now (timer_next tm (time_cbs ps)) (timer_erase tm ps, x)))"

definition run_timeouts :: "nat \<Rightarrow> ('cb, 'a) run_cb \<Rightarrow> int \<Rightarrow> ('cb, 'a) world \<Rightarrow> (ps_error + ('cb, 'a) world) option" where
  "run_timeouts n run now w = (case time_cbs (fst w) of
     [] \<Rightarrow> Some (Inr w)
   | x # _ \<Rightarrow> timeout_loop n run now (Some (fst (snd x))) w)"

section \<open>Removing idle entries\<close>

text \<open>\<open>state_.erase\<close>: the destructor of \<open>fd_state\<close> asserts that there are no callbacks.\<close>

definition erase_state :: "nat \<Rightarrow> 'cb pollset \<Rightarrow> ps_error + 'cb pollset" where
  "erase_state fd ps = (case pstate ps fd of
     None \<Rightarrow> Inr ps
   | Some fs \<Rightarrow> bindR (assertR Ps_assert (fs_rcb fs = None \<and> fs_wcb fs = None)) (\<lambda>_.
       Inr (ps\<lparr>pstate := (pstate ps)(fd := None)\<rparr>)))"

function drop_idle :: "'cb pollset \<Rightarrow> ps_error + 'cb pollset" where
  "drop_idle ps =
     (if pollfds ps = [] \<or> events (last (pollfds ps)) then Inr ps
      else bindR (erase_state (pfd_fd (last (pollfds ps))) ps) (\<lambda>ps'.
        drop_idle (ps'\<lparr>pollfds := butlast (pollfds ps)\<rparr>)))"
  by pat_completeness auto
termination
  by (relation "measure (\<lambda>ps. length (pollfds ps))") auto

declare drop_idle.simps [simp del]

text \<open>The second loop: an idle entry is replaced by the last one.\<close>

definition fill_gap :: "nat \<Rightarrow> 'cb pollset \<Rightarrow> ps_error + 'cb pollset" where
  "fill_gap i ps =
     (if length (pollfds ps) \<le> i then Inl Ps_range
      else if events (pollfds ps ! i) then Inr ps
      else bindR (erase_state (pfd_fd (pollfds ps ! i)) ps) (\<lambda>ps.
        let p = last (pollfds ps) in
        case pstate ps (pfd_fd p) of
          None \<Rightarrow> Inl Ps_range
        | Some fs \<Rightarrow> Inr (ps\<lparr>pollfds := butlast ((pollfds ps)[i := p]),
            pstate := (pstate ps)(pfd_fd p \<mapsto> fs\<lparr>fs_idx := Some i\<rparr>)\<rparr>)))"

fun fill_gaps :: "nat \<Rightarrow> 'cb pollset \<Rightarrow> ps_error + 'cb pollset" where
  "fill_gaps 0 ps = Inr ps"
| "fill_gaps (Suc i) ps = bindR (fill_gap i ps) (fill_gaps i)"

definition consolidate :: "'cb pollset \<Rightarrow> ps_error + 'cb pollset" where
  "consolidate ps = bindR (drop_idle ps) (\<lambda>ps.
     if length (pollfds ps) < 2 then Inr ps else fill_gaps (length (pollfds ps) - 1) ps)"

text \<open>
  What the system call \<open>poll\<close> answers: the number of entries with events and their \<open>revents\<close>, that
  a signal has interrupted it, or another error.
\<close>

datatype poll_answer = Poll_events nat "revents list" | Poll_EINTR | Poll_error

text \<open>One call of \<open>pollset::poll\<close>; \<open>fuel\<close> bounds the loop over the timeouts.\<close>

definition poll_round ::
    "nat \<Rightarrow> ('cb, 'a) run_cb \<Rightarrow> int \<Rightarrow> poll_answer \<Rightarrow> ('cb, 'a) world \<Rightarrow> (ps_error + ('cb, 'a) world) option" where
  "poll_round fuel run now ans w = (case ans of
     Poll_EINTR \<Rightarrow> Some (Inr w)
   | Poll_error \<Rightarrow> Some (Inl Ps_terminate)
   | Poll_events r rs \<Rightarrow>
       (case poll_loop run r 0 rs w of
          Inl e \<Rightarrow> Some (Inl e)
        | Inr w \<Rightarrow> (case run_timeouts fuel run now w of
            None \<Rightarrow> None
          | Some (Inl e) \<Rightarrow> Some (Inl e)
          | Some (Inr (ps, x)) \<Rightarrow> Some (bindR (consolidate ps) (\<lambda>ps. Inr (ps, x))))))"

end
