(* ===== verification/Pollset_Properties.thy ===== *)
theory Pollset_Properties
  imports Pollset "HOL-Library.Sublist"
begin

text \<open>
  The poll set as its clients see it: the invariant that relates the vector for \<open>poll\<close> and the map
  of callbacks, the two maps it implements (\<open>reads\<close>, \<open>writes\<close>), registration and consolidation on
  these maps, the timeouts, and, in the locale \<open>poll_client\<close>, one round of \<open>poll\<close> for any client
  whose own state says which callbacks it has registered.
\<close>

section \<open>The invariant\<close>

definition slot_ok :: "'cb pollset \<Rightarrow> nat \<Rightarrow> bool" where
  "slot_ok ps i \<longleftrightarrow> (\<exists>fs. pstate ps (pfd_fd (pollfds ps ! i)) = Some fs \<and> fs_idx fs = Some i
     \<and> pfd_in (pollfds ps ! i) = (fs_rcb fs \<noteq> None) \<and> pfd_out (pollfds ps ! i) = (fs_wcb fs \<noteq> None))"

definition ps_ok :: "'cb pollset \<Rightarrow> bool" where
  "ps_ok ps \<longleftrightarrow> (\<forall>i < length (pollfds ps). slot_ok ps i) \<and> dom (pstate ps) \<subseteq> pfd_fd ` set (pollfds ps)"

text \<open>The callbacks of a descriptor, with whether they run once.\<close>

definition reads :: "'cb pollset \<Rightarrow> nat \<rightharpoonup> 'cb \<times> bool" where
  "reads ps fd = (case pstate ps fd of None \<Rightarrow> None | Some fs \<Rightarrow> map_option (\<lambda>cb. (cb, fs_roneshot fs)) (fs_rcb fs))"

definition writes :: "'cb pollset \<Rightarrow> nat \<rightharpoonup> 'cb \<times> bool" where
  "writes ps fd = (case pstate ps fd of None \<Rightarrow> None | Some fs \<Rightarrow> map_option (\<lambda>cb. (cb, fs_woneshot fs)) (fs_wcb fs))"

text \<open>Entries are only added at the end; no entry changes its descriptor.\<close>

definition grows :: "'cb pollset \<Rightarrow> 'cb pollset \<Rightarrow> bool" where
  "grows ps ps' \<longleftrightarrow> prefix (map pfd_fd (pollfds ps)) (map pfd_fd (pollfds ps'))"

lemma grows_refl [simp]: "grows ps ps"
  by (simp add: grows_def)

lemma grows_trans: "grows ps ps' \<Longrightarrow> grows ps' ps'' \<Longrightarrow> grows ps ps''"
  unfolding grows_def by (rule prefix_order.trans)

lemma growsD:
  assumes "grows ps ps'" "i < length (pollfds ps)"
  shows "i < length (pollfds ps')" "pfd_fd (pollfds ps' ! i) = pfd_fd (pollfds ps ! i)"
proof -
  from assms(1) obtain zs where zs: "map pfd_fd (pollfds ps') = map pfd_fd (pollfds ps) @ zs" by (auto simp: grows_def prefix_def)
  then have "length (pollfds ps') = length (pollfds ps) + length zs" by (metis length_append length_map)
  then show i: "i < length (pollfds ps')" using assms(2) by simp
  show "pfd_fd (pollfds ps' ! i) = pfd_fd (pollfds ps ! i)"
    using arg_cong [OF zs, of "\<lambda>xs. xs ! i"] i assms(2) by (simp add: nth_append)
qed

lemma map_fd_update: "i < length xs \<Longrightarrow> pfd_fd p = pfd_fd (xs ! i) \<Longrightarrow> map pfd_fd (xs[i := p]) = map pfd_fd xs"
  by (simp add: map_update list_update_same_conv)

lemma ps_ok_slotD: "ps_ok ps \<Longrightarrow> i < length (pollfds ps) \<Longrightarrow> slot_ok ps i"
  by (simp add: ps_ok_def)

lemma slot_okE:
  assumes "slot_ok ps i"
  obtains fs where "pstate ps (pfd_fd (pollfds ps ! i)) = Some fs" "fs_idx fs = Some i"
    "pfd_in (pollfds ps ! i) = (fs_rcb fs \<noteq> None)" "pfd_out (pollfds ps ! i) = (fs_wcb fs \<noteq> None)"
  using assms unfolding slot_ok_def by blast

lemma ps_okE:
  assumes "ps_ok ps" "pstate ps fd = Some fs"
  obtains i where "i < length (pollfds ps)" "fs_idx fs = Some i" "pfd_fd (pollfds ps ! i) = fd"
    "pfd_in (pollfds ps ! i) = (fs_rcb fs \<noteq> None)" "pfd_out (pollfds ps ! i) = (fs_wcb fs \<noteq> None)"
proof -
  have "fd \<in> pfd_fd ` set (pollfds ps)" using assms unfolding ps_ok_def by blast
  then obtain i where i: "i < length (pollfds ps)" "pfd_fd (pollfds ps ! i) = fd"
    by (auto simp: in_set_conv_nth)
  from slot_okE [OF ps_ok_slotD [OF assms(1) i(1)]] show ?thesis using i assms(2) that by fastforce
qed

lemma ps_ok_fd_inj:
  assumes "ps_ok ps" "i < length (pollfds ps)" "j < length (pollfds ps)" "pfd_fd (pollfds ps ! i) = pfd_fd (pollfds ps ! j)"
  shows "i = j"
proof -
  from slot_okE [OF ps_ok_slotD [OF assms(1,2)]] obtain fs where "pstate ps (pfd_fd (pollfds ps ! i)) = Some fs" "fs_idx fs = Some i" .
  moreover from slot_okE [OF ps_ok_slotD [OF assms(1,3)]] obtain fs' where "pstate ps (pfd_fd (pollfds ps ! j)) = Some fs'" "fs_idx fs' = Some j" .
  ultimately show ?thesis using assms(4) by simp
qed

lemma ps_ok_distinct: "ps_ok ps \<Longrightarrow> distinct (map pfd_fd (pollfds ps))"
  by (auto simp: distinct_conv_nth dest: ps_ok_fd_inj)

lemma slot_ok_cong:
  assumes "pollfds ps' ! i = pollfds ps ! i" "pstate ps' (pfd_fd (pollfds ps ! i)) = pstate ps (pfd_fd (pollfds ps ! i))"
  shows "slot_ok ps' i = slot_ok ps i"
  using assms by (simp add: slot_ok_def)

lemma ps_ok_cong: "pollfds ps' = pollfds ps \<Longrightarrow> pstate ps' = pstate ps \<Longrightarrow> ps_ok ps' = ps_ok ps"
  by (simp add: ps_ok_def slot_ok_def)

text \<open>Changing one entry and the state of its descriptor together.\<close>

lemma ps_ok_update:
  assumes "ps_ok ps" "i < length (pollfds ps)" "pfd_fd (pollfds ps ! i) = fd" "pfd_fd p = fd" "fs_idx fs = Some i"
    and "pfd_in p = (fs_rcb fs \<noteq> None)" "pfd_out p = (fs_wcb fs \<noteq> None)"
    and "pollfds ps' = (pollfds ps)[i := p]" "pstate ps' = (pstate ps)(fd \<mapsto> fs)"
  shows "ps_ok ps'"
proof -
  have "slot_ok ps' j" if j: "j < length (pollfds ps)" for j
  proof (cases "j = i")
    case True
    then show ?thesis using assms by (simp add: slot_ok_def)
  next
    case False
    then have "pfd_fd (pollfds ps ! j) \<noteq> fd" using ps_ok_fd_inj [OF assms(1,2) j] assms(3) by auto
    then show ?thesis using slot_ok_cong [of ps' j ps] ps_ok_slotD [OF assms(1) j] False assms(8,9) by simp
  qed
  moreover have "map pfd_fd (pollfds ps') = map pfd_fd (pollfds ps)"
    using assms(2-4,8) by (simp add: map_fd_update)
  then have "pfd_fd ` set (pollfds ps') = pfd_fd ` set (pollfds ps)" by (metis set_map)
  moreover have "fd \<in> pfd_fd ` set (pollfds ps)" using assms(2,3) by auto
  ultimately show ?thesis using assms(1,8,9) unfolding ps_ok_def by auto
qed

lemma ps_ok_append:
  assumes "ps_ok ps" "pstate ps (pfd_fd p) = None" "fs_idx fs = Some (length (pollfds ps))"
    and "pfd_in p = (fs_rcb fs \<noteq> None)" "pfd_out p = (fs_wcb fs \<noteq> None)"
    and "pollfds ps' = pollfds ps @ [p]" "pstate ps' = (pstate ps)(pfd_fd p \<mapsto> fs)"
  shows "ps_ok ps'"
proof -
  have "slot_ok ps' j" if j: "j < length (pollfds ps')" for j
  proof (cases "j = length (pollfds ps)")
    case True
    then show ?thesis using assms by (simp add: slot_ok_def)
  next
    case False
    then have j: "j < length (pollfds ps)" using j assms(6) by simp
    from slot_okE [OF ps_ok_slotD [OF assms(1) j]] have "pfd_fd (pollfds ps ! j) \<noteq> pfd_fd p" using assms(2) by fastforce
    then show ?thesis using slot_ok_cong [of ps' j ps] ps_ok_slotD [OF assms(1) j] j assms(6,7) by (simp add: nth_append)
  qed
  then show ?thesis using assms(1,6,7) unfolding ps_ok_def by auto
qed

lemma fd_slot_ok:
  assumes "ps_ok ps"
  obtains i fs pfds where "fd_slot fd ps = Inr (i, fs, pfds)" "i < length pfds" "pfd_fd (pfds ! i) = fd" "fs_idx fs = Some i"
    "pfd_in (pfds ! i) = (fs_rcb fs \<noteq> None)" "pfd_out (pfds ! i) = (fs_wcb fs \<noteq> None)"
    "\<forall>ps'. pollfds ps' = pfds \<and> pstate ps' = (pstate ps)(fd \<mapsto> fs) \<longrightarrow> ps_ok ps'"
    "prefix (map pfd_fd (pollfds ps)) (map pfd_fd pfds)"
    "map_option (\<lambda>cb. (cb, fs_roneshot fs)) (fs_rcb fs) = reads ps fd" "map_option (\<lambda>cb. (cb, fs_woneshot fs)) (fs_wcb fs) = writes ps fd"
proof (cases "pstate ps fd")
  case None
  let ?p = "\<lparr>pfd_fd = fd, pfd_in = False, pfd_out = False\<rparr>"
    and ?fs = "fresh_fd_state\<lparr>fs_idx := Some (length (pollfds ps))\<rparr>"
  have "ps_ok ps'" if "pollfds ps' = pollfds ps @ [?p]" "pstate ps' = (pstate ps)(fd \<mapsto> ?fs)" for ps'
    using ps_ok_append [OF assms, of ?p ?fs ps'] None that by (simp add: fresh_fd_state_def)
  with None show ?thesis
    by (intro that [of "length (pollfds ps)" ?fs "pollfds ps @ [?p]"])
      (simp_all add: fd_slot_def fresh_fd_state_def reads_def writes_def)
next
  case (Some fs)
  then obtain i where i: "i < length (pollfds ps)" "fs_idx fs = Some i" "pfd_fd (pollfds ps ! i) = fd"
    "pfd_in (pollfds ps ! i) = (fs_rcb fs \<noteq> None)" "pfd_out (pollfds ps ! i) = (fs_wcb fs \<noteq> None)"
    by (rule ps_okE [OF assms])
  moreover have "(pstate ps)(fd \<mapsto> fs) = pstate ps" using Some by (simp add: fun_upd_idem)
  moreover have "ps_ok ps'" if "pollfds ps' = pollfds ps" "pstate ps' = pstate ps" for ps'
    using ps_ok_cong [OF that] assms by simp
  ultimately show ?thesis using Some
    by (intro that [of i fs "pollfds ps"]) (simp_all add: fd_slot_def reads_def writes_def)
qed

lemma fd_cb_remove_ok:
  assumes "ps_ok ps"
  obtains ps' where "fd_cb_remove fd op ps = Inr ps'" "ps_ok ps'" "grows ps ps'"
    "reads ps' = (if has_read op then (reads ps)(fd := None) else reads ps)"
    "writes ps' = (if has_write op then (writes ps)(fd := None) else writes ps)"
    "time_cbs ps' = time_cbs ps" "next_timer ps' = next_timer ps"
proof (cases "pstate ps fd")
  case None
  then show ?thesis using assms by (intro that [of ps]) (auto simp: fd_cb_remove_def reads_def writes_def)
next
  case (Some fs)
  then obtain i where i: "i < length (pollfds ps)" "fs_idx fs = Some i" "pfd_fd (pollfds ps ! i) = fd"
    "pfd_in (pollfds ps ! i) = (fs_rcb fs \<noteq> None)" "pfd_out (pollfds ps ! i) = (fs_wcb fs \<noteq> None)"
    by (rule ps_okE [OF assms])
  define p where "p = (pollfds ps ! i)\<lparr>pfd_in := pfd_in (pollfds ps ! i) \<and> \<not> has_read op, pfd_out := pfd_out (pollfds ps ! i) \<and> \<not> has_write op\<rparr>"
  define fs' where "fs' = fs\<lparr>fs_rcb := (if has_read op then None else fs_rcb fs), fs_wcb := (if has_write op then None else fs_wcb fs)\<rparr>"
  define ps' where "ps' = ps\<lparr>pollfds := (pollfds ps)[i := p], pstate := (pstate ps)(fd \<mapsto> fs')\<rparr>"
  have "ps_ok ps'"
    by (rule ps_ok_update [OF assms i(1,3), of p fs']) (use i in \<open>auto simp: p_def fs'_def ps'_def\<close>)
  moreover have "fd_cb_remove fd op ps = Inr ps'"
    using Some i(1,2) by (simp add: fd_cb_remove_def Let_def p_def fs'_def ps'_def)
  moreover have "reads ps' = (if has_read op then (reads ps)(fd := None) else reads ps)"
    "writes ps' = (if has_write op then (writes ps)(fd := None) else writes ps)"
    using Some by (auto simp: reads_def writes_def ps'_def fs'_def)
  moreover have "grows ps ps'" using i(1) by (simp add: grows_def ps'_def p_def map_fd_update)
  ultimately show ?thesis by (intro that [of ps']) (simp_all add: ps'_def)
qed

lemma fd_cb_ok:
  assumes "ps_ok ps" "op \<noteq> ReadWrite"
  obtains ps' where "fd_cb fd op cb ps = Inr ps'" "ps_ok ps'" "grows ps ps'"
    "reads ps' = (if has_read op then (reads ps)(fd := map_option (\<lambda>cb. (cb, has_once op)) cb) else reads ps)"
    "writes ps' = (if has_write op then (writes ps)(fd := map_option (\<lambda>cb. (cb, has_once op)) cb) else writes ps)"
    "time_cbs ps' = time_cbs ps" "next_timer ps' = next_timer ps"
proof -
  obtain i fs pfds where s: "fd_slot fd ps = Inr (i, fs, pfds)" "i < length pfds" "pfd_fd (pfds ! i) = fd" "fs_idx fs = Some i"
    "pfd_in (pfds ! i) = (fs_rcb fs \<noteq> None)" "pfd_out (pfds ! i) = (fs_wcb fs \<noteq> None)"
    "\<forall>ps'. pollfds ps' = pfds \<and> pstate ps' = (pstate ps)(fd \<mapsto> fs) \<longrightarrow> ps_ok ps'"
    "prefix (map pfd_fd (pollfds ps)) (map pfd_fd pfds)"
    "map_option (\<lambda>cb. (cb, fs_roneshot fs)) (fs_rcb fs) = reads ps fd" "map_option (\<lambda>cb. (cb, fs_woneshot fs)) (fs_wcb fs) = writes ps fd"
    by (rule fd_slot_ok [OF assms(1)])
  define q where "q = ps\<lparr>pollfds := pfds, pstate := (pstate ps)(fd \<mapsto> fs)\<rparr>"
  have q: "ps_ok q" using s(7) by (simp add: q_def)
  show ?thesis
  proof (cases "has_read op")
    case True
    with assms(2) have op: "\<not> has_write op" by (auto simp: has_read_def has_write_def)
    define p where "p = (pfds ! i)\<lparr>pfd_in := (cb \<noteq> None)\<rparr>"
    define fs' where "fs' = fs\<lparr>fs_roneshot := has_once op, fs_rcb := cb\<rparr>"
    define ps' where "ps' = ps\<lparr>pollfds := pfds[i := p], pstate := (pstate ps)(fd \<mapsto> fs')\<rparr>"
    note defs = p_def fs'_def ps'_def
    have "ps_ok ps'"
      by (rule ps_ok_update [OF q, of i fd p fs']) (use s in \<open>simp_all add: q_def defs\<close>)
    moreover have "reads ps' = (reads ps)(fd := map_option (\<lambda>cb. (cb, has_once op)) cb)" "writes ps' = writes ps"
      using s(10) by (auto simp: reads_def writes_def defs fun_eq_iff)
    moreover have "fd_cb fd op cb ps = Inr ps'" using True op s
      by (cases cb) (simp_all add: fd_cb_def fd_cb_assign_def fd_cb_remove_def defs)
    moreover have "grows ps ps'" using s(2,8) by (simp add: grows_def defs map_fd_update)
    ultimately show ?thesis using True op by (intro that [of ps']) (simp_all add: ps'_def)
  next
    case False
    then have op: "has_write op" by (cases op) (auto simp: has_read_def has_write_def)
    define p where "p = (pfds ! i)\<lparr>pfd_out := (cb \<noteq> None)\<rparr>"
    define fs' where "fs' = fs\<lparr>fs_woneshot := has_once op, fs_wcb := cb\<rparr>"
    define ps' where "ps' = ps\<lparr>pollfds := pfds[i := p], pstate := (pstate ps)(fd \<mapsto> fs')\<rparr>"
    note defs = p_def fs'_def ps'_def
    have "ps_ok ps'"
      by (rule ps_ok_update [OF q, of i fd p fs']) (use s in \<open>simp_all add: q_def defs\<close>)
    moreover have "writes ps' = (writes ps)(fd := map_option (\<lambda>cb. (cb, has_once op)) cb)" "reads ps' = reads ps"
      using s(9) by (auto simp: reads_def writes_def defs fun_eq_iff)
    moreover have "fd_cb fd op cb ps = Inr ps'" using False op s
      by (cases cb) (simp_all add: fd_cb_def fd_cb_assign_def fd_cb_remove_def defs)
    moreover have "grows ps ps'" using s(2,8) by (simp add: grows_def defs map_fd_update)
    ultimately show ?thesis using False op by (intro that [of ps']) (simp_all add: ps'_def)
  qed
qed

section \<open>Consolidation\<close>

lemma idle_state:
  assumes "ps_ok ps" "i < length (pollfds ps)" "\<not> events (pollfds ps ! i)"
  obtains fs where "pstate ps (pfd_fd (pollfds ps ! i)) = Some fs" "fs_rcb fs = None" "fs_wcb fs = None"
  using slot_okE [OF ps_ok_slotD [OF assms(1,2)]] assms(3) by (metis events_def)

text \<open>What removing an entry leaves unchanged.\<close>

definition same_cbs :: "'cb pollset \<Rightarrow> 'cb pollset \<Rightarrow> bool" where
  "same_cbs ps ps' \<longleftrightarrow> reads ps' = reads ps \<and> writes ps' = writes ps \<and> time_cbs ps' = time_cbs ps \<and> next_timer ps' = next_timer ps"

lemma same_cbs_refl [simp]: "same_cbs ps ps"
  by (simp add: same_cbs_def)

lemma same_cbs_trans: "same_cbs ps ps' \<Longrightarrow> same_cbs ps' ps'' \<Longrightarrow> same_cbs ps ps''"
  by (simp add: same_cbs_def)

lemma pop_idle_ok:
  assumes "ps_ok ps" "pollfds ps \<noteq> []" "\<not> events (last (pollfds ps))"
  obtains ps' where "erase_state (pfd_fd (last (pollfds ps))) ps = Inr ps'"
    "ps_ok (ps'\<lparr>pollfds := butlast (pollfds ps)\<rparr>)" "same_cbs ps (ps'\<lparr>pollfds := butlast (pollfds ps)\<rparr>)"
proof -
  let ?n = "length (pollfds ps) - 1"
  have n: "?n < length (pollfds ps)" "last (pollfds ps) = pollfds ps ! ?n" using assms(2) by (simp_all add: last_conv_nth)
  obtain fs where fs: "pstate ps (pfd_fd (last (pollfds ps))) = Some fs" "fs_rcb fs = None" "fs_wcb fs = None"
    using idle_state [OF assms(1) n(1)] assms(3) n(2) by auto
  define q where "q = ps\<lparr>pstate := (pstate ps)(pfd_fd (last (pollfds ps)) := None), pollfds := butlast (pollfds ps)\<rparr>"
  have "slot_ok q j" if j: "j < ?n" for j
  proof -
    have "pfd_fd (pollfds ps ! j) \<noteq> pfd_fd (last (pollfds ps))" using ps_ok_fd_inj [OF assms(1), of j ?n] j n by auto
    then show ?thesis using slot_ok_cong [of q j ps] ps_ok_slotD [OF assms(1), of j] j by (simp add: q_def nth_butlast)
  qed
  moreover have "dom (pstate q) \<subseteq> pfd_fd ` set (pollfds q)"
  proof -
    have "set (pollfds ps) = insert (last (pollfds ps)) (set (butlast (pollfds ps)))"
      using assms(2) by (metis append_butlast_last_id list.simps(15) rotate1.simps(2) set_rotate1)
    then show ?thesis using assms(1) unfolding ps_ok_def q_def by auto
  qed
  ultimately have "ps_ok q" by (simp add: ps_ok_def q_def)
  moreover have "same_cbs ps q" using fs by (auto simp: same_cbs_def q_def reads_def writes_def fun_eq_iff)
  ultimately show ?thesis using fs by (intro that [of "ps\<lparr>pstate := (pstate ps)(pfd_fd (last (pollfds ps)) := None)\<rparr>"])
    (simp_all add: erase_state_def q_def)
qed

lemma drop_idle_ok:
  "ps_ok ps \<Longrightarrow> \<exists>ps'. drop_idle ps = Inr ps' \<and> ps_ok ps' \<and> same_cbs ps ps' \<and> (pollfds ps' = [] \<or> events (last (pollfds ps')))"
proof (induction ps rule: drop_idle.induct)
  case (1 ps)
  show ?case
  proof (cases "pollfds ps = [] \<or> events (last (pollfds ps))")
    case True
    then show ?thesis using 1(2) by (simp add: drop_idle.simps [of ps])
  next
    case False
    then obtain ps' where ps': "erase_state (pfd_fd (last (pollfds ps))) ps = Inr ps'"
      "ps_ok (ps'\<lparr>pollfds := butlast (pollfds ps)\<rparr>)" "same_cbs ps (ps'\<lparr>pollfds := butlast (pollfds ps)\<rparr>)"
      using pop_idle_ok [OF 1(2)] by blast
    then show ?thesis using 1(1) [OF False _ ps'(2)] False same_cbs_trans [OF ps'(3)]
      by (subst drop_idle.simps) auto
  qed
qed

definition active_from :: "nat \<Rightarrow> 'cb pollset \<Rightarrow> bool" where
  "active_from i ps \<longleftrightarrow> (\<forall>j. i \<le> j \<and> j < length (pollfds ps) \<longrightarrow> events (pollfds ps ! j))"

lemma move_last_ok:
  assumes ok: "ps_ok ps" and i: "Suc i < length (pollfds ps)" and idle: "\<not> events (pollfds ps ! i)"
  obtains ps' where "fill_gap i ps = Inr ps'" "ps_ok ps'" "same_cbs ps ps'" "pollfds ps' = butlast ((pollfds ps)[i := last (pollfds ps)])"
proof -
  let ?n = "length (pollfds ps) - 1" and ?p = "last (pollfds ps)" and ?f = "pfd_fd (pollfds ps ! i)"
  have "pollfds ps \<noteq> []" using i by auto
  then have n: "?n < length (pollfds ps)" "?p = pollfds ps ! ?n" "i < ?n" using i by (auto simp: last_conv_nth)
  obtain fs0 where fs0: "pstate ps ?f = Some fs0" "fs_rcb fs0 = None" "fs_wcb fs0 = None"
    using idle_state [OF ok _ idle] i by auto
  obtain fs where fs: "pstate ps (pfd_fd ?p) = Some fs" "pfd_in ?p = (fs_rcb fs \<noteq> None)" "pfd_out ?p = (fs_wcb fs \<noteq> None)"
    by (rule slot_okE [OF ps_ok_slotD [OF ok n(1)], folded n(2)])
  have ne: "j = k" if "pfd_fd (pollfds ps ! j) = pfd_fd (pollfds ps ! k)" "j < length (pollfds ps)" "k < length (pollfds ps)" for j k
    using ps_ok_fd_inj [OF ok that(2,3,1)] .
  have fp: "pfd_fd ?p \<noteq> ?f" using ne [of i ?n] n by auto
  define q where "q = ps\<lparr>pollfds := butlast ((pollfds ps)[i := ?p]), pstate := (pstate ps)(?f := None, pfd_fd ?p \<mapsto> fs\<lparr>fs_idx := Some i\<rparr>)\<rparr>"
  have nth: "pollfds q ! j = (if j = i then ?p else pollfds ps ! j)" if "j < ?n" for j
    using that i by (simp add: q_def nth_butlast nth_list_update)
  have "slot_ok q j" if j: "j < ?n" for j
  proof (cases "j = i")
    case True
    then show ?thesis using fs fp nth [OF j] by (simp add: slot_ok_def q_def)
  next
    case False
    then have "pfd_fd (pollfds ps ! j) \<noteq> ?f" "pfd_fd (pollfds ps ! j) \<noteq> pfd_fd ?p" using ne [of j i] ne [of j ?n] j n by auto
    then show ?thesis using slot_ok_cong [of q j ps] ps_ok_slotD [OF ok, of j] j nth [OF j] False by (simp add: q_def)
  qed
  moreover have "dom (pstate q) \<subseteq> pfd_fd ` set (pollfds q)"
  proof
    fix f assume "f \<in> dom (pstate q)"
    then consider "f = pfd_fd ?p" | "f \<noteq> ?f" "f \<noteq> pfd_fd ?p" "f \<in> dom (pstate ps)" by (auto simp: q_def split: if_splits)
    then obtain j where "j < ?n" "pfd_fd (pollfds q ! j) = f"
    proof cases
      case 1
      then show ?thesis using that [of i] n nth [of i] by simp
    next
      case 2
      then obtain j where j: "j < length (pollfds ps)" "pfd_fd (pollfds ps ! j) = f" using ps_okE [OF ok] by blast
      with 2 n(2) have "j < ?n" "j \<noteq> i" by (auto intro: le_neq_trans simp: less_Suc_eq_le)
      then show ?thesis using that [of j] j nth [of j] by simp
    qed
    moreover have "length (pollfds q) = ?n" by (simp add: q_def)
    ultimately show "f \<in> pfd_fd ` set (pollfds q)" by (metis image_eqI nth_mem)
  qed
  ultimately have "ps_ok q" by (simp add: ps_ok_def q_def)
  moreover have "same_cbs ps q"
    using fs fs0 fp by (auto simp: same_cbs_def q_def reads_def writes_def fun_eq_iff)
  moreover have "fill_gap i ps = Inr q"
    using i idle fs0 fs(1) fp by (simp add: fill_gap_def erase_state_def Let_def q_def)
  ultimately show ?thesis by (intro that [of q]) (simp_all add: q_def)
qed

lemma fill_gap_ok:
  assumes ok: "ps_ok ps" and i: "Suc i < length (pollfds ps)" and act: "active_from (Suc i) ps"
  obtains ps' where "fill_gap i ps = Inr ps'" "ps_ok ps'" "same_cbs ps ps'" "active_from i ps'" "i < length (pollfds ps')"
proof (cases "events (pollfds ps ! i)")
  case True
  then have "active_from i ps" using act by (metis active_from_def Suc_leI le_eq_less_or_eq)
  then show ?thesis using True ok i by (intro that [of ps]) (simp_all add: fill_gap_def)
next
  case False
  from move_last_ok [OF ok i False] obtain q where
    q: "fill_gap i ps = Inr q" "ps_ok q" "same_cbs ps q" "pollfds q = butlast ((pollfds ps)[i := last (pollfds ps)])" .
  have "events (pollfds q ! j)" if "i \<le> j" "j < length (pollfds q)" for j
  proof -
    have "pollfds ps \<noteq> []" using i by auto
    then have "events (last (pollfds ps))" using act i by (simp add: active_from_def last_conv_nth)
    then show ?thesis using that i act q(4) by (auto simp: nth_butlast nth_list_update active_from_def)
  qed
  then show ?thesis using q i by (intro that [of q]) (auto simp: active_from_def)
qed

lemma fill_gaps_ok:
  "ps_ok ps \<Longrightarrow> i < length (pollfds ps) \<Longrightarrow> active_from i ps \<Longrightarrow>
   \<exists>ps'. fill_gaps i ps = Inr ps' \<and> ps_ok ps' \<and> same_cbs ps ps' \<and> active_from 0 ps'"
proof (induction i arbitrary: ps)
  case 0
  then show ?case by simp
next
  case (Suc i)
  from fill_gap_ok [OF Suc.prems] obtain ps' where
    ps': "fill_gap i ps = Inr ps'" "ps_ok ps'" "same_cbs ps ps'" "active_from i ps'" "i < length (pollfds ps')" .
  then show ?case using Suc.IH [OF ps'(2,5,4)] same_cbs_trans [OF ps'(3)] by auto
qed

lemma consolidate_ok:
  assumes "ps_ok ps"
  obtains ps' where "consolidate ps = Inr ps'" "ps_ok ps'" "same_cbs ps ps'" "active_from 0 ps'"
proof -
  from drop_idle_ok [OF assms] obtain q where
    q: "drop_idle ps = Inr q" "ps_ok q" "same_cbs ps q" "pollfds q = [] \<or> events (last (pollfds q))" by blast
  have act: "active_from (length (pollfds q) - 1) q" using q(4)
  proof
    assume e: "events (last (pollfds q))"
    have "j = length (pollfds q) - 1" if "length (pollfds q) - 1 \<le> j" "j < length (pollfds q)" for j using that by simp
    then show ?thesis using e by (metis active_from_def last_conv_nth length_greater_0_conv less_nat_zero_code list.size(3))
  qed (simp add: active_from_def)
  show ?thesis
  proof (cases "length (pollfds q) < 2")
    case True
    then have "active_from 0 q" using act by (auto simp: active_from_def)
    then show ?thesis using True q by (intro that [of q]) (simp_all add: consolidate_def)
  next
    case False
    then have "length (pollfds q) - 1 < length (pollfds q)" by simp
    from fill_gaps_ok [OF q(2) this act] obtain ps' where
      "fill_gaps (length (pollfds q) - 1) q = Inr ps'" "ps_ok ps'" "same_cbs q ps'" "active_from 0 ps'" by blast
    then show ?thesis using False q(1) same_cbs_trans [OF q(3)] by (intro that [of ps']) (simp_all add: consolidate_def)
  qed
qed

section \<open>Clients of the poll set\<close>

definition tracks :: "('a \<Rightarrow> nat \<rightharpoonup> 'cb \<times> bool) \<Rightarrow> ('a \<Rightarrow> nat \<rightharpoonup> 'cb \<times> bool) \<Rightarrow> ('a \<Rightarrow> bool) \<Rightarrow> 'cb pollset \<Rightarrow> 'a \<Rightarrow> bool" where
  "tracks rmap wmap good ps x \<longleftrightarrow> ps_ok ps \<and> reads ps = rmap x \<and> writes ps = wmap x \<and> good x"

definition runs_to :: "('a \<Rightarrow> nat \<rightharpoonup> 'cb \<times> bool) \<Rightarrow> ('a \<Rightarrow> nat \<rightharpoonup> 'cb \<times> bool) \<Rightarrow> ('a \<Rightarrow> bool) \<Rightarrow>
    'cb pollset \<Rightarrow> ps_error + ('cb, 'a) world \<Rightarrow> 'a \<Rightarrow> bool" where
  "runs_to rmap wmap good ps r x' \<longleftrightarrow>
     (\<exists>ps'. r = Inr (ps', x') \<and> tracks rmap wmap good ps' x' \<and> grows ps ps' \<and> time_cbs ps' = time_cbs ps)"

lemma runs_toI: "r = Inr (ps', x') \<Longrightarrow> tracks rmap wmap good ps' x' \<Longrightarrow> grows ps ps' \<Longrightarrow> time_cbs ps' = time_cbs ps \<Longrightarrow>
    runs_to rmap wmap good ps r x'"
  by (auto simp: runs_to_def)

lemma runs_toD: "runs_to rmap wmap good ps (Inr w) x \<Longrightarrow> tracks rmap wmap good (fst w) (snd w) \<and> time_cbs (fst w) = time_cbs ps"
  by (auto simp: runs_to_def)

lemma runs_to_before:
  "runs_to rmap wmap good ps1 r x \<Longrightarrow> grows ps ps1 \<Longrightarrow> time_cbs ps1 = time_cbs ps \<Longrightarrow> runs_to rmap wmap good ps r x"
  unfolding runs_to_def by (metis grows_trans)

text \<open>One entry with the events \<open>re\<close>, and all entries, as the client sees them.\<close>

definition entry_spec :: "('a \<Rightarrow> nat \<rightharpoonup> 'cb \<times> bool) \<Rightarrow> ('a \<Rightarrow> nat \<rightharpoonup> 'cb \<times> bool) \<Rightarrow> (nat \<Rightarrow> 'a \<Rightarrow> 'a) \<Rightarrow> (nat \<Rightarrow> 'a \<Rightarrow> 'a) \<Rightarrow>
    nat \<times> revents \<Rightarrow> 'a \<Rightarrow> 'a" where
  "entry_spec rmap wmap on_read on_write = (\<lambda>(fd, re) x.
     let x = (if ready_in re \<and> rmap x fd \<noteq> None then on_read fd x else x)
     in if ready_out re \<and> wmap x fd \<noteq> None then on_write fd x else x)"

locale poll_client =
  fixes run :: "('cb, 'a) run_cb"
    and rmap wmap :: "'a \<Rightarrow> nat \<rightharpoonup> 'cb \<times> bool"
    and good :: "'a \<Rightarrow> bool"
    and on_read on_write :: "nat \<Rightarrow> 'a \<Rightarrow> 'a"
  assumes run_read: "\<lbrakk>good x; rmap x fd = Some (cb, once); ps_ok ps; writes ps = wmap x;
      reads ps = (if once then (rmap x)(fd := None) else rmap x)\<rbrakk>
    \<Longrightarrow> runs_to rmap wmap good ps (run cb (ps, x)) (on_read fd x)"
    and run_write: "\<lbrakk>good x; wmap x fd = Some (cb, once); ps_ok ps; reads ps = rmap x;
      writes ps = (if once then (wmap x)(fd := None) else wmap x)\<rbrakk>
    \<Longrightarrow> runs_to rmap wmap good ps (run cb (ps, x)) (on_write fd x)"
begin

abbreviation to :: "'cb pollset \<Rightarrow> ps_error + ('cb, 'a) world \<Rightarrow> 'a \<Rightarrow> bool" where
  "to \<equiv> runs_to rmap wmap good"

abbreviation seen :: "'cb pollset \<Rightarrow> 'a \<Rightarrow> bool" where
  "seen \<equiv> tracks rmap wmap good"

abbreviation entry :: "nat \<times> revents \<Rightarrow> 'a \<Rightarrow> 'a" where
  "entry \<equiv> entry_spec rmap wmap on_read on_write"

lemma call_read_ok:
  assumes "seen ps x" "i < length (pollfds ps)" "fd = pfd_fd (pollfds ps ! i)"
  shows "to ps (call_read run i fd (ps, x)) (if rmap x fd \<noteq> None then on_read fd x else x)"
proof -
  from assms(1) have ok: "ps_ok ps" and r: "rmap x = reads ps" and w: "wmap x = writes ps" and g: "good x"
    by (simp_all add: tracks_def)
  from slot_okE [OF ps_ok_slotD [OF ok assms(2)]] obtain fs where
    fs: "pstate ps fd = Some fs" "fs_idx fs = Some i" "pfd_in (pollfds ps ! i) = (fs_rcb fs \<noteq> None)" "pfd_out (pollfds ps ! i) = (fs_wcb fs \<noteq> None)"
    unfolding assms(3) .
  show ?thesis
  proof (cases "fs_rcb fs")
    case None
    then have "rmap x fd = None" using fs(1) by (simp add: r reads_def)
    then show ?thesis using fs(1) None assms(1) by (intro runs_toI) (simp_all add: call_read_def)
  next
    case (Some cb)
    then have m: "rmap x fd = Some (cb, fs_roneshot fs)" using fs(1) by (simp add: r reads_def)
    define p where "p = (pollfds ps ! i)\<lparr>pfd_in := False\<rparr>"
    define fs' where "fs' = fs\<lparr>fs_rcb := None\<rparr>"
    define q where "q = ps\<lparr>pstate := (pstate ps)(fd \<mapsto> fs'), pollfds := (pollfds ps)[i := p]\<rparr>"
    note defs = p_def fs'_def q_def
    show ?thesis
    proof (cases "fs_roneshot fs")
      case False
      then have "to ps (run cb (ps, x)) (on_read fd x)" using run_read [OF g m ok] r w by simp
      then show ?thesis using fs(1) Some m False by (simp add: call_read_def)
    next
      case True
      have "ps_ok q"
        by (rule ps_ok_update [OF ok assms(2), of fd p fs']) (use fs assms(3) in \<open>simp_all add: defs\<close>)
      moreover have "reads q = (rmap x)(fd := None)" "writes q = wmap x"
        using fs(1) by (auto simp: r w reads_def writes_def defs fun_eq_iff)
      ultimately have "to q (run cb (q, x)) (on_read fd x)" using run_read [OF g m] True by simp
      moreover have "grows ps q" using assms(2) by (simp add: grows_def defs map_fd_update)
      ultimately have "to ps (run cb (q, x)) (on_read fd x)" by (rule runs_to_before) (simp add: q_def)
      then show ?thesis using fs(1) Some m True by (simp add: call_read_def defs)
    qed
  qed
qed

lemma call_write_ok:
  assumes "seen ps x" "i < length (pollfds ps)" "fd = pfd_fd (pollfds ps ! i)"
  shows "to ps (call_write run i fd (ps, x)) (if wmap x fd \<noteq> None then on_write fd x else x)"
proof -
  from assms(1) have ok: "ps_ok ps" and r: "rmap x = reads ps" and w: "wmap x = writes ps" and g: "good x"
    by (simp_all add: tracks_def)
  from slot_okE [OF ps_ok_slotD [OF ok assms(2)]] obtain fs where
    fs: "pstate ps fd = Some fs" "fs_idx fs = Some i" "pfd_in (pollfds ps ! i) = (fs_rcb fs \<noteq> None)" "pfd_out (pollfds ps ! i) = (fs_wcb fs \<noteq> None)"
    unfolding assms(3) .
  show ?thesis
  proof (cases "fs_wcb fs")
    case None
    then have "wmap x fd = None" using fs(1) by (simp add: w writes_def)
    then show ?thesis using fs(1) None assms(1) by (intro runs_toI) (simp_all add: call_write_def)
  next
    case (Some cb)
    then have m: "wmap x fd = Some (cb, fs_woneshot fs)" using fs(1) by (simp add: w writes_def)
    define p where "p = (pollfds ps ! i)\<lparr>pfd_out := False\<rparr>"
    define fs' where "fs' = fs\<lparr>fs_wcb := None\<rparr>"
    define q where "q = ps\<lparr>pstate := (pstate ps)(fd \<mapsto> fs'), pollfds := (pollfds ps)[i := p]\<rparr>"
    note defs = p_def fs'_def q_def
    show ?thesis
    proof (cases "fs_woneshot fs")
      case False
      then have "to ps (run cb (ps, x)) (on_write fd x)" using run_write [OF g m ok] r w by simp
      then show ?thesis using fs(1) Some m False by (simp add: call_write_def)
    next
      case True
      have "ps_ok q"
        by (rule ps_ok_update [OF ok assms(2), of fd p fs']) (use fs assms(3) in \<open>simp_all add: defs\<close>)
      moreover have "writes q = (wmap x)(fd := None)" "reads q = rmap x"
        using fs(1) by (auto simp: r w reads_def writes_def defs fun_eq_iff)
      ultimately have "to q (run cb (q, x)) (on_write fd x)" using run_write [OF g m] True by simp
      moreover have "grows ps q" using assms(2) by (simp add: grows_def defs map_fd_update)
      ultimately have "to ps (run cb (q, x)) (on_write fd x)" by (rule runs_to_before) (simp add: q_def)
      then show ?thesis using fs(1) Some m True by (simp add: call_write_def defs)
    qed
  qed
qed

lemma entry_idle: "\<not> any_event re \<Longrightarrow> entry (fd, re) x = x"
  by (simp add: entry_spec_def any_event_def ready_in_def ready_out_def)

lemma fold_entry_idle: "\<forall>re \<in> set rs. \<not> any_event re \<Longrightarrow> fold entry (zip fds rs) x = x"
proof (induction rs arbitrary: fds)
  case (Cons re rs)
  then show ?case by (cases fds) (simp_all add: entry_idle)
qed simp

lemma entry_ok:
  assumes "seen ps x" "i < length (pollfds ps)" "fd = pfd_fd (pollfds ps ! i)"
  obtains ps1 x1 ps2 where "(if ready_in re then call_read run i fd (ps, x) else Inr (ps, x)) = Inr (ps1, x1)"
    "(if ready_out re then call_write run i fd (ps1, x1) else Inr (ps1, x1)) = Inr (ps2, entry (fd, re) x)"
    "seen ps2 (entry (fd, re) x)" "grows ps ps1" "grows ps ps2" "time_cbs ps2 = time_cbs ps"
proof -
  define x1 where "x1 = (if ready_in re \<and> rmap x fd \<noteq> None then on_read fd x else x)"
  have "to ps (if ready_in re then call_read run i fd (ps, x) else Inr (ps, x)) x1"
    using call_read_ok [OF assms] assms(1) by (auto simp: x1_def runs_to_def)
  then obtain ps1 where 1: "(if ready_in re then call_read run i fd (ps, x) else Inr (ps, x)) = Inr (ps1, x1)"
    "seen ps1 x1" "grows ps ps1" "time_cbs ps1 = time_cbs ps" unfolding runs_to_def by blast
  have "to ps1 (if ready_out re then call_write run i fd (ps1, x1) else Inr (ps1, x1)) (entry (fd, re) x)"
    using call_write_ok [OF 1(2), of i fd] growsD [OF 1(3) assms(2)] assms(3) 1(2)
    by (auto simp: x1_def entry_spec_def runs_to_def)
  then obtain ps2 where 2: "(if ready_out re then call_write run i fd (ps1, x1) else Inr (ps1, x1)) = Inr (ps2, entry (fd, re) x)"
    "seen ps2 (entry (fd, re) x)" "grows ps1 ps2" "time_cbs ps2 = time_cbs ps1" unfolding runs_to_def by blast
  show ?thesis using 1 2 grows_trans [OF 1(3) 2(3)] by (intro that [of ps1 x1 ps2]) simp_all
qed

lemma poll_loop_ok:
  "\<lbrakk>seen ps x; i + length rs \<le> length (pollfds ps); \<forall>re \<in> set rs. \<not> POLLNVAL re; r = length (filter any_event rs)\<rbrakk> \<Longrightarrow>
   to ps (poll_loop run r i rs (ps, x)) (fold entry (zip (drop i (map pfd_fd (pollfds ps))) rs) x)"
proof (induction rs arbitrary: ps x i r)
  case Nil
  then show ?case by (auto simp: runs_to_def)
next
  case (Cons re rs)
  let ?fd = "pfd_fd (pollfds ps ! i)"
  have i: "i < length (pollfds ps)" using Cons.prems(2) by simp
  show ?case
  proof (cases "r = 0")
    case True
    then have "\<forall>re \<in> set (re # rs). \<not> any_event re" using Cons.prems(4) by (metis filter_empty_conv length_0_conv)
    then show ?thesis using True Cons.prems(1) by (simp only: fold_entry_idle) (auto simp: runs_to_def)
  next
    case False
    obtain ps1 x1 ps2 where e: "(if ready_in re then call_read run i ?fd (ps, x) else Inr (ps, x)) = Inr (ps1, x1)"
      "(if ready_out re then call_write run i ?fd (ps1, x1) else Inr (ps1, x1)) = Inr (ps2, entry (?fd, re) x)"
      "seen ps2 (entry (?fd, re) x)" "grows ps ps1" "grows ps ps2" "time_cbs ps2 = time_cbs ps"
      by (rule entry_ok [OF Cons.prems(1) i refl])
    let ?r = "if any_event re then r - 1 else r"
    obtain zs where zs: "map pfd_fd (pollfds ps2) = map pfd_fd (pollfds ps) @ zs" using e(5) by (auto simp: grows_def prefix_def)
    then have len: "length (pollfds ps2) = length (pollfds ps) + length zs" by (metis length_append length_map)
    have IH: "to ps2 (poll_loop run ?r (Suc i) rs (ps2, entry (?fd, re) x))
        (fold entry (zip (drop (Suc i) (map pfd_fd (pollfds ps2))) rs) (entry (?fd, re) x))"
      using Cons.prems len by (intro Cons.IH [OF e(3)]) auto
    moreover have "zip (drop (Suc i) (map pfd_fd (pollfds ps2))) rs = zip (drop (Suc i) (map pfd_fd (pollfds ps))) rs"
      using Cons.prems(2) unfolding zs by (simp add: zip_append1)
    moreover have "drop i (map pfd_fd (pollfds ps)) = ?fd # drop (Suc i) (map pfd_fd (pollfds ps))"
      using i by (simp add: Cons_nth_drop_Suc [symmetric])
    moreover obtain fs where "pstate ps ?fd = Some fs"
      using slot_okE [OF ps_ok_slotD] Cons.prems(1) i unfolding tracks_def by metis
    then have "poll_loop run r i (re # rs) (ps, x) = poll_loop run ?r (Suc i) rs (ps2, entry (?fd, re) x)"
      using False i e(1,2) growsD(1) [OF e(4) i] Cons.prems(3) by (simp add: Let_def)
    ultimately show ?thesis using runs_to_before [OF IH e(5,6)] by (simp del: poll_loop.simps drop_map)
  qed
qed

lemma poll_round_ok:
  assumes "seen ps x" "length rs = length (pollfds ps)" "\<forall>re \<in> set rs. \<not> POLLNVAL re" "r = length (filter any_event rs)"
    and "time_cbs ps = []"
  obtains ps' where "poll_round fuel run now (Poll_events r rs) (ps, x) = Some (Inr (ps', fold entry (zip (map pfd_fd (pollfds ps)) rs) x))"
    "seen ps' (fold entry (zip (map pfd_fd (pollfds ps)) rs) x)" "active_from 0 ps'" "time_cbs ps' = []"
proof -
  let ?x = "fold entry (zip (map pfd_fd (pollfds ps)) rs) x"
  from poll_loop_ok [OF assms(1), of 0 rs r] assms(2-4) obtain q where
    q: "poll_loop run r 0 rs (ps, x) = Inr (q, ?x)" "seen q ?x" "time_cbs q = []"
    using assms(5) by (auto simp: runs_to_def)
  then obtain ps' where "consolidate q = Inr ps'" "ps_ok ps'" "same_cbs q ps'" "active_from 0 ps'"
    using consolidate_ok by (metis tracks_def)
  then show ?thesis using q
    by (intro that [of ps']) (simp_all add: poll_round_def run_timeouts_def tracks_def same_cbs_def)
qed

end

section \<open>Timeouts\<close>

definition timers_ok :: "'cb pollset \<Rightarrow> bool" where
  "timers_ok ps \<longleftrightarrow> sorted (map fst (time_cbs ps)) \<and> distinct (map (fst \<circ> snd) (time_cbs ps))
     \<and> (\<forall>x \<in> set (time_cbs ps). fst (snd x) < next_timer ps)"

lemma set_timer_insert [simp]: "set (timer_insert x xs) = insert x (set xs)"
  by (induction xs) auto

lemma sorted_timer_insert: "sorted (map fst xs) \<Longrightarrow> sorted (map fst (timer_insert x xs))"
  by (induction xs) auto

lemma distinct_timer_insert:
  "distinct (map (fst \<circ> snd) (timer_insert x xs)) \<longleftrightarrow> fst (snd x) \<notin> (fst \<circ> snd) ` set xs \<and> distinct (map (fst \<circ> snd) xs)"
  by (induction xs) auto

lemma timeout_at_ok: "timers_ok ps \<Longrightarrow> timers_ok (snd (timeout_at ms cb ps))"
  by (auto simp: timers_ok_def timeout_at_def sorted_timer_insert distinct_timer_insert)

lemma timer_erase_ok: "timers_ok ps \<Longrightarrow> timers_ok (timer_erase t ps)"
  by (auto simp: timers_ok_def timer_erase_def sorted_filter distinct_map_filter)

lemma next_timeout_bounds:
  assumes "timers_ok ps" "(t, x) \<in> set (time_cbs ps)"
  shows "0 \<le> next_timeout now ms ps" "now + next_timeout now ms ps \<le> max now t" "next_timeout now ms ps < 2 ^ 31"
    "0 \<le> ms \<Longrightarrow> next_timeout now ms ps \<le> ms"
proof -
  obtain t0 y zs where z: "time_cbs ps = (t0, y) # zs" using assms(2) by (cases "time_cbs ps") auto
  then have "t0 \<le> t" using assms by (auto simp: timers_ok_def)
  then show "0 \<le> next_timeout now ms ps" "now + next_timeout now ms ps \<le> max now t" "next_timeout now ms ps < 2 ^ 31"
    "0 \<le> ms \<Longrightarrow> next_timeout now ms ps \<le> ms"
    using z by (auto simp: next_timeout_def Let_def)
qed

text \<open>Callbacks that leave the poll set alone: the due timeouts run in the order of their times, and the loop ends.\<close>

lemma timeout_loop_due:
  assumes run: "\<And>cb ps x. run cb (ps, x) = Inr (ps, f cb x)"
  shows "timers_ok ps \<Longrightarrow> length (filter (\<lambda>x. fst x \<le> now) (time_cbs ps)) < fuel \<Longrightarrow>
    timeout_loop fuel run now (case time_cbs ps of [] \<Rightarrow> None | x # _ \<Rightarrow> Some (fst (snd x))) (ps, x) =
    Some (Inr (ps\<lparr>time_cbs := filter (\<lambda>x. now < fst x) (time_cbs ps)\<rparr>,
      fold (\<lambda>(_, _, cb). f cb) (filter (\<lambda>x. fst x \<le> now) (time_cbs ps)) x))"
proof (induction "time_cbs ps" arbitrary: ps x fuel)
  case Nil
  then show ?case by (cases fuel) (auto simp: Nil(1) [symmetric])
next
  case (Cons e es)
  obtain t tm cb where e: "e = (t, tm, cb)" by (cases e)
  obtain n where n: "fuel = Suc n" using Cons.prems(2) by (cases fuel) auto
  note tl = Cons.hyps(2) [symmetric, unfolded e]
  have of: "timer_of tm ps = Some (t, tm, cb)" by (simp add: timer_of_def tl)
  show ?case
  proof (cases "now < t")
    case True
    have "\<forall>x \<in> set es. now < fst x" using Cons.prems(1) True by (fastforce simp: timers_ok_def tl)
    then have "filter (\<lambda>x. now < fst x) (time_cbs ps) = time_cbs ps" "filter (\<lambda>x. fst x \<le> now) (time_cbs ps) = []"
      using True by (auto simp: tl filter_empty_conv filter_id_conv)
    then show ?thesis using True of by (simp add: n) (simp add: tl)
  next
    case False
    have "filter (\<lambda>x. fst (snd x) \<noteq> tm) es = es" using Cons.prems(1) by (auto simp: timers_ok_def tl filter_id_conv)
    then have er: "timer_erase tm ps = ps\<lparr>time_cbs := es\<rparr>" by (simp add: timer_erase_def tl)
    have "timeout_loop n run now (case es of [] \<Rightarrow> None | x # _ \<Rightarrow> Some (fst (snd x))) (ps\<lparr>time_cbs := es\<rparr>, f cb x) =
      Some (Inr (ps\<lparr>time_cbs := filter (\<lambda>x. now < fst x) es\<rparr>, fold (\<lambda>(_, _, cb). f cb) (filter (\<lambda>x. fst x \<le> now) es) (f cb x)))"
      using Cons.hyps(1) [of "ps\<lparr>time_cbs := es\<rparr>" n "f cb x"] timer_erase_ok [OF Cons.prems(1), of tm] Cons.prems(2) False
      by (simp add: er tl n)
    then show ?thesis using False of run by (simp add: n tl er) 
  qed
qed

section \<open>Refinement\<close>

datatype 'cb ps_op = Set_cb nat op_t "'cb option" | Remove_cb nat op_t | Consolidate

fun ps_step :: "'cb ps_op \<Rightarrow> 'cb pollset \<Rightarrow> ps_error + 'cb pollset" where
  "ps_step (Set_cb fd op cb) ps = fd_cb fd op cb ps"
| "ps_step (Remove_cb fd op) ps = fd_cb_remove fd op ps"
| "ps_step Consolidate ps = consolidate ps"

fun ps_run :: "'cb ps_op list \<Rightarrow> 'cb pollset \<Rightarrow> ps_error + 'cb pollset" where
  "ps_run [] ps = Inr ps"
| "ps_run (a # as) ps = bindR (ps_step a ps) (ps_run as)"

fun legal_op :: "'cb ps_op \<Rightarrow> bool" where
  "legal_op (Set_cb fd op cb) = (op \<noteq> ReadWrite)"
| "legal_op _ = True"

type_synonym 'cb cb_maps = "(nat \<rightharpoonup> 'cb \<times> bool) \<times> (nat \<rightharpoonup> 'cb \<times> bool)"

fun abs_step :: "'cb ps_op \<Rightarrow> 'cb cb_maps \<Rightarrow> 'cb cb_maps" where
  "abs_step (Set_cb fd op cb) (R, W) =
     (if has_read op then R(fd := map_option (\<lambda>cb. (cb, has_once op)) cb) else R,
      if has_write op then W(fd := map_option (\<lambda>cb. (cb, has_once op)) cb) else W)"
| "abs_step (Remove_cb fd op) (R, W) =
     (if has_read op then R(fd := None) else R, if has_write op then W(fd := None) else W)"
| "abs_step Consolidate m = m"

lemma ps_step_refines:
  assumes "ps_ok ps" "legal_op a"
  obtains ps' where "ps_step a ps = Inr ps'" "ps_ok ps'" "(reads ps', writes ps') = abs_step a (reads ps, writes ps)"
proof (cases a)
  case (Set_cb fd op cb)
  show ?thesis by (rule fd_cb_ok [OF assms(1), of op fd cb]) (use assms(2) Set_cb in \<open>auto intro: that\<close>)
next
  case (Remove_cb fd op)
  show ?thesis by (rule fd_cb_remove_ok [OF assms(1), of fd op]) (use Remove_cb in \<open>auto intro: that\<close>)
next
  case Consolidate
  show ?thesis by (rule consolidate_ok [OF assms(1)]) (use Consolidate in \<open>auto intro: that simp: same_cbs_def\<close>)
qed

lemma new_pollset_ok: "ps_ok new_pollset" "reads new_pollset = Map.empty" "writes new_pollset = Map.empty"
  by (auto simp: ps_ok_def new_pollset_def reads_def writes_def)

lemma ps_run_refines:
  "ps_ok ps \<Longrightarrow> list_all legal_op as \<Longrightarrow>
   \<exists>ps'. ps_run as ps = Inr ps' \<and> ps_ok ps' \<and> (reads ps', writes ps') = fold abs_step as (reads ps, writes ps)"
proof (induction as arbitrary: ps)
  case (Cons a as)
  then have a: "ps_ok ps" "legal_op a" by simp_all
  obtain ps1 where ps1: "ps_step a ps = Inr ps1" "ps_ok ps1" "(reads ps1, writes ps1) = abs_step a (reads ps, writes ps)"
    by (rule ps_step_refines [OF a])
  show ?case using Cons.IH [OF ps1(2)] Cons.prems(2) ps1(1) by (simp add: ps1(3))
qed simp

text \<open>What the kernel is asked for: the entries with some bit set, by descriptor.\<close>

definition asked :: "'cb pollset \<Rightarrow> (nat \<times> bool \<times> bool) set" where
  "asked ps = (\<lambda>p. (pfd_fd p, pfd_in p, pfd_out p)) ` set (filter events (pollfds ps))"

lemma asked_spec:
  assumes "ps_ok ps"
  shows "asked ps = {(fd, i, j). i = (reads ps fd \<noteq> None) \<and> j = (writes ps fd \<noteq> None) \<and> (i \<or> j)}"
proof -
  have "(fd, i, j) \<in> asked ps \<longleftrightarrow> i = (reads ps fd \<noteq> None) \<and> j = (writes ps fd \<noteq> None) \<and> (i \<or> j)" for fd i j
  proof
    assume "(fd, i, j) \<in> asked ps"
    then obtain n where n: "n < length (pollfds ps)" "fd = pfd_fd (pollfds ps ! n)" "i = pfd_in (pollfds ps ! n)" "j = pfd_out (pollfds ps ! n)" "i \<or> j"
      by (auto simp: asked_def in_set_conv_nth events_def)
    show "i = (reads ps fd \<noteq> None) \<and> j = (writes ps fd \<noteq> None) \<and> (i \<or> j)"
      by (rule slot_okE [OF ps_ok_slotD [OF assms n(1)]]) (use n(2-5) in \<open>simp add: reads_def writes_def\<close>)
  next
    assume a: "i = (reads ps fd \<noteq> None) \<and> j = (writes ps fd \<noteq> None) \<and> (i \<or> j)"
    then obtain fs where fs: "pstate ps fd = Some fs" by (auto simp: reads_def writes_def split: option.splits)
    with a have ij: "i = (fs_rcb fs \<noteq> None)" "j = (fs_wcb fs \<noteq> None)" "i \<or> j" by (auto simp: reads_def writes_def)
    obtain n where n: "n < length (pollfds ps)" "pfd_fd (pollfds ps ! n) = fd" "pfd_in (pollfds ps ! n) = (fs_rcb fs \<noteq> None)"
      "pfd_out (pollfds ps ! n) = (fs_wcb fs \<noteq> None)" by (rule ps_okE [OF assms fs])
    then show "(fd, i, j) \<in> asked ps" using ij nth_mem [OF n(1)]
      by (auto simp: asked_def events_def intro!: image_eqI [of _ _ "pollfds ps ! n"])
  qed
  then show ?thesis by auto
qed

text \<open>C20: The poll set implements two maps from descriptors to callbacks: any sequence of
  registrations (of a single direction), removals and consolidations runs without a failed
  assertion or a missing index, leaves the callbacks that the maps have, and asks the kernel for
  exactly the descriptors and directions that have a callback, with one entry for each descriptor.\<close>

theorem pollset_refines:
  assumes "list_all legal_op ops"
  shows "\<exists>ps R W. ps_run ops new_pollset = Inr ps \<and> fold abs_step ops (Map.empty, Map.empty) = (R, W)
    \<and> asked ps = {(fd, i, j). i = (R fd \<noteq> None) \<and> j = (W fd \<noteq> None) \<and> (i \<or> j)}
    \<and> distinct (map pfd_fd (pollfds ps)) \<and> reads ps = R \<and> writes ps = W"
proof -
  from ps_run_refines [OF new_pollset_ok(1) assms] obtain ps where "ps_run ops new_pollset = Inr ps" "ps_ok ps"
    "(reads ps, writes ps) = fold abs_step ops (Map.empty, Map.empty)" by (auto simp: new_pollset_ok)
  then show ?thesis using asked_spec [of ps] ps_ok_distinct [of ps] by (intro exI [of _ ps] exI [of _ "reads ps"] exI [of _ "writes ps"]) simp
qed

theorem pollset_refines_witness:
  "\<exists>ps. ps_run [Set_cb 4 Read (Some (0 :: nat)), Set_cb 5 WriteOnce (Some 1), Set_cb 6 Read (Some 2), Remove_cb 4 ReadWrite, Consolidate]
      new_pollset = Inr ps \<and> (5, False, True) \<in> asked ps \<and> (6, True, False) \<in> asked ps \<and> (4, True, False) \<notin> asked ps
      \<and> writes ps 5 = Some (1, True)"
  using pollset_refines [of "[Set_cb 4 Read (Some (0 :: nat)), Set_cb 5 WriteOnce (Some 1), Set_cb 6 Read (Some 2), Remove_cb 4 ReadWrite, Consolidate]"]
  by (auto simp: has_read_def has_write_def has_once_def split: if_splits)


end
