(* ===== verification/Poll_Rounds.thy ===== *)
theory Poll_Rounds
  imports Pollset_Properties
begin

text \<open>
  Rounds of \<open>pollset::poll\<close> (\<open>src/xdrpp/xdrpp/pollset.cc\<close>) with callbacks that use the poll set: a
  callback may call \<open>fd_cb\<close> for any descriptor, its own, those of other sockets and new ones, as the
  callbacks of the servers do when they answer, accept and close connections inside \<open>poll\<close>. The
  interpretation of \<open>poll_client\<close> gives what a round does in terms of the two maps of callbacks.
\<close>

section \<open>Callbacks that use the poll set\<close>

text \<open>
  What a callback does: the calls of \<open>fd_cb\<close> it makes and the new state of the rest of the program.
\<close>

type_synonym ('cb, 'x) cb_body = "'cb \<Rightarrow> 'x \<Rightarrow> 'cb ps_op list \<times> 'x"

definition run_ops :: "('cb, 'x) cb_body \<Rightarrow> ('cb, 'x) run_cb" where
  "run_ops body cb = (\<lambda>(ps, x). case body cb x of (ops, x) \<Rightarrow> bindR (ps_run ops ps) (\<lambda>ps. Inr (ps, x)))"

text \<open>Registrations of one direction, and removals; \<open>consolidate\<close> is private to \<open>poll\<close>.\<close>

fun call_op :: "'cb ps_op \<Rightarrow> bool" where
  "call_op (Set_cb fd op cb) = (op \<noteq> ReadWrite)"
| "call_op (Remove_cb fd op) = True"
| "call_op Consolidate = False"

section \<open>What a round has to do\<close>

text \<open>
  On the two maps: the callback registered for the descriptor at its turn is called, a callback for
  one event is removed before, and what it registers and removes counts from then on.
\<close>

definition act :: "('cb, 'x) cb_body \<Rightarrow> 'cb \<Rightarrow> 'cb cb_maps \<times> 'x \<Rightarrow> 'cb cb_maps \<times> 'x" where
  "act body cb = (\<lambda>(m, x). case body cb x of (ops, x) \<Rightarrow> (fold abs_step ops m, x))"

definition serve_read :: "('cb, 'x) cb_body \<Rightarrow> nat \<Rightarrow> 'cb cb_maps \<times> 'x \<Rightarrow> 'cb cb_maps \<times> 'x" where
  "serve_read body fd = (\<lambda>((R, W), x). case R fd of
     None \<Rightarrow> ((R, W), x)
   | Some (cb, once) \<Rightarrow> act body cb (if once then (R(fd := None), W) else (R, W), x))"

definition serve_write :: "('cb, 'x) cb_body \<Rightarrow> nat \<Rightarrow> 'cb cb_maps \<times> 'x \<Rightarrow> 'cb cb_maps \<times> 'x" where
  "serve_write body fd = (\<lambda>((R, W), x). case W fd of
     None \<Rightarrow> ((R, W), x)
   | Some (cb, once) \<Rightarrow> act body cb (if once then (R, W(fd := None)) else (R, W), x))"

definition serve :: "('cb, 'x) cb_body \<Rightarrow> nat \<times> revents \<Rightarrow> 'cb cb_maps \<times> 'x \<Rightarrow> 'cb cb_maps \<times> 'x" where
  "serve body = (\<lambda>(fd, re) s.
     let s = (if ready_in re then serve_read body fd s else s)
     in if ready_out re then serve_write body fd s else s)"

section \<open>The poll set does it\<close>

text \<open>Beside the state, the maps of callbacks: what the specification of a round is about.\<close>

definition run_seen :: "('cb, 'x) cb_body \<Rightarrow> ('cb, 'cb cb_maps \<times> 'x) run_cb" where
  "run_seen body cb = (\<lambda>(ps, (m, x)). case body cb x of (ops, x) \<Rightarrow>
     bindR (ps_run ops ps) (\<lambda>ps. Inr (ps, ((reads ps, writes ps), x))))"

definition forget :: "ps_error + ('cb, 'm \<times> 'x) world \<Rightarrow> ps_error + ('cb, 'x) world" where
  "forget r = (case r of Inl e \<Rightarrow> Inl e | Inr (ps, (m, x)) \<Rightarrow> Inr (ps, x))"

lemma forget_simps [simp]: "forget (Inl e) = Inl e" "forget (Inr (ps, (m, x))) = Inr (ps, x)"
  by (simp_all add: forget_def)

lemma forget_bind:
  assumes "\<And>ps m x. forget (f (ps, (m, x))) = g (ps, x)" "forget r = s"
  shows "forget (bindR r f) = bindR s g"
  using assms by (cases r) auto

lemma forget_run: "forget (run_seen body cb (ps, (m, x))) = run_ops body cb (ps, x)"
proof -
  obtain ops y where "body cb x = (ops, y)" by fastforce
  then show ?thesis by (cases "ps_run ops ps") (simp_all add: run_seen_def run_ops_def)
qed

lemma forget_calls:
  "forget (call_read (run_seen body) i fd (ps, (m, x))) = call_read (run_ops body) i fd (ps, x)"
  "forget (call_write (run_seen body) i fd (ps, (m, x))) = call_write (run_ops body) i fd (ps, x)"
  by (simp_all add: call_read_def call_write_def forget_run split: option.split)

lemma forget_loop: "forget (poll_loop (run_seen body) r i rs (ps, (m, x))) = poll_loop (run_ops body) r i rs (ps, x)"
proof (induction rs arbitrary: r i ps m x)
  case (Cons re rs)
  have W: "forget (if length (pollfds (fst (q, (n, y)))) \<le> i then Inl Ps_range
        else bindR (if ready_out re then call_write (run_seen body) i fd (q, (n, y)) else Inr (q, (n, y))) (poll_loop (run_seen body) k (Suc i) rs))
      = (if length (pollfds (fst (q, y))) \<le> i then Inl Ps_range
        else bindR (if ready_out re then call_write (run_ops body) i fd (q, y) else Inr (q, y)) (poll_loop (run_ops body) k (Suc i) rs))" for fd k q n y
  proof (cases "length (pollfds q) \<le> i")
    case False
    have "forget (bindR (if ready_out re then call_write (run_seen body) i fd (q, (n, y)) else Inr (q, (n, y))) (poll_loop (run_seen body) k (Suc i) rs))
      = bindR (if ready_out re then call_write (run_ops body) i fd (q, y) else Inr (q, y)) (poll_loop (run_ops body) k (Suc i) rs)"
      by (rule forget_bind, rule Cons.IH) (simp add: forget_calls)
    with False show ?thesis by (simp only: fst_conv if_False)
  qed simp
  have "forget (bindR (if ready_in re then call_read (run_seen body) i fd (ps, (m, x)) else Inr (ps, (m, x)))
        (\<lambda>w. if length (pollfds (fst w)) \<le> i then Inl Ps_range
          else bindR (if ready_out re then call_write (run_seen body) i fd w else Inr w) (poll_loop (run_seen body) k (Suc i) rs)))
      = bindR (if ready_in re then call_read (run_ops body) i fd (ps, x) else Inr (ps, x))
        (\<lambda>w. if length (pollfds (fst w)) \<le> i then Inl Ps_range
          else bindR (if ready_out re then call_write (run_ops body) i fd w else Inr w) (poll_loop (run_ops body) k (Suc i) rs))" for fd k
    by (rule forget_bind, rule W) (simp add: forget_calls)
  then show ?case by (simp only: poll_loop.simps Let_def fst_conv if_distrib [of forget] forget_simps)
qed simp

lemma call_op_run:
  "\<lbrakk>ps_ok ps; list_all call_op ops\<rbrakk> \<Longrightarrow> \<exists>ps'. ps_run ops ps = Inr ps' \<and> ps_ok ps' \<and> grows ps ps' \<and> time_cbs ps' = time_cbs ps
    \<and> (reads ps', writes ps') = fold abs_step ops (reads ps, writes ps)"
proof (induction ops arbitrary: ps)
  case Nil
  then show ?case by (simp add: grows_def)
next
  case (Cons a ops)
  obtain q where q: "ps_step a ps = Inr q" "ps_ok q" "grows ps q" "time_cbs q = time_cbs ps"
    "(reads q, writes q) = abs_step a (reads ps, writes ps)"
  proof (cases a)
    case (Set_cb fd op cb)
    show ?thesis by (rule fd_cb_ok [OF Cons.prems(1), of op fd cb]) (use Cons.prems(2) Set_cb in \<open>auto intro: that\<close>)
  next
    case (Remove_cb fd op)
    show ?thesis by (rule fd_cb_remove_ok [OF Cons.prems(1), of fd op]) (use Remove_cb in \<open>auto intro: that\<close>)
  qed (use Cons.prems(2) in simp)
  from Cons.IH [OF q(2)] Cons.prems(2) obtain ps' where ps': "ps_run ops q = Inr ps'" "ps_ok ps'" "grows q ps'" "time_cbs ps' = time_cbs q"
    "(reads ps', writes ps') = fold abs_step ops (reads q, writes q)" by auto
  have "ps_run (a # ops) ps = Inr ps'" using q(1) ps'(1) by simp
  moreover have "fold abs_step (a # ops) (reads ps, writes ps) = (reads ps', writes ps')" by (simp only: fold_simps q(5) [symmetric] ps'(5))
  ultimately show ?case using ps'(2,4) q(4) grows_trans [OF q(3) ps'(3)] by auto
qed

definition calls :: "('cb, 'x) cb_body \<Rightarrow> bool" where
  "calls body \<longleftrightarrow> (\<forall>cb x. list_all call_op (fst (body cb x)))"

lemma run_seen_runs:
  assumes "calls body" "ps_ok ps"
  shows "runs_to (\<lambda>s. fst (fst s)) (\<lambda>s. snd (fst s)) (\<lambda>_. True) ps (run_seen body cb (ps, (m, x)))
    (act body cb ((reads ps, writes ps), x))"
proof -
  obtain ops y where b: "body cb x = (ops, y)" by fastforce
  then have "list_all call_op ops" using assms(1) unfolding calls_def by (metis fst_conv)
  from call_op_run [OF assms(2) this] b show ?thesis
    by (auto simp: runs_to_def tracks_def run_seen_def act_def) (metis prod.collapse fst_conv snd_conv)+
qed

text \<open>A program without callbacks that do anything else has bodies of this kind; the others are kept quiet.\<close>

definition tame :: "('cb, 'x) cb_body \<Rightarrow> ('cb, 'x) cb_body" where
  "tame body = (if calls body then body else (\<lambda>cb x. ([], x)))"

lemma calls_tame: "calls (tame body)" "calls body \<Longrightarrow> tame body = body"
  by (simp_all add: tame_def calls_def)

interpretation pr: poll_client "run_seen (tame body)" "\<lambda>s. fst (fst s)" "\<lambda>s. snd (fst s)" "\<lambda>_. True"
    "serve_read (tame body)" "serve_write (tame body)"
  for body :: "('cb, 'x) cb_body"
proof
  fix s :: "'cb cb_maps \<times> 'x" and fd cb once and ps :: "'cb pollset"
  assume a: "fst (fst s) fd = Some (cb, once)" "ps_ok ps" "writes ps = snd (fst s)"
    "reads ps = (if once then (fst (fst s))(fd := None) else fst (fst s))"
  then have "serve_read (tame body) fd s = act (tame body) cb ((reads ps, writes ps), snd s)"
    by (cases s) (auto simp: serve_read_def split: prod.splits)
  with run_seen_runs [OF calls_tame(1) a(2), of body cb "fst s" "snd s"]
  show "runs_to (\<lambda>s. fst (fst s)) (\<lambda>s. snd (fst s)) (\<lambda>_. True) ps (run_seen (tame body) cb (ps, s)) (serve_read (tame body) fd s)" by simp
next
  fix s :: "'cb cb_maps \<times> 'x" and fd cb once and ps :: "'cb pollset"
  assume a: "snd (fst s) fd = Some (cb, once)" "ps_ok ps" "reads ps = fst (fst s)"
    "writes ps = (if once then (snd (fst s))(fd := None) else snd (fst s))"
  then have "serve_write (tame body) fd s = act (tame body) cb ((reads ps, writes ps), snd s)"
    by (cases s) (auto simp: serve_write_def split: prod.splits)
  with run_seen_runs [OF calls_tame(1) a(2), of body cb "fst s" "snd s"]
  show "runs_to (\<lambda>s. fst (fst s)) (\<lambda>s. snd (fst s)) (\<lambda>_. True) ps (run_seen (tame body) cb (ps, s)) (serve_write (tame body) fd s)" by simp
qed

lemma entry_serve: "entry_spec (\<lambda>s. fst (fst s)) (\<lambda>s. snd (fst s)) (serve_read body) (serve_write body) = serve body"
proof (intro ext)
  fix e :: "nat \<times> revents" and s :: "'a cb_maps \<times> 'b"
  obtain fd :: nat and re where e: "e = (fd, re)" by (cases e)
  have R: "(if fst (fst t) fd \<noteq> None then serve_read body fd t else t) = serve_read body fd t" for t :: "'a cb_maps \<times> 'b"
    by (cases "fst (fst t) fd") (auto simp: serve_read_def split: prod.split)
  have W: "(if snd (fst t) fd \<noteq> None then serve_write body fd t else t) = serve_write body fd t" for t :: "'a cb_maps \<times> 'b"
    by (cases "snd (fst t) fd") (auto simp: serve_write_def split: prod.split)
  have "(if a \<and> c then u else v) = (if a then if c then u else v else v)" for a c and u v :: "'a cb_maps \<times> 'b" by simp
  note C = this
  show "entry_spec (\<lambda>s. fst (fst s)) (\<lambda>s. snd (fst s)) (serve_read body) (serve_write body) e s = serve body e s"
    by (simp only: e entry_spec_def serve_def prod.case Let_def C R W)
qed

section \<open>Histories\<close>

text \<open>
  The poll sets of a program that calls \<open>fd_cb\<close> and \<open>poll\<close> and sets no timeouts. The kernel answers
  for the entries it is given, with the number of those that have events, and no descriptor is invalid.
\<close>

definition answers :: "'cb pollset \<Rightarrow> revents list \<Rightarrow> bool" where
  "answers ps rs \<longleftrightarrow> length rs = length (pollfds ps) \<and> list_all (\<lambda>re. \<not> POLLNVAL re) rs"

inductive poll_reach :: "('cb, 'x) cb_body \<Rightarrow> 'cb pollset \<Rightarrow> bool" for body where
  poll_start: "poll_reach body new_pollset"
| poll_calls: "poll_reach body ps \<Longrightarrow> list_all call_op ops \<Longrightarrow> ps_run ops ps = Inr ps' \<Longrightarrow> poll_reach body ps'"
| poll_polls: "poll_reach body ps \<Longrightarrow> answers ps rs \<Longrightarrow>
    poll_round fuel (run_ops body) now (Poll_events (length (filter any_event rs)) rs) (ps, x) = Some (Inr (ps', x')) \<Longrightarrow> poll_reach body ps'"

lemma round_serves:
  assumes "calls body" "ps_ok ps" "time_cbs ps = []" "answers ps rs"
  obtains ps' R W x' where
    "poll_round fuel (run_ops body) now (Poll_events (length (filter any_event rs)) rs) (ps, x) = Some (Inr (ps', x'))"
    "fold (serve body) (zip (map pfd_fd (pollfds ps)) rs) ((reads ps, writes ps), x) = ((R, W), x')"
    "ps_ok ps'" "reads ps' = R" "writes ps' = W" "active_from 0 ps'" "time_cbs ps' = []"
proof -
  let ?m = "(reads ps, writes ps)" and ?r = "length (filter any_event rs)"
  have t: "tame body = body" using assms(1) by (rule calls_tame)
  obtain R W x' where f: "fold (serve body) (zip (map pfd_fd (pollfds ps)) rs) (?m, x) = ((R, W), x')" by (metis prod.collapse)
  have "tracks (\<lambda>s. fst (fst s)) (\<lambda>s. snd (fst s)) (\<lambda>_. True) ps (?m, x)" using assms(2) by (simp add: tracks_def)
  from pr.poll_loop_ok [OF this, of 0 rs ?r body] assms(4) obtain q where
    q: "poll_loop (run_seen body) ?r 0 rs (ps, (?m, x)) = Inr (q, ((R, W), x'))" "ps_ok q" "reads q = R" "writes q = W" "time_cbs q = []"
    using assms(3) by (auto simp: runs_to_def tracks_def answers_def list_all_iff entry_serve t f)
  then have "poll_loop (run_ops body) ?r 0 rs (ps, x) = Inr (q, x')" using forget_loop [of body ?r 0 rs ps ?m x] by simp
  moreover obtain ps' where "consolidate q = Inr ps'" "ps_ok ps'" "same_cbs q ps'" "active_from 0 ps'" using consolidate_ok [OF q(2)] by blast
  ultimately show ?thesis using q f by (intro that [of ps' x' R W]) (simp_all add: poll_round_def run_timeouts_def same_cbs_def)
qed

lemma poll_reach_ok: "poll_reach body ps \<Longrightarrow> calls body \<Longrightarrow> ps_ok ps \<and> time_cbs ps = []"
proof (induction rule: poll_reach.induct)
  case poll_start
  show ?case using new_pollset_ok by (simp add: new_pollset_def)
next
  case (poll_calls ps ops ps')
  then show ?case using call_op_run [of ps ops] by auto
next
  case (poll_polls ps rs fuel now x ps' x')
  show ?case
    by (rule round_serves [of body ps rs fuel now x]) (use poll_polls in auto)
qed

section \<open>Properties\<close>

text \<open>C19: A round of \<open>poll\<close> calls the right callbacks, whatever these do to the poll set: in every
  program that calls \<open>fd_cb\<close> and \<open>poll\<close>, with callbacks that register and remove callbacks of any
  descriptors and with no timeouts, a call of \<open>poll\<close> for which the kernel answers returns; it serves the
  entries that it had when it was called, in their order, each with the callback that the two maps of
  callbacks have for the descriptor at that time (first for reading, then for writing), a callback for
  one event being removed before it is called. The entries left are those of the descriptors that have
  a callback in the end.\<close>

theorem poll_round_serves:
  assumes "calls body" "poll_reach body ps" "answers ps rs"
  shows "\<exists>ps' R W x'. poll_round fuel (run_ops body) now (Poll_events (length (filter any_event rs)) rs) (ps, x) = Some (Inr (ps', x'))
    \<and> fold (serve body) (zip (map pfd_fd (pollfds ps)) rs) ((reads ps, writes ps), x) = ((R, W), x')
    \<and> distinct (map pfd_fd (pollfds ps)) \<and> reads ps' = R \<and> writes ps' = W
    \<and> distinct (map pfd_fd (pollfds ps')) \<and> pfd_fd ` set (pollfds ps') = dom R \<union> dom W"
proof -
  from poll_reach_ok [OF assms(2,1)] have ok: "ps_ok ps" "time_cbs ps = []" by simp_all
  obtain ps' R W x' where r: "poll_round fuel (run_ops body) now (Poll_events (length (filter any_event rs)) rs) (ps, x) = Some (Inr (ps', x'))"
    "fold (serve body) (zip (map pfd_fd (pollfds ps)) rs) ((reads ps, writes ps), x) = ((R, W), x')"
    "ps_ok ps'" "reads ps' = R" "writes ps' = W" "active_from 0 ps'"
    by (rule round_serves [OF assms(1) ok assms(3)])
  have "filter events (pollfds ps') = pollfds ps'" using r(6) by (auto simp: active_from_def filter_id_conv in_set_conv_nth)
  then have "fst ` asked ps' = pfd_fd ` set (pollfds ps')" by (auto simp: asked_def image_image)
  moreover have "fst ` asked ps' = dom R \<union> dom W" unfolding asked_spec [OF r(3)] r(4,5) by (auto simp: image_iff)
  ultimately have "pfd_fd ` set (pollfds ps') = dom R \<union> dom W" by simp
  with r ps_ok_distinct [OF ok(1)] ps_ok_distinct [OF r(3)] show ?thesis by blast
qed

text \<open>
  Callback 0 reads on descriptor 4, as a listening socket does: it registers callback 1 for reading on
  the new descriptor 7 and removes what is registered on descriptor 5.
\<close>

definition accepting :: "(nat, nat list) cb_body" where
  "accepting cb x = (if cb = 0 then [Set_cb 7 Read (Some 1), Remove_cb 5 ReadWrite] else [], x @ [cb])"

lemma accepting_reach:
  "\<exists>ps. ps_run [Set_cb 4 Read (Some (0 :: nat)), Set_cb 5 WriteOnce (Some 2)] new_pollset = Inr ps \<and> poll_reach accepting ps
    \<and> map pfd_fd (pollfds ps) = [4, 5] \<and> reads ps = [4 \<mapsto> (0, False)] \<and> writes ps = [5 \<mapsto> (2, True)]"
proof -
  obtain ps where ps: "ps_run [Set_cb 4 Read (Some (0 :: nat)), Set_cb 5 WriteOnce (Some 2)] new_pollset = Inr ps" "map pfd_fd (pollfds ps) = [4, 5]"
    by (simp add: fd_cb_def fd_cb_assign_def fd_slot_def new_pollset_def fresh_fd_state_def has_read_def has_write_def map_at_def Let_def)
  from poll_calls [OF poll_start _ ps(1)] have "poll_reach accepting ps" by simp
  moreover from call_op_run [OF new_pollset_ok(1), of "[Set_cb 4 Read (Some (0 :: nat)), Set_cb 5 WriteOnce (Some 2)]"] ps(1)
  have "reads ps = [4 \<mapsto> (0, False)] \<and> writes ps = [5 \<mapsto> (2, True)]"
    by (simp add: new_pollset_ok has_read_def has_write_def has_once_def del: ps_run.simps)
  ultimately show ?thesis using ps by (intro exI [of _ ps] conjI) simp_all
qed

definition ready :: "revents list" where
  "ready = [\<lparr>POLLIN = True, POLLOUT = False, POLLHUP = False, POLLERR = False, POLLNVAL = False\<rparr>,
     \<lparr>POLLIN = False, POLLOUT = True, POLLHUP = False, POLLERR = False, POLLNVAL = False\<rparr>]"

theorem poll_round_serves_witness:
  "\<exists>ps ps'. ps_run [Set_cb 4 Read (Some (0 :: nat)), Set_cb 5 WriteOnce (Some 2)] new_pollset = Inr ps
    \<and> poll_round 1 (run_ops accepting) 0 (Poll_events 2 ready) (ps, []) = Some (Inr (ps', [0])) \<and> pfd_fd ` set (pollfds ps') = {4, 7}"
proof -
  from accepting_reach obtain ps where ps: "ps_run [Set_cb 4 Read (Some (0 :: nat)), Set_cb 5 WriteOnce (Some 2)] new_pollset = Inr ps" "poll_reach accepting ps"
    "map pfd_fd (pollfds ps) = [4, 5]" "reads ps = [4 \<mapsto> (0, False)]" "writes ps = [5 \<mapsto> (2, True)]" by (elim exE conjE)
  have "length (pollfds ps) = 2" using arg_cong [OF ps(3), of length] by (simp del: map_eq_Cons_conv)
  then have a: "answers ps ready" by (simp add: answers_def ready_def)
  have c: "calls accepting" by (simp add: calls_def accepting_def)
  have f: "fold (serve accepting) (zip [4, 5] ready) (([4 \<mapsto> (0, False)], [5 \<mapsto> (2, True)]), []) = (([4 \<mapsto> (0, False), 7 \<mapsto> (1, False)], Map.empty), [0])"
    by (simp add: ready_def serve_def serve_read_def serve_write_def act_def accepting_def ready_in_def ready_out_def has_read_def has_write_def has_once_def)
  have n: "length (filter any_event ready) = 2" by (simp add: ready_def any_event_def)
  from poll_round_serves [OF c ps(2) a, of 1 0 "[]"] obtain ps' R W x' where
    "poll_round 1 (run_ops accepting) 0 (Poll_events 2 ready) (ps, []) = Some (Inr (ps', x'))"
    "(([4 \<mapsto> (0 :: nat, False), 7 \<mapsto> (1, False)], Map.empty), [0]) = ((R, W :: nat \<rightharpoonup> nat \<times> bool), x')" "pfd_fd ` set (pollfds ps') = dom R \<union> dom W"
    unfolding ps(3-5) f n by (elim exE conjE)
  with ps(1) show ?thesis by auto
qed

end
