(* ===== verification/Chubby_Dispatch.thy ===== *)
theory Chubby_Dispatch
  imports Chubby_Api Rpc_Msg "HOL-Library.AList"
begin

text \<open>
  The RPC server of the lock service: class \<open>chubby_server\<close> and the class template
  \<open>chubby_service_base\<close> (\<open>src/server/chubby_server.h\<close>, \<open>chubby_server.cc\<close>) with the numbers of
  the interface \<open>api_v1\<close> and its \<open>call_dispatch\<close> (\<open>src/include/server.hh\<close>), and the interface
  \<open>handler_v1\<close> of the events (\<open>src/include/event.hh\<close>). A message that arrives on the socket of a
  session is unmarshaled, checked, and given to a procedure of \<open>Chubby_Api\<close>; what the procedure
  puts into its outbox is marshaled and queued on the sockets of the sessions.
\<close>

section \<open>The interfaces\<close>

definition api_program :: u32 where "api_program = 1074036870"
definition api_version :: u32 where "api_version = 1"
definition event_program :: u32 where "event_program = 1074036870"
definition event_version :: u32 where "event_version = 1"
definition event_callback_proc :: u32 where "event_callback_proc = 77"

lemmas interface_defs = api_program_def api_version_def event_program_def event_version_def
  event_callback_proc_def

text \<open>
  \<open>chubby_service_base::dispatch\<close> for one procedure: the argument must take up the rest of the
  message.
\<close>

definition get_arg :: "'a codec \<Rightarrow> ('a \<Rightarrow> request) \<Rightarrow> byte list \<Rightarrow> xdr_error + request" where
  "get_arg A mk g = bindR (c_load A g) (\<lambda>(arg, g).
     bindR (assertR Xdr_bad_message_size (g = [])) (\<lambda>_. Inr (mk arg)))"

text \<open>\<open>api_v1::call_dispatch\<close>: \<open>None\<close> is the result false for an unknown procedure.\<close>

definition call_dispatch :: "u32 \<Rightarrow> byte list \<Rightarrow> (xdr_error + request) option" where
  "call_dispatch proc g =
     (if proc = 1 then Some (get_arg xdr_ArgOpen Rq_fileOpen g)
      else if proc = 2 then Some (get_arg xdr_FileHandler Rq_fileClose g)
      else if proc = 3 then Some (get_arg xdr_FileHandler Rq_fileDelete g)
      else if proc = 4 then Some (get_arg xdr_FileHandler Rq_getContentsAndStat g)
      else if proc = 5 then Some (get_arg xdr_ArgSetContents Rq_setContents g)
      else if proc = 6 then Some (get_arg xdr_FileHandler Rq_acquire g)
      else if proc = 7 then Some (get_arg xdr_FileHandler Rq_tryAcquire g)
      else if proc = 8 then Some (get_arg xdr_FileHandler Rq_release g)
      else if proc = 21 then Some (get_arg c_string Rq_startSession g)
      else if proc = 22 then Some (get_arg xdr_ArgReopen Rq_fileReopen g)
      else if proc = 991 then Some (get_arg c_u32 Rq_increment g)
      else if proc = 992 then Some (get_arg c_u32 Rq_decrement g)
      else None)"

text \<open>The number of a request's procedure and its argument, as \<open>api_v1\<close> declares them.\<close>

fun request_proc :: "request \<Rightarrow> u32" where
  "request_proc (Rq_fileOpen _) = 1"
| "request_proc (Rq_fileClose _) = 2"
| "request_proc (Rq_fileDelete _) = 3"
| "request_proc (Rq_getContentsAndStat _) = 4"
| "request_proc (Rq_setContents _) = 5"
| "request_proc (Rq_acquire _) = 6"
| "request_proc (Rq_tryAcquire _) = 7"
| "request_proc (Rq_release _) = 8"
| "request_proc (Rq_startSession _) = 21"
| "request_proc (Rq_fileReopen _) = 22"
| "request_proc (Rq_increment _) = 991"
| "request_proc (Rq_decrement _) = 992"

fun request_msg :: "rpc_msg \<Rightarrow> request \<Rightarrow> xdr_error + message_t" where
  "request_msg hdr (Rq_fileOpen a) = xdr_to_msg (c_pair xdr_rpc_msg xdr_ArgOpen) (hdr, a)"
| "request_msg hdr (Rq_fileClose a) = xdr_to_msg (c_pair xdr_rpc_msg xdr_FileHandler) (hdr, a)"
| "request_msg hdr (Rq_fileDelete a) = xdr_to_msg (c_pair xdr_rpc_msg xdr_FileHandler) (hdr, a)"
| "request_msg hdr (Rq_getContentsAndStat a) = xdr_to_msg (c_pair xdr_rpc_msg xdr_FileHandler) (hdr, a)"
| "request_msg hdr (Rq_setContents a) = xdr_to_msg (c_pair xdr_rpc_msg xdr_ArgSetContents) (hdr, a)"
| "request_msg hdr (Rq_acquire a) = xdr_to_msg (c_pair xdr_rpc_msg xdr_FileHandler) (hdr, a)"
| "request_msg hdr (Rq_tryAcquire a) = xdr_to_msg (c_pair xdr_rpc_msg xdr_FileHandler) (hdr, a)"
| "request_msg hdr (Rq_release a) = xdr_to_msg (c_pair xdr_rpc_msg xdr_FileHandler) (hdr, a)"
| "request_msg hdr (Rq_startSession a) = xdr_to_msg (c_pair xdr_rpc_msg c_string) (hdr, a)"
| "request_msg hdr (Rq_fileReopen a) = xdr_to_msg (c_pair xdr_rpc_msg xdr_ArgReopen) (hdr, a)"
| "request_msg hdr (Rq_increment a) = xdr_to_msg (c_pair xdr_rpc_msg c_u32) (hdr, a)"
| "request_msg hdr (Rq_decrement a) = xdr_to_msg (c_pair xdr_rpc_msg c_u32) (hdr, a)"

text \<open>\<open>prepare_call\<close> for a procedure of the lock service.\<close>

definition call_hdr :: "u32 \<Rightarrow> request \<Rightarrow> rpc_msg" where
  "call_hdr xid rq = \<lparr>rm_xid = xid, rm_body = Rp_cbody \<lparr>cb_rpcvers = 2, cb_prog = api_program,
     cb_vers = api_version, cb_proc = request_proc rq, cb_cred = auth_none, cb_verf = auth_none\<rparr>\<rparr>"

section \<open>State\<close>

text \<open>
  A pointer to a \<open>msg_sock\<close> is an address; \<open>socks\<close> are the addresses of the sockets that have not
  been deleted. \<open>wire_out\<close> lists what was handed to \<open>putmsg\<close> of a socket (\<open>Queued\<close>) and what
  was written to a file descriptor directly (\<open>Written\<close>), in the order of the calls.
\<close>

datatype wire_msg = Queued nat message_t | Written nat message_t

record chubby_server =
  cs_servers :: "(u32 \<times> u32 list) list"
  fd_to_sessionid_map :: "nat \<rightharpoonup> session"
  sessionid_to_fd_map :: "session \<rightharpoonup> nat"
  sessionid_to_msgsock_map :: "session \<rightharpoonup> nat"
  sessionid_to_clientid_map :: "session \<rightharpoonup> string"
  session_id_allocator :: u32
  xid_send_counter :: u32
  socks :: "nat set"
  next_sock :: nat
  wire_out :: "wire_msg list"
  service :: api_state

text \<open>
  How the server ends otherwise than by returning: an exception of the XDR library that leaves
  the dispatcher, the use of a null or deleted socket, the assertion of \<open>send\<close>, a message that can
  not be marshaled, and what a procedure of the service ends with.
\<close>

datatype srv_error = Srv_throw xdr_error | Srv_socket | Srv_short_write | Srv_marshal xdr_error | Srv_api api_error

definition lift_msg :: "xdr_error + 'a \<Rightarrow> srv_error + 'a" where
  "lift_msg r = (case r of Inl e \<Rightarrow> Inl (Srv_marshal e) | Inr x \<Rightarrow> Inr x)"

definition lift_throw :: "xdr_error + 'a \<Rightarrow> srv_error + 'a" where
  "lift_throw r = (case r of Inl e \<Rightarrow> Inl (Srv_throw e) | Inr x \<Rightarrow> Inr x)"

definition lift_api :: "api_error + 'a \<Rightarrow> srv_error + 'a" where
  "lift_api r = (case r of Inl e \<Rightarrow> Inl (Srv_api e) | Inr x \<Rightarrow> Inr x)"

definition new_chubby_server :: "api_state \<Rightarrow> chubby_server" where
  "new_chubby_server a = \<lparr>cs_servers = [], fd_to_sessionid_map = Map.empty,
     sessionid_to_fd_map = Map.empty, sessionid_to_msgsock_map = Map.empty,
     sessionid_to_clientid_map = Map.empty, session_id_allocator = 0, xid_send_counter = 0,
     socks = {}, next_sock = 0, wire_out = [], service = a\<rparr>"

text \<open>\<open>servers_[s->prog_][s->vers_].reset(s)\<close>; the versions of a program are kept in order.\<close>

definition register_service :: "u32 \<Rightarrow> u32 \<Rightarrow> chubby_server \<Rightarrow> chubby_server" where
  "register_service prog vers s =
     (let vs = map_at [] (map_of (cs_servers s)) prog
      in s\<lparr>cs_servers := AList.update prog (if vers \<in> set vs then vs else insort vers vs) (cs_servers s)\<rparr>)"

section \<open>Sending\<close>

definition sock_put :: "nat option \<Rightarrow> message_t \<Rightarrow> chubby_server \<Rightarrow> srv_error + chubby_server" where
  "sock_put p m s = (case p of
     None \<Rightarrow> Inl Srv_socket
   | Some a \<Rightarrow> if a \<in> socks s then Inr (s\<lparr>wire_out := wire_out s @ [Queued a m]\<rparr>) else Inl Srv_socket)"

definition put_hdr :: "nat \<Rightarrow> rpc_msg \<Rightarrow> chubby_server \<Rightarrow> srv_error + chubby_server" where
  "put_hdr a hdr s = bindR (lift_msg (xdr_to_msg xdr_rpc_msg hdr)) (\<lambda>m. sock_put (Some a) m s)"

text \<open>\<open>xdr_to_msg(rhdr, *result)\<close> for the four result types.\<close>

definition reply_msg :: "rpc_msg \<Rightarrow> ret \<Rightarrow> xdr_error + message_t" where
  "reply_msg hdr r = (case r of
     R_fd x \<Rightarrow> xdr_to_msg (c_pair xdr_rpc_msg xdr_RetFd) (hdr, x)
   | R_bool x \<Rightarrow> xdr_to_msg (c_pair xdr_rpc_msg xdr_RetBool) (hdr, x)
   | R_contents x \<Rightarrow> xdr_to_msg (c_pair xdr_rpc_msg xdr_RetContentsAndStat) (hdr, x)
   | R_int x \<Rightarrow> xdr_to_msg (c_pair xdr_rpc_msg c_u32) (hdr, x))"

definition srv_reply :: "session \<Rightarrow> u32 \<Rightarrow> ret \<Rightarrow> chubby_server \<Rightarrow> srv_error + chubby_server" where
  "srv_reply sid xid r s =
     (if xid = -1 then Inr s
      else bindR (lift_msg (reply_msg (accepted_hdr xid SUCCESS) r)) (\<lambda>m.
        sock_put (sessionid_to_msgsock_map s sid) m s))"

text \<open>
  \<open>send\<close> writes to the descriptor itself; \<open>sessionid_to_fd_map_[session_id]\<close> is 0 for a session
  that is not there, and the entry is then added. \<open>takes\<close> says whether the kernel accepts all
  bytes of a write.
\<close>

definition srv_send :: "(nat \<Rightarrow> message_t \<Rightarrow> bool) \<Rightarrow> session \<Rightarrow> EventContent \<Rightarrow> chubby_server \<Rightarrow> srv_error + chubby_server" where
  "srv_send takes sid arg s =
     (let xid = xid_send_counter s + 1;
          hdr = \<lparr>rm_xid = xid, rm_body = Rp_cbody \<lparr>cb_rpcvers = 2, cb_prog = event_program,
                  cb_vers = event_version, cb_proc = event_callback_proc, cb_cred = auth_none, cb_verf = auth_none\<rparr>\<rparr>;
          fd = map_at 0 (sessionid_to_fd_map s) sid;
          s = s\<lparr>xid_send_counter := xid, sessionid_to_fd_map := map_touch 0 (sessionid_to_fd_map s) sid\<rparr>
      in bindR (lift_msg (xdr_to_msg (c_pair xdr_rpc_msg xdr_EventContent) (hdr, arg))) (\<lambda>m.
         if takes fd m then Inr (s\<lparr>wire_out := wire_out s @ [Written fd m]\<rparr>) else Inl Srv_short_write))"

text \<open>The messages a procedure of the service has produced, in the order of its calls.\<close>

fun flush :: "(nat \<Rightarrow> message_t \<Rightarrow> bool) \<Rightarrow> outmsg list \<Rightarrow> chubby_server \<Rightarrow> srv_error + chubby_server" where
  "flush takes [] s = Inr s"
| "flush takes (Reply sid xid r # ms) s = bindR (srv_reply sid xid r s) (flush takes ms)"
| "flush takes (Event sid ev # ms) s = bindR (srv_send takes sid ev s) (flush takes ms)"

definition run_service ::
    "(nat \<Rightarrow> message_t \<Rightarrow> bool) \<Rightarrow> (api_state \<Rightarrow> api_error + api_state) \<Rightarrow> chubby_server \<Rightarrow> srv_error + chubby_server" where
  "run_service takes f s =
     bindR (lift_api (f (service s))) (\<lambda>a.
     flush takes (outbox a) (s\<lparr>service := a\<lparr>outbox := []\<rparr>\<rparr>))"

section \<open>Sessions\<close>

definition registerSession :: "nat \<Rightarrow> nat \<Rightarrow> string \<Rightarrow> chubby_server \<Rightarrow> session \<times> chubby_server" where
  "registerSession fd ms client_id s =
     (let sid = session_id_allocator s + 1
      in (sid, s\<lparr>session_id_allocator := sid,
         fd_to_sessionid_map := (fd_to_sessionid_map s)(fd \<mapsto> sid),
         sessionid_to_fd_map := (sessionid_to_fd_map s)(sid \<mapsto> fd),
         sessionid_to_msgsock_map := (sessionid_to_msgsock_map s)(sid \<mapsto> ms),
         sessionid_to_clientid_map := (sessionid_to_clientid_map s)(sid \<mapsto> client_id)\<rparr>))"

text \<open>\<open>accept_cb\<close> for a connection on \<open>fd\<close>; \<open>client_id\<close> is the address of the peer.\<close>

definition accept_cb :: "nat \<Rightarrow> string \<Rightarrow> chubby_server \<Rightarrow> chubby_server" where
  "accept_cb fd client_id s =
     snd (registerSession fd (next_sock s) client_id
       (s\<lparr>socks := insert (next_sock s) (socks s), next_sock := Suc (next_sock s)\<rparr>))"

text \<open>\<open>disconnect\<close> of every registered service, which is the lock service each time.\<close>

fun disconnect_services ::
    "api_env \<Rightarrow> (nat \<Rightarrow> message_t \<Rightarrow> bool) \<Rightarrow> nat \<Rightarrow> session \<Rightarrow> chubby_server \<Rightarrow> srv_error + chubby_server" where
  "disconnect_services env takes 0 sid s = Inr s"
| "disconnect_services env takes (Suc n) sid s =
     bindR (run_service takes (disconnect env sid) s) (disconnect_services env takes n sid)"

definition num_services :: "chubby_server \<Rightarrow> nat" where
  "num_services s = (\<Sum>(_, vs) \<leftarrow> cs_servers s. length vs)"

definition deregisterSession ::
    "api_env \<Rightarrow> (nat \<Rightarrow> message_t \<Rightarrow> bool) \<Rightarrow> session \<Rightarrow> chubby_server \<Rightarrow> srv_error + chubby_server" where
  "deregisterSession env takes sid s =
     (let fd = map_at 0 (sessionid_to_fd_map s) sid;
          s = s\<lparr>socks := (case sessionid_to_msgsock_map s sid of None \<Rightarrow> socks s | Some a \<Rightarrow> socks s - {a}),
                fd_to_sessionid_map := (fd_to_sessionid_map s)(fd := None),
                sessionid_to_fd_map := (sessionid_to_fd_map s)(sid := None),
                sessionid_to_msgsock_map := (sessionid_to_msgsock_map s)(sid := None),
                sessionid_to_clientid_map := (sessionid_to_clientid_map s)(sid := None)\<rparr>
      in disconnect_services env takes (num_services s) sid s)"

section \<open>Requests\<close>

definition asynchronized_process ::
    "api_env \<Rightarrow> (nat \<Rightarrow> message_t \<Rightarrow> bool) \<Rightarrow> u32 \<Rightarrow> u32 \<Rightarrow> rpc_msg \<Rightarrow> byte list \<Rightarrow> session \<Rightarrow> nat
      \<Rightarrow> chubby_server \<Rightarrow> srv_error + chubby_server" where
  "asynchronized_process env takes prog vers chdr g sid ms s =
     (case rm_body chdr of
        Rp_rbody _ \<Rightarrow> Inr s
      | Rp_cbody c \<Rightarrow>
          if cb_rpcvers c \<noteq> 2 \<or> cb_prog c \<noteq> prog \<or> cb_vers c \<noteq> vers then Inr s
          else (case call_dispatch (cb_proc c) g of
            None \<Rightarrow> put_hdr ms (accepted_hdr (rm_xid chdr) PROC_UNAVAIL) s
          | Some (Inl e) \<Rightarrow> Inl (Srv_throw e)
          | Some (Inr rq) \<Rightarrow> run_service takes (handle env rq sid (rm_xid chdr)) s))"

text \<open>A \<open>PROG_MISMATCH\<close> reply names the lowest and the highest version.\<close>

definition version_mismatch :: "rpc_msg \<Rightarrow> u32 list \<Rightarrow> rpc_msg" where
  "version_mismatch hdr vs = \<lparr>rm_xid = rm_xid hdr, rm_body = Rp_rbody (Rb_areply
     \<lparr>ac_verf = auth_none, ac_reply_data = Rd_mismatch \<lparr>mi_low = hd vs, mi_high = last vs\<rparr>\<rparr>)\<rparr>"

text \<open>\<open>xdr_get g(mp); archive(g, hdr);\<close> the header, and the bytes after it.\<close>

definition read_hdr :: "message_t \<Rightarrow> xdr_error + rpc_msg \<times> byte list" where
  "read_hdr mp = bindR (xdr_get_init mp) (c_load xdr_rpc_msg)"

definition asynchronized_dispatch ::
    "api_env \<Rightarrow> (nat \<Rightarrow> message_t \<Rightarrow> bool) \<Rightarrow> session \<Rightarrow> message_t \<Rightarrow> chubby_server \<Rightarrow> srv_error + chubby_server" where
  "asynchronized_dispatch env takes sid mp s =
     (case sessionid_to_msgsock_map s sid of
        None \<Rightarrow> Inr s
      | Some ms \<Rightarrow>
          bindR (lift_throw (read_hdr mp)) (\<lambda>(hdr, g).
          case rm_body hdr of
            Rp_rbody _ \<Rightarrow> Inl (Srv_throw Xdr_runtime_error)
          | Rp_cbody c \<Rightarrow>
              if cb_rpcvers c \<noteq> 2 then put_hdr ms (rpc_mkerr_reject hdr RPC_MISMATCH) s
              else (case map_of (cs_servers s) (cb_prog c) of
                None \<Rightarrow> put_hdr ms (rpc_mkerr_accept hdr PROG_UNAVAIL) s
              | Some vs \<Rightarrow>
                  if cb_vers c \<notin> set vs then put_hdr ms (version_mismatch hdr vs) s
                  else (case asynchronized_process env takes (cb_prog c) (cb_vers c) hdr g sid ms s of
                    Inl (Srv_throw e) \<Rightarrow> put_hdr ms (rpc_mkerr_accept hdr GARBAGE_ARGS) s
                  | r \<Rightarrow> r))))"

definition receive_cb ::
    "api_env \<Rightarrow> (nat \<Rightarrow> message_t \<Rightarrow> bool) \<Rightarrow> session \<Rightarrow> message_t option \<Rightarrow> chubby_server \<Rightarrow> srv_error + chubby_server" where
  "receive_cb env takes sid mp s = (case mp of
     None \<Rightarrow> deregisterSession env takes sid s
   | Some m \<Rightarrow> (case asynchronized_dispatch env takes sid m s of
       Inl (Srv_throw _) \<Rightarrow> deregisterSession env takes sid s
     | r \<Rightarrow> r))"

text \<open>What the poll set reports to the server.\<close>

datatype net_event = Accepted nat string | Received session "message_t option"

fun net_step :: "api_env \<Rightarrow> (nat \<Rightarrow> message_t \<Rightarrow> bool) \<Rightarrow> net_event \<Rightarrow> chubby_server \<Rightarrow> srv_error + chubby_server" where
  "net_step env takes (Accepted fd client_id) s = Inr (accept_cb fd client_id s)"
| "net_step env takes (Received sid mp) s = receive_cb env takes sid mp s"

fun net_run :: "api_env \<Rightarrow> (nat \<Rightarrow> message_t \<Rightarrow> bool) \<Rightarrow> net_event list \<Rightarrow> chubby_server \<Rightarrow> srv_error + chubby_server" where
  "net_run env takes [] s = Inr s"
| "net_run env takes (e # es) s = bindR (net_step env takes e s) (net_run env takes es)"

end
