(* ===== verification/Chubby_Dispatch_Properties.thy ===== *)
theory Chubby_Dispatch_Properties
  imports Chubby_Dispatch Chubby_Api_Properties
begin

text \<open>
  Properties of the RPC server: a well-formed request runs the procedure it names, every other
  message is answered with an error or ends its session, no byte outside a message is read, and no
  deleted socket is used for a session that is registered.
\<close>

section \<open>Reading a request\<close>


lemma srv_lift_simps [simp]:
  "lift_msg (Inr x) = Inr x" "lift_throw (Inr x) = Inr x" "lift_api (Inr x) = Inr x"
  "lift_msg (Inl e) = Inl (Srv_marshal e)" "lift_throw (Inl e) = Inl (Srv_throw e)" "lift_api (Inl b) = Inl (Srv_api b)"
  by (simp_all add: lift_msg_def lift_throw_def lift_api_def)

text \<open>The texts of a request are short enough for a message.\<close>

definition short :: "string \<Rightarrow> bool" where
  "short t \<longleftrightarrow> length t < 2 ^ 29"

fun request_ok :: "request \<Rightarrow> bool" where
  "request_ok (Rq_fileOpen a) = short (ao_name a)"
| "request_ok (Rq_setContents a) = (short (fh_file_name (as_fd a)) \<and> short (as_content a))"
| "request_ok (Rq_startSession a) = short a"
| "request_ok (Rq_fileReopen a) = short (fh_file_name (ar_fd a))"
| "request_ok (Rq_increment a) = True"
| "request_ok (Rq_decrement a) = True"
| "request_ok (Rq_fileClose a) = short (fh_file_name a)"
| "request_ok (Rq_fileDelete a) = short (fh_file_name a)"
| "request_ok (Rq_getContentsAndStat a) = short (fh_file_name a)"
| "request_ok (Rq_acquire a) = short (fh_file_name a)"
| "request_ok (Rq_tryAcquire a) = short (fh_file_name a)"
| "request_ok (Rq_release a) = short (fh_file_name a)"

text \<open>A header and a body in one message: the reader gets the header and the bytes of the body.\<close>

lemma pair_msg:
  assumes A: "xdr_codec A a" and B: "xdr_codec B b" and "a x" "b y" "c_size A x + c_size B y < 0x80000000"
  obtains m where "xdr_to_msg (c_pair A B) (x, y) = Inr m" "message_with (m_data m) = Inr m"
    "bindR (xdr_get_init m) (c_load A) = Inr (x, wire B y)"
    "c_load B (wire B y) = Inr (y, [])"
proof -
  have P: "xdr_codec (c_pair A B) (\<lambda>(x, y). a x \<and> b y)" by (rule codec_pair [OF A B])
  have size: "c_size (c_pair A B) (x, y) = c_size A x + c_size B y" by (simp add: c_pair_def)
  have w: "wire (c_pair A B) (x, y) = wire A x @ wire B y"
    using xdr_codec.save_wire [OF A assms(3), of "\<lparr>p_bytes = [], p_room = c_size A x + c_size B y\<rparr>"]
      xdr_codec.save_wire [OF B assms(4), of "advance (wire A x) \<lparr>p_bytes = [], p_room = c_size A x + c_size B y\<rparr>"]
      xdr_codec.wire_length [OF A assms(3)]
    unfolding wire_def [of "c_pair A B"] size by (simp add: c_pair_def)
  obtain m where m: "xdr_to_msg (c_pair A B) (x, y) = Inr m" "m_data m = wire A x @ wire B y"
    using xdr_codec.to_msg_ok [OF P, of "(x, y)"] assms(3-5) size w by auto
  have "length (m_data m) mod 4 = 0"
    using m(2) xdr_codec.wire_length [OF P, of "(x, y)"] xdr_codec.size_aligned [OF P, of "(x, y)"] assms(3,4) w by auto
  then have "bindR (xdr_get_init m) (c_load A) = Inr (x, wire B y)"
    using m(2) xdr_codec.load_wire [OF A assms(3)] by (simp add: xdr_get_init_def)
  moreover have "c_load B (wire B y) = Inr (y, [])" using xdr_codec.load_wire [OF B assms(4), of "[]"] by simp
  moreover have "message_with (m_data m) = Inr m"
    using m(1) by (auto simp: xdr_to_msg_def message_with_def)
  ultimately show thesis using that m(1) by blast
qed

lemma string_size: "c_size c_string s = (length s + 7) div 4 * 4"
  by (simp add: c_string_def c_bytes_def)

lemma pad_less: "(n + 7) div 4 * 4 \<le> n + (7 :: nat)"
  by (rule div_times_less_eq_dividend)

lemmas codec_sizes = xdr_ArgOpen_def xdr_FileHandler_def xdr_ArgSetContents_def xdr_ArgReopen_def
  xdr_RetBool_def xdr_RetFd_def xdr_RetContentsAndStat_def xdr_ContentsAndStat_def xdr_MetaData_def
  xdr_EventContent_def c_union_def c_struct_def c_pair_def c_u32_def c_u64_def c_bool_def c_void_def string_size

lemma call_hdr_ok: "rpc_msg_ok (call_hdr xid rq)" "c_size xdr_rpc_msg (call_hdr xid rq) = 40"
  by (simp_all add: call_hdr_def rpc_msg_ok_def rpc_body_ok_def call_body_ok_def opaque_auth_ok_def auth_none_def)
    (simp add: xdr_rpc_msg_def xdr_rpc_body_def xdr_call_body_def xdr_opaque_auth_def c_opaque_def c_bytes_def
      c_union_def c_struct_def c_pair_def c_u32_def mtype_def rpc_enum_defs)

definition readable :: "u32 \<Rightarrow> request \<Rightarrow> bool" where
  "readable xid rq \<longleftrightarrow> (\<exists>m g. request_msg (call_hdr xid rq) rq = Inr m \<and> message_with (m_data m) = Inr m
     \<and> read_hdr m = Inr (call_hdr xid rq, g)
     \<and> call_dispatch (request_proc rq) g = Some (Inr rq))"

lemma readableI:
  assumes B: "xdr_codec B b" "b y" "c_size B y < 0x70000000"
    and "request_msg (call_hdr xid rq) rq = xdr_to_msg (c_pair xdr_rpc_msg B) (call_hdr xid rq, y)"
    and "\<And>g. call_dispatch (request_proc rq) g = Some (get_arg B mk g)" and "mk y = rq"
  shows "readable xid rq"
proof -
  obtain m where "xdr_to_msg (c_pair xdr_rpc_msg B) (call_hdr xid rq, y) = Inr m" "message_with (m_data m) = Inr m"
    "read_hdr m = Inr (call_hdr xid rq, wire B y)" "c_load B (wire B y) = Inr (y, [])"
    by (rule pair_msg [OF codec_rpc_msg B(1) call_hdr_ok(1) B(2), of xid rq]) (use B(3) in \<open>simp_all add: call_hdr_ok read_hdr_def\<close>)
  with assms(4-6) show ?thesis by (auto simp: readable_def get_arg_def)
qed

lemma short_size: "short t \<Longrightarrow> (length t + 7) div 4 * 4 < 0x20000008"
  using pad_less [of "length t"] by (simp add: short_def)

lemma short_fits: "short t \<Longrightarrow> fits t"
  by (simp add: short_def fits_def)

lemma FileHandler_size: "short (fh_file_name h) \<Longrightarrow> c_size xdr_FileHandler h < 0x20001000"
  using short_size [of "fh_file_name h"] by (simp add: codec_sizes)

lemma readable_FileHandler:
  assumes "short (fh_file_name a)" "request_msg (call_hdr xid rq) rq = xdr_to_msg (c_pair xdr_rpc_msg xdr_FileHandler) (call_hdr xid rq, a)"
    and "\<And>g. call_dispatch (request_proc rq) g = Some (get_arg xdr_FileHandler mk g)" and "mk a = rq"
  shows "readable xid rq"
  using assms FileHandler_size [of a] by (intro readableI [OF codec_FileHandler, of a _ _ mk]) (simp_all add: short_fits)

lemma request_readable: "request_ok rq \<Longrightarrow> readable xid rq"
proof (cases rq)
  case (Rq_fileOpen a)
  moreover assume "request_ok rq"
  ultimately show ?thesis
    using short_size [of "ao_name a"]
    by (intro readableI [OF codec_ArgOpen, of a]) (simp_all add: short_fits call_dispatch_def codec_sizes)
next
  case (Rq_setContents a)
  moreover assume "request_ok rq"
  ultimately show ?thesis
    using short_size [of "as_content a"] FileHandler_size [of "as_fd a"]
    by (intro readableI [OF codec_ArgSetContents, of a])
      (simp_all add: short_fits call_dispatch_def xdr_ArgSetContents_def c_struct_def c_pair_def string_size)
next
  case (Rq_fileReopen a)
  moreover assume "request_ok rq"
  ultimately show ?thesis
    using FileHandler_size [of "ar_fd a"]
    by (intro readableI [OF codec_ArgReopen, of a])
      (simp_all add: short_fits call_dispatch_def xdr_ArgReopen_def c_struct_def c_pair_def c_u64_def)
next
  case (Rq_startSession a)
  moreover assume "request_ok rq"
  ultimately show ?thesis
    using short_size [of a]
    by (intro readableI [OF codec_string, of a])
      (simp_all add: short_fits [unfolded fits_def] call_dispatch_def string_size)
next
  case (Rq_increment a)
  then show ?thesis by (intro readableI [OF codec_u32, of a]) (simp_all add: call_dispatch_def c_u32_def)
next
  case (Rq_decrement a)
  then show ?thesis by (intro readableI [OF codec_u32, of a]) (simp_all add: call_dispatch_def c_u32_def)
qed (auto simp: call_dispatch_def intro: readable_FileHandler)

lemma put_hdr_ok:
  assumes "rpc_msg_ok hdr" "c_size xdr_rpc_msg hdr < 0x80000000" "a \<in> socks s"
  obtains m where "put_hdr a hdr s = Inr (s\<lparr>wire_out := wire_out s @ [Queued a m]\<rparr>)" "xdr_from_msg xdr_rpc_msg m = Inr hdr"
proof -
  have "bindR (xdr_to_msg xdr_rpc_msg hdr) (xdr_from_msg xdr_rpc_msg) = Inr hdr"
    by (rule rpcMsg.from_msg_to_msg [OF assms(1,2)])
  then obtain m where "xdr_to_msg xdr_rpc_msg hdr = Inr m" "xdr_from_msg xdr_rpc_msg m = Inr hdr" by auto
  with assms(3) that show thesis by (auto simp: put_hdr_def sock_put_def)
qed

lemma flush_no_throw: "flush takes ms s \<noteq> Inl (Srv_throw e)"
proof (induction takes ms s rule: flush.induct)
  case (2 takes sid xid r ms s)
  have "srv_reply sid xid r s \<noteq> Inl (Srv_throw e)"
    by (auto simp: srv_reply_def sock_put_def lift_msg_def bindR_eq_Inl split: option.splits sum.splits)
  with 2 show ?case by (cases "srv_reply sid xid r s") auto
next
  case (3 takes sid ev ms s)
  have "srv_send takes sid ev s \<noteq> Inl (Srv_throw e)"
    by (auto simp: srv_send_def Let_def lift_msg_def bindR_eq_Inl split: sum.splits if_splits)
  with 3 show ?case by (cases "srv_send takes sid ev s") auto
qed simp

lemma run_service_no_throw: "run_service takes f s \<noteq> Inl (Srv_throw e)"
  using flush_no_throw by (cases "f (service s)") (auto simp: run_service_def)

definition listening :: "session \<Rightarrow> nat \<Rightarrow> chubby_server \<Rightarrow> bool" where
  "listening sid a s \<longleftrightarrow> sessionid_to_msgsock_map s sid = Some a \<and> a \<in> socks s"

definition serves_api :: "chubby_server \<Rightarrow> bool" where
  "serves_api s \<longleftrightarrow> (\<exists>vs. map_of (cs_servers s) api_program = Some vs \<and> api_version \<in> set vs)"

lemma request_runs_handler:
  assumes "request_ok rq" and "serves_api s" and "listening sid a s"
  shows "\<exists>m. request_msg (call_hdr xid rq) rq = Inr m \<and> message_with (m_data m) = Inr m
    \<and> receive_cb env takes sid (Some m) s = run_service takes (handle env rq sid xid) s"
proof -
  obtain m g where m: "request_msg (call_hdr xid rq) rq = Inr m" "message_with (m_data m) = Inr m"
    "read_hdr m = Inr (call_hdr xid rq, g)" "call_dispatch (request_proc rq) g = Some (Inr rq)"
    using request_readable [OF assms(1)] unfolding readable_def by blast
  obtain vs where vs: "map_of (cs_servers s) api_program = Some vs" "api_version \<in> set vs"
    using assms(2) by (auto simp: serves_api_def)
  have h: "rm_body (call_hdr xid rq) = Rp_cbody \<lparr>cb_rpcvers = 2, cb_prog = api_program,
     cb_vers = api_version, cb_proc = request_proc rq, cb_cred = auth_none, cb_verf = auth_none\<rparr>"
    "rm_xid (call_hdr xid rq) = xid" by (simp_all add: call_hdr_def)
  have "asynchronized_process env takes api_program api_version (call_hdr xid rq) g sid a s
      = run_service takes (handle env rq sid xid) s"
    using m(4) by (simp add: asynchronized_process_def h)
  moreover have "asynchronized_dispatch env takes sid m s = run_service takes (handle env rq sid xid) s"
    using assms(3) m(3) vs calculation run_service_no_throw
    by (auto simp: asynchronized_dispatch_def listening_def h split: sum.splits srv_error.splits)
  ultimately show ?thesis
    using m(1,2) run_service_no_throw by (auto simp: receive_cb_def split: sum.splits srv_error.splits)
qed


lemma hdr_size_bits: "c_size xdr_opaque_auth auth_none = 8"
  by (simp add: xdr_opaque_auth_def auth_none_def c_opaque_def c_bytes_def c_struct_def c_pair_def c_u32_def)

lemma accepted_size: "c_size xdr_rpc_msg \<lparr>rm_xid = xid, rm_body = Rp_rbody (Rb_areply
     \<lparr>ac_verf = auth_none, ac_reply_data = d\<rparr>)\<rparr> < 0x1000"
  by (cases d) (simp_all add: xdr_rpc_msg_def xdr_rpc_body_def xdr_reply_body_def xdr_accepted_reply_def
    xdr_reply_data_def xdr_mismatch_info_def hdr_size_bits c_union_def c_struct_def c_pair_def c_u32_def c_void_def
    mtype_def rb_disc_def rd_disc_def rpc_enum_defs)

lemma accepted_ok: "rpc_msg_ok \<lparr>rm_xid = xid, rm_body = Rp_rbody (Rb_areply
     \<lparr>ac_verf = auth_none, ac_reply_data = Rd_mismatch i\<rparr>)\<rparr>"
  by (simp add: rpc_msg_ok_def rpc_body_ok_def reply_body_ok_def accepted_reply_ok_def reply_data_ok_def
      opaque_auth_ok_def auth_none_def)

lemma reject_size: "c_size xdr_rpc_msg (rpc_mkerr_reject h RPC_MISMATCH) < 0x1000"
  by (simp add: rpc_mkerr_reject_def xdr_rpc_msg_def xdr_rpc_body_def xdr_reply_body_def xdr_rejected_reply_def
    xdr_mismatch_info_def c_union_def c_struct_def c_pair_def c_u32_def mtype_def rb_disc_def rj_disc_def rpc_enum_defs)

text \<open>The replies that report an error carry the number of the call and are refused by the client.\<close>

definition error_reply :: "u32 \<Rightarrow> message_t \<Rightarrow> bool" where
  "error_reply xid m \<longleftrightarrow> (\<exists>hdr. xdr_from_msg xdr_rpc_msg m = Inr hdr \<and> rm_xid hdr = xid \<and> check_call_hdr hdr \<noteq> Inr ())"

lemma error_replyI:
  assumes "rpc_msg_ok hdr" "c_size xdr_rpc_msg hdr < 0x1000" "a \<in> socks s" "rm_xid hdr = xid" "check_call_hdr hdr \<noteq> Inr ()"
  shows "\<exists>m. put_hdr a hdr s = Inr (s\<lparr>wire_out := wire_out s @ [Queued a m]\<rparr>) \<and> error_reply xid m"
proof -
  have "c_size xdr_rpc_msg hdr < 0x80000000" using assms(2) by linarith
  then obtain m where "put_hdr a hdr s = Inr (s\<lparr>wire_out := wire_out s @ [Queued a m]\<rparr>)" "xdr_from_msg xdr_rpc_msg m = Inr hdr"
    by (rule put_hdr_ok [OF assms(1) _ assms(3)])
  then show ?thesis using assms(4,5) by (auto simp: error_reply_def)
qed

lemma accept_error:
  assumes "a \<in> socks s" "stat \<noteq> SUCCESS"
  shows "\<exists>m. put_hdr a (accepted_hdr xid stat) s = Inr (s\<lparr>wire_out := wire_out s @ [Queued a m]\<rparr>) \<and> error_reply xid m"
  by (rule error_replyI [OF accepted_hdr_ok _ assms(1)])
    (use assms(2) check_accepted_hdr [of xid stat] accepted_size [of xid] in \<open>simp_all add: accepted_hdr_def\<close>)

lemma mismatch_error:
  assumes "a \<in> socks s"
  shows "\<exists>m. put_hdr a (version_mismatch hdr vs) s = Inr (s\<lparr>wire_out := wire_out s @ [Queued a m]\<rparr>) \<and> error_reply (rm_xid hdr) m"
  by (rule error_replyI [OF _ _ assms])
    (simp_all add: version_mismatch_def accepted_ok accepted_size check_call_hdr_def rd_disc_def rpc_enum_defs)

lemma reject_error:
  assumes "a \<in> socks s"
  shows "\<exists>m. put_hdr a (rpc_mkerr_reject hdr RPC_MISMATCH) s = Inr (s\<lparr>wire_out := wire_out s @ [Queued a m]\<rparr>) \<and> error_reply (rm_xid hdr) m"
  by (rule error_replyI [OF rpc_mkerr_ok(2) reject_size assms])
    (simp_all add: rpc_mkerr_reject_def check_call_hdr_def)

lemma get_arg_bounds:
  assumes "xdr_codec A ok" "4 dvd length g"
  shows "get_arg A mk g \<noteq> Inl Xdr_out_of_bounds"
  using xdr_codec.load_bounds [OF assms] by (auto simp: get_arg_def bindR_eq_Inl split: prod.splits)

lemma call_dispatch_bounds: "4 dvd length g \<Longrightarrow> call_dispatch proc g \<noteq> Some (Inl Xdr_out_of_bounds)"
  using get_arg_bounds codec_ArgOpen codec_FileHandler codec_ArgSetContents codec_ArgReopen codec_string codec_u32
  by (auto simp: call_dispatch_def dest!: get_arg_bounds [THEN notE, rotated 2])

definition reads_in_bounds :: "message_t \<Rightarrow> bool" where
  "reads_in_bounds m \<longleftrightarrow> read_hdr m \<noteq> Inl Xdr_out_of_bounds
     \<and> (\<forall>hdr g proc. read_hdr m = Inr (hdr, g) \<longrightarrow> call_dispatch proc g \<noteq> Some (Inl Xdr_out_of_bounds))"

lemma all_reads_in_bounds: "reads_in_bounds m"
proof -
  have "4 dvd length g \<and> c_load xdr_rpc_msg g \<noteq> Inl Xdr_out_of_bounds" if "xdr_get_init m = Inr g" for g
    using that rpcMsg.load_bounds [of g] by (auto simp: xdr_get_init_def)
  moreover have "xdr_get_init m \<noteq> Inl Xdr_out_of_bounds" by (auto simp: xdr_get_init_def bindR_eq_Inl)
  moreover have "4 dvd length g'" if "c_load xdr_rpc_msg g = Inr (hdr, g')" "4 dvd length g" for g g' hdr
    using rpcMsg.load_suffix [OF that(1)] that(2) by simp
  ultimately show ?thesis
    using call_dispatch_bounds by (auto simp: reads_in_bounds_def read_hdr_def bindR_eq_Inl)
qed

lemma message_outcome:
  assumes "listening sid a s"
  shows "receive_cb env takes sid (Some m) s = deregisterSession env takes sid s
    \<or> (\<exists>hdr g m'. read_hdr m = Inr (hdr, g) \<and> error_reply (rm_xid hdr) m'
         \<and> receive_cb env takes sid (Some m) s = Inr (s\<lparr>wire_out := wire_out s @ [Queued a m']\<rparr>))
    \<or> (\<exists>hdr g c rq. read_hdr m = Inr (hdr, g) \<and> rm_body hdr = Rp_cbody c
         \<and> call_dispatch (cb_proc c) g = Some (Inr rq)
         \<and> receive_cb env takes sid (Some m) s = run_service takes (handle env rq sid (rm_xid hdr)) s)"
proof (cases "read_hdr m")
  case (Inl e)
  then show ?thesis using assms by (simp add: receive_cb_def asynchronized_dispatch_def listening_def)
next
  case (Inr x)
  obtain hdr g where x: "x = (hdr, g)" by (cases x)
  have a: "sessionid_to_msgsock_map s sid = Some a" "a \<in> socks s" using assms by (simp_all add: listening_def)
  show ?thesis
  proof (cases "rm_body hdr")
    case (Rp_rbody b)
    then show ?thesis using Inr x a by (simp add: receive_cb_def asynchronized_dispatch_def)
  next
    case (Rp_cbody c)
    note D = receive_cb_def asynchronized_dispatch_def a(1) Inr x Rp_cbody
    consider "cb_rpcvers c \<noteq> 2" | "cb_rpcvers c = 2" "map_of (cs_servers s) (cb_prog c) = None"
      | vs where "cb_rpcvers c = 2" "map_of (cs_servers s) (cb_prog c) = Some vs" "cb_vers c \<notin> set vs"
      | vs where "cb_rpcvers c = 2" "map_of (cs_servers s) (cb_prog c) = Some vs" "cb_vers c \<in> set vs" by blast
    then show ?thesis
    proof cases
      case 1
      then show ?thesis using reject_error [OF a(2), of hdr] Inr x by (auto simp: D)
    next
      case 2
      then show ?thesis using accept_error [OF a(2), of PROG_UNAVAIL "rm_xid hdr"] Inr x
        by (auto simp: D rpc_mkerr_accept_def rpc_enum_defs)
    next
      case (3 vs)
      then show ?thesis using mismatch_error [OF a(2), of hdr vs] Inr x by (auto simp: D)
    next
      case (4 vs)
      show ?thesis
      proof (cases "call_dispatch (cb_proc c) g")
        case None
        then show ?thesis using 4 accept_error [OF a(2), of PROC_UNAVAIL "rm_xid hdr"] Inr x
          by (auto simp: D asynchronized_process_def rpc_enum_defs)
      next
        case (Some y)
        show ?thesis
        proof (cases y)
          case (Inl e)
          then show ?thesis using 4 Some accept_error [OF a(2), of GARBAGE_ARGS "rm_xid hdr"] Inr x
            by (auto simp: D asynchronized_process_def rpc_mkerr_accept_def rpc_enum_defs)
        next
          case ok: (Inr rq)
          have "asynchronized_dispatch env takes sid m s = run_service takes (handle env rq sid (rm_xid hdr)) s"
            using 4 Some ok run_service_no_throw by (auto simp: D asynchronized_process_def split: sum.splits srv_error.splits)
          then have "receive_cb env takes sid (Some m) s = run_service takes (handle env rq sid (rm_xid hdr)) s"
            using run_service_no_throw by (auto simp: receive_cb_def split: sum.splits srv_error.splits)
          then show ?thesis using Inr x Rp_cbody Some ok by blast
        qed
      qed
    qed
  qed
qed


section \<open>Sessions\<close>

definition sessions_ok :: "chubby_server \<Rightarrow> bool" where
  "sessions_ok s \<longleftrightarrow> ran (sessionid_to_msgsock_map s) \<subseteq> socks s \<and> socks s \<subseteq> {..<next_sock s}
     \<and> (\<forall>sid sid' a. sessionid_to_msgsock_map s sid = Some a \<and> sessionid_to_msgsock_map s sid' = Some a \<longrightarrow> sid = sid')"

definition same_sessions :: "chubby_server \<Rightarrow> chubby_server \<Rightarrow> bool" where
  "same_sessions s s' \<longleftrightarrow> sessionid_to_msgsock_map s' = sessionid_to_msgsock_map s \<and> socks s' = socks s \<and> next_sock s' = next_sock s"

lemma same_sessions_ok: "same_sessions s s' \<Longrightarrow> sessions_ok s \<Longrightarrow> sessions_ok s'"
  by (simp add: same_sessions_def sessions_ok_def)

lemma same_sessions_trans: "same_sessions s s' \<Longrightarrow> same_sessions s' s'' \<Longrightarrow> same_sessions s s''" "same_sessions s s"
  by (auto simp: same_sessions_def)

lemma srv_reply_same: "srv_reply sid xid r s = Inr s' \<Longrightarrow> same_sessions s s'"
  by (auto simp: srv_reply_def sock_put_def same_sessions_def lift_msg_def split: if_splits option.splits sum.splits)

lemma srv_send_same: "srv_send takes sid ev s = Inr s' \<Longrightarrow> same_sessions s s'"
  by (auto simp: srv_send_def Let_def same_sessions_def lift_msg_def split: if_splits sum.splits)

lemma put_hdr_same: "put_hdr a hdr s = Inr s' \<Longrightarrow> same_sessions s s'"
  by (auto simp: put_hdr_def sock_put_def same_sessions_def lift_msg_def split: if_splits option.splits sum.splits)

lemma flush_same: "flush takes ms s = Inr s' \<Longrightarrow> same_sessions s s'"
proof (induction takes ms s rule: flush.induct)
  case (2 takes sid xid r ms s)
  then obtain s1 where "srv_reply sid xid r s = Inr s1" "flush takes ms s1 = Inr s'" by auto
  with 2 srv_reply_same same_sessions_trans(1) show ?case by blast
next
  case (3 takes sid ev ms s)
  then obtain s1 where "srv_send takes sid ev s = Inr s1" "flush takes ms s1 = Inr s'" by auto
  with 3 srv_send_same same_sessions_trans(1) show ?case by blast
qed (simp add: same_sessions_trans)

lemma run_service_same: "run_service takes f s = Inr s' \<Longrightarrow> same_sessions s s'"
  using flush_same by (cases "f (service s)") (fastforce simp: run_service_def same_sessions_def)+

lemma disconnect_services_same: "disconnect_services env takes n sid s = Inr s' \<Longrightarrow> same_sessions s s'"
  by (induction n arbitrary: s) (auto dest!: run_service_same intro: same_sessions_trans)

lemma deregister_ok:
  assumes "sessions_ok s" "deregisterSession env takes sid s = Inr s'"
  shows "sessions_ok s'"
proof -
  let ?s = "s\<lparr>socks := (case sessionid_to_msgsock_map s sid of None \<Rightarrow> socks s | Some a \<Rightarrow> socks s - {a}),
    sessionid_to_msgsock_map := (sessionid_to_msgsock_map s)(sid := None)\<rparr>"
  have "b \<noteq> a" if "sessionid_to_msgsock_map s sid = Some a" "sessionid_to_msgsock_map s sid' = Some b" "sid' \<noteq> sid" for a b sid'
    using assms(1) that by (auto simp: sessions_ok_def)
  then have "sessions_ok ?s"
    using assms(1) by (auto simp: sessions_ok_def ran_def split: option.splits if_splits)
  moreover have "same_sessions ?s s'"
    using assms(2) unfolding deregisterSession_def Let_def by (drule_tac disconnect_services_same) (simp add: same_sessions_def)
  ultimately show ?thesis using same_sessions_ok by blast
qed

lemma accept_ok:
  assumes "sessions_ok s"
  shows "sessions_ok (accept_cb fd c s)"
proof -
  have "sessionid_to_msgsock_map s sid \<noteq> Some (next_sock s)" for sid
    using assms by (force simp: sessions_ok_def ran_def)
  then show ?thesis
    using assms by (force simp: sessions_ok_def accept_cb_def registerSession_def Let_def ran_def)
qed

lemma process_same: "asynchronized_process env takes p v hdr g sid a s = Inr s' \<Longrightarrow> same_sessions s s'"
  by (auto simp: asynchronized_process_def same_sessions_trans
      dest: put_hdr_same run_service_same split: option.splits rpc_body.splits if_splits sum.splits)

lemma dispatch_same:
  assumes "asynchronized_dispatch env takes sid m s = Inr s'"
  shows "same_sessions s s'"
proof (cases "sessionid_to_msgsock_map s sid")
  case None
  with assms show ?thesis by (simp add: asynchronized_dispatch_def same_sessions_trans)
next
  case (Some a)
  with assms obtain hdr g where h: "read_hdr m = Inr (hdr, g)"
    by (auto simp: asynchronized_dispatch_def lift_throw_def split: sum.splits)
  with assms Some obtain c where c: "rm_body hdr = Rp_cbody c"
    by (auto simp: asynchronized_dispatch_def split: rpc_body.splits)
  show ?thesis
    using assms unfolding asynchronized_dispatch_def Some h option.case srv_lift_simps bindR_simps prod.case c rpc_body.case
    by (auto dest: put_hdr_same process_same split: option.splits if_splits sum.splits srv_error.splits)
qed

lemma net_step_ok: "sessions_ok s \<Longrightarrow> net_step env takes e s = Inr s' \<Longrightarrow> sessions_ok s'"
proof (cases e)
  case (Accepted fd c)
  moreover assume "sessions_ok s" "net_step env takes e s = Inr s'"
  ultimately show ?thesis using accept_ok by auto
next
  case (Received sid mp)
  moreover assume "sessions_ok s" "net_step env takes e s = Inr s'"
  ultimately show ?thesis
    by (auto simp: receive_cb_def split: option.splits sum.splits srv_error.splits
        dest: deregister_ok dispatch_same same_sessions_ok)
qed

lemma net_run_ok: "sessions_ok s \<Longrightarrow> net_run env takes es s = Inr s' \<Longrightarrow> sessions_ok s'"
  by (induction es arbitrary: s) (auto dest: net_step_ok)

definition start_server :: "api_state \<Rightarrow> chubby_server" where
  "start_server a = register_service api_program api_version (new_chubby_server a)"

lemma start_server_ok: "sessions_ok (start_server a)" "cs_servers (start_server a) = [(api_program, [api_version])]"
  by (simp_all add: start_server_def register_service_def new_chubby_server_def sessions_ok_def)

section \<open>Properties\<close>


definition sample_srv :: chubby_server where
  "sample_srv = accept_cb 5 ''10.0.0.7:4711'' (start_server (new_api_state create 3))"

lemma sample_srv_listens: "listening 1 0 sample_srv" "serves_api sample_srv" "sessions_ok sample_srv"
    "cs_servers sample_srv = [(api_program, [api_version])]"
proof -
  show "sessions_ok sample_srv" unfolding sample_srv_def by (rule accept_ok [OF start_server_ok(1)])
  show "listening 1 0 sample_srv"
    by (simp add: sample_srv_def listening_def accept_cb_def registerSession_def start_server_def
        register_service_def new_chubby_server_def)
  show "cs_servers sample_srv = [(api_program, [api_version])]"
    using start_server_ok(2) by (simp add: sample_srv_def accept_cb_def registerSession_def Let_def)
  then show "serves_api sample_srv" by (simp add: serves_api_def)
qed

text \<open>C18: Every message that arrives on the socket of a session, whatever its bytes, has one of three
  outcomes: the session is closed, a reply with the number of the call reports an error and nothing
  else changes, or the procedure that the header names runs with an argument that takes up the rest
  of the message. No byte outside the message is read.\<close>

theorem every_message_answered:
  assumes "listening sid a s"
  shows "reads_in_bounds m
    \<and> (receive_cb env takes sid (Some m) s = deregisterSession env takes sid s
    \<or> (\<exists>hdr g m'. read_hdr m = Inr (hdr, g) \<and> error_reply (rm_xid hdr) m'
         \<and> receive_cb env takes sid (Some m) s = Inr (s\<lparr>wire_out := wire_out s @ [Queued a m']\<rparr>))
    \<or> (\<exists>hdr g c rq. read_hdr m = Inr (hdr, g) \<and> rm_body hdr = Rp_cbody c
         \<and> call_dispatch (cb_proc c) g = Some (Inr rq)
         \<and> receive_cb env takes sid (Some m) s = run_service takes (handle env rq sid (rm_xid hdr)) s))"
  using all_reads_in_bounds message_outcome [OF assms, of env takes m] by blast

theorem every_message_answered_witness:
  "reads_in_bounds \<lparr>m_len = [], m_data = ''some random text''\<rparr>
    \<and> (receive_cb sample_env (\<lambda>_ _. True) 1 (Some \<lparr>m_len = [], m_data = ''some random text''\<rparr>) sample_srv
         = deregisterSession sample_env (\<lambda>_ _. True) 1 sample_srv
    \<or> (\<exists>hdr g m'. read_hdr \<lparr>m_len = [], m_data = ''some random text''\<rparr> = Inr (hdr, g) \<and> error_reply (rm_xid hdr) m'
         \<and> receive_cb sample_env (\<lambda>_ _. True) 1 (Some \<lparr>m_len = [], m_data = ''some random text''\<rparr>) sample_srv
             = Inr (sample_srv\<lparr>wire_out := wire_out sample_srv @ [Queued 0 m']\<rparr>))
    \<or> (\<exists>hdr g c rq. read_hdr \<lparr>m_len = [], m_data = ''some random text''\<rparr> = Inr (hdr, g) \<and> rm_body hdr = Rp_cbody c
         \<and> call_dispatch (cb_proc c) g = Some (Inr rq)
         \<and> receive_cb sample_env (\<lambda>_ _. True) 1 (Some \<lparr>m_len = [], m_data = ''some random text''\<rparr>) sample_srv
             = run_service (\<lambda>_ _. True) (handle sample_env rq 1 (rm_xid hdr)) sample_srv))"
  by (rule every_message_answered [OF sample_srv_listens(1)])

text \<open>C39: After any sequence of connections, messages and disconnections, every registered session has
  a socket of its own that has not been deleted, so that a reply to it never uses a null or deleted
  socket.\<close>

theorem sockets_alive:
  assumes "net_run env takes es (start_server a) = Inr s"
  shows "sessions_ok s \<and> (sid \<in> dom (sessionid_to_msgsock_map s) \<longrightarrow> srv_reply sid xid r s \<noteq> Inl Srv_socket)"
proof -
  have s: "sessions_ok s" using net_run_ok start_server_ok(1) assms by blast
  moreover have "srv_reply sid xid r s \<noteq> Inl Srv_socket" if "sid \<in> dom (sessionid_to_msgsock_map s)"
    using that s by (auto simp: srv_reply_def sock_put_def sessions_ok_def ran_def lift_msg_def bindR_eq_Inl
      split: option.splits sum.splits)
  ultimately show ?thesis by blast
qed

theorem sockets_alive_witness:
  "\<exists>s. net_run sample_env (\<lambda>_ _. True) [Accepted 5 ''10.0.0.7:4711''] (start_server (new_api_state create 3)) = Inr s
    \<and> sessions_ok s \<and> srv_reply 1 7 (ret_val True) s \<noteq> Inl Srv_socket"
proof -
  have r: "net_run sample_env (\<lambda>_ _. True) [Accepted 5 ''10.0.0.7:4711''] (start_server (new_api_state create 3)) = Inr sample_srv"
    by (simp add: sample_srv_def)
  moreover have "1 \<in> dom (sessionid_to_msgsock_map sample_srv)" using sample_srv_listens(1) by (auto simp: listening_def)
  ultimately show ?thesis using sockets_alive [OF r, of 1 7 "ret_val True"] by blast
qed

text \<open>An event that the end of a session causes for the session itself is written to descriptor 0.\<close>

abbreviation event_hdr :: "u32 \<Rightarrow> rpc_msg" where
  "event_hdr xid \<equiv> \<lparr>rm_xid = xid, rm_body = Rp_cbody \<lparr>cb_rpcvers = 2, cb_prog = event_program,
     cb_vers = event_version, cb_proc = event_callback_proc, cb_cred = auth_none, cb_verf = auth_none\<rparr>\<rparr>"

lemma event_msg:
  assumes "short (ev_fname ev)"
  shows "\<exists>m g. xdr_to_msg (c_pair xdr_rpc_msg xdr_EventContent) (event_hdr xid, ev) = Inr m \<and> read_hdr m = Inr (event_hdr xid, g)"
proof -
  have h: "rpc_msg_ok (event_hdr xid)" "c_size xdr_rpc_msg (event_hdr xid) = 40"
    by (simp_all add: rpc_msg_ok_def rpc_body_ok_def call_body_ok_def opaque_auth_ok_def auth_none_def)
      (simp add: xdr_rpc_msg_def xdr_rpc_body_def xdr_call_body_def xdr_opaque_auth_def c_opaque_def c_bytes_def
        c_union_def c_struct_def c_pair_def c_u32_def mtype_def rpc_enum_defs)
  obtain m where "xdr_to_msg (c_pair xdr_rpc_msg xdr_EventContent) (event_hdr xid, ev) = Inr m"
    "bindR (xdr_get_init m) (c_load xdr_rpc_msg) = Inr (event_hdr xid, wire xdr_EventContent ev)"
    by (rule pair_msg [OF codec_rpc_msg codec_EventContent h(1) short_fits [OF assms]])
      (use h(2) short_size [OF assms] in \<open>simp_all add: codec_sizes\<close>)
  then show ?thesis by (auto simp: read_hdr_def)
qed

lemma event_to_closed_session:
  assumes "cs_servers s = [(p, [v])]" "disconnect env sid (service s) = Inr a" "outbox a = [Event sid ev]"
    and "short (ev_fname ev)" "\<forall>fd m. takes fd m"
  shows "\<exists>s' m. deregisterSession env takes sid s = Inr s' \<and> wire_out s' = wire_out s @ [Written 0 m]"
proof -
  obtain m where m: "xdr_to_msg (c_pair xdr_rpc_msg xdr_EventContent) (event_hdr (xid_send_counter s + 1), ev) = Inr m"
    using event_msg [OF assms(4)] by blast
  then show ?thesis using assms(1,2,3,5)
    by (simp add: deregisterSession_def num_services_def run_service_def srv_send_def)
qed

definition lock_and_leave :: "FileHandler \<Rightarrow> server_event list" where
  "lock_and_leave fh = [Request 1 10 (Rq_startSession ''c1''),
     Request 1 11 (Rq_fileOpen \<lparr>ao_name = ''/f'', ao_mode = 0x108\<rparr>),
     Request 1 12 (Rq_acquire fh)]"

text \<open>A session that has asked for the events of a lock and holds it when it ends: the server, which
  has already forgotten the session, writes the event to descriptor 0.\<close>

theorem event_to_descriptor_zero:
  "\<exists>a s s' m. server_run sample_env (lock_and_leave (signed_fd sample_env 3 ''/f'' 1 False)) (new_api_state create 3) = Inr a
    \<and> s = sample_srv\<lparr>service := a\<lparr>outbox := []\<rparr>\<rparr>
    \<and> deregisterSession sample_env (\<lambda>_ _. True) 1 s = Inr s' \<and> wire_out s' = wire_out s @ [Written 0 m]"
proof -
  obtain a where a: "server_run sample_env (lock_and_leave (signed_fd sample_env 3 ''/f'' 1 False)) (new_api_state create 3) = Inr a"
    "\<exists>b. disconnect sample_env 1 (a\<lparr>outbox := []\<rparr>) = Inr b \<and> outbox b = [Event 1 \<lparr>ev_event = LOCK_CHANGED, ev_fname = ''/f''\<rparr>]"
    by (simp add: lock_and_leave_def api_eval close_fd_def clear_queue_def clear_events_def map_remove_def)
  then obtain b where "disconnect sample_env 1 (a\<lparr>outbox := []\<rparr>) = Inr b"
    "outbox b = [Event 1 \<lparr>ev_event = LOCK_CHANGED, ev_fname = ''/f''\<rparr>]" by blast
  with event_to_closed_session [of "sample_srv\<lparr>service := a\<lparr>outbox := []\<rparr>\<rparr>" api_program api_version sample_env 1 b
      "\<lparr>ev_event = LOCK_CHANGED, ev_fname = ''/f''\<rparr>" "\<lambda>_ _. True"] sample_srv_listens(4) a(1)
  show ?thesis by (simp add: short_def)
qed

end
