(* ===== verification/Sync_Server.thy ===== *)
theory Sync_Server
  imports Chubby_Dispatch Paxos_Replica
begin

text \<open>
  The RPC between replicas: \<open>rpc_server_base::dispatch\<close>, \<open>synchronous_server\<close> and
  \<open>rpc_tcp_listener::receive_cb\<close> (\<open>src/xdrpp/xdrpp/server.h\<close>, \<open>server.cc\<close>) with the procedures of
  the interface \<open>paxos_v1\<close> (\<open>src/paxos/paxos.hh\<close>), and the blocking client
  \<open>synchronous_client_base\<close> (\<open>srpc.h\<close>). The procedures themselves are those of \<open>Paxos_Replica\<close>.
\<close>

section \<open>Services\<close>

text \<open>
  How a call ends otherwise than with a reply: an \<open>xdr_runtime_error\<close>, a failed assertion or
  exception of a procedure that is not caught, a reply that can not be marshaled, and the result
  of a function that ends without a \<open>return\<close>.
\<close>

datatype sync_error = Sync_throw xdr_error | Sync_stop px_error | Sync_marshal xdr_error | Sync_no_result

definition sync_throw :: "xdr_error + 'a \<Rightarrow> sync_error + 'a" where
  "sync_throw r = (case r of Inl e \<Rightarrow> Inl (Sync_throw e) | Inr x \<Rightarrow> Inr x)"

definition sync_msg :: "xdr_error + 'a \<Rightarrow> sync_error + 'a" where
  "sync_msg r = (case r of Inl e \<Rightarrow> Inl (Sync_marshal e) | Inr x \<Rightarrow> Inr x)"

text \<open>
  \<open>synchronous_server::dispatch\<close> for a procedure with the argument codec \<open>A\<close>, the result codec \<open>R\<close>
  and the body \<open>f\<close>: the argument must take up the rest of the message.
\<close>

definition sync_proc ::
    "'a codec \<Rightarrow> 'r codec \<Rightarrow> ('a \<Rightarrow> 's \<Rightarrow> sync_error + 'r \<times> 's) \<Rightarrow> byte list \<Rightarrow> rpc_msg \<Rightarrow> 's \<Rightarrow> sync_error + message_t \<times> 's" where
  "sync_proc A R f g rhdr s =
     bindR (sync_throw (c_load A g)) (\<lambda>(arg, g).
     bindR (assertR (Sync_throw Xdr_bad_message_size) (g = [])) (\<lambda>_.
     bindR (f arg s) (\<lambda>(res, s).
     bindR (sync_msg (xdr_to_msg (c_pair xdr_rpc_msg R) (rhdr, res))) (\<lambda>ret. Inr (ret, s)))))"

text \<open>
  A service: its numbers, and \<open>interface::call_dispatch\<close>, with \<open>None\<close> for the result false.
\<close>

record 's service =
  sv_prog :: u32
  sv_vers :: u32
  sv_call :: "u32 \<Rightarrow> (byte list \<Rightarrow> rpc_msg \<Rightarrow> 's \<Rightarrow> sync_error + message_t \<times> 's) option"

text \<open>\<open>synchronous_server::process\<close>; \<open>None\<close> is the null pointer.\<close>

definition process :: "'s service \<Rightarrow> rpc_msg \<Rightarrow> byte list \<Rightarrow> 's \<Rightarrow> sync_error + message_t option \<times> 's" where
  "process sv chdr g s = (case rm_body chdr of
     Rp_rbody _ \<Rightarrow> Inr (None, s)
   | Rp_cbody c \<Rightarrow>
       if cb_rpcvers c \<noteq> 2 \<or> cb_prog c \<noteq> sv_prog sv \<or> cb_vers c \<noteq> sv_vers sv then Inr (None, s)
       else (case sv_call sv (cb_proc c) of
         None \<Rightarrow> bindR (sync_msg (xdr_to_msg xdr_rpc_msg (accepted_hdr (rm_xid chdr) PROC_UNAVAIL))) (\<lambda>m. Inr (Some m, s))
       | Some f \<Rightarrow> bindR (f g (accepted_hdr (rm_xid chdr) SUCCESS) s) (\<lambda>(m, s). Inr (Some m, s))))"

section \<open>Dispatch\<close>

text \<open>\<open>servers_[s->prog_][s->vers_].reset(s)\<close>: programs and, inside, versions in ascending order.\<close>

type_synonym 's servers = "(u32 \<times> (u32 \<times> 's service) list) list"

fun put_sorted :: "u32 \<Rightarrow> 'a \<Rightarrow> (u32 \<times> 'a) list \<Rightarrow> (u32 \<times> 'a) list" where
  "put_sorted k v [] = [(k, v)]"
| "put_sorted k v ((k', v') # xs) =
     (if k < k' then (k, v) # (k', v') # xs else if k = k' then (k, v) # xs else (k', v') # put_sorted k v xs)"

definition register_service_base :: "'s service \<Rightarrow> 's servers \<Rightarrow> 's servers" where
  "register_service_base sv servers =
     put_sorted (sv_prog sv) (put_sorted (sv_vers sv) sv (map_at [] (map_of servers) (sv_prog sv))) servers"

definition hdr_msg :: "rpc_msg \<Rightarrow> 's \<Rightarrow> sync_error + message_t option \<times> 's" where
  "hdr_msg hdr s = bindR (sync_msg (xdr_to_msg xdr_rpc_msg hdr)) (\<lambda>m. Inr (Some m, s))"

text \<open>
  \<open>rpc_server_base::dispatch\<close>. An exception of the XDR library leaves the state as it was: the
  procedures unmarshal what they use before they change anything, and a result that can not be
  marshaled, which would have to be longer than a message may be, is the end \<open>Sync_marshal\<close>.
\<close>

definition dispatch :: "'s servers \<Rightarrow> message_t \<Rightarrow> 's \<Rightarrow> sync_error + message_t option \<times> 's" where
  "dispatch servers m s =
     bindR (sync_throw (read_hdr m)) (\<lambda>(hdr, g).
     case rm_body hdr of
       Rp_rbody _ \<Rightarrow> Inl (Sync_throw Xdr_runtime_error)
     | Rp_cbody c \<Rightarrow>
         if cb_rpcvers c \<noteq> 2 then hdr_msg (rpc_mkerr_reject hdr RPC_MISMATCH) s
         else (case map_of servers (cb_prog c) of
           None \<Rightarrow> hdr_msg (rpc_mkerr_accept hdr PROG_UNAVAIL) s
         | Some vs \<Rightarrow> (case map_of vs (cb_vers c) of
             None \<Rightarrow> hdr_msg (version_mismatch hdr (map fst vs)) s
           | Some sv \<Rightarrow> (case process sv hdr g s of
               Inl (Sync_throw e) \<Rightarrow> hdr_msg (rpc_mkerr_accept hdr GARBAGE_ARGS) s
             | r \<Rightarrow> r))))"

text \<open>
  \<open>rpc_tcp_listener::receive_cb\<close>: what the socket is asked to do. Putting the null pointer into
  the queue of a socket is an error.
\<close>

datatype sock_action = Put_msg message_t | Delete_sock

definition sync_receive_cb :: "'s servers \<Rightarrow> message_t option \<Rightarrow> 's \<Rightarrow> sync_error + sock_action \<times> 's" where
  "sync_receive_cb servers mp s = (case mp of
     None \<Rightarrow> Inr (Delete_sock, s)
   | Some m \<Rightarrow> (case dispatch servers m s of
       Inl (Sync_throw _) \<Rightarrow> Inr (Delete_sock, s)
     | Inl e \<Rightarrow> Inl e
     | Inr (None, s) \<Rightarrow> Inl Sync_no_result
     | Inr (Some r, s) \<Rightarrow> Inr (Put_msg r, s)))"

section \<open>The interface of the replicas\<close>

definition paxos_program :: u32 where "paxos_program = 805531765"
definition paxos_version :: u32 where "paxos_version = 1"

text \<open>
  How a procedure of \<open>Paxos_Replica\<close> ends: its XDR exceptions are caught by \<open>dispatch\<close>, everything
  else ends the listener or the process.
\<close>

definition lift_px :: "px_error + 'a \<Rightarrow> sync_error + 'a" where
  "lift_px r = (case r of
     Inl (Px_xdr e) \<Rightarrow> Inl (Sync_throw e)
   | Inl (Px_run (Rs_xdr e)) \<Rightarrow> Inl (Sync_throw e)
   | Inl e \<Rightarrow> Inl (Sync_stop e)
   | Inr x \<Rightarrow> Inr x)"

definition lift_stop :: "px_error + 'a \<Rightarrow> sync_error + 'a" where
  "lift_stop r = (case r of Inl e \<Rightarrow> Inl (Sync_stop e) | Inr x \<Rightarrow> Inr x)"

text \<open>
  \<open>replicate\<close> on the replica \<open>me\<close>. Its branch for commands has no \<open>return\<close>: the reply is undefined.
\<close>

definition srv_replicate :: "'s run_fn \<Rightarrow> nat \<Rightarrow> replicate_arg \<Rightarrow> 's cluster \<Rightarrow> sync_error + replicate_res \<times> 's cluster" where
  "srv_replicate run me arg cl =
     bindR (lift_px (on_replica me (replicate_call run arg) cl)) (\<lambda>(res, cl).
     case res of None \<Rightarrow> Inl Sync_no_result | Some r \<Rightarrow> Inr (r, cl))"

text \<open>\<open>view_change\<close> and \<open>new_view\<close> return a result as its constructor leaves it.\<close>

definition srv_view_change :: "view_change_arg \<Rightarrow> 's cluster \<Rightarrow> sync_error + view_change_res \<times> 's cluster" where
  "srv_view_change arg cl = Inr (Vr_reject \<lparr>vj_oldview = empty_view, vj_newid = vw_vid empty_view\<rparr>, cl)"

definition srv_new_view :: "new_view_arg \<Rightarrow> 's cluster \<Rightarrow> sync_error + new_view_res \<times> 's cluster" where
  "srv_new_view arg cl = Inr (\<lparr>nr_accepted = False\<rparr>, cl)"

text \<open>
  \<open>init_view\<close> has promoted the replica when it sends its view to the others: an exception there
  leaves the promoted state behind, so it is not the \<open>Sync_throw\<close> that \<open>dispatch\<close> answers on the old
  state but the end \<open>Sync_stop\<close>.
\<close>

definition srv_init_view ::
    "link \<Rightarrow> 's run_fn \<Rightarrow> byte list option \<Rightarrow> nat \<Rightarrow> init_view_arg \<Rightarrow> 's cluster \<Rightarrow> sync_error + init_view_res \<times> 's cluster" where
  "srv_init_view link run boot me arg cl =
     bindR (lift_stop (init_view link run boot me cl)) (\<lambda>(b, cl). Inr (\<lparr>ir_succeed = b\<rparr>, cl))"

text \<open>\<open>paxos_v1::call_dispatch\<close>\<close>

definition paxos_call_dispatch ::
    "link \<Rightarrow> 's run_fn \<Rightarrow> byte list option \<Rightarrow> nat \<Rightarrow> u32 \<Rightarrow>
      (byte list \<Rightarrow> rpc_msg \<Rightarrow> 's cluster \<Rightarrow> sync_error + message_t \<times> 's cluster) option" where
  "paxos_call_dispatch link run boot me proc =
     (if proc = 2 then Some (sync_proc xdr_replicate_arg xdr_replicate_res (srv_replicate run me))
      else if proc = 101 then Some (sync_proc xdr_view_change_arg xdr_view_change_res srv_view_change)
      else if proc = 102 then Some (sync_proc xdr_new_view_arg xdr_new_view_res srv_new_view)
      else if proc = 103 then Some (sync_proc xdr_init_view_arg xdr_init_view_res (srv_init_view link run boot me))
      else None)"

definition paxos_service :: "link \<Rightarrow> 's run_fn \<Rightarrow> byte list option \<Rightarrow> nat \<Rightarrow> 's cluster service" where
  "paxos_service link run boot me =
     \<lparr>sv_prog = paxos_program, sv_vers = paxos_version, sv_call = paxos_call_dispatch link run boot me\<rparr>"

text \<open>What \<open>PaxosLib::RunServer\<close> registers.\<close>

definition paxos_servers :: "link \<Rightarrow> 's run_fn \<Rightarrow> byte list option \<Rightarrow> nat \<Rightarrow> 's cluster servers" where
  "paxos_servers link run boot me = register_service_base (paxos_service link run boot me) []"

section \<open>The blocking client\<close>

text \<open>\<open>synchronous_client_base::invoke\<close> up to \<open>write_message\<close>, and from \<open>read_message\<close> on.\<close>

definition sync_call :: "'a codec \<Rightarrow> u32 \<Rightarrow> u32 \<Rightarrow> u32 \<Rightarrow> 'a \<Rightarrow> u32 \<Rightarrow> xdr_error + (u32 \<times> message_t)" where
  "sync_call A prog vers proc a xid_counter =
     (case prepare_call prog vers proc xid_counter of (n, hdr) \<Rightarrow>
      bindR (xdr_to_msg (c_pair xdr_rpc_msg A) (hdr, a)) (\<lambda>m. Inr (n, m)))"

datatype reply_error = Re_xdr xdr_error | Re_call call_error

definition sync_result :: "'r codec \<Rightarrow> u32 \<Rightarrow> message_t \<Rightarrow> reply_error + 'r" where
  "sync_result R xid m =
     (case read_hdr m of
        Inl e \<Rightarrow> Inl (Re_xdr e)
      | Inr (hdr, g) \<Rightarrow> (case check_call_hdr hdr of
          Inl e \<Rightarrow> Inl (Re_call e)
        | Inr _ \<Rightarrow>
            if rm_xid hdr \<noteq> xid then Inl (Re_xdr Xdr_runtime_error)
            else (case c_load R g of
              Inl e \<Rightarrow> Inl (Re_xdr e)
            | Inr (r, g) \<Rightarrow> if g \<noteq> [] then Inl (Re_xdr Xdr_bad_message_size) else Inr r)))"

section \<open>Calls between replicas\<close>

text \<open>
  \<open>replica_client->replicate(command)\<close> on the channel to the replica \<open>i\<close>, message by message: the
  client blocks until the server has answered or closed the connection.
\<close>

datatype rpc_error = Rpc_marshal xdr_error | Rpc_server sync_error | Rpc_closed | Rpc_reply reply_error | Rpc_px px_error

definition rpc_replicate ::
    "link \<Rightarrow> 's run_fn \<Rightarrow> byte list option \<Rightarrow> nat \<Rightarrow> replicate_arg \<Rightarrow> u32 \<times> 's cluster \<Rightarrow> rpc_error + u32 \<times> 's cluster" where
  "rpc_replicate link run boot i arg = (\<lambda>(n, cl).
     case sync_call xdr_replicate_arg paxos_program paxos_version 2 arg n of
       Inl e \<Rightarrow> Inl (Rpc_marshal e)
     | Inr (n, m) \<Rightarrow> (case sync_receive_cb (paxos_servers link run boot i) (Some m) cl of
         Inl e \<Rightarrow> Inl (Rpc_server e)
       | Inr (Delete_sock, cl) \<Rightarrow> Inl Rpc_closed
       | Inr (Put_msg m', cl) \<Rightarrow> (case sync_result xdr_replicate_res n m' of
           Inl e \<Rightarrow> Inl (Rpc_reply e)
         | Inr _ \<Rightarrow> Inr (n, cl))))"

text \<open>The loop over the ranks, with the counter of the calls.\<close>

fun rpc_send_all ::
    "link \<Rightarrow> 's run_fn \<Rightarrow> byte list option \<Rightarrow> nat \<Rightarrow> replicate_arg \<Rightarrow> nat list \<Rightarrow> u32 \<times> 's cluster \<Rightarrow> rpc_error + u32 \<times> 's cluster" where
  "rpc_send_all link run boot me arg [] w = Inr w"
| "rpc_send_all link run boot me arg (i # is) w =
     (case at (snd w) me of
        Inl e \<Rightarrow> Inl (Rpc_px e)
      | Inr r \<Rightarrow>
          if i \<noteq> self_rank (rp_state r)
          then (case getReplicaClient link (rp_state r) i of
            Inl e \<Rightarrow> Inl (Rpc_px e)
          | Inr connected \<Rightarrow>
              if connected then bindR (rpc_replicate link run boot i arg w) (rpc_send_all link run boot me arg is)
              else rpc_send_all link run boot me arg is w)
          else rpc_send_all link run boot me arg is w)"

end
