(* ===== verification/Client_Lib.thy ===== *)
theory Client_Lib
  imports Sync_Server
begin

text \<open>
  The client side: class \<open>chubby_client\<close> (\<open>src/server/chubby_client.h\<close>, \<open>chubby_client.cc\<close>), which
  sends the calls, sorts what arrives into replies and events and reconnects when the connection is
  lost, and class \<open>Client\<close> (\<open>src/libclient/client.cc\<close>), the interface for applications with its
  table of handles. The configuration file is read here as the client and the \<open>main\<close> function of the
  server (\<open>src/server/server.cc\<close>) read it. Each piece of code that runs under one lock is one
  definition; the wait for a reply is the outcome \<open>None\<close> of the function that waits.
\<close>

section \<open>The configuration file\<close>

text \<open>Whether \<open>std::getline\<close> sets the fail bit: no character is left.\<close>

fun getline_fails :: "string \<times> bool \<times> string \<Rightarrow> bool" where
  "getline_fails (s, eof, line) \<longleftrightarrow> eof \<or> s = []"

text \<open>The part of a line before the first colon and the part after it.\<close>

definition split_addr :: "string \<Rightarrow> (string \<times> string) option" where
  "split_addr line = (case str_find (CHR '':'') line of
     None \<Rightarrow> None
   | Some k \<Rightarrow> Some (take k line, drop (Suc k) line))"

function read_servers :: "string \<times> bool \<times> string \<Rightarrow> (string \<times> string) list" where
  "read_servers f =
     (if getline_fails f then []
      else let f2 = getline (getline f) in
        (case split_addr (snd (snd f2)) of None \<Rightarrow> [] | Some a \<Rightarrow> [a]) @ read_servers f2)"
  by pat_completeness auto
termination
proof (relation "measure (\<lambda>f. length (fst f))")
  fix f :: "string \<times> bool \<times> string" and f2
  assume f: "\<not> getline_fails f" "f2 = getline (getline f)"
  have le: "length (fst (getline g)) \<le> length (fst g)" for g
    by (cases g) (auto split: option.splits)
  have "length (fst (getline f)) < length (fst f)"
    using f(1) by (cases f) (auto split: option.splits)
  with le [of "getline f"] f(2) show "(f2, f) \<in> measure (\<lambda>f. length (fst f))" by simp
qed simp

declare read_servers.simps [simp del]

text \<open>The list of addresses in the constructor of \<open>chubby_client\<close>; the first two lines are skipped.\<close>

definition client_servers :: "string \<Rightarrow> (string \<times> string) list" where
  "client_servers text = read_servers (getline (getline (text, False, [])))"

text \<open>
  \<open>GetServicePort\<close>: \<open>None\<close> when the rank is not in the file, where the code asserts false. A line
  without a colon is its own port (\<open>npos + 1\<close> is 0).
\<close>

fun port_line :: "nat \<Rightarrow> nat \<Rightarrow> string \<times> bool \<times> string \<Rightarrow> string option" where
  "port_line 0 rank f = None"
| "port_line (Suc n) rank f =
     (let f2 = getline (getline f) in
      if rank = 0
      then Some (case str_find (CHR '':'') (snd (snd f2)) of
          None \<Rightarrow> snd (snd f2) | Some k \<Rightarrow> drop (Suc k) (snd (snd f2)))
      else port_line n (rank - 1) f2)"

definition GetServicePort :: "string \<Rightarrow> nat \<Rightarrow> px_error + string" where
  "GetServicePort text rank =
     (let f2 = getline (getline (text, False, [])) in
      bindR (stoi (snd (snd f2))) (\<lambda>max_num.
      case port_line (nat max_num) rank f2 of
        None \<Rightarrow> Inl Px_assert
      | Some p \<Rightarrow> Inr p))"

section \<open>The connection: \<open>chubby_client\<close>\<close>

text \<open>
  \<open>sent\<close> lists the messages written on the present connection, \<open>fired\<close> the calls of the
  application's event callbacks, which are numbered.
\<close>

record chubby_client =
  server_addr :: "(string \<times> string) list"
  client_id :: string
  connected :: bool
  xid_counter :: u32
  event_queue :: "message_t list"
  reply_queue :: "message_t list"
  ecbs :: "u32 \<rightharpoonup> nat"
  lk_acq_fd_bkup :: "FileHandler option"
  hdr_bkup :: rpc_msg
  event_bkup :: "(FileHandler \<times> u64) list"
  sent :: "message_t list"
  fired :: "(nat \<times> string) list"

datatype client_error =
    Cl_xdr xdr_error
  | Cl_call call_error
  | Cl_marshal xdr_error
  | Cl_reply reply_error
  | Cl_io

definition lift_cl :: "xdr_error + 'a \<Rightarrow> client_error + 'a" where
  "lift_cl r = (case r of Inl e \<Rightarrow> Inl (Cl_xdr e) | Inr x \<Rightarrow> Inr x)"

definition register_callback :: "u32 \<Rightarrow> nat \<Rightarrow> chubby_client \<Rightarrow> chubby_client" where
  "register_callback e cb c = c\<lparr>ecbs := (ecbs c)(e \<mapsto> cb)\<rparr>"

definition delete_callback :: "u32 \<Rightarrow> chubby_client \<Rightarrow> chubby_client" where
  "delete_callback e c = c\<lparr>ecbs := (ecbs c)(e := None)\<rparr>"

text \<open>The specialisations of \<open>store_bkup_before_call\<close> and \<open>store_bkup_after_call\<close>.\<close>

fun store_bkup_before_call :: "rpc_msg \<Rightarrow> request \<Rightarrow> chubby_client \<Rightarrow> chubby_client" where
  "store_bkup_before_call hdr (Rq_acquire a) c = c\<lparr>lk_acq_fd_bkup := Some a, hdr_bkup := hdr\<rparr>"
| "store_bkup_before_call hdr _ c = c"

fun store_bkup_after_call :: "request \<Rightarrow> ret \<Rightarrow> chubby_client \<Rightarrow> chubby_client" where
  "store_bkup_after_call (Rq_acquire a) r c = c\<lparr>lk_acq_fd_bkup := None\<rparr>"
| "store_bkup_after_call (Rq_fileClose a) r c =
     c\<lparr>event_bkup := filter (\<lambda>(h, _). fh_file_name h \<noteq> fh_file_name a) (event_bkup c)\<rparr>"
| "store_bkup_after_call (Rq_fileOpen a) (R_fd (RetFd_val h)) c = c\<lparr>event_bkup := event_bkup c @ [(h, ao_mode a)]\<rparr>"
| "store_bkup_after_call _ _ c = c"

text \<open>The first half of \<open>invoke\<close>, up to the wait for the reply.\<close>

definition invoke_send :: "request \<Rightarrow> chubby_client \<Rightarrow> client_error + u32 \<times> chubby_client" where
  "invoke_send rq c =
     (case prepare_call api_program api_version (request_proc rq) (xid_counter c) of (n, hdr) \<Rightarrow>
      let c = store_bkup_before_call hdr rq (c\<lparr>xid_counter := n\<rparr>)
      in case request_msg hdr rq of
           Inl e \<Rightarrow> Inl (Cl_marshal e)
         | Inr m \<Rightarrow> Inr (rm_xid hdr, c\<lparr>sent := sent c @ [m]\<rparr>))"

definition get_ret :: "'a codec \<Rightarrow> ('a \<Rightarrow> ret) \<Rightarrow> byte list \<Rightarrow> xdr_error + ret" where
  "get_ret A mk g = bindR (c_load A g) (\<lambda>(r, g).
     bindR (assertR Xdr_bad_message_size (g = [])) (\<lambda>_. Inr (mk r)))"

fun read_ret :: "request \<Rightarrow> byte list \<Rightarrow> xdr_error + ret" where
  "read_ret (Rq_fileOpen _) g = get_ret xdr_RetFd R_fd g"
| "read_ret (Rq_getContentsAndStat _) g = get_ret xdr_RetContentsAndStat R_contents g"
| "read_ret (Rq_increment _) g = get_ret c_u32 R_int g"
| "read_ret (Rq_decrement _) g = get_ret c_u32 R_int g"
| "read_ret _ g = get_ret xdr_RetBool R_bool g"

text \<open>The second half of \<open>invoke\<close>: \<open>None\<close> while it waits.\<close>

definition read_reply :: "request \<Rightarrow> u32 \<Rightarrow> message_t \<Rightarrow> client_error + ret" where
  "read_reply rq xid m =
     bindR (lift_cl (read_hdr m)) (\<lambda>(hdr, g).
     bindR (case check_call_hdr hdr of Inl e \<Rightarrow> Inl (Cl_call e) | Inr _ \<Rightarrow> Inr ()) (\<lambda>_.
     bindR (assertR (Cl_xdr Xdr_runtime_error) (rm_xid hdr = xid)) (\<lambda>_.
       lift_cl (read_ret rq g))))"

definition invoke_recv :: "request \<Rightarrow> u32 \<Rightarrow> chubby_client \<Rightarrow> (client_error + ret \<times> chubby_client) option" where
  "invoke_recv rq xid c = (case reply_queue c of
     [] \<Rightarrow> None
   | m # q \<Rightarrow> Some (bindR (read_reply rq xid m) (\<lambda>r.
       Inr (r, store_bkup_after_call rq r (c\<lparr>reply_queue := q\<rparr>)))))"

section \<open>Reconnecting\<close>

text \<open>
  How an attempt to start a session with a server ends: no connection, a failure during the call
  \<open>startSession\<close>, a server that does not accept the session, or success.
\<close>

datatype attempt = No_connection | Call_failed | Declined | Joined

text \<open>The loops over the servers: the attempts go round the list until one succeeds; \<open>None\<close> while none has.\<close>

fun connect_loop :: "(string \<times> string) list \<Rightarrow> nat \<Rightarrow> u32 \<Rightarrow> attempt list \<Rightarrow> ((string \<times> string) \<times> u32) option" where
  "connect_loop addrs k xid [] = None"
| "connect_loop addrs k xid (a # as) =
     (if addrs = [] then None
      else case a of
        No_connection \<Rightarrow> connect_loop addrs (Suc k) xid as
      | Joined \<Rightarrow> Some (addrs ! (k mod length addrs), xid + 1)
      | _ \<Rightarrow> connect_loop addrs (Suc k) (xid + 1) as)"

text \<open>
  The call \<open>fileReopen\<close> for every handle of the backup, in order, by the blocking client: each takes
  the next message that arrives on the connection (\<open>None\<close> when it is lost) as its reply. What the
  reply says is ignored, but a message that is no reply to the call throws. The outcome \<open>None\<close> is
  the wait for a message.
\<close>

fun reopen_all :: "(FileHandler \<times> u64) list \<Rightarrow> u32 \<Rightarrow> message_t option list \<Rightarrow> (client_error + u32 \<times> message_t list) option" where
  "reopen_all [] xid answers = Some (Inr (xid, []))"
| "reopen_all ((h, mode) # bs) xid answers =
     (let rq = Rq_fileReopen \<lparr>ar_fd = h, ar_mode = mode\<rparr> in
      case prepare_call api_program api_version (request_proc rq) xid of (n, hdr) \<Rightarrow>
      case request_msg hdr rq of
        Inl e \<Rightarrow> Some (Inl (Cl_marshal e))
      | Inr m \<Rightarrow> (case answers of
          [] \<Rightarrow> None
        | None # _ \<Rightarrow> Some (Inl Cl_io)
        | Some a # answers \<Rightarrow> (case sync_result xdr_RetBool (rm_xid hdr) a of
            Inl e \<Rightarrow> Some (Inl (Cl_reply e))
          | Inr _ \<Rightarrow> map_option (\<lambda>r. bindR r (\<lambda>(n, ms). Inr (n, m # ms))) (reopen_all bs n answers))))"

definition resend_acquire :: "chubby_client \<Rightarrow> client_error + message_t list" where
  "resend_acquire c = (case lk_acq_fd_bkup c of
     None \<Rightarrow> Inr []
   | Some h \<Rightarrow> (case request_msg (hdr_bkup c) (Rq_acquire h) of
       Inl e \<Rightarrow> Inl (Cl_marshal e) | Inr m \<Rightarrow> Inr [m]))"

definition connect_server_and_recover :: "attempt list \<Rightarrow> message_t option list \<Rightarrow> chubby_client \<Rightarrow> (client_error + chubby_client) option" where
  "connect_server_and_recover as answers c =
     (case connect_loop (server_addr c) 0 (xid_counter c) as of
        None \<Rightarrow> None
      | Some (_, xid) \<Rightarrow>
          (case request_msg (call_hdr xid (Rq_startSession (client_id c))) (Rq_startSession (client_id c)) of
             Inl e \<Rightarrow> Some (Inl (Cl_marshal e))
           | Inr start \<Rightarrow> map_option (\<lambda>r.
               bindR r (\<lambda>(xid, ms).
               bindR (resend_acquire c) (\<lambda>acq.
                 Inr (c\<lparr>connected := True, xid_counter := xid, sent := start # ms @ acq\<rparr>))))
               (reopen_all (event_bkup c) xid answers)))"

definition new_chubby_client :: "string \<Rightarrow> string \<Rightarrow> u32 \<Rightarrow> attempt list \<Rightarrow> (client_error + chubby_client) option" where
  "new_chubby_client config_text cid xid as =
     connect_server_and_recover as [] \<lparr>server_addr = client_servers config_text, client_id = cid,
       connected = False, xid_counter = xid, event_queue = [], reply_queue = [], ecbs = Map.empty,
       lk_acq_fd_bkup = None, hdr_bkup = \<lparr>rm_xid = 0, rm_body = Rp_cbody \<lparr>cb_rpcvers = 0, cb_prog = 0,
         cb_vers = 0, cb_proc = 0, cb_cred = auth_none, cb_verf = auth_none\<rparr>\<rparr>,
       event_bkup = [], sent = [], fired = []\<rparr>"

section \<open>Receiving\<close>

definition poll_recv_cb :: "attempt list \<Rightarrow> message_t option list \<Rightarrow> message_t option \<Rightarrow> chubby_client \<Rightarrow> (client_error + chubby_client) option" where
  "poll_recv_cb as answers mp c = (case mp of
     None \<Rightarrow> connect_server_and_recover as answers (c\<lparr>connected := False\<rparr>)
   | Some m \<Rightarrow> Some (bindR (lift_cl (read_hdr m)) (\<lambda>(hdr, _).
       case rm_body hdr of
         Rp_rbody _ \<Rightarrow> Inr (c\<lparr>reply_queue := reply_queue c @ [m]\<rparr>)
       | Rp_cbody _ \<Rightarrow> Inr (c\<lparr>event_queue := event_queue c @ [m]\<rparr>))))"

text \<open>
  One iteration of \<open>evcb_loop\<close>: \<open>None\<close> while there is no event. Errors after the header was read are
  printed and dropped.
\<close>

definition read_event :: "rpc_msg \<Rightarrow> byte list \<Rightarrow> xdr_error + EventContent" where
  "read_event hdr g = (case rm_body hdr of
     Rp_rbody _ \<Rightarrow> Inl Xdr_wrong_union
   | Rp_cbody b \<Rightarrow>
       bindR (assertR Xdr_runtime_error (cb_rpcvers b = 2)) (\<lambda>_.
       bindR (assertR Xdr_runtime_error (cb_prog b = event_program)) (\<lambda>_.
       bindR (assertR Xdr_runtime_error (cb_vers b = event_version)) (\<lambda>_.
       bindR (c_load xdr_EventContent g) (\<lambda>(arg, g).
       bindR (assertR Xdr_bad_message_size (g = [])) (\<lambda>_. Inr arg))))))"

definition evcb_step :: "chubby_client \<Rightarrow> (client_error + chubby_client) option" where
  "evcb_step c = (case event_queue c of
     [] \<Rightarrow> None
   | m # q \<Rightarrow> Some (let c = c\<lparr>event_queue := q\<rparr> in
       bindR (lift_cl (read_hdr m)) (\<lambda>(hdr, g).
       case read_event hdr g of
         Inl e \<Rightarrow> if e = Xdr_wrong_union then Inl (Cl_xdr e) else Inr c
       | Inr arg \<Rightarrow> (case ecbs c (ev_event arg) of
           None \<Rightarrow> Inr c
         | Some f \<Rightarrow> Inr (c\<lparr>fired := fired c @ [(f, ev_fname arg)]\<rparr>)))))"

section \<open>The interface for applications: \<open>Client\<close>\<close>

text \<open>
  The table of handles, in the order of the keys, and the number of the next one. A remote call is
  a parameter \<open>call\<close> on a state of any type: the procedures of \<open>chubby_client_handler\<close>.
\<close>

type_synonym FileHandlerId = u64

record client_lib =
  fdList :: "(FileHandlerId \<times> FileHandler) list"
  nextFdId :: FileHandlerId

definition FAIL :: FileHandlerId where "FAIL = 0"

text \<open>
  How a method ends for good: a failed assertion, an accessor of a union that holds another arm, a
  missing return statement, and a failure of the call. A \<open>ClientException\<close>, which callers catch, is
  the left value of the method's result, beside the state.
\<close>

datatype 'e lib_error = Lib_assert | Lib_wrong_union | Lib_no_return | Lib_call 'e

type_synonym ('e, 's) call_fn = "request \<Rightarrow> 's \<Rightarrow> 'e + ret \<times> 's"

definition lib_call :: "('e, 's) call_fn \<Rightarrow> request \<Rightarrow> 's \<Rightarrow> 'e lib_error + ret \<times> 's" where
  "lib_call call rq s = (case call rq s of Inl e \<Rightarrow> Inl (Lib_call e) | Inr x \<Rightarrow> Inr x)"

definition new_client_lib :: client_lib where
  "new_client_lib = \<lparr>fdList = [], nextFdId = 1\<rparr>"

text \<open>\<open>fdList[fdId] = fd\<close> on the ordered map.\<close>

fun fd_insert :: "FileHandlerId \<Rightarrow> FileHandler \<Rightarrow> (FileHandlerId \<times> FileHandler) list \<Rightarrow> (FileHandlerId \<times> FileHandler) list" where
  "fd_insert i h [] = [(i, h)]"
| "fd_insert i h ((j, k) # xs) =
     (if i < j then (i, h) # (j, k) # xs else if i = j then (i, h) # xs else (j, k) # fd_insert i h xs)"

definition lib_fileOpen ::
    "('e, 's) call_fn \<Rightarrow> string \<Rightarrow> u64 \<Rightarrow> client_lib \<times> 's \<Rightarrow> 'e lib_error + FileHandlerId \<times> client_lib \<times> 's" where
  "lib_fileOpen call file_name mode = (\<lambda>(l, s).
     bindR (lib_call call (Rq_fileOpen \<lparr>ao_name = file_name, ao_mode = mode\<rparr>) s) (\<lambda>(r, s).
     case r of
       R_fd (RetFd_val fd) \<Rightarrow>
         let fdId = nextFdId l
         in Inr (fdId, l\<lparr>nextFdId := fdId + 1, fdList := fd_insert fdId fd (fdList l)\<rparr>, s)
     | _ \<Rightarrow> Inr (FAIL, l, s)))"

definition lib_fileClose ::
    "('e, 's) call_fn \<Rightarrow> FileHandlerId \<Rightarrow> client_lib \<times> 's \<Rightarrow> 'e lib_error + client_lib \<times> 's" where
  "lib_fileClose call fdId = (\<lambda>(l, s). case map_of (fdList l) fdId of
     None \<Rightarrow> Inr (l, s)
   | Some fd \<Rightarrow> bindR (lib_call call (Rq_fileClose fd) s) (\<lambda>(_, s).
       Inr (l\<lparr>fdList := filter (\<lambda>(i, _). i \<noteq> fdId) (fdList l)\<rparr>, s)))"

fun close_each :: "('e, 's) call_fn \<Rightarrow> (FileHandlerId \<times> FileHandler) list \<Rightarrow> 's \<Rightarrow> 'e lib_error + 's" where
  "close_each call [] s = Inr s"
| "close_each call ((_, fd) # xs) s = bindR (lib_call call (Rq_fileClose fd) s) (\<lambda>(_, s). close_each call xs s)"

definition lib_close :: "('e, 's) call_fn \<Rightarrow> client_lib \<times> 's \<Rightarrow> 'e lib_error + client_lib \<times> 's" where
  "lib_close call = (\<lambda>(l, s). bindR (close_each call (fdList l) s) (\<lambda>s. Inr (new_client_lib, s)))"

text \<open>The accessors \<open>val()\<close> and \<open>errCode()\<close> of the result of a procedure that returns a boolean.\<close>

definition bool_val :: "ret \<Rightarrow> 'e lib_error + bool" where
  "bool_val r = (case r of R_bool (RetBool_val b) \<Rightarrow> Inr b | _ \<Rightarrow> Inl Lib_wrong_union)"

definition bool_errCode :: "ret \<Rightarrow> 'e lib_error + u32" where
  "bool_errCode r = (case r of R_bool (RetBool_errCode e) \<Rightarrow> Inr e | _ \<Rightarrow> Inl Lib_wrong_union)"

definition bool_discriminant :: "ret \<Rightarrow> u32" where
  "bool_discriminant r = (case r of R_bool b \<Rightarrow> rb_discriminant b | _ \<Rightarrow> 2)"

text \<open>\<open>if (r->discriminant() == 0) return r->val(); else throw ClientException(r->errCode());\<close>\<close>

definition val_or_throw :: "ret \<Rightarrow> 'e lib_error + (u32 + bool)" where
  "val_or_throw r = (if bool_discriminant r = 0 then bindR (bool_val r) (\<lambda>b. Inr (Inr b))
     else bindR (bool_errCode r) (\<lambda>e. Inr (Inl e)))"

text \<open>The same with \<open>assert (r->val() == true)\<close> in place of the return.\<close>

definition true_or_throw :: "ret \<Rightarrow> 'e lib_error + (u32 + unit)" where
  "true_or_throw r = (if bool_discriminant r = 0 then bindR (bool_val r) (\<lambda>b. bindR (assertR Lib_assert b) (\<lambda>_. Inr (Inr ())))
     else bindR (bool_errCode r) (\<lambda>e. Inr (Inl e)))"

definition lib_increment :: "('e, 's) call_fn \<Rightarrow> u32 \<Rightarrow> client_lib \<times> 's \<Rightarrow> 'e lib_error + u32 \<times> client_lib \<times> 's" where
  "lib_increment call n = (\<lambda>(l, s). bindR (lib_call call (Rq_increment n) s) (\<lambda>(r, s).
     case r of R_int k \<Rightarrow> Inr (k, l, s) | _ \<Rightarrow> Inl Lib_wrong_union))"

definition lib_decrement :: "('e, 's) call_fn \<Rightarrow> u32 \<Rightarrow> client_lib \<times> 's \<Rightarrow> 'e lib_error + u32 \<times> client_lib \<times> 's" where
  "lib_decrement call n = (\<lambda>(l, s). bindR (lib_call call (Rq_decrement n) s) (\<lambda>(r, s).
     case r of R_int k \<Rightarrow> Inr (k, l, s) | _ \<Rightarrow> Inl Lib_wrong_union))"

definition lib_fileDelete ::
    "('e, 's) call_fn \<Rightarrow> FileHandlerId \<Rightarrow> client_lib \<times> 's \<Rightarrow> 'e lib_error + (u32 + bool) \<times> client_lib \<times> 's" where
  "lib_fileDelete call fdId = (\<lambda>(l, s). case map_of (fdList l) fdId of
     None \<Rightarrow> Inr (Inl BAD_ARG, l, s)
   | Some fd \<Rightarrow> bindR (lib_call call (Rq_fileDelete fd) s) (\<lambda>(r, s).
       if bool_discriminant r = 1 then bindR (bool_errCode r) (\<lambda>e. Inr (Inl e, l, s))
       else bindR (bool_val r) (\<lambda>b. Inr (Inr b, l, s))))"

definition lib_getContentsAndStat ::
    "('e, 's) call_fn \<Rightarrow> FileHandlerId \<Rightarrow> client_lib \<times> 's \<Rightarrow> 'e lib_error + (u32 + ContentsAndStat option) \<times> client_lib \<times> 's" where
  "lib_getContentsAndStat call fdId = (\<lambda>(l, s). case map_of (fdList l) fdId of
     None \<Rightarrow> Inr (Inr None, l, s)
   | Some fd \<Rightarrow> bindR (lib_call call (Rq_getContentsAndStat fd) s) (\<lambda>(r, s).
       case r of
         R_contents (RetContents_val c) \<Rightarrow> Inr (Inr (Some c), l, s)
       | R_contents (RetContents_errCode e) \<Rightarrow> Inr (Inl e, l, s)
       | _ \<Rightarrow> Inl Lib_wrong_union))"

definition lib_setContents ::
    "('e, 's) call_fn \<Rightarrow> FileHandlerId \<Rightarrow> string \<Rightarrow> client_lib \<times> 's \<Rightarrow> 'e lib_error + (u32 + bool) \<times> client_lib \<times> 's" where
  "lib_setContents call fdId content = (\<lambda>(l, s). case map_of (fdList l) fdId of
     None \<Rightarrow> Inr (Inr False, l, s)
   | Some fd \<Rightarrow> bindR (lib_call call (Rq_setContents \<lparr>as_fd = fd, as_content = content\<rparr>) s) (\<lambda>(r, s).
       bindR (val_or_throw r) (\<lambda>b. Inr (b, l, s))))"

definition lib_acquire ::
    "('e, 's) call_fn \<Rightarrow> FileHandlerId \<Rightarrow> client_lib \<times> 's \<Rightarrow> 'e lib_error + (u32 + unit) \<times> client_lib \<times> 's" where
  "lib_acquire call fdId = (\<lambda>(l, s). case map_of (fdList l) fdId of
     None \<Rightarrow> Inr (Inr (), l, s)
   | Some fd \<Rightarrow> bindR (lib_call call (Rq_acquire fd) s) (\<lambda>(r, s).
       bindR (true_or_throw r) (\<lambda>b. Inr (b, l, s))))"

definition lib_tryAcquire ::
    "('e, 's) call_fn \<Rightarrow> FileHandlerId \<Rightarrow> client_lib \<times> 's \<Rightarrow> 'e lib_error + (u32 + bool) \<times> client_lib \<times> 's" where
  "lib_tryAcquire call fdId = (\<lambda>(l, s). case map_of (fdList l) fdId of
     None \<Rightarrow> Inl Lib_no_return
   | Some fd \<Rightarrow> bindR (lib_call call (Rq_tryAcquire fd) s) (\<lambda>(r, s).
       bindR (val_or_throw r) (\<lambda>b. Inr (b, l, s))))"

definition lib_release ::
    "('e, 's) call_fn \<Rightarrow> FileHandlerId \<Rightarrow> client_lib \<times> 's \<Rightarrow> 'e lib_error + (u32 + unit) \<times> client_lib \<times> 's" where
  "lib_release call fdId = (\<lambda>(l, s). case map_of (fdList l) fdId of
     None \<Rightarrow> Inr (Inr (), l, s)
   | Some fd \<Rightarrow> bindR (lib_call call (Rq_release fd) s) (\<lambda>(r, s).
       bindR (true_or_throw r) (\<lambda>b. Inr (b, l, s))))"

end
