(* ===== verification/Client_Properties.thy ===== *)
theory Client_Properties
  imports Client_Lib Chubby_Dispatch_Properties Paxos_Properties
begin

text \<open>
  Properties of the client: a call reaches the procedure of the server and returns its result, the
  client knows the ports at which the servers listen, a client that has lost its connection sends
  what the new leader needs, and the table of handles.
\<close>


section \<open>Replies\<close>

text \<open>A result that the procedure of a request returns, short enough for a message.\<close>

fun ret_fits :: "request \<Rightarrow> ret \<Rightarrow> bool" where
  "ret_fits (Rq_fileOpen _) r = (case r of R_fd (RetFd_val h) \<Rightarrow> short (fh_file_name h) | R_fd (RetFd_errCode _) \<Rightarrow> True | _ \<Rightarrow> False)"
| "ret_fits (Rq_getContentsAndStat _) r = (case r of R_contents (RetContents_val c) \<Rightarrow> short (cs_content c)
     | R_contents (RetContents_errCode _) \<Rightarrow> True | _ \<Rightarrow> False)"
| "ret_fits (Rq_increment _) r = (case r of R_int _ \<Rightarrow> True | _ \<Rightarrow> False)"
| "ret_fits (Rq_decrement _) r = (case r of R_int _ \<Rightarrow> True | _ \<Rightarrow> False)"
| "ret_fits _ r = (case r of R_bool (RetBool_void _) \<Rightarrow> False | R_bool _ \<Rightarrow> True | _ \<Rightarrow> False)"

definition answers :: "request \<Rightarrow> u32 \<Rightarrow> ret \<Rightarrow> bool" where
  "answers rq xid r \<longleftrightarrow> (\<exists>m g. reply_msg (accepted_hdr xid SUCCESS) r = Inr m
     \<and> read_hdr m = Inr (accepted_hdr xid SUCCESS, g) \<and> read_ret rq g = Inr r)"

lemma answersI:
  assumes B: "xdr_codec B b" "b y" "c_size B y < 0x70000000"
    and "reply_msg (accepted_hdr xid SUCCESS) r = xdr_to_msg (c_pair xdr_rpc_msg B) (accepted_hdr xid SUCCESS, y)"
    and "\<And>g. read_ret rq g = get_ret B mk g" and "mk y = r"
  shows "answers rq xid r"
proof -
  have "c_size xdr_rpc_msg (accepted_hdr xid SUCCESS) < 0x1000"
    using accepted_size [of xid] by (simp add: accepted_hdr_def)
  with B(3) have "c_size xdr_rpc_msg (accepted_hdr xid SUCCESS) + c_size B y < 0x80000000" by linarith
  then obtain m where "xdr_to_msg (c_pair xdr_rpc_msg B) (accepted_hdr xid SUCCESS, y) = Inr m"
    "bindR (xdr_get_init m) (c_load xdr_rpc_msg) = Inr (accepted_hdr xid SUCCESS, wire B y)" "c_load B (wire B y) = Inr (y, [])"
    by (rule pair_msg [OF codec_rpc_msg B(1) accepted_hdr_ok B(2)])
  with assms(4-6) show ?thesis by (auto simp: answers_def read_hdr_def get_ret_def)
qed

lemma bool_answers:
  assumes "r = R_bool b" "RetBool_ok b" "\<And>g. read_ret rq g = get_ret xdr_RetBool R_bool g"
  shows "answers rq xid r"
proof -
  have "c_size xdr_RetBool b < 0x70000000" by (cases b) (simp_all add: codec_sizes)
  then show ?thesis using assms
    by (intro answersI [OF codec_RetBool, of b _ _ rq R_bool]) (simp_all add: reply_msg_def)
qed

lemma ret_answers: "ret_fits rq r \<Longrightarrow> answers rq xid r"
proof (cases rq)
  case (Rq_fileOpen a)
  moreover assume "ret_fits rq r"
  ultimately obtain f where f: "r = R_fd f" "RetFd_ok f" "c_size xdr_RetFd f < 0x70000000"
    using FileHandler_size short_fits
    by (fastforce simp: RetFd_ok_def xdr_RetFd_def c_union_def c_struct_def rf_discriminant_def c_u32_def split: ret.splits RetFd.splits)
  then show ?thesis using Rq_fileOpen
    by (intro answersI [OF codec_RetFd, of f _ _ rq R_fd]) (simp_all add: reply_msg_def)
next
  case (Rq_getContentsAndStat a)
  moreover assume "ret_fits rq r"
  ultimately obtain f where f: "r = R_contents f" "RetContents_ok f" "c_size xdr_RetContentsAndStat f < 0x70000000"
    using short_size short_fits
    by (fastforce simp: RetContents_ok_def codec_sizes rc_discriminant_def split: ret.splits RetContentsAndStat.splits)
  then show ?thesis using Rq_getContentsAndStat
    by (intro answersI [OF codec_RetContentsAndStat, of f _ _ rq R_contents]) (simp_all add: reply_msg_def)
next
  case (Rq_increment a)
  moreover assume "ret_fits rq r"
  ultimately show ?thesis
    by (auto simp: reply_msg_def c_u32_def split: ret.splits intro!: answersI [OF codec_u32, of _ _ _ _ R_int])
next
  case (Rq_decrement a)
  moreover assume "ret_fits rq r"
  ultimately show ?thesis
    by (auto simp: reply_msg_def c_u32_def split: ret.splits intro!: answersI [OF codec_u32, of _ _ _ _ R_int])
qed (auto simp: RetBool_ok_def split: ret.splits RetBool.splits intro!: bool_answers)

lemma read_reply_ok:
  assumes "read_hdr m = Inr (accepted_hdr xid SUCCESS, g)" "read_ret rq g = Inr r"
  shows "read_reply rq xid m = Inr r"
  using assms check_accepted_hdr [of xid SUCCESS] by (simp add: read_reply_def lift_cl_def accepted_hdr_def)

text \<open>C6: A call of the client returns what the procedure of the server answers: the message that
  \<open>invoke\<close> writes makes the server run the procedure with the argument and the number of the call,
  the reply that the procedure gives is queued on the socket of the session, and when the client
  receives it \<open>invoke\<close> returns its value. The number must not be \<open>2^32 - 1\<close>, which the server takes
  for a call of its own.\<close>

theorem rpc_roundtrip:
  assumes "request_ok rq" and "serves_api s" and "listening sid a s" and "reply_queue c = []"
    and "xid = xid_counter c + 1" and "xid \<noteq> -1"
    and "handle env rq sid xid (service s) = Inr b" and "outbox b = [Reply sid xid r]" and "ret_fits rq r"
  shows "\<exists>c1 m s1 m' c2. invoke_send rq c = Inr (xid, c1) \<and> sent c1 = sent c @ [m]
    \<and> receive_cb env takes sid (Some m) s = Inr s1 \<and> service s1 = b\<lparr>outbox := []\<rparr>
    \<and> wire_out s1 = wire_out s @ [Queued a m']
    \<and> poll_recv_cb as replies (Some m') c1 = Some (Inr c2)
    \<and> (\<exists>c3. invoke_recv rq xid c2 = Some (Inr (r, c3)) \<and> reply_queue c3 = [])"
proof -
  obtain m where m: "request_msg (call_hdr xid rq) rq = Inr m"
    "receive_cb env takes sid (Some m) s = run_service takes (handle env rq sid xid) s"
    using request_runs_handler [OF assms(1-3)] by blast
  have p: "prepare_call api_program api_version (request_proc rq) (xid_counter c) = (xid, call_hdr xid rq)"
    by (simp add: prepare_call_def call_hdr_def assms(5))
  define c0 where "c0 = store_bkup_before_call (call_hdr xid rq) rq (c\<lparr>xid_counter := xid\<rparr>)"
  have c0: "sent c0 = sent c" "reply_queue c0 = []" using assms(4) by (cases rq; simp add: c0_def)+
  have i: "invoke_send rq c = Inr (xid, c0\<lparr>sent := sent c0 @ [m]\<rparr>)"
    using m(1) by (simp add: invoke_send_def p Let_def c0_def) (simp add: call_hdr_def)
  obtain m' g where m': "reply_msg (accepted_hdr xid SUCCESS) r = Inr m'"
    "read_hdr m' = Inr (accepted_hdr xid SUCCESS, g)" "read_ret rq g = Inr r"
    using ret_answers [OF assms(9)] unfolding answers_def by blast
  let ?s1 = "s\<lparr>service := b\<lparr>outbox := []\<rparr>, wire_out := wire_out s @ [Queued a m']\<rparr>"
  have "run_service takes (handle env rq sid xid) s = Inr ?s1"
    using assms(3,6,7,8) m'(1) by (simp add: run_service_def srv_reply_def sock_put_def listening_def)
  moreover have "rm_body (accepted_hdr xid SUCCESS) = Rp_rbody (rp_rbody (rm_body (accepted_hdr xid SUCCESS)))"
    by (simp add: accepted_hdr_def)
  then have "poll_recv_cb as replies (Some m') (c0\<lparr>sent := sent c0 @ [m]\<rparr>) = Some (Inr (c0\<lparr>sent := sent c0 @ [m], reply_queue := [m']\<rparr>))"
    using m'(2) c0(2) by (simp add: poll_recv_cb_def lift_cl_def accepted_hdr_def)
  moreover have "invoke_recv rq xid (c0\<lparr>sent := sent c0 @ [m], reply_queue := [m']\<rparr>)
      = Some (Inr (r, store_bkup_after_call rq r (c0\<lparr>sent := sent c0 @ [m], reply_queue := []\<rparr>)))"
    using read_reply_ok [OF m'(2,3)] by (simp add: invoke_recv_def)
  moreover have "reply_queue (store_bkup_after_call rq r (c0\<lparr>sent := sent c0 @ [m], reply_queue := []\<rparr>)) = []"
    by (rule store_bkup_after_call.cases [of "(rq, r, c0)"]) auto
  ultimately show ?thesis using i c0(1) m(2) by (intro exI conjI) auto
qed


definition sample_client :: chubby_client where
  "sample_client = \<lparr>server_addr = [(''localhost'', ''15001'')], client_id = ''1234'', connected = True, xid_counter = 41,
     event_queue = [], reply_queue = [], ecbs = Map.empty, lk_acq_fd_bkup = None,
     hdr_bkup = call_hdr 0 (Rq_acquire sample_fh), event_bkup = [], sent = [], fired = []\<rparr>"

theorem rpc_roundtrip_witness:
  "\<exists>b c1 m s1 m' c2. handle sample_env (Rq_startSession ''1234'') 1 42 (service sample_srv) = Inr b
    \<and> invoke_send (Rq_startSession ''1234'') sample_client = Inr (42, c1) \<and> sent c1 = sent sample_client @ [m]
    \<and> receive_cb sample_env (\<lambda>_ _. True) 1 (Some m) sample_srv = Inr s1 \<and> service s1 = b\<lparr>outbox := []\<rparr>
    \<and> wire_out s1 = wire_out sample_srv @ [Queued 0 m']
    \<and> poll_recv_cb [] [] (Some m') c1 = Some (Inr c2)
    \<and> (\<exists>c3. invoke_recv (Rq_startSession ''1234'') 42 c2 = Some (Inr (ret_val True, c3)) \<and> reply_queue c3 = [])"
proof -
  have "service sample_srv = new_api_state create 3"
    by (simp add: sample_srv_def accept_cb_def registerSession_def Let_def start_server_def register_service_def new_chubby_server_def)
  then obtain b where b: "handle sample_env (Rq_startSession ''1234'') 1 42 (service sample_srv) = Inr b"
    "outbox b = [Reply 1 42 (ret_val True)]"
    by (simp add: startSession_def new_api_state_def reply_def)
  have "request_ok (Rq_startSession ''1234'')" "reply_queue sample_client = []" "42 = xid_counter sample_client + 1"
    "(42 :: u32) \<noteq> -1" "ret_fits (Rq_startSession ''1234'') (ret_val True)"
    by (simp_all add: short_def sample_client_def ret_val_def)
  from rpc_roundtrip [OF this(1) sample_srv_listens(2,1) this(2,3,4) b this(5), of "\<lambda>_ _. True" "[]" "[]"] b(1) show ?thesis by blast
qed

section \<open>The configuration file\<close>

lemma read_servers_text:
  assumes "length rs = length cs" "\<forall>a \<in> set (rs @ cs). CHR 0x0A \<notin> set a" "\<forall>c \<in> set cs. CHR '':'' \<in> set c"
  shows "map Some (read_servers (concat (map (\<lambda>(r, c). r @ [CHR 0x0A] @ c @ [CHR 0x0A]) (zip rs cs)), False, x)) = map split_addr cs"
  using assms
proof (induction rs cs arbitrary: x rule: list_induct2)
  case Nil
  show ?case by (subst read_servers.simps) simp
next
  case (Cons r rs c cs)
  have "\<exists>a. split_addr c = Some a" using Cons.prems(2) by (auto simp: split_addr_def split: option.splits)
  then obtain a where "split_addr c = Some a" by blast
  moreover have "getline (getline ((r @ [CHR 0x0A] @ c @ [CHR 0x0A]) @ t, False, x)) = (t, False, c)" for t
    using Cons.prems(1) getline_line [of r "c @ CHR 0x0A # t" x] getline_line [of c t r] by (simp del: getline.simps)
  ultimately show ?case using Cons
    by (subst read_servers.simps) (simp add: Let_def del: getline.simps)
qed

lemma port_line_text:
  assumes "length rs = length cs" "\<forall>a \<in> set (rs @ cs). CHR 0x0A \<notin> set a" "\<forall>c \<in> set cs. CHR '':'' \<in> set c" "k < length cs"
  shows "port_line (length rs) k (concat (map (\<lambda>(r, c). r @ [CHR 0x0A] @ c @ [CHR 0x0A]) (zip rs cs)), False, x)
    = map_option snd (split_addr (cs ! k))"
  using assms
proof (induction rs cs arbitrary: x k rule: list_induct2)
  case (Cons r rs c cs)
  have "getline (getline ((r @ [CHR 0x0A] @ c @ [CHR 0x0A]) @ t, False, x)) = (t, False, c)" for t
    using Cons.prems(1) getline_line [of r "c @ CHR 0x0A # t" x] getline_line [of c t r] by (simp del: getline.simps)
  then show ?case using Cons
    by (cases k) (auto simp: Let_def split_addr_def simp del: getline.simps split: option.splits)
qed simp

lemma config_skip:
  "getline (getline (config_text q rs cs, False, [])) =
     (concat (map (\<lambda>(r, c). r @ [CHR 0x0A] @ c @ [CHR 0x0A]) (zip rs cs)), False, digits (length rs))"
proof -
  have nl: "CHR 0x0A \<notin> set (digits m)" for m using digits_digits [of m] is_digit_sign by blast
  show ?thesis unfolding config_text_def by (simp add: getline_line [OF nl] del: getline.simps)
qed

text \<open>Clients and servers read the same addresses from the configuration file: the client's list
  is that of the client addresses of the file, split at the colon, and the port at which the
  server of a rank listens is the port of that rank in the list.\<close>

theorem client_finds_servers:
  assumes "length rs < 2 ^ 31" and "length rs = length cs"
    and "\<forall>a \<in> set (rs @ cs). CHR 0x0A \<notin> set a" and "\<forall>c \<in> set cs. CHR '':'' \<in> set c"
  shows "map (\<lambda>(h, p). h @ '':'' @ p) (client_servers (config_text q rs cs)) = cs
    \<and> map (GetServicePort (config_text q rs cs)) [0..<length cs] = map Inr (map snd (client_servers (config_text q rs cs)))"
proof -
  let ?srv = "client_servers (config_text q rs cs)"
  have s: "map Some ?srv = map split_addr cs"
    unfolding client_servers_def config_skip by (rule read_servers_text [OF assms(2-4)])
  have len: "length ?srv = length cs" using map_eq_imp_length_eq [OF s] .
  have nth: "split_addr (cs ! k) = Some (?srv ! k)" if "k < length cs" for k
    using s that len by (metis nth_map)
  have "(\<lambda>(h, p). h @ '':'' @ p) (?srv ! k) = cs ! k" if k: "k < length cs" for k
  proof -
    obtain i where i: "str_find (CHR '':'') (cs ! k) = Some i" "?srv ! k = (take i (cs ! k), drop (Suc i) (cs ! k))"
      using nth [OF k] by (auto simp: split_addr_def split: option.splits)
    then show ?thesis using str_find_Some [OF i(1)] id_take_nth_drop [of i "cs ! k"] by simp
  qed
  moreover have "GetServicePort (config_text q rs cs) k = Inr (snd (?srv ! k))" if "k < length cs" for k
    using port_line_text [OF assms(2-4) that] nth [OF that] stoi_digits [OF assms(1)]
    by (simp add: GetServicePort_def config_skip Let_def del: getline.simps)
  ultimately show ?thesis using len by (auto intro!: nth_equalityI)
qed

theorem client_finds_servers_witness:
  "map (\<lambda>(h, p). h @ '':'' @ p) (client_servers (config_text 2 config_replicas config_clients)) = config_clients
    \<and> map (GetServicePort (config_text 2 config_replicas config_clients)) [0..<length config_clients]
        = map Inr (map snd (client_servers (config_text 2 config_replicas config_clients)))"
  by (rule client_finds_servers) (simp_all add: config_replicas_def config_clients_def)


section \<open>Recovery\<close>

definition reopen :: "FileHandler \<times> u64 \<Rightarrow> request" where
  "reopen b = Rq_fileReopen \<lparr>ar_fd = fst b, ar_mode = snd b\<rparr>"

lemma request_msg_ok: "request_ok rq \<Longrightarrow> \<exists>m. request_msg (call_hdr xid rq) rq = Inr m"
  using request_readable [of rq xid] by (auto simp: readable_def)

lemma prepare_call_hdr: "prepare_call api_program api_version (request_proc rq) xid = (xid + 1, call_hdr (xid + 1) rq)"
  by (simp add: prepare_call_def call_hdr_def)

fun reopen_msgs :: "(FileHandler \<times> u64) list \<Rightarrow> u32 \<Rightarrow> (xdr_error + message_t) list" where
  "reopen_msgs [] xid = []"
| "reopen_msgs (b # bs) xid = request_msg (call_hdr (xid + 1) (reopen b)) (reopen b) # reopen_msgs bs (xid + 1)"

text \<open>The answers to the calls that reopen the handles, in order.\<close>

fun answers_ok :: "(FileHandler \<times> u64) list \<Rightarrow> u32 \<Rightarrow> message_t option list \<Rightarrow> bool" where
  "answers_ok [] xid as \<longleftrightarrow> True"
| "answers_ok (b # bs) xid (Some m # as) \<longleftrightarrow> (\<exists>r. sync_result xdr_RetBool (xid + 1) m = Inr r) \<and> answers_ok bs (xid + 1) as"
| "answers_ok (b # bs) xid _ \<longleftrightarrow> False"

lemma call_hdr_xid [simp]: "rm_xid (call_hdr n rq) = n"
  by (simp add: call_hdr_def prepare_call_def)

lemma reopen_all_ok:
  assumes "\<forall>(h, mode) \<in> set bs. short (fh_file_name h)" and "answers_ok bs xid as"
  shows "\<exists>ms. reopen_all bs xid as = Some (Inr (xid + of_nat (length bs), ms)) \<and> map Inr ms = reopen_msgs bs xid"
  using assms
proof (induction bs arbitrary: xid as)
  case (Cons b bs)
  obtain h mode where b: "b = (h, mode)" by (cases b)
  let ?rq = "Rq_fileReopen \<lparr>ar_fd = h, ar_mode = mode\<rparr>"
  obtain a as' r where as: "as = Some a # as'" "sync_result xdr_RetBool (xid + 1) a = Inr r" "answers_ok bs (xid + 1) as'"
    using Cons.prems(2) by (cases "(b # bs, xid, as)" rule: answers_ok.cases) auto
  obtain m where m: "request_msg (call_hdr (xid + 1) ?rq) ?rq = Inr m"
    using request_msg_ok [of ?rq] Cons.prems b by auto
  obtain ms where "reopen_all bs (xid + 1) as' = Some (Inr (xid + 1 + of_nat (length bs), ms))" "map Inr ms = reopen_msgs bs (xid + 1)"
    using Cons.IH [of "xid + 1" as'] Cons.prems as(3) by auto
  with m as show ?case
    unfolding b reopen_all.simps Let_def prepare_call_hdr by (simp add: reopen_def add.assoc)
qed simp

lemma connect_loop_joins:
  assumes "addrs \<noteq> []" "Joined \<in> set as"
  shows "\<exists>addr n. addr \<in> set addrs \<and> connect_loop addrs k xid as = Some (addr, xid + n)"
  using assms(2)
proof (induction as arbitrary: k xid)
  case (Cons a as)
  have step: "\<exists>addr n. addr \<in> set addrs \<and> connect_loop addrs k' (xid + i) as = Some (addr, xid + n)" if "Joined \<in> set as" for k' i
    using Cons.IH [OF that, of k' "xid + i"] by (auto simp: add.assoc)
  show ?case
  proof (cases a)
    case Joined
    have "addrs ! (k mod length addrs) \<in> set addrs" using assms(1) by simp
    then show ?thesis using assms(1) Joined by (intro exI conjI) simp_all
  next
    case No_connection
    then show ?thesis using step [of "Suc k" 0] Cons.prems assms(1) by auto
  qed (use step [of "Suc k" 1] Cons.prems assms(1) in auto)
qed simp

text \<open>C40: When the connection is lost and some server accepts a new session, the messages on the new
  connection are: the start of the session, a request to reopen for every handle and mode recorded
  by the client, in order, and, when the client waits for a lock, its request under its old number.
  No other call that waits for a reply is sent again.\<close>

theorem recovery_resends:
  assumes "connect_loop (server_addr c) 0 (xid_counter c) as = Some (addr, n)" and "short (client_id c)"
    and "\<forall>(h, mode) \<in> set (event_bkup c). short (fh_file_name h)" and "answers_ok (event_bkup c) n replies"
    and "\<forall>fh. lk_acq_fd_bkup c = Some fh \<longrightarrow> short (fh_file_name fh) \<and> hdr_bkup c = call_hdr xid (Rq_acquire fh)"
  shows "\<exists>c'. poll_recv_cb as replies None c = Some (Inr c') \<and> connected c'
    \<and> map Inr (sent c') = request_msg (call_hdr n (Rq_startSession (client_id c))) (Rq_startSession (client_id c))
        # reopen_msgs (event_bkup c) n
        @ (case lk_acq_fd_bkup c of None \<Rightarrow> [] | Some fh \<Rightarrow> [request_msg (call_hdr xid (Rq_acquire fh)) (Rq_acquire fh)])"
proof -
  let ?st = "Rq_startSession (client_id c)"
  obtain m0 where m0: "request_msg (call_hdr n ?st) ?st = Inr m0" using request_msg_ok [of ?st] assms(2) by auto
  obtain ms where ms: "reopen_all (event_bkup c) n replies = Some (Inr (n + of_nat (length (event_bkup c)), ms))"
    "map Inr ms = reopen_msgs (event_bkup c) n" using reopen_all_ok [OF assms(3,4)] by blast
  obtain acq where acq: "resend_acquire c = Inr acq"
    "map Inr acq = (case lk_acq_fd_bkup c of None \<Rightarrow> [] | Some fh \<Rightarrow> [request_msg (call_hdr xid (Rq_acquire fh)) (Rq_acquire fh)])"
  proof (cases "lk_acq_fd_bkup c")
    case (Some fh)
    with assms(5) request_msg_ok [of "Rq_acquire fh" xid] that show thesis by (auto simp: resend_acquire_def)
  qed (use that in \<open>simp add: resend_acquire_def\<close>)
  moreover have "resend_acquire (c\<lparr>connected := False\<rparr>) = resend_acquire c" by (simp add: resend_acquire_def split: option.split)
  ultimately show ?thesis using assms(1) m0 ms
    by (intro exI [of _ "c\<lparr>connected := True, xid_counter := n + of_nat (length (event_bkup c)), sent := m0 # ms @ acq\<rparr>"])
      (simp add: poll_recv_cb_def connect_server_and_recover_def)
qed

lemma reopen_reply:
  "\<exists>m. reply_msg (accepted_hdr xid SUCCESS) (ret_val True) = Inr m \<and> sync_result xdr_RetBool xid m = Inr (RetBool_val True)"
proof -
  have "c_size xdr_rpc_msg (accepted_hdr xid SUCCESS) < 0x1000"
    using accepted_size [of xid] by (simp add: accepted_hdr_def)
  moreover have "c_size xdr_RetBool (RetBool_val True) < 0x1000" by (simp add: codec_sizes)
  ultimately have "c_size xdr_rpc_msg (accepted_hdr xid SUCCESS) + c_size xdr_RetBool (RetBool_val True) < 0x80000000" by linarith
  moreover have "RetBool_ok (RetBool_val True)" by (simp add: RetBool_ok_def)
  ultimately obtain m where "xdr_to_msg (c_pair xdr_rpc_msg xdr_RetBool) (accepted_hdr xid SUCCESS, RetBool_val True) = Inr m"
    "bindR (xdr_get_init m) (c_load xdr_rpc_msg) = Inr (accepted_hdr xid SUCCESS, wire xdr_RetBool (RetBool_val True))"
    "c_load xdr_RetBool (wire xdr_RetBool (RetBool_val True)) = Inr (RetBool_val True, [])"
    using pair_msg [OF codec_rpc_msg codec_RetBool accepted_hdr_ok] by metis
  moreover have "rm_xid (accepted_hdr xid SUCCESS) = xid" by (simp add: accepted_hdr_def)
  ultimately show ?thesis using check_accepted_hdr [of xid SUCCESS]
    by (auto simp: reply_msg_def ret_val_def sync_result_def read_hdr_def)
qed

theorem recovery_resends_witness:
  "\<exists>a c'. reply_msg (accepted_hdr 8 SUCCESS) (ret_val True) = Inr a
    \<and> poll_recv_cb [No_connection, Declined, Joined] [Some a] None (sample_client\<lparr>xid_counter := 5, lk_acq_fd_bkup := Some sample_fh,
          hdr_bkup := call_hdr 41 (Rq_acquire sample_fh), event_bkup := [(sample_fh, 8)]\<rparr>) = Some (Inr c') \<and> connected c'
    \<and> map Inr (sent c') = [request_msg (call_hdr 7 (Rq_startSession ''1234'')) (Rq_startSession ''1234''),
        request_msg (call_hdr 8 (reopen (sample_fh, 8))) (reopen (sample_fh, 8)),
        request_msg (call_hdr 41 (Rq_acquire sample_fh)) (Rq_acquire sample_fh)]"
proof -
  let ?c = "sample_client\<lparr>xid_counter := 5, lk_acq_fd_bkup := Some sample_fh,
    hdr_bkup := call_hdr 41 (Rq_acquire sample_fh), event_bkup := [(sample_fh, 8)]\<rparr>"
  obtain a where a: "reply_msg (accepted_hdr 8 SUCCESS) (ret_val True) = Inr a" "sync_result xdr_RetBool 8 a = Inr (RetBool_val True)"
    using reopen_reply by blast
  have "connect_loop (server_addr ?c) 0 (xid_counter ?c) [No_connection, Declined, Joined] = Some (server_addr ?c ! (2 mod length (server_addr ?c)), 7)"
    by (simp add: sample_client_def numeral_eq_Suc)
  from recovery_resends [OF this, of "[Some a]" 41] a show ?thesis by (simp add: sample_client_def short_def sample_fh_def)
qed

text \<open>The calls that reopen the handles after a reconnection wait for their replies with the
  blocking client, which reads the next message whatever it is. When that message is a call, as the
  event that the new leader sends to the session is, the recovery does not go on with the reply
  that follows: it ends with the exception of a message that is not a reply, which nothing catches
  between the recovery and the thread of the poll loop.\<close>

theorem event_breaks_recovery:
  assumes "connect_loop (server_addr c) 0 (xid_counter c) as = Some (addr, n)" and "short (client_id c)"
    and "event_bkup c = (h, mode) # bs" and "short (fh_file_name h)"
    and "read_hdr ev = Inr (hdr, g)" and "rm_body hdr = Rp_cbody b"
  shows "poll_recv_cb as (Some ev # replies) None c = Some (Inl (Cl_reply (Re_call Call_not_reply)))"
proof -
  let ?st = "Rq_startSession (client_id c)" and ?rq = "Rq_fileReopen \<lparr>ar_fd = h, ar_mode = mode\<rparr>"
  obtain m0 where m0: "request_msg (call_hdr n ?st) ?st = Inr m0" using request_msg_ok [of ?st] assms(2) by auto
  obtain m where m: "request_msg (call_hdr (n + 1) ?rq) ?rq = Inr m" using request_msg_ok [of ?rq] assms(4) by auto
  have "reopen_all (event_bkup c) n (Some ev # replies) = Some (Inl (Cl_reply (Re_call Call_not_reply)))"
    unfolding assms(3) reopen_all.simps Let_def prepare_call_hdr
    using m assms(5,6) by (simp add: sync_result_def check_call_hdr_def)
  then show ?thesis using assms(1) m0 by (simp add: poll_recv_cb_def connect_server_and_recover_def)
qed

theorem event_breaks_recovery_witness:
  "\<exists>ev. xdr_to_msg (c_pair xdr_rpc_msg xdr_EventContent) (event_hdr 1, \<lparr>ev_event = 8, ev_fname = ''/f''\<rparr>) = Inr ev
    \<and> poll_recv_cb [Joined] [Some ev] None (sample_client\<lparr>event_bkup := [(sample_fh, 8)]\<rparr>)
        = Some (Inl (Cl_reply (Re_call Call_not_reply)))"
proof -
  let ?c = "sample_client\<lparr>event_bkup := [(sample_fh, 8)]\<rparr>"
  obtain ev g where ev: "xdr_to_msg (c_pair xdr_rpc_msg xdr_EventContent) (event_hdr 1, \<lparr>ev_event = 8, ev_fname = ''/f''\<rparr>) = Inr ev"
    "read_hdr ev = Inr (event_hdr 1, g)" using event_msg [of "\<lparr>ev_event = 8, ev_fname = ''/f''\<rparr>" 1] by (auto simp: short_def)
  have "connect_loop (server_addr ?c) 0 (xid_counter ?c) [Joined] = Some (server_addr ?c ! 0, 42)"
    by (simp add: sample_client_def)
  from event_breaks_recovery [OF this _ _ _ ev(2), of sample_fh 8 "[]"] ev(1) show ?thesis
    by (simp add: sample_client_def short_def sample_fh_def)
qed

text \<open>Closing one of two handles of a file removes both from the record that recovery uses.\<close>

lemma close_forgets_handles:
  assumes "fh_file_name h1 = fh_file_name h2"
  shows "event_bkup (store_bkup_after_call (Rq_fileClose h2) (ret_val True)
      (store_bkup_after_call (Rq_fileOpen a2) (R_fd (RetFd_val h2))
        (store_bkup_after_call (Rq_fileOpen a1) (R_fd (RetFd_val h1)) c)))
    = filter (\<lambda>(h, _). fh_file_name h \<noteq> fh_file_name h2) (event_bkup c)"
  using assms by simp

section \<open>The table of handles\<close>

definition lib_ok :: "client_lib \<Rightarrow> bool" where
  "lib_ok l \<longleftrightarrow> sorted_wrt (<) (map fst (fdList l)) \<and> (\<forall>i \<in> fst ` set (fdList l). 0 < i \<and> i < nextFdId l) \<and> 0 < nextFdId l"

lemma fd_insert_last: "\<forall>j \<in> fst ` set xs. j < i \<Longrightarrow> fd_insert i h xs = xs @ [(i, h)]"
  by (induction xs) auto

text \<open>Opening a file through the client library gives a number that is not in use and is not the
  number that stands for failure, under which the table has the handle of the server; the other
  entries stay, and the table stays ordered by number.\<close>

theorem fileOpen_table:
  assumes "lib_ok l" "nextFdId l \<noteq> -1" "call (Rq_fileOpen \<lparr>ao_name = n, ao_mode = mode\<rparr>) s = Inr (R_fd (RetFd_val fd), s')"
  shows "\<exists>l'. lib_fileOpen call n mode (l, s) = Inr (nextFdId l, l', s') \<and> lib_ok l' \<and> nextFdId l \<noteq> FAIL
    \<and> fdList l' = fdList l @ [(nextFdId l, fd)]"
proof -
  have lt: "nextFdId l < nextFdId l + 1" 
    using assms(2) by (metis inc_less_eq_triv_imp not_le)
  have "fd_insert (nextFdId l) fd (fdList l) = fdList l @ [(nextFdId l, fd)]"
    using assms(1) by (intro fd_insert_last) (auto simp: lib_ok_def)
  then show ?thesis using assms lt
    by (intro exI [of _ "l\<lparr>nextFdId := nextFdId l + 1, fdList := fdList l @ [(nextFdId l, fd)]\<rparr>"])
      (auto simp: lib_fileOpen_def lib_call_def Let_def lib_ok_def sorted_wrt_append FAIL_def intro: less_trans)
qed

theorem fileOpen_table_witness:
  "\<exists>l'. lib_fileOpen (\<lambda>rq log. Inr (R_fd (RetFd_val sample_fh), log @ [rq])) ''/f'' 0x9 (new_client_lib, [])
      = (Inr (nextFdId new_client_lib, l', [] @ [Rq_fileOpen \<lparr>ao_name = ''/f'', ao_mode = 0x9\<rparr>])
          :: unit lib_error + FileHandlerId \<times> client_lib \<times> request list)
    \<and> lib_ok l' \<and> nextFdId new_client_lib \<noteq> FAIL \<and> fdList l' = fdList new_client_lib @ [(nextFdId new_client_lib, sample_fh)]"
  by (rule fileOpen_table) (simp_all add: lib_ok_def new_client_lib_def)

text \<open>Closing the client closes every handle of the table, in the order of their numbers.\<close>

lemma lib_close_all:
  "lib_close (\<lambda>rq log. Inr (ret_val True, log @ [rq])) (l, log)
     = (Inr (new_client_lib, log @ map (Rq_fileClose \<circ> snd) (fdList l)) :: unit lib_error + client_lib \<times> request list)"
proof -
  have "(close_each (\<lambda>rq log. Inr (ret_val True, log @ [rq])) xs log :: unit lib_error + request list)
      = Inr (log @ map (Rq_fileClose \<circ> snd) xs)" for xs log
    by (induction xs arbitrary: log) (auto simp: lib_call_def)
  then show ?thesis by (simp add: lib_close_def)
qed

end
