(* ===== verification/Sync_Server_Properties.thy ===== *)
theory Sync_Server_Properties
  imports Sync_Server Chubby_Dispatch_Properties Paxos_Properties
begin

text \<open>
  The RPC between replicas: the locale \<open>sync_procedure\<close> shows once, for any procedure, that a call
  is unmarshaled, run and answered; its interpretations are the procedures of \<open>paxos_v1\<close>. Calls for
  other procedures are refused, and the broadcast of a view by messages refines the one by direct
  calls.
\<close>

section \<open>Headers\<close>

lemma sync_lift_simps [simp]:
  "sync_throw (Inr x) = Inr x" "sync_throw (Inl e) = Inl (Sync_throw e)"
  "sync_msg (Inr x) = Inr x" "sync_msg (Inl e) = Inl (Sync_marshal e)"
  by (simp_all add: sync_throw_def sync_msg_def)

lemma call_size: "c_size xdr_rpc_msg (snd (prepare_call p v c x)) = 40"
  by (simp add: prepare_call_def auth_none_def xdr_rpc_msg_def xdr_rpc_body_def xdr_call_body_def xdr_opaque_auth_def
      c_opaque_def c_bytes_def c_union_def c_struct_def c_pair_def c_u32_def mtype_def rpc_enum_defs)

lemma accepted_hdr_size: "c_size xdr_rpc_msg (accepted_hdr xid st) < 0x1000"
  using accepted_size [of xid] by (simp add: accepted_hdr_def)

section \<open>One call\<close>

definition registered :: "'s servers \<Rightarrow> 's service \<Rightarrow> bool" where
  "registered servers sv \<longleftrightarrow> (\<exists>vs. map_of servers (sv_prog sv) = Some vs \<and> map_of vs (sv_vers sv) = Some sv)"

text \<open>Codecs for the argument and the result, and an entry in the table of the service.\<close>

locale sync_procedure =
  arg: xdr_codec A a + res: xdr_codec R b
  for A :: "'a codec" and a and R :: "'r codec" and b +
  fixes sv :: "'s service" and proc :: u32 and f :: "'a \<Rightarrow> 's \<Rightarrow> sync_error + 'r \<times> 's"
  assumes entry: "sv_call sv proc = Some (sync_proc A R f)"
begin

lemma call_message:
  assumes "a x" "c_size A x < 0x70000000" "registered servers sv"
  obtains m where "sync_call A (sv_prog sv) (sv_vers sv) proc x n = Inr (n + 1, m)"
    "dispatch servers m s = (case bindR (f x s) (\<lambda>(r, s).
        bindR (sync_msg (xdr_to_msg (c_pair xdr_rpc_msg R) (accepted_hdr (n + 1) SUCCESS, r))) (\<lambda>m. Inr (Some m, s))) of
      Inl (Sync_throw e) \<Rightarrow> hdr_msg (accepted_hdr (n + 1) GARBAGE_ARGS) s
    | q \<Rightarrow> q)"
proof -
  let ?h = "snd (prepare_call (sv_prog sv) (sv_vers sv) proc n)"
  have size: "c_size xdr_rpc_msg ?h + c_size A x < 0x80000000" using assms(2) call_size by simp
  obtain m where m: "xdr_to_msg (c_pair xdr_rpc_msg A) (?h, x) = Inr m"
    "bindR (xdr_get_init m) (c_load xdr_rpc_msg) = Inr (?h, wire A x)" "c_load A (wire A x) = Inr (x, [])"
    by (rule pair_msg [OF codec_rpc_msg arg.xdr_codec_axioms prepare_call_ok assms(1) size])
  have c: "sync_call A (sv_prog sv) (sv_vers sv) proc x n = Inr (n + 1, m)"
    using m(1) by (simp add: sync_call_def prepare_call_def)
  have p: "process sv ?h (wire A x) s = bindR (f x s) (\<lambda>(r, s).
        bindR (sync_msg (xdr_to_msg (c_pair xdr_rpc_msg R) (accepted_hdr (n + 1) SUCCESS, r))) (\<lambda>m. Inr (Some m, s)))"
    using m(3) by (auto simp: process_def prepare_call_def entry sync_proc_def bindR_def split: sum.splits prod.splits)
  show ?thesis
    by (rule that [OF c])
      (use m(2) [folded read_hdr_def] p assms(3) in \<open>auto simp: dispatch_def registered_def prepare_call_def rpc_mkerr_accept_def
        split: sum.splits sync_error.splits\<close>)
qed

lemma call_roundtrip:
  assumes "a x" "c_size A x < 0x70000000" "registered servers sv"
    and "f x s = Inr (r, s')" "b r" "c_size R r < 0x70000000"
  obtains m m' where "sync_call A (sv_prog sv) (sv_vers sv) proc x n = Inr (n + 1, m)"
    "dispatch servers m s = Inr (Some m', s')" "sync_result R (n + 1) m' = Inr r"
proof -
  let ?h = "accepted_hdr (n + 1) SUCCESS"
  have size: "c_size xdr_rpc_msg ?h + c_size R r < 0x80000000" using assms(6) accepted_hdr_size [of "n + 1" SUCCESS] by linarith
  obtain m' where m': "xdr_to_msg (c_pair xdr_rpc_msg R) (?h, r) = Inr m'"
    "bindR (xdr_get_init m') (c_load xdr_rpc_msg) = Inr (?h, wire R r)" "c_load R (wire R r) = Inr (r, [])"
    by (rule pair_msg [OF codec_rpc_msg res.xdr_codec_axioms accepted_hdr_ok assms(5) size])
  have "sync_result R (n + 1) m' = Inr r"
    using m'(2) [folded read_hdr_def] m'(3) check_accepted_hdr [of "n + 1" SUCCESS]
    by (simp add: sync_result_def accepted_hdr_def)
  moreover obtain m where "sync_call A (sv_prog sv) (sv_vers sv) proc x n = Inr (n + 1, m)" "dispatch servers m s = Inr (Some m', s')"
    by (rule call_message [OF assms(1-3), of n s]) (use assms(4) m'(1) in auto)
  ultimately show ?thesis by (rule that [rotated 2])
qed

end

section \<open>The procedures of a replica\<close>

lemma paxos_registered [simp]: "registered (paxos_servers link run boot me) (paxos_service link run boot me)"
  by (simp add: registered_def paxos_servers_def register_service_base_def paxos_service_def)

lemma paxos_numbers [simp]: "sv_prog (paxos_service link run boot me) = paxos_program" "sv_vers (paxos_service link run boot me) = paxos_version"
  by (simp_all add: paxos_service_def)

lemma paxos_procedures:
  "sync_procedure xdr_replicate_arg replicate_arg_ok xdr_replicate_res replicate_res_ok (paxos_service link run boot me) 2 (srv_replicate run me)"
  "sync_procedure xdr_view_change_arg view_change_arg_ok xdr_view_change_res view_change_res_ok (paxos_service link run boot me) 101 srv_view_change"
  "sync_procedure xdr_new_view_arg new_view_arg_ok xdr_new_view_res new_view_res_ok (paxos_service link run boot me) 102 srv_new_view"
  "sync_procedure xdr_init_view_arg init_view_arg_ok xdr_init_view_res init_view_res_ok (paxos_service link run boot me) 103 (srv_init_view link run boot me)"
  by (intro sync_procedure.intro sync_procedure_axioms.intro codec_intros; simp add: paxos_service_def paxos_call_dispatch_def)+

interpretation rpl: sync_procedure xdr_replicate_arg replicate_arg_ok xdr_replicate_res replicate_res_ok
    "paxos_service link run boot me" 2 "srv_replicate run me" for link run boot me
  by (rule paxos_procedures)

interpretation viewChange: sync_procedure xdr_view_change_arg view_change_arg_ok xdr_view_change_res view_change_res_ok
    "paxos_service link run boot me" 101 srv_view_change for link run boot me
  by (rule paxos_procedures)

interpretation newView: sync_procedure xdr_new_view_arg new_view_arg_ok xdr_new_view_res new_view_res_ok
    "paxos_service link run boot me" 102 srv_new_view for link run boot me
  by (rule paxos_procedures)

interpretation initView: sync_procedure xdr_init_view_arg init_view_arg_ok xdr_init_view_res init_view_res_ok
    "paxos_service link run boot me" 103 "srv_init_view link run boot me" for link run boot me
  by (rule paxos_procedures)

lemma replicate_res_value: "replicate_call run arg r = Inr (Some res, r') \<Longrightarrow> res = \<lparr>rr_vs = no_viewstamp\<rparr>"
  by (auto simp: replicate_call_def Let_def lift_px_xdr_def lift_px_run_def split: if_splits sum.splits)

lemma no_viewstamp_fits: "replicate_res_ok \<lparr>rr_vs = no_viewstamp\<rparr>" "c_size xdr_replicate_res \<lparr>rr_vs = no_viewstamp\<rparr> < 0x70000000"
  by (simp_all add: replicate_res_ok_def viewstamp_t_ok_def viewid_t_ok_def no_viewstamp_def fits_def xdr_replicate_res_def
      xdr_viewstamp_t_def xdr_viewid_t_def c_struct_def c_pair_def c_u32_def c_u64_def c_string_def c_bytes_def)

text \<open>A reply that is only a header.\<close>

lemma hdr_msg_ok:
  assumes "rpc_msg_ok h" "c_size xdr_rpc_msg h < 0x1000"
  obtains m where "hdr_msg h s = Inr (Some m, s)" "read_hdr m = Inr (h, [])" "xdr_from_msg xdr_rpc_msg m = Inr h"
proof -
  have size: "c_size xdr_rpc_msg h < 0x80000000" using assms(2) by linarith
  obtain m where m: "xdr_to_msg xdr_rpc_msg h = Inr m" "m_data m = wire xdr_rpc_msg h" using rpcMsg.to_msg_ok [OF assms(1) size] by blast
  have "xdr_from_msg xdr_rpc_msg m = Inr h" using rpcMsg.from_msg_to_msg [OF assms(1) size] m(1) by simp
  moreover have "length (wire xdr_rpc_msg h) mod 4 = 0" using rpcMsg.wire_length [OF assms(1)] rpcMsg.size_aligned [OF assms(1)] by auto
  then have "read_hdr m = Inr (h, [])" using rpcMsg.load_wire [OF assms(1), of "[]"] m(2) by (simp add: read_hdr_def xdr_get_init_def)
  ultimately show ?thesis using m(1) by (intro that [of m]) (simp_all add: hdr_msg_def)
qed

lemma error_hdr_msg:
  assumes "rpc_msg_ok h" "c_size xdr_rpc_msg h < 0x1000" "rm_xid h = xid" "check_call_hdr h = Inl e"
  obtains m where "hdr_msg h s = Inr (Some m, s)" "error_reply xid m" "sync_result R xid m = Inl (Re_call e)"
  by (rule hdr_msg_ok [OF assms(1,2)]) (use assms(3,4) in \<open>auto intro!: that simp: sync_result_def error_reply_def\<close>)


lemma replicate_delivered:
  assumes "replicate_arg_ok arg" "c_size xdr_replicate_arg arg < 0x70000000" "me < length cl"
    and r: "replicate_call run arg (cl ! me) = Inr (Some res, r)"
  obtains m m' where "sync_call xdr_replicate_arg paxos_program paxos_version 2 arg n = Inr (n + 1, m)"
    "dispatch (paxos_servers link run boot me) m cl = Inr (Some m', cl[me := r])" "sync_result xdr_replicate_res (n + 1) m' = Inr res"
proof -
  have fit: "replicate_res_ok res" "c_size xdr_replicate_res res < 0x70000000"
    unfolding replicate_res_value [OF r] by (rule no_viewstamp_fits)+
  have "srv_replicate run me arg cl = Inr (res, cl[me := r])"
    using r assms(3) by (simp add: srv_replicate_def on_replica_def at_def lift_px_def)
  then show ?thesis
    by (rule rpl.call_roundtrip [OF assms(1,2) paxos_registered _ fit, where n = n]) (rule that; simp)
qed

lemma replicate_arg_size:
  assumes "length request < 0x50000"
  shows "replicate_arg_ok (new_replicate_arg ts request)" "c_size xdr_replicate_arg (new_replicate_arg ts request) < 0x70000000"
proof -
  have "(length request + 7) div 4 * 4 \<le> length request + 7" by (rule div_times_less_eq_dividend)
  with assms have "(length request + 7) div 4 * 4 < 0x60000" by linarith
  then show "c_size xdr_replicate_arg (new_replicate_arg ts request) < 0x70000000"
    by (simp add: new_replicate_arg_def no_viewstamp_def new_execute_arg_def xdr_replicate_arg_def xdr_viewstamp_t_def xdr_viewid_t_def
      xdr_execute_arg_def c_struct_def c_pair_def c_string_def c_bytes_def c_opaque_def c_u64_def c_u32_def)
  show "replicate_arg_ok (new_replicate_arg ts request)" using assms
    by (simp add: new_replicate_arg_def no_viewstamp_def new_execute_arg_def replicate_arg_ok_def viewstamp_t_ok_def viewid_t_ok_def
      execute_arg_ok_def fits_def XDR_MAX_LEN_def)
qed



lemma hdr_msg_no_throw [simp]: "(case hdr_msg h s of Inl (Sync_throw e) \<Rightarrow> X e | q \<Rightarrow> q) = hdr_msg h s"
  by (auto simp: hdr_msg_def sync_msg_def bindR_def split: sum.split)

definition error_hdr :: "u32 \<Rightarrow> rpc_msg \<Rightarrow> bool" where
  "error_hdr xid h \<longleftrightarrow> rpc_msg_ok h \<and> c_size xdr_rpc_msg h < 0x1000 \<and> rm_xid h = xid \<and> (\<exists>e. check_call_hdr h = Inl e)"

lemma error_hdrs:
  "stat \<noteq> SUCCESS \<Longrightarrow> error_hdr xid (accepted_hdr xid stat)"
  "error_hdr (rm_xid h) (rpc_mkerr_reject h RPC_MISMATCH)"
  "error_hdr (rm_xid h) (version_mismatch h vs)"
proof -
  show "stat \<noteq> SUCCESS \<Longrightarrow> error_hdr xid (accepted_hdr xid stat)"
    using accepted_hdr_size check_accepted_hdr by (auto simp: error_hdr_def) (simp add: accepted_hdr_def)
  show "error_hdr (rm_xid h) (rpc_mkerr_reject h RPC_MISMATCH)"
    using reject_size [of h] rpc_mkerr_ok(2) [of h RPC_MISMATCH]
    by (simp add: error_hdr_def) (simp add: rpc_mkerr_reject_def check_call_hdr_def)
  show "error_hdr (rm_xid h) (version_mismatch h vs)"
    by (simp add: error_hdr_def version_mismatch_def accepted_ok accepted_size check_call_hdr_def rd_disc_def rpc_enum_defs)
qed

text \<open>A call that is not for a procedure of the service.\<close>

lemma foreign_call_refused:
  assumes "read_hdr m = Inr (hdr, g)" "rm_body hdr = Rp_cbody c"
    and "cb_rpcvers c \<noteq> 2 \<or> cb_prog c \<noteq> paxos_program \<or> cb_vers c \<noteq> paxos_version \<or> cb_proc c \<notin> {2, 101, 102, 103}"
  shows "\<exists>r. sync_receive_cb (paxos_servers link run boot me) (Some m) cl = Inr (Put_msg r, cl) \<and> error_reply (rm_xid hdr) r"
proof -
  have servers: "paxos_servers link run boot me = [(paxos_program, [(paxos_version, paxos_service link run boot me)])]"
    by (simp add: paxos_servers_def register_service_base_def)
  have "\<exists>h. dispatch (paxos_servers link run boot me) m cl = hdr_msg h cl \<and> error_hdr (rm_xid hdr) h"
    using assms error_hdrs
    by (auto simp: dispatch_def servers process_def paxos_service_def paxos_call_dispatch_def rpc_mkerr_accept_def
        hdr_msg_def [symmetric] rpc_enum_defs split: if_splits)
  then obtain h e where h: "dispatch (paxos_servers link run boot me) m cl = hdr_msg h cl" "rpc_msg_ok h" "c_size xdr_rpc_msg h < 0x1000"
    "rm_xid h = rm_xid hdr" "check_call_hdr h = Inl e" by (auto simp: error_hdr_def)
  show ?thesis by (rule error_hdr_msg [OF h(2-5), of cl]) (use h(1) in \<open>simp add: sync_receive_cb_def\<close>)
qed


lemma rpc_replicate_view:
  assumes "replicate_arg_ok arg" "c_size xdr_replicate_arg arg < 0x70000000" "vs_ts (ra_vs arg) = 0"
    and "on_replica i (replicate_call run arg) cl = Inr (res, cl')"
  shows "rpc_replicate link run boot i arg (n, cl) = Inr (n + 1, cl')"
proof -
  obtain r' where i: "i < length cl" and r: "replicate_call run arg (cl ! i) = Inr (res, r')" "cl' = cl[i := r']"
    using assms(4) by (auto simp: on_replica_def at_def split: if_splits)
  obtain v where v: "res = Some v" using r(1) assms(3) by (auto simp: replicate_call_def Let_def split: if_splits)
  obtain m m' where "sync_call xdr_replicate_arg paxos_program paxos_version 2 arg n = Inr (n + 1, m)"
    "dispatch (paxos_servers link run boot i) m cl = Inr (Some m', cl')" "sync_result xdr_replicate_res (n + 1) m' = Inr v"
    using replicate_delivered [OF assms(1,2) i, of run v r' n link boot] r v by auto
  then show ?thesis by (simp add: rpc_replicate_def sync_receive_cb_def)
qed

lemma views_sent_by_message:
  assumes "replicate_arg_ok arg" and "c_size xdr_replicate_arg arg < 0x70000000" and "vs_ts (ra_vs arg) = 0"
    and "send_all link run me arg is cl = Inr cl'"
  shows "\<exists>n'. rpc_send_all link run boot me arg is (n, cl) = Inr (n', cl')"
  using assms(4)
proof (induction "is" arbitrary: n cl)
  case (Cons i "is")
  then obtain r where r: "at cl me = Inr r" by auto
  show ?case
  proof (cases "i \<noteq> self_rank (rp_state r)")
    case True
    then obtain c where c: "getReplicaClient link (rp_state r) i = Inr c" using Cons.prems r by auto
    show ?thesis
    proof (cases c)
      case T: True
      then obtain res cl1 where "on_replica i (replicate_call run arg) cl = Inr (res, cl1)" "send_all link run me arg is cl1 = Inr cl'"
        using Cons.prems r True c by auto
      then show ?thesis using rpc_replicate_view [OF assms(1-3), of i run cl res cl1 link boot n] Cons.IH [of cl1 "n + 1"] r True c T
        by (simp add: at_def split: if_splits)
    next
      case False
      then show ?thesis using Cons r True c by (auto simp: at_def split: if_splits)
    qed
  next
    case False
    then show ?thesis using Cons r by (auto simp: at_def split: if_splits)
  qed
qed simp

text \<open>C9: Sending a view to the other replicas message by message (marshaled calls, their dispatch at
  the receiver and the check of the replies) ends, and leaves the cluster in the state that
  \<open>replicateView\<close> computes by direct calls.\<close>

theorem view_broadcast_by_message:
  assumes "config_ok rs cs" and "cluster_ok rs cs cl" and "me < length cl" and "j < length rs"
  shows "\<exists>m cl' n'. xdr_to_msg xdr_init_view_request (view_request rs cs j) = Inr m
    \<and> replicateView link run me (view_request rs cs j) cl = Inr cl'
    \<and> rpc_send_all link run boot me (new_replicate_arg 0 (raw_data m)) [0..<length rs] (n, cl) = Inr (n', cl')"
proof -
  note C = px [OF assms(1)]
  obtain cl' where v: "replicateView link run me (view_request rs cs j) cl = Inr cl'"
    using px_config.replicateView_total [OF C assms(2-4)] by blast
  then obtain m where m: "xdr_to_msg xdr_init_view_request (view_request rs cs j) = Inr m"
    "send_all link run me (new_replicate_arg 0 (raw_data m)) [0..<length rs] cl = Inr cl'"
    using px_config.all_ranks_ok [OF C assms(2,3)]
    by (auto simp: replicateView_def lift_px_xdr_def split: sum.splits)
  have "length (raw_data m) < 0x50000"
    using px_config.view_request_ok [OF C assms(4)] initViewRequest.to_msg_ok [of "view_request rs cs j"]
      initViewRequest.wire_length [of "view_request rs cs j"] m(1)
    by (auto simp: raw_data_def xdr_to_msg_def message_with_def)
  from views_sent_by_message [OF replicate_arg_size [OF this, of 0] _ m(2), of boot n] m(1) v show ?thesis
    by (auto simp: new_replicate_arg_def no_viewstamp_def)
qed

theorem view_broadcast_by_message_witness:
  "\<exists>m cl' n'. xdr_to_msg xdr_init_view_request (view_request config_replicas config_clients 0) = Inr m
    \<and> replicateView (\<lambda>_ _. True) (\<lambda>b s. Inr (b, s)) 0 (view_request config_replicas config_clients 0)
        (start_cluster config_replicas config_clients (0 :: nat)) = Inr cl'
    \<and> rpc_send_all (\<lambda>_ _. True) (\<lambda>b s. Inr (b, s)) None 0 (new_replicate_arg 0 (raw_data m))
        [0..<length config_replicas] (0, start_cluster config_replicas config_clients 0) = Inr (n', cl')"
proof -
  have "0 < length (start_cluster config_replicas config_clients (0 :: nat))" "0 < length config_replicas"
    by (simp_all add: start_cluster_def config_replicas_def)
  from view_broadcast_by_message [OF config_txt.cfg config_txt.start_cluster_ok this] show ?thesis by blast
qed

end
