(* ===== verification/Replica_Channels.thy ===== *)
theory Replica_Channels
  imports Chubby_Prelude
begin

text \<open>
  The channels between replicas and their locks: class \<open>ReplicaClientSet\<close>
  (\<open>src/paxos/replica_client_set.hh\<close>, \<open>replica_client_set.cc\<close>) as the threads of a replica use it.
  A thread is a number; between two operations on a mutex it stands at a point of its program. The
  mutexes are those of the class: one for connecting, and one for each channel, which
  \<open>getReplicaClient\<close> leaves locked for its caller.
\<close>

section \<open>State\<close>

text \<open>
  The points of the programs: of \<open>tryConnect\<close> (\<open>Try_lock\<close>, \<open>Try_loop\<close>), with the rank for which
  \<open>getReplicaClient\<close> has called it, of the rest of \<open>getReplicaClient\<close> (\<open>Get_*\<close>), of the caller that
  has the channel (\<open>Using\<close>, \<open>Releasing\<close>), and of \<open>detectFailure\<close> (\<open>Det_*\<close>).
\<close>

datatype pc = Unborn | Idle
  | Try_lock "nat option" | Try_loop "nat option" "nat list"
  | Get_start nat | Get_chan nat | Get_have nat
  | Using nat | Releasing nat
  | Det_poll nat | Det_start nat | Det_chan nat | Det_have nat | Finished

record channel =
  ch_client :: bool
  ch_lock :: "nat option"

record client_set =
  start_connecting_lock :: "nat option"
  replica_client_list :: "(nat \<times> channel) list"
  threads :: "nat \<Rightarrow> pc"

text \<open>The constructor, with the ranks of the other replicas and the threads that use the set.\<close>

definition new_client_set :: "nat list \<Rightarrow> nat set \<Rightarrow> client_set" where
  "new_client_set ranks ts = \<lparr>start_connecting_lock = None,
     replica_client_list = map (\<lambda>i. (i, \<lparr>ch_client = False, ch_lock = None\<rparr>)) ranks,
     threads = (\<lambda>t. if t \<in> ts then Idle else Unborn)\<rparr>"

definition chan :: "client_set \<Rightarrow> nat \<Rightarrow> channel option" where
  "chan s = map_of (replica_client_list s)"

definition goto :: "nat \<Rightarrow> pc \<Rightarrow> client_set \<Rightarrow> client_set" where
  "goto t p s = s\<lparr>threads := (threads s)(t := p)\<rparr>"

definition set_chan :: "nat \<Rightarrow> channel \<Rightarrow> client_set \<Rightarrow> client_set" where
  "set_chan i c s = s\<lparr>replica_client_list := map (\<lambda>(j, d). (j, if j = i then c else d)) (replica_client_list s)\<rparr>"

definition set_start :: "nat option \<Rightarrow> client_set \<Rightarrow> client_set" where
  "set_start l s = s\<lparr>start_connecting_lock := l\<rparr>"

section \<open>Steps\<close>

text \<open>
  Locking a mutex needs that nobody has it. \<open>chan_connected\<close> is a successful \<open>tcp_connect\<close>, which
  starts a thread for \<open>detectFailure\<close>; \<open>chan_refused\<close> is one that fails. A call on the channel
  returns, or throws when the connection is lost: then \<open>releaseReplicaClient\<close> is not called.
\<close>

inductive chan_step :: "client_set \<Rightarrow> client_set \<Rightarrow> bool" where
  try_connect: "threads s t = Idle \<Longrightarrow> chan_step s (goto t (Try_lock None) s)"
| get_client: "threads s t = Idle \<Longrightarrow> i \<in> set (map fst (replica_client_list s)) \<Longrightarrow> chan_step s (goto t (Try_lock (Some i)) s)"
| try_locks: "threads s t = Try_lock k \<Longrightarrow> start_connecting_lock s = None \<Longrightarrow>
    chan_step s (set_start (Some t) (goto t (Try_loop k (map fst (replica_client_list s))) s))"
| chan_kept: "threads s t = Try_loop k (i # is) \<Longrightarrow> chan s i = Some c \<Longrightarrow> ch_client c \<Longrightarrow>
    chan_step s (goto t (Try_loop k is) s)"
| chan_connected: "threads s t = Try_loop k (i # is) \<Longrightarrow> chan s i = Some c \<Longrightarrow> \<not> ch_client c \<Longrightarrow> threads s d = Unborn \<Longrightarrow>
    chan_step s (set_chan i (c\<lparr>ch_client := True\<rparr>) (goto d (Det_poll i) (goto t (Try_loop k is) s)))"
| chan_refused: "threads s t = Try_loop k (i # is) \<Longrightarrow> chan s i = Some c \<Longrightarrow> \<not> ch_client c \<Longrightarrow>
    chan_step s (goto t (Try_loop k is) s)"
| try_unlocks: "threads s t = Try_loop k [] \<Longrightarrow>
    chan_step s (set_start None (goto t (case k of None \<Rightarrow> Idle | Some i \<Rightarrow> Get_start i) s))"
| get_locks_start: "threads s t = Get_start i \<Longrightarrow> start_connecting_lock s = None \<Longrightarrow>
    chan_step s (set_start (Some t) (goto t (Get_chan i) s))"
| get_locks_chan: "threads s t = Get_chan i \<Longrightarrow> chan s i = Some c \<Longrightarrow> ch_lock c = None \<Longrightarrow>
    chan_step s (set_chan i (c\<lparr>ch_lock := Some t\<rparr>) (goto t (Get_have i) s))"
| get_returns: "threads s t = Get_have i \<Longrightarrow> chan s i = Some c \<Longrightarrow> ch_client c \<Longrightarrow>
    chan_step s (set_start None (goto t (Using i) s))"
| get_returns_null: "threads s t = Get_have i \<Longrightarrow> chan s i = Some c \<Longrightarrow> \<not> ch_client c \<Longrightarrow>
    chan_step s (set_start None (set_chan i (c\<lparr>ch_lock := None\<rparr>) (goto t Idle s)))"
| call_returns: "threads s t = Using i \<Longrightarrow> chan_step s (goto t (Releasing i) s)"
| call_throws: "threads s t = Using i \<Longrightarrow> chan_step s (goto t Idle s)"
| releases: "threads s t = Releasing i \<Longrightarrow> chan s i = Some c \<Longrightarrow>
    chan_step s (set_chan i (c\<lparr>ch_lock := None\<rparr>) (goto t Idle s))"
| hangs_up: "threads s t = Det_poll i \<Longrightarrow> chan_step s (goto t (Det_start i) s)"
| det_locks_start: "threads s t = Det_start i \<Longrightarrow> start_connecting_lock s = None \<Longrightarrow>
    chan_step s (set_start (Some t) (goto t (Det_chan i) s))"
| det_locks_chan: "threads s t = Det_chan i \<Longrightarrow> chan s i = Some c \<Longrightarrow> ch_lock c = None \<Longrightarrow>
    chan_step s (set_chan i (c\<lparr>ch_lock := Some t\<rparr>) (goto t (Det_have i) s))"
| det_clears: "threads s t = Det_have i \<Longrightarrow> chan s i = Some c \<Longrightarrow>
    chan_step s (set_start None (set_chan i (c\<lparr>ch_client := False, ch_lock := None\<rparr>) (goto t Finished s)))"

abbreviation chan_run :: "client_set \<Rightarrow> client_set \<Rightarrow> bool" where
  "chan_run \<equiv> chan_step\<^sup>*\<^sup>*"

section \<open>Accessors\<close>

lemma goto_simps [simp]:
  "threads (goto t p s) = (threads s)(t := p)" "start_connecting_lock (goto t p s) = start_connecting_lock s"
  "replica_client_list (goto t p s) = replica_client_list s" "chan (goto t p s) = chan s"
  by (simp_all add: goto_def chan_def)

lemma set_start_simps [simp]:
  "threads (set_start l s) = threads s" "start_connecting_lock (set_start l s) = l"
  "replica_client_list (set_start l s) = replica_client_list s" "chan (set_start l s) = chan s"
  by (simp_all add: set_start_def chan_def)

lemma set_chan_simps [simp]:
  "threads (set_chan i c s) = threads s" "start_connecting_lock (set_chan i c s) = start_connecting_lock s"
  "map fst (replica_client_list (set_chan i c s)) = map fst (replica_client_list s)"
  by (simp_all add: set_chan_def case_prod_beta)

lemma chan_set_chan [simp]: "chan (set_chan i c s) j = (if j = i \<and> chan s i \<noteq> None then Some c else chan s j)"
proof -
  have "map_of (map (\<lambda>(j, d). (j, if j = i then c else d)) xs) j = (if j = i \<and> map_of xs i \<noteq> None then Some c else map_of xs j)" for xs
    by (induction xs) auto
  then show ?thesis by (simp add: chan_def set_chan_def)
qed

section \<open>What a thread holds\<close>

fun holds_start :: "pc \<Rightarrow> bool" where
  "holds_start (Try_loop _ _) = True"
| "holds_start (Get_chan _) = True"
| "holds_start (Get_have _) = True"
| "holds_start (Det_chan _) = True"
| "holds_start (Det_have _) = True"
| "holds_start _ = False"

fun holds_chan :: "pc \<Rightarrow> nat \<Rightarrow> bool" where
  "holds_chan (Get_have i) j = (j = i)"
| "holds_chan (Using i) j = (j = i)"
| "holds_chan (Releasing i) j = (j = i)"
| "holds_chan (Det_have i) j = (j = i)"
| "holds_chan _ j = False"

end
