(* ===== verification/Replica_Channels_Properties.thy ===== *)
theory Replica_Channels_Properties
  imports Replica_Channels
begin

text \<open>
  Invariants of the channels between replicas over all interleavings of the threads, and a deadlock.
\<close>

section \<open>Invariants\<close>

abbreviation start_ok :: "(nat \<Rightarrow> pc) \<Rightarrow> nat option \<Rightarrow> bool" where
  "start_ok f l \<equiv> \<forall>t. holds_start (f t) \<longleftrightarrow> l = Some t"

abbreviation chans_ok :: "(nat \<Rightarrow> pc) \<Rightarrow> (nat \<Rightarrow> channel option) \<Rightarrow> bool" where
  "chans_ok f m \<equiv> \<forall>t i. holds_chan (f t) i \<longrightarrow> (\<exists>c. m i = Some c \<and> ch_lock c = Some t)"

lemma start_stays: "start_ok f l \<Longrightarrow> holds_start p = holds_start (f t) \<Longrightarrow> start_ok (f(t := p)) l"
  by simp

lemma start_taken: "start_ok f None \<Longrightarrow> holds_start p \<Longrightarrow> start_ok (f(t := p)) (Some t)"
  by auto

lemma start_given: "start_ok f l \<Longrightarrow> holds_start (f t) \<Longrightarrow> \<not> holds_start p \<Longrightarrow> start_ok (f(t := p)) None"
  by auto

lemma start_inv: "chan_step s s' \<Longrightarrow> start_ok (threads s) (start_connecting_lock s) \<Longrightarrow> start_ok (threads s') (start_connecting_lock s')"
proof (induction rule: chan_step.induct)
  case (chan_connected s t k i "is" c d)
  then have "start_ok ((threads s)(t := Try_loop k is)) (start_connecting_lock s)" by (intro start_stays) auto
  then have "start_ok ((threads s)(t := Try_loop k is, d := Det_poll i)) (start_connecting_lock s)"
    by (rule start_stays) (use chan_connected in auto)
  then show ?case by simp
next
  case (try_unlocks s t k)
  then have "start_ok ((threads s)(t := (case k of None \<Rightarrow> Idle | Some i \<Rightarrow> Get_start i))) None"
    by (intro start_given [of _ "start_connecting_lock s"]) (auto split: option.split)
  then show ?case by simp
qed (simp_all only: goto_simps set_start_simps set_chan_simps,
  (rule start_stays, assumption, simp | rule start_taken, simp, simp | rule start_given, assumption, simp, simp)+)

lemma chan_upd: "chan s i = Some c0 \<Longrightarrow> chan (set_chan i c s) = (chan s)(i \<mapsto> c)"
  by (auto simp: fun_eq_iff)

lemma chans_stays: "chans_ok f m \<Longrightarrow> \<forall>i. holds_chan p i \<longrightarrow> holds_chan (f t) i \<Longrightarrow> chans_ok (f(t := p)) m"
  by auto

lemma chans_client: "chans_ok f m \<Longrightarrow> m i = Some c \<Longrightarrow> ch_lock c' = ch_lock c \<Longrightarrow> chans_ok f (m(i \<mapsto> c'))"
  by fastforce

lemma chans_taken:
  "chans_ok f m \<Longrightarrow> m i = Some c \<Longrightarrow> ch_lock c = None \<Longrightarrow> ch_lock c' = Some t \<Longrightarrow> \<forall>j. holds_chan p j \<longrightarrow> j = i \<Longrightarrow>
   chans_ok (f(t := p)) (m(i \<mapsto> c'))"
  by (intro allI impI) (metis fun_upd_apply option.distinct(1) option.inject)

lemma chans_given:
  "chans_ok f m \<Longrightarrow> m i = Some c \<Longrightarrow> holds_chan (f t) i \<Longrightarrow> \<forall>j. \<not> holds_chan p j \<Longrightarrow> chans_ok (f(t := p)) (m(i \<mapsto> c'))"
  by (intro allI impI) (metis fun_upd_apply option.inject)

lemma chans_inv: "chan_step s s' \<Longrightarrow> chans_ok (threads s) (chan s) \<Longrightarrow> chans_ok (threads s') (chan s')"
proof (induction rule: chan_step.induct)
  case (chan_connected s t k i "is" c d)
  then have "chans_ok ((threads s)(t := Try_loop k is)) (chan s)" by (intro chans_stays) auto
  then have "chans_ok ((threads s)(t := Try_loop k is, d := Det_poll i)) (chan s)" by (rule chans_stays) simp
  then have "chans_ok ((threads s)(t := Try_loop k is, d := Det_poll i)) ((chan s)(i \<mapsto> c\<lparr>ch_client := True\<rparr>))"
    by (rule chans_client) (use chan_connected in simp_all)
  then show ?case using chan_connected by (simp only: goto_simps set_chan_simps chan_upd)
next
  case (try_unlocks s t k)
  then have "chans_ok ((threads s)(t := (case k of None \<Rightarrow> Idle | Some i \<Rightarrow> Get_start i))) (chan s)"
    by (intro chans_stays) (auto split: option.split)
  then show ?case by simp
qed (simp_all only: goto_simps set_start_simps set_chan_simps chan_upd,
  (rule chans_stays, assumption, simp | rule chans_taken, assumption+, simp, simp | rule chans_given, assumption+, simp, simp)+)

abbreviation using_ok :: "(nat \<Rightarrow> pc) \<Rightarrow> (nat \<Rightarrow> channel option) \<Rightarrow> bool" where
  "using_ok f m \<equiv> \<forall>t i. f t = Using i \<longrightarrow> (\<exists>c. m i = Some c \<and> ch_client c)"

lemma using_stays: "using_ok f m \<Longrightarrow> (\<And>i. p \<noteq> Using i) \<Longrightarrow> using_ok (f(t := p)) m"
  by auto

lemma using_client: "using_ok f m \<Longrightarrow> ch_client c' \<or> (m i = Some c \<and> ch_client c' = ch_client c) \<Longrightarrow> using_ok f (m(i \<mapsto> c'))"
  by fastforce

lemma using_inv:
  "chan_step s s' \<Longrightarrow> chans_ok (threads s) (chan s) \<Longrightarrow> using_ok (threads s) (chan s) \<Longrightarrow> using_ok (threads s') (chan s')"
proof (induction rule: chan_step.induct)
  case (get_returns s t i c)
  then show ?case by auto
next
  case (det_clears s t i c)
  have "threads s u \<noteq> Using i" for u
  proof
    assume "threads s u = Using i"
    with det_clears.prems(1) [rule_format, of u i] det_clears.prems(1) [rule_format, of t i] det_clears.hyps have "u = t" by auto
    with det_clears.hyps \<open>threads s u = Using i\<close> show False by simp
  qed
  then show ?case using det_clears by auto
next
  case (try_unlocks s t k)
  then show ?case by (auto split: option.splits if_splits)
qed (auto split: if_splits; fastforce)+

lemma chan_run_inv:
  assumes "chan_run (new_client_set ranks ts) s"
  shows "start_ok (threads s) (start_connecting_lock s) \<and> chans_ok (threads s) (chan s) \<and> using_ok (threads s) (chan s)"
  using assms
proof (induction rule: rtranclp_induct)
  case base
  show ?case by (simp add: new_client_set_def)
next
  case (step y z)
  then show ?case using start_inv [of y z] chans_inv [of y z] using_inv [of y z] by blast
qed

text \<open>One channel, used by thread 0 and watched by thread 5.\<close>

definition one_channel :: client_set where
  "one_channel = \<lparr>start_connecting_lock = None, replica_client_list = [(1, \<lparr>ch_client = True, ch_lock = Some 0\<rparr>)],
     threads = (\<lambda>t. Unborn)(0 := Using 1, 5 := Det_poll 1)\<rparr>"

lemma one_channel_run: "chan_run (new_client_set [1] {0}) one_channel"
proof -
  define s0 where "s0 = new_client_set [1] {0}"
  let ?c = "\<lparr>ch_client = False, ch_lock = None\<rparr>"
  define s1 where "s1 = goto 0 (Try_lock (Some 1)) s0"
  define s2 where "s2 = set_start (Some 0) (goto 0 (Try_loop (Some 1) [1]) s1)"
  define s3 where "s3 = set_chan 1 (?c\<lparr>ch_client := True\<rparr>) (goto 5 (Det_poll 1) (goto 0 (Try_loop (Some 1) []) s2))"
  define s4 where "s4 = set_start None (goto 0 (Get_start 1) s3)"
  define s5 where "s5 = set_start (Some 0) (goto 0 (Get_chan 1) s4)"
  define s6 where "s6 = set_chan 1 (\<lparr>ch_client = True, ch_lock = None\<rparr>\<lparr>ch_lock := Some 0\<rparr>) (goto 0 (Get_have 1) s5)"
  define s7 where "s7 = set_start None (goto 0 (Using 1) s6)"
  note defs = s0_def s1_def s2_def s3_def s4_def s5_def s6_def s7_def new_client_set_def chan_def goto_def set_start_def set_chan_def
  have "chan_step s0 s1" unfolding s1_def by (rule get_client) (simp_all add: defs)
  moreover have "chan_step s1 s2" unfolding s2_def using try_locks [of s1 0 "Some 1"] by (simp add: defs)
  moreover have "chan_step s2 s3" unfolding s3_def by (rule chan_connected) (simp_all add: defs)
  moreover have "chan_step s3 s4" unfolding s4_def using try_unlocks [of s3 0 "Some 1"] by (simp add: defs)
  moreover have "chan_step s4 s5" unfolding s5_def by (rule get_locks_start) (simp_all add: defs)
  moreover have "chan_step s5 s6" unfolding s6_def by (rule get_locks_chan) (simp_all add: defs)
  moreover have "chan_step s6 s7" unfolding s7_def by (rule get_returns [where c = "\<lparr>ch_client = True, ch_lock = Some 0\<rparr>"]) (simp_all add: defs)
  ultimately have "chan_run s0 s7" by (meson rtranclp.rtrancl_refl rtranclp.rtrancl_into_rtrancl)
  moreover have "s7 = one_channel" by (simp add: defs one_channel_def fun_eq_iff)
  ultimately show ?thesis by (simp add: s0_def)
qed

text \<open>C10: A channel to another replica is used by one thread at a time, and the client object is not
  deleted under it: a thread that has got the channel of a rank holds its mutex, no other thread
  uses the channel, and the thread that watches the connection is not clearing it.\<close>

theorem channel_exclusive:
  assumes "chan_run (new_client_set ranks ts) s" and "threads s t = Using i"
  shows "(\<forall>u. threads s u = Using i \<longrightarrow> u = t) \<and> (\<exists>c. chan s i = Some c \<and> ch_client c \<and> ch_lock c = Some t)
    \<and> (\<forall>u. threads s u \<noteq> Det_have i)"
proof -
  from chan_run_inv [OF assms(1)] have c: "chans_ok (threads s) (chan s)" and u: "using_ok (threads s) (chan s)" by blast+
  from c [rule_format, of t i] assms(2) obtain d where d: "chan s i = Some d" "ch_lock d = Some t" by auto
  have "v = t" if "holds_chan (threads s v) i" for v using c [rule_format, OF that] d by simp
  moreover have "threads s v \<noteq> Det_have i" for v using calculation [of v] assms(2) by force
  ultimately show ?thesis using u [rule_format, OF assms(2)] d by force
qed

theorem channel_exclusive_witness:
  "threads one_channel 0 = Using 1 \<and> (\<exists>c. chan one_channel 1 = Some c \<and> ch_client c \<and> ch_lock c = Some 0)"
  using channel_exclusive [OF one_channel_run, of 0 1] by (simp add: one_channel_def)

section \<open>A lost connection\<close>

definition stuck :: "nat \<Rightarrow> nat \<Rightarrow> nat \<Rightarrow> client_set \<Rightarrow> bool" where
  "stuck i d t s \<longleftrightarrow> start_ok (threads s) (start_connecting_lock s) \<and> chans_ok (threads s) (chan s)
     \<and> threads s d = Det_chan i \<and> \<not> holds_chan (threads s t) i \<and> (\<exists>c. chan s i = Some c \<and> ch_lock c = Some t)"

lemma stuck_move:
  assumes "f d = Det_chan i" "\<not> holds_chan (f t) i" "f u \<noteq> Det_chan i" "\<not> holds_chan p i" "\<forall>j. p \<noteq> Using j"
  shows "(f(u := p)) d = Det_chan i \<and> \<not> holds_chan ((f(u := p)) t) i \<and> (\<forall>v j. (f(u := p)) v = Using j \<longrightarrow> f v = Using j)"
  using assms by auto

lemma stuck_step:
  assumes "chan_step s s'" "stuck i d t s"
  shows "stuck i d t s' \<and> (\<forall>u j. threads s' u = Using j \<longrightarrow> threads s u = Using j)"
proof -
  from assms(2) have I: "start_ok (threads s) (start_connecting_lock s)" "chans_ok (threads s) (chan s)"
    and D: "threads s d = Det_chan i" "\<not> holds_chan (threads s t) i" and C: "\<exists>c. chan s i = Some c \<and> ch_lock c = Some t"
    by (auto simp: stuck_def)
  from I(1) D(1) have only: "holds_start (threads s u) \<Longrightarrow> u = d" for u by (metis holds_start.simps(4) option.inject)
  have l: "start_connecting_lock s = Some d" using I(1) D(1) by (metis holds_start.simps(4))
  have free: "holds_chan (threads s u) i \<Longrightarrow> False" for u using I(2) C D(2) by (metis option.inject)
  have nS: "threads s u \<noteq> Try_loop k js" "threads s u \<noteq> Get_chan j" "threads s u \<noteq> Get_have j" "threads s u \<noteq> Det_have j" for u k js j
    using only [of u] D(1) by auto
  have nC: "threads s u \<noteq> Using i" "threads s u \<noteq> Releasing i" for u using free [of u] by auto
  have nD: "threads s u = Det_chan j \<Longrightarrow> j = i" for u j using only [of u] D(1) by auto
  have "threads s' d = Det_chan i \<and> \<not> holds_chan (threads s' t) i \<and> (\<exists>c. chan s' i = Some c \<and> ch_lock c = Some t)
    \<and> (\<forall>u j. threads s' u = Using j \<longrightarrow> threads s u = Using j)"
    using assms(1)
  proof (cases rule: chan_step.cases)
    case (det_locks_chan u j c)
    then show ?thesis using nD [of u j] C by auto
  next
    case (call_returns u j)
    then show ?thesis using stuck_move [where f = "threads s", OF D, of u "Releasing j"] C nC(1) [of u] by auto
  next
    case (call_throws u j)
    then show ?thesis using stuck_move [where f = "threads s", OF D, of u Idle] C by auto
  next
    case (releases u j c)
    then show ?thesis using stuck_move [where f = "threads s", OF D, of u Idle] C nC(2) [of u] by auto
  next
    case (hangs_up u j)
    then show ?thesis using stuck_move [where f = "threads s", OF D, of u "Det_start j"] C by auto
  next
    case (try_connect u)
    then show ?thesis using stuck_move [where f = "threads s", OF D, of u "Try_lock None"] C by auto
  next
    case (get_client u j)
    then show ?thesis using stuck_move [where f = "threads s", OF D, of u "Try_lock (Some j)"] C by auto
  qed (use l nS in simp_all)
  then show ?thesis using start_inv [OF assms(1) I(1)] chans_inv [OF assms(1) I(2)] unfolding stuck_def by blast
qed

lemma stuck_run:
  assumes "chan_run s s'" "stuck i d t s"
  shows "stuck i d t s' \<and> (\<forall>u j. threads s' u = Using j \<longrightarrow> threads s u = Using j)"
  using assms
proof (induction rule: rtranclp_induct)
  case (step y z)
  then show ?case using stuck_step [of y z i d t] by blast
qed simp

text \<open>C11: A lost connection can block a replica for ever: when a call on a channel throws, the mutex of
  the channel is never released. The thread that watches the connection then takes the mutex for
  connecting and waits for the one of the channel, and from there on no thread gets a channel to
  any replica.\<close>

theorem lost_channel_deadlocks:
  assumes "chan_run (new_client_set ranks ts) s" and "threads s t = Using i" and "threads s d = Det_poll i"
    and "start_connecting_lock s = None"
  shows "\<exists>s'. chan_run s s' \<and> threads s' t = Idle
    \<and> (\<forall>s''. chan_run s' s'' \<longrightarrow> start_connecting_lock s'' = Some d \<and> (\<forall>u j. threads s'' u = Using j \<longrightarrow> threads s' u = Using j))"
proof -
  let ?s1 = "goto t Idle s" and ?s2 = "goto d (Det_start i) (goto t Idle s)"
  let ?s3 = "set_start (Some d) (goto d (Det_chan i) ?s2)"
  have td: "t \<noteq> d" using assms(2,3) by auto
  have "chan_step s ?s1" by (rule call_throws [OF assms(2)])
  moreover have "chan_step ?s1 ?s2" by (rule hangs_up) (use assms(3) td in simp)
  moreover have "chan_step ?s2 ?s3" by (rule det_locks_start) (use assms(4) in simp_all)
  ultimately have run: "chan_run s ?s3" by (meson r_into_rtranclp rtranclp_trans)
  from chan_run_inv [OF rtranclp_trans [OF assms(1) run]] have I: "start_ok (threads ?s3) (start_connecting_lock ?s3)" "chans_ok (threads ?s3) (chan ?s3)" by blast+
  from channel_exclusive [OF assms(1,2)] have "\<exists>c. chan s i = Some c \<and> ch_lock c = Some t" by blast
  with I td have st: "stuck i d t ?s3" by (simp add: stuck_def)
  have "start_connecting_lock s'' = Some d \<and> (\<forall>u j. threads s'' u = Using j \<longrightarrow> threads ?s3 u = Using j)" if "chan_run ?s3 s''" for s''
    using stuck_run [OF that st] unfolding stuck_def by (metis holds_start.simps(4))
  moreover have "threads ?s3 t = Idle" using td by simp
  ultimately show ?thesis using run by blast
qed

theorem lost_channel_deadlocks_witness:
  "\<exists>s'. chan_run one_channel s' \<and> threads s' 0 = Idle \<and> start_connecting_lock s' = Some 5"
  using lost_channel_deadlocks [OF one_channel_run, of 0 1 5] by (auto simp: one_channel_def)

end
