(* ===== verification/Xdr_Union.thy ===== *)
theory Xdr_Union
  imports Xdr_Codec
begin

text \<open>
  The classes that the XDR compiler generates for unions (\<open>gen(std::ostream&, const rpc_union&)\<close> of
  \<open>src/xdrpp/xdrc/gen_hh.cc\<close>; the classes themselves are in \<open>server.hh\<close>, \<open>server_paxos.hh\<close> and
  \<open>paxos.hh\<close>): a discriminant and an anonymous \<open>union\<close> whose members are constructed and destroyed by
  hand. The object keeps which member is alive, so that a use of a member that is not is an error
  of the model. The locale \<open>sound_union\<close> holds what the generator guarantees of a class.
\<close>

section \<open>Classes and objects\<close>

text \<open>
  A class. It has two functions of a discriminant, which the generator writes separately:
  \<open>_xdr_field_number\<close>, the number of the member it selects (0 for \<open>void\<close>, -1 for none), and the \<open>switch\<close>
  of \<open>_xdr_with_mem_ptr\<close>, the member whose pointer is passed to the function object (\<open>None\<close> when it
  returns without calling it). Then the member a value belongs to, what default initialisation leaves in a member (\<open>None\<close> when that is
  indeterminate, for scalars), the value of an object whose arm is \<open>void\<close>, and how the number read
  from a message becomes a discriminant.
\<close>

record 'v union_class =
  field_number :: "u32 \<Rightarrow> int"
  mem_ptr :: "u32 \<Rightarrow> int option"
  member_of :: "'v \<Rightarrow> int"
  member_init :: "int \<Rightarrow> 'v option"
  void_value :: "u32 \<Rightarrow> 'v"
  tag_of :: "u32 \<Rightarrow> u32"

text \<open>An object: the discriminant, and the member that is alive with its value.\<close>

record 'v union_obj =
  u_disc :: u32
  u_member :: "(int \<times> 'v option) option"

text \<open>
  Errors: \<open>xdr_bad_discriminant\<close> and \<open>xdr_wrong_union\<close>, and two that the language leaves undefined: the
  use of a member that is not alive, and the read of an indeterminate value.
\<close>

datatype union_error = Bad_discriminant | Wrong_union | Dead_member | Indeterminate

section \<open>Operations\<close>

text \<open>\<open>_xdr_with_mem_ptr\<close> with \<open>field_constructor\<close>, without and with a source.\<close>

definition construct_default :: "'v union_class \<Rightarrow> u32 \<Rightarrow> (int \<times> 'v option) option" where
  "construct_default C which = (case mem_ptr C which of Some i \<Rightarrow> Some (i, member_init C i) | None \<Rightarrow> None)"

definition construct_from :: "'v union_class \<Rightarrow> u32 \<Rightarrow> 'v union_obj \<Rightarrow> union_error + (int \<times> 'v option) option" where
  "construct_from C which source =
     (case mem_ptr C which of
        Some i \<Rightarrow> (case u_member source of
          Some (j, v) \<Rightarrow> if j = i then Inr (Some (i, v)) else Inl Dead_member
        | None \<Rightarrow> Inl Dead_member)
      | None \<Rightarrow> Inr None)"

text \<open>With \<open>field_destructor\<close>, and with \<open>field_assigner\<close>, which uses the member of both objects.\<close>

definition u_destroy :: "'v union_class \<Rightarrow> 'v union_obj \<Rightarrow> union_error + 'v union_obj" where
  "u_destroy C u =
     (case mem_ptr C (u_disc u) of
        Some i \<Rightarrow> (case u_member u of
          Some (j, v) \<Rightarrow> if j = i then Inr (u\<lparr>u_member := None\<rparr>) else Inl Dead_member
        | None \<Rightarrow> Inl Dead_member)
      | None \<Rightarrow> Inr u)"

definition assign_member :: "'v union_class \<Rightarrow> u32 \<Rightarrow> 'v union_obj \<Rightarrow> 'v union_obj \<Rightarrow> union_error + 'v union_obj" where
  "assign_member C which u source =
     (case mem_ptr C which of
        Some i \<Rightarrow> (case (u_member u, u_member source) of
          (Some (j, _), Some (k, v)) \<Rightarrow> if j = i \<and> k = i then Inr (u\<lparr>u_member := Some (i, v)\<rparr>) else Inl Dead_member
        | _ \<Rightarrow> Inl Dead_member)
      | None \<Rightarrow> Inr u)"

definition u_new :: "'v union_class \<Rightarrow> u32 \<Rightarrow> 'v union_obj" where
  "u_new C which = \<lparr>u_disc = which, u_member = construct_default C which\<rparr>"

text \<open>\<open>_xdr_discriminant(which, validate)\<close>\<close>

definition u_set :: "'v union_class \<Rightarrow> u32 \<Rightarrow> bool \<Rightarrow> 'v union_obj \<Rightarrow> union_error + 'v union_obj" where
  "u_set C which validate u =
     (if field_number C which < 0 \<and> validate then Inl Bad_discriminant
      else if field_number C which \<noteq> field_number C (u_disc u)
      then bindR (u_destroy C u) (\<lambda>u. Inr (u\<lparr>u_disc := which, u_member := construct_default C which\<rparr>))
      else Inr u)"

definition u_copy :: "'v union_class \<Rightarrow> 'v union_obj \<Rightarrow> union_error + 'v union_obj" where
  "u_copy C source = bindR (construct_from C (u_disc source) source) (\<lambda>m. Inr \<lparr>u_disc = u_disc source, u_member = m\<rparr>)"

text \<open>
  \<open>operator=\<close>: with the same member on both sides the member is assigned; otherwise the old one is
  destroyed, and the member that the discriminant \<open>uint32_t(-1)\<close> selects is constructed.
\<close>

definition u_assign :: "'v union_class \<Rightarrow> 'v union_obj \<Rightarrow> 'v union_obj \<Rightarrow> union_error + 'v union_obj" where
  "u_assign C u source =
     (if field_number C (u_disc u) = field_number C (u_disc source)
      then bindR (assign_member C (u_disc u) u source) (\<lambda>u. Inr (u\<lparr>u_disc := u_disc source\<rparr>))
      else bindR (u_destroy C u) (\<lambda>u.
           bindR (construct_from C (-1) source) (\<lambda>m. Inr (u\<lparr>u_disc := u_disc source, u_member := m\<rparr>))))"

text \<open>The accessor of the member \<open>i\<close>: reading it, and assigning to the reference it returns.\<close>

definition u_get :: "'v union_class \<Rightarrow> int \<Rightarrow> 'v union_obj \<Rightarrow> union_error + 'v" where
  "u_get C i u =
     (if field_number C (u_disc u) = i
      then (case u_member u of
        Some (j, v) \<Rightarrow> if j \<noteq> i then Inl Dead_member else (case v of None \<Rightarrow> Inl Indeterminate | Some x \<Rightarrow> Inr x)
      | None \<Rightarrow> Inl Dead_member)
      else Inl Wrong_union)"

definition u_put :: "'v union_class \<Rightarrow> int \<Rightarrow> 'v \<Rightarrow> 'v union_obj \<Rightarrow> union_error + 'v union_obj" where
  "u_put C i x u =
     (if field_number C (u_disc u) = i
      then (case u_member u of
        Some (j, v) \<Rightarrow> if j \<noteq> i then Inl Dead_member else Inr (u\<lparr>u_member := Some (i, Some x)\<rparr>)
      | None \<Rightarrow> Inl Dead_member)
      else Inl Wrong_union)"

text \<open>
  The objects a program can make with these operations, as long as it assigns only between objects
  with the same member. What is assigned to a reference has the type of the member.
\<close>

inductive u_reach :: "'v union_class \<Rightarrow> 'v union_obj \<Rightarrow> bool" for C where
  reach_new: "u_reach C (u_new C which)"
| reach_set: "u_reach C u \<Longrightarrow> u_set C which validate u = Inr u' \<Longrightarrow> u_reach C u'"
| reach_put: "u_reach C u \<Longrightarrow> member_of C x = i \<Longrightarrow> u_put C i x u = Inr u' \<Longrightarrow> u_reach C u'"
| reach_copy: "u_reach C u \<Longrightarrow> u_copy C u = Inr u' \<Longrightarrow> u_reach C u'"
| reach_assign: "u_reach C u \<Longrightarrow> u_reach C source \<Longrightarrow> field_number C (u_disc u) = field_number C (u_disc source) \<Longrightarrow>
    u_assign C u source = Inr u' \<Longrightarrow> u_reach C u'"

section \<open>Well-typed objects\<close>

definition u_typed :: "'v union_class \<Rightarrow> 'v union_obj \<Rightarrow> bool" where
  "u_typed C u \<longleftrightarrow> (case u_member u of
     None \<Rightarrow> field_number C (u_disc u) \<le> 0
   | Some (i, v) \<Rightarrow> 0 < i \<and> i = field_number C (u_disc u) \<and> (case v of None \<Rightarrow> True | Some x \<Rightarrow> member_of C x = i))"

text \<open>The operations on a well-typed object never use a member that is not alive.\<close>

definition class_sound :: "'v union_class \<Rightarrow> bool" where
  "class_sound C \<longleftrightarrow> (\<forall>u. u_reach C u \<longrightarrow> u_typed C u
     \<and> (\<forall>i. 0 < i \<longrightarrow> u_get C i u \<noteq> Inl Dead_member \<and> (u_get C i u = Inl Wrong_union \<longleftrightarrow> i \<noteq> field_number C (u_disc u)))
     \<and> (\<forall>i x. u_get C i u = Inr x \<longrightarrow> member_of C x = i)
     \<and> (\<forall>which v. u_set C which v u \<noteq> Inl Dead_member) \<and> (\<exists>u'. u_copy C u = Inr u') \<and> (\<exists>u'. u_destroy C u = Inr u'))"

locale sound_union =
  fixes C :: "'v union_class"
  assumes init_member: "\<And>i x. 0 < i \<Longrightarrow> member_init C i = Some x \<Longrightarrow> member_of C x = i"
    and switch_agrees: "\<And>d. mem_ptr C d = (if 0 < field_number C d then Some (field_number C d) else None)"
    and minus_one: "field_number C (-1) \<le> 0"
begin

lemma typed_default: "u_typed C \<lparr>u_disc = d, u_member = construct_default C d\<rparr>"
  by (auto simp: u_typed_def construct_default_def switch_agrees init_member split: option.split)

lemma typed_destroy: "u_typed C u \<Longrightarrow> u_destroy C u = Inr (u\<lparr>u_member := None\<rparr>)"
  by (cases u) (auto simp: u_typed_def u_destroy_def switch_agrees split: option.splits if_splits)

lemma typed_from: "u_typed C u \<Longrightarrow> construct_from C (u_disc u) u = Inr (u_member u)"
  by (auto simp: u_typed_def construct_from_def switch_agrees split: option.splits)

lemma typed_assign:
  "u_typed C u \<Longrightarrow> u_typed C source \<Longrightarrow> field_number C (u_disc u) = field_number C (u_disc source) \<Longrightarrow>
   assign_member C (u_disc u) u source = Inr (u\<lparr>u_member := u_member source\<rparr>)"
  by (cases u; cases source) (auto simp: u_typed_def assign_member_def switch_agrees split: option.splits if_splits)

lemma typed_cong: "u_disc u' = u_disc u \<Longrightarrow> u_member u' = u_member u \<Longrightarrow> u_typed C u' \<longleftrightarrow> u_typed C u"
  by (cases u; cases u') simp

lemma reach_typed: "u_reach C u \<Longrightarrow> u_typed C u"
proof (induction rule: u_reach.induct)
  case (reach_new which)
  then show ?case by (simp add: u_new_def typed_default)
next
  case (reach_set u which validate u')
  with typed_default [of which] show ?case
    by (cases u) (auto simp: u_set_def typed_destroy split: if_splits)
next
  case (reach_put u x i u')
  then show ?case by (auto simp: u_put_def u_typed_def split: option.splits if_splits)
next
  case (reach_copy u u')
  then have "u_disc u' = u_disc u" "u_member u' = u_member u" using typed_from [of u] by (auto simp: u_copy_def)
  then show ?case using reach_copy typed_cong [of u' u] by simp
next
  case (reach_assign u source u')
  then have "u_disc u' = u_disc source" "u_member u' = u_member source"
    using typed_assign [of u source] by (auto simp: u_assign_def)
  then show ?case using reach_assign typed_cong [of u' source] by simp
qed

lemma sound: "class_sound C"
proof -
  have "u_get C i u \<noteq> Inl Dead_member \<and> (u_get C i u = Inl Wrong_union \<longleftrightarrow> i \<noteq> field_number C (u_disc u))" if "u_typed C u" "0 < i" for u i
    using that by (auto simp: u_typed_def u_get_def split: option.splits)
  moreover have "member_of C x = i" if "u_typed C u" "u_get C i u = Inr x" for u i x
    using that by (auto simp: u_typed_def u_get_def split: option.splits if_splits)
  moreover have "u_set C which v u \<noteq> Inl Dead_member" "\<exists>u'. u_copy C u = Inr u'" "\<exists>u'. u_destroy C u = Inr u'" if "u_typed C u" for u which v
    using that by (simp_all add: u_set_def u_copy_def typed_destroy typed_from)
  ultimately show ?thesis unfolding class_sound_def using reach_typed by blast
qed

text \<open>Assigning an object with another member loses the member.\<close>

lemma assign_other_member:
  assumes "u_reach C u" "u_reach C source" "field_number C (u_disc u) \<noteq> field_number C (u_disc source)"
  shows "u_assign C u source = Inr (u\<lparr>u_disc := u_disc source, u_member := None\<rparr>)"
  using assms minus_one by (simp add: u_assign_def construct_from_def switch_agrees typed_destroy [OF reach_typed])

end

section \<open>Unmarshaling\<close>

text \<open>
  \<open>xdr_traits<T>::load\<close> into the object \<open>u\<close>: the discriminant is read and set, which constructs the
  member when another one was alive, and the member that \<open>_xdr_with_mem_ptr\<close> selects is read.
  \<open>members\<close> are the codecs of the members.
\<close>

datatype load_error = Ld_xdr xdr_error | Ld_union union_error

definition lift_ld :: "xdr_error + 'a \<Rightarrow> load_error + 'a" where
  "lift_ld r = (case r of Inl e \<Rightarrow> Inl (Ld_xdr e) | Inr x \<Rightarrow> Inr x)"

definition lift_u :: "union_error + 'a \<Rightarrow> load_error + 'a" where
  "lift_u r = (case r of Inl e \<Rightarrow> Inl (Ld_union e) | Inr x \<Rightarrow> Inr x)"

lemma lift_ld_simps [simp]: "lift_ld (Inr x) = Inr x" "lift_ld (Inl e) = Inl (Ld_xdr e)" "lift_u (Inr x) = Inr x" "lift_u (Inl f) = Inl (Ld_union f)"
  by (simp_all add: lift_ld_def lift_u_def)

definition u_load :: "'v union_class \<Rightarrow> (int \<Rightarrow> 'v codec) \<Rightarrow> 'v union_obj \<Rightarrow> byte list \<Rightarrow> load_error + 'v union_obj \<times> byte list" where
  "u_load C members u p =
     bindR (lift_ld (c_load c_u32 p)) (\<lambda>(n, r).
     bindR (lift_u (u_set C (tag_of C n) True u)) (\<lambda>u.
     case mem_ptr C (u_disc u) of
       Some i \<Rightarrow> (case u_member u of
         Some (j, _) \<Rightarrow>
           if j = i then bindR (lift_ld (c_load (members i) r)) (\<lambda>(x, r). Inr (u\<lparr>u_member := Some (i, Some x)\<rparr>, r))
           else Inl (Ld_union Dead_member)
       | None \<Rightarrow> Inl (Ld_union Dead_member))
     | None \<Rightarrow> Inr (u, r)))"

text \<open>The value that an object stands for.\<close>

definition u_value :: "'v union_class \<Rightarrow> 'v union_obj \<Rightarrow> 'v" where
  "u_value C u = (case u_member u of Some (_, Some x) \<Rightarrow> x | _ \<Rightarrow> void_value C (u_disc u))"

text \<open>
  The class and a codec of its values agree on what a message means, for an object that was just
  constructed with its default argument, as in the archives of the program. (In an object with the
  \<open>void\<close> arm the setter keeps the old discriminant when the new one selects that arm too.)
\<close>

definition load_agrees :: "'v union_class \<Rightarrow> (int \<Rightarrow> 'v codec) \<Rightarrow> 'v codec \<Rightarrow> bool" where
  "load_agrees C members U \<longleftrightarrow> (\<forall>p. case u_load C members (u_new C 0) p of
     Inr (u, r) \<Rightarrow> c_load U p = Inr (u_value C u, r) \<and> u_typed C u
   | Inl (Ld_xdr e) \<Rightarrow> c_load U p = Inl e
   | Inl (Ld_union e) \<Rightarrow> e = Bad_discriminant \<and> c_load U p = Inl Xdr_bad_discriminant)"

locale union_codec = sound_union +
  fixes members :: "int \<Rightarrow> 'a codec" and disc :: "'a \<Rightarrow> u32" and arm :: "u32 \<Rightarrow> 'a codec option"
  assumes first_member: "0 < field_number C 0"
    and arm_member: "\<And>n. 0 < field_number C (tag_of C n) \<Longrightarrow> arm n = Some (members (field_number C (tag_of C n)))"
    and arm_void: "\<And>n p. field_number C (tag_of C n) = 0 \<Longrightarrow> \<exists>A. arm n = Some A \<and> c_load A p = Inr (void_value C (tag_of C n), p)"
    and arm_none: "\<And>n. field_number C (tag_of C n) < 0 \<Longrightarrow> arm n = None"
    and load_member: "\<And>d p x r. 0 < field_number C d \<Longrightarrow> c_load (members (field_number C d)) p = Inr (x, r) \<Longrightarrow>
      member_of C x = field_number C d"
begin

lemma set_new:
  assumes "0 \<le> field_number C d"
  shows "\<exists>u. u_set C d True (u_new C 0) = Inr u \<and> u_typed C u \<and> field_number C (u_disc u) = field_number C d
    \<and> (field_number C d = 0 \<longrightarrow> u_disc u = d)"
proof -
  have "u_typed C (u_new C 0)" by (simp add: u_new_def typed_default)
  then show ?thesis using assms first_member typed_default [of d] typed_destroy [of "u_new C 0"]
    by (cases "field_number C d = field_number C 0") (auto simp: u_set_def u_new_def)
qed

lemma member_alive:
  assumes "u_typed C u" "0 < field_number C (u_disc u)"
  obtains v where "u_member u = Some (field_number C (u_disc u), v)"
  using assms by (auto simp: u_typed_def split: option.splits)

lemma load_refines: "load_agrees C members (c_union disc arm)"
proof -
  have "case u_load C members (u_new C 0) p of
     Inr (u, r) \<Rightarrow> c_load (c_union disc arm) p = Inr (u_value C u, r) \<and> u_typed C u
   | Inl (Ld_xdr e) \<Rightarrow> c_load (c_union disc arm) p = Inl e
   | Inl (Ld_union e) \<Rightarrow> e = Bad_discriminant \<and> c_load (c_union disc arm) p = Inl Xdr_bad_discriminant" for p
  proof (cases "c_load c_u32 p")
    case (Inl e)
    then show ?thesis by (simp add: u_load_def c_union_def)
  next
    case (Inr nr)
    then obtain n r where n: "c_load c_u32 p = Inr (n, r)" by (cases nr) auto
    let ?d = "tag_of C n"
    consider "field_number C ?d < 0" | "field_number C ?d = 0" | "0 < field_number C ?d" by linarith
    then show ?thesis
    proof cases
      case 1
      then show ?thesis using n arm_none by (simp add: u_load_def c_union_def u_set_def)
    next
      case 2
      with set_new [of ?d] obtain u where u: "u_set C ?d True (u_new C 0) = Inr u" "u_typed C u" "u_disc u = ?d" by auto
      with 2 have "u_member u = None" by (auto simp: u_typed_def split: option.splits)
      with 2 u n arm_void [of n r] show ?thesis by (auto simp: u_load_def switch_agrees c_union_def u_value_def)
    next
      case 3
      with set_new [of ?d] obtain u where u: "u_set C ?d True (u_new C 0) = Inr u" "u_typed C u" "field_number C (u_disc u) = field_number C ?d" by auto
      with 3 member_alive [of u] obtain v where "u_member u = Some (field_number C ?d, v)" by auto
      with 3 u n arm_member [of n] load_member [of ?d r] show ?thesis
        by (cases "c_load (members (field_number C ?d)) r") (auto simp: u_load_def switch_agrees c_union_def u_value_def u_typed_def)
    qed
  qed
  then show ?thesis by (simp add: load_agrees_def)
qed

end

end
