(* ===== verification/Union_Classes.thy ===== *)
theory Union_Classes
  imports Xdr_Union Server_Types Server_Paxos_Types Paxos_Types
begin

text \<open>
  The union classes of the program (\<open>src/include/server.hh\<close>, \<open>src/server/server_paxos.hh\<close>,
  \<open>src/paxos/paxos.hh\<close>) as instances of \<open>Xdr_Union\<close>: the numbers of their members, what a member is
  initialised with, and the codecs of the members. Each is an interpretation of \<open>union_codec\<close>, so
  that objects of these classes are well typed and mean what the datatypes of the model say.
\<close>

section \<open>Default values of the members\<close>

text \<open>Scalars without an initialiser are indeterminate; the fields of structs are value-initialised.\<close>

definition no_MetaData :: MetaData where
  "no_MetaData = \<lparr>md_instance_number = 0, md_content_generation_number = 0, md_lock_generation_number = 0,
     md_file_content_checksum = 0, md_is_directory = False\<rparr>"

definition no_FileHandler :: FileHandler where
  "no_FileHandler = \<lparr>fh_magic_number = 0, fh_master_sequence_number = 0, fh_file_name = [], fh_instance_number = 0, fh_write_is_allowed = False\<rparr>"

definition no_viewid :: viewid_t where "no_viewid = \<lparr>vi_counter = 0, vi_manager = []\<rparr>"

definition no_view :: view_t where
  "no_view = \<lparr>vw_vid = no_viewid, vw_primary = \<lparr>co_id = [], co_addr = []\<rparr>, vw_backups = []\<rparr>"

section \<open>Classes\<close>

definition RetBool_class :: "RetBool union_class" where
  "RetBool_class = \<lparr>
     field_number = (\<lambda>w. if w = 0 then 1 else if w = 1 then 2 else 0),
     mem_ptr = (\<lambda>w. if w = 0 then Some 1 else if w = 1 then Some 2 else None),
     member_of = (\<lambda>x. case x of RetBool_val _ \<Rightarrow> 1 | RetBool_errCode _ \<Rightarrow> 2 | RetBool_void _ \<Rightarrow> 0),
     member_init = (\<lambda>i. None),
     void_value = RetBool_void,
     tag_of = (\<lambda>n. n)\<rparr>"

definition RetBool_members :: "int \<Rightarrow> RetBool codec" where
  "RetBool_members i = (if i = 1 then c_struct RetBool_val rb_val c_bool else c_struct RetBool_errCode rb_errCode c_u32)"

definition RetFd_class :: "RetFd union_class" where
  "RetFd_class = \<lparr>
     field_number = (\<lambda>w. if w = 0 then 1 else if w = 1 then 2 else 0),
     mem_ptr = (\<lambda>w. if w = 0 then Some 1 else if w = 1 then Some 2 else None),
     member_of = (\<lambda>x. case x of RetFd_val _ \<Rightarrow> 1 | RetFd_errCode _ \<Rightarrow> 2 | RetFd_void _ \<Rightarrow> 0),
     member_init = (\<lambda>i. if i = 1 then Some (RetFd_val no_FileHandler) else None),
     void_value = RetFd_void,
     tag_of = (\<lambda>n. n)\<rparr>"

definition RetFd_members :: "int \<Rightarrow> RetFd codec" where
  "RetFd_members i = (if i = 1 then c_struct RetFd_val rf_val xdr_FileHandler else c_struct RetFd_errCode rf_errCode c_u32)"

definition RetContentsAndStat_class :: "RetContentsAndStat union_class" where
  "RetContentsAndStat_class = \<lparr>
     field_number = (\<lambda>w. if w = 0 then 1 else if w = 1 then 2 else 0),
     mem_ptr = (\<lambda>w. if w = 0 then Some 1 else if w = 1 then Some 2 else None),
     member_of = (\<lambda>x. case x of RetContents_val _ \<Rightarrow> 1 | RetContents_errCode _ \<Rightarrow> 2 | RetContents_void _ \<Rightarrow> 0),
     member_init = (\<lambda>i. if i = 1 then Some (RetContents_val \<lparr>cs_content = [], cs_stat = no_MetaData\<rparr>) else None),
     void_value = RetContents_void,
     tag_of = (\<lambda>n. n)\<rparr>"

definition RetContentsAndStat_members :: "int \<Rightarrow> RetContentsAndStat codec" where
  "RetContentsAndStat_members i = (if i = 1 then c_struct RetContents_val rc_val xdr_ContentsAndStat else c_struct RetContents_errCode rc_errCode c_u32)"

definition ServerPaxosParam_class :: "ServerPaxosParam union_class" where
  "ServerPaxosParam_class = \<lparr>
     field_number = (\<lambda>w. if w = CHECK_AND_CREATE then 1 else if w = CHECK_AND_OPEN then 2 else if w = CHECK_AND_DELETE then 3 else if w = CHECK_AND_READ then 4 else if w = CHECK_AND_UPDATE then 5 else if w = TEST_AND_SET_LOCK_OWNER then 6 else if w = RESET_LOCK_OWNER then 7 else if w = GET_STATES then 8 else -1),
     mem_ptr = (\<lambda>w. if w = CHECK_AND_CREATE then Some 1 else if w = CHECK_AND_OPEN then Some 2 else if w = CHECK_AND_DELETE then Some 3 else if w = CHECK_AND_READ then Some 4 else if w = CHECK_AND_UPDATE then Some 5 else if w = TEST_AND_SET_LOCK_OWNER then Some 6 else if w = RESET_LOCK_OWNER then Some 7 else if w = GET_STATES then Some 8 else None),
     member_of = (\<lambda>x. case x of Pm_CheckAndCreate _ \<Rightarrow> 1 | Pm_CheckAndOpen _ \<Rightarrow> 2 | Pm_CheckAndDelete _ \<Rightarrow> 3 | Pm_CheckAndRead _ \<Rightarrow> 4 | Pm_CheckAndUpdate _ \<Rightarrow> 5 | Pm_TestAndSetLockOwner _ \<Rightarrow> 6 | Pm_ResetLockOwner _ \<Rightarrow> 7 | Pm_GetStates _ \<Rightarrow> 8),
     member_init = (\<lambda>i. if i = 1 then Some (Pm_CheckAndCreate \<lparr>ccp_file_name = [], ccp_is_dir = False\<rparr>) else if i = 2 then Some (Pm_CheckAndOpen \<lparr>cop_file_name = []\<rparr>) else if i = 3 then Some (Pm_CheckAndDelete \<lparr>cdp_file_name = [], cdp_instance_number = 0\<rparr>) else if i = 4 then Some (Pm_CheckAndRead \<lparr>crp_file_name = [], crp_instance_number = 0\<rparr>) else if i = 5 then Some (Pm_CheckAndUpdate \<lparr>cup_file_name = [], cup_instance_number = 0, cup_content = []\<rparr>) else if i = 6 then Some (Pm_TestAndSetLockOwner \<lparr>tsp_file_name = [], tsp_instance_number = 0, tsp_client_id = []\<rparr>) else if i = 7 then Some (Pm_ResetLockOwner \<lparr>rlp_file_name = [], rlp_instance_number = 0\<rparr>) else if i = 8 then Some (Pm_GetStates \<lparr>gsp_dumb = False\<rparr>) else None),
     void_value = (\<lambda>_. Pm_GetStates \<lparr>gsp_dumb = False\<rparr>),
     tag_of = (\<lambda>n. n)\<rparr>"

definition ServerPaxosParam_members :: "int \<Rightarrow> ServerPaxosParam codec" where
  "ServerPaxosParam_members i = (if i = 1 then c_struct Pm_CheckAndCreate pm_CheckAndCreate xdr_CheckAndCreateParam else if i = 2 then c_struct Pm_CheckAndOpen pm_CheckAndOpen xdr_CheckAndOpenParam else if i = 3 then c_struct Pm_CheckAndDelete pm_CheckAndDelete xdr_CheckAndDeleteParam else if i = 4 then c_struct Pm_CheckAndRead pm_CheckAndRead xdr_CheckAndReadParam else if i = 5 then c_struct Pm_CheckAndUpdate pm_CheckAndUpdate xdr_CheckAndUpdateParam else if i = 6 then c_struct Pm_TestAndSetLockOwner pm_TestAndSetLockOwner xdr_TestAndSetLockOwnerParam else if i = 7 then c_struct Pm_ResetLockOwner pm_ResetLockOwner xdr_ResetLockOwnerParam else c_struct Pm_GetStates pm_GetStates xdr_GetStatesParam)"

definition ServerPaxosResult_class :: "ServerPaxosResult union_class" where
  "ServerPaxosResult_class = \<lparr>
     field_number = (\<lambda>w. if w = CHECK_AND_CREATE then 1 else if w = CHECK_AND_OPEN then 2 else if w = CHECK_AND_DELETE then 3 else if w = CHECK_AND_READ then 4 else if w = CHECK_AND_UPDATE then 5 else if w = TEST_AND_SET_LOCK_OWNER then 6 else if w = RESET_LOCK_OWNER then 7 else if w = GET_STATES then 8 else -1),
     mem_ptr = (\<lambda>w. if w = CHECK_AND_CREATE then Some 1 else if w = CHECK_AND_OPEN then Some 2 else if w = CHECK_AND_DELETE then Some 3 else if w = CHECK_AND_READ then Some 4 else if w = CHECK_AND_UPDATE then Some 5 else if w = TEST_AND_SET_LOCK_OWNER then Some 6 else if w = RESET_LOCK_OWNER then Some 7 else if w = GET_STATES then Some 8 else None),
     member_of = (\<lambda>x. case x of Rs_CheckAndCreate _ \<Rightarrow> 1 | Rs_CheckAndOpen _ \<Rightarrow> 2 | Rs_CheckAndDelete _ \<Rightarrow> 3 | Rs_CheckAndRead _ \<Rightarrow> 4 | Rs_CheckAndUpdate _ \<Rightarrow> 5 | Rs_TestAndSetLockOwner _ \<Rightarrow> 6 | Rs_ResetLockOwner _ \<Rightarrow> 7 | Rs_GetStates _ \<Rightarrow> 8),
     member_init = (\<lambda>i. if i = 1 then Some (Rs_CheckAndCreate \<lparr>ccr_instance_number = 0, ccr_success = False\<rparr>) else if i = 2 then Some (Rs_CheckAndOpen \<lparr>cor_instance_number = 0, cor_success = False\<rparr>) else if i = 3 then Some (Rs_CheckAndDelete \<lparr>cdr_success = False\<rparr>) else if i = 4 then Some (Rs_CheckAndRead \<lparr>crr_content = [], crr_meta = \<lparr>nm_instance_number = 0, nm_content_generation_number = 0, nm_lock_generation_number = 0, nm_file_content_checksum = 0, nm_is_directory = False\<rparr>, crr_success = False\<rparr>) else if i = 5 then Some (Rs_CheckAndUpdate \<lparr>cur_success = False\<rparr>) else if i = 6 then Some (Rs_TestAndSetLockOwner \<lparr>tsr_success = False\<rparr>) else if i = 7 then Some (Rs_ResetLockOwner \<lparr>rlr_success = False\<rparr>) else if i = 8 then Some (Rs_GetStates \<lparr>gsr_list = []\<rparr>) else None),
     void_value = (\<lambda>_. Rs_GetStates \<lparr>gsr_list = []\<rparr>),
     tag_of = (\<lambda>n. n)\<rparr>"

definition ServerPaxosResult_members :: "int \<Rightarrow> ServerPaxosResult codec" where
  "ServerPaxosResult_members i = (if i = 1 then c_struct Rs_CheckAndCreate rs_CheckAndCreate xdr_CheckAndCreateResult else if i = 2 then c_struct Rs_CheckAndOpen rs_CheckAndOpen xdr_CheckAndOpenResult else if i = 3 then c_struct Rs_CheckAndDelete rs_CheckAndDelete xdr_CheckAndDeleteResult else if i = 4 then c_struct Rs_CheckAndRead rs_CheckAndRead xdr_CheckAndReadResult else if i = 5 then c_struct Rs_CheckAndUpdate rs_CheckAndUpdate xdr_CheckAndUpdateResult else if i = 6 then c_struct Rs_TestAndSetLockOwner rs_TestAndSetLockOwner xdr_TestAndSetLockOwnerResult else if i = 7 then c_struct Rs_ResetLockOwner rs_ResetLockOwner xdr_ResetLockOwnerResult else c_struct Rs_GetStates rs_GetStates xdr_GetStatesResult)"

definition execute_res_class :: "execute_res union_class" where
  "execute_res_class = \<lparr>
     field_number = (\<lambda>w. if w = 1 then 1 else if w = 0 then 2 else -1),
     mem_ptr = (\<lambda>w. if w = 1 then Some 1 else if w = 0 then Some 2 else None),
     member_of = (\<lambda>x. case x of Er_reply _ \<Rightarrow> 1 | Er_viewinfo _ \<Rightarrow> 2),
     member_init = (\<lambda>i. if i = 1 then Some (Er_reply []) else if i = 2 then Some (Er_viewinfo \<lparr>ei_vid = no_viewid, ei_primary = []\<rparr>) else None),
     void_value = (\<lambda>_. Er_reply []),
     tag_of = (\<lambda>n. bool_to_uint (n \<noteq> 0))\<rparr>"

definition execute_res_members :: "int \<Rightarrow> execute_res codec" where
  "execute_res_members i = (if i = 1 then c_struct Er_reply er_reply (c_opaque XDR_MAX_LEN) else c_struct Er_viewinfo er_viewinfo xdr_execute_viewinfo)"

definition view_change_res_class :: "view_change_res union_class" where
  "view_change_res_class = \<lparr>
     field_number = (\<lambda>w. if w = 0 then 1 else if w = 1 then 2 else -1),
     mem_ptr = (\<lambda>w. if w = 0 then Some 1 else if w = 1 then Some 2 else None),
     member_of = (\<lambda>x. case x of Vr_reject _ \<Rightarrow> 1 | Vr_accept _ \<Rightarrow> 2),
     member_init = (\<lambda>i. if i = 1 then Some (Vr_reject \<lparr>vj_oldview = no_view, vj_newid = no_viewid\<rparr>) else if i = 2 then Some (Vr_accept \<lparr>vt_myid = [], vt_latest = \<lparr>vs_vid = no_viewid, vs_ts = 0\<rparr>, vt_newview = no_view\<rparr>) else None),
     void_value = (\<lambda>_. Vr_reject \<lparr>vj_oldview = no_view, vj_newid = no_viewid\<rparr>),
     tag_of = (\<lambda>n. bool_to_uint (n \<noteq> 0))\<rparr>"

definition view_change_res_members :: "int \<Rightarrow> view_change_res codec" where
  "view_change_res_members i = (if i = 1 then c_struct Vr_reject vr_reject xdr_view_change_reject else c_struct Vr_accept vr_accept xdr_view_change_accept)"

section \<open>Interpretations\<close>

lemmas class_simps = c_struct_def c_void_def bindR_eq_Inr bool_to_uint_def CallType_defs

interpretation retBool: union_codec RetBool_class RetBool_members rb_discriminant "\<lambda>d. if d = 0 then Some (c_struct RetBool_val rb_val c_bool) else if d = 1 then Some (c_struct RetBool_errCode rb_errCode c_u32) else Some (c_struct (\<lambda>_. RetBool_void d) (\<lambda>_. ()) c_void)"
  by unfold_locales (auto simp: RetBool_class_def RetBool_members_def class_simps split: if_splits)

interpretation retFd: union_codec RetFd_class RetFd_members rf_discriminant "\<lambda>d. if d = 0 then Some (c_struct RetFd_val rf_val xdr_FileHandler) else if d = 1 then Some (c_struct RetFd_errCode rf_errCode c_u32) else Some (c_struct (\<lambda>_. RetFd_void d) (\<lambda>_. ()) c_void)"
  by unfold_locales (auto simp: RetFd_class_def RetFd_members_def class_simps split: if_splits)

interpretation retContents: union_codec RetContentsAndStat_class RetContentsAndStat_members rc_discriminant "\<lambda>d. if d = 0 then Some (c_struct RetContents_val rc_val xdr_ContentsAndStat) else if d = 1 then Some (c_struct RetContents_errCode rc_errCode c_u32) else Some (c_struct (\<lambda>_. RetContents_void d) (\<lambda>_. ()) c_void)"
  by unfold_locales (auto simp: RetContentsAndStat_class_def RetContentsAndStat_members_def class_simps split: if_splits)

interpretation paramClass: union_codec ServerPaxosParam_class ServerPaxosParam_members pm_type "\<lambda>d. if d = CHECK_AND_CREATE then Some (c_struct Pm_CheckAndCreate pm_CheckAndCreate xdr_CheckAndCreateParam) else if d = CHECK_AND_OPEN then Some (c_struct Pm_CheckAndOpen pm_CheckAndOpen xdr_CheckAndOpenParam) else if d = CHECK_AND_DELETE then Some (c_struct Pm_CheckAndDelete pm_CheckAndDelete xdr_CheckAndDeleteParam) else if d = CHECK_AND_READ then Some (c_struct Pm_CheckAndRead pm_CheckAndRead xdr_CheckAndReadParam) else if d = CHECK_AND_UPDATE then Some (c_struct Pm_CheckAndUpdate pm_CheckAndUpdate xdr_CheckAndUpdateParam) else if d = TEST_AND_SET_LOCK_OWNER then Some (c_struct Pm_TestAndSetLockOwner pm_TestAndSetLockOwner xdr_TestAndSetLockOwnerParam) else if d = RESET_LOCK_OWNER then Some (c_struct Pm_ResetLockOwner pm_ResetLockOwner xdr_ResetLockOwnerParam) else if d = GET_STATES then Some (c_struct Pm_GetStates pm_GetStates xdr_GetStatesParam) else None"
  by unfold_locales (auto simp: ServerPaxosParam_class_def ServerPaxosParam_members_def class_simps split: if_splits)

interpretation resultClass: union_codec ServerPaxosResult_class ServerPaxosResult_members rs_type "\<lambda>d. if d = CHECK_AND_CREATE then Some (c_struct Rs_CheckAndCreate rs_CheckAndCreate xdr_CheckAndCreateResult) else if d = CHECK_AND_OPEN then Some (c_struct Rs_CheckAndOpen rs_CheckAndOpen xdr_CheckAndOpenResult) else if d = CHECK_AND_DELETE then Some (c_struct Rs_CheckAndDelete rs_CheckAndDelete xdr_CheckAndDeleteResult) else if d = CHECK_AND_READ then Some (c_struct Rs_CheckAndRead rs_CheckAndRead xdr_CheckAndReadResult) else if d = CHECK_AND_UPDATE then Some (c_struct Rs_CheckAndUpdate rs_CheckAndUpdate xdr_CheckAndUpdateResult) else if d = TEST_AND_SET_LOCK_OWNER then Some (c_struct Rs_TestAndSetLockOwner rs_TestAndSetLockOwner xdr_TestAndSetLockOwnerResult) else if d = RESET_LOCK_OWNER then Some (c_struct Rs_ResetLockOwner rs_ResetLockOwner xdr_ResetLockOwnerResult) else if d = GET_STATES then Some (c_struct Rs_GetStates rs_GetStates xdr_GetStatesResult) else None"
  by unfold_locales (auto simp: ServerPaxosResult_class_def ServerPaxosResult_members_def class_simps split: if_splits)

interpretation executeRes: union_codec execute_res_class execute_res_members er_disc "\<lambda>d. if d \<noteq> 0 then Some (c_struct Er_reply er_reply (c_opaque XDR_MAX_LEN)) else Some (c_struct Er_viewinfo er_viewinfo xdr_execute_viewinfo)"
  by unfold_locales (auto simp: execute_res_class_def execute_res_members_def class_simps split: if_splits)

interpretation viewChangeRes: union_codec view_change_res_class view_change_res_members vr_disc "\<lambda>d. if d \<noteq> 0 then Some (c_struct Vr_accept vr_accept xdr_view_change_accept) else Some (c_struct Vr_reject vr_reject xdr_view_change_reject)"
  by unfold_locales (auto simp: view_change_res_class_def view_change_res_members_def class_simps split: if_splits)

section \<open>Properties\<close>

text \<open>C15: Objects of the union classes are well typed: whatever a program does with the constructors,
  the discriminant's setter, the accessors, copies and assignments between objects with the same
  member, the member that is alive is the one whose number \<open>_xdr_field_number\<close> gives for the
  discriminant, and holds a value of its type; an accessor of another member throws \<open>xdr_wrong_union\<close>,
  and no constructor, destructor or accessor uses a member that is not alive. Which member is
  constructed and destroyed is decided by the separate \<open>switch\<close> of \<open>_xdr_with_mem_ptr\<close>, so that the two
  functions of a class have to agree. Assignments between objects with different members are
  excluded: \<open>operator=\<close> is wrong there (\<open>assignment_loses_member\<close>).\<close>

theorem unions_well_typed:
  "class_sound RetBool_class \<and> class_sound RetFd_class \<and> class_sound RetContentsAndStat_class
   \<and> class_sound ServerPaxosParam_class \<and> class_sound ServerPaxosResult_class
   \<and> class_sound execute_res_class \<and> class_sound view_change_res_class"
  by (intro conjI retBool.sound retFd.sound retContents.sound paramClass.sound resultClass.sound executeRes.sound viewChangeRes.sound)

text \<open>C16: Unmarshaling into an object of a union class gives what the codec of the model gives: the
  discriminant is set before the member is read, the object is well typed and stands for the value
  of the datatype, and both refuse the same messages with the same error.\<close>

theorem union_load_refines:
  "load_agrees RetBool_class RetBool_members xdr_RetBool
   \<and> load_agrees RetFd_class RetFd_members xdr_RetFd
   \<and> load_agrees RetContentsAndStat_class RetContentsAndStat_members xdr_RetContentsAndStat
   \<and> load_agrees ServerPaxosParam_class ServerPaxosParam_members xdr_ServerPaxosParam
   \<and> load_agrees ServerPaxosResult_class ServerPaxosResult_members xdr_ServerPaxosResult
   \<and> load_agrees execute_res_class execute_res_members xdr_execute_res
   \<and> load_agrees view_change_res_class view_change_res_members xdr_view_change_res"
  unfolding xdr_RetBool_def xdr_RetFd_def xdr_RetContentsAndStat_def xdr_ServerPaxosParam_def xdr_ServerPaxosResult_def
    xdr_execute_res_def xdr_view_change_res_def
  by (intro conjI retBool.load_refines retFd.load_refines retContents.load_refines paramClass.load_refines
      resultClass.load_refines executeRes.load_refines viewChangeRes.load_refines)

text \<open>The assignment operator of the union classes loses the member when the two sides have different
  ones: the old member is destroyed and nothing is constructed in its place, because the
  discriminant is overwritten before it selects what to construct. The object then claims to hold
  the member of the source, and the next use or the destruction of it is undefined.\<close>

theorem assignment_loses_member:
  assumes "u_reach RetFd_class u" and "u_reach RetFd_class source"
    and "field_number RetFd_class (u_disc u) \<noteq> field_number RetFd_class (u_disc source)"
    and "0 < field_number RetFd_class (u_disc source)"
  shows "\<exists>u'. u_assign RetFd_class u source = Inr u' \<and> u_disc u' = u_disc source
    \<and> u_get RetFd_class (field_number RetFd_class (u_disc source)) u' = Inl Dead_member
    \<and> u_destroy RetFd_class u' = Inl Dead_member"
  using retFd.assign_other_member [OF assms(1-3)] assms(4) by (simp add: u_get_def u_destroy_def retFd.switch_agrees)

theorem assignment_loses_member_witness:
  "\<exists>u'. u_assign RetFd_class (u_new RetFd_class 1) (u_new RetFd_class 0) = Inr u' \<and> u_disc u' = 0
    \<and> u_get RetFd_class 1 u' = Inl Dead_member"
proof -
  have f: "field_number RetFd_class 0 = 1" "field_number RetFd_class 1 = 2" by (simp_all add: RetFd_class_def)
  have d: "u_disc (u_new RetFd_class w) = w" for w by (simp add: u_new_def)
  from assignment_loses_member [OF reach_new [of RetFd_class 1] reach_new [of RetFd_class 0]] show ?thesis
    by (auto simp: f d)
qed

end
