(* ===== verification/Shell.thy ===== *)
theory Shell
  imports Client_Lib Paxos_Replica
begin

text \<open>
  The shell of \<open>src/shell/shell.cc\<close>: the splitting of a line in its buffer, one definition per
  command over the methods of the client library, and the loop over a script. What is printed is a
  list of lines. The remote call is the parameter \<open>call\<close> of the library.
\<close>

section \<open>Arguments\<close>

text \<open>
  \<open>argv[i]\<close> is a position of the buffer; \<open>cstr_at\<close> reads the text from there up to the first null
  character. The loop ends after \<open>DEBUG_MAX_ARGS\<close> arguments or at the last space.
\<close>

definition DEBUG_MAX_ARGS :: nat where "DEBUG_MAX_ARGS = 5"
definition DEBUG_MAX_LINE :: nat where "DEBUG_MAX_LINE = 256"

definition cstr_at :: "string \<Rightarrow> nat \<Rightarrow> string" where
  "cstr_at buf p = cstr (drop p buf)"

fun parse_loop :: "nat \<Rightarrow> string \<Rightarrow> nat list \<Rightarrow> string \<times> nat list" where
  "parse_loop 0 buf argv = (buf, argv)"
| "parse_loop (Suc n) buf argv = (case str_find (CHR '' '') (cstr_at buf (last argv)) of
     None \<Rightarrow> (buf, argv)
   | Some k \<Rightarrow> let nextArg = last argv + k in parse_loop n (buf[nextArg := CHR 0x00]) (argv @ [nextArg + 1]))"

definition parse_args :: "string \<Rightarrow> string \<times> string list" where
  "parse_args buf = (case parse_loop (DEBUG_MAX_ARGS - 1) buf [0] of (buf, argv) \<Rightarrow> (buf, map (cstr_at buf) argv))"

text \<open>\<open>strtol(s, 0, 10)\<close> on 64 bits, stored into an \<open>int\<close> and passed on as a 64-bit number.\<close>

definition strtol :: "string \<Rightarrow> int" where
  "strtol s = (case strto s of
     None \<Rightarrow> 0
   | Some (neg, n) \<Rightarrow> if neg then max (- (2 ^ 63)) (- n) else min (2 ^ 63 - 1) n)"

definition int_arg :: "string \<Rightarrow> u64" where
  "int_arg s = scast (word_of_int (strtol s) :: u32)"

section \<open>Commands\<close>

text \<open>
  How a command ends the shell: \<open>exit\<close>, an exception of \<open>std::stoi\<close>, or what ends a method of the
  library for good.
\<close>

datatype 'e shell_end = Sh_exit | Sh_stoi | Sh_lib "'e lib_error"

type_synonym ('e, 's) cmd_result = "'e shell_end + string list \<times> client_lib \<times> 's"

definition sh_lib :: "'e lib_error + 'a \<Rightarrow> ('a \<Rightarrow> ('e, 's) cmd_result) \<Rightarrow> ('e, 's) cmd_result" where
  "sh_lib r k = (case r of Inl e \<Rightarrow> Inl (Sh_lib e) | Inr x \<Rightarrow> k x)"

text \<open>\<open>ClientException::what\<close>\<close>

definition what :: "u32 \<Rightarrow> string" where
  "what errcode = (if errcode = BAD_ARG then ''BAD ARGUMENT''
     else if errcode = FS_FAIL then ''FAILS IN FILESYSTEM'' else ''UNKNOWN ERROR CODE'')"

text \<open>A method inside \<open>try\<close>: the exception is printed, otherwise \<open>f\<close> of the result.\<close>

definition sh_try :: "'e lib_error + (u32 + 'a) \<times> client_lib \<times> 's \<Rightarrow> ('a \<Rightarrow> string list) \<Rightarrow> ('e, 's) cmd_result" where
  "sh_try r f = sh_lib r (\<lambda>(v, w). case v of Inl e \<Rightarrow> Inr ([what e], w) | Inr x \<Rightarrow> Inr (f x, w))"

definition Cmd_Echo :: "string list \<Rightarrow> client_lib \<times> 's \<Rightarrow> ('e, 's) cmd_result" where
  "Cmd_Echo argv w = Inr ([concat (map (\<lambda>a. a @ '' '') (tl argv))], w)"

definition Cmd_Increment :: "('e, 's) call_fn \<Rightarrow> string list \<Rightarrow> client_lib \<times> 's \<Rightarrow> ('e, 's) cmd_result" where
  "Cmd_Increment call argv w =
     (if length argv \<noteq> 2 then Inr ([''Usage: increment INT''], w)
      else case stoi (argv ! 1) of
        Inl _ \<Rightarrow> Inl Sh_stoi
      | Inr n \<Rightarrow> sh_lib (lib_increment call (word_of_int n) w) (\<lambda>(r, w). Inr ([int_text (sint r)], w)))"

definition Cmd_Decrement :: "('e, 's) call_fn \<Rightarrow> string list \<Rightarrow> client_lib \<times> 's \<Rightarrow> ('e, 's) cmd_result" where
  "Cmd_Decrement call argv w =
     (if length argv \<noteq> 2 then Inr ([''Usage: decrement INT''], w)
      else case stoi (argv ! 1) of
        Inl _ \<Rightarrow> Inl Sh_stoi
      | Inr n \<Rightarrow> sh_lib (lib_decrement call (word_of_int n) w) (\<lambda>(r, w). Inr ([int_text (sint r)], w)))"

definition Cmd_FileOpen :: "('e, 's) call_fn \<Rightarrow> string list \<Rightarrow> client_lib \<times> 's \<Rightarrow> ('e, 's) cmd_result" where
  "Cmd_FileOpen call argv w =
     (if length argv \<noteq> 3 then Inr ([''Usage: fileOpen FILENAME MODE''], w)
      else sh_lib (lib_fileOpen call (argv ! 1) (int_arg (argv ! 2)) w) (\<lambda>(i, w). Inr ([digits (unat i)], w)))"

definition Cmd_FileClose :: "('e, 's) call_fn \<Rightarrow> string list \<Rightarrow> client_lib \<times> 's \<Rightarrow> ('e, 's) cmd_result" where
  "Cmd_FileClose call argv w =
     (if length argv \<noteq> 2 then Inr ([''Usage: fileClose FD_ID''], w)
      else sh_lib (lib_fileClose call (int_arg (argv ! 1)) w) (\<lambda>w. Inr ([], w)))"

definition Cmd_FileDelete :: "('e, 's) call_fn \<Rightarrow> string list \<Rightarrow> client_lib \<times> 's \<Rightarrow> ('e, 's) cmd_result" where
  "Cmd_FileDelete call argv w =
     (if length argv \<noteq> 2 then Inr ([''Usage: fileDelete FD_ID''], w)
      else sh_try (lib_fileDelete call (int_arg (argv ! 1)) w) (\<lambda>b. [if b then ''Deleted'' else ''Failed'']))"

definition Cmd_Get :: "('e, 's) call_fn \<Rightarrow> string list \<Rightarrow> client_lib \<times> 's \<Rightarrow> ('e, 's) cmd_result" where
  "Cmd_Get call argv w =
     (if length argv \<noteq> 2 then Inr ([''Usage: get FD_ID''], w)
      else sh_try (lib_getContentsAndStat call (int_arg (argv ! 1)) w)
        (\<lambda>c. [case c of Some c \<Rightarrow> cs_content c | None \<Rightarrow> ''Failed'']))"

definition Cmd_Set :: "('e, 's) call_fn \<Rightarrow> string list \<Rightarrow> client_lib \<times> 's \<Rightarrow> ('e, 's) cmd_result" where
  "Cmd_Set call argv w =
     (if length argv \<noteq> 3 then Inr ([''Usage: set FD_ID content''], w)
      else sh_try (lib_setContents call (int_arg (argv ! 1)) (argv ! 2) w) (\<lambda>b. [if b then ''Succeeded'' else ''Failed'']))"

definition Cmd_Acquire :: "('e, 's) call_fn \<Rightarrow> string list \<Rightarrow> client_lib \<times> 's \<Rightarrow> ('e, 's) cmd_result" where
  "Cmd_Acquire call argv w =
     (if length argv \<noteq> 2 then Inr ([''Usage: acquire FD_ID''], w)
      else sh_try (lib_acquire call (int_arg (argv ! 1)) w) (\<lambda>_. []))"

definition Cmd_TryAcquire :: "('e, 's) call_fn \<Rightarrow> string list \<Rightarrow> client_lib \<times> 's \<Rightarrow> ('e, 's) cmd_result" where
  "Cmd_TryAcquire call argv w =
     (if length argv \<noteq> 2 then Inr ([''Usage: tryAcquire FD_ID''], w)
      else sh_try (lib_tryAcquire call (int_arg (argv ! 1)) w) (\<lambda>b. [if b then ''Deleted'' else ''Failed'']))"

definition Cmd_Release :: "('e, 's) call_fn \<Rightarrow> string list \<Rightarrow> client_lib \<times> 's \<Rightarrow> ('e, 's) cmd_result" where
  "Cmd_Release call argv w =
     (if length argv \<noteq> 2 then Inr ([''Usage: release FD_ID''], w)
      else sh_try (lib_release call (int_arg (argv ! 1)) w) (\<lambda>_. []))"

definition execute_command :: "('e, 's) call_fn \<Rightarrow> string list \<Rightarrow> client_lib \<times> 's \<Rightarrow> ('e, 's) cmd_result" where
  "execute_command call argv w =
     (let cmd = hd argv in
      if cmd = ''increment'' then Cmd_Increment call argv w
      else if cmd = ''decrement'' then Cmd_Decrement call argv w
      else if cmd = ''fileOpen'' then Cmd_FileOpen call argv w
      else if cmd = ''fileClose'' then Cmd_FileClose call argv w
      else if cmd = ''fileDelete'' then Cmd_FileDelete call argv w
      else if cmd = ''get'' then Cmd_Get call argv w
      else if cmd = ''set'' then Cmd_Set call argv w
      else if cmd = ''acquire'' then Cmd_Acquire call argv w
      else if cmd = ''tryAcquire'' then Cmd_TryAcquire call argv w
      else if cmd = ''release'' then Cmd_Release call argv w
      else if cmd = ''echo'' then Cmd_Echo argv w
      else if cmd = ''exit'' then Inl Sh_exit
      else if cmd = ''#'' then Inr ([], w)
      else if cmd \<noteq> '''' then Inr ([''Unknown command '' @ [CHR 0x27] @ cmd @ [CHR 0x27]], w)
      else Inr ([], w))"

definition DispatchCommand :: "('e, 's) call_fn \<Rightarrow> string \<Rightarrow> client_lib \<times> 's \<Rightarrow> ('e, 's) cmd_result" where
  "DispatchCommand call buf w = execute_command call (snd (parse_args buf)) w"

section \<open>Reading lines\<close>

text \<open>An input stream: the characters that are left and the two state bits.\<close>

record in_stream =
  in_rest :: string
  in_eof :: bool
  in_fail :: bool

text \<open>\<open>fstream fin {file}\<close>; \<open>None\<close> is a file that can not be opened.\<close>

definition open_stream :: "string option \<Rightarrow> in_stream" where
  "open_stream file = (case file of
     None \<Rightarrow> \<lparr>in_rest = [], in_eof = False, in_fail = True\<rparr>
   | Some s \<Rightarrow> \<lparr>in_rest = s, in_eof = False, in_fail = False\<rparr>)"

text \<open>
  \<open>istream::getline(buf, n)\<close>: the characters that are stored, and the stream. At most \<open>n - 1\<close>
  characters are stored; a longer line sets the fail bit, and a stream with one of the bits set
  gives nothing.
\<close>

definition stream_getline :: "nat \<Rightarrow> in_stream \<Rightarrow> string \<times> in_stream" where
  "stream_getline n st =
     (if in_eof st \<or> in_fail st then ([], st\<lparr>in_fail := True\<rparr>)
      else let s = in_rest st; line = takeWhile (\<lambda>c. c \<noteq> CHR 0x0A) s in
        if n \<le> length line then (take (n - 1) s, st\<lparr>in_rest := drop (n - 1) s, in_fail := True\<rparr>)
        else if line = s then (line, st\<lparr>in_rest := [], in_eof := True, in_fail := (line = [])\<rparr>)
        else (line, st\<lparr>in_rest := drop (Suc (length line)) s\<rparr>))"

text \<open>The buffer after the characters and a null character have been stored.\<close>

definition store_line :: "string \<Rightarrow> string \<Rightarrow> string" where
  "store_line line buf = line @ [CHR 0x00] @ drop (Suc (length line)) buf"

text \<open>
  The loops of \<open>RunScript\<close> and \<open>Prompt\<close>, with what was printed so far. They return \<open>None\<close> when they
  do not end. The prompt itself is left out of what is printed.
\<close>

partial_function (option) RunScript ::
    "('e, 's) call_fn \<Rightarrow> in_stream \<Rightarrow> string \<Rightarrow> string list \<Rightarrow> client_lib \<times> 's \<Rightarrow> ('e shell_end \<times> string list + string list \<times> client_lib \<times> 's) option" where
  "RunScript call fin buf out w =
     (if in_eof fin then Some (Inr (out, w))
      else let (line, fin) = stream_getline DEBUG_MAX_LINE fin; buf = store_line line buf in
        case DispatchCommand call buf w of
          Inl e \<Rightarrow> Some (Inl (e, out))
        | Inr (printed, w) \<Rightarrow> RunScript call fin (fst (parse_args buf)) (out @ printed) w)"

partial_function (option) Prompt ::
    "('e, 's) call_fn \<Rightarrow> in_stream \<Rightarrow> string \<Rightarrow> string list \<Rightarrow> client_lib \<times> 's \<Rightarrow> ('e shell_end \<times> string list + string list \<times> client_lib \<times> 's) option" where
  "Prompt call cin buf out w =
     (if in_eof cin \<or> in_fail cin then Some (Inr (out, w))
      else let (line, cin) = stream_getline DEBUG_MAX_LINE cin; buf = store_line line buf in
        case DispatchCommand call buf w of
          Inl e \<Rightarrow> Some (Inl (e, out))
        | Inr (printed, w) \<Rightarrow> Prompt call cin (fst (parse_args buf)) (out @ printed) w)"

section \<open>The arguments of a line\<close>

text \<open>What the splitting of the buffer amounts to: the line cut at its first \<open>n\<close> spaces.\<close>

fun split_args :: "nat \<Rightarrow> string \<Rightarrow> string list" where
  "split_args 0 s = [s]"
| "split_args (Suc n) s = (case str_find (CHR '' '') s of
     None \<Rightarrow> [s]
   | Some k \<Rightarrow> take k s # split_args n (drop (Suc k) s))"

lemma cstr_at_append: "length a = p \<Longrightarrow> cstr_at (a @ b) p = cstr b"
  by (simp add: cstr_at_def)

lemma cstr_stop: "CHR 0x00 \<notin> set s \<Longrightarrow> cstr (s @ CHR 0x00 # t) = s"
  by (induction s) (auto simp: cstr_def)

lemma parse_loop_split:
  assumes "CHR 0x00 \<notin> set s"
  shows "parse_loop n (a @ s @ CHR 0x00 # junk) (ps @ [length a])
     = (case parse_loop n (a @ s @ CHR 0x00 # junk) [length a] of (b, qs) \<Rightarrow> (b, ps @ qs))
   \<and> (case parse_loop n (a @ s @ CHR 0x00 # junk) [length a] of (b, qs) \<Rightarrow>
        take (length a) b = a \<and> map (cstr_at b) qs = split_args n s)"
  using assms
proof (induction n arbitrary: a s ps)
  case 0
  then show ?case by (simp add: cstr_at_append cstr_stop)
next
  case (Suc n)
  have c: "cstr_at (a @ s @ CHR 0x00 # junk) (length a) = s" using Suc.prems by (simp add: cstr_at_append cstr_stop)
  show ?case
  proof (cases "str_find (CHR '' '') s")
    case None
    then show ?thesis using c by (simp del: str_find_None)
  next
    case (Some k)
    let ?a = "a @ take k s @ [CHR 0x00]" and ?t = "drop (Suc k) s"
    from str_find_Some [OF Some] have k: "k < length s" "s ! k = CHR '' ''" by auto
    have u: "(a @ s @ CHR 0x00 # junk)[length a + k := CHR 0x00] = ?a @ ?t @ CHR 0x00 # junk"
      using k by (simp add: list_update_append upd_conv_take_nth_drop)
    have l: "length ?a = length a + k + 1" using k by simp
    have t: "CHR 0x00 \<notin> set ?t" using Suc.prems by (meson in_set_dropD)
    note IH = Suc.IH [OF t, of ?a "ps @ [length a]"] Suc.IH [OF t, of ?a "[length a]"]
    obtain b qs where p: "parse_loop n (?a @ ?t @ CHR 0x00 # junk) [length ?a] = (b, qs)" by (metis surj_pair)
    have b: "take (length ?a) b = ?a" "map (cstr_at b) qs = split_args n ?t" using IH(1) p by auto
    have "b = ?a @ drop (length ?a) b" using b(1) by (metis append_take_drop_id)
    then have "take (length a) b = a" "cstr_at b (length a) = take k s"
      using Suc.prems cstr_stop [of "take k s" "drop (length ?a) b"]
      by (metis append_eq_conv_conj append_assoc, metis append_Cons append_Nil append_assoc cstr_at_append in_set_takeD)
    then show ?thesis using IH p b(2) Some c u l by (simp add: Let_def)
  qed
qed

text \<open>The line in its buffer, whatever follows it there.\<close>

lemma parse_args_line:
  assumes "CHR 0x00 \<notin> set line"
  shows "snd (parse_args (store_line line buf)) = split_args (DEBUG_MAX_ARGS - 1) line"
  using parse_loop_split [OF assms, of "DEBUG_MAX_ARGS - 1" "[]" "drop (Suc (length line)) buf"]
  by (auto simp: parse_args_def store_line_def split: prod.splits)

fun join_args :: "string list \<Rightarrow> string" where
  "join_args [] = []"
| "join_args [a] = a"
| "join_args (a # as) = a @ '' '' @ join_args as"

lemma split_args_nonempty: "split_args n s \<noteq> []"
  by (cases n) (auto split: option.split)

lemma split_empty: "split_args n [] = [[]]"
  by (cases n) simp_all

lemma join_split_args: "join_args (split_args n s) = s"
proof (induction n arbitrary: s)
  case (Suc n)
  show ?case
  proof (cases "str_find (CHR '' '') s")
    case (Some k)
    have "split_args n (drop (Suc k) s) \<noteq> []" by (rule split_args_nonempty)
    then have "join_args (take k s # split_args n (drop (Suc k) s)) = take k s @ '' '' @ drop (Suc k) s"
      using Suc.IH [of "drop (Suc k) s"] by (cases "split_args n (drop (Suc k) s)") simp_all
    moreover have "take k s @ s ! k # drop (Suc k) s = s" "s ! k = CHR '' ''"
      using str_find_Some [OF Some] by (metis id_take_nth_drop) (simp add: str_find_Some [OF Some])
    ultimately show ?thesis using Some by simp
  qed (simp del: str_find_None)
qed simp

lemma split_args_spaces: "length (split_args n s) \<le> Suc n \<and> (\<forall>a \<in> set (butlast (split_args n s)). CHR '' '' \<notin> set a)"
proof (induction n arbitrary: s)
  case (Suc n)
  show ?case
  proof (cases "str_find (CHR '' '') s")
    case (Some k)
    with Suc.IH [of "drop (Suc k) s"] str_find_Some [OF Some] split_args_nonempty [of n "drop (Suc k) s"] show ?thesis by simp
  qed (simp del: str_find_None)
qed simp

section \<open>Scripts\<close>

text \<open>A script of whole lines and a last line that may be empty; what its execution line by line gives.\<close>

definition script_text :: "string list \<Rightarrow> string \<Rightarrow> string" where
  "script_text ls l = concat (map (\<lambda>l. l @ [CHR 0x0A]) ls) @ l"

definition line_ok :: "string \<Rightarrow> bool" where
  "line_ok l \<longleftrightarrow> CHR 0x0A \<notin> set l \<and> CHR 0x00 \<notin> set l \<and> length l < DEBUG_MAX_LINE"

fun run_lines :: "('e, 's) call_fn \<Rightarrow> string list \<Rightarrow> string list \<Rightarrow> client_lib \<times> 's \<Rightarrow> 'e shell_end \<times> string list + string list \<times> client_lib \<times> 's" where
  "run_lines call [] out w = Inr (out, w)"
| "run_lines call (l # ls) out w = (case execute_command call (split_args (DEBUG_MAX_ARGS - 1) l) w of
     Inl e \<Rightarrow> Inl (e, out)
   | Inr (printed, w) \<Rightarrow> run_lines call ls (out @ printed) w)"

lemma script_text_simps [simp]: "script_text [] l = l" "script_text (l # ls) m = l @ CHR 0x0A # script_text ls m"
  by (simp_all add: script_text_def)

lemma takeWhile_line: "CHR 0x0A \<notin> set l \<Longrightarrow> takeWhile (\<lambda>c. c \<noteq> CHR 0x0A) (l @ CHR 0x0A # s) = l"
  by (induction l) auto

lemma stream_line:
  assumes "line_ok l"
  shows "stream_getline DEBUG_MAX_LINE \<lparr>in_rest = l @ CHR 0x0A # s, in_eof = False, in_fail = False\<rparr>
     = (l, \<lparr>in_rest = s, in_eof = False, in_fail = False\<rparr>)"
  using assms by (simp add: stream_getline_def line_ok_def takeWhile_line Let_def)

lemma stream_last_line:
  assumes "line_ok l"
  shows "stream_getline DEBUG_MAX_LINE \<lparr>in_rest = l, in_eof = False, in_fail = False\<rparr>
     = (l, \<lparr>in_rest = [], in_eof = True, in_fail = (l = [])\<rparr>)"
proof -
  have *: "takeWhile (\<lambda>c. c \<noteq> CHR 0x0A) l = l" using assms by (auto simp: line_ok_def takeWhile_eq_all_conv)
  from assms show ?thesis unfolding stream_getline_def line_ok_def by (simp add: Let_def * del: takeWhile_eq_all_conv)
qed

lemma DispatchCommand_line: "line_ok l \<Longrightarrow>
    DispatchCommand call (store_line l buf) w = execute_command call (split_args (DEBUG_MAX_ARGS - 1) l) w"
  by (simp add: DispatchCommand_def parse_args_line line_ok_def)

lemma RunScript_line:
  assumes "line_ok l"
  shows "RunScript call \<lparr>in_rest = l @ CHR 0x0A # s, in_eof = False, in_fail = False\<rparr> buf out w =
     (case execute_command call (split_args (DEBUG_MAX_ARGS - 1) l) w of
        Inl e \<Rightarrow> Some (Inl (e, out))
      | Inr (printed, w) \<Rightarrow> RunScript call \<lparr>in_rest = s, in_eof = False, in_fail = False\<rparr>
          (fst (parse_args (store_line l buf))) (out @ printed) w)"
  by (subst RunScript.simps) (simp add: stream_line [OF assms] DispatchCommand_line [OF assms] Let_def split: sum.split)

text \<open>Once the fail bit is set the loop never ends: the end of the file is never reported.\<close>

lemma RunScript_failed:
  assumes "RunScript call fin buf out w = Some r" "in_fail fin" "\<not> in_eof fin"
  shows False
  using assms(2,3)
proof (induction rule: RunScript.raw_induct [OF _ assms(1)])
  case (1 rec call fin buf out w r)
  have "stream_getline DEBUG_MAX_LINE fin = ([], fin)" using 1(3) by (simp add: stream_getline_def)
  moreover have "DispatchCommand call (store_line [] buf) w = Inr ([], w)"
    using DispatchCommand_line [of "[]" call buf w] by (simp add: line_ok_def DEBUG_MAX_LINE_def execute_command_def split_empty Let_def)
  ultimately have "rec call fin (fst (parse_args (store_line [] buf))) (out @ []) w = Some r"
    using 1(2,4) by simp
  from 1(1) [OF this 1(3,4)] show ?case .
qed

lemma RunScript_never_ends: "in_fail fin \<Longrightarrow> \<not> in_eof fin \<Longrightarrow> RunScript call fin buf out w = None"
  using RunScript_failed [of call fin buf out w] by (cases "RunScript call fin buf out w") auto

section \<open>Properties\<close>

text \<open>\<open>DispatchCommand\<close> splits a line in its buffer as intended: whatever the buffer held before,
  the arguments are at most \<open>DEBUG_MAX_ARGS\<close>, only the last one can contain spaces, and joined by
  single spaces they are the line again.\<close>

theorem arguments_of_line:
  assumes "CHR 0x00 \<notin> set line"
  shows "snd (parse_args (store_line line buf)) = split_args (DEBUG_MAX_ARGS - 1) line
    \<and> join_args (snd (parse_args (store_line line buf))) = line
    \<and> length (snd (parse_args (store_line line buf))) \<le> DEBUG_MAX_ARGS
    \<and> (\<forall>a \<in> set (butlast (snd (parse_args (store_line line buf)))). CHR '' '' \<notin> set a)"
  using split_args_spaces [of "DEBUG_MAX_ARGS - 1" line]
  by (simp add: parse_args_line [OF assms] join_split_args) (simp add: DEBUG_MAX_ARGS_def)

theorem arguments_of_line_witness:
  "snd (parse_args (store_line ''set 1 a b'' (replicate 256 CHR ''x''))) = [''set'', ''1'', ''a'', ''b'']
    \<and> join_args (snd (parse_args (store_line ''set 1 a b'' (replicate 256 CHR ''x'')))) = ''set 1 a b''"
  using arguments_of_line [of "''set 1 a b''" "replicate 256 CHR ''x''"]
  by (simp add: DEBUG_MAX_ARGS_def numeral_eq_Suc)

text \<open>C17: A script whose lines fit the buffer is executed line by line to its end, or to the first
  command that ends the shell, with the client library and the cell threaded through, and the
  loop of \<open>RunScript\<close> ends.\<close>

theorem script_runs_lines:
  assumes "\<forall>l \<in> set (ls @ [m]). line_ok l"
  shows "RunScript call (open_stream (Some (script_text ls m))) buf out w = Some (run_lines call (ls @ [m]) out w)"
proof -
  have "RunScript call \<lparr>in_rest = script_text ls m, in_eof = False, in_fail = False\<rparr> buf out w = Some (run_lines call (ls @ [m]) out w)"
    using assms
  proof (induction ls arbitrary: buf out w)
    case Nil
    then have m: "line_ok m" by simp
    show ?case
      by (subst RunScript.simps) (simp add: stream_last_line [OF m] DispatchCommand_line [OF m] RunScript.simps Let_def split: sum.split)
  next
    case (Cons l ls)
    then have "line_ok l" by simp
    then show ?case using Cons by (simp add: RunScript_line split: sum.split)
  qed
  then show ?thesis by (simp add: open_stream_def)
qed

theorem script_runs_lines_witness:
  "RunScript (\<lambda>_ s. Inl ()) (open_stream (Some (script_text [''echo a b'', ''nope'', ''exit''] ''''))) [] [] (new_client_lib, ())
     = Some (Inl (Sh_exit, [''a b '', ''Unknown command '' @ [CHR 0x27] @ ''nope'' @ [CHR 0x27]]))"
proof -
  have "\<forall>l \<in> set ([''echo a b'', ''nope'', ''exit''] @ [[]]). line_ok l" by (simp add: line_ok_def DEBUG_MAX_LINE_def)
  from script_runs_lines [OF this, of "\<lambda>_ s. Inl ()" "[]" "[]" "(new_client_lib, ())"] show ?thesis
    by (simp add: DEBUG_MAX_ARGS_def numeral_eq_Suc execute_command_def Let_def Cmd_Echo_def)
qed

text \<open>A script with a line that does not fit the buffer is never finished: the first 255 characters
  of the line are executed as a command, the stream fails, and \<open>RunScript\<close>, which only looks for
  the end of the file, loops for ever. The same holds for a file that can not be opened.\<close>

theorem long_line_never_ends:
  assumes "\<forall>l \<in> set ls. line_ok l" and "CHR 0x0A \<notin> set long" and "CHR 0x00 \<notin> set long" and "DEBUG_MAX_LINE \<le> length long"
    and "run_lines call (ls @ [take (DEBUG_MAX_LINE - 1) long]) out w = Inr r"
  shows "RunScript call (open_stream (Some (script_text ls (long @ rest)))) buf out w = None
    \<and> RunScript call (open_stream None) buf out w = None"
proof
  show "RunScript call (open_stream None) buf out w = None"
    by (rule RunScript_never_ends) (simp_all add: open_stream_def)
  have "RunScript call \<lparr>in_rest = script_text ls (long @ rest), in_eof = False, in_fail = False\<rparr> buf out w = None"
    using assms(1,5)
  proof (induction ls arbitrary: buf out w)
    case Nil
    let ?l = "take (DEBUG_MAX_LINE - 1) long" and ?st = "\<lparr>in_rest = long @ rest, in_eof = False, in_fail = False\<rparr>"
    have "DEBUG_MAX_LINE \<le> length (takeWhile (\<lambda>c. c \<noteq> CHR 0x0A) (long @ rest))"
      using assms(2,4) by (subst takeWhile_append2) auto
    then have g: "stream_getline DEBUG_MAX_LINE ?st = (?l, \<lparr>in_rest = drop (DEBUG_MAX_LINE - 1) (long @ rest), in_eof = False, in_fail = True\<rparr>)"
      using assms(4) by (simp add: stream_getline_def Let_def)
    have "line_ok ?l"
      using assms(2-4) in_set_takeD [of _ "DEBUG_MAX_LINE - 1" long] by (auto simp: line_ok_def DEBUG_MAX_LINE_def)
    with Nil g show ?case
      by (subst RunScript.simps) (auto simp: DispatchCommand_line RunScript_never_ends Let_def split: sum.splits)
  next
    case (Cons l ls)
    then have "line_ok l" by simp
    then show ?case using Cons by (auto simp: RunScript_line split: sum.splits)
  qed
  then show "RunScript call (open_stream (Some (script_text ls (long @ rest)))) buf out w = None" by (simp add: open_stream_def)
qed

theorem long_line_never_ends_witness:
  "RunScript (\<lambda>_ s. Inl ()) (open_stream (Some (script_text [''echo a''] (replicate 256 CHR ''x'' @ [CHR 0x0A])))) [] [] (new_client_lib, ()) = None"
proof -
  obtain n where n: "n = (256 :: nat)" by simp
  have s: "split_args k (replicate j CHR ''x'') = [replicate j CHR ''x'']" for k j
    by (cases k) (auto split: option.split dest: str_find_Some)
  have "replicate 255 CHR ''x'' = CHR ''x'' # replicate 254 CHR ''x''" by (subst replicate_Suc [symmetric]) (simp del: replicate_Suc)
  then have "execute_command (\<lambda>_ s. Inl ()) [replicate 255 CHR ''x''] w = Inr ([''Unknown command '' @ [CHR 0x27] @ replicate 255 CHR ''x'' @ [CHR 0x27]], w)" for w :: "client_lib \<times> unit"
    by (simp add: execute_command_def Let_def)
  then have "\<exists>r. run_lines (\<lambda>_ s. Inl ()) ([''echo a''] @ [take (DEBUG_MAX_LINE - 1) (replicate n CHR ''x'')]) [] (new_client_lib, ()) = Inr r"
    by (simp add: s n DEBUG_MAX_LINE_def) (simp add: DEBUG_MAX_ARGS_def numeral_eq_Suc execute_command_def Let_def Cmd_Echo_def)
  then obtain r where "run_lines (\<lambda>_ s. Inl ()) ([''echo a''] @ [take (DEBUG_MAX_LINE - 1) (replicate n CHR ''x'')]) [] (new_client_lib, ()) = Inr r" ..
  from long_line_never_ends [OF _ _ _ _ this, of "[CHR 0x0A]" "[]"] have
    "RunScript (\<lambda>_ s. Inl ()) (open_stream (Some (script_text [''echo a''] (replicate n CHR ''x'' @ [CHR 0x0A])))) [] [] (new_client_lib, ()) = None"
    by (simp add: line_ok_def DEBUG_MAX_LINE_def n)
  then show ?thesis unfolding n .
qed

end
