(* ===== verification/Client_Apps.thy ===== *)
theory Client_Apps
  imports Client_Lib Server_Db_Spec
begin

unbundle bit_operations_syntax

text \<open>
  The example applications of \<open>src/apps\<close> that only call the client library: \<open>Tokenize\<close>
  (\<open>common.h\<close>), \<open>group_membership.cc\<close> and \<open>leader_elect.cc\<close>, with their event callbacks as functions
  on the variables they capture. \<open>checkErr\<close>, which ends the process, and exceptions are error values.
\<close>

section \<open>Tokens\<close>

text \<open>\<open>find_first_of\<close> and \<open>find_first_not_of\<close> from a position on; \<open>None\<close> is \<open>npos\<close>, as argument too.\<close>

definition find_first :: "(char \<Rightarrow> bool) \<Rightarrow> string \<Rightarrow> nat option \<Rightarrow> nat option" where
  "find_first P str pos = (case pos of
     None \<Rightarrow> None
   | Some p \<Rightarrow> (let k = length (takeWhile (\<lambda>c. \<not> P c) (drop p str)) in if p + k < length str then Some (p + k) else None))"

definition find_first_of :: "string \<Rightarrow> string \<Rightarrow> nat option \<Rightarrow> nat option" where
  "find_first_of delimiters = find_first (\<lambda>c. c \<in> set delimiters)"

definition find_first_not_of :: "string \<Rightarrow> string \<Rightarrow> nat option \<Rightarrow> nat option" where
  "find_first_not_of delimiters = find_first (\<lambda>c. c \<notin> set delimiters)"

text \<open>
  How an application ends otherwise than by returning: \<open>substr\<close> out of range, \<open>back()\<close> of an empty
  vector, \<open>checkErr\<close>, a \<open>ClientException\<close>, and what ends a method of the library.
\<close>

datatype 'e app_error = App_out_of_range | App_empty_back | App_exit | App_exception u32 | App_lib "'e lib_error"

text \<open>\<open>str.substr(lastPos, pos - lastPos)\<close> with unsigned positions: a difference below zero is large.\<close>

definition substr :: "string \<Rightarrow> nat \<Rightarrow> nat option \<Rightarrow> string" where
  "substr str lastPos pos = (case pos of
     None \<Rightarrow> drop lastPos str
   | Some p \<Rightarrow> if p < lastPos then drop lastPos str else take (p - lastPos) (drop lastPos str))"

partial_function (option) tokenize_loop ::
    "string \<Rightarrow> string \<Rightarrow> nat option \<Rightarrow> nat option \<Rightarrow> string list \<Rightarrow> ('e app_error + string list) option" where
  "tokenize_loop str delimiters lastPos pos tokens =
     (if pos = None \<and> lastPos = None then Some (Inr tokens)
      else case lastPos of
        None \<Rightarrow> Some (Inl App_out_of_range)
      | Some l \<Rightarrow>
          let tokens = tokens @ [substr str l pos];
              lastPos = find_first_not_of delimiters str pos;
              pos = find_first_of delimiters str lastPos
          in tokenize_loop str delimiters lastPos pos tokens)"

definition Tokenize :: "string \<Rightarrow> string \<Rightarrow> ('e app_error + string list) option" where
  "Tokenize str delimiters =
     (let lastPos = find_first_not_of delimiters str (Some 0);
          pos = find_first_of delimiters str lastPos
      in tokenize_loop str delimiters lastPos pos [])"

text \<open>What it is meant to compute: the pieces between the delimiters that are not empty.\<close>

fun pieces :: "(char \<Rightarrow> bool) \<Rightarrow> string \<Rightarrow> string list" where
  "pieces P [] = [[]]"
| "pieces P (c # s) = (if P c then [] # pieces P s else (c # hd (pieces P s)) # tl (pieces P s))"

definition tokens_of :: "(char \<Rightarrow> bool) \<Rightarrow> string \<Rightarrow> string list" where
  "tokens_of P s = filter (\<lambda>t. t \<noteq> []) (pieces P s)"

lemma pieces_nonempty [simp]: "pieces P s \<noteq> []"
  by (cases s) auto

lemma tokens_of_Nil [simp]: "tokens_of P [] = []"
  by (simp add: tokens_of_def)

lemma tokens_of_skip: "P c \<Longrightarrow> tokens_of P (c # s) = tokens_of P s"
  by (simp add: tokens_of_def)

lemma tokens_of_drop: "tokens_of P (dropWhile P s) = tokens_of P s"
  by (induction s) (auto simp: tokens_of_skip)

lemma pieces_word: "\<forall>c \<in> set a. \<not> P c \<Longrightarrow> pieces P (a @ s) = (a @ hd (pieces P s)) # tl (pieces P s)"
  by (induction a) auto

lemma tokens_of_word: "a \<noteq> [] \<Longrightarrow> \<forall>c \<in> set a. \<not> P c \<Longrightarrow> s = [] \<or> P (hd s) \<Longrightarrow> tokens_of P (a @ s) = a # tokens_of P s"
  using pieces_word [of a P "[]"] by (cases s) (auto simp: tokens_of_def pieces_word)

lemma find_first_from:
  assumes "p \<le> length str"
  shows "find_first P str (Some p) = (let t = dropWhile (\<lambda>c. \<not> P c) (drop p str) in if t = [] then None else Some (length str - length t))"
proof -
  define k t where "k = length (takeWhile (\<lambda>c. \<not> P c) (drop p str))" and "t = dropWhile (\<lambda>c. \<not> P c) (drop p str)"
  have "k + length t = length str - p"
    unfolding k_def t_def by (metis length_append length_drop takeWhile_dropWhile_id)
  with assms show ?thesis
    unfolding find_first_def Let_def option.case k_def [symmetric] t_def [symmetric] by (cases t) auto
qed

lemma drop_suffix: "suffix t str \<Longrightarrow> drop (length str - length t) str = t"
  by (auto simp: suffix_def)

text \<open>From a suffix \<open>s\<close> of the text on.\<close>

lemma find_first_suffix:
  assumes "suffix s str"
  shows "find_first P str (Some (length str - length s))
    = (if dropWhile (\<lambda>c. \<not> P c) s = [] then None else Some (length str - length (dropWhile (\<lambda>c. \<not> P c) s)))"
  using find_first_from [of "length str - length s" str P] by (simp only: drop_suffix [OF assms] Let_def diff_le_self simp_thms)

text \<open>The next word \<open>a\<close> of a suffix \<open>s\<close> and what follows it.\<close>

lemma next_word:
  assumes "suffix s str" and "P = (\<lambda>c. c \<in> set delimiters)" and "dropWhile P s \<noteq> []"
  obtains a r where "a \<noteq> []" "suffix (a @ r) str" "suffix r str" "length (a @ r) \<le> length s"
    "tokens_of P s = a # tokens_of P r"
    "find_first_not_of delimiters str (Some (length str - length s)) = Some (length str - length (a @ r))"
    "find_first_of delimiters str (Some (length str - length (a @ r))) = (if r = [] then None else Some (length str - length r))"
proof -
  define a r where "a = takeWhile (\<lambda>c. \<not> P c) (dropWhile P s)" and "r = dropWhile (\<lambda>c. \<not> P c) (dropWhile P s)"
  have w: "dropWhile P s = a @ r" unfolding a_def r_def by simp
  have 1: "a \<noteq> []" using assms(3) hd_dropWhile [OF assms(3)] unfolding a_def by (cases "dropWhile P s") auto
  have 2: "suffix (a @ r) str" unfolding w [symmetric] using assms(1) suffix_dropWhile suffix_order.trans by blast
  have 3: "suffix r str" using 2 by (meson suffix_appendD)
  have 4: "length (a @ r) \<le> length s" unfolding w [symmetric] by (rule length_dropWhile_le)
  have al: "\<forall>c \<in> set a. \<not> P c" unfolding a_def by (auto dest: set_takeWhileD)
  have hr: "r = [] \<or> P (hd r)" unfolding r_def using hd_dropWhile [of "\<lambda>c. \<not> P c" "dropWhile P s"] by blast
  have 5: "tokens_of P s = a # tokens_of P r" using tokens_of_word [OF 1 al hr] tokens_of_drop [of P s] unfolding w by simp
  have 6: "find_first_not_of delimiters str (Some (length str - length s)) = Some (length str - length (a @ r))"
    unfolding find_first_not_of_def find_first_suffix [OF assms(1)] not_not using w 1 by (simp only: assms(2) append_is_Nil_conv simp_thms if_False)
  have "dropWhile (\<lambda>c. \<not> P c) (a @ r) = r" by (simp only: w [symmetric] r_def [symmetric])
  then have 7: "find_first_of delimiters str (Some (length str - length (a @ r))) = (if r = [] then None else Some (length str - length r))"
    unfolding find_first_of_def find_first_suffix [OF 2] by (simp only: assms(2))
  from that [OF 1 2 3 4 5 6 7] show thesis .
qed

lemma tokenize_loop_tokens:
  assumes "suffix s str" and "P = (\<lambda>c. c \<in> set delimiters)"
  shows "(let lastPos = find_first_not_of delimiters str (Some (length str - length s)) in
      tokenize_loop str delimiters lastPos (find_first_of delimiters str lastPos) ts) = Some (Inr (ts @ tokens_of P s))"
  using assms(1)
proof (induction "length s" arbitrary: s ts rule: less_induct)
  case less
  show ?case
  proof (cases "dropWhile P s = []")
    case True
    then have "tokens_of P s = []" using tokens_of_drop [of P s] by (metis tokens_of_Nil)
    moreover have "find_first_not_of delimiters str (Some (length str - length s)) = None"
      unfolding find_first_not_of_def find_first_suffix [OF less.prems] not_not using True by (simp only: assms(2) if_True simp_thms)
    ultimately show ?thesis by (simp add: find_first_of_def find_first_def tokenize_loop.simps)
  next
    case False
    from next_word [OF less.prems assms(2) False] obtain a r where
      w: "a \<noteq> []" "suffix (a @ r) str" "suffix r str" "length (a @ r) \<le> length s" "tokens_of P s = a # tokens_of P r"
      "find_first_not_of delimiters str (Some (length str - length s)) = Some (length str - length (a @ r))"
      "find_first_of delimiters str (Some (length str - length (a @ r))) = (if r = [] then None else Some (length str - length r))"
      by blast
    have l: "length (a @ r) \<le> length str" "length r < length s" using suffix_length_le [OF w(2)] w(1,4) by (cases a; simp)+
    have tok: "substr str (length str - length (a @ r)) (if r = [] then None else Some (length str - length r)) = a"
      using drop_suffix [OF w(2)] l(1) by (auto simp: substr_def)
    show ?thesis
    proof (cases "r = []")
      case True
      then show ?thesis using w(5-7) tok
        by (simp add: tokenize_loop.simps [of _ _ "Some _"] Let_def)
          (simp add: find_first_of_def find_first_not_of_def find_first_def tokenize_loop.simps)
    next
      case False
      with less.hyps [OF l(2) w(3), of "ts @ [a]"] w(5-7) tok show ?thesis
        by (simp add: tokenize_loop.simps [of _ _ "Some _"] Let_def)
    qed
  qed
qed

lemma Tokenize_tokens: "Tokenize str delimiters = Some (Inr (tokens_of (\<lambda>c. c \<in> set delimiters) str))"
  using tokenize_loop_tokens [of str str _ delimiters "[]"] by (simp add: Tokenize_def Let_def)

section \<open>Calls of the library\<close>

definition app_lib :: "'e lib_error + 'a \<Rightarrow> ('a \<Rightarrow> 'e app_error + 'b) \<Rightarrow> 'e app_error + 'b" where
  "app_lib r k = (case r of Inl e \<Rightarrow> Inl (App_lib e) | Inr x \<Rightarrow> k x)"

definition app_call :: "'e lib_error + (u32 + 'a) \<times> 'w \<Rightarrow> ('a \<Rightarrow> 'w \<Rightarrow> 'e app_error + 'b) \<Rightarrow> 'e app_error + 'b" where
  "app_call r k = app_lib r (\<lambda>(v, w). case v of Inl e \<Rightarrow> Inl (App_exception e) | Inr x \<Rightarrow> k x w)"

definition checkErr :: "bool \<Rightarrow> 'e app_error + unit" where
  "checkErr ret = assertR App_exit ret"

text \<open>Create a node if it does not exist: the handle is closed again, and a failure is no error.\<close>

definition create_node :: "('e, 's) call_fn \<Rightarrow> string \<Rightarrow> u64 \<Rightarrow> client_lib \<times> 's \<Rightarrow> 'e app_error + client_lib \<times> 's" where
  "create_node call name mode w =
     app_lib (lib_fileOpen call name mode w) (\<lambda>(fdId, w).
     if fdId \<noteq> FAIL then app_lib (lib_fileClose call fdId w) Inr else Inr w)"

definition open_node_or_exit :: "('e, 's) call_fn \<Rightarrow> string \<Rightarrow> u64 \<Rightarrow> client_lib \<times> 's \<Rightarrow> 'e app_error + FileHandlerId \<times> client_lib \<times> 's" where
  "open_node_or_exit call name mode w =
     app_lib (lib_fileOpen call name mode w) (\<lambda>(fdId, w). bindR (checkErr (fdId \<noteq> FAIL)) (\<lambda>_. Inr (fdId, w)))"

text \<open>\<open>checkErr(client.getContentsAndStat(fdId, &content, nullptr), ...)\<close>\<close>

definition read_content :: "('e, 's) call_fn \<Rightarrow> FileHandlerId \<Rightarrow> client_lib \<times> 's \<Rightarrow> 'e app_error + string \<times> client_lib \<times> 's" where
  "read_content call fdId w =
     app_call (lib_getContentsAndStat call fdId w) (\<lambda>c w. case c of None \<Rightarrow> Inl App_exit | Some c \<Rightarrow> Inr (cs_content c, w))"

section \<open>Leader election\<close>

text \<open>The variables of \<open>main\<close> in \<open>leader_elect.cc\<close> that its callbacks capture.\<close>

record elector =
  el_fdId :: FileHandlerId
  el_leader :: string

definition leaderfile :: string where "leaderfile = ''/leader''"

definition compete :: "('e, 's) call_fn \<Rightarrow> string \<Rightarrow> string \<Rightarrow> elector \<times> client_lib \<times> 's \<Rightarrow> 'e app_error + elector \<times> client_lib \<times> 's" where
  "compete call myId fname = (\<lambda>(e, w).
     if fname = leaderfile
     then app_call (lib_tryAcquire call (el_fdId e) w) (\<lambda>got w.
       if got
       then app_call (lib_setContents call (el_fdId e) myId w) (\<lambda>ok w.
         bindR (checkErr ok) (\<lambda>_. Inr (e\<lparr>el_leader := myId\<rparr>, w)))
       else Inr (e, w))
     else Inr (e, w))"

definition renew :: "('e, 's) call_fn \<Rightarrow> string \<Rightarrow> elector \<times> client_lib \<times> 's \<Rightarrow> 'e app_error + elector \<times> client_lib \<times> 's" where
  "renew call fname = (\<lambda>(e, w).
     if fname = leaderfile
     then bindR (read_content call (el_fdId e) w) (\<lambda>(newleader, w).
       Inr (if newleader \<noteq> el_leader e then e\<lparr>el_leader := newleader\<rparr> else e, w))
     else Inr (e, w))"

text \<open>
  Whatever serves the calls: a process that gets the lock writes its name and takes itself for the
  leader, one that does not changes nothing, and \<open>renew\<close> takes the content of the file for the leader.
  (\<open>main\<close> calls both functions too, in its own thread; how they interleave there with the callbacks is
  not modelled.)
\<close>

lemmas app_defs = app_call_def app_lib_def lib_call_def checkErr_def val_or_throw_def bool_val_def bool_errCode_def bool_discriminant_def

lemma compete_outcome:
  assumes "map_of (fdList l) (el_fdId e) = Some fh" and "call (Rq_tryAcquire fh) w = Inr (ret_val got, w1)"
    and "got \<Longrightarrow> call (Rq_setContents \<lparr>as_fd = fh, as_content = myId\<rparr>) w1 = Inr (ret_val True, w2)"
  shows "compete call myId leaderfile (e, l, w) = Inr (if got then (e\<lparr>el_leader := myId\<rparr>, l, w2) else (e, l, w1))"
  using assms by (auto simp: compete_def lib_tryAcquire_def lib_setContents_def app_defs ret_val_def rb_discriminant_def)

lemma renew_outcome:
  assumes "map_of (fdList l) (el_fdId e) = Some fh" and "call (Rq_getContentsAndStat fh) w = Inr (R_contents (RetContents_val c), w1)"
  shows "renew call leaderfile (e, l, w) = Inr (e\<lparr>el_leader := cs_content c\<rparr>, l, w1)"
  using assms by (auto simp: renew_def read_content_def lib_getContentsAndStat_def app_defs)

section \<open>Group membership\<close>

text \<open>\<open>membership_parse\<close>; \<open>back()\<close> of an empty vector is an error.\<close>

fun show_members :: "string list \<Rightarrow> string \<Rightarrow> ('e app_error + string) option" where
  "show_members [] ret = Some (Inr (ret @ ''>''))"
| "show_members (m # l) ret = (case Tokenize m ''/'' of
     None \<Rightarrow> None
   | Some (Inl e) \<Rightarrow> Some (Inl e)
   | Some (Inr paths) \<Rightarrow> if paths = [] then Some (Inl App_empty_back) else show_members l (ret @ last paths @ '' ''))"

definition membership_parse :: "string \<Rightarrow> ('e app_error + string) option" where
  "membership_parse list = (case Tokenize list ''|'' of
     None \<Rightarrow> None
   | Some (Inl e) \<Rightarrow> Some (Inl e)
   | Some (Inr l) \<Rightarrow> show_members l ''< '')"

text \<open>The variables that the callback of \<open>group_membership.cc\<close> captures, the callback, and \<open>main\<close> before and after its loop.\<close>

record member =
  gm_dirId :: FileHandlerId
  gm_fdId :: FileHandlerId
  gm_list :: string

definition groupdir :: string where "groupdir = ''/group''"

definition renew_group :: "('e, 's) call_fn \<Rightarrow> string \<Rightarrow> member \<times> client_lib \<times> 's \<Rightarrow> 'e app_error + member \<times> client_lib \<times> 's" where
  "renew_group call fname = (\<lambda>(g, w).
     if fname = groupdir
     then bindR (read_content call (gm_dirId g) w) (\<lambda>(newlist, w).
       Inr (if newlist \<noteq> gm_list g then g\<lparr>gm_list := newlist\<rparr> else g, w))
     else Inr (g, w))"

definition group_start :: "('e, 's) call_fn \<Rightarrow> string \<Rightarrow> client_lib \<times> 's \<Rightarrow> 'e app_error + member \<times> client_lib \<times> 's" where
  "group_start call myId w =
     bindR (create_node call groupdir CREATE_DIRECTORY w) (\<lambda>w.
     bindR (open_node_or_exit call groupdir (READ OR WRITE OR EV_CONTENT_MODIFIED) w) (\<lambda>(dirId, w).
     bindR (open_node_or_exit call (groupdir @ ''/'' @ myId) (CREATE_FILE OR EPHEMERAL) w) (\<lambda>(fdId, w).
     renew_group call groupdir (\<lparr>gm_dirId = dirId, gm_fdId = fdId, gm_list = []\<rparr>, w))))"

definition group_end :: "('e, 's) call_fn \<Rightarrow> member \<Rightarrow> client_lib \<times> 's \<Rightarrow> 'e app_error + client_lib \<times> 's" where
  "group_end call g w =
     app_call (lib_fileDelete call (gm_fdId g) w) (\<lambda>ok w.
     bindR (checkErr ok) (\<lambda>_.
     app_lib (lib_fileClose call (gm_dirId g) w) (\<lambda>w.
     app_lib (lib_fileClose call (gm_fdId g) w) (\<lambda>w.
     app_lib (lib_close call w) Inr))))"

lemma tokens_word: "a \<noteq> [] \<Longrightarrow> \<forall>c \<in> set a. \<not> P c \<Longrightarrow> tokens_of P a = [a]"
  using tokens_of_word [of a P "[]"] by simp

lemma tokens_listing:
  "\<forall>n \<in> set ns. n \<noteq> [] \<and> CHR ''|'' \<notin> set n \<Longrightarrow> tokens_of (\<lambda>c. c = CHR ''|'') (listing ns) = ns"
proof (induction ns)
  case (Cons n ns)
  have "listing ns = [] \<or> hd (listing ns) = CHR ''|''" by (cases ns) (simp_all add: listing_def)
  then have "tokens_of (\<lambda>c. c = CHR ''|'') (n @ listing ns) = n # tokens_of (\<lambda>c. c = CHR ''|'') (listing ns)"
    using Cons.prems by (intro tokens_of_word) auto
  then show ?case using Cons by (simp add: listing_def tokens_of_skip)
qed (simp add: listing_def)

text \<open>The last component of a path.\<close>

lemma tokens_path:
  assumes "i \<noteq> []" "CHR ''/'' \<notin> set i" "g \<noteq> []" "CHR ''/'' \<notin> set g"
  shows "tokens_of (\<lambda>c. c = CHR ''/'') (''/'' @ g @ ''/'' @ i) = [g, i]"
proof -
  have "\<forall>c \<in> set g. c \<noteq> CHR ''/''" "\<forall>c \<in> set i. c \<noteq> CHR ''/''" using assms by auto
  with assms tokens_of_word [of g "\<lambda>c. c = CHR ''/''" "''/'' @ i"] tokens_word [of i "\<lambda>c. c = CHR ''/''"]
  show ?thesis by (simp add: tokens_of_skip)
qed

lemma show_members_paths:
  "\<forall>i \<in> set ids. i \<noteq> [] \<and> CHR ''/'' \<notin> set i \<Longrightarrow>
   show_members (map (\<lambda>i. ''/group/'' @ i) ids) ret = Some (Inr (ret @ concat (map (\<lambda>i. i @ '' '') ids) @ ''>''))"
  by (induction ids arbitrary: ret) (use tokens_path [where g = "''group''"] in \<open>simp_all add: Tokenize_tokens\<close>)

text \<open>What \<open>group_membership\<close> prints is the list of the members: on the content that the store
  keeps for the directory \<open>/group\<close> with the ephemeral files of the members, \<open>membership_parse\<close> and
  the two runs of \<open>Tokenize\<close> end, and give the members' names in their order.\<close>

theorem membership_shows_members:
  assumes "\<forall>i \<in> set ids. i \<noteq> [] \<and> CHR ''/'' \<notin> set i \<and> CHR ''|'' \<notin> set i"
  shows "membership_parse (listing (map (\<lambda>i. ''/group/'' @ i) ids)) = Some (Inr (''< '' @ concat (map (\<lambda>i. i @ '' '') ids) @ ''>''))"
proof -
  have "tokens_of (\<lambda>c. c = CHR ''|'') (listing (map (\<lambda>i. ''/group/'' @ i) ids)) = map (\<lambda>i. ''/group/'' @ i) ids"
    using assms by (intro tokens_listing) auto
  then show ?thesis using show_members_paths [of ids "''< ''"] assms by (simp add: membership_parse_def Tokenize_tokens)
qed

theorem membership_shows_members_witness:
  "membership_parse (listing [''/group/ann'', ''/group/bob'']) = Some (Inr ''< ann bob >'')"
  using membership_shows_members [of "[''ann'', ''bob'']"] by simp

end
