(* ===== verification/Double_Barrier.thy ===== *)
theory Double_Barrier
  imports Decimal
begin

text \<open>
  The double barrier of \<open>src/apps/double_barrier.cc\<close>: class \<open>chubby_dbar\<close> as \<open>num\<close> processes use it
  on one cell. Each process runs \<open>sync\<close> (called by \<open>enter\<close> and \<open>leave\<close>); a step is one call of the
  client library or one access to \<open>passed\<close>. The cell is seen as the library presents it: a file
  that holds the count, its lock, and a notification to every process that has the file \<open>passed\<close>
  open when it is written. When the lock is granted is a parameter: \<open>sync\<close> ignores what \<open>acquire\<close>
  returns, and the server can give the lock to two sessions, so that its safety is proved with no
  condition on the lock; that it does not block needs one. The other calls succeed; an error ends a
  process, which is then one that takes no more steps.
\<close>

section \<open>State\<close>

text \<open>
  The points of \<open>sync\<close> are named after what the process does next; \<open>S_write\<close> carries the local
  variable \<open>numInBar\<close>. \<open>S_out\<close> is the program outside \<open>sync\<close>.
\<close>

datatype point = S_out | S_acquire | S_read | S_write string | S_clear | S_touch | S_release | S_wait

text \<open>
  A process: the members \<open>inRegion\<close> and \<open>passed\<close>, the argument \<open>isEnter\<close>, the notifications that the
  library has not delivered yet, and two counters that only the proofs use: how often the process
  has counted itself in, and how often \<open>sync\<close> has returned.
\<close>

record chubby_dbar =
  inRegion :: bool
  passed :: bool
  isEnter :: bool
  point :: point
  events :: nat
  arrivals :: nat
  returns :: nat

text \<open>The cell, the processes, and how often \<open>passed\<close> has been written.\<close>

record dbar_world =
  count_file :: string
  count_lock :: "nat option"
  touches :: nat
  dbars :: "nat \<Rightarrow> chubby_dbar"

definition new_chubby_dbar :: chubby_dbar where
  "new_chubby_dbar = \<lparr>inRegion = False, passed = False, isEnter = False, point = S_out, events = 0, arrivals = 0, returns = 0\<rparr>"

definition new_dbar_world :: dbar_world where
  "new_dbar_world = \<lparr>count_file = [], count_lock = None, touches = 0, dbars = (\<lambda>_. new_chubby_dbar)\<rparr>"

definition set_dbar :: "nat \<Rightarrow> chubby_dbar \<Rightarrow> dbar_world \<Rightarrow> dbar_world" where
  "set_dbar p d w = w\<lparr>dbars := (dbars w)(p := d)\<rparr>"

section \<open>Steps\<close>

text \<open>The new value of \<open>numInBar\<close>; \<open>None\<close> is the exception of \<open>stoul\<close>.\<close>

definition next_count :: "string \<Rightarrow> string option" where
  "next_count numInBar =
     (if numInBar = [] then Some ''1''
      else case stoul numInBar of None \<Rightarrow> None | Some n \<Rightarrow> Some (digits (unat (n + 1))))"

text \<open>Every process has the file \<open>passed\<close> open, with notifications.\<close>

definition notify_all :: "dbar_world \<Rightarrow> dbar_world" where
  "notify_all w = w\<lparr>touches := touches w + 1, dbars := (\<lambda>p. (dbars w p)\<lparr>events := events (dbars w p) + 1\<rparr>)\<rparr>"

text \<open>\<open>grants w p\<close>: the call of \<open>acquire\<close> by \<open>p\<close> can return in \<open>w\<close>.\<close>

inductive dbar_step :: "(dbar_world \<Rightarrow> nat \<Rightarrow> bool) \<Rightarrow> u32 \<Rightarrow> dbar_world \<Rightarrow> dbar_world \<Rightarrow> bool" for grants num where
  sync_call: "p < unat num \<Longrightarrow> d = dbars w p \<Longrightarrow> point d = S_out \<Longrightarrow>
    dbar_step grants num w (set_dbar p (d\<lparr>isEnter := b, point := S_acquire\<rparr>) w)"
| sync_acquire: "p < unat num \<Longrightarrow> d = dbars w p \<Longrightarrow> point d = S_acquire \<Longrightarrow> grants w p \<Longrightarrow>
    dbar_step grants num w (set_dbar p (d\<lparr>point := S_read\<rparr>) (w\<lparr>count_lock := Some p\<rparr>))"
| sync_read: "p < unat num \<Longrightarrow> d = dbars w p \<Longrightarrow> point d = S_read \<Longrightarrow> next_count (count_file w) = Some x \<Longrightarrow>
    dbar_step grants num w (set_dbar p (d\<lparr>point := S_write x\<rparr>) w)"
| sync_write: "p < unat num \<Longrightarrow> d = dbars w p \<Longrightarrow> point d = S_write x \<Longrightarrow>
    dbar_step grants num w (set_dbar p (d\<lparr>arrivals := arrivals d + 1, point := (if x = digits (unat num) then S_clear else S_release)\<rparr>)
      (w\<lparr>count_file := x\<rparr>))"
| sync_clear: "p < unat num \<Longrightarrow> d = dbars w p \<Longrightarrow> point d = S_clear \<Longrightarrow>
    dbar_step grants num w (set_dbar p (d\<lparr>point := S_touch\<rparr>) (w\<lparr>count_file := []\<rparr>))"
| sync_touch: "p < unat num \<Longrightarrow> d = dbars (notify_all w) p \<Longrightarrow> point d = S_touch \<Longrightarrow>
    dbar_step grants num w (set_dbar p (d\<lparr>inRegion := isEnter d, point := S_release\<rparr>) (notify_all w))"
| sync_release: "p < unat num \<Longrightarrow> d = dbars w p \<Longrightarrow> point d = S_release \<Longrightarrow>
    dbar_step grants num w (set_dbar p (d\<lparr>point := S_wait\<rparr>) (w\<lparr>count_lock := None\<rparr>))"
| callback: "p < unat num \<Longrightarrow> d = dbars w p \<Longrightarrow> events d = Suc k \<Longrightarrow>
    dbar_step grants num w (set_dbar p (d\<lparr>events := k, passed := True\<rparr>) w)"
| sync_return: "p < unat num \<Longrightarrow> d = dbars w p \<Longrightarrow> point d = S_wait \<Longrightarrow> passed d \<Longrightarrow>
    dbar_step grants num w (set_dbar p (d\<lparr>passed := False, returns := returns d + 1, point := S_out\<rparr>) w)"

abbreviation dbar_run :: "(dbar_world \<Rightarrow> nat \<Rightarrow> bool) \<Rightarrow> u32 \<Rightarrow> dbar_world \<Rightarrow> dbar_world \<Rightarrow> bool" where
  "dbar_run grants num \<equiv> (dbar_step grants num)\<^sup>*\<^sup>*"

text \<open>A lock that excludes: it is granted only when nobody has it.\<close>

definition exclusive :: "dbar_world \<Rightarrow> nat \<Rightarrow> bool" where
  "exclusive w p \<longleftrightarrow> count_lock w = None"

lemma set_dbar_simps [simp]:
  "count_file (set_dbar p d w) = count_file w" "count_lock (set_dbar p d w) = count_lock w"
  "touches (set_dbar p d w) = touches w" "dbars (set_dbar p d w) = (dbars w)(p := d)"
  by (simp_all add: set_dbar_def)

lemma notify_all_simps [simp]:
  "count_file (notify_all w) = count_file w" "count_lock (notify_all w) = count_lock w"
  "touches (notify_all w) = Suc (touches w)" "dbars (notify_all w) p = (dbars w p)\<lparr>events := Suc (events (dbars w p))\<rparr>"
  by (simp_all add: notify_all_def)

section \<open>Counting\<close>

text \<open>The content of the count file when \<open>c\<close> processes wait.\<close>

definition count_text :: "nat \<Rightarrow> string" where
  "count_text c = (if c = 0 then [] else digits c)"

lemma digits_one: "digits (Suc 0) = ''1''"
  by (subst digits.simps) code_simp

lemma next_count_text: "c < 2 ^ 32 \<Longrightarrow> next_count (count_text c) = Some (digits (Suc c))"
proof (cases "c = 0")
  case True
  then show ?thesis by (simp add: next_count_def count_text_def digits_one)
next
  case False
  assume "c < 2 ^ 32"
  then have "stoul (digits c) = Some (of_nat c)" "unat (of_nat c + 1 :: u64) = Suc c"
    by (simp_all add: stoul_digits unat_word_ariths unat_of_nat)
  with False show ?thesis by (simp add: next_count_def count_text_def digits_nonempty)
qed

fun counted :: "point \<Rightarrow> bool" where
  "counted x \<longleftrightarrow> x \<in> {S_clear, S_touch, S_release, S_wait}"

definition balanced :: "nat \<Rightarrow> chubby_dbar \<Rightarrow> bool" where
  "balanced e d \<longleftrightarrow> returns d + events d + of_bool (passed d) = e \<and> arrivals d = returns d + of_bool (counted (point d)) \<and> e \<le> arrivals d"

definition total :: "nat \<Rightarrow> (nat \<Rightarrow> chubby_dbar) \<Rightarrow> nat" where
  "total n f = (\<Sum>p<n. arrivals (f p))"

lemma total_upd: "p < n \<Longrightarrow> total n (f(p := d)) + arrivals (f p) = total n f + arrivals d"
  by (simp add: total_def sum.remove [of "{..<n}" p])

lemma total_upd_same: "p < n \<Longrightarrow> arrivals d = arrivals (f p) \<Longrightarrow> total n (f(p := d)) = total n f"
  using total_upd [of p n f d] by simp

lemma all_arrived:
  assumes "\<forall>p<n. arrivals (f p) \<le> k" and "total n f = n * k" and "p < n"
  shows "arrivals (f p) = k"
  using sum_mono_inv [of "\<lambda>p. arrivals (f p)" "{..<n}" "\<lambda>_. k" p] assms by (simp add: total_def)

lemma balanced_arrivals: "balanced e d \<Longrightarrow> arrivals d \<le> Suc e \<and> returns d \<le> e"
  by (auto simp: balanced_def split: if_splits)

lemma balanced_callback: "balanced e d \<Longrightarrow> events d = Suc k \<Longrightarrow> balanced e (d\<lparr>events := k, passed := True\<rparr>)"
  by (cases "counted (point d)"; cases "passed d") (simp_all add: balanced_def del: counted.simps)

section \<open>Safety without exclusion\<close>

text \<open>
  With several processes between \<open>acquire\<close> and \<open>release\<close> updates of the count can be lost, but the
  number in the file is never more than the number \<open>c\<close> of those that have arrived in this round.
\<close>

fun point_ok :: "nat \<Rightarrow> nat \<Rightarrow> string \<Rightarrow> point \<Rightarrow> bool" where
  "point_ok n c f (S_write x) \<longleftrightarrow> (\<exists>m. 0 < m \<and> m \<le> Suc c \<and> x = digits m)"
| "point_ok n c f S_clear \<longleftrightarrow> c = n"
| "point_ok n c f S_touch \<longleftrightarrow> c = n \<and> f = []"
| "point_ok n c f _ \<longleftrightarrow> True"

definition closing :: "point \<Rightarrow> bool" where
  "closing x \<longleftrightarrow> x = S_clear \<or> x = S_touch"

definition round_ok :: "nat \<Rightarrow> nat \<Rightarrow> dbar_world \<Rightarrow> bool" where
  "round_ok n c w \<longleftrightarrow> (\<forall>p<n. balanced (touches w) (dbars w p)) \<and> total n (dbars w) = n * touches w + c
     \<and> (\<exists>m\<le>c. count_file w = count_text m) \<and> (\<forall>p<n. point_ok n c (count_file w) (point (dbars w p)))
     \<and> (\<forall>p<n. \<forall>q<n. closing (point (dbars w p)) \<longrightarrow> closing (point (dbars w q)) \<longrightarrow> p = q)"

lemma round_okD:
  assumes "round_ok n c w"
  shows "p < n \<Longrightarrow> balanced (touches w) (dbars w p)" "total n (dbars w) = n * touches w + c"
    "\<exists>m\<le>c. count_file w = count_text m" "p < n \<Longrightarrow> point_ok n c (count_file w) (point (dbars w p))"
    "p < n \<Longrightarrow> q < n \<Longrightarrow> closing (point (dbars w p)) \<Longrightarrow> closing (point (dbars w q)) \<Longrightarrow> p = q"
  using assms by (auto simp: round_ok_def)

lemma round_room:
  assumes "round_ok n c w" "p < n" "\<not> counted (point (dbars w p))"
  shows "c < n"
proof -
  have "arrivals (dbars w q) \<le> Suc (touches w)" if "q < n" for q
    using balanced_arrivals round_okD(1) [OF assms(1) that] by blast
  moreover have "arrivals (dbars w p) < Suc (touches w)"
    using assms(3) balanced_arrivals [OF round_okD(1) [OF assms(1,2)]] round_okD(1) [OF assms(1,2)] by (simp add: balanced_def)
  ultimately have "total n (dbars w) < n * Suc (touches w)"
    using sum_strict_mono_ex1 [of "{..<n}" "\<lambda>q. arrivals (dbars w q)" "\<lambda>_. Suc (touches w)"] assms(2)
    by (auto simp: total_def)
  with round_okD(2) [OF assms(1)] show ?thesis by simp
qed

lemma round_local:
  assumes "round_ok n c w" "p < n" "balanced (touches w) d" "arrivals d = arrivals (dbars w p)"
    and "touches w' = touches w" "dbars w' = (dbars w)(p := d)" "count_file w' = count_file w"
    and "point_ok n c (count_file w) (point d)" "\<not> closing (point d)"
  shows "round_ok n c w'"
  using assms by (auto simp: round_ok_def total_upd_same)

lemma round_write:
  assumes "round_ok n c w" "p < n" "point (dbars w p) = S_write x"
  shows "round_ok n (Suc c) (set_dbar p ((dbars w p)\<lparr>arrivals := arrivals (dbars w p) + 1, point := (if x = digits n then S_clear else S_release)\<rparr>)
      (w\<lparr>count_file := x\<rparr>))"
proof -
  let ?d = "(dbars w p)\<lparr>arrivals := arrivals (dbars w p) + 1, point := (if x = digits n then S_clear else S_release)\<rparr>"
  have c: "c < n" using round_room [OF assms(1,2)] assms(3) by simp
  from round_okD(4) [OF assms(1,2)] assms(3) obtain m where m: "0 < m" "m \<le> Suc c" "x = digits m" by auto
  have b: "balanced (touches w) ?d" using round_okD(1) [OF assms(1,2)] assms(3) by (simp add: balanced_def)
  have t: "total n ((dbars w)(p := ?d)) = n * touches w + Suc c"
    using total_upd [OF assms(2), of "dbars w" ?d] round_okD(2) [OF assms(1)] by simp
  have o: "\<not> closing (point (dbars w q)) \<and> point_ok n (Suc c) x (point (dbars w q))" if "q < n" for q
    using round_okD(4) [OF assms(1) that] c by (cases "point (dbars w q)") (auto simp: closing_def intro: le_SucI)
  have "x = count_text m" using m by (simp add: count_text_def)
  with m c b t o round_okD(1) [OF assms(1)] show ?thesis unfolding round_ok_def by (auto simp: closing_def)
qed

lemma round_clear:
  assumes "round_ok n c w" "p < n" "point (dbars w p) = S_clear"
  shows "round_ok n c (set_dbar p ((dbars w p)\<lparr>point := S_touch\<rparr>) (w\<lparr>count_file := []\<rparr>))"
proof -
  have c: "c = n" using round_okD(4) [OF assms(1,2)] assms(3) by simp
  have b: "balanced (touches w) ((dbars w p)\<lparr>point := S_touch\<rparr>)" using round_okD(1) [OF assms(1,2)] assms(3) by (simp add: balanced_def)
  have u: "\<not> closing (point (dbars w q))" if "q < n" "q \<noteq> p" for q
    using round_okD(5) [OF assms(1,2) that(1)] that assms(3) by (auto simp: closing_def)
  have o: "point_ok n c [] (point (dbars w q))" if "q < n" "q \<noteq> p" for q
    using u [OF that] round_okD(4) [OF assms(1) that(1)] by (cases "point (dbars w q)") (auto simp: closing_def)
  have "total n ((dbars w)(p := (dbars w p)\<lparr>point := S_touch\<rparr>)) = n * touches w + c"
    using round_okD(2) [OF assms(1)] assms(2) by (subst total_upd_same) simp_all
  with b c o u round_okD(1) [OF assms(1)] show ?thesis
    unfolding round_ok_def by (auto simp: count_text_def intro!: exI [of _ "0::nat"])
qed

lemma round_touch:
  assumes "round_ok n c w" "p < n" "point (dbars w p) = S_touch"
  shows "round_ok n 0 (set_dbar p ((dbars (notify_all w) p)\<lparr>inRegion := isEnter (dbars (notify_all w) p), point := S_release\<rparr>) (notify_all w))"
proof -
  let ?d = "(dbars (notify_all w) p)\<lparr>inRegion := isEnter (dbars (notify_all w) p), point := S_release\<rparr>"
  have c: "c = n" and f: "count_file w = []" using round_okD(4) [OF assms(1,2)] assms(3) by simp_all
  have t: "total n (dbars w) = n * Suc (touches w)" using round_okD(2) [OF assms(1)] c by simp
  have a: "arrivals (dbars w q) = Suc (touches w)" if "q < n" for q
    using all_arrived [of n "dbars w" "Suc (touches w)" q] t that balanced_arrivals round_okD(1) [OF assms(1)] by blast
  have b: "balanced (Suc (touches w)) (dbars (notify_all w) q)" if "q < n" for q
    using round_okD(1) [OF assms(1) that] a [OF that] by (simp add: balanced_def)
  have u: "\<not> closing (point (dbars w q))" if "q < n" "q \<noteq> p" for q
    using round_okD(5) [OF assms(1,2) that(1)] that assms(3) by (auto simp: closing_def)
  have o: "point_ok n 0 [] (point (dbars w q))" if "q < n" "q \<noteq> p" for q
    using u [OF that] round_room [OF assms(1) that(1)] c by (cases "point (dbars w q)") (auto simp: closing_def)
  have "balanced (Suc (touches w)) ?d" using b [OF assms(2)] assms(3) by (simp add: balanced_def)
  moreover have "total n ((dbars (notify_all w))(p := ?d)) = n * Suc (touches w) + 0"
    using t assms(2) by (subst total_upd_same) (simp_all add: total_def)
  ultimately show ?thesis using b f o u unfolding round_ok_def by (auto simp: count_text_def closing_def)
qed

lemma num_bound: "unat (num :: u32) < 2 ^ 32"
  by (rule order_less_le_trans [OF unsigned_less]) simp

lemma round_next:
  assumes "round_ok (unat (num :: u32)) c w" "p < unat num" "\<not> counted (point (dbars w p))"
  shows "\<exists>m \<le> c. c < unat num \<and> next_count (count_file w) = Some (digits (Suc m))"
proof -
  from round_room [OF assms] have c: "c < unat num" .
  from round_okD(3) [OF assms(1)] obtain m where m: "m \<le> c" "count_file w = count_text m" by blast
  with c num_bound [of num] next_count_text [of m] show ?thesis by auto
qed

lemma round_step:
  assumes "dbar_step grants num w w'" "round_ok (unat num) c w"
  shows "\<exists>c'. round_ok (unat num) c' w'"
  using assms
proof (induction rule: dbar_step.induct)
  case (sync_read p d w x)
  then have "\<exists>m \<le> c. x = digits (Suc m)" using round_next [OF sync_read.prems sync_read.hyps(1)] by auto
  with sync_read round_okD(1) [OF sync_read.prems sync_read.hyps(1)] show ?case
    by (intro exI [of _ c] round_local [OF sync_read.prems sync_read.hyps(1), where d = "d\<lparr>point := S_write x\<rparr>"])
      (auto simp: balanced_def closing_def)
next
  case (sync_write p d w x)
  then show ?case using round_write [of "unat num" c w p x] by auto
next
  case (sync_clear p d w)
  then show ?case using round_clear [of "unat num" c w p] by auto
next
  case (sync_touch p d w)
  then show ?case using round_touch [of "unat num" c w p] by auto
next
  case (sync_call p d w b)
  then show ?case using round_okD(1) [OF sync_call.prems sync_call.hyps(1)]
    by (intro exI [of _ c] round_local [OF sync_call.prems sync_call.hyps(1), where d = "d\<lparr>isEnter := b, point := S_acquire\<rparr>"])
      (auto simp: balanced_def closing_def)
next
  case (sync_acquire p d w)
  then show ?case using round_okD(1) [OF sync_acquire.prems sync_acquire.hyps(1)]
    by (intro exI [of _ c] round_local [OF sync_acquire.prems sync_acquire.hyps(1), where d = "d\<lparr>point := S_read\<rparr>"])
      (auto simp: balanced_def closing_def)
next
  case (sync_release p d w)
  then show ?case using round_okD(1) [OF sync_release.prems sync_release.hyps(1)]
    by (intro exI [of _ c] round_local [OF sync_release.prems sync_release.hyps(1), where d = "d\<lparr>point := S_wait\<rparr>"])
      (auto simp: balanced_def closing_def)
next
  case (callback p d w k)
  let ?d = "d\<lparr>events := k, passed := True\<rparr>"
  have b: "balanced (touches w) ?d" using balanced_callback callback round_okD(1) by blast
  show ?case
  proof (intro exI [of _ c])
    show "round_ok (unat num) c (set_dbar p ?d w)"
      using callback b by (auto simp: round_ok_def total_upd_same closing_def)
  qed
next
  case (sync_return p d w)
  then show ?case using round_okD(1) [OF sync_return.prems sync_return.hyps(1)]
    by (intro exI [of _ c] round_local [OF sync_return.prems sync_return.hyps(1), where d = "d\<lparr>passed := False, returns := returns d + 1, point := S_out\<rparr>"])
      (auto simp: balanced_def closing_def)
qed

lemma round_run: "dbar_run grants num new_dbar_world w \<Longrightarrow> \<exists>c. round_ok (unat num) c w"
proof (induction rule: rtranclp_induct)
  case base
  show ?case
    by (intro exI [of _ 0]) (simp add: round_ok_def new_dbar_world_def new_chubby_dbar_def balanced_def total_def count_text_def closing_def)
next
  case (step y z)
  then show ?case using round_step by blast
qed

section \<open>The invariant with an exclusive lock\<close>

fun in_section :: "point \<Rightarrow> bool" where
  "in_section x \<longleftrightarrow> x \<notin> {S_out, S_acquire, S_wait}"

text \<open>What the owner of the lock knows at each point, when \<open>c\<close> processes have counted themselves in.\<close>

fun section_ok :: "nat \<Rightarrow> nat \<Rightarrow> point \<Rightarrow> string \<Rightarrow> bool" where
  "section_ok n c S_read f \<longleftrightarrow> c < n \<and> f = count_text c"
| "section_ok n c (S_write x) f \<longleftrightarrow> c < n \<and> x = digits (Suc c)"
| "section_ok n c S_clear f \<longleftrightarrow> c = n"
| "section_ok n c S_touch f \<longleftrightarrow> c = n \<and> f = []"
| "section_ok n c S_release f \<longleftrightarrow> c < n \<and> f = count_text c"
| "section_ok n c _ f \<longleftrightarrow> False"

definition dbar_inv :: "nat \<Rightarrow> dbar_world \<Rightarrow> bool" where
  "dbar_inv n w \<longleftrightarrow> (\<forall>p<n. balanced (touches w) (dbars w p))
     \<and> (\<forall>p<n. in_section (point (dbars w p)) \<longleftrightarrow> count_lock w = Some p)
     \<and> (\<exists>c. total n (dbars w) = n * touches w + c
          \<and> (case count_lock w of None \<Rightarrow> c < n \<and> count_file w = count_text c
             | Some p \<Rightarrow> p < n \<and> section_ok n c (point (dbars w p)) (count_file w)))"

text \<open>A step of one process that neither counts it in nor notifies anybody.\<close>

lemma dbar_inv_local:
  assumes "dbar_inv n w" and "p < n" and "balanced (touches w) d" and "arrivals d = arrivals (dbars w p)"
    and "touches w' = touches w" and "dbars w' = (dbars w)(p := d)"
    and "in_section (point d) \<longleftrightarrow> count_lock w' = Some p"
    and "\<And>q. q \<noteq> p \<Longrightarrow> count_lock w' = Some q \<longleftrightarrow> count_lock w = Some q"
    and "\<And>c. case count_lock w of None \<Rightarrow> c < n \<and> count_file w = count_text c
             | Some q \<Rightarrow> q < n \<and> section_ok n c (point (dbars w q)) (count_file w) \<Longrightarrow>
           case count_lock w' of None \<Rightarrow> c < n \<and> count_file w' = count_text c
             | Some q \<Rightarrow> q < n \<and> section_ok n c (point (dbars w' q)) (count_file w')"
  shows "dbar_inv n w'"
proof -
  from assms(1) obtain c where c: "total n (dbars w) = n * touches w + c"
    "case count_lock w of None \<Rightarrow> c < n \<and> count_file w = count_text c
      | Some q \<Rightarrow> q < n \<and> section_ok n c (point (dbars w q)) (count_file w)" by (auto simp: dbar_inv_def)
  have "total n (dbars w') = n * touches w' + c" using c(1) assms(2,4,5,6) by (simp add: total_upd_same)
  with assms(9) [OF c(2)] assms(1,3,5,6,7,8) show ?thesis unfolding dbar_inv_def by auto
qed

lemma dbar_invD:
  assumes "dbar_inv n w" "p < n"
  shows "balanced (touches w) (dbars w p)" "in_section (point (dbars w p)) \<longleftrightarrow> count_lock w = Some p"
  using assms by (auto simp: dbar_inv_def)

lemma dbar_inv_write:
  assumes "dbar_inv n w" "p < n" "point (dbars w p) = S_write x"
  shows "dbar_inv n (set_dbar p ((dbars w p)\<lparr>arrivals := arrivals (dbars w p) + 1, point := (if x = digits n then S_clear else S_release)\<rparr>)
      (w\<lparr>count_file := x\<rparr>))"
proof -
  from dbar_invD [OF assms(1,2)] assms(3)
  have own: "count_lock w = Some p" and b: "balanced (touches w) (dbars w p)" by auto
  from assms(1,3) own obtain c where c: "total n (dbars w) = n * touches w + c" "c < n" "x = digits (Suc c)"
    by (auto simp: dbar_inv_def)
  let ?d = "(dbars w p)\<lparr>arrivals := arrivals (dbars w p) + 1, point := (if x = digits n then S_clear else S_release)\<rparr>"
  have "total n ((dbars w)(p := ?d)) = n * touches w + Suc c" using total_upd [OF assms(2), of "dbars w" ?d] c(1) by simp
  moreover have "balanced (touches w) ?d" using b assms(3) by (simp add: balanced_def)
  ultimately show ?thesis
    using assms(1,2) own c(2,3) unfolding dbar_inv_def by (auto intro!: exI [of _ "Suc c"] simp: count_text_def)
qed

lemma dbar_inv_touch:
  assumes "dbar_inv n w" "p < n" "point (dbars w p) = S_touch"
  shows "dbar_inv n (set_dbar p ((dbars (notify_all w) p)\<lparr>inRegion := isEnter (dbars (notify_all w) p), point := S_release\<rparr>) (notify_all w))"
proof -
  from dbar_invD [OF assms(1,2)] assms(3) have own: "count_lock w = Some p" by simp
  from assms(1,3) own have t: "total n (dbars w) = n * Suc (touches w)" and f: "count_file w = []" by (auto simp: dbar_inv_def)
  have a: "arrivals (dbars w q) = Suc (touches w)" if "q < n" for q
    using all_arrived [of n "dbars w" "Suc (touches w)" q] t that balanced_arrivals dbar_invD(1) [OF assms(1)] by blast
  have b: "balanced (Suc (touches w)) (dbars (notify_all w) q)" if "q < n" for q
    using dbar_invD(1) [OF assms(1) that] a [OF that] by (simp add: balanced_def)
  let ?d = "(dbars (notify_all w) p)\<lparr>inRegion := isEnter (dbars (notify_all w) p), point := S_release\<rparr>"
  have "balanced (Suc (touches w)) ?d" using b [OF assms(2)] assms(3) by (simp add: balanced_def)
  moreover have "total n ((dbars (notify_all w))(p := ?d)) = n * Suc (touches w) + 0"
    using t assms(2) by (subst total_upd_same) (simp_all add: total_def)
  ultimately show ?thesis
    using b f own assms(2) dbar_invD(2) [OF assms(1)] assms(3) unfolding dbar_inv_def
    by (auto intro!: exI [of _ 0] simp: count_text_def)
qed

lemma dbar_step_inv:
  assumes "dbar_step exclusive num w w'" and "dbar_inv (unat num) w"
  shows "dbar_inv (unat num) w'"
  using assms
proof (induction rule: dbar_step.induct)
  case (sync_read p d w x)
  have "unat num < 2 ^ 32" by (rule order_less_le_trans [OF unsigned_less]) simp
  with sync_read have "section_ok (unat num) c S_read (count_file w) \<Longrightarrow> section_ok (unat num) c (S_write x) (count_file w)" for c
    using next_count_text [of c] by auto
  with sync_read dbar_invD [OF sync_read.prems sync_read.hyps(1)] show ?case
    by (intro dbar_inv_local [OF sync_read.prems sync_read.hyps(1), where d = "d\<lparr>point := S_write x\<rparr>"]) (auto simp: balanced_def)
next
  case (sync_write p d w x)
  then show ?case using dbar_inv_write [of "unat num" w p x] by simp
next
  case (sync_touch p d w)
  then show ?case using dbar_inv_touch [of "unat num" w p] by simp
next
  case (sync_call p d w b)
  then show ?case using dbar_invD [OF sync_call.prems sync_call.hyps(1)]
    by (intro dbar_inv_local [OF sync_call.prems sync_call.hyps(1), where d = "d\<lparr>isEnter := b, point := S_acquire\<rparr>"]) (auto simp: balanced_def split: option.splits)
next
  case (sync_acquire p d w)
  then show ?case using dbar_invD [OF sync_acquire.prems sync_acquire.hyps(1)] unfolding exclusive_def
    by (intro dbar_inv_local [OF sync_acquire.prems sync_acquire.hyps(1), where d = "d\<lparr>point := S_read\<rparr>"]) (auto simp: balanced_def)
next
  case (sync_clear p d w)
  then show ?case using dbar_invD [OF sync_clear.prems sync_clear.hyps(1)]
    by (intro dbar_inv_local [OF sync_clear.prems sync_clear.hyps(1), where d = "d\<lparr>point := S_touch\<rparr>"]) (auto simp: balanced_def)
next
  case (sync_release p d w)
  then show ?case using dbar_invD [OF sync_release.prems sync_release.hyps(1)]
    by (intro dbar_inv_local [OF sync_release.prems sync_release.hyps(1), where d = "d\<lparr>point := S_wait\<rparr>"]) (auto simp: balanced_def)
next
  case (callback p d w k)
  then show ?case using dbar_invD [OF callback.prems callback.hyps(1)]
      balanced_callback [of "touches w" d k]
    by (intro dbar_inv_local [OF callback.prems callback.hyps(1), where d = "d\<lparr>events := k, passed := True\<rparr>"]) (auto split: option.splits)
next
  case (sync_return p d w)
  then show ?case using dbar_invD [OF sync_return.prems sync_return.hyps(1)]
    by (intro dbar_inv_local [OF sync_return.prems sync_return.hyps(1), where d = "d\<lparr>passed := False, returns := returns d + 1, point := S_out\<rparr>"]) (auto simp: balanced_def split: option.splits)
qed

lemma dbar_run_inv: "dbar_run exclusive num new_dbar_world w \<Longrightarrow> 0 < num \<Longrightarrow> dbar_inv (unat num) w"
proof (induction rule: rtranclp_induct)
  case base
  then show ?case
    by (auto simp: dbar_inv_def new_dbar_world_def new_chubby_dbar_def balanced_def total_def count_text_def word_less_nat_alt)
next
  case (step y z)
  then show ?case using dbar_step_inv by blast
qed

section \<open>Progress\<close>

text \<open>The steps other than a new call of \<open>sync\<close>.\<close>

definition quiet_step :: "u32 \<Rightarrow> dbar_world \<Rightarrow> dbar_world \<Rightarrow> bool" where
  "quiet_step num w w' \<longleftrightarrow> dbar_step exclusive num w w'
     \<and> (\<forall>p < unat num. point (dbars w p) = S_out \<longrightarrow> point (dbars w' p) = S_out)"

fun steps_left :: "nat \<Rightarrow> point \<Rightarrow> nat" where
  "steps_left n S_out = 0"
| "steps_left n S_wait = 1"
| "steps_left n S_release = 2"
| "steps_left n S_touch = n + 3"
| "steps_left n S_clear = n + 4"
| "steps_left n (S_write _) = n + 5"
| "steps_left n S_read = n + 6"
| "steps_left n S_acquire = n + 7"

definition work :: "nat \<Rightarrow> (nat \<Rightarrow> chubby_dbar) \<Rightarrow> nat" where
  "work n f = (\<Sum>p<n. steps_left n (point (f p)) + events (f p))"

lemma work_upd:
  "p < n \<Longrightarrow> work n (f(p := d)) + (steps_left n (point (f p)) + events (f p)) = work n f + (steps_left n (point d) + events d)"
  by (simp add: work_def sum.remove [of "{..<n}" p])

lemma work_notify: "work n (dbars (notify_all w)) = work n (dbars w) + n"
  by (simp add: work_def sum.distrib sum_Suc)

lemma quiet_step_work:
  assumes "quiet_step num w w'"
  shows "work (unat num) (dbars w') < work (unat num) (dbars w)"
proof -
  have "dbar_step exclusive num w w'" and out: "\<forall>p < unat num. point (dbars w p) = S_out \<longrightarrow> point (dbars w' p) = S_out"
    using assms by (auto simp: quiet_step_def)
  then show ?thesis
  proof (induction rule: dbar_step.induct)
    case (sync_touch p d w)
    then show ?case
      using work_upd [OF sync_touch.hyps(1), of "dbars (notify_all w)" "d\<lparr>inRegion := isEnter d, point := S_release\<rparr>"]
        work_notify [of "unat num" w] by (simp add: fun_upd_def)
  next
    case (sync_call p d w b)
    then show ?case by auto
  next
    case (sync_acquire p d w)
    then show ?case using work_upd [OF sync_acquire.hyps(1), of "dbars w" "d\<lparr>point := S_read\<rparr>"] by (simp add: fun_upd_def)
  next
    case (sync_read p d w x)
    then show ?case using work_upd [OF sync_read.hyps(1), of "dbars w" "d\<lparr>point := S_write x\<rparr>"] by (simp add: fun_upd_def)
  next
    case (sync_write p d w x)
    then show ?case
      using work_upd [OF sync_write.hyps(1), of "dbars w"
          "d\<lparr>arrivals := arrivals d + 1, point := (if x = digits (unat num) then S_clear else S_release)\<rparr>"]
      by (simp add: fun_upd_def split: if_splits)
  next
    case (sync_clear p d w)
    then show ?case using work_upd [OF sync_clear.hyps(1), of "dbars w" "d\<lparr>point := S_touch\<rparr>"] by (simp add: fun_upd_def)
  next
    case (sync_release p d w)
    then show ?case using work_upd [OF sync_release.hyps(1), of "dbars w" "d\<lparr>point := S_wait\<rparr>"] by (simp add: fun_upd_def)
  next
    case (callback p d w k)
    then show ?case using work_upd [OF callback.hyps(1), of "dbars w" "d\<lparr>events := k, passed := True\<rparr>"] by (simp add: fun_upd_def)
  next
    case (sync_return p d w)
    then show ?case
      using work_upd [OF sync_return.hyps(1), of "dbars w" "d\<lparr>passed := False, returns := returns d + 1, point := S_out\<rparr>"] by (simp add: fun_upd_def)
  qed
qed

lemma no_endless_descent: "\<not> (\<forall>i. g (Suc i) < (g i :: nat))"
proof
  assume *: "\<forall>i. g (Suc i) < g i"
  have "g i + i \<le> g 0" for i
  proof (induction i)
    case (Suc i)
    with * [rule_format, of i] show ?case by linarith
  qed simp
  from this [of "Suc (g 0)"] show False by simp
qed

lemma quietI:
  assumes "dbar_step exclusive num w w'" "\<And>q. q \<noteq> p \<Longrightarrow> point (dbars w' q) = point (dbars w q)"
    "point (dbars w p) = S_out \<Longrightarrow> point (dbars w' p) = S_out"
  shows "quiet_step num w w'"
  using assms unfolding quiet_step_def by (metis (full_types))

lemma quiet_run: "(quiet_step num)\<^sup>*\<^sup>* w w' \<Longrightarrow> dbar_run exclusive num w w'"
  by (rule mono_rtranclp [rule_format]) (auto simp: quiet_step_def)

text \<open>Where no step is possible the lock is free, every process is outside or waits, and nothing is on its way.\<close>

lemma quiet_owner:
  assumes "dbar_inv (unat num) w" and "count_lock w = Some p"
  shows "\<exists>w'. quiet_step num w w'"
proof -
  from assms obtain c where p: "p < unat num" and c: "section_ok (unat num) c (point (dbars w p)) (count_file w)"
    by (auto simp: dbar_inv_def)
  have n: "unat num < 2 ^ 32" by (rule order_less_le_trans [OF unsigned_less]) simp
  show ?thesis
  proof (cases "point (dbars w p)")
    case S_read
    with c n next_count_text [of c] have "next_count (count_file w) = Some (digits (Suc c))" by simp
    from quietI [OF sync_read [OF p refl S_read this], of p] show ?thesis using S_read by auto
  next
    case (S_write x)
    from quietI [OF sync_write [OF p refl S_write], of p] show ?thesis using S_write by auto
  next
    case S_touch
    then have "point (dbars (notify_all w) p) = S_touch" by simp
    from quietI [OF sync_touch [OF p refl this], of p] show ?thesis using S_touch by auto
  next
    case S_clear
    from quietI [OF sync_clear [OF p refl S_clear], of p] show ?thesis using S_clear by auto
  next
    case S_release
    from quietI [OF sync_release [OF p refl S_release], of p] show ?thesis using S_release by auto
  qed (use c in auto)
qed

lemma quiet_end:
  assumes "dbar_inv (unat num) w" and "\<nexists>w'. quiet_step num w w'" and "p < unat num"
  shows "count_lock w = None \<and> events (dbars w p) = 0 \<and> (point (dbars w p) = S_out \<or> point (dbars w p) = S_wait \<and> \<not> passed (dbars w p))"
proof -
  have l: "count_lock w = None" using quiet_owner [OF assms(1)] assms(2) by (cases "count_lock w") auto
  have "\<not> in_section (point (dbars w p))" using dbar_invD(2) [OF assms(1,3)] l by simp
  moreover have "point (dbars w p) \<noteq> S_acquire"
    using quietI [OF sync_acquire [OF assms(3) refl, of w exclusive], of p] assms(2) l by (auto simp: exclusive_def)
  moreover have "events (dbars w p) = 0"
    using quietI [OF callback [OF assms(3) refl], of w _ p] assms(2) by (cases "events (dbars w p)") auto
  moreover have "\<not> (point (dbars w p) = S_wait \<and> passed (dbars w p))"
    using quietI [OF sync_return [OF assms(3) refl], of w p] assms(2) by auto
  ultimately show ?thesis using l by auto
qed

section \<open>Properties\<close>

text \<open>Two processes, of which the first has called \<open>enter\<close> and waits.\<close>

definition first_waits :: dbar_world where
  "first_waits = \<lparr>count_file = digits 1, count_lock = None, touches = 0,
     dbars = (\<lambda>_. new_chubby_dbar)(0 := new_chubby_dbar\<lparr>isEnter := True, point := S_wait, arrivals := 1\<rparr>)\<rparr>"

lemma first_waits_run: "dbar_run exclusive 2 new_dbar_world first_waits"
proof -
  define s0 where "s0 = new_dbar_world"
  define s1 where "s1 = set_dbar 0 ((dbars s0 0)\<lparr>isEnter := True, point := S_acquire\<rparr>) s0"
  define s2 where "s2 = set_dbar 0 ((dbars s1 0)\<lparr>point := S_read\<rparr>) (s1\<lparr>count_lock := Some 0\<rparr>)"
  define s3 where "s3 = set_dbar 0 ((dbars s2 0)\<lparr>point := S_write (digits (Suc 0))\<rparr>) s2"
  define s4 where "s4 = set_dbar 0 ((dbars s3 0)\<lparr>arrivals := arrivals (dbars s3 0) + 1,
     point := (if digits (Suc 0) = digits (unat (2 :: u32)) then S_clear else S_release)\<rparr>) (s3\<lparr>count_file := digits (Suc 0)\<rparr>)"
  define s5 where "s5 = set_dbar 0 ((dbars s4 0)\<lparr>point := S_wait\<rparr>) (s4\<lparr>count_lock := None\<rparr>)"
  note defs = s0_def s1_def s2_def s3_def s4_def s5_def new_dbar_world_def new_chubby_dbar_def set_dbar_def
  have "dbar_step exclusive 2 s0 s1" unfolding s1_def by (rule sync_call) (simp_all add: defs)
  moreover have "dbar_step exclusive 2 s1 s2" unfolding s2_def by (rule sync_acquire) (simp_all add: defs exclusive_def)
  moreover have "dbar_step exclusive 2 s2 s3" unfolding s3_def
    by (rule sync_read) (use next_count_text [of 0] in \<open>simp_all add: defs count_text_def\<close>)
  moreover have "dbar_step exclusive 2 s3 s4" unfolding s4_def by (rule sync_write) (simp_all add: defs)
  moreover have "dbar_step exclusive 2 s4 s5" unfolding s5_def by (rule sync_release) (simp_all add: defs)
  ultimately have "dbar_run exclusive 2 s0 s5" by (meson r_into_rtranclp rtranclp_trans)
  moreover have "s5 = first_waits" by (simp add: defs first_waits_def)
  ultimately show ?thesis by (simp add: s0_def)
qed

text \<open>C14: Nobody passes the barrier before everybody has arrived: in every interleaving of \<open>num\<close>
  processes, whenever the lock is granted, and be it to several of them at a time, a process that has
  returned from its \<open>k\<close>-th \<open>sync\<close> finds that every process has counted itself in at least \<open>k\<close>
  times. The count file always holds a number below \<open>num\<close> that \<open>stoul\<close> can read.\<close>

theorem barrier_together:
  assumes "dbar_run grants num new_dbar_world w" and "p < unat num" and "q < unat num"
  shows "returns (dbars w p) \<le> arrivals (dbars w q)
    \<and> (point (dbars w p) = S_read \<longrightarrow> (\<exists>c < unat num. next_count (count_file w) = Some (digits (Suc c))))"
proof -
  from round_run [OF assms(1)] obtain c where R: "round_ok (unat num) c w" by blast
  have "\<exists>c < unat num. next_count (count_file w) = Some (digits (Suc c))" if "point (dbars w p) = S_read"
    using round_next [OF R assms(2)] that by (auto intro: le_less_trans)
  with round_okD(1) [OF R assms(2)] round_okD(1) [OF R assms(3)] show ?thesis
    by (auto simp: balanced_def simp del: counted.simps)
qed

theorem barrier_together_witness:
  "arrivals (dbars first_waits 1) = 0 \<and> returns (dbars first_waits 0) \<le> arrivals (dbars first_waits 1)"
  using barrier_together [OF first_waits_run, of 0 1] by (simp add: first_waits_def new_chubby_dbar_def)

text \<open>With an exclusive lock the barrier does not block by itself: as long as no process calls \<open>sync\<close> anew, only finitely
  many steps are possible, whatever their order; and where none is possible, a process that still
  waits waits for one that is outside and has not arrived as often.\<close>

theorem barrier_progress:
  assumes "dbar_run exclusive num new_dbar_world w"
  shows "(\<nexists>f. f 0 = w \<and> (\<forall>i. quiet_step num (f i) (f (Suc i))))
    \<and> (\<forall>w'. (quiet_step num)\<^sup>*\<^sup>* w w' \<longrightarrow> (\<nexists>w''. quiet_step num w' w'') \<longrightarrow>
        (\<forall>p < unat num. point (dbars w' p) = S_out
          \<or> point (dbars w' p) = S_wait
            \<and> (\<exists>q < unat num. point (dbars w' q) = S_out \<and> arrivals (dbars w' q) < arrivals (dbars w' p))))"
proof (intro conjI allI impI notI)
  assume "\<exists>f. f 0 = w \<and> (\<forall>i. quiet_step num (f i) (f (Suc i)))"
  then obtain f where "\<forall>i. quiet_step num (f i) (f (Suc i))" by blast
  with no_endless_descent [of "\<lambda>i. work (unat num) (dbars (f i))"] show False by (blast intro: quiet_step_work)
next
  fix w' p
  assume r: "(quiet_step num)\<^sup>*\<^sup>* w w'" and e: "\<nexists>w''. quiet_step num w' w''" and p: "p < unat num"
  from p have "0 < num" by (auto simp: word_less_nat_alt)
  with rtranclp_trans [OF assms quiet_run [OF r]] have I: "dbar_inv (unat num) w'" by (rule dbar_run_inv)
  note E = quiet_end [OF I e]
  have "\<exists>q < unat num. point (dbars w' q) = S_out \<and> arrivals (dbars w' q) < arrivals (dbars w' p)"
    if W: "point (dbars w' p) = S_wait"
  proof -
    from I E [OF p] obtain c where c: "c < unat num" "total (unat num) (dbars w') = unat num * touches w' + c"
      by (auto simp: dbar_inv_def)
    obtain q where q: "q < unat num" "arrivals (dbars w' q) < Suc (touches w')"
    proof (rule ccontr)
      assume "\<not> thesis"
      with that have "\<forall>q<unat num. Suc (touches w') \<le> arrivals (dbars w' q)" by (meson not_less)
      then have "unat num * Suc (touches w') \<le> total (unat num) (dbars w')"
        using sum_mono [of "{..<unat num}" "\<lambda>_. Suc (touches w')" "\<lambda>q. arrivals (dbars w' q)"] by (simp add: total_def)
      with c show False by simp
    qed
    moreover have "arrivals (dbars w' p) = Suc (touches w')"
      using W E [OF p] dbar_invD(1) [OF I p] by (simp add: balanced_def)
    moreover have "point (dbars w' q) = S_out"
      using E [OF q(1)] dbar_invD(1) [OF I q(1)] q(2) by (auto simp: balanced_def)
    ultimately show ?thesis by auto
  qed
  with E [OF p] show "point (dbars w' p) = S_out \<or> point (dbars w' p) = S_wait
      \<and> (\<exists>q < unat num. point (dbars w' q) = S_out \<and> arrivals (dbars w' q) < arrivals (dbars w' p))" by blast
qed

lemma first_waits_quiet: "\<not> quiet_step 2 first_waits w"
proof
  assume "quiet_step 2 first_waits w"
  then have "dbar_step exclusive 2 first_waits w" and out: "\<forall>p < unat (2 :: u32). point (dbars first_waits p) = S_out \<longrightarrow> point (dbars w p) = S_out"
    by (auto simp: quiet_step_def)
  then show False
    by (cases rule: dbar_step.cases) (auto simp: first_waits_def new_chubby_dbar_def split: if_splits)
qed

theorem barrier_progress_witness:
  "point (dbars first_waits 0) = S_wait \<and> (\<exists>q < 2. point (dbars first_waits q) = S_out \<and> arrivals (dbars first_waits q) < arrivals (dbars first_waits 0))"
proof -
  from barrier_progress [OF first_waits_run] first_waits_quiet
  have "\<forall>p < unat (2 :: u32). point (dbars first_waits p) = S_out \<or> point (dbars first_waits p) = S_wait
     \<and> (\<exists>q < unat (2 :: u32). point (dbars first_waits q) = S_out \<and> arrivals (dbars first_waits q) < arrivals (dbars first_waits p))"
    by blast
  from this [rule_format, of 0] show ?thesis by (auto simp: first_waits_def)
qed

end
