(* ===== verification/Printer.thy ===== *)
theory Printer
  imports Decimal
begin

text \<open>
  \<open>xdrpp/printer.h\<close> and \<open>printer.cc\<close>: the archive that prints a value, which the client and the
  server use for their traces. The printer is a stream with three flags; the text it produces is
  that of a recursive pretty printer.
\<close>

section \<open>Strings and bytes\<close>

definition octal3 :: "nat \<Rightarrow> string" where
  "octal3 n = [char_of (48 + n div 64 mod 8), char_of (48 + n div 8 mod 8), char_of (48 + n mod 8)]"

text \<open>
  One character of \<open>escape_string\<close>. A \<open>char\<close> is signed: from \<open>0x80\<close> on it is negative, and therefore
  not at least \<open>0x20\<close>.
\<close>

definition escape_char :: "char \<Rightarrow> string" where
  "escape_char c =
     (if 0x20 \<le> (of_char c :: nat) \<and> of_char c < (0x7f :: nat)
      then (if c = CHR 0x22 \<or> c = CHR 0x5C then [CHR 0x5C] else []) @ [c]
      else if c = CHR 0x09 then [CHR 0x5C, CHR ''t'']
      else if c = CHR 0x0D then [CHR 0x5C, CHR ''r'']
      else if c = CHR 0x0A then [CHR 0x5C, CHR ''n'']
      else CHR 0x5C # octal3 (of_char c))"

definition escape_string :: "string \<Rightarrow> string" where
  "escape_string s = [CHR 0x22] @ concat (map escape_char s) @ [CHR 0x22]"

definition nibble :: "nat \<Rightarrow> char" where
  "nibble n = (if n < 10 then char_of (48 + n) else char_of (87 + n))"

definition hexdump :: "byte list \<Rightarrow> string" where
  "hexdump bs = concat (map (\<lambda>b. [nibble (of_char b div 16), nibble (of_char b mod 16)]) bs)"

section \<open>The printer\<close>

record printer =
  pr_buf :: string
  pr_indent :: nat
  pr_skipnl :: bool
  pr_comma :: bool

definition new_printer :: printer where
  "new_printer = \<lparr>pr_buf = [], pr_indent = 0, pr_skipnl = True, pr_comma = True\<rparr>"

definition p_emit :: "string \<Rightarrow> printer \<Rightarrow> printer" where
  "p_emit s p = p\<lparr>pr_buf := pr_buf p @ s\<rparr>"

definition bol :: "string option \<Rightarrow> printer \<Rightarrow> printer" where
  "bol name p =
     (let p = (if pr_skipnl p then p\<lparr>pr_skipnl := False\<rparr>
               else p_emit ((if pr_comma p then '','' else []) @ [CHR 0x0A] @ replicate (pr_indent p) (CHR '' '')) p);
          p = p\<lparr>pr_comma := True\<rparr>
      in case name of None \<Rightarrow> p | Some f \<Rightarrow> p_emit (f @ '' = '') p)"

text \<open>
  What is printed: the text of a string, an opaque, a number or a value of an enumeration; optional
  data; the fields that \<open>save\<close> of a struct or a union archives, each with its name; the elements of
  an array or a vector.
\<close>

datatype ptree =
    P_atom string
  | P_pointer "ptree option"
  | P_class "(string option \<times> ptree) list"
  | P_container "ptree list"

definition p_open :: "char \<Rightarrow> string option \<Rightarrow> printer \<Rightarrow> printer" where
  "p_open c field p =
     (let p = p_emit [c] (bol field p);
          p = (if field = None then p_emit '' '' p else p)
      in p\<lparr>pr_comma := False, pr_skipnl := (field = None), pr_indent := pr_indent p + 2\<rparr>)"

definition p_close :: "char \<Rightarrow> string option \<Rightarrow> printer \<Rightarrow> printer" where
  "p_close c field p =
     (if field = None then (p_emit ('' '' @ [c]) p)\<lparr>pr_indent := pr_indent p - 2\<rparr>
      else p_emit [c] (bol None (p\<lparr>pr_comma := False, pr_indent := pr_indent p - 2\<rparr>)))"

fun p_value :: "string option \<Rightarrow> ptree \<Rightarrow> printer \<Rightarrow> printer"
and p_fields :: "(string option \<times> ptree) list \<Rightarrow> printer \<Rightarrow> printer"
and p_elements :: "ptree list \<Rightarrow> printer \<Rightarrow> printer" where
  "p_value field (P_atom s) p = p_emit s (bol field p)"
| "p_value field (P_pointer None) p = p_emit ''NULL'' (bol field p)"
| "p_value field (P_pointer (Some t)) p = p_value field t p"
| "p_value field (P_class fs) p = p_close (CHR ''}'') field (p_fields fs (p_open (CHR ''{'') field p))"
| "p_value field (P_container ts) p = p_close (CHR '']'') field (p_elements ts (p_open (CHR ''['') field p))"
| "p_fields [] p = p"
| "p_fields ((f, t) # fs) p = p_fields fs (p_value f t p)"
| "p_elements [] p = p"
| "p_elements (t # ts) p = p_elements ts (p_value None t p)"

definition xdr_to_string :: "ptree \<Rightarrow> string option \<Rightarrow> nat \<Rightarrow> string" where
  "xdr_to_string t name indent = pr_buf (p_value name t new_printer) @ [CHR 0x0A]"

section \<open>Reading back strings and bytes\<close>

fun unescape :: "string \<Rightarrow> string option" where
  "unescape s = (case s of
     [] \<Rightarrow> None
   | c # s \<Rightarrow>
       if c = CHR 0x22 then (if s = [] then Some [] else None)
       else if c \<noteq> CHR 0x5C then map_option (Cons c) (unescape s)
       else (case s of
           [] \<Rightarrow> None
         | d # s' \<Rightarrow>
             if d = CHR ''t'' then map_option (Cons (CHR 0x09)) (unescape s')
             else if d = CHR ''r'' then map_option (Cons (CHR 0x0D)) (unescape s')
             else if d = CHR ''n'' then map_option (Cons (CHR 0x0A)) (unescape s')
             else if d = CHR 0x22 \<or> d = CHR 0x5C then map_option (Cons d) (unescape s')
             else (case s' of
                 e # f # s'' \<Rightarrow> map_option (Cons (char_of (64 * (of_char d - 48) + 8 * (of_char e - 48) + (of_char f - 48 :: nat)))) (unescape s'')
               | _ \<Rightarrow> None)))"

declare unescape.simps [simp del]

definition read_literal :: "string \<Rightarrow> string option" where
  "read_literal s = (case s of c # s \<Rightarrow> if c = CHR 0x22 then unescape s else None | [] \<Rightarrow> None)"

lemma octal_digit:
  assumes "d < 8"
  shows "of_char (char_of (48 + d) :: char) = (48 + d :: nat)"
    "char_of (48 + d) \<noteq> CHR 0x22" "char_of (48 + d) \<noteq> CHR 0x5C"
    "char_of (48 + d) \<notin> {CHR ''t'', CHR ''r'', CHR ''n''}"
proof -
  show e: "of_char (char_of (48 + d) :: char) = (48 + d :: nat)" using assms by (simp add: of_char_of)
  have "x \<noteq> char_of (48 + d)" if "of_char x \<notin> {48..(55 :: nat)}" for x :: char
    using that e assms by auto
  from this [of "CHR 0x22"] this [of "CHR 0x5C"] this [of "CHR ''t''"] this [of "CHR ''r''"] this [of "CHR ''n''"]
  show "char_of (48 + d) \<noteq> CHR 0x22" "char_of (48 + d) \<noteq> CHR 0x5C"
    "char_of (48 + d) \<notin> {CHR ''t'', CHR ''r'', CHR ''n''}" by simp_all
qed

lemma octal_split:
  obtains a b d where "a < 8" "b < 8" "d < 8" "of_char (c :: char) = 64 * a + 8 * b + (d :: nat)" "octal3 (of_char c) = map (\<lambda>d. char_of (48 + d)) [a, b, d]"
proof -
  let ?n = "of_char c :: nat"
  have "?n < 256" by (rule nat_of_char_less_256)
  moreover have "?n div 8 div 8 = ?n div 64" by (simp add: div_mult2_eq [symmetric])
  moreover have "?n div 8 * 8 + ?n mod 8 = ?n" "?n div 8 div 8 * 8 + ?n div 8 mod 8 = ?n div 8" by (rule div_mult_mod_eq)+
  ultimately have "?n div 64 < 8" "?n = 64 * (?n div 64) + 8 * (?n div 8 mod 8) + ?n mod 8" by linarith+
  then show thesis by (intro that [of "?n div 64" "?n div 8 mod 8" "?n mod 8"]) (simp_all add: octal3_def)
qed

lemma unescape_char: "unescape (escape_char c @ s) = map_option (Cons c) (unescape s)"
proof -
  obtain a b d where abd: "a < 8" "b < 8" "d < 8" "of_char c = 64 * a + 8 * b + (d :: nat)"
    "octal3 (of_char c) = map (\<lambda>d. char_of (48 + d)) [a, b, d]" by (rule octal_split)
  have "char_of (64 * a + 8 * b + d) = c" by (simp only: abd(4) [symmetric] char_of_char)
  then have "unescape (CHR 0x5C # octal3 (of_char c) @ s) = map_option (Cons c) (unescape s)"
    using octal_digit [OF abd(1)] octal_digit [OF abd(2)] octal_digit [OF abd(3)]
    unfolding abd(5) by (subst unescape.simps) simp
  then show ?thesis
    unfolding escape_char_def by (auto simp: unescape.simps [of "_ # _"])
qed

text \<open>A printed string can be read back: the escapes lose nothing.\<close>

theorem escape_roundtrip: "read_literal (escape_string s) = Some s"
proof -
  have "unescape (concat (map escape_char s) @ [CHR 0x22]) = Some s"
    by (induction s) (simp_all add: unescape_char unescape.simps [of "[_]"])
  then show ?thesis by (simp add: read_literal_def escape_string_def)
qed


definition nibble_value :: "char \<Rightarrow> nat" where
  "nibble_value c = (if of_char c < (58 :: nat) then of_char c - 48 else of_char c - 87)"

fun undump :: "string \<Rightarrow> byte list" where
  "undump (a # b # s) = char_of (16 * nibble_value a + nibble_value b) # undump s"
| "undump _ = []"

lemma nibble_value_nibble: "n < 16 \<Longrightarrow> nibble_value (nibble n) = n"
  by (simp add: nibble_value_def nibble_def of_char_of)

theorem hexdump_roundtrip: "undump (hexdump bs) = bs"
proof (induction bs)
  case (Cons b bs)
  have "of_char b div 16 < (16 :: nat)" using nat_of_char_less_256 [of b] by linarith
  with Cons show ?case by (simp add: hexdump_def nibble_value_nibble)
qed (simp add: hexdump_def)

section \<open>The layout\<close>

text \<open>
  The same text by recursion on the value. The members of a composite are separated by commas and
  stand on lines of their own, indented by two; the first member of a composite without a name
  follows its bracket on the same line.
\<close>

definition new_line :: "nat \<Rightarrow> string" where
  "new_line ind = [CHR 0x0A] @ replicate ind (CHR '' '')"

fun join_with :: "string \<Rightarrow> string list \<Rightarrow> string" where
  "join_with sep [] = []"
| "join_with sep [x] = x"
| "join_with sep (x # xs) = x @ sep @ join_with sep xs"

definition label :: "string option \<Rightarrow> string" where
  "label field = (case field of None \<Rightarrow> [] | Some f \<Rightarrow> f @ '' = '')"

definition brackets :: "char \<Rightarrow> char \<Rightarrow> string option \<Rightarrow> nat \<Rightarrow> string list \<Rightarrow> string" where
  "brackets l r field ind items =
     (let body = join_with ('','' @ new_line (ind + 2)) items
      in label field @ [l] @
         (if field = None then '' '' @ body @ '' ''
          else (if items = [] then [] else new_line (ind + 2)) @ body @ new_line ind) @ [r])"

fun render :: "string option \<Rightarrow> nat \<Rightarrow> ptree \<Rightarrow> string"
and render_fields :: "nat \<Rightarrow> (string option \<times> ptree) list \<Rightarrow> string list"
and render_elements :: "nat \<Rightarrow> ptree list \<Rightarrow> string list" where
  "render field ind (P_atom s) = label field @ s"
| "render field ind (P_pointer None) = label field @ ''NULL''"
| "render field ind (P_pointer (Some t)) = render field ind t"
| "render field ind (P_class fs) = brackets (CHR ''{'') (CHR ''}'') field ind (render_fields (ind + 2) fs)"
| "render field ind (P_container ts) = brackets (CHR ''['') (CHR '']'') field ind (render_elements (ind + 2) ts)"
| "render_fields ind [] = []"
| "render_fields ind ((f, t) # fs) = render f ind t # render_fields ind fs"
| "render_elements ind [] = []"
| "render_elements ind (t # ts) = render None ind t # render_elements ind ts"

text \<open>No composite without a name is empty.\<close>

fun separable :: "string option \<Rightarrow> ptree \<Rightarrow> bool"
and separable_fields :: "(string option \<times> ptree) list \<Rightarrow> bool"
and separable_elements :: "ptree list \<Rightarrow> bool" where
  "separable field (P_atom s) = True"
| "separable field (P_pointer None) = True"
| "separable field (P_pointer (Some t)) = separable field t"
| "separable field (P_class fs) = ((field = None \<longrightarrow> fs \<noteq> []) \<and> separable_fields fs)"
| "separable field (P_container ts) = ((field = None \<longrightarrow> ts \<noteq> []) \<and> separable_elements ts)"
| "separable_fields [] = True"
| "separable_fields ((f, t) # fs) = (separable f t \<and> separable_fields fs)"
| "separable_elements [] = True"
| "separable_elements (t # ts) = (separable None t \<and> separable_elements ts)"

definition lead :: "printer \<Rightarrow> string" where
  "lead p = (if pr_skipnl p then [] else (if pr_comma p then '','' else []) @ new_line (pr_indent p))"

text \<open>The state after something was printed on a line.\<close>

definition printed :: "string \<Rightarrow> printer \<Rightarrow> printer" where
  "printed s p = p\<lparr>pr_buf := pr_buf p @ s, pr_skipnl := False, pr_comma := True\<rparr>"

lemma p_emit_bol: "p_emit s (bol field p) = printed (lead p @ label field @ s) p"
  by (cases p) (simp add: p_emit_def bol_def printed_def lead_def new_line_def label_def Let_def split: option.split)

lemma join_with_Cons: "join_with sep (x # xs) = x @ (if xs = [] then [] else sep @ join_with sep xs)"
  by (cases xs) auto

lemma printed_printed: "printed t (printed s p) = printed (s @ t) p"
  by (simp add: printed_def)

lemma lead_printed: "lead (printed s p) = '','' @ new_line (pr_indent p)"
  by (simp add: lead_def printed_def)

lemma composite_layout:
  assumes "field = None \<longrightarrow> items \<noteq> []"
    and "q = (if items = [] then p_open l field p
      else printed (lead (p_open l field p) @ join_with ('','' @ new_line (pr_indent p + 2)) items) (p_open l field p))"
  shows "p_close r field q = printed (lead p @ brackets l r field (pr_indent p) items) p"
proof (cases field)
  case None
  with assms show ?thesis
    by (cases p) (simp add: p_open_def p_close_def brackets_def Let_def p_emit_def bol_def printed_def lead_def new_line_def label_def)
next
  case (Some f)
  show ?thesis
    by (cases p) (simp add: Some assms(2) p_open_def p_close_def brackets_def Let_def p_emit_def bol_def printed_def lead_def new_line_def label_def)
qed

lemma p_open_indent: "pr_indent (p_open l field p) = pr_indent p + 2"
  by (simp add: p_open_def Let_def p_emit_def bol_def split: option.split)

lemma render_empty [simp]: "render_fields ind fs = [] \<longleftrightarrow> fs = []" "render_elements ind ts = [] \<longleftrightarrow> ts = []"
  by (cases fs; auto) (cases ts; auto)

lemma layout:
  "separable field t \<Longrightarrow> p_value field t p = printed (lead p @ render field (pr_indent p) t) p"
  "separable_fields fs \<Longrightarrow> p_fields fs p = (if render_fields (pr_indent p) fs = [] then p
     else printed (lead p @ join_with ('','' @ new_line (pr_indent p)) (render_fields (pr_indent p) fs)) p)"
  "separable_elements ts \<Longrightarrow> p_elements ts p = (if render_elements (pr_indent p) ts = [] then p
     else printed (lead p @ join_with ('','' @ new_line (pr_indent p)) (render_elements (pr_indent p) ts)) p)"
proof (induction field t p and fs p and ts p rule: p_value_p_fields_p_elements.induct)
  case (4 field fs p)
  then show ?case unfolding p_value.simps render.simps
    by (intro composite_layout) (auto simp: p_open_indent)
next
  case (5 field ts p)
  then show ?case unfolding p_value.simps render.simps
    by (intro composite_layout) (auto simp: p_open_indent)
next
  case (7 f t fs p)
  then show ?case by (simp add: join_with_Cons printed_printed lead_printed) (simp add: printed_def)
next
  case (9 t ts p)
  then show ?case by (simp add: join_with_Cons printed_printed lead_printed) (simp add: printed_def)
qed (simp_all add: p_emit_bol)


text \<open>C32: The printer, which writes to a stream with flags for the pending comma and line end, produces
  the text of the recursive pretty printer, at the default indentation 0, for every value in which no
  composite without a name is empty, and a line end.\<close>

theorem printer_layout:
  assumes "separable name t"
  shows "xdr_to_string t name 0 = render name 0 t @ [CHR 0x0A]"
  using layout(1) [OF assms, of new_printer]
  by (simp add: xdr_to_string_def new_printer_def printed_def lead_def)

text \<open>The comment on \<open>xdr_to_string\<close> calls \<open>indent\<close> a minimum indentation; the function does not use it.\<close>

lemma indent_ignored: "xdr_to_string t name indent = xdr_to_string t name 0"
  by (simp add: xdr_to_string_def)

definition sample_tree :: ptree where
  "sample_tree = P_class [(Some ''fname'', P_atom (escape_string ''/f'')), (Some ''modes'', P_container [P_atom ''8'', P_atom ''9''])]"

theorem printer_layout_witness:
  "xdr_to_string sample_tree (Some ''ev'') 0 = render (Some ''ev'') 0 sample_tree @ [CHR 0x0A]
    \<and> render (Some ''ev'') 0 sample_tree = concat [''ev = {'', new_line 2, ''fname = '', [CHR 0x22], ''/f'', [CHR 0x22],
        '','', new_line 2, ''modes = ['', new_line 4, ''8,'', new_line 4, ''9'', new_line 2, '']'', new_line 0, ''}'']"
  using printer_layout [of "Some ''ev''" sample_tree]
  by (simp add: sample_tree_def escape_string_def escape_char_def brackets_def label_def numeral_eq_Suc)

text \<open>
  An empty composite without a name leaves the flags as if its first member were still to come: the
  next value follows it without a comma and a new line.
\<close>

lemma empty_runs_together:
  "xdr_to_string (P_container [P_container [], P_container [], P_atom ''1'']) None indent = ''[ [  ][  ]1 ]'' @ [CHR 0x0A]"
  by (simp add: xdr_to_string_def new_printer_def p_open_def p_close_def p_emit_def bol_def Let_def)

end
