(* ===== verification/Sockets.thy ===== *)
theory Sockets
  imports Paxos_Replica
begin

text \<open>
  \<open>xdrpp/socket.h\<close> and \<open>socket.cc\<close>: texts of addresses, the owner of a descriptor, and the functions
  that connect and listen. What the kernel and the resolver answer is an argument; the open
  descriptors of the process are the state.
\<close>

section \<open>Texts of addresses\<close>

text \<open>\<open>s.rfind(c)\<close> and \<open>s.rfind(c, pos)\<close>\<close>

definition str_rfind :: "char \<Rightarrow> string \<Rightarrow> nat option" where
  "str_rfind c s = map_option (\<lambda>i. length s - Suc i) (str_find c (rev s))"

text \<open>The host and the port of each address, as \<open>get_numinfo\<close> gives them.\<close>

fun addrinfo_to_string :: "(string \<times> string) list \<Rightarrow> string" where
  "addrinfo_to_string [] = []"
| "addrinfo_to_string ((h, p) # ais) =
     (if str_find (CHR '':'') h = None then h @ '':'' @ p else ''['' @ h @ '']:'' @ p)
     @ (if ais = [] then [] else '', '') @ addrinfo_to_string ais"

definition cat_host_service :: "string option \<Rightarrow> string option \<Rightarrow> string" where
  "cat_host_service host service =
     (case host of None \<Rightarrow> [] | Some h \<Rightarrow> if CHR '':'' \<in> set h then ''['' @ h @ '']'' else h)
     @ (case service of None \<Rightarrow> [] | Some s \<Rightarrow> '':'' @ s)"

definition parse_uaddr_port :: "string \<Rightarrow> int" where
  "parse_uaddr_port uaddr =
     (case str_rfind (CHR ''.'') uaddr of
        None \<Rightarrow> -1
      | Some low \<Rightarrow>
          if low = 0 then -1
          else (case str_rfind (CHR ''.'') (take low uaddr) of
              None \<Rightarrow> -1
            | Some high \<Rightarrow>
                (case (stoi (drop (high + 1) uaddr), stoi (drop (low + 1) uaddr)) of
                   (Inr hb, Inr lb) \<Rightarrow>
                     if hb < 0 \<or> 255 < hb \<or> lb < 0 \<or> 255 < lb then -1 else hb * 256 + lb
                 | _ \<Rightarrow> -1)))"

text \<open>\<open>make_uaddr\<close>: \<open>None\<close> is an exception. \<open>port\<close> is an \<open>unsigned\<close>, of 32 bits.\<close>

definition make_uaddr :: "string \<Rightarrow> string \<Rightarrow> string option" where
  "make_uaddr host portstr = Option.bind (stoul portstr) (\<lambda>n.
     let port = (ucast n :: u32) in
     if port = 0 \<or> 65536 \<le> port then None
     else Some (host @ ''.'' @ digits (unat (drop_bit 8 port)) @ ''.'' @ digits (unat (port AND 0xff))))"

section \<open>Owners of descriptors\<close>

text \<open>
  The state is the list of the open descriptors and what the kernel answers to the next calls of
  \<open>close\<close>; a call beyond these answers succeeds. \<open>really_close\<close> retries while the call is
  interrupted, and gives up with a message on any other error. The owner of a descriptor holds one,
  or none.
\<close>

datatype close_answer = Close_ok | Close_eintr | Close_error

record fd_table =
  open_fds :: "nat list"
  close_answers :: "close_answer list"

fun close_loop :: "close_answer list \<Rightarrow> nat \<Rightarrow> fd_table \<Rightarrow> fd_table" where
  "close_loop [] fd t = t\<lparr>open_fds := remove1 fd (open_fds t), close_answers := []\<rparr>"
| "close_loop (Close_ok # as) fd t = t\<lparr>open_fds := remove1 fd (open_fds t), close_answers := as\<rparr>"
| "close_loop (Close_eintr # as) fd t = close_loop as fd t"
| "close_loop (Close_error # as) fd t = t\<lparr>close_answers := as\<rparr>"

definition really_close :: "nat \<Rightarrow> fd_table \<Rightarrow> fd_table" where
  "really_close fd t = close_loop (close_answers t) fd t"

definition fd_open :: "nat \<Rightarrow> fd_table \<Rightarrow> fd_table" where
  "fd_open fd t = t\<lparr>open_fds := fd # open_fds t\<rparr>"

type_synonym unique_fd = "nat option"

definition ufd_release :: "unique_fd \<Rightarrow> nat option \<times> unique_fd" where
  "ufd_release u = (u, None)"

definition ufd_clear :: "unique_fd \<Rightarrow> fd_table \<Rightarrow> unique_fd \<times> fd_table" where
  "ufd_clear u t = (case u of None \<Rightarrow> (u, t) | Some fd \<Rightarrow> (None, really_close fd t))"

definition ufd_assign :: "unique_fd \<Rightarrow> unique_fd \<Rightarrow> fd_table \<Rightarrow> unique_fd \<times> fd_table" where
  "ufd_assign u v t = (case ufd_clear u t of (_, t) \<Rightarrow> (fst (ufd_release v), t))"

section \<open>Connecting\<close>

text \<open>What the kernel answers for one address.\<close>

datatype connect_answer = Connect_ok | Connect_inprogress | Connect_refused

record attempt_answers =
  aa_socket :: "nat option"
  aa_nonblock :: bool
  aa_connect :: connect_answer

datatype connect_error = Sock_socket | Sock_nonblock | Sock_connect | Sock_lookup | Sock_bind | Sock_listen

definition tcp_connect1 :: "attempt_answers \<Rightarrow> bool \<Rightarrow> fd_table \<Rightarrow> (connect_error + unique_fd) \<times> fd_table" where
  "tcp_connect1 a ndelay t = (case aa_socket a of
     None \<Rightarrow> (Inl Sock_socket, t)
   | Some n \<Rightarrow>
       (let fd = Some n; t = fd_open n t in
        if ndelay \<and> \<not> aa_nonblock a then (Inl Sock_nonblock, snd (ufd_clear fd t))
        else if aa_connect a = Connect_refused then (case ufd_clear fd t of (fd, t) \<Rightarrow> (Inr fd, t))
        else (Inr fd, t)))"

text \<open>
  The loop over the addresses. \<open>fd = tcp_connect1(ai)\<close> assigns to the owner of the loop, which holds
  no descriptor when the loop goes on.
\<close>

fun tcp_connect :: "attempt_answers list \<Rightarrow> fd_table \<Rightarrow> (connect_error + nat) \<times> fd_table" where
  "tcp_connect [] t = (Inl Sock_connect, t)"
| "tcp_connect (a # as) t = (case tcp_connect1 a False t of
     (Inl e, t) \<Rightarrow> (Inl e, t)
   | (Inr r, t) \<Rightarrow> (case ufd_assign None r t of
       (Some fd, t) \<Rightarrow> (Inr fd, t)
     | (None, t) \<Rightarrow> tcp_connect as t))"

definition tcp_connect_host :: "attempt_answers list option \<Rightarrow> fd_table \<Rightarrow> (connect_error + nat) \<times> fd_table" where
  "tcp_connect_host lookup t = (case lookup of None \<Rightarrow> (Inl Sock_lookup, t) | Some as \<Rightarrow> tcp_connect as t)"

text \<open>
  \<open>tcp_listen\<close>: the first address of the list is used; the answers are the result of the lookup, the
  new descriptor, and whether \<open>bind\<close> and \<open>listen\<close> succeed. The destructor closes the socket when one
  of them throws.
\<close>

definition tcp_listen :: "bool \<Rightarrow> nat option \<Rightarrow> bool \<Rightarrow> bool \<Rightarrow> fd_table \<Rightarrow> (connect_error + nat) \<times> fd_table" where
  "tcp_listen found sock bind_ok listen_ok t =
     (if \<not> found then (Inl Sock_lookup, t)
      else case sock of
        None \<Rightarrow> (Inl Sock_socket, t)
      | Some n \<Rightarrow>
          (let fd = Some n; t = fd_open n t in
           if \<not> bind_ok then (Inl Sock_bind, snd (ufd_clear fd t))
           else if \<not> listen_ok then (Inl Sock_listen, snd (ufd_clear fd t))
           else (Inr n, t)))"

section \<open>Properties\<close>

subsection \<open>Universal addresses\<close>

lemma str_rfind_last:
  assumes "c \<notin> set s"
  shows "str_rfind c (p @ c # s) = Some (length p)"
proof -
  have "str_find c (r @ c # q) = Some (length r)" if "c \<notin> set r" for r q
    using that by (induction r) auto
  from this [of "rev s" "rev p"] assms show ?thesis by (simp add: str_rfind_def)
qed

lemma strto_digits_rest:
  assumes "s = [] \<or> \<not> is_digit (hd s)"
  shows "strto (digits n @ s) = Some (False, int n)"
proof -
  obtain c ds where d: "digits n = c # ds" using digits_nonempty [of n] by (cases "digits n") auto
  have "takeWhile is_digit (digits n @ s) = digits n"
    using digits_digits [of n] assms by (cases s) (simp_all add: takeWhile_append)
  moreover have "is_digit c" using digits_digits [of n] d by simp
  ultimately show ?thesis
    using is_digit_sign [of c] digits_value_digits [of n] unfolding d strto_def by (simp add: Let_def)
qed

lemma dot_not_digit: "CHR ''.'' \<notin> set (digits n)"
  using digits_digits [of n] by (auto simp: is_digit_def)

text \<open>The port of a universal address that \<open>make_uaddr\<close> builds is the port it was built from, whatever
  the text of the host is.\<close>

theorem uaddr_roundtrip:
  assumes "0 < n" "n < 65536"
  shows "\<exists>u. make_uaddr host (digits n) = Some u \<and> parse_uaddr_port u = int n"
proof -
  let ?hi = "n div 256" and ?lo = "n mod 256"
  let ?u = "host @ ''.'' @ digits ?hi @ ''.'' @ digits ?lo"
  have w: "unat (of_nat n :: u32) = n" using assms by (simp add: unsigned_of_nat take_bit_nat_eq_self)
  have ne: "of_nat n \<noteq> (0 :: u32)" "\<not> 65536 \<le> (of_nat n :: u32)" using w assms by (auto simp: word_le_nat_alt unat_eq_0 [symmetric])
  have hi: "unat (drop_bit 8 (of_nat n :: u32)) = ?hi" using w by (simp add: drop_bit_eq_div unat_div)
  have "(of_nat n :: u32) AND 0xff = take_bit 8 (of_nat n)" by (simp add: take_bit_eq_mask mask_eq_exp_minus_1)
  then have lo: "unat ((of_nat n :: u32) AND 0xff) = ?lo" using w by (simp add: take_bit_eq_mod unat_mod)
  have "ucast (of_nat n :: u64) = (of_nat n :: u32)" using assms by (simp add: unsigned_of_nat take_bit_nat_eq_self)
  then have "make_uaddr host (digits n) = Some ?u"
    using assms ne hi lo by (simp add: make_uaddr_def stoul_digits Let_def)
  moreover have "parse_uaddr_port ?u = int n"
  proof -
    have low: "str_rfind (CHR ''.'') ?u = Some (length host + 1 + length (digits ?hi))"
      using str_rfind_last [OF dot_not_digit, of "host @ ''.'' @ digits ?hi" ?lo] by simp
    have high: "str_rfind (CHR ''.'') (take (length host + 1 + length (digits ?hi)) ?u) = Some (length host)"
      using str_rfind_last [OF dot_not_digit, of host ?hi] by simp
    have "stoi (digits ?hi @ ''.'' @ digits ?lo) = Inr (int ?hi)" "stoi (digits ?lo) = Inr (int ?lo)"
      using assms by (simp_all add: stoi_def strto_digits_rest is_digit_def)
    moreover have "?hi \<le> 255" "?lo \<le> 255" using assms by linarith+
    moreover have "int ?hi * 256 + int ?lo = int n" by (simp only: zdiv_int zmod_int) simp
    ultimately show ?thesis using low high by (simp add: parse_uaddr_port_def)
  qed
  ultimately show ?thesis by blast
qed


theorem uaddr_roundtrip_witness: "\<exists>u. make_uaddr ''10.0.0.7'' (digits 15001) = Some u \<and> parse_uaddr_port u = int 15001"
  by (rule uaddr_roundtrip) simp_all

subsection \<open>Descriptors\<close>

definition accepts :: "attempt_answers \<Rightarrow> bool" where
  "accepts a \<longleftrightarrow> aa_connect a \<noteq> Connect_refused"

lemma close_loop_closes:
  "Close_error \<notin> set as \<Longrightarrow> \<exists>as'. set as' \<subseteq> set as \<and> close_loop as fd t = t\<lparr>open_fds := remove1 fd (open_fds t), close_answers := as'\<rparr>"
  by (induction as fd t rule: close_loop.induct) auto

lemma clear_open:
  assumes "Close_error \<notin> set (close_answers t)"
  shows "\<exists>as. set as \<subseteq> set (close_answers t) \<and> ufd_clear (Some fd) (fd_open fd t) = (None, t\<lparr>close_answers := as\<rparr>)"
  using close_loop_closes [OF assms, of fd "fd_open fd t"] by (auto simp: ufd_clear_def really_close_def fd_open_def)

text \<open>What \<open>tcp_connect\<close> promises for the answers of the kernel.\<close>

fun connect_result :: "attempt_answers list \<Rightarrow> connect_error + nat" where
  "connect_result as = (case dropWhile (\<lambda>a. aa_socket a \<noteq> None \<and> \<not> accepts a) as of
     [] \<Rightarrow> Inl Sock_connect
   | a # _ \<Rightarrow> (case aa_socket a of None \<Rightarrow> Inl Sock_socket | Some fd \<Rightarrow> Inr fd))"

text \<open>\<open>tcp_connect\<close> goes through the addresses that do not accept and returns the descriptor of the
  first that does; it throws when there is none, or at the first address for which the kernel gives
  no socket. In every case the descriptors that are open are the same as before, but for the one it
  returns.\<close>

theorem tcp_connect_outcome:
  assumes "Close_error \<notin> set (close_answers t)"
  shows "fst (tcp_connect as t) = connect_result as
    \<and> open_fds (snd (tcp_connect as t)) = (case connect_result as of Inl _ \<Rightarrow> open_fds t | Inr fd \<Rightarrow> fd # open_fds t)"
  using assms
proof (induction as arbitrary: t)
  case (Cons a as)
  show ?case
  proof (cases "aa_socket a")
    case (Some fd)
    obtain cl where cl: "set cl \<subseteq> set (close_answers t)" "ufd_clear (Some fd) (fd_open fd t) = (None, t\<lparr>close_answers := cl\<rparr>)"
      using clear_open [OF Cons.prems] by blast
    have "Close_error \<notin> set (close_answers (t\<lparr>close_answers := cl\<rparr>))" using cl(1) Cons.prems by auto
    note IH = Cons.IH [OF this]
    show ?thesis using Some cl(2) IH
      by (cases "accepts a") (auto simp: tcp_connect1_def accepts_def ufd_assign_def ufd_release_def fd_open_def Let_def ufd_clear_def split: sum.splits)
  qed (simp add: tcp_connect1_def)
qed simp

theorem tcp_connect_outcome_witness:
  "let t = \<lparr>open_fds = [3], close_answers = [Close_eintr, Close_ok]\<rparr>;
       as = [\<lparr>aa_socket = Some 4, aa_nonblock = True, aa_connect = Connect_refused\<rparr>,
             \<lparr>aa_socket = Some 4, aa_nonblock = True, aa_connect = Connect_ok\<rparr>]
   in fst (tcp_connect as t) = Inr 4 \<and> open_fds (snd (tcp_connect as t)) = [4, 3]"
  using tcp_connect_outcome [of "\<lparr>open_fds = [3], close_answers = [Close_eintr, Close_ok]\<rparr>"
    "[\<lparr>aa_socket = Some 4, aa_nonblock = True, aa_connect = Connect_refused\<rparr>, \<lparr>aa_socket = Some 4, aa_nonblock = True, aa_connect = Connect_ok\<rparr>]"]
  by (simp add: accepts_def)

end
