(* ===== verification/Ini_Parse.thy ===== *)
theory Ini_Parse
  imports Decimal
begin

text \<open>
  \<open>xdrpp/iniparse.h\<close> and \<open>iniparse.cc\<close>: the parser for configuration files with groups and
  properties. The callbacks of the properties work on a state of the application.
\<close>

section \<open>Values\<close>

text \<open>The exceptions of the conversions, both of them a \<open>std::logic_error\<close>.\<close>

datatype logic_error = Invalid_argument | Out_of_range

definition from_string_bool :: "string \<Rightarrow> logic_error + bool" where
  "from_string_bool s = (if s = ''true'' then Inr True else if s = ''false'' then Inr False else Inl Invalid_argument)"

text \<open>
  What \<open>strtol\<close> and its relatives read with base 0, the base that \<open>add_base\<close> passes: white space, a
  sign, the prefix \<open>0x\<close> of a hexadecimal or \<open>0\<close> of an octal number, digits. The result is the sign,
  the magnitude and the number of characters read.
\<close>

definition digit_in :: "nat \<Rightarrow> char \<Rightarrow> nat option" where
  "digit_in base c =
     (let n = of_char c :: nat;
          d = (if n \<in> {48..57} then n - 48 else if n \<in> {97..122} then n - 87 else if n \<in> {65..90} then n - 55 else 36)
      in if d < base then Some d else None)"

definition number_in :: "nat \<Rightarrow> string \<Rightarrow> nat" where
  "number_in base s = foldl (\<lambda>v c. base * v + the (digit_in base c)) 0 s"

definition strto0 :: "string \<Rightarrow> (bool \<times> nat \<times> nat) option" where
  "strto0 s =
     (let s1 = dropWhile is_space s;
          neg = (s1 \<noteq> [] \<and> hd s1 = CHR ''-'');
          s2 = (if s1 \<noteq> [] \<and> hd s1 \<in> {CHR ''-'', CHR ''+''} then tl s1 else s1);
          hex = (2 < length s2 \<and> s2 ! 0 = CHR ''0'' \<and> s2 ! 1 \<in> {CHR ''x'', CHR ''X''} \<and> digit_in 16 (s2 ! 2) \<noteq> None);
          base = (if hex then 16 else if s2 \<noteq> [] \<and> hd s2 = CHR ''0'' then 8 else 10);
          s3 = (if hex then drop 2 s2 else s2);
          ds = takeWhile (\<lambda>c. digit_in base c \<noteq> None) s3
      in if ds = [] then None else Some (neg, number_in base ds, length s - length s3 + length ds))"

text \<open>The integers that a property may have, and the conversion that reads each.\<close>

datatype int_type = T_int | T_long | T_long_long | T_uchar | T_ushort | T_uint | T_ulong | T_ulong_long

definition is_signed_conv :: "int_type \<Rightarrow> bool" where
  "is_signed_conv ty \<longleftrightarrow> ty \<in> {T_int, T_long, T_long_long, T_ulong_long}"

fun type_bits :: "int_type \<Rightarrow> nat" where
  "type_bits T_int = 32" | "type_bits T_long = 64" | "type_bits T_long_long = 64" | "type_bits T_uchar = 8"
| "type_bits T_ushort = 16" | "type_bits T_uint = 32" | "type_bits T_ulong = 64" | "type_bits T_ulong_long = 64"

text \<open>
  \<open>stoi\<close>, \<open>stol\<close> and \<open>stoll\<close> throw when the number does not fit; \<open>stoul\<close> when its magnitude does not,
  and takes a negative number modulo \<open>2^64\<close>.
\<close>

definition conv_value :: "int_type \<Rightarrow> bool \<Rightarrow> nat \<Rightarrow> int option" where
  "conv_value ty neg n =
     (if is_signed_conv ty
      then (let v = (if neg then - int n else int n); w = (if ty = T_int then 31 else 63)
            in if - (2 ^ w) \<le> v \<and> v < 2 ^ w then Some v else None)
      else if n < 2 ^ 64 then Some ((if neg then - int n else int n) mod 2 ^ 64) else None)"

text \<open>The value in the type of the property, and back in the type of the conversion.\<close>

definition in_type :: "int_type \<Rightarrow> int \<Rightarrow> int" where
  "in_type ty r = (if ty \<in> {T_int, T_long, T_long_long} then r else r mod 2 ^ type_bits ty)"

definition conv_back :: "int_type \<Rightarrow> int \<Rightarrow> int" where
  "conv_back ty t = (if ty = T_ulong_long \<and> 2 ^ 63 \<le> t then t - 2 ^ 64 else t)"

definition is_blank :: "char \<Rightarrow> bool" where
  "is_blank c \<longleftrightarrow> c \<in> {CHR 0x09, CHR 0x0D, CHR '' ''}"

definition from_string_int :: "int_type \<Rightarrow> string \<Rightarrow> logic_error + int" where
  "from_string_int ty s = (case strto0 s of
     None \<Rightarrow> Inl Invalid_argument
   | Some (neg, n, pos) \<Rightarrow> (case conv_value ty neg n of
       None \<Rightarrow> Inl Out_of_range
     | Some r \<Rightarrow>
         (let t = in_type ty r in
          if conv_back ty t \<noteq> r then Inl Out_of_range
          else if list_ex (\<lambda>c. \<not> (is_blank c \<or> c = CHR 0x0A)) (drop pos s) then Inl Invalid_argument
          else Inr t)))"

section \<open>Escapes\<close>

definition escaped_char :: "char \<Rightarrow> char" where
  "escaped_char c = (if c = CHR ''n'' then CHR 0x0A else if c = CHR ''r'' then CHR 0x0D
     else if c = CHR ''s'' then CHR '' '' else if c = CHR ''t'' then CHR 0x09 else c)"

text \<open>The loop of \<open>ini_unescape\<close>, with the flag \<open>escape\<close> and the text so far.\<close>

fun unescape_loop :: "bool \<Rightarrow> string \<Rightarrow> string \<Rightarrow> string option" where
  "unescape_loop escape v [] = (if escape then None else Some v)"
| "unescape_loop escape v (c # s) =
     (if escape then unescape_loop False (v @ [escaped_char c]) s
      else if c = CHR 0x5C then unescape_loop True v s
      else unescape_loop False (v @ [c]) s)"

definition ini_unescape :: "string \<Rightarrow> string option" where
  "ini_unescape s = unescape_loop False [] s"

section \<open>Words of a value\<close>

text \<open>\<open>find_first_of\<close> from a position on\<close>

definition find_blank :: "string \<Rightarrow> nat \<Rightarrow> nat option" where
  "find_blank s k = (let n = length (takeWhile (\<lambda>c. \<not> is_blank c) (drop k s)) in if k + n < length s then Some (k + n) else None)"

function word_end :: "string \<Rightarrow> nat \<Rightarrow> nat" where
  "word_end raw e = (case find_blank raw (e + 1) of
     None \<Rightarrow> length raw
   | Some e' \<Rightarrow> if raw ! (e' - 1) = CHR 0x5C then word_end raw e' else e')"
  by pat_completeness auto
termination
  by (relation "measure (\<lambda>(raw, e). length raw - e)") (auto simp: find_blank_def Let_def split: if_splits)

declare word_end.simps [simp del]

lemma word_end_pos: "raw \<noteq> [] \<Longrightarrow> e < length raw \<Longrightarrow> e < word_end raw e \<and> word_end raw e \<le> length raw"
proof (induction raw e rule: word_end.induct)
  case (1 raw e)
  have "find_blank raw (e + 1) = Some e' \<Longrightarrow> e < e' \<and> e' < length raw" for e'
    by (auto simp: find_blank_def Let_def split: if_splits)
  then show ?case using 1
    by (subst (1 2) word_end.simps) (fastforce split: option.split)
qed

text \<open>
  \<open>argv\<close>, with the part of the value from position \<open>i\<close> on; the word that starts there does not
  look at what comes before it.
\<close>

function argv :: "string \<Rightarrow> logic_error + string list" where
  "argv raw =
     (if raw = [] then Inr []
      else let e = word_end raw 0 in
        case ini_unescape (take e raw) of
          None \<Rightarrow> Inl Invalid_argument
        | Some a \<Rightarrow> bindR (argv (dropWhile is_blank (drop e raw))) (\<lambda>av. Inr (a # av)))"
  by pat_completeness auto
termination
proof (relation "measure length", simp, goal_cases)
  case (1 raw e a)
  then have "0 < e" using word_end_pos [of raw 0] by simp
  then have "length (drop e raw) < length raw" using 1(1) by simp
  then show ?case using length_dropWhile_le [of is_blank "drop e raw"] by simp
qed

declare argv.simps [simp del]

section \<open>Lines\<close>

record ini_line =
  il_lineno :: int
  il_group :: string
  il_key :: string
  il_value :: string
  il_rawvalue :: string
  il_error :: bool

text \<open>What is printed to \<open>cerr\<close>, with the number of the line.\<close>

datatype ini_msg = Unknown_property string string | Unknown_group string | Syntax_error | Key_precedes_group | Conversion logic_error

text \<open>
  A callback changes the state of the application, and may end with an exception. A group maps keys
  to callbacks.
\<close>

type_synonym 's cb_t = "ini_line \<Rightarrow> 's \<Rightarrow> logic_error option \<times> 's"
type_synonym 's IniGroup = "string \<rightharpoonup> 's cb_t"
type_synonym 's IniActions = "string \<rightharpoonup> 's IniGroup"

record 's ini_state =
  is_actions :: "string \<Rightarrow> (string \<Rightarrow> (ini_line \<Rightarrow> 's \<Rightarrow> logic_error option \<times> 's) option) option"
  is_line :: ini_line
  is_known :: bool
  is_app :: 's
  is_cerr :: "(int \<times> ini_msg) list"

definition ignoreline :: "'s cb_t" where
  "ignoreline li s = (None, s)"

definition warn :: "ini_msg \<Rightarrow> 's ini_state \<Rightarrow> 's ini_state" where
  "warn m st = st\<lparr>is_cerr := is_cerr st @ [(il_lineno (is_line st), m)]\<rparr>"

definition ini_fail :: "ini_msg \<Rightarrow> 's ini_state \<Rightarrow> 's ini_state" where
  "ini_fail m st = warn m (st\<lparr>is_line := (is_line st)\<lparr>il_error := True\<rparr>\<rparr>)"

text \<open>\<open>IniGroup::add\<close>; \<open>None\<close> is the exception for a duplicate key.\<close>

definition ini_add :: "string \<Rightarrow> 's cb_t \<Rightarrow> 's IniGroup \<Rightarrow> 's IniGroup option" where
  "ini_add key cb g = (if g key = None then Some (g(key \<mapsto> cb)) else None)"

text \<open>
  \<open>IniGroup::parse\<close> for the group of the line: a key without a callback is reported and, from then
  on, ignored. The \<open>catch\<close> of the caller is included.
\<close>

definition group_parse :: "'s ini_state \<Rightarrow> 's ini_state" where
  "group_parse st =
     (let li = is_line st; g = the (is_actions st (il_group li)) in
      case g (il_key li) of
        None \<Rightarrow> (warn (Unknown_property (il_group li) (il_key li)) st)
          \<lparr>is_actions := (is_actions st)(il_group li \<mapsto> g(il_key li \<mapsto> ignoreline))\<rparr>
      | Some cb \<Rightarrow> (case cb li (is_app st) of
          (None, s) \<Rightarrow> st\<lparr>is_app := s\<rparr>
        | (Some e, s) \<Rightarrow> ini_fail (Conversion e) (st\<lparr>is_app := s\<rparr>)))"

definition parsekv :: "string \<Rightarrow> (string \<times> string \<times> string) option" where
  "parsekv line =
     (let l1 = dropWhile is_space line;
          k = takeWhile (\<lambda>c. \<not> is_space c \<and> c \<noteq> CHR ''='') l1;
          l2 = dropWhile is_space (drop (length k) l1)
      in if k = [] \<or> l2 = [] \<or> hd l2 \<noteq> CHR ''='' then None
         else (let raw = dropWhile is_space (tl l2) in
           case ini_unescape raw of None \<Rightarrow> None | Some v \<Rightarrow> Some (k, v, raw)))"

text \<open>\<open>line.rfind(']')\<close>, and the body of the loop of \<open>ini_runparse\<close>.\<close>

definition rfind_bracket :: "string \<Rightarrow> nat option" where
  "rfind_bracket s = map_option (\<lambda>i. length s - Suc i) (str_find (CHR '']'') (rev s))"

definition ini_step :: "string \<Rightarrow> 's ini_state \<Rightarrow> 's ini_state" where
  "ini_step line st =
     (let st = st\<lparr>is_line := (is_line st)\<lparr>il_lineno := il_lineno (is_line st) + 1\<rparr>\<rparr>;
          line = dropWhile is_blank line
      in if line = [] \<or> hd line = CHR ''#'' then st
         else if hd line = CHR ''['' then
           (case rfind_bracket line of
              None \<Rightarrow> ini_fail Syntax_error st
            | Some e \<Rightarrow>
                if e = 1 \<or> list_ex (\<lambda>c. \<not> is_blank c) (drop (e + 1) line) then ini_fail Syntax_error st
                else (let g = take (e - 1) (drop 1 line);
                          st = st\<lparr>is_line := (is_line st)\<lparr>il_group := g\<rparr>, is_known := is_actions st g \<noteq> None\<rparr>
                      in if is_known st then st else warn (Unknown_group g) st))
         else if il_group (is_line st) = [] then ini_fail Key_precedes_group st
         else if \<not> is_known st then st
         else (case parsekv line of
             Some (k, v, raw) \<Rightarrow>
               group_parse (st\<lparr>is_line := (is_line st)\<lparr>il_key := k, il_value := v, il_rawvalue := raw\<rparr>\<rparr>)
           | None \<Rightarrow> ini_fail Syntax_error st))"

text \<open>
  \<open>getline(s, line).good()\<close> holds for the lines that end with a line end: at the end of the text the
  stream is no longer good.
\<close>

fun ini_lines :: "string \<Rightarrow> string \<Rightarrow> string list" where
  "ini_lines acc [] = []"
| "ini_lines acc (c # s) = (if c = CHR 0x0A then acc # ini_lines [] s else ini_lines (acc @ [c]) s)"

definition ini_runparse :: "'s ini_state \<Rightarrow> string \<Rightarrow> 's ini_state" where
  "ini_runparse st text = fold ini_step (ini_lines [] text) (st\<lparr>is_known := False\<rparr>)"

text \<open>
  \<open>ini_parse\<close>. A file that cannot be opened sets the fail bit of the stream and not the bad bit, so
  the parser runs on a stream that gives no lines.
\<close>

definition ini_parse :: "'s IniActions \<Rightarrow> 's \<Rightarrow> string option \<Rightarrow> bool \<times> 's ini_state" where
  "ini_parse a s file =
     (let st = ini_runparse \<lparr>is_actions = a, is_line = \<lparr>il_lineno = 0, il_group = [], il_key = [], il_value = [], il_rawvalue = [], il_error = False\<rparr>,
             is_known = False, is_app = s, is_cerr = []\<rparr> (case file of None \<Rightarrow> [] | Some t \<Rightarrow> t)
      in (\<not> il_error (is_line st), st))"


section \<open>Properties of values\<close>

text \<open>The flag \<open>escape\<close> after a text.\<close>

fun esc_flag :: "bool \<Rightarrow> string \<Rightarrow> bool" where
  "esc_flag f [] = f"
| "esc_flag f (c # s) = esc_flag (\<not> f \<and> c = CHR 0x5C) s"

lemma esc_flag_append: "esc_flag f (s @ t) = esc_flag (esc_flag f s) t"
  by (induction s arbitrary: f) auto

lemma unescape_None: "unescape_loop f v s = None \<longleftrightarrow> esc_flag f s"
  by (induction f v s rule: unescape_loop.induct) auto

lemma unescape_acc: "unescape_loop f v s = map_option ((@) v) (unescape_loop f [] s)"
proof (induction s arbitrary: f v)
  case (Cons c s)
  have "unescape_loop False (v @ [d]) s = map_option ((@) v) (unescape_loop False [d] s)" for d
    using Cons [of False "v @ [d]"] Cons [of False "[d]"] by (cases "unescape_loop False [] s") simp_all
  with Cons [of True v] show ?case by simp
qed simp

lemma esc_flag_blanks: "esc_flag False (dropWhile is_blank s) = esc_flag False s"
  by (induction s) (auto simp: is_blank_def)

lemma word_end_stop:
  "word_end raw e < length raw \<Longrightarrow> e < word_end raw e \<and> is_blank (raw ! word_end raw e) \<and> raw ! (word_end raw e - 1) \<noteq> CHR 0x5C"
proof (induction raw e rule: word_end.induct)
  case (1 raw e)
  show ?case
  proof (cases "find_blank raw (e + 1)")
    case None
    with 1(2) show ?thesis by (simp add: word_end.simps [of raw e])
  next
    case (Some e')
    then have e': "e < e'" "e' < length raw" by (auto simp: find_blank_def Let_def split: if_splits)
    have "is_blank (raw ! e')"
    proof -
      let ?P = "\<lambda>c. \<not> is_blank c" and ?d = "drop (e + 1) raw"
      have "e' = e + 1 + length (takeWhile ?P ?d)" "length (takeWhile ?P ?d) < length ?d"
        using Some by (auto simp: find_blank_def Let_def split: if_splits)
      with nth_length_takeWhile [of ?P ?d] show ?thesis by simp
    qed
    with Some e' 1 show ?thesis by (simp add: word_end.simps [of raw e] split: if_splits)
  qed
qed

text \<open>
  \<open>argv\<close> never throws for the value of a line that was parsed, as its comment says: a word ends at the
  end of the value or after a character that is no backslash.
\<close>

theorem argv_never_throws:
  assumes "ini_unescape raw \<noteq> None"
  shows "\<exists>av. argv raw = Inr av"
  using assms
proof (induction raw rule: argv.induct)
  case (1 raw)
  show ?case
  proof (cases "raw = []")
    case False
    let ?e = "word_end raw 0"
    have e: "0 < ?e" "?e \<le> length raw" using word_end_pos [of raw 0] False by auto
    have flag: "\<not> esc_flag False raw" using 1(2) by (simp add: ini_unescape_def unescape_None)
    have w: "\<not> esc_flag False (take ?e raw)"
    proof (cases "?e = length raw")
      case False
      with e have lt: "?e < length raw" by simp
      have "take ?e raw = take (?e - 1) raw @ [raw ! (?e - 1)]"
        using e lt take_Suc_conv_app_nth [of "?e - 1" raw] by simp
      then show ?thesis using word_end_stop [OF lt] by (simp add: esc_flag_append)
    qed (use flag in simp)
    then obtain a where a: "ini_unescape (take ?e raw) = Some a"
      using unescape_None [of False "[]" "take ?e raw"] by (auto simp: ini_unescape_def)
    have "\<not> esc_flag False (drop ?e raw)" using flag w esc_flag_append [of False "take ?e raw" "drop ?e raw"] by simp
    then have "ini_unescape (dropWhile is_blank (drop ?e raw)) \<noteq> None"
      by (simp add: ini_unescape_def unescape_None esc_flag_blanks)
    from 1(1) [OF False refl a this] obtain av where "argv (dropWhile is_blank (drop ?e raw)) = Inr av" by blast
    then show ?thesis using False a by (subst argv.simps) (simp add: Let_def)
  qed (simp add: argv.simps)
qed

theorem argv_never_throws_witness: "\<exists>av. argv ''a b'' = Inr av"
  by (rule argv_never_throws) (simp add: ini_unescape_def)

text \<open>A word that ends with an escaped backslash is taken together with the word that follows.\<close>

theorem backslash_joins_words: "argv [CHR ''a'', CHR 0x5C, CHR 0x5C, CHR '' '', CHR ''b''] = Inr [[CHR ''a'', CHR 0x5C, CHR '' '', CHR ''b'']]"
  by (simp add: argv.simps word_end.simps find_blank_def is_blank_def ini_unescape_def escaped_char_def numeral_eq_Suc)


text \<open>Numbers as text.\<close>

lemma digits_first: "0 < n \<Longrightarrow> hd (digits n) \<noteq> CHR ''0''"
proof (induction n rule: digits.induct)
  case (1 n)
  show ?case
  proof (cases "n < 10")
    case True
    have "char_of (48 + n) \<noteq> CHR ''0''"
    proof
      assume "char_of (48 + n) = CHR ''0''"
      then have "of_char (char_of (48 + n) :: char) = (of_char (CHR ''0'') :: nat)" by (simp only:)
      then show False using digit_char [of n] True 1(2) by simp
    qed
    then show ?thesis using True by (simp add: digits.simps [of n])
  next
    case False
    then show ?thesis using 1 digits_nonempty [of "n div 10"] by (simp add: digits.simps [of n])
  qed
qed

lemma digit_in_10: "is_digit c \<Longrightarrow> digit_in 10 c = Some (of_char c - 48)"
  by (auto simp: digit_in_def is_digit_def Let_def)

lemma number_in_digits: "\<forall>c \<in> set s. is_digit c \<Longrightarrow> int (number_in 10 s) = digits_value s"
  by (induction s rule: rev_induct) (auto simp: number_in_def digits_value_append digit_in_10 is_digit_def, simp add: digits_value_def)

lemma strto0_digits: "strto0 (digits n) = Some (False, n, length (digits n))"
proof -
  obtain c s where d: "digits n = c # s" using digits_nonempty [of n] by (cases "digits n") auto
  have all: "\<forall>c \<in> set (digits n). is_digit c" by (rule digits_digits)
  have c: "is_digit c" "\<not> is_space c" "c \<noteq> CHR ''-''" "c \<noteq> CHR ''+''" using all d is_digit_sign [of c] by auto
  have "\<not> (0 < length s \<and> s ! 0 \<in> {CHR ''x'', CHR ''X''})"
    using all unfolding d by (cases s) (auto simp: is_digit_def)
  then have hex: "\<not> (2 < length (c # s) \<and> (c # s) ! 1 \<in> {CHR ''x'', CHR ''X''})" by auto
  show ?thesis
  proof (cases "n = 0")
    case True
    moreover have "strto0 (digits 0) = Some (False, 0, length (digits 0))" by code_simp
    ultimately show ?thesis by simp
  next
    case False
    have "takeWhile (\<lambda>c. digit_in 10 c \<noteq> None) (c # s) = c # s"
      using all digit_in_10 unfolding d by (subst takeWhile_eq_all_conv) fastforce
    moreover have "number_in 10 (c # s) = n" using number_in_digits [OF all] digits_value_digits [of n] unfolding d by linarith
    ultimately show ?thesis using digits_first [of n] False c hex unfolding d strto0_def by (simp add: Let_def)
  qed
qed


text \<open>The numbers that a property of a type accepts, written by \<open>std::to_string\<close>.\<close>

fun int_limit :: "int_type \<Rightarrow> nat" where
  "int_limit T_int = 2 ^ 31" | "int_limit T_long = 2 ^ 63" | "int_limit T_long_long = 2 ^ 63" | "int_limit T_uchar = 2 ^ 8"
| "int_limit T_ushort = 2 ^ 16" | "int_limit T_uint = 2 ^ 32" | "int_limit T_ulong = 2 ^ 64" | "int_limit T_ulong_long = 2 ^ 63"

theorem from_string_digits:
  "from_string_int ty (digits n) = (if n < int_limit ty then Inr (int n) else Inl Out_of_range)"
proof -
  have "(int n mod m = int n) = (int n < m)" if "0 < m" for m :: int
    using that by (metis mod_pos_pos_trivial of_nat_0_le_iff pos_mod_bound)
  then show ?thesis
    by (cases ty) (auto simp: from_string_int_def strto0_digits conv_value_def is_signed_conv_def in_type_def conv_back_def Let_def)
qed

section \<open>Files\<close>

text \<open>The text of a configuration: escapes for white space and backslashes.\<close>

definition ini_escape_char :: "char \<Rightarrow> string" where
  "ini_escape_char c = (if c = CHR 0x0A then [CHR 0x5C, CHR ''n''] else if c = CHR 0x0D then [CHR 0x5C, CHR ''r'']
     else if c = CHR '' '' then [CHR 0x5C, CHR ''s''] else if c = CHR 0x09 then [CHR 0x5C, CHR ''t'']
     else if is_space c \<or> c = CHR 0x5C then [CHR 0x5C, c] else [c])"

definition ini_escape :: "string \<Rightarrow> string" where
  "ini_escape v = concat (map ini_escape_char v)"

definition group_text :: "string \<Rightarrow> string" where
  "group_text g = ''['' @ g @ '']''"

definition property_text :: "string \<times> string \<Rightarrow> string" where
  "property_text = (\<lambda>(k, v). k @ '' = '' @ ini_escape v)"

definition config_lines :: "(string \<times> (string \<times> string) list) list \<Rightarrow> string list" where
  "config_lines cfg = concat (map (\<lambda>(g, kvs). group_text g # map property_text kvs) cfg)"

definition ini_text :: "(string \<times> (string \<times> string) list) list \<Rightarrow> string" where
  "ini_text cfg = concat (map (\<lambda>l. l @ [CHR 0x0A]) (config_lines cfg))"

lemma unescape_escape: "ini_unescape (ini_escape v) = Some v"
proof -
  have one: "unescape_loop False [] (ini_escape_char c @ s) = map_option (Cons c) (unescape_loop False [] s)" for c s
  proof -
    have "unescape_loop False [d] s = map_option (Cons d) (unescape_loop False [] s)" for d
      using unescape_acc [of False "[d]" s] by (cases "unescape_loop False [] s") simp_all
    moreover have "is_space c \<or> c = CHR 0x5C \<Longrightarrow> escaped_char c = c" by (auto simp: escaped_char_def is_space_def)
    ultimately show ?thesis by (simp add: ini_escape_char_def) (simp add: escaped_char_def)
  qed
  show ?thesis unfolding ini_unescape_def ini_escape_def by (induction v) (simp_all add: one)
qed

lemma escape_no_newline: "CHR 0x0A \<notin> set (ini_escape v)"
  by (auto simp: ini_escape_def ini_escape_char_def split: if_splits)

lemma escape_first: "dropWhile is_space (ini_escape v) = ini_escape v"
  by (cases v) (auto simp: ini_escape_def ini_escape_char_def is_space_def)

lemma ini_lines_line: "CHR 0x0A \<notin> set l \<Longrightarrow> ini_lines acc (l @ CHR 0x0A # s) = (acc @ l) # ini_lines [] s"
  by (induction l arbitrary: acc) auto

lemma ini_lines_text: "\<forall>l \<in> set ls. CHR 0x0A \<notin> set l \<Longrightarrow> ini_lines [] (concat (map (\<lambda>l. l @ [CHR 0x0A]) ls)) = ls"
  by (induction ls) (simp_all add: ini_lines_line)

definition key_ok :: "string \<Rightarrow> bool" where
  "key_ok k \<longleftrightarrow> k \<noteq> [] \<and> (\<forall>c \<in> set k. \<not> is_space c \<and> c \<noteq> CHR ''='') \<and> hd k \<notin> {CHR ''#'', CHR ''[''}"

lemma parsekv_text: "key_ok k \<Longrightarrow> parsekv (property_text (k, v)) = Some (k, v, ini_escape v)"
proof -
  assume k: "key_ok k"
  then have "dropWhile is_space (k @ t) = k @ t" for t by (cases k) (auto simp: key_ok_def)
  moreover have "takeWhile (\<lambda>c. \<not> is_space c \<and> c \<noteq> CHR ''='') (k @ '' = '' @ t) = k" for t
    using k by (subst takeWhile_append2) (auto simp: key_ok_def is_space_def)
  moreover have "is_space (CHR '' '')" "\<not> is_space (CHR ''='')" by (simp_all add: is_space_def)
  ultimately show ?thesis
    using k unescape_escape [of v] by (simp add: parsekv_def property_text_def Let_def escape_first) (simp add: key_ok_def)
qed


lemma no_blank: "\<not> is_space c \<Longrightarrow> \<not> is_blank c"
  by (auto simp: is_blank_def is_space_def)

lemma group_step:
  assumes "g \<noteq> []" "is_actions st g \<noteq> None"
  shows "ini_step (group_text g) st = st\<lparr>is_line := (is_line st)\<lparr>il_lineno := il_lineno (is_line st) + 1, il_group := g\<rparr>, is_known := True\<rparr>"
proof -
  have "rfind_bracket (group_text g) = Some (length g + 1)" by (simp add: rfind_bracket_def group_text_def)
  then show ?thesis using assms by (simp add: ini_step_def group_text_def is_blank_def Let_def)
qed

lemma property_step:
  assumes "key_ok k" "is_known st" "il_group (is_line st) = g" "g \<noteq> []" "is_actions st g = Some grp" "grp k = Some (\<lambda>li s. (None, f (il_group li) (il_key li) (il_value li) s))"
  shows "ini_step (property_text (k, v)) st = st\<lparr>is_line := (is_line st)\<lparr>il_lineno := il_lineno (is_line st) + 1,
    il_key := k, il_value := v, il_rawvalue := ini_escape v\<rparr>, is_app := f g k v (is_app st)\<rparr>"
proof -
  obtain c k' where k: "k = c # k'" using assms(1) by (cases k) (auto simp: key_ok_def)
  have c: "\<not> is_blank c" "c \<noteq> CHR ''#''" "c \<noteq> CHR ''[''" using assms(1) no_blank [of c] by (auto simp: key_ok_def k)
  have "dropWhile is_blank (property_text (k, v)) = property_text (k, v)" "property_text (k, v) \<noteq> []" "hd (property_text (k, v)) = c"
    using c by (simp_all add: property_text_def k)
  then show ?thesis using assms c parsekv_text [OF assms(1)] by (simp add: ini_step_def group_parse_def Let_def)
qed

text \<open>The groups and the keys of a configuration have callbacks, which all do \<open>f\<close>.\<close>

definition ini_config_ok :: "'s IniActions \<Rightarrow> (string \<Rightarrow> string \<Rightarrow> string \<Rightarrow> 's \<Rightarrow> 's) \<Rightarrow> (string \<times> (string \<times> string) list) list \<Rightarrow> bool" where
  "ini_config_ok a f cfg \<longleftrightarrow> (\<forall>(g, kvs) \<in> set cfg. g \<noteq> [] \<and> CHR 0x0A \<notin> set g \<and> (\<exists>grp. a g = Some grp \<and>
     (\<forall>(k, v) \<in> set kvs. key_ok k \<and> grp k = Some (\<lambda>li s. (None, f (il_group li) (il_key li) (il_value li) s)))))"

definition run_config :: "(string \<Rightarrow> string \<Rightarrow> string \<Rightarrow> 's \<Rightarrow> 's) \<Rightarrow> (string \<times> (string \<times> string) list) list \<Rightarrow> 's \<Rightarrow> 's" where
  "run_config f cfg = fold (\<lambda>(g, kvs). fold (\<lambda>(k, v). f g k v) kvs) cfg"

definition same_report :: "'s ini_state \<Rightarrow> 's ini_state \<Rightarrow> bool" where
  "same_report st st' \<longleftrightarrow> is_actions st' = is_actions st \<and> il_error (is_line st') = il_error (is_line st) \<and> is_cerr st' = is_cerr st"

lemma properties_run:
  assumes "\<forall>(k, v) \<in> set kvs. key_ok k \<and> grp k = Some (\<lambda>li s. (None, f (il_group li) (il_key li) (il_value li) s))"
    and "is_known st" "il_group (is_line st) = g" "g \<noteq> []" "is_actions st g = Some grp"
  shows "same_report st (fold ini_step (map property_text kvs) st)
    \<and> is_app (fold ini_step (map property_text kvs) st) = fold (\<lambda>(k, v). f g k v) kvs (is_app st)"
  using assms
proof (induction kvs arbitrary: st)
  case (Cons kv kvs)
  obtain k v where kv: "kv = (k, v)" by (cases kv)
  let ?st = "st\<lparr>is_line := (is_line st)\<lparr>il_lineno := il_lineno (is_line st) + 1,
    il_key := k, il_value := v, il_rawvalue := ini_escape v\<rparr>, is_app := f g k v (is_app st)\<rparr>"
  have "ini_step (property_text (k, v)) st = ?st"
    using Cons.prems by (intro property_step [where grp = grp]) (auto simp: kv)
  with Cons.IH [of ?st] Cons.prems show ?case by (simp add: kv same_report_def)
qed (simp add: same_report_def)

lemma config_run:
  assumes "ini_config_ok (is_actions st) f cfg"
  shows "same_report st (fold ini_step (config_lines cfg) st) \<and> is_app (fold ini_step (config_lines cfg) st) = run_config f cfg (is_app st)"
  using assms
proof (induction cfg arbitrary: st)
  case (Cons c cfg)
  obtain g kvs where c: "c = (g, kvs)" by (cases c)
  obtain grp where grp: "g \<noteq> []" "is_actions st g = Some grp"
    "\<forall>(k, v) \<in> set kvs. key_ok k \<and> grp k = Some (\<lambda>li s. (None, f (il_group li) (il_key li) (il_value li) s))"
    using Cons.prems by (auto simp: ini_config_ok_def c)
  let ?s1 = "st\<lparr>is_line := (is_line st)\<lparr>il_lineno := il_lineno (is_line st) + 1, il_group := g\<rparr>, is_known := True\<rparr>"
  let ?s2 = "fold ini_step (map property_text kvs) ?s1"
  have s1: "ini_step (group_text g) st = ?s1" using grp by (intro group_step) auto
  have s2: "same_report ?s1 ?s2" "is_app ?s2 = fold (\<lambda>(k, v). f g k v) kvs (is_app st)"
    using properties_run [OF grp(3), of ?s1 g] grp by simp_all
  have "ini_config_ok (is_actions ?s2) f cfg" using Cons.prems s2(1) by (simp add: ini_config_ok_def same_report_def)
  from Cons.IH [OF this] s1 s2 show ?case by (simp add: config_lines_def c run_config_def same_report_def)
qed (simp add: config_lines_def run_config_def same_report_def)


text \<open>Reading a configuration file gives back what was written: when every group and key of the file has
  a callback that accepts its value, the parser reports nothing, returns true, and has called the
  callbacks in the order of the file with the names and the values as they were before they were
  escaped.\<close>

theorem ini_roundtrip:
  assumes "ini_config_ok a f cfg"
  shows "\<exists>st. ini_parse a s (Some (ini_text cfg)) = (True, st) \<and> is_app st = run_config f cfg s \<and> is_cerr st = []"
proof -
  have p: "CHR 0x0A \<notin> set (property_text (k, v))" if "key_ok k" for k v
  proof -
    have "is_space (CHR 0x0A)" by (simp add: is_space_def)
    then have "CHR 0x0A \<notin> set k" using that unfolding key_ok_def by blast
    then show ?thesis using escape_no_newline [of v] by (simp add: property_text_def)
  qed
  have "\<forall>l \<in> set (config_lines cfg). CHR 0x0A \<notin> set l"
  proof
    fix l
    assume "l \<in> set (config_lines cfg)"
    then obtain g kvs where g: "(g, kvs) \<in> set cfg" "l = group_text g \<or> (\<exists>k v. (k, v) \<in> set kvs \<and> l = property_text (k, v))"
      by (auto simp: config_lines_def)
    then have "CHR 0x0A \<notin> set g" "(k, v) \<in> set kvs \<Longrightarrow> key_ok k" for k v using assms by (auto simp: ini_config_ok_def)
    with g(2) p show "CHR 0x0A \<notin> set l" by (auto simp: group_text_def)
  qed
  then have l: "ini_lines [] (ini_text cfg) = config_lines cfg" by (simp add: ini_text_def ini_lines_text)
  let ?st = "\<lparr>is_actions = a, is_line = \<lparr>il_lineno = 0, il_group = [], il_key = [], il_value = [], il_rawvalue = [], il_error = False\<rparr>,
    is_known = False, is_app = s, is_cerr = []\<rparr>"
  show ?thesis using config_run [of ?st f cfg] assms
    by (simp add: ini_parse_def ini_runparse_def l same_report_def)
qed

definition sample_config :: "(string \<times> (string \<times> string) list) list" where
  "sample_config = [(''group1'', [(''foo'', ''some string'')]), (''group2'', [(''bar'', ''   text'')])]"

definition record_value :: "(string \<times> string \<times> string) list cb_t" where
  "record_value = (\<lambda>li s. (None, s @ [(il_group li, il_key li, il_value li)]))"

definition sample_actions :: "(string \<times> string \<times> string) list IniActions" where
  "sample_actions = [''group1'' \<mapsto> [''foo'' \<mapsto> record_value], ''group2'' \<mapsto> [''bar'' \<mapsto> record_value]]"

theorem ini_roundtrip_witness:
  "\<exists>st. ini_parse sample_actions [] (Some (ini_text sample_config)) = (True, st)
    \<and> is_app st = [(''group1'', ''foo'', ''some string''), (''group2'', ''bar'', ''   text'')] \<and> is_cerr st = []"
proof -
  have "ini_config_ok sample_actions (\<lambda>g k v s. s @ [(g, k, v)]) sample_config"
    by (simp add: ini_config_ok_def sample_actions_def sample_config_def record_value_def key_ok_def is_space_def)
  from ini_roundtrip [OF this, of "[]"] show ?thesis by (simp add: run_config_def sample_config_def)
qed

text \<open>A last line without a line end is not read: the parser returns true and has ignored it.\<close>

theorem last_line_ignored:
  assumes "CHR 0x0A \<notin> set l"
  shows "ini_runparse st (concat (map (\<lambda>l. l @ [CHR 0x0A]) ls) @ l) = ini_runparse st (concat (map (\<lambda>l. l @ [CHR 0x0A]) ls))"
proof -
  have last: "ini_lines acc l = []" for acc using assms by (induction l arbitrary: acc) auto
  have "ini_lines acc (t @ [CHR 0x0A] @ l) = ini_lines acc (t @ [CHR 0x0A])" for acc t
    by (induction t arbitrary: acc) (auto simp: last)
  from this [of "[]"] have "ini_lines [] (concat (map (\<lambda>l. l @ [CHR 0x0A]) ls) @ l) = ini_lines [] (concat (map (\<lambda>l. l @ [CHR 0x0A]) ls))"
    by (cases ls rule: rev_cases) (simp_all add: last, metis append.assoc append_Cons append_Nil)
  then show ?thesis by (simp add: ini_runparse_def)
qed

theorem last_line_ignored_witness:
  "ini_runparse st (concat (map (\<lambda>l. l @ [CHR 0x0A]) [''[g]'']) @ ''key = value'') = ini_runparse st (concat (map (\<lambda>l. l @ [CHR 0x0A]) [''[g]'']))"
  by (rule last_line_ignored) simp

text \<open>A file that cannot be opened is a success without any property.\<close>

theorem missing_file_succeeds: "fst (ini_parse a s None) \<and> is_app (snd (ini_parse a s None)) = s"
  by (simp add: ini_parse_def ini_runparse_def Let_def)

end
