(* ===== verification/Xdrc.thy ===== *)
theory Xdrc
  imports Decimal
begin

text \<open>
  The back end of the XDR compiler: \<open>xdrc/xdrc_internal.h\<close> (syntax trees and the indenter),
  \<open>gen_hh.cc\<close> and \<open>gen_server.cc\<close> (what is generated), and the file names of \<open>xdrc.cc\<close>. The
  generators produce the sequence of what they write to the stream; \<open>play\<close> is the effect of the
  stream and of the level of the indenter, with failed assertions as \<open>None\<close>.
\<close>

section \<open>Streams with an indenter\<close>

text \<open>
  \<open>Txt s\<close> is \<open>os << s\<close>; \<open>NL\<close>, \<open>Open\<close>, \<open>Close\<close>, \<open>Outdent\<close> are \<open>os << nl\<close>, \<open>nl.open\<close>, \<open>nl.close\<close>,
  \<open>nl.outdent\<close>; \<open>Inc\<close> and \<open>Dec\<close> are \<open>++nl\<close> and \<open>--nl\<close>; \<open>Endl\<close> is \<open>os << endl\<close>; \<open>Fail\<close> is an assertion
  that does not hold.
\<close>

datatype item = Txt string | NL | Open | Close | Outdent | Inc | Dec | Endl | Fail

definition line_start :: "int \<Rightarrow> string" where
  "line_start n = CHR 0x0A # replicate (nat n) (CHR '' '')"

fun play :: "int \<Rightarrow> item list \<Rightarrow> (string \<times> int) option" where
  "play n [] = Some ([], n)"
| "play n (Txt s # is) = map_option (\<lambda>(t, m). (s @ t, m)) (play n is)"
| "play n (NL # is) = map_option (\<lambda>(t, m). (line_start n @ t, m)) (play n is)"
| "play n (Open # is) = map_option (\<lambda>(t, m). (line_start (n + 2) @ t, m)) (play (n + 2) is)"
| "play n (Close # is) = (if n - 2 < 0 then None else map_option (\<lambda>(t, m). (line_start (n - 2) @ t, m)) (play (n - 2) is))"
| "play n (Outdent # is) = map_option (\<lambda>(t, m). (line_start (if 2 < n then n - 2 else 0) @ t, m)) (play n is)"
| "play n (Inc # is) = play (n + 2) is"
| "play n (Dec # is) = (if n - 2 < 0 then None else play (n - 2) is)"
| "play n (Endl # is) = map_option (\<lambda>(t, m). (CHR 0x0A # t, m)) (play n is)"
| "play n (Fail # is) = None"

section \<open>Syntax trees\<close>

datatype rpc_qual = SCALAR | PTR | ARRAY | VEC

record rpc_const =
  rc_id :: string
  rc_val :: string

record rpc_enum =
  re_id :: string
  re_tags :: "rpc_const list"

datatype rpc_decl = Decl (rd_id: string) (rd_qual: rpc_qual) (rd_bound: string) (rd_type: string) (rd_ts: ts_spec)
and ts_spec = TS_ID | TS_ENUM rpc_enum | TS_STRUCT rpc_struct | TS_UNION rpc_union
and rpc_struct = Struct (rs_id: string) (rs_decls: "rpc_decl list")
and rpc_ufield = Ufield (uf_cases: "string list") (uf_decl: rpc_decl) (uf_hasdefault: bool) (uf_fieldno: int)
and rpc_union = Union (ru_id: string) (ru_tagtype: string) (ru_tagid: string) (ru_fields: "rpc_ufield list") (ru_hasdefault: bool)

record rpc_proc =
  rp_id :: string
  rp_val :: u32
  rp_arg :: string
  rp_res :: string

record rpc_vers =
  rv_id :: string
  rv_val :: u32
  rv_procs :: "rpc_proc list"

record rpc_program =
  pg_id :: string
  pg_val :: u32
  pg_vers :: "rpc_vers list"

datatype rpc_sym =
    S_CONST rpc_const
  | S_STRUCT rpc_struct
  | S_UNION rpc_union
  | S_ENUM rpc_enum
  | S_TYPEDEF rpc_decl
  | S_PROGRAM rpc_program
  | S_LITERAL string
  | S_NAMESPACE string
  | S_CLOSEBRACE

section \<open>Names\<close>

abbreviation dq :: string where
  "dq \<equiv> [CHR 0x22]"

definition map_type :: "string \<Rightarrow> string" where
  "map_type s =
     (if s = ''unsigned'' then ''std::uint32_t''
      else if s = ''int'' then ''std::int32_t''
      else if s = ''unsigned hyper'' then ''std::uint64_t''
      else if s = ''hyper'' then ''std::int64_t''
      else if s = ''opaque'' then ''std::uint8_t''
      else s)"

definition map_tag :: "string \<Rightarrow> item" where
  "map_tag s =
     (if s = [] then Fail
      else if s = ''TRUE'' then Txt ''true''
      else if s = ''FALSE'' then Txt ''false''
      else if hd s = CHR ''-'' then Txt (''std::uint32_t('' @ s @ '')'')
      else Txt s)"

definition map_case :: "string \<Rightarrow> item list" where
  "map_case s = (if s = [] then [Txt ''default:''] else [Txt ''case '', map_tag s, Txt '':''])"

definition cur_ns :: "string list \<Rightarrow> string" where
  "cur_ns namespaces = (let out = concat (map (\<lambda>ns. ''::'' @ ns) namespaces) in if out = [] then ''::'' else out)"

definition cur_scope :: "string list \<Rightarrow> string list \<Rightarrow> string" where
  "cur_scope namespaces scope =
     (if namespaces = [] then [] else cur_ns namespaces) @ (if scope = [] then [] else ''::'' @ last scope)"

definition push_scope :: "string \<Rightarrow> string list \<Rightarrow> string list" where
  "push_scope name scope = scope @ [if scope = [] then name else last scope @ ''::'' @ name]"

definition id_space :: "string \<Rightarrow> string" where
  "id_space s = (if s = [] then s else s @ '' '')"

definition decl_type :: "rpc_decl \<Rightarrow> item" where
  "decl_type d =
     (let type = map_type (rd_type d); bound = rd_bound d in
      if type = ''string'' then Txt (''xdr::xstring<'' @ bound @ ''>'')
      else if rd_type d = ''opaque'' then
        (case rd_qual d of
           ARRAY \<Rightarrow> Txt (''xdr::opaque_array<'' @ bound @ ''>'')
         | VEC \<Rightarrow> Txt (''xdr::opaque_vec<'' @ bound @ ''>'')
         | _ \<Rightarrow> Fail)
      else (case rd_qual d of
           PTR \<Rightarrow> Txt (''xdr::pointer<'' @ type @ ''>'')
         | ARRAY \<Rightarrow> Txt (''xdr::xarray<'' @ type @ '','' @ bound @ ''>'')
         | VEC \<Rightarrow> Txt (''xdr::xvector<'' @ type @ (if bound = [] then ''>'' else '','' @ bound @ ''>''))
         | SCALAR \<Rightarrow> Txt type))"

section \<open>Enumerations\<close>

definition gen_enum :: "rpc_enum \<Rightarrow> item list" where
  "gen_enum e =
     [Txt ''enum '', Txt (id_space (re_id e)), Txt '': std::uint32_t {'', Inc]
     @ concat (map (\<lambda>c. if rc_val c = [] then [NL, Txt (rc_id c), Txt '','']
                        else [NL, Txt (rc_id c), Txt '' = '', Txt (rc_val c), Txt '','']) (re_tags e))
     @ [Close, Txt ''}'']"

definition top_enum :: "string list \<Rightarrow> string list \<Rightarrow> rpc_enum \<Rightarrow> item list" where
  "top_enum ns sc e =
     (let myscope = cur_scope ns sc;
          myscope = (if myscope \<noteq> ''::'' then myscope @ ''::'' else myscope);
          qt = myscope @ re_id e
      in [Txt ''template<> struct xdr_traits<'', Txt qt, Txt ''>'', Endl,
          Txt ''  : xdr_integral_base<'', Txt qt, Txt '', std::uint32_t> {'', Endl,
          Txt ''  static constexpr bool is_enum = true;'', Endl,
          Txt ''  static constexpr bool is_numeric = false;'', Endl,
          Txt ''  static const char *enum_name('', Txt qt, Txt '' val) {'', Endl,
          Txt ''    switch (val) {'', Endl]
         @ concat (map (\<lambda>c. [Txt ''    case '', Txt (myscope @ rc_id c), Txt '':'', Endl,
                             Txt (''      return '' @ dq), Txt (rc_id c), Txt (dq @ '';''), Endl]) (re_tags e))
         @ [Txt ''    default:'', Endl, Txt ''      return nullptr;'', Endl, Txt ''    }'', Endl, Txt ''  }'', Endl, Txt ''};'', Endl])"

section \<open>Structures\<close>

definition top_field :: "string \<Rightarrow> rpc_decl \<Rightarrow> item list" where
  "top_field cs d =
     [Txt ''field_ptr<'', Txt cs, Txt '','', Endl,
      Txt ''                              decltype('', Txt cs, Txt ''::'', Txt (rd_id d), Txt ''),'', Endl,
      Txt ''                              &'', Txt cs, Txt ''::'', Txt (rd_id d), Txt ''>'']"

fun top_fields :: "string \<Rightarrow> bool \<Rightarrow> rpc_decl list \<Rightarrow> item list" where
  "top_fields cs first [] = []"
| "top_fields cs first (d # ds) =
     (if first then [] else [Txt '','', Endl, Txt ''                    '']) @ top_field cs d @ top_fields cs False ds"

definition top_archive :: "rpc_decl list \<Rightarrow> item list" where
  "top_archive ds =
     concat (map (\<lambda>d. [Txt ''    archive(ar, obj.'', Txt (rd_id d), Txt ('', '' @ dq), Txt (rd_id d), Txt (dq @ '');''), Endl]) ds)
     @ [Txt ''  }'', Endl]"

definition top_struct :: "string \<Rightarrow> rpc_decl list \<Rightarrow> item list" where
  "top_struct cs ds =
     [Txt ''template<> struct xdr_traits<'', Txt cs, Txt ''>'', Endl, Txt ''  : xdr_struct_base<'']
     @ top_fields cs True ds
     @ [Txt ''> {'', Endl]
     @ [Txt ''  template<typename Archive> static void'', Endl, Txt ''  save(Archive &ar, const '', Txt cs, Txt '' &obj) {'', Endl]
     @ top_archive ds
     @ [Txt ''  template<typename Archive> static void'', Endl, Txt ''  load(Archive &ar, '', Txt cs, Txt '' &obj) {'', Endl]
     @ top_archive ds
     @ [Txt ''};'', Endl]"

section \<open>Unions\<close>

definition pswitch :: "string \<Rightarrow> string \<Rightarrow> string" where
  "pswitch tagtype tag =
     ''switch ('' @ (if tagtype = ''bool'' then ''std::uint32_t{'' @ tag @ ''}'' else tag) @ '') {''"

definition ufbol :: "bool \<Rightarrow> item list" where
  "ufbol first = (if first then [NL, Txt ''return ''] else [NL, Txt ''  : ''])"

definition uf_condition :: "string \<Rightarrow> string list \<Rightarrow> item list" where
  "uf_condition tagcmp cases = (case cases of
     [] \<Rightarrow> [Fail]
   | c # cs \<Rightarrow> [Txt tagcmp, map_tag c] @ concat (map (\<lambda>c. [Txt '' || '', Txt tagcmp, map_tag c]) cs))"

fun uf_loop :: "string \<Rightarrow> (rpc_ufield option \<Rightarrow> string) \<Rightarrow> bool \<Rightarrow> rpc_ufield option \<Rightarrow> rpc_ufield list \<Rightarrow> item list" where
  "uf_loop tagcmp cb first def [] = ufbol first @ [Txt (cb def), Txt '';'']"
| "uf_loop tagcmp cb first def (f # fs) =
     (if uf_hasdefault f then uf_loop tagcmp cb first (Some f) fs
      else ufbol first @ uf_condition tagcmp (uf_cases f) @ [Txt '' ? '', Txt (cb (Some f))]
           @ uf_loop tagcmp cb False def fs)"

definition union_function :: "rpc_union \<Rightarrow> string \<Rightarrow> (rpc_ufield option \<Rightarrow> string) \<Rightarrow> item list" where
  "union_function u tagcmp cb =
     (let tagcmp = (if tagcmp = [] then ru_tagid u @ ''_ == '' else tagcmp @ '' == '')
      in [Inc] @ uf_loop tagcmp cb True None (ru_fields u) @ [Dec])"

text \<open>\<open>std::to_string\<close> of an \<open>int\<close>\<close>

definition int_string :: "int \<Rightarrow> string" where
  "int_string i = (if i < 0 then ''-'' @ digits (nat (- i)) else digits (nat i))"

definition number_cb :: "rpc_ufield option \<Rightarrow> string" where
  "number_cb uf = (case uf of Some f \<Rightarrow> int_string (uf_fieldno f) | None \<Rightarrow> int_string (-1))"

definition name_cb :: "rpc_ufield option \<Rightarrow> string" where
  "name_cb uf = (case uf of
     Some f \<Rightarrow> if rd_type (uf_decl f) \<noteq> ''void'' then dq @ rd_id (uf_decl f) @ dq else ''nullptr''
   | None \<Rightarrow> ''nullptr'')"

definition u_is_void :: "rpc_ufield \<Rightarrow> bool" where
  "u_is_void f \<longleftrightarrow> rd_type (uf_decl f) = ''void''"

definition union_members :: "rpc_union \<Rightarrow> item list" where
  "union_members u =
     [Outdent, Txt ''private:'', NL, Txt ''std::uint32_t '', Txt (ru_tagid u), Txt ''_;'', NL, Txt ''union {'', Inc]
     @ concat (map (\<lambda>f. if u_is_void f then [] else [NL, decl_type (uf_decl f), Txt '' '', Txt (rd_id (uf_decl f)), Txt ''_;'']) (ru_fields u))
     @ [Close, Txt ''};'', Endl, Outdent, Txt ''public:'',
        NL, Txt ''static_assert (sizeof ('', Txt (ru_tagtype u), Txt ('') <= 4, '' @ dq @ ''union discriminant must be 4 bytes'' @ dq @ '');''), Endl]"

definition union_field_number :: "rpc_union \<Rightarrow> item list" where
  "union_field_number u =
     [NL, Txt ''static constexpr int _xdr_field_number(std::uint32_t which) {'']
     @ union_function u ''which'' number_cb @ [NL, Txt ''}'']"

definition mem_ptr_case :: "string \<Rightarrow> rpc_ufield \<Rightarrow> item list" where
  "mem_ptr_case uid f =
     concat (map (\<lambda>c. NL # map_case c) (uf_cases f))
     @ (if u_is_void f then [NL, Txt ''  return true;'']
        else [NL, Txt ''  _f(&'', Txt uid, Txt ''::'', Txt (rd_id (uf_decl f)), Txt ''_, std::forward<A>(a)...);'', NL, Txt ''  return true;''])"

definition union_with_mem_ptr :: "rpc_union \<Rightarrow> item list" where
  "union_with_mem_ptr u =
     [NL, Txt ''template<typename _F, typename...A> static bool'',
      NL, Txt ''_xdr_with_mem_ptr(_F &_f, std::uint32_t which, A&&...a) {'',
      Open, Txt (pswitch (ru_tagtype u) ''which'')]
     @ concat (map (mem_ptr_case (ru_id u)) (ru_fields u))
     @ [NL, Txt ''}''] @ (if ru_hasdefault u then [] else [NL, Txt ''return false;'']) @ [Close, Txt ''}'', Endl]"

definition union_discriminant :: "rpc_union \<Rightarrow> item list" where
  "union_discriminant u =
     [NL, Txt ''std::uint32_t _xdr_discriminant() const { return '', Txt (ru_tagid u), Txt ''_; }'',
      NL, Txt ''void _xdr_discriminant(std::uint32_t which,'', Txt '' bool validate = true) {'',
      Open, Txt ''int fnum = _xdr_field_number(which);'',
      NL, Txt ''if (fnum < 0 && validate)'',
      NL, Txt (''  throw xdr::xdr_bad_discriminant('' @ dq @ ''bad value of ''), Txt (ru_tagid u), Txt '' in '', Txt (ru_id u), Txt (dq @ '');''),
      NL, Txt ''if (fnum != _xdr_field_number('', Txt (ru_tagid u), Txt ''_)) {'',
      Open, Txt ''this->~'', Txt (ru_id u), Txt ''();'',
      NL, Txt (ru_tagid u), Txt ''_ = which;'',
      NL, Txt ''_xdr_with_mem_ptr(xdr::field_constructor, '', Txt (ru_tagid u), Txt ''_, *this);'',
      Close, Txt ''}'', Close, Txt ''}'']"

definition union_constructors :: "rpc_union \<Rightarrow> item list" where
  "union_constructors u =
     (let nm = Txt (ru_id u); tag = Txt (ru_tagid u); ty = Txt (map_type (ru_tagtype u)) in
      [NL, nm, Txt ''('', ty, Txt '' which = '', ty, Txt ''{}) : '', tag, Txt ''_(which) {'',
       Open, Txt ''_xdr_with_mem_ptr(xdr::field_constructor, '', tag, Txt ''_, *this);'', Close, Txt ''}'',
       NL, nm, Txt ''(const '', nm, Txt '' &source) : '', tag, Txt ''_(source.'', tag, Txt ''_) {'',
       Open, Txt ''_xdr_with_mem_ptr(xdr::field_constructor, '', tag, Txt ''_, *this, source);'', Close, Txt ''}'',
       NL, nm, Txt ''('', nm, Txt '' &&source) : '', tag, Txt ''_(source.'', tag, Txt ''_) {'',
       Open, Txt ''_xdr_with_mem_ptr(xdr::field_constructor, '', tag, Txt ''_, *this,'',
       NL, Txt ''                  std::move(source));'', Close, Txt ''}'',
       NL, Txt ''~'', nm, Txt ''() { _xdr_with_mem_ptr(xdr::field_destructor, '', tag, Txt ''_, *this); }''])"

definition union_assignments :: "rpc_union \<Rightarrow> item list" where
  "union_assignments u =
     (let nm = Txt (ru_id u); tag = Txt (ru_tagid u) in
      [NL, nm, Txt '' &operator=(const '', nm, Txt '' &source) {'',
       Open, Txt ''if (_xdr_field_number('', tag, Txt ''_) '',
       NL, Txt ''    == _xdr_field_number(source.'', tag, Txt ''_))'',
       NL, Txt ''  _xdr_with_mem_ptr(xdr::field_assigner, '', tag, Txt ''_, *this, source);'',
       NL, Txt ''else {'',
       Open, Txt ''this->~'', nm, Txt ''();'',
       NL, tag, Txt ''_ = std::uint32_t(-1);'',
       NL, Txt ''_xdr_with_mem_ptr(xdr::field_constructor, '', tag, Txt ''_, *this, source);'',
       Close, Txt ''}'',
       NL, tag, Txt ''_ = source.'', tag, Txt ''_;'',
       NL, Txt ''return *this;'', Close, Txt ''}'',
       NL, nm, Txt '' &operator=('', nm, Txt '' &&source) {'',
       Open, Txt ''if (_xdr_field_number('', tag, Txt ''_)'',
       NL, Txt ''     == _xdr_field_number(source.'', tag, Txt ''_))'',
       NL, Txt ''  _xdr_with_mem_ptr(xdr::field_assigner, '', tag, Txt ''_, *this,'',
       NL, Txt ''                    std::move(source));'',
       NL, Txt ''else {'',
       Open, Txt ''this->~'', nm, Txt ''();'',
       NL, tag, Txt ''_ = std::uint32_t(-1);'',
       NL, Txt ''_xdr_with_mem_ptr(xdr::field_constructor, '', tag, Txt ''_, *this,'',
       NL, Txt ''                  std::move(source));'',
       Close, Txt ''}'',
       NL, tag, Txt ''_ = source.'', tag, Txt ''_;'',
       NL, Txt ''return *this;'', Close, Txt ''}'', Endl])"

definition union_tag_access :: "rpc_union \<Rightarrow> item list" where
  "union_tag_access u =
     (let nm = Txt (ru_id u); tag = Txt (ru_tagid u); ty = Txt (map_type (ru_tagtype u)) in
      [NL, ty, Txt '' '', tag, Txt ''() const { return '', ty, Txt ''('', tag, Txt ''_); }'',
       NL, nm, Txt '' &'', tag, Txt ''('', Txt (ru_tagtype u), Txt '' _xdr_d, bool _xdr_validate = true) {'',
       Open, Txt ''_xdr_discriminant(_xdr_d, _xdr_validate);'', NL, Txt ''return *this;'', Close, Txt ''}'', Endl])"

definition field_access :: "rpc_union \<Rightarrow> rpc_ufield \<Rightarrow> string \<Rightarrow> item list" where
  "field_access u f cnst =
     [NL, Txt cnst, decl_type (uf_decl f), Txt '' &'', Txt (rd_id (uf_decl f)), Txt ''() '', Txt cnst, Txt ''{'',
      Open, Txt ''if (_xdr_field_number('', Txt (ru_tagid u), Txt ''_) == '', Txt (int_string (uf_fieldno f)), Txt '')'',
      NL, Txt ''  return '', Txt (rd_id (uf_decl f)), Txt ''_;'',
      NL, Txt (''throw xdr::xdr_wrong_union('' @ dq), Txt (ru_id u), Txt '': '', Txt (rd_id (uf_decl f)), Txt ('' accessed when not selected'' @ dq @ '');''),
      Close, Txt ''}'']"

definition union_field_access :: "rpc_union \<Rightarrow> item list" where
  "union_field_access u =
     concat (map (\<lambda>f. if u_is_void f then [] else field_access u f [] @ field_access u f ''const '') (ru_fields u))"

definition top_union :: "string \<Rightarrow> rpc_union \<Rightarrow> item list" where
  "top_union cs u =
     (let cs = Txt cs; tag = Txt (ru_tagid u);
          bad = [Txt (''      throw xdr_bad_discriminant('' @ dq @ ''bad value of ''), tag, Txt '' in '', Txt (ru_id u), Txt (dq @ '');''), Endl]
      in [Txt ''template<> struct xdr_traits<'', cs, Txt ''> : xdr_traits_base {'', Endl,
          Txt ''  static constexpr bool is_class = true;'', Endl,
          Txt ''  static constexpr bool is_union = true;'', Endl,
          Txt ''  static constexpr bool has_fixed_size = false;'', Endl, Endl,
          Txt ''  using union_type = '', cs, Txt '';'', Endl,
          Txt ''  using discriminant_type = decltype(std::declval<union_type>().'', tag, Txt ''());'', Endl, Endl,
          Txt ''  static constexpr const char *union_field_name(std::uint32_t which) {'']
         @ union_function u ''which'' name_cb
         @ [Endl, Txt ''  }'', Endl,
            Txt ''  static const char *union_field_name(const union_type &u) {'', Endl,
            Txt ''    return union_field_name(u._xdr_discriminant());'', Endl,
            Txt ''  }'', Endl, Endl,
            Txt ''  static std::size_t serial_size(const '', cs, Txt '' &obj) {'', Endl,
            Txt ''    std::size_t size = 0;'', Endl,
            Txt ''    if (!obj._xdr_with_mem_ptr(field_size, obj._xdr_discriminant(),'', Txt '' obj, size))'', Endl]
         @ bad
         @ [Txt ''    return size + 4;'', Endl, Txt ''  }'', Endl,
            Txt ''  template<typename Archive> static void'', Endl,
            Txt ''  save(Archive &ar, const '', cs, Txt '' &obj) {'', Endl,
            Txt ''    xdr::archive(ar, obj.'', tag, Txt (''(), '' @ dq), tag, Txt (dq @ '');''), Endl,
            Txt ''    if (!obj._xdr_with_mem_ptr(field_archiver, obj.'', tag, Txt ''(), ar, obj,'', Endl,
            Txt ''                               union_field_name(obj)))'', Endl]
         @ bad
         @ [Txt ''  }'', Endl,
            Txt ''  template<typename Archive> static void'', Endl,
            Txt ''  load(Archive &ar, '', cs, Txt '' &obj) {'', Endl,
            Txt ''    discriminant_type which;'', Endl,
            Txt (''    xdr::archive(ar, which, '' @ dq), tag, Txt (dq @ '');''), Endl,
            Txt ''    obj.'', tag, Txt ''(which);'', Endl,
            Txt ''    obj._xdr_with_mem_ptr(field_archiver, obj.'', tag, Txt ''(), ar, obj,'', Endl,
            Txt ''                          union_field_name(which));'', Endl,
            Txt ''  }'', Endl, Txt ''};'', Endl])"

section \<open>Declarations within declarations\<close>

text \<open>
  The generators of structures and unions write to the stream and to \<open>top_material\<close>; the result is
  the pair of the two. The level of the indenter is set to 2 while \<open>union_function\<close> writes to
  \<open>top_material\<close>, and nothing else that is written there uses it.
\<close>

definition is_embedded :: "rpc_decl \<Rightarrow> bool" where
  "is_embedded d \<longleftrightarrow> rd_ts d \<noteq> TS_ID"

fun gen_struct :: "string list \<Rightarrow> string list \<Rightarrow> rpc_struct \<Rightarrow> item list \<times> item list"
and gen_union :: "string list \<Rightarrow> string list \<Rightarrow> rpc_union \<Rightarrow> item list \<times> item list"
and gen_embedded :: "string list \<Rightarrow> string list \<Rightarrow> rpc_decl \<Rightarrow> item list \<times> item list"
and gen_embedded_decls :: "string list \<Rightarrow> string list \<Rightarrow> rpc_decl list \<Rightarrow> item list \<times> item list"
and gen_embedded_fields :: "string list \<Rightarrow> string list \<Rightarrow> rpc_ufield list \<Rightarrow> item list \<times> item list" where
  "gen_struct ns sc (Struct nm ds) =
     (let sc = push_scope nm sc; (eos, etop) = gen_embedded_decls ns sc ds in
      ([Txt ''struct '', Txt (id_space nm), Txt ''{'', Inc] @ eos
        @ (if list_ex is_embedded ds then [Endl] else [])
        @ concat (map (\<lambda>d. [NL, decl_type d, Txt '' '', Txt (rd_id d), Txt ''{};'']) ds)
        @ [Close, Txt ''}''],
       etop @ top_struct (cur_scope ns sc) ds))"
| "gen_union ns sc (Union nm tagtype tagid fs hasdefault) =
     (let sc = push_scope nm sc; u = Union nm tagtype tagid fs hasdefault; (eos, etop) = gen_embedded_fields ns sc fs in
      ([Txt ''struct '', Txt nm, Txt '' {'', Inc] @ eos
        @ (if list_ex (\<lambda>f. is_embedded (uf_decl f)) fs then [Endl] else [])
        @ union_members u @ union_field_number u @ union_with_mem_ptr u @ union_discriminant u
        @ union_constructors u @ union_assignments u @ union_tag_access u @ union_field_access u
        @ [Close, Txt ''}''],
       etop @ top_union (cur_scope ns sc) u))"
| "gen_embedded ns sc (Decl nm q b t TS_ID) = ([], [])"
| "gen_embedded ns sc (Decl nm q b t (TS_ENUM e)) = ([NL] @ gen_enum e @ [Txt '';''], top_enum ns sc e)"
| "gen_embedded ns sc (Decl nm q b t (TS_STRUCT s)) =
     (let (eos, etop) = gen_struct ns sc s in ([NL] @ eos @ [Txt '';''], etop))"
| "gen_embedded ns sc (Decl nm q b t (TS_UNION u)) =
     (let (eos, etop) = gen_union ns sc u in ([NL] @ eos @ [Txt '';''], etop))"
| "gen_embedded_decls ns sc [] = ([], [])"
| "gen_embedded_decls ns sc (d # ds) =
     (let (eos, etop) = gen_embedded ns sc d; (eos', etop') = gen_embedded_decls ns sc ds in (eos @ eos', etop @ etop'))"
| "gen_embedded_fields ns sc [] = ([], [])"
| "gen_embedded_fields ns sc (Ufield cs d df no # fs) =
     (let (eos, etop) = gen_embedded ns sc d; (eos', etop') = gen_embedded_fields ns sc fs in (eos @ eos', etop @ etop'))"


section \<open>Programs\<close>

definition u32_text :: "u32 \<Rightarrow> string" where
  "u32_text n = digits (unat n)"

definition wire_type :: "string \<Rightarrow> string" where
  "wire_type t = (if t = ''void'' then ''xdr::xdr_void'' else t)"

definition proc_struct :: "rpc_vers \<Rightarrow> rpc_proc \<Rightarrow> item list" where
  "proc_struct v p =
     (let call = ''c.'' @ rp_id p @ ''(std::forward<A>(a)...)'';
          call2 = ''c.'' @ rp_id p @ ''('' @ (if rp_arg p \<noteq> ''void'' then ''std::forward<DropIfVoid>(d), '' else []) @ ''std::forward<A>(a)...)''
      in [Endl,
          NL, Txt ''struct '', Txt (rp_id p), Txt ''_t {'',
          Open, Txt ''using interface_type = '', Txt (rv_id v), Txt '';'',
          NL, Txt ''static constexpr std::uint32_t proc = '', Txt (u32_text (rp_val p)), Txt '';'',
          NL, Txt (''static constexpr const char *proc_name = '' @ dq), Txt (rp_id p), Txt (dq @ '';''),
          NL, Txt ''using arg_type = '', Txt (rp_arg p), Txt '';'',
          NL, Txt ''using arg_wire_type = '', Txt (wire_type (rp_arg p)), Txt '';'',
          NL, Txt ''using res_type = '', Txt (rp_res p), Txt '';'',
          NL, Txt ''using res_wire_type = '', Txt (wire_type (rp_res p)), Txt '';'',
          NL,
          NL, Txt ''template<typename C, typename...A> static auto'',
          NL, Txt ''dispatch(C &&c, A &&...a) ->'',
          NL, Txt ''decltype('', Txt call, Txt '') {'',
          NL, Txt ''  return '', Txt call, Txt '';'',
          NL, Txt ''}'',
          NL,
          NL, Txt ''template<typename C, typename DropIfVoid, typename...A>'', Txt '' static auto'',
          NL, Txt ''dispatch_dropvoid(C &&c, DropIfVoid &&d, A &&...a) ->'',
          NL, Txt ''decltype('', Txt call2, Txt '') {'',
          NL, Txt ''  return '', Txt call2, Txt '';'',
          NL, Txt ''}'',
          Close, Txt ''};''])"

definition proc_dispatch :: "rpc_proc \<Rightarrow> item list" where
  "proc_dispatch p =
     [NL, Txt ''case '', Txt (u32_text (rp_val p)), Txt '':'',
      NL, Txt ''  t.template dispatch<'', Txt (rp_id p), Txt ''_t>(std::forward<A>(a)...);'',
      NL, Txt ''  return true;'']"

definition proc_client :: "rpc_proc \<Rightarrow> item list" where
  "proc_client p =
     (let invoke = ''this->_XDRBASE::template invoke<'' @ rp_id p @ ''_t>('' @ ''_xdr_args...)''
      in [Endl, NL, Txt ''template<typename..._XDRARGS> auto'',
          NL, Txt (rp_id p), Txt ''(_XDRARGS &&..._xdr_args) ->'',
          NL, Txt ''decltype('', Txt invoke, Txt '') {'',
          NL, Txt ''  return '', Txt invoke, Txt '';'',
          NL, Txt ''}''])"

definition gen_vers :: "rpc_program \<Rightarrow> rpc_vers \<Rightarrow> item list" where
  "gen_vers u v =
     [Txt ''struct '', Txt (rv_id v), Txt '' {'',
      Open, Txt ''static constexpr std::uint32_t program = '', Txt (u32_text (pg_val u)), Txt '';'',
      NL, Txt (''static constexpr const char *program_name = '' @ dq), Txt (pg_id u), Txt (dq @ '';''),
      NL, Txt ''static constexpr std::uint32_t version = '', Txt (u32_text (rv_val v)), Txt '';'',
      NL, Txt (''static constexpr const char *version_name = '' @ dq), Txt (rv_id v), Txt (dq @ '';'')]
     @ concat (map (proc_struct v) (rv_procs v))
     @ [Endl,
        NL, Txt ''template<typename T, typename...A> static bool'',
        NL, Txt ''call_dispatch(T &&t, std::uint32_t proc, A &&...a) {'',
        Open, Txt ''switch(proc) {'']
     @ concat (map proc_dispatch (rv_procs v))
     @ [NL, Txt ''}'', NL, Txt ''return false;'', Close, Txt ''}'',
        Endl,
        NL, Txt ''template<typename _XDRBASE> struct client : _XDRBASE {'', Inc,
        NL, Txt ''using _XDRBASE::_XDRBASE;'']
     @ concat (map proc_client (rv_procs v))
     @ [Close, Txt ''};'', Close, Txt ''};'']"

fun gen_versions :: "rpc_program \<Rightarrow> bool \<Rightarrow> rpc_vers list \<Rightarrow> item list" where
  "gen_versions u first [] = []"
| "gen_versions u first (v # vs) = (if first then [] else [Endl, NL]) @ gen_vers u v @ gen_versions u False vs"

definition gen_program :: "rpc_program \<Rightarrow> item list" where
  "gen_program u = gen_versions u True (pg_vers u)"

section \<open>File names\<close>

definition is_alnum :: "char \<Rightarrow> bool" where
  "is_alnum c \<longleftrightarrow> (of_char c :: nat) \<in> {48..57} \<union> {65..90} \<union> {97..122}"

definition to_upper :: "char \<Rightarrow> char" where
  "to_upper c = (if (of_char c :: nat) \<in> {97..122} then char_of (of_char c - (32 :: nat)) else c)"

definition strip_directory :: "string \<Rightarrow> string" where
  "strip_directory s = (case str_find (CHR ''/'') (rev s) of None \<Rightarrow> s | Some i \<Rightarrow> drop (length s - i) s)"

definition strip_suffix :: "string \<Rightarrow> string \<Rightarrow> string" where
  "strip_suffix s suf =
     (let r = length s in
      if r < length suf then s
      else if drop (r - length suf) s = suf then take (r - length suf) s else s)"

definition guard_token :: "string \<Rightarrow> string \<Rightarrow> string \<Rightarrow> string" where
  "guard_token input_file output_file extra =
     (let name = (if output_file \<noteq> [] \<and> output_file \<noteq> ''-'' then output_file
                  else strip_directory (strip_suffix input_file ''.x'') @ extra @ ''.hh'')
      in ''__XDR_'' @ map (\<lambda>c. if is_alnum c then to_upper c else CHR ''_'') name @ ''_INCLUDED__'')"

section \<open>Headers\<close>

text \<open>The number of a kind of symbol; \<open>-1\<close> is no kind.\<close>

fun symtype :: "rpc_sym \<Rightarrow> int" where
  "symtype (S_CONST _) = 0" | "symtype (S_STRUCT _) = 1" | "symtype (S_UNION _) = 2" | "symtype (S_ENUM _) = 3"
| "symtype (S_TYPEDEF _) = 4" | "symtype (S_PROGRAM _) = 5" | "symtype (S_LITERAL _) = 6" | "symtype (S_NAMESPACE _) = 7"
| "symtype S_CLOSEBRACE = 8"

text \<open>The first switch: symbols of one line that follow each other are not separated by an empty line.\<close>

definition blank_line :: "int \<Rightarrow> rpc_sym \<Rightarrow> item list" where
  "blank_line last_type s = (if symtype s \<in> {0, 4, 6, 7, 8} \<and> symtype s = last_type then [] else [Endl])"

text \<open>The second switch: what is written, what is left in \<open>top_material\<close>, and the namespaces.\<close>

fun gen_symbol :: "string list \<Rightarrow> rpc_sym \<Rightarrow> item list \<times> item list \<times> string list" where
  "gen_symbol ns (S_CONST c) = ([Txt ''constexpr std::uint32_t '', Txt (rc_id c), Txt '' = '', Txt (rc_val c), Txt '';''], [], ns)"
| "gen_symbol ns (S_STRUCT s) = (let (eos, tops) = gen_struct ns [] s in (eos @ [Txt '';''], tops, ns))"
| "gen_symbol ns (S_UNION u) = (let (eos, tops) = gen_union ns [] u in (eos @ [Txt '';''], tops, ns))"
| "gen_symbol ns (S_ENUM e) = (gen_enum e @ [Txt '';''], top_enum ns [] e, ns)"
| "gen_symbol ns (S_TYPEDEF d) = ([Txt ''using '', Txt (rd_id d), Txt '' = '', decl_type d, Txt '';''], [], ns)"
| "gen_symbol ns (S_PROGRAM p) = (gen_program p, [], ns)"
| "gen_symbol ns (S_LITERAL l) = ([Txt l], [], ns)"
| "gen_symbol ns (S_NAMESPACE n) = ([Txt ''namespace '', Txt n, Txt '' {''], [], ns @ [n])"
| "gen_symbol ns S_CLOSEBRACE = (if ns = [] then ([Fail], [], ns) else ([Txt ''}''], [], butlast ns))"

text \<open>What \<open>top_material\<close> holds is written between the namespaces of the symbol.\<close>

definition flush_top :: "string list \<Rightarrow> item list \<Rightarrow> item list" where
  "flush_top ns tops = (case play 2 tops of
     None \<Rightarrow> [Fail]
   | Some (t, _) \<Rightarrow>
       if t = [] then []
       else map (\<lambda>_. Txt ''} '') ns @ [Txt ''namespace xdr {'', NL, Txt t, Txt ''}'']
            @ concat (map (\<lambda>n. [Txt '' namespace '', Txt n, Txt '' {'']) ns) @ [NL])"

fun gen_symbols :: "string list \<Rightarrow> int \<Rightarrow> rpc_sym list \<Rightarrow> item list" where
  "gen_symbols ns last_type [] = []"
| "gen_symbols ns last_type (s # ss) =
     (let (eos, tops, ns') = gen_symbol ns s in
      blank_line last_type s @ eos @ [NL] @ flush_top ns' tops @ gen_symbols ns' (symtype s) ss)"

definition gen_hh :: "string \<Rightarrow> string \<Rightarrow> rpc_sym list \<Rightarrow> item list" where
  "gen_hh input_file output_file symlist =
     (let gtok = guard_token input_file output_file [] in
      [Txt ''// -*- C++ -*-'', NL, Txt ''// Automatically generated from '', Txt input_file, Txt ''.'', Endl,
       Txt ''// DO NOT EDIT or your changes may be overwritten'', Endl,
       NL, Txt ''#ifndef '', Txt gtok, NL, Txt ''#define '', Txt gtok, Txt '' 1'', Endl,
       NL, Txt ''#include <xdrpp/types.h>'', NL]
      @ gen_symbols [] (-1) symlist
      @ [NL, Txt ''#endif // !'', Txt gtok, NL])"

section \<open>Scaffolding for servers\<close>

definition server_arg :: "rpc_proc \<Rightarrow> string" where
  "server_arg p = (if rp_arg p = ''void'' then [] else ''std::unique_ptr<'' @ rp_arg p @ ''> arg'')"

definition server_res :: "rpc_proc \<Rightarrow> string" where
  "server_res p = (if rp_res p = ''void'' then ''void'' else ''std::unique_ptr<'' @ rp_res p @ ''>'')"

definition gen_decl :: "rpc_vers \<Rightarrow> item list" where
  "gen_decl v =
     [Endl, NL, Txt ''class '', Txt (rv_id v @ ''_server''), Txt '' {'', NL, Txt ''public:'', Inc,
      NL, Txt ''using rpc_interface_type = '', Txt (rv_id v), Txt '';'', Endl]
     @ concat (map (\<lambda>p. [NL, Txt (server_res p), Txt '' '', Txt (rp_id p), Txt ''('', Txt (server_arg p), Txt '');'']) (rv_procs v))
     @ [Close, Txt ''};'']"

definition gen_def :: "rpc_vers \<Rightarrow> item list" where
  "gen_def v = concat (map (\<lambda>p.
     [Endl, NL, Txt (server_res p), NL, Txt (rv_id v @ ''_server''), Txt ''::'', Txt (rp_id p), Txt ''('', Txt (server_arg p), Txt '')'', NL, Txt ''{'']
     @ (if server_res p \<noteq> ''void''
        then [Open, Txt ''std::unique_ptr<'', Txt (rp_res p), Txt ''> res(new '', Txt (rp_res p), Txt '');'',
              NL, NL, Txt ''// Fill in function body here'', NL, NL, Txt ''return res;'', Close, Txt ''}'']
        else [Open, NL, Txt ''// Fill in function body here'', NL, Close, Txt ''}''])) (rv_procs v))"

fun server_symbols :: "bool \<Rightarrow> int \<Rightarrow> rpc_sym list \<Rightarrow> item list" where
  "server_symbols cc last_type [] = []"
| "server_symbols cc last_type (s # ss) =
     (case s of
        S_PROGRAM p \<Rightarrow> concat (map (if cc then gen_def else gen_decl) (pg_vers p))
      | S_NAMESPACE n \<Rightarrow> (if last_type \<noteq> 7 then [Endl] else []) @ [NL, Txt ''namespace '', Txt n, Txt '' {'']
      | S_CLOSEBRACE \<Rightarrow> (if last_type \<noteq> 8 then [Endl] else []) @ [NL, Txt ''}'']
      | _ \<Rightarrow> []) @ server_symbols cc (symtype s) ss"

definition gen_server_internal :: "string \<Rightarrow> string \<Rightarrow> string \<Rightarrow> bool \<Rightarrow> rpc_sym list \<Rightarrow> item list" where
  "gen_server_internal input_file output_file file_prefix cc symlist =
     (let guard = guard_token input_file output_file ''.server''; output_prefix = strip_suffix output_file ''.cc'' in
      (if cc then [] else [Txt ''// -*- C++ -*-'', Endl])
      @ [Txt ''// Scaffolding originally generated from '', Txt input_file, Txt ''.'', NL, Txt ''// Edit to add functionality.'', Endl]
      @ (if cc then
           (if output_prefix \<noteq> output_file then [NL, Txt (''#include '' @ dq), Txt output_prefix, Txt (''.hh'' @ dq)]
            else [NL, Txt (''#include '' @ dq), Txt file_prefix, Txt (''.server.hh'' @ dq)])
         else [NL, Txt ''#ifndef '', Txt guard, NL, Txt ''#define '', Txt guard, Txt '' 1'', NL,
               NL, Txt (''#include '' @ dq), Txt file_prefix, Txt (''.hh'' @ dq)])
      @ server_symbols cc (-1) symlist @ [NL]
      @ (if cc then [] else [NL, Txt ''#endif // !'', Txt guard]))"

section \<open>Actions of the parser\<close>

text \<open>
  \<open>set_id\<close> names the type of a declaration within another; the action for the body of a union numbers
  its fields, with 0 for a field without a value.
\<close>

fun set_id :: "string \<Rightarrow> rpc_decl \<Rightarrow> rpc_decl" where
  "set_id nid (Decl n q b t ts) =
     (let name = ''_'' @ nid @ ''_t'' in
      case ts of
        TS_ID \<Rightarrow> Decl nid q b t TS_ID
      | TS_ENUM e \<Rightarrow> Decl nid q b name (TS_ENUM (e\<lparr>re_id := name\<rparr>))
      | TS_STRUCT (Struct i ds) \<Rightarrow> Decl nid q b name (TS_STRUCT (Struct name ds))
      | TS_UNION (Union i tt ti fs df) \<Rightarrow> Decl nid q b name (TS_UNION (Union name tt ti fs df)))"

fun number_fields :: "int \<Rightarrow> rpc_ufield list \<Rightarrow> rpc_ufield list" where
  "number_fields next [] = []"
| "number_fields next (Ufield cs d df no # fs) =
     (if rd_type d = ''void'' then Ufield cs d df 0 # number_fields next fs
      else Ufield cs d df (next + 1) # number_fields (next + 1) fs)"

text \<open>The actions for cases: \<open>None\<close> is the error for a second default.\<close>

fun case_list :: "bool \<Rightarrow> string list \<Rightarrow> bool option" where
  "case_list df [] = Some df"
| "case_list df (c # cs) = (if c = [] then (if df then None else case_list True cs) else case_list df cs)"

definition union_body :: "string \<Rightarrow> string \<Rightarrow> (string list \<times> rpc_decl) list \<Rightarrow> rpc_union option" where
  "union_body tagtype tagid specs =
     (let defaults = map (\<lambda>(cs, _). case_list False cs) specs in
      if None \<in> set defaults \<or> 1 < length (filter (\<lambda>x. x = Some True) defaults) then None
      else Some (Union [] tagtype tagid (number_fields 0 (map (\<lambda>(cs, d). Ufield cs d ([] \<in> set cs) (-1)) specs))
        (Some True \<in> set defaults)))"

end
