(* ===== verification/Xdrc_Properties.thy ===== *)
theory Xdrc_Properties
  imports Xdrc
begin

text \<open>
  Properties of the code generator: no assertion fails, the indentation ends where it began, braces
  are balanced, and the header of the repository is what the generator produces.
\<close>

section \<open>Levels and braces\<close>

text \<open>The depth of braces after a text; \<open>None\<close> when a brace closes that was not opened.\<close>

fun braces :: "nat \<Rightarrow> string \<Rightarrow> nat option" where
  "braces d [] = Some d"
| "braces d (c # s) =
     (if c = CHR ''{'' then braces (Suc d) s
      else if c = CHR ''}'' then (if d = 0 then None else braces (d - 1) s)
      else braces d s)"

lemma braces_append: "braces d (s @ t) = Option.bind (braces d s) (\<lambda>e. braces e t)"
  by (induction d s rule: braces.induct) auto

definition no_braces :: "string \<Rightarrow> bool" where
  "no_braces s \<longleftrightarrow> CHR ''{'' \<notin> set s \<and> CHR ''}'' \<notin> set s"

lemma no_braces_braces [simp]: "no_braces s \<Longrightarrow> braces d s = Some d"
  by (induction s) (auto simp: no_braces_def)

lemma no_braces_append [simp]: "no_braces (s @ t) \<longleftrightarrow> no_braces s \<and> no_braces t"
  by (auto simp: no_braces_def)

lemma no_braces_Nil [simp]: "no_braces []"
  by (simp add: no_braces_def)

lemma no_braces_Cons: "no_braces (c # s) \<longleftrightarrow> c \<noteq> CHR ''{'' \<and> c \<noteq> CHR ''}'' \<and> no_braces s"
  by (auto simp: no_braces_def)

text \<open>Level and depth after a sequence of items, without the text.\<close>

fun track :: "int \<times> nat \<Rightarrow> item list \<Rightarrow> (int \<times> nat) option" where
  "track (n, d) [] = Some (n, d)"
| "track (n, d) (Txt s # is) = Option.bind (braces d s) (\<lambda>d. track (n, d) is)"
| "track (n, d) (NL # is) = track (n, d) is"
| "track (n, d) (Open # is) = track (n + 2, d) is"
| "track (n, d) (Close # is) = (if n - 2 < 0 then None else track (n - 2, d) is)"
| "track (n, d) (Outdent # is) = track (n, d) is"
| "track (n, d) (Inc # is) = track (n + 2, d) is"
| "track (n, d) (Dec # is) = (if n - 2 < 0 then None else track (n - 2, d) is)"
| "track (n, d) (Endl # is) = track (n, d) is"
| "track (n, d) (Fail # is) = None"

lemma track_append: "track p (xs @ ys) = Option.bind (track p xs) (\<lambda>q. track q ys)"
proof (induction p xs rule: track.induct)
  case (2 n d s "is")
  then show ?case by (cases "braces d s") auto
qed auto

lemma no_braces_line_start [simp]: "no_braces (line_start n)"
  by (auto simp: no_braces_def line_start_def)

lemma track_play: "track (n, d) is = Some (m, e) \<Longrightarrow> \<exists>t. play n is = Some (t, m) \<and> braces d t = Some e"
  by (induction "(n, d)" "is" arbitrary: n d rule: track.induct) (auto simp: braces_append bind_eq_Some_conv split: if_splits)

text \<open>A part of a script that keeps level and depth.\<close>

definition nested :: "item list \<Rightarrow> bool" where
  "nested is \<longleftrightarrow> (\<forall>n d. 0 \<le> n \<longrightarrow> track (n, d) is = Some (n, d))"

lemma nestedI: "(\<And>n d. 0 \<le> n \<Longrightarrow> track (n, d) is = Some (n, d)) \<Longrightarrow> nested is"
  by (simp add: nested_def)

lemma nested_track: "nested is \<Longrightarrow> 0 \<le> n \<Longrightarrow> track (n, d) is = Some (n, d)"
  by (simp add: nested_def)

lemma nested_Nil [simp]: "nested []"
  by (simp add: nested_def)

lemma nested_append: "nested xs \<Longrightarrow> nested ys \<Longrightarrow> nested (xs @ ys)"
  by (simp add: nested_def track_append)

lemma nested_concat: "(\<And>x. x \<in> set xs \<Longrightarrow> nested (f x)) \<Longrightarrow> nested (concat (map f xs))"
  by (induction xs) (auto intro!: nested_append)

text \<open>Items that change neither.\<close>

fun flat :: "item list \<Rightarrow> bool" where
  "flat [] = True"
| "flat (i # is) = ((case i of Txt t \<Rightarrow> no_braces t | NL \<Rightarrow> True | Outdent \<Rightarrow> True | Endl \<Rightarrow> True | _ \<Rightarrow> False) \<and> flat is)"

lemma flat_nested: "flat is \<Longrightarrow> nested is"
proof (induction "is")
  case (Cons i "is")
  show ?case
  proof (rule nestedI)
    fix n :: int and d
    assume "0 \<le> n"
    then show "track (n, d) (i # is) = Some (n, d)"
      using Cons nested_track [of "is" n d] by (cases i) simp_all
  qed
qed simp

lemma flat_append [simp]: "flat (xs @ ys) \<longleftrightarrow> flat xs \<and> flat ys"
  by (induction xs) auto

lemma flat_concat: "(\<And>x. x \<in> set xs \<Longrightarrow> flat (f x)) \<Longrightarrow> flat (concat (map f xs))"
  by (induction xs) auto

section \<open>Well-formed trees\<close>

definition wf_enum :: "rpc_enum \<Rightarrow> bool" where
  "wf_enum e \<longleftrightarrow> no_braces (re_id e) \<and> (\<forall>c \<in> set (re_tags e). no_braces (rc_id c) \<and> no_braces (rc_val c))"

fun wf_decl :: "rpc_decl \<Rightarrow> bool"
and wf_ts :: "ts_spec \<Rightarrow> bool"
and wf_struct :: "rpc_struct \<Rightarrow> bool"
and wf_field :: "rpc_ufield \<Rightarrow> bool"
and wf_union :: "rpc_union \<Rightarrow> bool" where
  "wf_decl (Decl n q b t ts) \<longleftrightarrow> no_braces n \<and> no_braces b \<and> no_braces t \<and> (t = ''opaque'' \<longrightarrow> q = ARRAY \<or> q = VEC) \<and> wf_ts ts"
| "wf_ts TS_ID \<longleftrightarrow> True"
| "wf_ts (TS_ENUM e) \<longleftrightarrow> wf_enum e"
| "wf_ts (TS_STRUCT s) \<longleftrightarrow> wf_struct s"
| "wf_ts (TS_UNION u) \<longleftrightarrow> wf_union u"
| "wf_struct (Struct n ds) \<longleftrightarrow> no_braces n \<and> (\<forall>d \<in> set ds. wf_decl d)"
| "wf_field (Ufield cs d df no) \<longleftrightarrow> cs \<noteq> [] \<and> (\<forall>c \<in> set cs. no_braces c) \<and> (df \<longleftrightarrow> [] \<in> set cs) \<and> wf_decl d"
| "wf_union (Union n tt ti fs df) \<longleftrightarrow> no_braces n \<and> no_braces tt \<and> no_braces ti \<and> (\<forall>f \<in> set fs. wf_field f)"

lemma wf_decl_no_braces: "wf_decl d \<Longrightarrow> no_braces (rd_id d) \<and> no_braces (rd_bound d) \<and> no_braces (rd_type d)"
  by (cases d) simp

lemma decl_type_text: "wf_decl d \<Longrightarrow> \<exists>t. decl_type d = Txt t \<and> no_braces t"
proof (cases d)
  case (Decl n q b t ts)
  assume "wf_decl d"
  then have "no_braces b" "no_braces t" "t = ''opaque'' \<longrightarrow> q = ARRAY \<or> q = VEC" by (simp_all add: Decl)
  then show ?thesis
    by (auto simp: Decl decl_type_def map_type_def Let_def no_braces_Cons split: rpc_qual.split)
qed

lemma map_tag_text: "c \<noteq> [] \<Longrightarrow> no_braces c \<Longrightarrow> \<exists>t. map_tag c = Txt t \<and> no_braces t"
  by (auto simp: map_tag_def no_braces_Cons)

lemma map_type_no_braces: "no_braces t \<Longrightarrow> no_braces (map_type t)"
  by (auto simp: map_type_def no_braces_Cons)

lemma digits_no_braces [simp]: "no_braces (digits n)"
  using digits_digits [of n] by (auto simp: no_braces_def is_digit_def)

lemma int_string_no_braces [simp]: "no_braces (int_string i)"
  by (simp add: int_string_def no_braces_Cons)

lemma u32_text_no_braces [simp]: "no_braces (u32_text n)"
  by (simp add: u32_text_def)


section \<open>The parts of a header\<close>

lemma gen_enum_nested:
  assumes "wf_enum e"
  shows "nested (gen_enum e)"
proof (rule nestedI)
  fix n :: int and d
  assume n: "0 \<le> n"
  let ?tags = "concat (map (\<lambda>c. if rc_val c = [] then [NL, Txt (rc_id c), Txt '','']
      else [NL, Txt (rc_id c), Txt '' = '', Txt (rc_val c), Txt '','']) (re_tags e))"
  have "flat ?tags" using assms by (intro flat_concat) (simp add: wf_enum_def no_braces_Cons)
  from nested_track [OF flat_nested [OF this]] n assms show "track (n, d) (gen_enum e) = Some (n, d)"
    by (simp add: gen_enum_def track_append id_space_def wf_enum_def no_braces_Cons)
qed

lemma no_braces_concat: "(\<And>x. x \<in> set xs \<Longrightarrow> no_braces (f x)) \<Longrightarrow> no_braces (concat (map f xs))"
  by (induction xs) auto

lemma cur_scope_no_braces:
  assumes "\<forall>n \<in> set ns. no_braces n" "\<forall>n \<in> set sc. no_braces n"
  shows "no_braces (cur_scope ns sc)"
proof -
  have "no_braces (concat (map (\<lambda>n. ''::'' @ n) ns))" using assms(1) by (intro no_braces_concat) (simp add: no_braces_Cons)
  then show ?thesis using assms(2) by (simp add: cur_scope_def cur_ns_def Let_def no_braces_Cons)
qed

lemma push_scope_no_braces: "no_braces n \<Longrightarrow> \<forall>n \<in> set sc. no_braces n \<Longrightarrow> \<forall>n \<in> set (push_scope n sc). no_braces n"
  by (simp add: push_scope_def no_braces_Cons)

lemma top_enum_nested:
  assumes "wf_enum e" "no_braces (cur_scope ns sc)"
  shows "nested (top_enum ns sc e)"
proof (rule nestedI)
  fix n :: int and d
  assume n: "0 \<le> n"
  define s where "s = (if cur_scope ns sc \<noteq> ''::'' then cur_scope ns sc @ ''::'' else cur_scope ns sc)"
  have s: "no_braces s" using assms(2) by (simp add: s_def no_braces_Cons)
  have "flat (concat (map (\<lambda>c. [Txt ''    case '', Txt (s @ rc_id c), Txt '':'', Endl,
      Txt (''      return '' @ dq), Txt (rc_id c), Txt (dq @ '';''), Endl]) (re_tags e)))"
    using assms(1) s by (intro flat_concat) (simp add: wf_enum_def no_braces_Cons)
  from nested_track [OF flat_nested [OF this]] n assms(1) s show "track (n, d) (top_enum ns sc e) = Some (n, d)"
    unfolding top_enum_def Let_def s_def [symmetric] by (simp add: track_append wf_enum_def no_braces_Cons)
qed

lemma top_fields_flat: "no_braces cs \<Longrightarrow> \<forall>d \<in> set ds. no_braces (rd_id d) \<Longrightarrow> flat (top_fields cs first ds)"
  by (induction cs first ds rule: top_fields.induct) (simp_all add: top_field_def no_braces_Cons)

lemma top_struct_nested:
  assumes "no_braces cs" "\<forall>d \<in> set ds. no_braces (rd_id d)"
  shows "nested (top_struct cs ds)"
proof (rule nestedI)
  fix n :: int and d
  assume n: "0 \<le> n"
  have "flat (concat (map (\<lambda>d. [Txt ''    archive(ar, obj.'', Txt (rd_id d), Txt ('', '' @ dq), Txt (rd_id d), Txt (dq @ '');''), Endl]) ds))"
    using assms(2) by (intro flat_concat) (simp add: no_braces_Cons)
  with nested_track [OF flat_nested] n have "track (n, Suc (Suc d)) (top_archive ds) = Some (n, Suc d)" for d
    by (simp add: top_archive_def track_append)
  with nested_track [OF flat_nested [OF top_fields_flat [OF assms]] n] assms(1) show "track (n, d) (top_struct cs ds) = Some (n, d)"
    by (simp add: top_struct_def track_append)
qed

section \<open>The parts of a union\<close>

lemma condition_flat:
  assumes "no_braces tagcmp" "cs \<noteq> []" "\<forall>c \<in> set cs. no_braces c \<and> c \<noteq> []"
  shows "flat (uf_condition tagcmp cs)"
proof -
  have tag: "flat [map_tag c]" if "c \<in> set cs" for c using map_tag_text [of c] assms(3) that by auto
  obtain c cs' where cs: "cs = c # cs'" using assms(2) by (cases cs) auto
  have "flat (concat (map (\<lambda>c. [Txt '' || '', Txt tagcmp, map_tag c]) cs'))"
    using assms(1) tag cs by (intro flat_concat) (simp add: no_braces_Cons)
  then show ?thesis using assms(1) tag [of c] by (simp add: cs uf_condition_def)
qed

lemma field_cases: "wf_field f \<Longrightarrow> uf_cases f \<noteq> [] \<and> (\<forall>c \<in> set (uf_cases f). no_braces c) \<and> (uf_hasdefault f \<longleftrightarrow> [] \<in> set (uf_cases f)) \<and> wf_decl (uf_decl f)"
  by (cases f) simp

lemma uf_loop_flat:
  assumes "no_braces tagcmp" "\<And>f. f \<in> set fs \<Longrightarrow> wf_field f \<and> no_braces (cb (Some f))" "no_braces (cb def)"
  shows "flat (uf_loop tagcmp cb first def fs)"
  using assms
proof (induction tagcmp cb first def fs rule: uf_loop.induct)
  case (1 tagcmp cb first def)
  then show ?case by (simp add: ufbol_def no_braces_Cons)
next
  case (2 tagcmp cb first def f fs)
  note f = 2(4) [of f, simplified] and fs = 2(4) [OF list.set_intros(2)]
  show ?case
  proof (cases "uf_hasdefault f")
    case True
    then show ?thesis using 2(1) [OF True 2(3) fs] f by simp
  next
    case False
    have "flat (uf_condition tagcmp (uf_cases f))"
      using False field_cases [of f] f by (intro condition_flat [OF 2(3)]) auto
    then show ?thesis using False 2(2) [OF False 2(3) fs 2(5)] f by (simp add: ufbol_def no_braces_Cons)
  qed
qed

lemma union_function_nested:
  assumes "wf_union u" "\<And>f. f \<in> set (ru_fields u) \<Longrightarrow> no_braces (cb (Some f))" "no_braces (cb None)"
  shows "nested (union_function u ''which'' cb)"
proof (rule nestedI)
  fix n :: int and d
  assume n: "0 \<le> n"
  have "flat (uf_loop ''which == '' cb True None (ru_fields u))"
    using assms by (intro uf_loop_flat) (cases u; auto simp: no_braces_Cons)+
  from nested_track [OF flat_nested [OF this]] n show "track (n, d) (union_function u ''which'' cb) = Some (n, d)"
    by (simp add: union_function_def track_append)
qed

lemma wf_union_parts:
  "wf_union u \<Longrightarrow> no_braces (ru_id u) \<and> no_braces (ru_tagtype u) \<and> no_braces (ru_tagid u) \<and> no_braces (map_type (ru_tagtype u))
    \<and> (\<forall>f \<in> set (ru_fields u). wf_field f)"
  by (cases u) (simp add: map_type_no_braces)

lemma field_parts: "wf_field f \<Longrightarrow> no_braces (rd_id (uf_decl f)) \<and> (\<exists>t. decl_type (uf_decl f) = Txt t \<and> no_braces t)"
  using field_cases [of f] wf_decl_no_braces [of "uf_decl f"] decl_type_text [of "uf_decl f"] by blast

lemma union_members_nested:
  assumes "wf_union u"
  shows "nested (union_members u)"
proof (rule nestedI)
  fix n :: int and d
  assume n: "0 \<le> n"
  note u = wf_union_parts [OF assms]
  have "flat (concat (map (\<lambda>f. if u_is_void f then [] else [NL, decl_type (uf_decl f), Txt '' '', Txt (rd_id (uf_decl f)), Txt ''_;'']) (ru_fields u)))"
  proof (rule flat_concat)
    fix f
    assume "f \<in> set (ru_fields u)"
    then obtain t where "decl_type (uf_decl f) = Txt t" "no_braces t" "no_braces (rd_id (uf_decl f))" using u field_parts by blast
    then show "flat (if u_is_void f then [] else [NL, decl_type (uf_decl f), Txt '' '', Txt (rd_id (uf_decl f)), Txt ''_;''])"
      by (simp add: no_braces_Cons)
  qed
  from nested_track [OF flat_nested [OF this]] n u show "track (n, d) (union_members u) = Some (n, d)"
    by (simp add: union_members_def track_append)
qed

lemma union_field_number_nested:
  assumes "wf_union u"
  shows "nested (union_field_number u)"
proof (rule nestedI)
  fix n :: int and d
  assume n: "0 \<le> n"
  have "nested (union_function u ''which'' number_cb)"
    using assms by (intro union_function_nested) (simp_all add: number_cb_def)
  from nested_track [OF this] n show "track (n, d) (union_field_number u) = Some (n, d)"
    by (simp add: union_field_number_def track_append)
qed

lemma mem_ptr_case_flat:
  assumes "wf_field f" "no_braces uid"
  shows "flat (mem_ptr_case uid f)"
proof -
  note f = field_cases [OF assms(1)] field_parts [OF assms(1)]
  have "flat (concat (map (\<lambda>c. NL # map_case c) (uf_cases f)))"
  proof (rule flat_concat)
    fix c
    assume "c \<in> set (uf_cases f)"
    with f have "no_braces c" by blast
    then show "flat (NL # map_case c)"
      using map_tag_text [of c] by (cases "c = []") (auto simp: map_case_def no_braces_Cons)
  qed
  then show ?thesis using f assms(2) by (simp add: mem_ptr_case_def no_braces_Cons)
qed

lemma union_with_mem_ptr_nested:
  assumes "wf_union u"
  shows "nested (union_with_mem_ptr u)"
proof (rule nestedI)
  fix n :: int and d
  assume n: "0 \<le> n"
  note u = wf_union_parts [OF assms]
  have "flat (concat (map (mem_ptr_case (ru_id u)) (ru_fields u)))"
    using u mem_ptr_case_flat by (intro flat_concat) blast
  note F = nested_track [OF flat_nested [OF this]]
  have "braces e (pswitch (ru_tagtype u) ''which'') = Some (Suc e)" for e by (simp add: pswitch_def)
  with F n u show "track (n, d) (union_with_mem_ptr u) = Some (n, d)"
    by (simp add: union_with_mem_ptr_def track_append)
qed

lemma union_discriminant_nested: "wf_union u \<Longrightarrow> nested (union_discriminant u)"
  by (rule nestedI) (drule wf_union_parts, simp add: union_discriminant_def braces_append)

lemma union_constructors_nested: "wf_union u \<Longrightarrow> nested (union_constructors u)"
  by (rule nestedI) (drule wf_union_parts, simp add: union_constructors_def Let_def)

lemma union_assignments_nested: "wf_union u \<Longrightarrow> nested (union_assignments u)"
  by (rule nestedI) (drule wf_union_parts, simp add: union_assignments_def Let_def)

lemma union_tag_access_nested: "wf_union u \<Longrightarrow> nested (union_tag_access u)"
  by (rule nestedI) (drule wf_union_parts, simp add: union_tag_access_def Let_def)

lemma field_access_nested:
  assumes "wf_union u" "wf_field f" "no_braces cnst"
  shows "nested (field_access u f cnst)"
proof (rule nestedI)
  fix n :: int and d
  assume n: "0 \<le> n"
  obtain t where t: "decl_type (uf_decl f) = Txt t" "no_braces t" "no_braces (rd_id (uf_decl f))" using field_parts [OF assms(2)] by blast
  then show "track (n, d) (field_access u f cnst) = Some (n, d)"
    using n wf_union_parts [OF assms(1)] assms(3) by (simp add: field_access_def braces_append)
qed

lemma union_field_access_nested:
  assumes "wf_union u"
  shows "nested (union_field_access u)"
  unfolding union_field_access_def
proof (rule nested_concat)
  fix f
  assume "f \<in> set (ru_fields u)"
  then have "wf_field f" using wf_union_parts [OF assms] by blast
  then show "nested (if u_is_void f then [] else field_access u f [] @ field_access u f ''const '')"
    using assms by (auto intro!: nested_append field_access_nested simp: no_braces_Cons)
qed

lemma top_union_nested:
  assumes "wf_union u" "no_braces cs"
  shows "nested (top_union cs u)"
proof (rule nestedI)
  fix n :: int and d
  assume n: "0 \<le> n"
  note u = wf_union_parts [OF assms(1)]
  have "no_braces (name_cb (Some f))" if "f \<in> set (ru_fields u)" for f
  proof -
    have "no_braces (rd_id (uf_decl f))" using that u field_parts by blast
    then show ?thesis by (simp add: name_cb_def no_braces_Cons)
  qed
  then have "nested (union_function u ''which'' name_cb)"
    using assms(1) by (intro union_function_nested) (simp_all add: name_cb_def no_braces_Cons)
  from nested_track [OF this] n u assms(2) show "track (n, d) (top_union cs u) = Some (n, d)"
    by (simp add: top_union_def Let_def track_append no_braces_Cons)
qed

section \<open>Whole declarations\<close>

lemma decl_lines_flat:
  assumes "\<forall>d \<in> set ds. wf_decl d"
  shows "nested (concat (map (\<lambda>d. [NL, decl_type d, Txt '' '', Txt (rd_id d), Txt ''{};'']) ds))"
proof (rule nested_concat, rule nestedI)
  fix d and n :: int and k
  assume "d \<in> set ds" "0 \<le> n"
  then obtain t where "decl_type d = Txt t" "no_braces t" "no_braces (rd_id d)" using assms decl_type_text wf_decl_no_braces by blast
  then show "track (n, k) [NL, decl_type d, Txt '' '', Txt (rd_id d), Txt ''{};''] = Some (n, k)" by simp
qed

definition nested_pair :: "item list \<times> item list \<Rightarrow> bool" where
  "nested_pair p \<longleftrightarrow> nested (fst p) \<and> nested (snd p)"

lemma embedded_lines: "nested eos \<Longrightarrow> nested ([NL] @ eos @ [Txt '';''])"
  by (intro nested_append) (simp_all add: flat_nested no_braces_Cons)

lemma gen_nested:
  "wf_struct s \<Longrightarrow> \<forall>n \<in> set ns. no_braces n \<Longrightarrow> \<forall>n \<in> set sc. no_braces n \<Longrightarrow> nested_pair (gen_struct ns sc s)"
  "wf_union u \<Longrightarrow> \<forall>n \<in> set ns. no_braces n \<Longrightarrow> \<forall>n \<in> set sc. no_braces n \<Longrightarrow> nested_pair (gen_union ns sc u)"
  "wf_decl d \<Longrightarrow> \<forall>n \<in> set ns. no_braces n \<Longrightarrow> \<forall>n \<in> set sc. no_braces n \<Longrightarrow> nested_pair (gen_embedded ns sc d)"
  "\<forall>d \<in> set ds. wf_decl d \<Longrightarrow> \<forall>n \<in> set ns. no_braces n \<Longrightarrow> \<forall>n \<in> set sc. no_braces n \<Longrightarrow> nested_pair (gen_embedded_decls ns sc ds)"
  "\<forall>f \<in> set fs. wf_field f \<Longrightarrow> \<forall>n \<in> set ns. no_braces n \<Longrightarrow> \<forall>n \<in> set sc. no_braces n \<Longrightarrow> nested_pair (gen_embedded_fields ns sc fs)"
proof (induction ns sc s and ns sc u and ns sc d and ns sc ds and ns sc fs
    rule: gen_struct_gen_union_gen_embedded_gen_embedded_decls_gen_embedded_fields.induct)
  case (1 ns sc nm ds)
  obtain eos etop where e: "gen_embedded_decls ns (push_scope nm sc) ds = (eos, etop)" by fastforce
  have sc: "\<forall>n \<in> set (push_scope nm sc). no_braces n" using push_scope_no_braces [of nm sc] 1(2,4) by simp
  then have IH: "nested eos" "nested etop" using 1 e by (simp_all add: nested_pair_def)
  have "nested (top_struct (cur_scope ns (push_scope nm sc)) ds)"
    using 1(2,3) sc by (intro top_struct_nested cur_scope_no_braces) (auto simp: wf_decl_no_braces)
  with IH(2) have "nested (snd (gen_struct ns sc (Struct nm ds)))" by (simp add: e nested_append)
  moreover have "nested (fst (gen_struct ns sc (Struct nm ds)))"
  proof (rule nestedI)
    fix n :: int and d
    assume n: "0 \<le> n"
    have "\<forall>d \<in> set ds. wf_decl d" "no_braces nm" using 1(2) by simp_all
    then show "track (n, d) (fst (gen_struct ns sc (Struct nm ds))) = Some (n, d)"
      using n nested_track [OF IH(1)] nested_track [OF decl_lines_flat [of ds]]
      by (simp add: e track_append id_space_def no_braces_Cons)
  qed
  ultimately show ?case by (simp add: nested_pair_def)
next
  case (2 ns sc nm tagtype tagid fs hasdefault)
  let ?u = "Union nm tagtype tagid fs hasdefault"
  obtain eos etop where e: "gen_embedded_fields ns (push_scope nm sc) fs = (eos, etop)" by fastforce
  have sc: "\<forall>n \<in> set (push_scope nm sc). no_braces n" using push_scope_no_braces [of nm sc] 2(2,4) by simp
  then have IH: "nested eos" "nested etop" using 2 e by (simp_all add: nested_pair_def)
  define body where "body = union_members ?u @ union_field_number ?u @ union_with_mem_ptr ?u @ union_discriminant ?u
    @ union_constructors ?u @ union_assignments ?u @ union_tag_access ?u @ union_field_access ?u"
  have eq: "gen_union ns sc ?u = ([Txt ''struct '', Txt nm, Txt '' {'', Inc] @ eos
      @ (if list_ex (\<lambda>f. is_embedded (uf_decl f)) fs then [Endl] else []) @ body @ [Close, Txt ''}''],
      etop @ top_union (cur_scope ns (push_scope nm sc)) ?u)"
    by (simp add: e Let_def body_def)
  have "nested body" unfolding body_def
    using 2(2) by (intro nested_append union_members_nested union_field_number_nested union_with_mem_ptr_nested
        union_discriminant_nested union_constructors_nested union_assignments_nested union_tag_access_nested union_field_access_nested)
  note body = nested_track [OF this]
  have "nested (top_union (cur_scope ns (push_scope nm sc)) ?u)"
    using 2(2,3) sc by (intro top_union_nested cur_scope_no_braces)
  with IH(2) have "nested (snd (gen_union ns sc ?u))" unfolding eq snd_conv by (intro nested_append)
  moreover have "nested (fst (gen_union ns sc ?u))"
    unfolding eq fst_conv
  proof (rule nestedI)
    fix n :: int and d
    assume n: "0 \<le> n"
    then show "track (n, d) ([Txt ''struct '', Txt nm, Txt '' {'', Inc] @ eos
        @ (if list_ex (\<lambda>f. is_embedded (uf_decl f)) fs then [Endl] else []) @ body @ [Close, Txt ''}'']) = Some (n, d)"
      using nested_track [OF IH(1)] body 2(2) by (simp add: track_append)
  qed
  ultimately show ?case by (simp add: nested_pair_def)
next
  case (4 ns sc nm q b t e)
  then have "nested (gen_enum e)" "nested (top_enum ns sc e)"
    by (auto intro!: gen_enum_nested top_enum_nested cur_scope_no_braces)
  then show ?case using embedded_lines by (simp add: nested_pair_def)
next
  case (5 ns sc nm q b t s)
  then have "nested_pair (gen_struct ns sc s)" by simp
  then show ?case using embedded_lines by (cases "gen_struct ns sc s") (simp add: nested_pair_def)
next
  case (6 ns sc nm q b t u)
  then have "nested_pair (gen_union ns sc u)" by simp
  then show ?case using embedded_lines by (cases "gen_union ns sc u") (simp add: nested_pair_def)
next
  case (8 ns sc d ds)
  then have "nested_pair (gen_embedded ns sc d)" "nested_pair (gen_embedded_decls ns sc ds)"
    using 8(2) [OF refl prod.collapse] by simp_all
  then show ?case by (cases "gen_embedded ns sc d"; cases "gen_embedded_decls ns sc ds") (simp add: nested_pair_def nested_append)
next
  case (10 ns sc cs d df no fs)
  then have "nested_pair (gen_embedded ns sc d)" "nested_pair (gen_embedded_fields ns sc fs)"
    using 10(2) [OF refl prod.collapse] by simp_all
  then show ?case by (cases "gen_embedded ns sc d"; cases "gen_embedded_fields ns sc fs") (simp add: nested_pair_def nested_append)
qed (simp_all add: nested_pair_def)

section \<open>Headers\<close>

definition wf_proc :: "rpc_proc \<Rightarrow> bool" where
  "wf_proc p \<longleftrightarrow> no_braces (rp_id p) \<and> no_braces (rp_arg p) \<and> no_braces (rp_res p)"

definition wf_program :: "rpc_program \<Rightarrow> bool" where
  "wf_program u \<longleftrightarrow> no_braces (pg_id u) \<and> (\<forall>v \<in> set (pg_vers u). no_braces (rv_id v) \<and> (\<forall>p \<in> set (rv_procs v). wf_proc p))"

fun wf_sym :: "rpc_sym \<Rightarrow> bool" where
  "wf_sym (S_CONST c) \<longleftrightarrow> no_braces (rc_id c) \<and> no_braces (rc_val c)"
| "wf_sym (S_STRUCT s) \<longleftrightarrow> wf_struct s"
| "wf_sym (S_UNION u) \<longleftrightarrow> wf_union u"
| "wf_sym (S_ENUM e) \<longleftrightarrow> wf_enum e"
| "wf_sym (S_TYPEDEF d) \<longleftrightarrow> wf_decl d"
| "wf_sym (S_PROGRAM p) \<longleftrightarrow> wf_program p"
| "wf_sym (S_LITERAL l) \<longleftrightarrow> no_braces l"
| "wf_sym (S_NAMESPACE n) \<longleftrightarrow> no_braces n"
| "wf_sym S_CLOSEBRACE \<longleftrightarrow> True"

text \<open>Every namespace is closed, and none that is not open.\<close>

fun closed :: "nat \<Rightarrow> rpc_sym list \<Rightarrow> bool" where
  "closed k [] \<longleftrightarrow> k = 0"
| "closed k (s # ss) \<longleftrightarrow> (case s of
     S_NAMESPACE _ \<Rightarrow> closed (Suc k) ss | S_CLOSEBRACE \<Rightarrow> 0 < k \<and> closed (k - 1) ss | _ \<Rightarrow> closed k ss)"

lemma gen_vers_nested:
  assumes "no_braces (pg_id u)" "no_braces (rv_id v)" "\<forall>p \<in> set (rv_procs v). wf_proc p"
  shows "nested (gen_vers u v)"
proof (rule nestedI)
  fix n :: int and d
  assume n: "0 \<le> n"
  have wire: "no_braces (wire_type t)" if "no_braces t" for t using that by (simp add: wire_type_def no_braces_Cons)
  have "nested (concat (map (proc_struct v) (rv_procs v)))"
  proof (rule nested_concat, rule nestedI)
    fix p and n :: int and d
    assume "p \<in> set (rv_procs v)" "0 \<le> n"
    moreover have "no_braces (if rp_arg p \<noteq> ''void'' then ''std::forward<DropIfVoid>(d), '' else [])" by (simp add: no_braces_Cons)
    ultimately show "track (n, d) (proc_struct v p) = Some (n, d)"
      using assms(2,3) wire unfolding proc_struct_def Let_def by (simp add: wf_proc_def braces_append del: if_image_distrib split del: if_split)
  qed
  note procs = nested_track [OF this]
  have "flat (concat (map proc_dispatch (rv_procs v)))"
    using assms(3) by (intro flat_concat) (simp add: proc_dispatch_def wf_proc_def no_braces_Cons)
  note disp = nested_track [OF flat_nested [OF this]]
  have "nested (concat (map proc_client (rv_procs v)))"
  proof (rule nested_concat, rule nestedI)
    fix p and n :: int and d
    assume "p \<in> set (rv_procs v)" "0 \<le> n"
    then show "track (n, d) (proc_client p) = Some (n, d)"
      using assms(3) by (simp add: proc_client_def Let_def wf_proc_def braces_append)
  qed
  note clients = nested_track [OF this]
  show "track (n, d) (gen_vers u v) = Some (n, d)"
    using n assms(1,2) procs disp clients by (simp add: gen_vers_def track_append)
qed

lemma gen_program_nested:
  assumes "wf_program u"
  shows "nested (gen_program u)"
proof -
  have "nested (gen_versions u first vs)" if "set vs \<subseteq> set (pg_vers u)" for first vs
    using that assms
  proof (induction u first vs rule: gen_versions.induct)
    case (2 u first v vs)
    have "nested (gen_vers u v)"
      using 2(2,3) by (intro gen_vers_nested) (auto simp: wf_program_def)
    moreover have "nested (gen_versions u False vs)" using 2 by simp
    moreover have "nested (if first then [] else [Endl, NL])" by (simp add: flat_nested)
    ultimately show ?case by (simp add: nested_append del: if_image_distrib)
  qed simp
  then show ?thesis by (simp add: gen_program_def)
qed

lemma flush_track:
  assumes "nested tops" "\<forall>n \<in> set ns. no_braces n"
  shows "track (0, length ns) (flush_top ns tops) = Some (0, length ns)"
proof -
  have "\<exists>t. play 2 tops = Some (t, 2) \<and> braces d t = Some d" for d
    using track_play [of 2 d tops 2 d] nested_track [OF assms(1), of 2 d] by simp
  then obtain t where t: "play 2 tops = Some (t, 2)" "\<And>d. braces d t = Some d" by (metis Pair_inject option.inject)
  have close: "track (0, length xs + k) (map (\<lambda>_. Txt ''} '') xs) = Some (0, k)" for xs :: "string list" and k
    by (induction xs) simp_all
  have reopen: "track (0, k) (concat (map (\<lambda>n. [Txt '' namespace '', Txt n, Txt '' {'']) ns)) = Some (0, k + length ns)" for k
    using assms(2) by (induction ns arbitrary: k) simp_all
  show ?thesis using close [of ns 0] reopen [of 0]
    by (simp add: flush_top_def t track_append)
qed

lemma track_nested: "nested xs \<Longrightarrow> track (0, d) xs = Some (0, d)"
  by (simp add: nested_track)

lemma gen_symbol_track:
  assumes "wf_sym s" "\<forall>n \<in> set ns. no_braces n" "s = S_CLOSEBRACE \<longrightarrow> ns \<noteq> []"
  shows "\<exists>eos tops ns'. gen_symbol ns s = (eos, tops, ns') \<and> track (0, length ns) eos = Some (0, length ns')
    \<and> nested tops \<and> (\<forall>n \<in> set ns'. no_braces n)
    \<and> (\<forall>ss. closed (length ns) (s # ss) \<longleftrightarrow> closed (length ns') ss)"
proof (cases s)
  case (S_STRUCT x)
  then have "nested_pair (gen_struct ns [] x)" using assms gen_nested(1) [of x ns "[]"] by simp
  then show ?thesis using assms(2) S_STRUCT by (cases "gen_struct ns [] x") (simp add: nested_pair_def track_append track_nested)
next
  case (S_UNION u)
  then have "nested_pair (gen_union ns [] u)" using assms gen_nested(2) [of u ns "[]"] by simp
  then show ?thesis using assms(2) S_UNION by (cases "gen_union ns [] u") (simp add: nested_pair_def track_append track_nested)
next
  case (S_ENUM e)
  then have "nested (gen_enum e)" "nested (top_enum ns [] e)"
    using assms by (auto intro!: gen_enum_nested top_enum_nested cur_scope_no_braces)
  then show ?thesis using assms(2) S_ENUM by (simp add: track_append track_nested)
next
  case (S_TYPEDEF d)
  then obtain t where "decl_type d = Txt t" "no_braces t" "no_braces (rd_id d)" using assms decl_type_text wf_decl_no_braces by fastforce
  then show ?thesis using assms(2) S_TYPEDEF by simp
next
  case (S_PROGRAM p)
  then show ?thesis using assms gen_program_nested by (simp add: track_nested)
next
  case S_CLOSEBRACE
  then show ?thesis using assms by (cases ns rule: rev_cases) simp_all
qed (use assms in simp_all)

lemma gen_symbols_track:
  assumes "\<forall>s \<in> set ss. wf_sym s" "\<forall>n \<in> set ns. no_braces n" "closed (length ns) ss"
  shows "track (0, length ns) (gen_symbols ns last_type ss) = Some (0, 0)"
  using assms
proof (induction ss arbitrary: ns last_type)
  case (Cons s ss)
  have "s = S_CLOSEBRACE \<longrightarrow> ns \<noteq> []" using Cons.prems(3) by auto
  then obtain eos tops ns' where g: "gen_symbol ns s = (eos, tops, ns')" "track (0, length ns) eos = Some (0, length ns')"
    "nested tops" "\<forall>n \<in> set ns'. no_braces n" "closed (length ns') ss"
    using gen_symbol_track [of s ns] Cons.prems by force
  have "track (0, length ns) (blank_line last_type s) = Some (0, length ns)"
    by (simp add: blank_line_def)
  then show ?case using g flush_track [OF g(3,4)] Cons.IH [OF _ g(4,5)] Cons.prems(1)
    by (simp add: track_append)
qed simp

lemma guard_no_braces: "no_braces (guard_token inp out extra)"
proof -
  have "to_upper c \<noteq> CHR ''{'' \<and> to_upper c \<noteq> CHR ''}''" if "is_alnum c" for c
  proof -
    have "of_char (to_upper c) < (123 :: nat)"
      using that by (auto simp: is_alnum_def to_upper_def of_char_of)
    then show ?thesis by auto
  qed
  then have "no_braces (map (\<lambda>c. if is_alnum c then to_upper c else CHR ''_'') name)" for name
    by (induction name) (simp_all add: no_braces_Cons)
  then show ?thesis by (simp add: guard_token_def Let_def no_braces_Cons)
qed

text \<open>C28: For every list of declarations in which names have no braces and namespaces are closed, the
  generator of headers ends without a failed assertion, with the indentation back at zero, and the
  braces of the header it writes are balanced.\<close>

theorem header_well_formed:
  assumes "\<forall>s \<in> set ss. wf_sym s" and "closed 0 ss" and "no_braces inp"
  shows "\<exists>t. play 0 (gen_hh inp out ss) = Some (t, 0) \<and> braces 0 t = Some 0"
proof -
  have "track (0, 0) (gen_symbols [] (-1) ss) = Some (0, 0)"
    using gen_symbols_track [of ss "[]"] assms by simp
  then have "track (0, 0) (gen_hh inp out ss) = Some (0, 0)"
    using assms(3) guard_no_braces [of inp out "[]"] by (simp add: gen_hh_def Let_def track_append)
  from track_play [OF this] show ?thesis .
qed


theorem header_well_formed_witness:
  "\<exists>t. play 0 (gen_hh ''a.x'' [] [S_NAMESPACE ''n'', S_STRUCT (Struct ''s'' [Decl ''v'' VEC [] ''opaque'' TS_ID]), S_CLOSEBRACE]) = Some (t, 0)
    \<and> braces 0 t = Some 0"
  by (rule header_well_formed) (simp_all add: no_braces_def)

text \<open>
  The parser refuses a second default in a union, and its fields are well formed when their
  declarations and constants are.
\<close>

lemma case_list_default: "case_list df cs = Some b \<Longrightarrow> b \<longleftrightarrow> df \<or> [] \<in> set cs"
  by (induction df cs rule: case_list.induct) (auto split: if_splits)

lemma number_fields_wf: "(\<forall>f \<in> set (number_fields n fs). wf_field f) \<longleftrightarrow> (\<forall>f \<in> set fs. wf_field f)"
  by (induction n fs rule: number_fields.induct) auto

lemma union_body_wf:
  assumes "union_body tagtype tagid specs = Some u" "no_braces tagtype" "no_braces tagid"
    and "\<forall>(cs, d) \<in> set specs. cs \<noteq> [] \<and> (\<forall>c \<in> set cs. no_braces c) \<and> wf_decl d"
  shows "wf_union u \<and> (ru_hasdefault u \<longleftrightarrow> (\<exists>f \<in> set (ru_fields u). uf_hasdefault f))"
proof -
  let ?fs = "map (\<lambda>(cs, d). Ufield cs d ([] \<in> set cs) (-1)) specs"
  let ?d = "map (\<lambda>(cs, _). case_list False cs) specs"
  have u: "None \<notin> set ?d" "u = Union [] tagtype tagid (number_fields 0 ?fs) (Some True \<in> set ?d)"
    using assms(1) by (auto simp: union_body_def Let_def split: if_splits)
  have "\<forall>f \<in> set ?fs. wf_field f" using assms(4) by auto
  then have "wf_union u" using assms(2,3) number_fields_wf [of 0 ?fs] by (simp add: u(2))
  moreover have "(\<exists>f \<in> set (number_fields n fs). uf_hasdefault f) \<longleftrightarrow> (\<exists>f \<in> set fs. uf_hasdefault f)" for n fs
    by (induction n fs rule: number_fields.induct) auto
  moreover have "Some True \<in> set ?d \<longleftrightarrow> (\<exists>f \<in> set ?fs. uf_hasdefault f)"
  proof -
    have "case_list False cs = Some True \<longleftrightarrow> [] \<in> set cs" if "(cs, d) \<in> set specs" for cs d
    proof -
      have "case_list False cs \<noteq> None" using u(1) that by force
      then show ?thesis using case_list_default [of False cs] by auto
    qed
    then show ?thesis by force
  qed
  ultimately show ?thesis by (simp add: u(2))
qed

end
