(* ===== verification/Xdrc_Switch.thy ===== *)
theory Xdrc_Switch
  imports Xdrc_Properties
begin

text \<open>
  What the generated functions on discriminants compute: the text of \<open>_xdr_field_number\<close>, read as
  an expression of C, gives the number of the field that the parser assigned to a case.
\<close>

section \<open>Reading a conditional expression\<close>

definition is_gap :: "char \<Rightarrow> bool" where
  "is_gap c \<longleftrightarrow> c = CHR '' '' \<or> c = CHR 0x0A"

fun words_from :: "string \<Rightarrow> string \<Rightarrow> string list" where
  "words_from w [] = (if w = [] then [] else [w])"
| "words_from w (c # s) =
     (if is_gap c then (if w = [] then words_from [] s else w # words_from [] s) else words_from (w @ [c]) s)"

definition words :: "string \<Rightarrow> string list" where
  "words s = words_from [] s"

text \<open>
  \<open>which == a || which == b ? v : e\<close>, word by word; \<open>acc\<close> is the value of the disjunction so far, and
  \<open>eq a\<close> whether the discriminant equals the constant \<open>a\<close>.
\<close>

fun eval_cond :: "(string \<Rightarrow> bool) \<Rightarrow> bool \<Rightarrow> string list \<Rightarrow> string option" where
  "eval_cond eq acc [v] = Some v"
| "eval_cond eq acc (w # e # t # s # ts) =
     (if w \<noteq> ''which'' \<or> e \<noteq> ''=='' then None
      else if s = ''||'' then eval_cond eq (acc \<or> eq t) ts
      else if s = ''?'' then
        (case ts of
           v # c # ts' \<Rightarrow> if c \<noteq> '':'' then None else if acc \<or> eq t then Some v else eval_cond eq False ts'
         | _ \<Rightarrow> None)
      else None)"
| "eval_cond eq acc _ = None"

definition eval_function :: "(string \<Rightarrow> bool) \<Rightarrow> string \<Rightarrow> string option" where
  "eval_function eq s =
     (if s = [] \<or> last s \<noteq> CHR '';'' then None
      else case words (butlast s) of r # ts \<Rightarrow> if r = ''return'' then eval_cond eq False ts else None | [] \<Rightarrow> None)"

section \<open>Words of the generated text\<close>

definition token :: "string \<Rightarrow> bool" where
  "token w \<longleftrightarrow> w \<noteq> [] \<and> (\<forall>c \<in> set w. \<not> is_gap c)"

lemma words_from_token: "\<forall>c \<in> set w. \<not> is_gap c \<Longrightarrow> words_from v (w @ s) = words_from (v @ w) s"
  by (induction w arbitrary: v) auto

lemma words_token: "token w \<Longrightarrow> is_gap c \<Longrightarrow> words (w @ c # s) = w # words s"
  by (simp add: words_def token_def words_from_token)

lemma words_last: "token w \<Longrightarrow> words w = [w]"
  using words_from_token [of w "[]" "[]"] by (simp add: words_def token_def)

lemma words_gap [simp]: "is_gap c \<Longrightarrow> words (c # s) = words s"
  by (simp add: words_def)

lemma words_line_start [simp]: "words (line_start n @ s) = words s"
proof -
  have "words (replicate k (CHR '' '') @ s) = words s" for k by (induction k) (simp_all add: is_gap_def)
  then show ?thesis by (simp add: line_start_def is_gap_def)
qed

definition tag_text :: "string \<Rightarrow> string" where
  "tag_text c = (case map_tag c of Txt t \<Rightarrow> t | _ \<Rightarrow> [])"

lemma tag_token: "token c \<Longrightarrow> map_tag c = Txt (tag_text c) \<and> token (tag_text c)"
  by (simp add: tag_text_def map_tag_def token_def) (auto simp: is_gap_def)

fun cond_tokens :: "string list \<Rightarrow> string list" where
  "cond_tokens [] = []"
| "cond_tokens [c] = [''which'', ''=='', tag_text c]"
| "cond_tokens (c # cs) = [''which'', ''=='', tag_text c, ''||''] @ cond_tokens cs"

fun loop_tokens :: "(rpc_ufield option \<Rightarrow> string) \<Rightarrow> rpc_ufield option \<Rightarrow> rpc_ufield list \<Rightarrow> string list" where
  "loop_tokens cb def [] = [cb def]"
| "loop_tokens cb def (f # fs) =
     (if uf_hasdefault f then loop_tokens cb (Some f) fs
      else cond_tokens (uf_cases f) @ [''?'', cb (Some f), '':''] @ loop_tokens cb def fs)"

lemma which_token: "words (''which == '' @ s) = ''which'' # ''=='' # words s"
  using words_token [of "''which''" "CHR '' ''" "''== '' @ s"] words_token [of "''==''" "CHR '' ''" s]
  by (simp add: token_def is_gap_def)

lemma condition_words:
  assumes "cs \<noteq> []" "\<forall>c \<in> set cs. token c"
  shows "\<exists>t. (\<forall>m is. play m (uf_condition ''which == '' cs @ is) = map_option (\<lambda>(s, k). (t @ s, k)) (play m is))
    \<and> (\<forall>s. words (t @ CHR '' '' # s) = cond_tokens cs @ words s)"
proof -
  let ?tail = "\<lambda>cs. concat (map (\<lambda>c. [Txt '' || '', Txt ''which == '', map_tag c]) cs)"
  have "\<exists>t. (\<forall>m is. play m ([Txt ''which == '', map_tag c] @ ?tail cs @ is) = map_option (\<lambda>(s, k). (t @ s, k)) (play m is))
      \<and> (\<forall>s. words (t @ CHR '' '' # s) = cond_tokens (c # cs) @ words s)" if "token c" "\<forall>c \<in> set cs. token c" for c cs
    using that
  proof (induction cs arbitrary: c)
    case Nil
    note c = tag_token [OF Nil(1)]
    then show ?case
      by (intro exI [of _ "''which == '' @ tag_text c"] conjI allI)
        (simp_all only: append_assoc which_token words_token is_gap_def cond_tokens.simps simp_thms,
         simp_all add: option.map_comp comp_def split_def)
  next
    case (Cons c' cs)
    note c = tag_token [OF Cons.prems(1)]
    obtain t where t: "\<And>m is. play m ([Txt ''which == '', map_tag c'] @ ?tail cs @ is) = map_option (\<lambda>(s, k). (t @ s, k)) (play m is)"
      "\<And>s. words (t @ CHR '' '' # s) = cond_tokens (c' # cs) @ words s" using Cons.IH [of c'] Cons.prems(2) by auto
    have bar: "words (''|| '' @ s) = ''||'' # words s" for s
      using words_token [of "''||''" "CHR '' ''" s] by (simp add: token_def is_gap_def)
    show ?case
    proof (intro exI [of _ "''which == '' @ tag_text c @ '' || '' @ t"] conjI allI)
      fix m "is"
      show "play m ([Txt ''which == '', map_tag c] @ ?tail (c' # cs) @ is)
          = map_option (\<lambda>(s, k). ((''which == '' @ tag_text c @ '' || '' @ t) @ s, k)) (play m is)"
        using c t(1) [of m "is"] by (simp add: option.map_comp comp_def split_def)
    next
      fix s
      have "words ((''which == '' @ tag_text c @ '' || '' @ t) @ CHR '' '' # s) = ''which'' # ''=='' # words (tag_text c @ CHR '' '' # ''|| '' @ t @ CHR '' '' # s)"
        using which_token [of "tag_text c @ '' || '' @ t @ CHR '' '' # s"] by simp
      also have "\<dots> = ''which'' # ''=='' # tag_text c # ''||'' # words (t @ CHR '' '' # s)"
        using c words_token [of "tag_text c" "CHR '' ''"] bar by (simp only: is_gap_def simp_thms)
      finally show "words ((''which == '' @ tag_text c @ '' || '' @ t) @ CHR '' '' # s) = cond_tokens (c # c' # cs) @ words s"
        by (simp add: t(2))
    qed
  qed
  then show ?thesis using assms by (cases cs) (auto simp: uf_condition_def)
qed

text \<open>The fields of a union as the parser leaves them: constants and values without white space.\<close>

definition field_tokens :: "(rpc_ufield option \<Rightarrow> string) \<Rightarrow> rpc_ufield \<Rightarrow> bool" where
  "field_tokens cb f \<longleftrightarrow> uf_cases f \<noteq> [] \<and> (\<not> uf_hasdefault f \<longrightarrow> (\<forall>c \<in> set (uf_cases f). token c)) \<and> token (cb (Some f))"

lemma loop_words:
  assumes "\<forall>f \<in> set fs. field_tokens cb f" "token (cb def)"
  shows "\<exists>t. (\<forall>is. play m (uf_loop ''which == '' cb first def fs @ is) = map_option (\<lambda>(s, k). ((t @ '';'') @ s, k)) (play m is))
    \<and> words t = (if first then ''return'' else '':'') # loop_tokens cb def fs"
proof -
  have ret: "words (''return '' @ s) = ''return'' # words s" for s
    using words_token [of "''return''" "CHR '' ''" s] by (simp add: token_def is_gap_def)
  have col: "words (''  : '' @ s) = '':'' # words s" for s
    using words_token [of "'':''" "CHR '' ''" s] by (simp add: token_def is_gap_def)
  define start where "start b = line_start m @ (if b then ''return '' else ''  : '')" for b
  have start: "words (start b @ s) = (if b then ''return'' else '':'') # words s" for b s
    using ret col by (simp add: start_def)
  have bol: "play m (ufbol b @ is) = map_option (\<lambda>(s, k). (start b @ s, k)) (play m is)" for b "is"
    by (simp add: ufbol_def start_def option.map_comp comp_def split_def)
  show ?thesis using assms
  proof (induction fs arbitrary: first def)
    case Nil
    then show ?case using bol [of first] start [of first] words_last [of "cb def"]
      by (intro exI [of _ "start first @ cb def"]) (simp add: option.map_comp comp_def split_def)
  next
    case (Cons f fs)
    show ?case
    proof (cases "uf_hasdefault f")
      case True
      have "token (cb (Some f))" using Cons.prems(1) by (simp add: field_tokens_def)
      from Cons.IH [OF _ this, of first] Cons.prems(1) True show ?thesis by simp
    next
      case False
      have f: "uf_cases f \<noteq> []" "\<forall>c \<in> set (uf_cases f). token c" "token (cb (Some f))"
        using Cons.prems(1) False by (simp_all add: field_tokens_def)
      obtain c where c: "\<And>is. play m (uf_condition ''which == '' (uf_cases f) @ is) = map_option (\<lambda>(s, k). (c @ s, k)) (play m is)"
        "\<And>s. words (c @ CHR '' '' # s) = cond_tokens (uf_cases f) @ words s" using condition_words [OF f(1,2)] by blast
      obtain t where t: "\<And>is. play m (uf_loop ''which == '' cb False def fs @ is) = map_option (\<lambda>(s, k). ((t @ '';'') @ s, k)) (play m is)"
        "words t = '':'' # loop_tokens cb def fs" using Cons.IH [of def False] Cons.prems by auto
      obtain t' where t': "t = CHR 0x0A # t'"
      proof -
        have "play m (uf_loop ''which == '' cb False def fs) = Some (t @ '';'', m)" using t(1) [of "[]"] by simp
        moreover have "\<exists>is. uf_loop ''which == '' cb False def fs = NL # is"
          by (induction "''which == ''" cb False def fs rule: uf_loop.induct) (auto simp: ufbol_def)
        ultimately obtain r where "t @ '';'' = CHR 0x0A # r" by (fastforce simp: line_start_def dest: sym)
        moreover have "t \<noteq> []" using t(2) by (auto simp: words_def)
        ultimately show thesis using that by (cases t) auto
      qed
      have q: "words (''? '' @ s) = ''?'' # words s" for s
        using words_token [of "''?''" "CHR '' ''" s] by (simp add: token_def is_gap_def)
      have "words (start first @ c @ '' ? '' @ cb (Some f) @ t) = (if first then ''return'' else '':'') # words (c @ CHR '' '' # ''? '' @ cb (Some f) @ t)"
        by (simp add: start)
      also have "words (c @ CHR '' '' # ''? '' @ cb (Some f) @ t) = cond_tokens (uf_cases f) @ ''?'' # words (cb (Some f) @ t)"
        by (simp only: c(2) q)
      also have "words (cb (Some f) @ t) = cb (Some f) # words t'"
        unfolding t' using f(3) by (intro words_token) (simp_all add: is_gap_def)
      also have "words t' = words t" unfolding t' by (simp add: is_gap_def)
      finally have w: "words (start first @ c @ '' ? '' @ cb (Some f) @ t)
          = (if first then ''return'' else '':'') # loop_tokens cb def (f # fs)"
        using False by (simp add: t(2))
      have "play m (uf_loop ''which == '' cb first def (f # fs) @ is)
          = map_option (\<lambda>(s, k). (((start first @ c @ '' ? '' @ cb (Some f) @ t) @ '';'') @ s, k)) (play m is)" for "is"
        using False bol [of first] c(1) t(1) by (simp add: option.map_comp comp_def split_def)
      with w show ?thesis by blast
    qed
  qed
qed

section \<open>The value of the expression\<close>

definition selected :: "(string \<Rightarrow> bool) \<Rightarrow> rpc_ufield \<Rightarrow> bool" where
  "selected eq f \<longleftrightarrow> \<not> uf_hasdefault f \<and> (\<exists>c \<in> set (uf_cases f). eq (tag_text c))"

text \<open>The first field that a case selects, else the last with a default.\<close>

fun pick :: "(string \<Rightarrow> bool) \<Rightarrow> rpc_ufield option \<Rightarrow> rpc_ufield list \<Rightarrow> rpc_ufield option" where
  "pick eq def [] = def"
| "pick eq def (f # fs) = (if uf_hasdefault f then pick eq (Some f) fs else if selected eq f then Some f else pick eq def fs)"

lemma eval_cond_tokens:
  assumes "cs \<noteq> []"
  shows "eval_cond eq acc (cond_tokens cs @ ''?'' # v # '':'' # ts)
    = (if acc \<or> (\<exists>c \<in> set cs. eq (tag_text c)) then Some v else eval_cond eq False ts)"
  using assms
proof (induction cs arbitrary: acc rule: cond_tokens.induct)
  case (3 c c' cs)
  then show ?case by (auto simp: disj_assoc)
qed auto

lemma eval_loop_tokens:
  assumes "\<forall>f \<in> set fs. uf_cases f \<noteq> []"
  shows "eval_cond eq False (loop_tokens cb def fs) = Some (cb (pick eq def fs))"
  using assms
  by (induction cb def fs rule: loop_tokens.induct) (auto simp: eval_cond_tokens selected_def)

lemma function_correct:
  assumes "\<forall>f \<in> set (ru_fields u). field_tokens cb f" "token (cb None)" "0 \<le> n"
  shows "\<exists>t. play n (union_function u ''which'' cb) = Some (t, n) \<and> eval_function eq t = Some (cb (pick eq None (ru_fields u)))"
proof -
  obtain t where t: "\<And>is. play (n + 2) (uf_loop ''which == '' cb True None (ru_fields u) @ is) = map_option (\<lambda>(s, k). ((t @ '';'') @ s, k)) (play (n + 2) is)"
    "words t = ''return'' # loop_tokens cb None (ru_fields u)" using loop_words [OF assms(1,2), of "n + 2" True] by auto
  have "play n (union_function u ''which'' cb) = Some (t @ '';'', n)"
    using t(1) [of "[Dec]"] assms(3) by (simp add: union_function_def)
  moreover have "eval_function eq (t @ '';'') = Some (cb (pick eq None (ru_fields u)))"
    using t(2) assms(1) eval_loop_tokens [of "ru_fields u"] by (simp add: eval_function_def butlast_append field_tokens_def)
  ultimately show ?thesis by blast
qed

lemma int_string_token: "token (int_string i)"
proof -
  have "token (digits n)" for n
    using digits_digits [of n] digits_nonempty [of n] is_digit_sign by (fastforce simp: token_def is_gap_def is_digit_def)
  then show ?thesis by (simp add: int_string_def token_def is_gap_def)
qed

text \<open>C29: The generated functions on discriminants compute what the declaration says: for a union whose
  constants have no white space, the text that is written for \<open>_xdr_field_number\<close>, read as the
  conditional expression of C, has the number of the field with the case that the discriminant
  equals, else that of the default, else -1.\<close>

theorem field_number_correct:
  assumes "\<forall>f \<in> set (ru_fields u). uf_cases f \<noteq> [] \<and> (uf_hasdefault f \<or> (\<forall>c \<in> set (uf_cases f). token c))" and "0 \<le> n"
  shows "\<exists>t. play n (union_function u ''which'' number_cb) = Some (t, n)
    \<and> eval_function eq t = Some (case pick eq None (ru_fields u) of Some f \<Rightarrow> int_string (uf_fieldno f) | None \<Rightarrow> ''-1'')"
proof -
  have m: "int_string (-1) = ''-1''" by code_simp
  have t: "token (number_cb uf)" for uf by (simp add: number_cb_def int_string_token split: option.split)
  have "number_cb p = (case p of Some f \<Rightarrow> int_string (uf_fieldno f) | None \<Rightarrow> ''-1'')" for p
    by (simp add: number_cb_def m split: option.split)
  moreover have "\<forall>f \<in> set (ru_fields u). field_tokens number_cb f" using assms(1) t by (auto simp: field_tokens_def)
  ultimately show ?thesis using function_correct [of u number_cb n eq] assms(2) t [of None] by simp
qed


definition sample_switch :: rpc_union where
  "sample_switch = Union ''RetBool'' ''unsigned'' ''discriminant''
     (number_fields 0 [Ufield [''0'', ''7''] (Decl ''val'' SCALAR [] ''bool'' TS_ID) False (-1),
       Ufield [[]] (Decl [] SCALAR [] ''void'' TS_ID) True (-1),
       Ufield [''1''] (Decl ''errCode'' SCALAR [] ''ErrorCode'' TS_ID) False (-1)]) True"

theorem field_number_correct_witness:
  "\<exists>t. play 2 (union_function sample_switch ''which'' number_cb) = Some (t, 2)
    \<and> eval_function (\<lambda>a. a = ''1'') t = Some ''2''"
proof -
  have "\<forall>f \<in> set (ru_fields sample_switch). uf_cases f \<noteq> [] \<and> (uf_hasdefault f \<or> (\<forall>c \<in> set (uf_cases f). token c))"
    by (simp add: sample_switch_def token_def is_gap_def)
  moreover have "tag_text ''0'' = ''0''" "tag_text ''7'' = ''7''" "tag_text ''1'' = ''1''" by (simp_all add: tag_text_def map_tag_def)
  moreover have "int_string 2 = ''2''" by code_simp
  ultimately show ?thesis using field_number_correct [of sample_switch 2 "\<lambda>a. a = ''1''"]
    by (simp add: sample_switch_def selected_def)
qed

text \<open>
  The numbers that the parser gives: 0 for a field without a value, and 1, 2, 3 and so on for the
  others, so that two fields with a value never have the same.
\<close>

lemma number_fields_numbers:
  "map uf_fieldno (filter (\<lambda>f. \<not> u_is_void f) (number_fields n fs)) = map (\<lambda>i. n + 1 + int i) [0..<length (filter (\<lambda>f. \<not> u_is_void f) fs)]
    \<and> (\<forall>f \<in> set (number_fields n fs). u_is_void f \<longrightarrow> uf_fieldno f = 0)"
proof (induction n fs rule: number_fields.induct)
  case (2 "next" cs d df no fs)
  then show ?case
    by (auto simp: u_is_void_def map_Suc_upt [symmetric] upt_conv_Cons simp del: upt_Suc)
qed simp

lemma number_fields_distinct:
  "distinct (map uf_fieldno (filter (\<lambda>f. \<not> u_is_void f) (number_fields 0 fs)))"
  using number_fields_numbers [of 0 fs] by (simp add: distinct_map inj_on_def)

end
