(* ===== verification/Xdrc_Headers.thy ===== *)
theory Xdrc_Headers
  imports Xdrc_Switch Union_Classes
begin

text \<open>
  The generator on declarations of the repository: \<open>include/event.hh\<close> is its output for
  \<open>include/event.x\<close>, and the union \<open>RetBool\<close> of \<open>include/server.hh\<close> its output for the one of
  \<open>include/server.x\<close>.
\<close>

section \<open>Evaluation\<close>

text \<open>Decimal numbers by division of integers.\<close>

function int_digits :: "int \<Rightarrow> string" where
  "int_digits n = (if n < 10 then [char_of (48 + n)] else int_digits (n div 10) @ [char_of (48 + n mod 10)])"
  by pat_completeness auto
termination by (relation "measure nat") auto
declare int_digits.simps [simp del]
lemma int_digits: "int_digits (int n) = digits n"
proof (induction n rule: digits.induct)
  case (1 n)
  have c: "char_of (48 + int k) = (char_of (48 + k) :: char)" for k
  proof -
    have "bit (int m) i = bit m i" "odd (int m) = odd m" for m i by (simp_all add: bit_of_nat_iff_bit)
    from this [of "48 + k"] show ?thesis by (simp add: char_of_def)
  qed
  show ?case using 1 c [of n] c [of "n mod 10"] by (subst int_digits.simps, subst digits.simps) (auto simp: zdiv_int zmod_int)
qed
lemma u32_text_code [code]: "u32_text w = int_digits (uint w)"
  by (simp add: u32_text_def int_digits [symmetric])


lemma play_append: "play n (xs @ ys) = Option.bind (play n xs) (\<lambda>(s, m). map_option (\<lambda>(t, k). (s @ t, k)) (play m ys))"
proof (induction n xs rule: play.induct)
  case (1 n)
  then show ?case by (cases "play n ys") auto
qed (auto simp: option.map_comp comp_def split_def Option.bind_map_option map_option_bind)

lemma play_appendI: "play n xs = Some (s, m) \<Longrightarrow> play m ys = Some (t, k) \<Longrightarrow> play n (xs @ ys) = Some (s @ t, k)"
  by (simp add: play_append)

lemma gen_symbols_Cons:
  assumes "snd (snd (gen_symbol ns s)) = ns"
  shows "gen_symbols ns k (s # ss) = gen_symbols ns k [s] @ gen_symbols ns (symtype s) ss"
  using assms by (cases "gen_symbol ns s") simp

section \<open>The header of the events\<close>

definition event_typedef :: rpc_sym where
  "event_typedef = S_TYPEDEF (Decl ''FileName'' VEC [] ''string'' TS_ID)"

definition event_enum :: rpc_sym where
  "event_enum = S_ENUM \<lparr>re_id = ''ChubbyEvent'', re_tags = [\<lparr>rc_id = ''NOP'', rc_val = ''0''\<rparr>,
     \<lparr>rc_id = ''LOCK_CHANGED'', rc_val = ''0x100''\<rparr>, \<lparr>rc_id = ''CONTENT_MODIFIED'', rc_val = ''0x200''\<rparr>]\<rparr>"

definition event_struct :: rpc_sym where
  "event_struct = S_STRUCT (Struct ''EventContent'' [Decl ''event'' SCALAR [] ''ChubbyEvent'' TS_ID, Decl ''fname'' SCALAR [] ''FileName'' TS_ID])"

definition event_program_x :: rpc_sym where
  "event_program_x = S_PROGRAM \<lparr>pg_id = ''event_handler'', pg_val = 0x40048086, pg_vers = [\<lparr>rv_id = ''handler_v1'', rv_val = 1,
     rv_procs = [\<lparr>rp_id = ''event_callback'', rp_val = 77, rp_arg = ''EventContent'', rp_res = ''void''\<rparr>]\<rparr>]\<rparr>"

definition event_x :: "rpc_sym list" where
  "event_x = [event_typedef, event_enum, event_struct, event_program_x]"

definition text_of_lines :: "string list \<Rightarrow> string" where
  "text_of_lines ls = concat (map (\<lambda>l. l @ [CHR 0x0A]) ls)"

text \<open>The text of \<open>include/event.hh\<close>.\<close>

definition event_hh_head :: "string list" where
  "event_hh_head = [
     ''// -*- C++ -*-'',
     ''// Automatically generated from include/event.x.'',
     ''// DO NOT EDIT or your changes may be overwritten'',
     [],
     ''#ifndef __XDR_INCLUDE_EVENT_HH_INCLUDED__'',
     ''#define __XDR_INCLUDE_EVENT_HH_INCLUDED__ 1'',
     [],
     ''#include <xdrpp/types.h>'']"

definition event_hh_typedef :: "string list" where
  "event_hh_typedef = [
     [],
     ''using FileName = xdr::xstring<>;'']"

definition event_hh_enum :: "string list" where
  "event_hh_enum = [
     [],
     ''enum ChubbyEvent : std::uint32_t {'',
     ''  NOP = 0,'',
     ''  LOCK_CHANGED = 0x100,'',
     ''  CONTENT_MODIFIED = 0x200,'',
     ''};'',
     ''namespace xdr {'',
     ''template<> struct xdr_traits<::ChubbyEvent>'',
     ''  : xdr_integral_base<::ChubbyEvent, std::uint32_t> {'',
     ''  static constexpr bool is_enum = true;'',
     ''  static constexpr bool is_numeric = false;'',
     ''  static const char *enum_name(::ChubbyEvent val) {'',
     ''    switch (val) {'',
     ''    case ::NOP:'',
     ''      return '' @ [CHR 0x22] @ ''NOP'' @ [CHR 0x22] @ '';'',
     ''    case ::LOCK_CHANGED:'',
     ''      return '' @ [CHR 0x22] @ ''LOCK_CHANGED'' @ [CHR 0x22] @ '';'',
     ''    case ::CONTENT_MODIFIED:'',
     ''      return '' @ [CHR 0x22] @ ''CONTENT_MODIFIED'' @ [CHR 0x22] @ '';'',
     ''    default:'',
     ''      return nullptr;'',
     ''    }'',
     ''  }'',
     ''};'',
     ''}'']"

definition event_hh_struct :: "string list" where
  "event_hh_struct = [
     [],
     ''struct EventContent {'',
     ''  ChubbyEvent event{};'',
     ''  FileName fname{};'',
     ''};'',
     ''namespace xdr {'',
     ''template<> struct xdr_traits<::EventContent>'',
     ''  : xdr_struct_base<field_ptr<::EventContent,'',
     ''                              decltype(::EventContent::event),'',
     ''                              &::EventContent::event>,'',
     ''                    field_ptr<::EventContent,'',
     ''                              decltype(::EventContent::fname),'',
     ''                              &::EventContent::fname>> {'',
     ''  template<typename Archive> static void'',
     ''  save(Archive &ar, const ::EventContent &obj) {'',
     ''    archive(ar, obj.event, '' @ [CHR 0x22] @ ''event'' @ [CHR 0x22] @ '');'',
     ''    archive(ar, obj.fname, '' @ [CHR 0x22] @ ''fname'' @ [CHR 0x22] @ '');'',
     ''  }'',
     ''  template<typename Archive> static void'',
     ''  load(Archive &ar, ::EventContent &obj) {'',
     ''    archive(ar, obj.event, '' @ [CHR 0x22] @ ''event'' @ [CHR 0x22] @ '');'',
     ''    archive(ar, obj.fname, '' @ [CHR 0x22] @ ''fname'' @ [CHR 0x22] @ '');'',
     ''  }'',
     ''};'',
     ''}'']"

definition event_hh_program :: "string list" where
  "event_hh_program = [
     [],
     ''struct handler_v1 {'',
     ''  static constexpr std::uint32_t program = 1074036870;'',
     ''  static constexpr const char *program_name = '' @ [CHR 0x22] @ ''event_handler'' @ [CHR 0x22] @ '';'',
     ''  static constexpr std::uint32_t version = 1;'',
     ''  static constexpr const char *version_name = '' @ [CHR 0x22] @ ''handler_v1'' @ [CHR 0x22] @ '';'',
     [],
     ''  struct event_callback_t {'',
     ''    using interface_type = handler_v1;'',
     ''    static constexpr std::uint32_t proc = 77;'',
     ''    static constexpr const char *proc_name = '' @ [CHR 0x22] @ ''event_callback'' @ [CHR 0x22] @ '';'',
     ''    using arg_type = EventContent;'',
     ''    using arg_wire_type = EventContent;'',
     ''    using res_type = void;'',
     ''    using res_wire_type = xdr::xdr_void;'',
     ''    '',
     ''    template<typename C, typename...A> static auto'',
     ''    dispatch(C &&c, A &&...a) ->'',
     ''    decltype(c.event_callback(std::forward<A>(a)...)) {'',
     ''      return c.event_callback(std::forward<A>(a)...);'',
     ''    }'',
     ''    '',
     ''    template<typename C, typename DropIfVoid, typename...A> static auto'',
     ''    dispatch_dropvoid(C &&c, DropIfVoid &&d, A &&...a) ->'',
     ''    decltype(c.event_callback(std::forward<DropIfVoid>(d), std::forward<A>(a)...)) {'',
     ''      return c.event_callback(std::forward<DropIfVoid>(d), std::forward<A>(a)...);'',
     ''    }'',
     ''  };'',
     [],
     ''  template<typename T, typename...A> static bool'',
     ''  call_dispatch(T &&t, std::uint32_t proc, A &&...a) {'',
     ''    switch(proc) {'',
     ''    case 77:'',
     ''      t.template dispatch<event_callback_t>(std::forward<A>(a)...);'',
     ''      return true;'',
     ''    }'',
     ''    return false;'',
     ''  }'',
     [],
     ''  template<typename _XDRBASE> struct client : _XDRBASE {'',
     ''    using _XDRBASE::_XDRBASE;'',
     [],
     ''    template<typename..._XDRARGS> auto'',
     ''    event_callback(_XDRARGS &&..._xdr_args) ->'',
     ''    decltype(this->_XDRBASE::template invoke<event_callback_t>(_xdr_args...)) {'',
     ''      return this->_XDRBASE::template invoke<event_callback_t>(_xdr_args...);'',
     ''    }'',
     ''  };'',
     ''};'']"

definition event_hh_tail :: "string list" where
  "event_hh_tail = [
     [],
     ''#endif // !__XDR_INCLUDE_EVENT_HH_INCLUDED__'']"

definition event_hh :: "string list" where
  "event_hh = event_hh_head @ event_hh_typedef @ event_hh_enum @ event_hh_struct @ event_hh_program @ event_hh_tail"

lemma text_of_append: "text_of_lines (xs @ ys) = text_of_lines xs @ text_of_lines ys"
  by (simp add: text_of_lines_def)

lemma typedef_generated: "play 0 (gen_symbols [] (-1) [event_typedef]) = Some (text_of_lines event_hh_typedef, 0)"
  by code_simp

lemma enum_generated: "play 0 (gen_symbols [] 4 [event_enum]) = Some (text_of_lines event_hh_enum, 0)"
  by code_simp

lemma struct_generated: "play 0 (gen_symbols [] 3 [event_struct]) = Some (text_of_lines event_hh_struct, 0)"
  by code_simp

lemma program_generated: "play 0 (gen_symbols [] 1 [event_program_x]) = Some (text_of_lines event_hh_program, 0)"
  by code_simp

lemma head_generated:
  "play 0 [Txt ''// -*- C++ -*-'', NL, Txt ''// Automatically generated from '', Txt ''include/event.x'', Txt ''.'', Endl,
       Txt ''// DO NOT EDIT or your changes may be overwritten'', Endl,
       NL, Txt ''#ifndef '', Txt (guard_token ''include/event.x'' ''include/event.hh'' []), NL, Txt ''#define '',
       Txt (guard_token ''include/event.x'' ''include/event.hh'' []), Txt '' 1'', Endl,
       NL, Txt ''#include <xdrpp/types.h>'', NL] = Some (text_of_lines event_hh_head, 0)"
  by code_simp

lemma tail_generated:
  "play 0 [NL, Txt ''#endif // !'', Txt (guard_token ''include/event.x'' ''include/event.hh'' []), NL] = Some (text_of_lines event_hh_tail, 0)"
  by code_simp

text \<open>The header \<open>include/event.hh\<close> of the repository is, to the character, what the generator
  writes for the declarations of \<open>include/event.x\<close>.\<close>

lemma event_hh_generated:
  "play 0 (gen_hh ''include/event.x'' ''include/event.hh'' event_x) = Some (text_of_lines event_hh, 0)"
proof -
  have e: "snd (snd (gen_symbol [] event_typedef)) = []" "snd (snd (gen_symbol [] event_enum)) = []" "snd (snd (gen_symbol [] event_struct)) = []"
    by (simp_all add: event_typedef_def event_enum_def event_struct_def split: prod.split)
  have "symtype event_typedef = 4" "symtype event_enum = 3" "symtype event_struct = 1"
    by (simp_all add: event_typedef_def event_enum_def event_struct_def)
  then have "gen_symbols [] (-1) event_x = gen_symbols [] (-1) [event_typedef] @ gen_symbols [] 4 [event_enum]
      @ gen_symbols [] 3 [event_struct] @ gen_symbols [] 1 [event_program_x]"
    using gen_symbols_Cons [OF e(1), of "-1" "[event_enum, event_struct, event_program_x]"]
      gen_symbols_Cons [OF e(2), of 4 "[event_struct, event_program_x]"] gen_symbols_Cons [OF e(3), of 3 "[event_program_x]"]
    unfolding event_x_def by (simp only:)
  with play_appendI [OF head_generated play_appendI [OF play_appendI [OF typedef_generated play_appendI [OF enum_generated
      play_appendI [OF struct_generated program_generated]]] tail_generated]]
  show ?thesis by (simp only: gen_hh_def Let_def event_hh_def text_of_append append_assoc)
qed

section \<open>A union\<close>

text \<open>The union \<open>RetBool\<close> as the action of the parser builds it.\<close>

definition RetBool_x :: rpc_union where
  "RetBool_x = (case union_body ''unsigned'' ''discriminant''
      [([''0''], Decl ''val'' SCALAR [] ''bool'' TS_ID), ([''1''], Decl ''errCode'' SCALAR [] ''ErrorCode'' TS_ID), ([[]], Decl [] SCALAR [] ''void'' TS_ID)] of
    Some (Union _ tt ti fs df) \<Rightarrow> Union ''RetBool'' tt ti fs df)"

text \<open>The lines of \<open>include/server.hh\<close> from the private part of the class to its last accessor, each
  after a line end, and those of its traits.\<close>

definition lines_text :: "string list \<Rightarrow> string" where
  "lines_text ls = concat (map (\<lambda>l. CHR 0x0A # l) ls)"

definition RetBool_hh_members :: "string list" where
  "RetBool_hh_members = [
     ''private:'',
     ''  std::uint32_t discriminant_;'',
     ''  union {'',
     ''    bool val_;'',
     ''    ErrorCode errCode_;'',
     ''  };'',
     [],
     ''public:'',
     ''  static_assert (sizeof (unsigned) <= 4, '' @ [CHR 0x22] @ ''union discriminant must be 4 bytes'' @ [CHR 0x22] @ '');'',
     []]"

definition RetBool_hh_field_number :: "string list" where
  "RetBool_hh_field_number = [
     ''  static constexpr int _xdr_field_number(std::uint32_t which) {'',
     ''    return which == 0 ? 1'',
     ''      : which == 1 ? 2'',
     ''      : 0;'',
     ''  }'']"

definition RetBool_hh_with_mem_ptr :: "string list" where
  "RetBool_hh_with_mem_ptr = [
     ''  template<typename _F, typename...A> static bool'',
     ''  _xdr_with_mem_ptr(_F &_f, std::uint32_t which, A&&...a) {'',
     ''    switch (which) {'',
     ''    case 0:'',
     ''      _f(&RetBool::val_, std::forward<A>(a)...);'',
     ''      return true;'',
     ''    case 1:'',
     ''      _f(&RetBool::errCode_, std::forward<A>(a)...);'',
     ''      return true;'',
     ''    default:'',
     ''      return true;'',
     ''    }'',
     ''  }'',
     []]"

definition RetBool_hh_discriminant :: "string list" where
  "RetBool_hh_discriminant = [
     ''  std::uint32_t _xdr_discriminant() const { return discriminant_; }'',
     ''  void _xdr_discriminant(std::uint32_t which, bool validate = true) {'',
     ''    int fnum = _xdr_field_number(which);'',
     ''    if (fnum < 0 && validate)'',
     ''      throw xdr::xdr_bad_discriminant('' @ [CHR 0x22] @ ''bad value of discriminant in RetBool'' @ [CHR 0x22] @ '');'',
     ''    if (fnum != _xdr_field_number(discriminant_)) {'',
     ''      this->~RetBool();'',
     ''      discriminant_ = which;'',
     ''      _xdr_with_mem_ptr(xdr::field_constructor, discriminant_, *this);'',
     ''    }'',
     ''  }'']"

definition RetBool_hh_constructors :: "string list" where
  "RetBool_hh_constructors = [
     ''  RetBool(std::uint32_t which = std::uint32_t{}) : discriminant_(which) {'',
     ''    _xdr_with_mem_ptr(xdr::field_constructor, discriminant_, *this);'',
     ''  }'',
     ''  RetBool(const RetBool &source) : discriminant_(source.discriminant_) {'',
     ''    _xdr_with_mem_ptr(xdr::field_constructor, discriminant_, *this, source);'',
     ''  }'',
     ''  RetBool(RetBool &&source) : discriminant_(source.discriminant_) {'',
     ''    _xdr_with_mem_ptr(xdr::field_constructor, discriminant_, *this,'',
     ''                      std::move(source));'',
     ''  }'',
     ''  ~RetBool() { _xdr_with_mem_ptr(xdr::field_destructor, discriminant_, *this); }'']"

definition RetBool_hh_assignments :: "string list" where
  "RetBool_hh_assignments = [
     ''  RetBool &operator=(const RetBool &source) {'',
     ''    if (_xdr_field_number(discriminant_) '',
     ''        == _xdr_field_number(source.discriminant_))'',
     ''      _xdr_with_mem_ptr(xdr::field_assigner, discriminant_, *this, source);'',
     ''    else {'',
     ''      this->~RetBool();'',
     ''      discriminant_ = std::uint32_t(-1);'',
     ''      _xdr_with_mem_ptr(xdr::field_constructor, discriminant_, *this, source);'',
     ''    }'',
     ''    discriminant_ = source.discriminant_;'',
     ''    return *this;'',
     ''  }'',
     ''  RetBool &operator=(RetBool &&source) {'',
     ''    if (_xdr_field_number(discriminant_)'',
     ''         == _xdr_field_number(source.discriminant_))'',
     ''      _xdr_with_mem_ptr(xdr::field_assigner, discriminant_, *this,'',
     ''                        std::move(source));'',
     ''    else {'',
     ''      this->~RetBool();'',
     ''      discriminant_ = std::uint32_t(-1);'',
     ''      _xdr_with_mem_ptr(xdr::field_constructor, discriminant_, *this,'',
     ''                        std::move(source));'',
     ''    }'',
     ''    discriminant_ = source.discriminant_;'',
     ''    return *this;'',
     ''  }'',
     []]"

definition RetBool_hh_tag_access :: "string list" where
  "RetBool_hh_tag_access = [
     ''  std::uint32_t discriminant() const { return std::uint32_t(discriminant_); }'',
     ''  RetBool &discriminant(unsigned _xdr_d, bool _xdr_validate = true) {'',
     ''    _xdr_discriminant(_xdr_d, _xdr_validate);'',
     ''    return *this;'',
     ''  }'',
     []]"

definition RetBool_hh_field_access :: "string list" where
  "RetBool_hh_field_access = [
     ''  bool &val() {'',
     ''    if (_xdr_field_number(discriminant_) == 1)'',
     ''      return val_;'',
     ''    throw xdr::xdr_wrong_union('' @ [CHR 0x22] @ ''RetBool: val accessed when not selected'' @ [CHR 0x22] @ '');'',
     ''  }'',
     ''  const bool &val() const {'',
     ''    if (_xdr_field_number(discriminant_) == 1)'',
     ''      return val_;'',
     ''    throw xdr::xdr_wrong_union('' @ [CHR 0x22] @ ''RetBool: val accessed when not selected'' @ [CHR 0x22] @ '');'',
     ''  }'',
     ''  ErrorCode &errCode() {'',
     ''    if (_xdr_field_number(discriminant_) == 2)'',
     ''      return errCode_;'',
     ''    throw xdr::xdr_wrong_union('' @ [CHR 0x22] @ ''RetBool: errCode accessed when not selected'' @ [CHR 0x22] @ '');'',
     ''  }'',
     ''  const ErrorCode &errCode() const {'',
     ''    if (_xdr_field_number(discriminant_) == 2)'',
     ''      return errCode_;'',
     ''    throw xdr::xdr_wrong_union('' @ [CHR 0x22] @ ''RetBool: errCode accessed when not selected'' @ [CHR 0x22] @ '');'',
     ''  }'']"

definition RetBool_hh_traits :: "string list" where
  "RetBool_hh_traits = [
     ''template<> struct xdr_traits<::RetBool> : xdr_traits_base {'',
     ''  static constexpr bool is_class = true;'',
     ''  static constexpr bool is_union = true;'',
     ''  static constexpr bool has_fixed_size = false;'',
     [],
     ''  using union_type = ::RetBool;'',
     ''  using discriminant_type = decltype(std::declval<union_type>().discriminant());'',
     [],
     ''  static constexpr const char *union_field_name(std::uint32_t which) {'',
     ''    return which == 0 ? '' @ [CHR 0x22] @ ''val'' @ [CHR 0x22],
     ''      : which == 1 ? '' @ [CHR 0x22] @ ''errCode'' @ [CHR 0x22],
     ''      : nullptr;'',
     ''  }'',
     ''  static const char *union_field_name(const union_type &u) {'',
     ''    return union_field_name(u._xdr_discriminant());'',
     ''  }'',
     [],
     ''  static std::size_t serial_size(const ::RetBool &obj) {'',
     ''    std::size_t size = 0;'',
     ''    if (!obj._xdr_with_mem_ptr(field_size, obj._xdr_discriminant(), obj, size))'',
     ''      throw xdr_bad_discriminant('' @ [CHR 0x22] @ ''bad value of discriminant in RetBool'' @ [CHR 0x22] @ '');'',
     ''    return size + 4;'',
     ''  }'',
     ''  template<typename Archive> static void'',
     ''  save(Archive &ar, const ::RetBool &obj) {'',
     ''    xdr::archive(ar, obj.discriminant(), '' @ [CHR 0x22] @ ''discriminant'' @ [CHR 0x22] @ '');'',
     ''    if (!obj._xdr_with_mem_ptr(field_archiver, obj.discriminant(), ar, obj,'',
     ''                               union_field_name(obj)))'',
     ''      throw xdr_bad_discriminant('' @ [CHR 0x22] @ ''bad value of discriminant in RetBool'' @ [CHR 0x22] @ '');'',
     ''  }'',
     ''  template<typename Archive> static void'',
     ''  load(Archive &ar, ::RetBool &obj) {'',
     ''    discriminant_type which;'',
     ''    xdr::archive(ar, which, '' @ [CHR 0x22] @ ''discriminant'' @ [CHR 0x22] @ '');'',
     ''    obj.discriminant(which);'',
     ''    obj._xdr_with_mem_ptr(field_archiver, obj.discriminant(), ar, obj,'',
     ''                          union_field_name(which));'',
     ''  }'',
     ''};'']"

lemma RetBool_text_members: "play 2 (union_members RetBool_x) = Some (lines_text RetBool_hh_members, 2)"
  by code_simp

lemma RetBool_text_field_number: "play 2 (union_field_number RetBool_x) = Some (lines_text RetBool_hh_field_number, 2)"
  by code_simp

lemma RetBool_text_with_mem_ptr: "play 2 (union_with_mem_ptr RetBool_x) = Some (lines_text RetBool_hh_with_mem_ptr, 2)"
  by code_simp

lemma RetBool_text_discriminant: "play 2 (union_discriminant RetBool_x) = Some (lines_text RetBool_hh_discriminant, 2)"
  by code_simp

lemma RetBool_text_constructors: "play 2 (union_constructors RetBool_x) = Some (lines_text RetBool_hh_constructors, 2)"
  by code_simp

lemma RetBool_text_assignments: "play 2 (union_assignments RetBool_x) = Some (lines_text RetBool_hh_assignments, 2)"
  by code_simp

lemma RetBool_text_tag_access: "play 2 (union_tag_access RetBool_x) = Some (lines_text RetBool_hh_tag_access, 2)"
  by code_simp

lemma RetBool_text_field_access: "play 2 (union_field_access RetBool_x) = Some (lines_text RetBool_hh_field_access, 2)"
  by code_simp

lemma RetBool_text_traits: "play 2 (top_union ''::RetBool'' RetBool_x) = Some (text_of_lines RetBool_hh_traits, 2)"
  by code_simp

definition RetBool_hh :: string where
  "RetBool_hh = ''struct RetBool {'' @ lines_text RetBool_hh_members @ lines_text RetBool_hh_field_number
     @ lines_text RetBool_hh_with_mem_ptr @ lines_text RetBool_hh_discriminant @ lines_text RetBool_hh_constructors
     @ lines_text RetBool_hh_assignments @ lines_text RetBool_hh_tag_access @ lines_text RetBool_hh_field_access
     @ [CHR 0x0A] @ ''}''"

text \<open>The class \<open>RetBool\<close> of \<open>include/server.hh\<close>, with its traits, is what the generator writes for the union of
  \<open>include/server.x\<close>.\<close>

theorem RetBool_generated:
  "\<exists>eos tops. gen_union [] [] RetBool_x = (eos, tops) \<and> play 0 eos = Some (RetBool_hh, 0)
    \<and> play 2 tops = Some (text_of_lines RetBool_hh_traits, 2)"
proof -
  obtain fs where u: "RetBool_x = Union ''RetBool'' ''unsigned'' ''discriminant'' fs True" "list_all (\<lambda>f. \<not> is_embedded (uf_decl f)) fs"
    by (simp add: RetBool_x_def union_body_def is_embedded_def)
  have "gen_embedded_fields [] sc fs = ([], [])" for sc
    using u(2)
  proof (induction fs)
    case (Cons f fs)
    then obtain cs n q b t df no where "f = Ufield cs (Decl n q b t TS_ID) df no"
      by (cases f; cases "uf_decl f") (auto simp: is_embedded_def)
    with Cons show ?case by simp
  qed simp
  moreover have "\<not> list_ex (\<lambda>f. is_embedded (uf_decl f)) fs" using u(2) by (simp add: list_all_iff list_ex_iff)
  ultimately have g: "gen_union [] [] RetBool_x = ([Txt ''struct '', Txt ''RetBool'', Txt '' {'', Inc] @ union_members RetBool_x @ union_field_number RetBool_x
      @ union_with_mem_ptr RetBool_x @ union_discriminant RetBool_x @ union_constructors RetBool_x @ union_assignments RetBool_x
      @ union_tag_access RetBool_x @ union_field_access RetBool_x @ [Close, Txt ''}''], top_union ''::RetBool'' RetBool_x)"
    unfolding u(1) by (simp add: push_scope_def cur_scope_def Let_def)
  have s: "play 0 [Txt ''struct '', Txt ''RetBool'', Txt '' {'', Inc] = Some (''struct RetBool {'', 2)"
    and e: "play 2 [Close, Txt ''}''] = Some ([CHR 0x0A] @ ''}'', 0)" by (simp_all add: line_start_def)
  have "play 0 (fst (gen_union [] [] RetBool_x)) = Some (RetBool_hh, 0)" unfolding g fst_conv RetBool_hh_def
    by (rule play_appendI [OF s play_appendI [OF RetBool_text_members play_appendI [OF RetBool_text_field_number play_appendI [OF RetBool_text_with_mem_ptr
        play_appendI [OF RetBool_text_discriminant play_appendI [OF RetBool_text_constructors play_appendI [OF RetBool_text_assignments
        play_appendI [OF RetBool_text_tag_access play_appendI [OF RetBool_text_field_access e]]]]]]]]])
  then show ?thesis using RetBool_text_traits unfolding g by simp
qed

lemma stoul_which: "stoul ''0'' = Some (ucast w) \<longleftrightarrow> w = (0 :: u32)" "stoul ''1'' = Some (ucast w) \<longleftrightarrow> w = (1 :: u32)"
proof -
  have d: "''0'' = digits 0" "''1'' = digits 1" by code_simp+
  have u: "unat (ucast w :: u64) = unat w" using unsigned_less [of w, where 'a = nat] by (simp add: unsigned_ucast_eq take_bit_nat_eq_self_iff)
  have s: "stoul (digits 0) = Some 0" "stoul (digits 1) = Some 1" using stoul_digits [of 0] stoul_digits [of 1] by simp_all
  have "(0 :: u64) = ucast w \<longleftrightarrow> w = 0" "(1 :: u64) = ucast w \<longleftrightarrow> w = 1"
    using u by (auto simp: word_unat_eq_iff)
  then show "stoul ''0'' = Some (ucast w) \<longleftrightarrow> w = (0 :: u32)" "stoul ''1'' = Some (ucast w) \<longleftrightarrow> w = (1 :: u32)"
    unfolding d s by simp_all
qed

text \<open>C30: The class \<open>RetBool_class\<close> of the model selects the members as the generated text does: for every
  discriminant, the function on the discriminant that is written for \<open>RetBool\<close> has the number of the
  member of the class.
\<close>

theorem RetBool_class_generated:
  "\<exists>t. play 2 (union_function RetBool_x ''which'' number_cb) = Some (t, 2)
    \<and> eval_function (\<lambda>a. stoul a = Some (ucast which)) t = Some (int_string (field_number RetBool_class which))"
proof -
  let ?eq = "\<lambda>a. stoul a = Some (ucast which)"
  have tags: "tag_text ''0'' = ''0''" "tag_text ''1'' = ''1''" by (simp_all add: tag_text_def map_tag_def)
  have "\<forall>f \<in> set (ru_fields RetBool_x). field_tokens number_cb f" "token (number_cb None)"
    by (simp_all add: RetBool_x_def union_body_def field_tokens_def token_def is_gap_def number_cb_def int_string_token [unfolded token_def is_gap_def])
  from function_correct [OF this, of 2 ?eq] obtain t where
    t: "play 2 (union_function RetBool_x ''which'' number_cb) = Some (t, 2)"
       "eval_function ?eq t = Some (number_cb (pick ?eq None (ru_fields RetBool_x)))" by auto
  have "number_cb (pick ?eq None (ru_fields RetBool_x)) = int_string (field_number RetBool_class which)"
    by (simp add: RetBool_x_def union_body_def selected_def RetBool_class_def tags number_cb_def stoul_which)
  with t show ?thesis by auto
qed

end
