(* ===== verification/Pollset_Plus.thy ===== *)
theory Pollset_Plus
  imports Pollset_Properties
begin

text \<open>
  The subclass \<open>pollset_plus\<close> of \<open>src/xdrpp/xdrpp/pollset.h\<close> and \<open>pollset.cc\<close>: callbacks from other
  threads and signals, which wake a thread in \<open>poll\<close> through a pipe. Threads, and handlers that
  interrupt them, interleave between their accesses to what no mutex protects: the pipes, and the
  owners and flags of the signals. What happens under the mutex of the asynchronous callbacks is one
  step; the mutex of the owners is held over several steps, and its state is the point of the
  operation that has it.
\<close>

section \<open>State\<close>

datatype wake_type = Normal | Signal

text \<open>What \<open>inject_cb\<close> is called with: a callback, or the end of an asynchronous task.\<close>

datatype 'cb job = Injected 'cb | Done 'cb

text \<open>
  The points of the thread that calls \<open>poll\<close>: outside of it or asleep in it; in \<open>run_pending_asyncs\<close>,
  reading the pipe, before taking the callbacks, and with callbacks to run; in
  \<open>run_subtype_handlers\<close>, before its loops, reading the flags of the signals that are left (with those
  found so far), in the loop over the signals found, and in the callback of a signal.
\<close>

datatype 'cb main_point = M_out | M_drain | M_swap | M_run "'cb job list"
  | M_subtypes | M_scan "nat list" "nat list" | M_take "nat list" | M_call 'cb "nat list"

text \<open>
  The object. \<open>working\<close> are the tasks of \<open>async\<close> whose thread has not finished, and \<open>injected\<close>, \<open>ran\<close>
  and \<open>caught\<close> record what has been injected and run so far.
\<close>

record 'cb plus =
  selfpipe :: "wake_type list"
  async_cbs :: "'cb job list"
  async_pending :: bool
  nasync :: int
  signal_pending :: bool
  signal_cbs :: "nat \<rightharpoonup> 'cb"
  main_at :: "'cb main_point"
  working :: "'cb list"
  injected :: "'cb job list"
  ran :: "'cb job list"
  caught :: "'cb list"

definition new_plus :: "'cb plus" where
  "new_plus = \<lparr>selfpipe = [], async_cbs = [], async_pending = False, nasync = 0, signal_pending = False,
     signal_cbs = Map.empty, main_at = M_out, working = [], injected = [], ran = [], caught = []\<rparr>"

text \<open>The points of \<open>signal_handler\<close>, with the signal and the owner it has read.\<close>

datatype hand_point = H_test nat | H_set nat | H_owner nat | H_wake nat nat | H_done nat

fun hand_sig :: "hand_point \<Rightarrow> nat" where
  "hand_sig (H_test sig) = sig"
| "hand_sig (H_set sig) = sig"
| "hand_sig (H_owner sig) = sig"
| "hand_sig (H_wake sig p) = sig"
| "hand_sig (H_done sig) = sig"

text \<open>
  The mutex \<open>signal_owners_lock\<close> and the point of the operation that holds it: \<open>signal_cb\<close> before it
  looks at the flag, \<open>erase_signal_cb\<close> in its loop (for the destructor of a set, or for nobody), the
  destructor between two signals, and \<open>run_subtype_handlers\<close>.
\<close>

datatype lock_point = Unlocked | Checking nat nat | Erasing nat "nat option" | Deleting nat | Taking nat

text \<open>
  The process: the static members, whether the handler is installed, the objects, and the handlers
  that run. A byte for a signal that finds the pipe full (\<open>dropped\<close>), a write past the end of a
  vector (\<open>overrun\<close>) and the use of a deleted object (\<open>dead_wake\<close>) are recorded.
\<close>

record 'cb plus_world =
  owners :: "nat \<Rightarrow> nat option"
  flags :: "nat \<Rightarrow> nat"
  handled :: "nat \<Rightarrow> bool"
  owners_lock :: lock_point
  psets :: "nat \<Rightarrow> 'cb plus"
  alive :: "nat \<Rightarrow> bool"
  hands :: "nat \<Rightarrow> hand_point option"
  raised :: "nat list"
  dropped :: bool
  overrun :: bool
  dead_wake :: bool

definition new_plus_world :: "nat set \<Rightarrow> 'cb plus_world" where
  "new_plus_world ps = \<lparr>owners = (\<lambda>_. None), flags = (\<lambda>_. 0), handled = (\<lambda>_. False), owners_lock = Unlocked,
     psets = (\<lambda>_. new_plus), alive = (\<lambda>p. p \<in> ps), hands = (\<lambda>_. None), raised = [], dropped = False,
     overrun = False, dead_wake = False\<rparr>"

definition set_plus :: "nat \<Rightarrow> 'cb plus \<Rightarrow> 'cb plus_world \<Rightarrow> 'cb plus_world" where
  "set_plus p s w = w\<lparr>psets := (psets w)(p := s)\<rparr>"

section \<open>The pipe\<close>

text \<open>A write of one byte to a pipe that holds \<open>cap\<close> bytes and does not block.\<close>

definition wake :: "nat \<Rightarrow> wake_type \<Rightarrow> 'cb plus \<Rightarrow> 'cb plus" where
  "wake cap b s = (if length (selfpipe s) < cap then s\<lparr>selfpipe := selfpipe s @ [b]\<rparr> else s)"

definition wake_signal :: "nat \<Rightarrow> nat \<Rightarrow> 'cb plus_world \<Rightarrow> 'cb plus_world" where
  "wake_signal cap p w =
     (if alive w p
      then (set_plus p (wake cap Signal (psets w p)) w)\<lparr>dropped := dropped w \<or> cap \<le> length (selfpipe (psets w p))\<rparr>
      else w\<lparr>dead_wake := True\<rparr>)"

section \<open>Callbacks from other threads\<close>

definition inject_cb :: "nat \<Rightarrow> 'cb job \<Rightarrow> 'cb plus \<Rightarrow> 'cb plus" where
  "inject_cb cap j s =
     (let s = s\<lparr>async_cbs := async_cbs s @ [j], injected := injected s @ [j]\<rparr> in
      if async_pending s then s else wake cap Normal (s\<lparr>async_pending := True\<rparr>))"

definition async :: "'cb \<Rightarrow> 'cb plus \<Rightarrow> 'cb plus" where
  "async cb s = s\<lparr>nasync := nasync s + 1, working := working s @ [cb]\<rparr>"

text \<open>\<open>async_task::start\<close>, after its work.\<close>

definition task_start :: "nat \<Rightarrow> 'cb \<Rightarrow> 'cb plus \<Rightarrow> 'cb plus option" where
  "task_start cap cb s =
     (if cb \<in> set (working s) then Some (inject_cb cap (Done cb) (s\<lparr>working := remove1 cb (working s)\<rparr>)) else None)"

text \<open>
  The system call in \<open>poll\<close> returns: with the pipe among the descriptors that can be read, or for
  another reason.
\<close>

definition poll_returns :: "'cb plus \<Rightarrow> 'cb plus option" where
  "poll_returns s =
     (if main_at s = M_out then Some (s\<lparr>main_at := (if selfpipe s = [] then M_subtypes else M_drain)\<rparr>) else None)"

text \<open>\<open>run_pending_asyncs\<close>: one \<open>read\<close> of its loop, taking the callbacks, and running one.\<close>

definition drain :: "'cb plus \<Rightarrow> 'cb plus option" where
  "drain s =
     (if main_at s \<noteq> M_drain then None
      else if selfpipe s = [] then Some (s\<lparr>main_at := M_swap\<rparr>)
      else Some (s\<lparr>selfpipe := drop 128 (selfpipe s), signal_pending := signal_pending s \<or> Signal \<in> set (take 128 (selfpipe s))\<rparr>))"

definition swap_asyncs :: "'cb plus \<Rightarrow> 'cb plus option" where
  "swap_asyncs s =
     (if main_at s = M_swap then Some (s\<lparr>async_pending := False, async_cbs := [], main_at := M_run (async_cbs s)\<rparr>) else None)"

definition begin_job :: "'cb job \<Rightarrow> 'cb plus \<Rightarrow> 'cb plus" where
  "begin_job j s = s\<lparr>ran := ran s @ [j], nasync := nasync s - (case j of Done _ \<Rightarrow> 1 | Injected _ \<Rightarrow> 0)\<rparr>"

definition run_async :: "'cb plus \<Rightarrow> 'cb plus option" where
  "run_async s = (case main_at s of
     M_run [] \<Rightarrow> Some (s\<lparr>main_at := M_subtypes\<rparr>)
   | M_run (j # js) \<Rightarrow> Some ((begin_job j s)\<lparr>main_at := M_run js\<rparr>)
   | _ \<Rightarrow> None)"

text \<open>
  A callback throws: the destructor of \<open>cleanup\<close> calls \<open>inject_cb_vec\<close> on those that are left, which
  moves them to the end of \<open>async_cbs_\<close> without making room.
\<close>

definition throw_async :: "nat \<Rightarrow> 'cb plus_world \<Rightarrow> 'cb plus_world option" where
  "throw_async p w = (case main_at (psets w p) of
     M_run (j # js) \<Rightarrow> Some ((set_plus p ((begin_job j (psets w p))\<lparr>main_at := M_out\<rparr>) w)\<lparr>overrun := overrun w \<or> js \<noteq> []\<rparr>)
   | _ \<Rightarrow> None)"

section \<open>Signals\<close>

definition signal_handler :: "nat \<Rightarrow> nat \<Rightarrow> 'cb plus_world \<Rightarrow> 'cb plus_world option" where
  "signal_handler cap h w = (case hands w h of
     None \<Rightarrow> None
   | Some (H_test sig) \<Rightarrow> Some (w\<lparr>hands := (hands w)(h := if flags w sig \<noteq> 0 then None else Some (H_set sig))\<rparr>)
   | Some (H_set sig) \<Rightarrow> Some (w\<lparr>flags := (flags w)(sig := 1), hands := (hands w)(h \<mapsto> H_owner sig)\<rparr>)
   | Some (H_owner sig) \<Rightarrow> Some (w\<lparr>hands := (hands w)(h \<mapsto> (case owners w sig of Some p \<Rightarrow> H_wake sig p | None \<Rightarrow> H_done sig))\<rparr>)
   | Some (H_wake sig p) \<Rightarrow> Some ((wake_signal cap p w)\<lparr>hands := (hands w)(h \<mapsto> H_done sig)\<rparr>)
   | Some (H_done sig) \<Rightarrow> Some (w\<lparr>flags := (flags w)(sig := 2), hands := (hands w)(h := None)\<rparr>))"

text \<open>The kernel runs the handler for a signal, as \<open>h\<close>.\<close>

definition deliver :: "nat \<Rightarrow> nat \<Rightarrow> 'cb plus_world \<Rightarrow> 'cb plus_world option" where
  "deliver h sig w = (if handled w sig \<and> hands w h = None then Some (w\<lparr>hands := (hands w)(h \<mapsto> H_test sig)\<rparr>) else None)"

text \<open>The keys of a map from signals, in their order.\<close>

definition sig_keys :: "(nat \<rightharpoonup> 'b) \<Rightarrow> nat list" where
  "sig_keys m = filter (\<lambda>i. m i \<noteq> None) [1..<32]"

text \<open>\<open>run_subtype_handlers\<close>\<close>

definition scan_signals :: "nat \<Rightarrow> 'cb plus_world \<Rightarrow> 'cb plus_world option" where
  "scan_signals p w =
     (let s = psets w p in
      if main_at s \<noteq> M_subtypes then None
      else if \<not> signal_pending s then Some (set_plus p (s\<lparr>main_at := M_out\<rparr>) w)
      else if owners_lock w \<noteq> Unlocked then None
      else Some ((set_plus p (s\<lparr>main_at := M_scan (sig_keys (signal_cbs s)) []\<rparr>) w)\<lparr>owners_lock := Taking p\<rparr>))"

definition look_flag :: "nat \<Rightarrow> 'cb plus_world \<Rightarrow> 'cb plus_world option" where
  "look_flag p w =
     (let s = psets w p in
      case main_at s of
        M_scan [] found \<Rightarrow> Some (set_plus p (s\<lparr>main_at := M_take found\<rparr>) w)
      | M_scan (i # is) found \<Rightarrow> Some (set_plus p (s\<lparr>main_at := M_scan is (if flags w i \<noteq> 0 then found @ [i] else found)\<rparr>) w)
      | _ \<Rightarrow> None)"

definition take_signal :: "nat \<Rightarrow> 'cb plus_world \<Rightarrow> 'cb plus_world option" where
  "take_signal p w =
     (let s = psets w p in
      case main_at s of
        M_take [] \<Rightarrow> Some ((set_plus p (s\<lparr>signal_pending := False, main_at := M_out\<rparr>) w)\<lparr>owners_lock := Unlocked\<rparr>)
      | M_take (i # is) \<Rightarrow> (case signal_cbs s i of
          None \<Rightarrow> Some (set_plus p (s\<lparr>main_at := M_take is\<rparr>) w)
        | Some cb \<Rightarrow>
            if odd (flags w i) then None
            else Some ((set_plus p (s\<lparr>main_at := M_call cb is, caught := caught s @ [cb]\<rparr>) w)
              \<lparr>flags := (flags w)(i := 0), owners_lock := Unlocked\<rparr>))
      | _ \<Rightarrow> None)"

text \<open>The callback of a signal returns, or throws.\<close>

definition call_returns :: "nat \<Rightarrow> 'cb plus_world \<Rightarrow> 'cb plus_world option" where
  "call_returns p w = (case main_at (psets w p) of
     M_call cb is \<Rightarrow>
       if owners_lock w \<noteq> Unlocked then None
       else Some ((set_plus p ((psets w p)\<lparr>main_at := M_take is\<rparr>) w)\<lparr>owners_lock := Taking p\<rparr>)
   | _ \<Rightarrow> None)"

definition call_throws :: "nat \<Rightarrow> 'cb plus_world \<Rightarrow> 'cb plus_world option" where
  "call_throws p w = (case main_at (psets w p) of
     M_call cb is \<Rightarrow> Some (set_plus p ((psets w p)\<lparr>main_at := M_out\<rparr>) w)
   | _ \<Rightarrow> None)"

text \<open>
  \<open>signal_cb(sig, cb)\<close> for a signal with a handler: up to the look at the flag, which is the second
  definition. \<open>sigaction\<close> fails for \<open>SIGKILL\<close> and \<open>SIGSTOP\<close> only; these are left out.
\<close>

definition catchable :: "nat \<Rightarrow> bool" where
  "catchable sig \<longleftrightarrow> 0 < sig \<and> sig < 32 \<and> sig \<noteq> 9 \<and> sig \<noteq> 19"

definition erase_cb :: "nat \<Rightarrow> nat \<Rightarrow> 'cb plus_world \<Rightarrow> 'cb plus_world" where
  "erase_cb p sig w = set_plus p ((psets w p)\<lparr>signal_cbs := (signal_cbs (psets w p))(sig := None)\<rparr>) w"

definition signal_cb :: "nat \<Rightarrow> nat \<Rightarrow> 'cb \<Rightarrow> 'cb plus_world \<Rightarrow> 'cb plus_world option" where
  "signal_cb p sig cb w =
     (if owners_lock w \<noteq> Unlocked \<or> \<not> catchable sig then None
      else let w = set_plus p ((psets w p)\<lparr>signal_cbs := (signal_cbs (psets w p))(sig \<mapsto> cb)\<rparr>) w in
      if owners w sig = Some p then Some w
      else Some ((case owners w sig of
          Some q \<Rightarrow> erase_cb q sig w
        | None \<Rightarrow> w\<lparr>handled := (handled w)(sig := True)\<rparr>)
        \<lparr>owners := (owners w)(sig \<mapsto> p), owners_lock := Checking p sig\<rparr>))"

definition check_flag :: "nat \<Rightarrow> 'cb plus_world \<Rightarrow> 'cb plus_world option" where
  "check_flag cap w = (case owners_lock w of
     Checking p sig \<Rightarrow> Some ((if flags w sig \<noteq> 0 then wake_signal cap p w else w)\<lparr>owners_lock := Unlocked\<rparr>)
   | _ \<Rightarrow> None)"

text \<open>\<open>erase_signal_cb(sig)\<close>, up to its loop and from it on; \<open>k\<close> is the set whose destructor has called it.\<close>

definition erased :: "nat option \<Rightarrow> lock_point" where
  "erased k = (case k of None \<Rightarrow> Unlocked | Some p \<Rightarrow> Deleting p)"

definition erase_signal_cb :: "nat \<Rightarrow> nat option \<Rightarrow> 'cb plus_world \<Rightarrow> 'cb plus_world" where
  "erase_signal_cb sig k w = (case owners w sig of
     None \<Rightarrow> w\<lparr>owners_lock := erased k\<rparr>
   | Some p \<Rightarrow> (erase_cb p sig w)\<lparr>handled := (handled w)(sig := False), owners := (owners w)(sig := None),
       owners_lock := Erasing sig k\<rparr>)"

definition erase_spin :: "'cb plus_world \<Rightarrow> 'cb plus_world option" where
  "erase_spin w = (case owners_lock w of
     Erasing sig k \<Rightarrow>
       if odd (flags w sig) then None
       else Some (w\<lparr>flags := (flags w)(sig := 0), raised := (if flags w sig \<noteq> 0 then raised w @ [sig] else raised w),
         owners_lock := erased k\<rparr>)
   | _ \<Rightarrow> None)"

text \<open>\<open>signal_cb(sig)\<close>, without a callback.\<close>

definition signal_cb_clear :: "nat \<Rightarrow> 'cb plus_world \<Rightarrow> 'cb plus_world option" where
  "signal_cb_clear sig w =
     (if owners_lock w \<noteq> Unlocked \<or> \<not> catchable sig then None else Some (erase_signal_cb sig None w))"

text \<open>The destructor: it locks the mutex, and the loop over the signals.\<close>

definition delete_start :: "nat \<Rightarrow> 'cb plus_world \<Rightarrow> 'cb plus_world option" where
  "delete_start p w =
     (if alive w p \<and> main_at (psets w p) = M_out \<and> owners_lock w = Unlocked then Some (w\<lparr>owners_lock := Deleting p\<rparr>) else None)"

definition delete_next :: "'cb plus_world \<Rightarrow> 'cb plus_world option" where
  "delete_next w = (case owners_lock w of
     Deleting p \<Rightarrow> (case sig_keys (signal_cbs (psets w p)) of
       [] \<Rightarrow> Some (w\<lparr>alive := (alive w)(p := False), owners_lock := Unlocked\<rparr>)
     | sig # _ \<Rightarrow> Some (erase_signal_cb sig (Some p) w))
   | _ \<Rightarrow> None)"

section \<open>Steps\<close>

datatype 'cb act = Inject nat 'cb | Wake nat | Async nat 'cb | Work_done nat 'cb
  | Poll nat | Drain nat | Swap nat | Run nat | Throw nat
  | Scan nat | Look nat | Take nat | Return nat | Call_throw nat
  | Signal_cb nat nat 'cb | Check | Clear nat | Spin | Delete nat | Delete_next
  | Deliver nat nat | Handler nat

text \<open>A step of one set, by a thread that may use it; nobody polls a set that is being destroyed.\<close>

definition on_plus :: "nat \<Rightarrow> ('cb plus \<Rightarrow> 'cb plus option) \<Rightarrow> 'cb plus_world \<Rightarrow> 'cb plus_world option" where
  "on_plus p f w = (if alive w p then map_option (\<lambda>s. set_plus p s w) (f (psets w p)) else None)"

definition in_delete :: "nat \<Rightarrow> 'cb plus_world \<Rightarrow> bool" where
  "in_delete p w \<longleftrightarrow> (case owners_lock w of Deleting q \<Rightarrow> q = p | Erasing sig k \<Rightarrow> k = Some p | _ \<Rightarrow> False)"

fun plus_act :: "nat \<Rightarrow> 'cb act \<Rightarrow> 'cb plus_world \<Rightarrow> 'cb plus_world option" where
  "plus_act cap (Inject p cb) w = on_plus p (\<lambda>s. Some (inject_cb cap (Injected cb) s)) w"
| "plus_act cap (Wake p) w = on_plus p (\<lambda>s. Some (wake cap Normal s)) w"
| "plus_act cap (Async p cb) w = on_plus p (\<lambda>s. Some (async cb s)) w"
| "plus_act cap (Work_done p cb) w = on_plus p (task_start cap cb) w"
| "plus_act cap (Poll p) w = (if in_delete p w then None else on_plus p poll_returns w)"
| "plus_act cap (Drain p) w = on_plus p drain w"
| "plus_act cap (Swap p) w = on_plus p swap_asyncs w"
| "plus_act cap (Run p) w = on_plus p run_async w"
| "plus_act cap (Throw p) w = throw_async p w"
| "plus_act cap (Scan p) w = scan_signals p w"
| "plus_act cap (Look p) w = look_flag p w"
| "plus_act cap (Take p) w = take_signal p w"
| "plus_act cap (Return p) w = call_returns p w"
| "plus_act cap (Call_throw p) w = call_throws p w"
| "plus_act cap (Signal_cb p sig cb) w = (if alive w p then signal_cb p sig cb w else None)"
| "plus_act cap Check w = check_flag cap w"
| "plus_act cap (Clear sig) w = signal_cb_clear sig w"
| "plus_act cap Spin w = erase_spin w"
| "plus_act cap (Delete p) w = delete_start p w"
| "plus_act cap Delete_next w = delete_next w"
| "plus_act cap (Deliver h sig) w = deliver h sig w"
| "plus_act cap (Handler h) w = signal_handler cap h w"

text \<open>
  Histories, with a condition on the steps: at most one handler of a signal runs at a time
  (\<open>one_handler\<close>), no set takes a signal from another one (\<open>no_steal\<close>), and no callback throws
  (\<open>no_throw\<close>). The kernel promises none of these: while a handler runs, its signal is blocked in the
  thread that it has interrupted, not in the others.
\<close>

definition one_handler :: "'cb act \<Rightarrow> 'cb plus_world \<Rightarrow> bool" where
  "one_handler a w = (case a of
     Deliver h sig \<Rightarrow> \<forall>h'. map_option hand_sig (hands w h') \<noteq> Some sig
   | _ \<Rightarrow> True)"

definition no_steal :: "'cb act \<Rightarrow> 'cb plus_world \<Rightarrow> bool" where
  "no_steal a w = (case a of
     Signal_cb p sig cb \<Rightarrow> owners w sig = None \<or> owners w sig = Some p
   | _ \<Rightarrow> True)"

definition no_throw :: "'cb act \<Rightarrow> 'cb plus_world \<Rightarrow> bool" where
  "no_throw a w = (case a of Throw p \<Rightarrow> False | Call_throw p \<Rightarrow> False | _ \<Rightarrow> True)"

inductive plus_reach :: "nat \<Rightarrow> ('cb act \<Rightarrow> 'cb plus_world \<Rightarrow> bool) \<Rightarrow> nat set \<Rightarrow> 'cb plus_world \<Rightarrow> bool"
  for cap ok ps where
  plus_start: "plus_reach cap ok ps (new_plus_world ps)"
| plus_step: "plus_reach cap ok ps w \<Longrightarrow> ok a w \<Longrightarrow> plus_act cap a w = Some w' \<Longrightarrow> plus_reach cap ok ps w'"

fun plus_run :: "nat \<Rightarrow> ('cb act \<Rightarrow> 'cb plus_world \<Rightarrow> bool) \<Rightarrow> 'cb act list \<Rightarrow> 'cb plus_world \<Rightarrow> 'cb plus_world option" where
  "plus_run cap ok [] w = Some w"
| "plus_run cap ok (a # as) w = (if ok a w then Option.bind (plus_act cap a w) (plus_run cap ok as) else None)"

section \<open>The object and its poll set\<close>

text \<open>
  The constructor registers the reading end of the pipe with the poll set, with \<open>run_pending_asyncs\<close>
  as the callback; \<open>pending\<close> asks whether anything is left to wait for.
\<close>

definition plus_pollset :: "nat \<Rightarrow> 'cb \<Rightarrow> ps_error + 'cb pollset" where
  "plus_pollset fd run_pending = fd_cb fd Read (Some run_pending) new_pollset"

definition pending :: "'cb plus \<Rightarrow> 'c pollset \<Rightarrow> bool" where
  "pending s ps \<longleftrightarrow> nasync s \<noteq> 0 \<or> num_cbs ps \<noteq> 0"

end
