(* ===== verification/Pollset_Plus_Properties.thy ===== *)
theory Pollset_Plus_Properties
  imports Pollset_Plus
begin

text \<open>
  What holds in every interleaving of threads and signal handlers: callbacks of other threads are run
  once and in order, a set sleeps only when there is nothing to do for it, and no handler uses a
  deleted set as long as no signal is taken from one.
\<close>

section \<open>Accessors\<close>

lemma set_plus_simps [simp]:
  "owners (set_plus p s w) = owners w" "flags (set_plus p s w) = flags w" "handled (set_plus p s w) = handled w"
  "owners_lock (set_plus p s w) = owners_lock w" "psets (set_plus p s w) = (psets w)(p := s)"
  "alive (set_plus p s w) = alive w" "hands (set_plus p s w) = hands w" "raised (set_plus p s w) = raised w"
  "dropped (set_plus p s w) = dropped w" "overrun (set_plus p s w) = overrun w" "dead_wake (set_plus p s w) = dead_wake w"
  by (simp_all add: set_plus_def)

lemma wake_simps [simp]:
  "async_cbs (wake cap b s) = async_cbs s" "async_pending (wake cap b s) = async_pending s" "nasync (wake cap b s) = nasync s"
  "signal_pending (wake cap b s) = signal_pending s" "signal_cbs (wake cap b s) = signal_cbs s" "main_at (wake cap b s) = main_at s"
  "working (wake cap b s) = working s" "injected (wake cap b s) = injected s" "ran (wake cap b s) = ran s"
  "caught (wake cap b s) = caught s"
  by (simp_all add: wake_def)

lemma wake_signal_simps [simp]:
  "owners (wake_signal cap p w) = owners w" "flags (wake_signal cap p w) = flags w" "handled (wake_signal cap p w) = handled w"
  "owners_lock (wake_signal cap p w) = owners_lock w" "alive (wake_signal cap p w) = alive w" "hands (wake_signal cap p w) = hands w"
  "overrun (wake_signal cap p w) = overrun w"
  "psets (wake_signal cap p w) = (if alive w p then (psets w)(p := wake cap Signal (psets w p)) else psets w)"
  by (simp_all add: wake_signal_def)

lemma inject_cb_simps [simp]:
  "async_cbs (inject_cb cap j s) = async_cbs s @ [j]" "injected (inject_cb cap j s) = injected s @ [j]" "async_pending (inject_cb cap j s)"
  "nasync (inject_cb cap j s) = nasync s" "signal_pending (inject_cb cap j s) = signal_pending s"
  "signal_cbs (inject_cb cap j s) = signal_cbs s" "main_at (inject_cb cap j s) = main_at s"
  "working (inject_cb cap j s) = working s" "ran (inject_cb cap j s) = ran s"
  by (simp_all add: inject_cb_def Let_def)

lemma begin_job_simps [simp]:
  "ran (begin_job j s) = ran s @ [j]" "async_cbs (begin_job j s) = async_cbs s" "injected (begin_job j s) = injected s"
  "async_pending (begin_job j s) = async_pending s" "selfpipe (begin_job j s) = selfpipe s" "signal_cbs (begin_job j s) = signal_cbs s"
  "signal_pending (begin_job j s) = signal_pending s" "working (begin_job j s) = working s"
  by (simp_all add: begin_job_def)

lemma erase_cb_simps [simp]:
  "owners (erase_cb p sig w) = owners w" "flags (erase_cb p sig w) = flags w" "handled (erase_cb p sig w) = handled w"
  "alive (erase_cb p sig w) = alive w" "hands (erase_cb p sig w) = hands w" "overrun (erase_cb p sig w) = overrun w"
  "dropped (erase_cb p sig w) = dropped w" "dead_wake (erase_cb p sig w) = dead_wake w" "owners_lock (erase_cb p sig w) = owners_lock w"
  "psets (erase_cb p sig w) = (psets w)(p := (psets w p)\<lparr>signal_cbs := (signal_cbs (psets w p))(sig := None)\<rparr>)"
  by (simp_all add: erase_cb_def)

lemma sig_keys_iff: "i \<in> set (sig_keys m) \<longleftrightarrow> m i \<noteq> None \<and> 0 < i \<and> i < 32"
  by (auto simp: sig_keys_def)

lemmas plus_defs = on_plus_def async_def task_start_def poll_returns_def drain_def swap_asyncs_def run_async_def
  throw_async_def scan_signals_def look_flag_def take_signal_def call_returns_def call_throws_def signal_cb_def check_flag_def
  signal_cb_clear_def erase_spin_def delete_start_def delete_next_def deliver_def signal_handler_def erase_signal_cb_def
  erased_def Let_def

lemmas plus_splits = if_splits option.splits main_point.splits list.splits lock_point.splits hand_point.splits

section \<open>Callbacks of other threads\<close>

fun jobs :: "'cb main_point \<Rightarrow> 'cb job list" where
  "jobs (M_run js) = js"
| "jobs _ = []"

definition is_done :: "'cb job \<Rightarrow> bool" where
  "is_done j \<longleftrightarrow> (case j of Done _ \<Rightarrow> True | Injected _ \<Rightarrow> False)"

definition to_run :: "'cb plus \<Rightarrow> 'cb job list" where
  "to_run s = jobs (main_at s) @ async_cbs s"

definition in_order :: "'cb plus \<Rightarrow> bool" where
  "in_order s \<longleftrightarrow> injected s = ran s @ to_run s
    \<and> nasync s = int (length (working s)) + int (length (filter is_done (to_run s)))"

lemma in_order_frame [simp]:
  "in_order (s\<lparr>signal_pending := b\<rparr>) = in_order s" "in_order (s\<lparr>signal_cbs := m\<rparr>) = in_order s"
  "in_order (s\<lparr>caught := c\<rparr>) = in_order s" "in_order (s\<lparr>selfpipe := b'\<rparr>) = in_order s"
  "in_order (s\<lparr>async_pending := b\<rparr>) = in_order s" "in_order (wake cap b'' s) = in_order s"
  by (simp_all add: in_order_def to_run_def)

lemma in_order_goto: "jobs (main_at s) = jobs m \<Longrightarrow> in_order (s\<lparr>main_at := m\<rparr>) = in_order s"
  by (simp add: in_order_def to_run_def)

lemma in_order_inject: "in_order s \<Longrightarrow> in_order (inject_cb cap (Injected cb) s)"
  by (simp add: in_order_def to_run_def is_done_def)

lemma in_order_async: "in_order s \<Longrightarrow> in_order (async cb s)"
  by (simp add: in_order_def to_run_def async_def)

lemma length_remove1_in: "x \<in> set xs \<Longrightarrow> length xs = Suc (length (remove1 x xs))"
  by (induction xs) auto

lemma in_order_task: "task_start cap cb s = Some s' \<Longrightarrow> in_order s \<Longrightarrow> in_order s'"
  using length_remove1_in [of cb "working s"]
  by (auto simp: task_start_def in_order_def to_run_def is_done_def simp del: length_remove1 split: if_splits)

lemma in_order_poll: "poll_returns s = Some s' \<Longrightarrow> in_order s \<Longrightarrow> in_order s'"
  by (auto simp: poll_returns_def in_order_goto split: if_splits)

lemma in_order_drain: "drain s = Some s' \<Longrightarrow> in_order s \<Longrightarrow> in_order s'"
  by (auto simp: drain_def in_order_goto split: if_splits)

lemma in_order_swap: "swap_asyncs s = Some s' \<Longrightarrow> in_order s \<Longrightarrow> in_order s'"
  by (auto simp: swap_asyncs_def in_order_def to_run_def split: if_splits)

lemma in_order_begin: "main_at s = M_run (j # js) \<Longrightarrow> in_order s \<Longrightarrow> in_order ((begin_job j s)\<lparr>main_at := M_run js\<rparr>)"
  by (cases j) (auto simp: begin_job_def in_order_def to_run_def is_done_def)

lemma in_order_run: "run_async s = Some s' \<Longrightarrow> in_order s \<Longrightarrow> in_order s'"
  by (auto simp: run_async_def in_order_goto in_order_begin split: main_point.splits list.splits)

lemma in_order_end: "main_at s = M_run [j] \<Longrightarrow> in_order s \<Longrightarrow> in_order ((begin_job j s)\<lparr>main_at := M_out\<rparr>)"
  by (cases j) (auto simp: begin_job_def in_order_def to_run_def is_done_def)

lemma in_order_own:
  assumes "\<And>s s'. f s = Some s' \<Longrightarrow> in_order s \<Longrightarrow> in_order s'" "on_plus p f w = Some w'" "\<forall>p. in_order (psets w p)"
  shows "in_order (psets w' q)"
  using assms by (auto simp: on_plus_def split: if_splits)

lemma in_order_throw: "throw_async p w = Some w' \<Longrightarrow> \<forall>p. in_order (psets w p) \<Longrightarrow> \<not> overrun w' \<Longrightarrow> in_order (psets w' q)"
  by (auto simp: throw_async_def in_order_end split: main_point.splits list.splits)

lemma in_order_signals:
  assumes "\<forall>p. in_order (psets w p)"
  shows "scan_signals p w = Some w' \<Longrightarrow> in_order (psets w' q)"
    "take_signal p w = Some w' \<Longrightarrow> in_order (psets w' q)"
    "call_returns p w = Some w' \<Longrightarrow> in_order (psets w' q)"
    "call_throws p w = Some w' \<Longrightarrow> in_order (psets w' q)"
    "signal_cb p sig cb w = Some w' \<Longrightarrow> in_order (psets w' q)"
    "check_flag cap w = Some w' \<Longrightarrow> in_order (psets w' q)"
    "in_order (psets (erase_signal_cb sig k w) q)"
    "erase_spin w = Some w' \<Longrightarrow> in_order (psets w' q)"
    "signal_handler cap h w = Some w' \<Longrightarrow> in_order (psets w' q)"
proof -
  show "in_order (psets w' q)" if "scan_signals p w = Some w'"
    using that assms by (auto simp: scan_signals_def in_order_goto Let_def split: if_splits)
  show "in_order (psets w' q)" if "take_signal p w = Some w'"
    using that assms by (auto simp: take_signal_def in_order_goto Let_def split: main_point.splits list.splits option.splits if_splits)
  show "in_order (psets w' q)" if "call_returns p w = Some w'"
    using that assms by (auto simp: call_returns_def in_order_goto split: main_point.splits if_splits)
  show "in_order (psets w' q)" if "call_throws p w = Some w'"
    using that assms by (auto simp: call_throws_def in_order_goto split: main_point.splits)
  show "in_order (psets w' q)" if "signal_cb p sig cb w = Some w'"
    using that assms by (auto simp: signal_cb_def Let_def split: if_splits option.splits)
  show "in_order (psets w' q)" if "check_flag cap w = Some w'"
    using that assms by (auto simp: check_flag_def split: lock_point.splits if_splits)
  show e: "in_order (psets (erase_signal_cb sig k w) q)" for sig k
    using assms by (auto simp: erase_signal_cb_def split: option.splits)
  show "in_order (psets w' q)" if "erase_spin w = Some w'"
    using that assms by (auto simp: erase_spin_def split: lock_point.splits if_splits)
  show "in_order (psets w' q)" if "signal_handler cap h w = Some w'"
    using that assms by (auto simp: signal_handler_def split: option.splits hand_point.splits)
qed

lemma in_order_step:
  assumes "plus_act cap a w = Some w'" "\<forall>p. in_order (psets w p)" "\<not> overrun w'"
  shows "in_order (psets w' q)"
proof (cases a)
  case (Inject p cb)
  then show ?thesis using assms by (auto simp: on_plus_def in_order_inject split: if_splits)
next
  case (Wake p)
  then show ?thesis using assms by (auto simp: on_plus_def split: if_splits)
next
  case (Async p cb)
  then show ?thesis using assms by (auto simp: on_plus_def in_order_async split: if_splits)
next
  case (Throw p)
  then show ?thesis using assms in_order_throw by auto
next
  case (Poll p)
  then show ?thesis using assms by (auto intro: in_order_own [OF in_order_poll] split: if_splits)
next
  case (Signal_cb p sig cb)
  then show ?thesis using assms in_order_signals(5) by (auto split: if_splits)
next
  case (Clear sig)
  then show ?thesis using assms by (auto simp: signal_cb_clear_def in_order_signals(7) split: if_splits)
next
  case Delete_next
  then show ?thesis using assms by (auto simp: delete_next_def in_order_signals(7) split: lock_point.splits list.splits)
next
  case (Work_done p cb)
  then show ?thesis using assms by (auto intro: in_order_own [OF in_order_task])
next
  case (Drain p)
  then show ?thesis using assms by (auto intro: in_order_own [OF in_order_drain])
next
  case (Swap p)
  then show ?thesis using assms by (auto intro: in_order_own [OF in_order_swap])
next
  case (Run p)
  then show ?thesis using assms by (auto intro: in_order_own [OF in_order_run])
next
  case (Scan p)
  then show ?thesis using assms by (auto intro: in_order_signals(1))
next
  case (Look p)
  then show ?thesis using assms by (auto simp: look_flag_def Let_def in_order_goto split: main_point.splits list.splits)
next
  case (Take p)
  then show ?thesis using assms by (auto intro: in_order_signals(2))
next
  case (Return p)
  then show ?thesis using assms by (auto intro: in_order_signals(3))
next
  case (Call_throw p)
  then show ?thesis using assms by (auto intro: in_order_signals(4))
next
  case Check
  then show ?thesis using assms by (auto intro: in_order_signals(6))
next
  case Spin
  then show ?thesis using assms by (auto intro: in_order_signals(8))
next
  case (Handler h)
  then show ?thesis using assms by (auto intro: in_order_signals(9))
qed (use assms in \<open>auto simp: delete_start_def deliver_def split: if_splits\<close>)

lemma overrun_step: "plus_act cap a w = Some w' \<Longrightarrow> overrun w \<Longrightarrow> overrun w'"
  by (cases a) (auto simp: plus_defs split: plus_splits)

section \<open>Owners of signals\<close>

definition own_ok :: "'cb plus_world \<Rightarrow> bool" where
  "own_ok w \<longleftrightarrow> (\<forall>sig p. owners w sig = Some p \<longleftrightarrow> signal_cbs (psets w p) sig \<noteq> None)
    \<and> (\<forall>sig p. owners w sig = Some p \<longrightarrow> alive w p \<and> catchable sig)"

lemma own_okD:
  "own_ok w \<Longrightarrow> owners w sig = Some p \<Longrightarrow> signal_cbs (psets w p) sig \<noteq> None \<and> alive w p \<and> catchable sig"
  "own_ok w \<Longrightarrow> signal_cbs (psets w p) sig \<noteq> None \<Longrightarrow> owners w sig = Some p"
  by (auto simp: own_ok_def)

lemma own_ok_erase:
  assumes "own_ok w"
  shows "own_ok (erase_signal_cb sig k w)"
proof (cases "owners w sig")
  case None
  with assms show ?thesis by (simp add: erase_signal_cb_def own_ok_def)
next
  case (Some p)
  have "signal_cbs (psets w q) sig = None \<longleftrightarrow> q \<noteq> p" for q
    using own_okD [OF assms] Some by (metis option.inject)
  moreover have "erase_signal_cb sig k w = (erase_cb p sig w)\<lparr>handled := (handled w)(sig := False),
      owners := (owners w)(sig := None), owners_lock := Erasing sig k\<rparr>"
    using Some by (simp add: erase_signal_cb_def)
  ultimately show ?thesis using assms unfolding own_ok_def by (auto split: if_splits)
qed

lemma own_ok_empty:
  assumes "own_ok w" "sig_keys (signal_cbs (psets w p)) = []"
  shows "owners w sig \<noteq> Some p"
proof
  assume "owners w sig = Some p"
  from own_okD(1) [OF assms(1) this] have "sig \<in> set (sig_keys (signal_cbs (psets w p)))"
    by (auto simp: sig_keys_iff catchable_def)
  with assms(2) show False by simp
qed

lemma own_step:
  assumes "plus_act cap a w = Some w'" "own_ok w"
  shows "own_ok w'"
proof (cases a)
  case (Inject p cb)
  then show ?thesis using assms by (auto simp: plus_defs own_ok_def split: plus_splits)
next
  case (Wake p)
  then show ?thesis using assms by (auto simp: plus_defs own_ok_def split: plus_splits)
next
  case (Async p cb)
  then show ?thesis using assms by (auto simp: plus_defs own_ok_def split: plus_splits)
next
  case (Work_done p cb)
  then show ?thesis using assms by (auto simp: plus_defs own_ok_def split: plus_splits)
next
  case (Poll p)
  then show ?thesis using assms by (auto simp: plus_defs own_ok_def split: plus_splits)
next
  case (Drain p)
  then show ?thesis using assms by (auto simp: plus_defs own_ok_def split: plus_splits)
next
  case (Swap p)
  then show ?thesis using assms by (auto simp: plus_defs own_ok_def split: plus_splits)
next
  case (Run p)
  then show ?thesis using assms by (auto simp: plus_defs own_ok_def split: plus_splits)
next
  case (Throw p)
  then show ?thesis using assms by (auto simp: plus_defs own_ok_def split: plus_splits)
next
  case (Scan p)
  then show ?thesis using assms by (auto simp: plus_defs own_ok_def split: plus_splits)
next
  case (Look p)
  then show ?thesis using assms by (auto simp: plus_defs own_ok_def split: plus_splits)
next
  case (Take p)
  then show ?thesis using assms by (auto simp: plus_defs own_ok_def split: plus_splits)
next
  case (Return p)
  then show ?thesis using assms by (auto simp: plus_defs own_ok_def split: plus_splits)
next
  case (Call_throw p)
  then show ?thesis using assms by (auto simp: plus_defs own_ok_def split: plus_splits)
next
  case (Signal_cb p sig cb)
  then show ?thesis using assms
    by (auto simp: signal_cb_def Let_def own_ok_def split: option.splits if_splits) (metis option.inject option.distinct(1))+
next
  case Check
  then show ?thesis using assms by (auto simp: plus_defs own_ok_def split: plus_splits)
next
  case (Clear sig)
  then show ?thesis using assms own_ok_erase by (auto simp: signal_cb_clear_def split: if_splits)
next
  case Spin
  then show ?thesis using assms by (auto simp: plus_defs own_ok_def split: plus_splits)
next
  case (Delete p)
  then show ?thesis using assms by (auto simp: plus_defs own_ok_def split: plus_splits)
next
  case Delete_next
  then show ?thesis using assms own_ok_erase own_ok_empty [of w]
    by (auto simp: delete_next_def split: lock_point.splits list.splits) (auto simp: own_ok_def)
next
  case (Deliver h sig)
  then show ?thesis using assms by (auto simp: plus_defs own_ok_def split: plus_splits)
next
  case (Handler h)
  then show ?thesis using assms by (auto simp: plus_defs own_ok_def split: plus_splits)
qed

text \<open>The loop of \<open>run_subtype_handlers\<close> has the mutex.\<close>

definition take_ok :: "'cb plus_world \<Rightarrow> bool" where
  "take_ok w \<longleftrightarrow> (\<forall>p is found. main_at (psets w p) = M_take is \<or> main_at (psets w p) = M_scan is found \<longrightarrow> owners_lock w = Taking p)"

lemma take_step:
  assumes "plus_act cap a w = Some w'" "take_ok w"
  shows "take_ok w'"
proof (cases a)
  case (Inject p cb)
  then show ?thesis using assms by (auto simp: plus_defs take_ok_def split: plus_splits)
next
  case (Wake p)
  then show ?thesis using assms by (auto simp: plus_defs take_ok_def split: plus_splits)
next
  case (Async p cb)
  then show ?thesis using assms by (auto simp: plus_defs take_ok_def split: plus_splits)
next
  case (Work_done p cb)
  then show ?thesis using assms by (auto simp: plus_defs take_ok_def split: plus_splits)
next
  case (Poll p)
  then show ?thesis using assms by (auto simp: plus_defs take_ok_def split: plus_splits)
next
  case (Drain p)
  then show ?thesis using assms by (auto simp: plus_defs take_ok_def split: plus_splits)
next
  case (Swap p)
  then show ?thesis using assms by (auto simp: plus_defs take_ok_def split: plus_splits)
next
  case (Run p)
  then show ?thesis using assms by (auto simp: plus_defs take_ok_def split: plus_splits)
next
  case (Throw p)
  then show ?thesis using assms by (auto simp: plus_defs take_ok_def split: plus_splits)
next
  case (Scan p)
  then show ?thesis using assms by (auto simp: plus_defs take_ok_def split: plus_splits)
next
  case (Look p)
  then show ?thesis using assms by (auto simp: plus_defs take_ok_def split: plus_splits)
next
  case (Take p)
  then show ?thesis using assms
    by (auto simp: take_signal_def Let_def take_ok_def split: main_point.splits list.splits option.splits if_splits)
      (metis lock_point.inject(4))+
next
  case (Return p)
  then show ?thesis using assms by (auto simp: plus_defs take_ok_def split: plus_splits)
next
  case (Call_throw p)
  then show ?thesis using assms by (auto simp: plus_defs take_ok_def split: plus_splits)
next
  case (Signal_cb p sig cb)
  then show ?thesis using assms by (auto simp: plus_defs take_ok_def split: plus_splits)
next
  case Check
  then show ?thesis using assms by (auto simp: plus_defs take_ok_def split: plus_splits)
next
  case (Clear sig)
  then show ?thesis using assms by (auto simp: plus_defs take_ok_def split: plus_splits)
next
  case Spin
  then show ?thesis using assms by (auto simp: plus_defs take_ok_def split: plus_splits)
next
  case (Delete p)
  then show ?thesis using assms by (auto simp: plus_defs take_ok_def split: plus_splits)
next
  case Delete_next
  then show ?thesis using assms by (auto simp: plus_defs take_ok_def split: plus_splits)
next
  case (Deliver h sig)
  then show ?thesis using assms by (auto simp: plus_defs take_ok_def split: plus_splits)
next
  case (Handler h)
  then show ?thesis using assms by (auto simp: plus_defs take_ok_def split: plus_splits)
qed

section \<open>Handlers\<close>

text \<open>At most one handler of a signal runs, and from its first write to its last the flag is 1.\<close>

fun hand_busy :: "hand_point \<Rightarrow> bool" where
  "hand_busy (H_owner sig) = True"
| "hand_busy (H_wake sig p) = True"
| "hand_busy (H_done sig) = True"
| "hand_busy _ = False"

definition hands_ok :: "'cb plus_world \<Rightarrow> bool" where
  "hands_ok w \<longleftrightarrow> (\<forall>h h' x y. hands w h = Some x \<longrightarrow> hands w h' = Some y \<longrightarrow> hand_sig x = hand_sig y \<longrightarrow> h = h')
    \<and> (\<forall>h x. hands w h = Some x \<longrightarrow> hand_busy x \<longrightarrow> flags w (hand_sig x) = 1)"

lemma hands_step:
  assumes "plus_act cap a w = Some w'" "one_handler a w" "hands_ok w"
  shows "hands_ok w'"
proof (cases a)
  case (Inject p cb)
  then show ?thesis using assms by (auto simp: plus_defs hands_ok_def split: plus_splits)
next
  case (Wake p)
  then show ?thesis using assms by (auto simp: plus_defs hands_ok_def split: plus_splits)
next
  case (Async p cb)
  then show ?thesis using assms by (auto simp: plus_defs hands_ok_def split: plus_splits)
next
  case (Work_done p cb)
  then show ?thesis using assms by (auto simp: plus_defs hands_ok_def split: plus_splits)
next
  case (Poll p)
  then show ?thesis using assms by (auto simp: plus_defs hands_ok_def split: plus_splits)
next
  case (Drain p)
  then show ?thesis using assms by (auto simp: plus_defs hands_ok_def split: plus_splits)
next
  case (Swap p)
  then show ?thesis using assms by (auto simp: plus_defs hands_ok_def split: plus_splits)
next
  case (Run p)
  then show ?thesis using assms by (auto simp: plus_defs hands_ok_def split: plus_splits)
next
  case (Throw p)
  then show ?thesis using assms by (auto simp: plus_defs hands_ok_def split: plus_splits)
next
  case (Scan p)
  then show ?thesis using assms by (auto simp: plus_defs hands_ok_def split: plus_splits)
next
  case (Look p)
  then show ?thesis using assms by (auto simp: plus_defs hands_ok_def split: plus_splits)
next
  case (Take p)
  then show ?thesis using assms by (auto simp: plus_defs hands_ok_def split: plus_splits)
next
  case (Return p)
  then show ?thesis using assms by (auto simp: plus_defs hands_ok_def split: plus_splits)
next
  case (Call_throw p)
  then show ?thesis using assms by (auto simp: plus_defs hands_ok_def split: plus_splits)
next
  case (Signal_cb p sig cb)
  then show ?thesis using assms by (auto simp: plus_defs hands_ok_def split: plus_splits)
next
  case Check
  then show ?thesis using assms by (auto simp: plus_defs hands_ok_def split: plus_splits)
next
  case (Clear sig)
  then show ?thesis using assms by (auto simp: plus_defs hands_ok_def split: plus_splits)
next
  case Spin
  then show ?thesis using assms by (auto simp: plus_defs hands_ok_def split: plus_splits)
next
  case (Delete p)
  then show ?thesis using assms by (auto simp: plus_defs hands_ok_def split: plus_splits)
next
  case Delete_next
  then show ?thesis using assms by (auto simp: plus_defs hands_ok_def split: plus_splits)
next
  case (Deliver h sig)
  then show ?thesis using assms by (force simp: deliver_def hands_ok_def one_handler_def split: if_splits)
next
  case (Handler h)
  then show ?thesis using assms 
    by (auto simp: signal_handler_def hands_ok_def split: option.splits hand_point.splits if_splits)
      (metis hand_busy.simps hand_sig.simps)+
qed

section \<open>Awake for callbacks\<close>

definition awake :: "'cb plus \<Rightarrow> bool" where
  "awake s \<longleftrightarrow> (async_cbs s \<noteq> [] \<longrightarrow> async_pending s)
    \<and> (async_pending s \<longrightarrow> selfpipe s \<noteq> [] \<or> main_at s = M_drain \<or> main_at s = M_swap)"

lemma awake_inject: "0 < cap \<Longrightarrow> awake s \<Longrightarrow> awake (inject_cb cap j s)"
  by (auto simp: awake_def inject_cb_def wake_def Let_def)

lemma awake_wake: "awake s \<Longrightarrow> awake (wake cap b s)"
  by (auto simp: awake_def wake_def)

lemma awake_own:
  assumes "\<And>s s'. f s = Some s' \<Longrightarrow> awake s \<Longrightarrow> awake s'" "on_plus p f w = Some w'" "\<forall>p. awake (psets w p)"
  shows "awake (psets w' q)"
  using assms by (auto simp: on_plus_def split: if_splits)

lemma awake_ops:
  "0 < cap \<Longrightarrow> task_start cap cb s = Some s' \<Longrightarrow> awake s \<Longrightarrow> awake s'"
  "poll_returns s = Some s' \<Longrightarrow> awake s \<Longrightarrow> awake s'"
  "drain s = Some s' \<Longrightarrow> awake s \<Longrightarrow> awake s'"
  "swap_asyncs s = Some s' \<Longrightarrow> awake s \<Longrightarrow> awake s'"
  "run_async s = Some s' \<Longrightarrow> awake s \<Longrightarrow> awake s'"
  by (auto simp: task_start_def intro!: awake_inject split: if_splits) (auto simp: awake_def poll_returns_def drain_def swap_asyncs_def
      run_async_def split: if_splits main_point.splits list.splits)

lemma awake_frame [simp]:
  "awake (s\<lparr>signal_pending := b\<rparr>) = awake s" "awake (s\<lparr>signal_cbs := m\<rparr>) = awake s" "awake (s\<lparr>caught := c\<rparr>) = awake s"
  by (simp_all add: awake_def)

lemma awake_goto: "awake s \<Longrightarrow> main_at s \<noteq> M_drain \<Longrightarrow> main_at s \<noteq> M_swap \<Longrightarrow> awake (s\<lparr>main_at := m\<rparr>)"
  by (simp add: awake_def)

lemma awake_throw: "main_at s = M_run js \<Longrightarrow> awake s \<Longrightarrow> awake ((begin_job j s)\<lparr>main_at := M_out\<rparr>)"
  by (auto simp: awake_def)

lemma awake_erase: "\<forall>p. awake (psets w p) \<Longrightarrow> awake (psets (erase_signal_cb sig k w) q)"
  by (auto simp: erase_signal_cb_def split: option.splits)

lemma awake_step:
  assumes "plus_act cap a w = Some w'" "0 < cap" "\<forall>p. awake (psets w p)"
  shows "awake (psets w' q)"
proof (cases a)
  case (Inject p cb)
  then show ?thesis using assms by (auto simp: on_plus_def awake_inject split: if_splits)
next
  case (Wake p)
  then show ?thesis using assms by (auto simp: on_plus_def awake_wake split: if_splits)
next
  case (Async p cb)
  then show ?thesis using assms by (auto simp: on_plus_def async_def awake_def split: if_splits)
next
  case (Work_done p cb)
  then show ?thesis using assms by (auto intro: awake_own [OF awake_ops(1)])
next
  case (Poll p)
  then show ?thesis using assms by (auto intro: awake_own [OF awake_ops(2)] split: if_splits)
next
  case (Drain p)
  then show ?thesis using assms by (auto intro: awake_own [OF awake_ops(3)])
next
  case (Swap p)
  then show ?thesis using assms by (auto intro: awake_own [OF awake_ops(4)])
next
  case (Run p)
  then show ?thesis using assms by (auto intro: awake_own [OF awake_ops(5)])
next
  case (Throw p)
  then show ?thesis using assms by (auto simp: throw_async_def awake_throw split: main_point.splits list.splits)
next
  case (Scan p)
  then show ?thesis using assms by (auto simp: scan_signals_def Let_def awake_goto split: if_splits)
next
  case (Look p)
  then show ?thesis using assms by (auto simp: look_flag_def Let_def awake_goto split: main_point.splits list.splits)
next
  case (Take p)
  then show ?thesis using assms by (auto simp: take_signal_def Let_def awake_goto split: main_point.splits list.splits option.splits if_splits)
next
  case (Return p)
  then show ?thesis using assms by (auto simp: call_returns_def awake_goto split: main_point.splits if_splits)
next
  case (Call_throw p)
  then show ?thesis using assms by (auto simp: call_throws_def awake_goto split: main_point.splits)
next
  case (Signal_cb p sig cb)
  then show ?thesis using assms by (auto simp: signal_cb_def Let_def awake_goto split: if_splits option.splits)
next
  case Check
  then show ?thesis using assms by (auto simp: check_flag_def awake_wake split: lock_point.splits if_splits)
next
  case (Clear sig)
  then show ?thesis using assms by (auto simp: signal_cb_clear_def awake_erase split: if_splits)
next
  case Spin
  then show ?thesis using assms by (auto simp: erase_spin_def split: lock_point.splits if_splits)
next
  case (Delete p)
  then show ?thesis using assms by (auto simp: delete_start_def split: if_splits)
next
  case Delete_next
  then show ?thesis using assms by (auto simp: delete_next_def awake_erase split: lock_point.splits list.splits)
next
  case (Deliver h sig)
  then show ?thesis using assms by (auto simp: deliver_def split: if_splits)
next
  case (Handler h)
  then show ?thesis using assms by (auto simp: signal_handler_def awake_wake split: option.splits hand_point.splits)
qed

section \<open>Awake for signals\<close>

fun left :: "'cb main_point \<Rightarrow> nat list" where
  "left (M_scan is found) = is @ found"
| "left (M_take is) = is"
| "left (M_call cb is) = is"
| "left _ = []"

fun in_take :: "'cb main_point \<Rightarrow> bool" where
  "in_take (M_scan is found) = True"
| "in_take (M_take is) = True"
| "in_take (M_call cb is) = True"
| "in_take _ = False"

definition pend_ok :: "'cb plus \<Rightarrow> bool" where
  "pend_ok s \<longleftrightarrow> (in_take (main_at s) \<longrightarrow> signal_pending s)"

text \<open>A signal whose flag is set is on its way to the callback of its owner.\<close>

definition set_covers :: "'cb plus \<Rightarrow> nat \<Rightarrow> bool" where
  "set_covers s sig \<longleftrightarrow> Signal \<in> set (selfpipe s) \<or> signal_pending s \<and> \<not> in_take (main_at s) \<or> sig \<in> set (left (main_at s))"

definition covered :: "'cb plus_world \<Rightarrow> nat \<Rightarrow> nat \<Rightarrow> bool" where
  "covered w p sig \<longleftrightarrow> set_covers (psets w p) sig \<or> owners_lock w = Checking p sig
    \<or> (\<exists>h. hands w h = Some (H_owner sig) \<or> hands w h = Some (H_wake sig p))"

definition cover_ok :: "'cb plus_world \<Rightarrow> bool" where
  "cover_ok w \<longleftrightarrow> (\<forall>sig p. owners w sig = Some p \<longrightarrow> flags w sig \<noteq> 0 \<longrightarrow> covered w p sig)"

lemma set_covers_frame [simp]:
  "set_covers (s\<lparr>signal_cbs := m\<rparr>) = set_covers s" "set_covers (s\<lparr>caught := c\<rparr>) = set_covers s"
  by (simp_all add: set_covers_def fun_eq_iff)

lemma set_covers_wake: "set_covers s sig \<Longrightarrow> set_covers (wake cap b s) sig"
  by (auto simp: set_covers_def wake_def)

lemma set_covers_woken: "length (selfpipe s) < cap \<Longrightarrow> set_covers (wake cap Signal s) sig"
  by (simp add: set_covers_def wake_def)

lemma set_covers_inject: "set_covers s sig \<Longrightarrow> set_covers (inject_cb cap j s) sig"
  by (auto simp: set_covers_def inject_cb_def wake_def Let_def)

lemma in_set_take_drop: "x \<in> set xs \<Longrightarrow> x \<in> set (take n xs) \<or> x \<in> set (drop n xs)"
  by (metis append_take_drop_id Un_iff set_append)

lemma set_covers_ops:
  assumes "set_covers s sig"
  shows "task_start cap cb s = Some s' \<Longrightarrow> set_covers s' sig"
    "set_covers (async cb s) sig"
    "poll_returns s = Some s' \<Longrightarrow> set_covers s' sig"
    "drain s = Some s' \<Longrightarrow> set_covers s' sig"
    "swap_asyncs s = Some s' \<Longrightarrow> set_covers s' sig"
    "run_async s = Some s' \<Longrightarrow> set_covers s' sig"
proof -
  have "set_covers (s\<lparr>working := x\<rparr>) sig" for x using assms by (simp add: set_covers_def)
  then show "task_start cap cb s = Some s' \<Longrightarrow> set_covers s' sig"
    by (auto simp: task_start_def set_covers_inject split: if_splits)
  show "set_covers (async cb s) sig" using assms by (simp add: async_def set_covers_def)
  show "poll_returns s = Some s' \<Longrightarrow> set_covers s' sig" using assms by (auto simp: poll_returns_def set_covers_def split: if_splits)
  show "drain s = Some s' \<Longrightarrow> set_covers s' sig" using assms
    by (auto simp: drain_def set_covers_def split: if_splits dest: in_set_take_drop [of _ _ 128])
  show "swap_asyncs s = Some s' \<Longrightarrow> set_covers s' sig" using assms by (auto simp: swap_asyncs_def set_covers_def split: if_splits)
  show "run_async s = Some s' \<Longrightarrow> set_covers s' sig" using assms
    by (auto simp: run_async_def set_covers_def begin_job_def split: main_point.splits list.splits)
qed

lemma cover_keep:
  assumes "cover_ok w" "owners w' = owners w" "flags w' = flags w" "hands w' = hands w" "owners_lock w' = owners_lock w"
    and "\<And>p sig. set_covers (psets w p) sig \<Longrightarrow> set_covers (psets w' p) sig"
  shows "cover_ok w'"
  using assms(1) assms(6) unfolding cover_ok_def covered_def assms(2-5) by blast

lemma cover_own:
  assumes "on_plus p f w = Some w'" "cover_ok w" "\<And>s s' sig. f s = Some s' \<Longrightarrow> set_covers s sig \<Longrightarrow> set_covers s' sig"
  shows "cover_ok w'"
proof -
  from assms(1) obtain s where "f (psets w p) = Some s" "w' = set_plus p s w" by (auto simp: on_plus_def split: if_splits)
  then show ?thesis using assms(3) by (intro cover_keep [OF assms(2)]) (auto split: if_splits)
qed

lemma pend_frame [simp]:
  "pend_ok (s\<lparr>signal_cbs := m\<rparr>) = pend_ok s" "pend_ok (s\<lparr>caught := c\<rparr>) = pend_ok s" "pend_ok (wake cap b s) = pend_ok s"
  "pend_ok (inject_cb cap j s) = pend_ok s" "pend_ok (s\<lparr>working := c'\<rparr>) = pend_ok s"
  by (simp_all add: pend_ok_def)

lemma pend_goto: "\<not> in_take m \<or> signal_pending s \<Longrightarrow> pend_ok (s\<lparr>main_at := m\<rparr>)"
  by (auto simp: pend_ok_def)

lemma pend_step:
  assumes "plus_act cap a w = Some w'" "\<forall>p. pend_ok (psets w p)"
  shows "pend_ok (psets w' q)"
proof (cases a)
  case (Inject p cb)
  then show ?thesis using assms by (auto simp: on_plus_def split: if_splits)
next
  case (Wake p)
  then show ?thesis using assms by (auto simp: on_plus_def split: if_splits)
next
  case (Async p cb)
  then show ?thesis using assms by (auto simp: on_plus_def async_def pend_ok_def split: if_splits)
next
  case (Work_done p cb)
  then show ?thesis using assms by (auto simp: on_plus_def task_start_def split: if_splits)
next
  case (Poll p)
  then show ?thesis using assms by (auto simp: on_plus_def poll_returns_def pend_goto split: if_splits)
next
  case (Drain p)
  then show ?thesis using assms by (auto simp: on_plus_def drain_def pend_goto pend_ok_def split: if_splits)
next
  case (Swap p)
  then show ?thesis using assms by (auto simp: on_plus_def swap_asyncs_def pend_goto split: if_splits)
next
  case (Run p)
  then show ?thesis using assms by (auto simp: on_plus_def run_async_def pend_goto split: if_splits main_point.splits list.splits)
next
  case (Throw p)
  then show ?thesis using assms by (auto simp: throw_async_def pend_goto split: main_point.splits list.splits)
next
  case (Scan p)
  then show ?thesis using assms by (auto simp: scan_signals_def Let_def pend_goto split: if_splits)
next
  case (Look p)
  then show ?thesis using assms by (auto simp: look_flag_def Let_def pend_ok_def split: main_point.splits list.splits)
next
  case (Take p)
  then show ?thesis using assms by (auto simp: take_signal_def Let_def pend_goto pend_ok_def split: main_point.splits list.splits option.splits if_splits)
next
  case (Return p)
  then show ?thesis using assms by (auto simp: call_returns_def pend_ok_def split: main_point.splits if_splits)
next
  case (Call_throw p)
  then show ?thesis using assms by (auto simp: call_throws_def pend_goto split: main_point.splits)
next
  case (Signal_cb p sig cb)
  then show ?thesis using assms by (auto simp: signal_cb_def Let_def split: if_splits option.splits)
next
  case Check
  then show ?thesis using assms by (auto simp: check_flag_def split: lock_point.splits if_splits)
next
  case (Clear sig)
  then show ?thesis using assms by (auto simp: signal_cb_clear_def erase_signal_cb_def split: if_splits option.splits)
next
  case Spin
  then show ?thesis using assms by (auto simp: erase_spin_def split: lock_point.splits if_splits)
next
  case (Delete p)
  then show ?thesis using assms by (auto simp: delete_start_def split: if_splits)
next
  case Delete_next
  then show ?thesis using assms by (auto simp: delete_next_def erase_signal_cb_def split: lock_point.splits list.splits option.splits)
next
  case (Deliver h sig)
  then show ?thesis using assms by (auto simp: deliver_def split: if_splits)
next
  case (Handler h)
  then show ?thesis using assms by (auto simp: signal_handler_def split: option.splits hand_point.splits)
qed

lemma set_covers_goto: "set_covers s sig \<Longrightarrow> left (main_at s) = [] \<Longrightarrow> \<not> in_take m \<Longrightarrow> set_covers (s\<lparr>main_at := m\<rparr>) sig"
  by (auto simp: set_covers_def)

lemma set_covers_begin [simp]: "set_covers ((begin_job j s)\<lparr>main_at := m\<rparr>) = set_covers (s\<lparr>main_at := m\<rparr>)"
  by (auto simp: set_covers_def begin_job_def fun_eq_iff)

lemma coverI: "(\<And>sig p. owners w sig = Some p \<Longrightarrow> flags w sig \<noteq> 0 \<Longrightarrow> covered w p sig) \<Longrightarrow> cover_ok w"
  by (simp add: cover_ok_def)

lemma coverE:
  assumes "cover_ok w" "owners w sig = Some p" "flags w sig \<noteq> 0"
  obtains "set_covers (psets w p) sig" | "owners_lock w = Checking p sig"
    | h where "hands w h = Some (H_owner sig)" | h where "hands w h = Some (H_wake sig p)"
proof -
  have "covered w p sig" using assms by (simp add: cover_ok_def)
  with that show thesis unfolding covered_def by blast
qed

lemma cover_lift:
  assumes "cover_ok w" "\<And>s q. owners w' s = Some q \<Longrightarrow> flags w' s \<noteq> 0 \<Longrightarrow> owners w s = Some q \<and> flags w s \<noteq> 0"
    and "\<And>s q. covered w q s \<Longrightarrow> covered w' q s"
  shows "cover_ok w'"
  using assms by (simp add: cover_ok_def)

lemma cover_scan:
  assumes "scan_signals p w = Some w'" "cover_ok w" "own_ok w"
  shows "cover_ok w'"
proof (rule coverI)
  fix sig q assume o: "owners w' sig = Some q" "flags w' sig \<noteq> 0"
  have f: "owners w' = owners w" "flags w' = flags w" "hands w' = hands w"
    using assms(1) by (auto simp: scan_signals_def Let_def split: if_splits)
  have "sig \<in> set (sig_keys (signal_cbs (psets w q)))"
    using own_okD(1) [OF assms(3)] o by (auto simp: f sig_keys_iff catchable_def)
  moreover have "covered w q sig" using assms(2) o by (simp add: cover_ok_def f)
  ultimately show "covered w' q sig" using assms(1) o
    by (auto simp: scan_signals_def Let_def covered_def set_covers_goto split: if_splits) (auto simp: set_covers_def)
qed

lemma cover_look:
  assumes "look_flag p w = Some w'" "cover_ok w"
  shows "cover_ok w'"
proof (rule coverI)
  fix sig q assume o: "owners w' sig = Some q" "flags w' sig \<noteq> 0"
  have f: "owners w' = owners w" "hands w' = hands w" "flags w' = flags w" "owners_lock w' = owners_lock w"
    using assms(1) by (auto simp: look_flag_def Let_def split: main_point.splits list.splits)
  have "covered w q sig" using assms(2) o by (simp add: cover_ok_def f)
  then show "covered w' q sig" using assms(1) o f
    by (auto simp: look_flag_def Let_def covered_def set_covers_def split: main_point.splits list.splits if_splits)
qed

lemma cover_take:
  assumes "take_signal p w = Some w'" "cover_ok w" "own_ok w" "take_ok w"
  shows "cover_ok w'"
proof (rule coverI)
  fix sig q assume o: "owners w' sig = Some q" "flags w' sig \<noteq> 0"
  have f: "owners w' = owners w" "hands w' = hands w" "flags w sig \<noteq> 0"
    using assms(1) o by (auto simp: take_signal_def Let_def split: main_point.splits list.splits option.splits if_splits)
  have l: "owners_lock w = Taking p"
    using assms(1,4) by (auto simp: take_signal_def take_ok_def Let_def split: main_point.splits)
  have "signal_cbs (psets w q) sig \<noteq> None" using own_okD(1) [OF assms(3)] o by (auto simp: f)
  moreover have "covered w q sig" using assms(2) o f by (simp add: cover_ok_def)
  ultimately show "covered w' q sig" using assms(1) o l
    by (auto simp: take_signal_def Let_def covered_def split: main_point.splits list.splits option.splits if_splits)
      (auto simp: set_covers_def split: if_splits)
qed

lemma cover_returns:
  assumes "call_returns p w = Some w'" "cover_ok w"
  shows "cover_ok w'"
  using assms by (intro cover_lift [OF assms(2)])
    (auto simp: call_returns_def covered_def set_covers_def split: main_point.splits if_splits)

lemma cover_throws:
  assumes "call_throws p w = Some w'" "cover_ok w" "pend_ok (psets w p)"
  shows "cover_ok w'"
  using assms by (intro cover_lift [OF assms(2)])
    (auto simp: call_throws_def covered_def set_covers_def pend_ok_def split: main_point.splits if_splits)

lemma cover_signal_cb:
  assumes "signal_cb p sig cb w = Some w'" "cover_ok w"
  shows "cover_ok w'"
proof (rule coverI)
  fix s q assume o: "owners w' s = Some q" "flags w' s \<noteq> 0"
  show "covered w' q s"
  proof (cases "owners w s = Some q")
    case True
    with assms(2) o assms(1) have "covered w q s"
      by (auto simp: signal_cb_def cover_ok_def Let_def split: if_splits option.splits)
    with assms(1) show ?thesis
      by (auto simp: signal_cb_def covered_def Let_def split: if_splits option.splits)
  next
    case False
    with o assms(1) show ?thesis by (auto simp: signal_cb_def covered_def Let_def split: if_splits option.splits)
  qed
qed

lemma cover_check:
  assumes "check_flag cap w = Some w'" "cover_ok w" "own_ok w" "\<not> dropped w'"
  shows "cover_ok w'"
proof (rule coverI)
  fix s q assume o: "owners w' s = Some q" "flags w' s \<noteq> 0"
  obtain p sig where l: "owners_lock w = Checking p sig"
    "w' = (if flags w sig \<noteq> 0 then wake_signal cap p w else w)\<lparr>owners_lock := Unlocked\<rparr>"
    using assms(1) by (auto simp: check_flag_def split: lock_point.splits)
  have q: "alive w q" "owners w s = Some q" "flags w s \<noteq> 0" using own_okD(1) [OF assms(3)] o
    by (auto simp: l split: if_splits)
  from coverE [OF assms(2) q(2,3)] show "covered w' q s"
  proof cases
    case 2
    with l q(3) assms(4) q(1) have "length (selfpipe (psets w q)) < cap" by (simp add: wake_signal_def)
    with 2 l q show ?thesis by (simp add: covered_def set_covers_woken)
  qed (use l in \<open>auto simp: covered_def set_covers_wake\<close>)
qed

lemma cover_erase:
  assumes "cover_ok w" "\<And>p s. owners_lock w \<noteq> Checking p s"
  shows "cover_ok (erase_signal_cb sig k w)"
  using assms by (auto simp: erase_signal_cb_def cover_ok_def covered_def split: option.splits if_splits)

lemma cover_spin: "erase_spin w = Some w' \<Longrightarrow> cover_ok w \<Longrightarrow> cover_ok w'"
  by (rule cover_lift [of w]) (auto simp: erase_spin_def covered_def split: lock_point.splits if_splits)

lemma cover_deliver: "deliver h sig w = Some w' \<Longrightarrow> cover_ok w \<Longrightarrow> cover_ok w'"
  by (rule cover_lift [of w]) (auto simp: deliver_def covered_def split: if_splits, (metis option.distinct(1))+)

lemma cover_handler:
  assumes "signal_handler cap h w = Some w'" "cover_ok w" "own_ok w" "hands_ok w" "\<not> dropped w'"
  shows "cover_ok w'"
proof (rule coverI)
  fix s q assume o: "owners w' s = Some q" "flags w' s \<noteq> 0"
  obtain x where x: "hands w h = Some x" using assms(1) by (auto simp: signal_handler_def split: option.splits)
  have os: "owners w s = Some q" "alive w q" using own_okD(1) [OF assms(3)] o assms(1) x
    by (auto simp: signal_handler_def split: hand_point.splits)
  show "covered w' q s"
  proof (cases "flags w s = 0")
    case True
    with o assms(1) x have "x = H_set s \<or> x = H_done s" by (auto simp: signal_handler_def split: hand_point.splits if_splits)
    with True assms(4) x have "x = H_set s" by (force simp: hands_ok_def)
    with assms(1) x show ?thesis by (auto simp: signal_handler_def covered_def)
  next
    case False
    from coverE [OF assms(2) os(1) False] show ?thesis
    proof cases
      case (3 h')
      with assms(1) x os show ?thesis by (cases "h' = h") (auto simp: signal_handler_def covered_def split: hand_point.splits if_splits)
    next
      case (4 h')
      show ?thesis
      proof (cases "h' = h")
        case True
        with 4 x assms(1,5) os have "length (selfpipe (psets w q)) < cap" by (auto simp: signal_handler_def wake_signal_def)
        with True 4 x assms(1) os show ?thesis by (auto simp: signal_handler_def covered_def set_covers_woken)
      qed (use 4 assms(1) x in \<open>auto simp: signal_handler_def covered_def split: hand_point.splits if_splits\<close>)
    qed (use assms(1) x in \<open>auto simp: signal_handler_def covered_def set_covers_wake split: hand_point.splits if_splits\<close>)
  qed
qed

lemma cover_step:
  assumes "plus_act cap a w = Some w'" "cover_ok w" "own_ok w" "take_ok w" "hands_ok w" "\<forall>p. pend_ok (psets w p)" "\<not> dropped w'"
  shows "cover_ok w'"
proof (cases a)
  case (Inject p cb)
  then show ?thesis using assms by (auto intro: cover_own simp: set_covers_inject)
next
  case (Wake p)
  then show ?thesis using assms by (auto intro: cover_own simp: set_covers_wake)
next
  case (Async p cb)
  then show ?thesis using assms by (auto intro: cover_own simp: set_covers_ops(2))
next
  case (Work_done p cb)
  then show ?thesis using assms by (auto intro: cover_own set_covers_ops(1))
next
  case (Poll p)
  then show ?thesis using assms by (auto intro: cover_own set_covers_ops(3) split: if_splits)
next
  case (Drain p)
  then show ?thesis using assms by (auto intro: cover_own set_covers_ops(4))
next
  case (Swap p)
  then show ?thesis using assms by (auto intro: cover_own set_covers_ops(5))
next
  case (Run p)
  then show ?thesis using assms by (auto intro: cover_own set_covers_ops(6))
next
  case (Throw p)
  then show ?thesis using assms by (auto simp: throw_async_def set_covers_goto intro!: cover_keep [of w] split: main_point.splits list.splits)
next
  case (Scan p)
  then show ?thesis using assms by (auto intro: cover_scan)
next
  case (Look p)
  then show ?thesis using assms by (auto intro: cover_look)
next
  case (Take p)
  then show ?thesis using assms by (auto intro: cover_take)
next
  case (Return p)
  then show ?thesis using assms by (auto intro: cover_returns)
next
  case (Call_throw p)
  then show ?thesis using assms by (auto intro: cover_throws)
next
  case (Signal_cb p sig cb)
  then show ?thesis using assms by (auto intro: cover_signal_cb split: if_splits)
next
  case Check
  then show ?thesis using assms by (auto intro: cover_check)
next
  case (Clear sig)
  then show ?thesis using assms by (auto simp: signal_cb_clear_def intro!: cover_erase split: if_splits)
next
  case Spin
  then show ?thesis using assms by (auto intro: cover_spin)
next
  case (Delete p)
  then show ?thesis using assms by (auto simp: delete_start_def covered_def intro!: cover_lift [of w] split: if_splits)
next
  case Delete_next
  then show ?thesis using assms by (auto simp: delete_next_def cover_erase split: lock_point.splits list.splits) (auto simp: covered_def intro!: cover_lift [of w])
next
  case (Deliver h sig)
  then show ?thesis using assms by (auto intro: cover_deliver)
next
  case (Handler h)
  then show ?thesis using assms by (auto intro: cover_handler)
qed

section \<open>No deleted set is used\<close>

definition wake_ok :: "'cb plus_world \<Rightarrow> bool" where
  "wake_ok w \<longleftrightarrow> \<not> dead_wake w \<and> (\<forall>p s. owners_lock w = Checking p s \<longrightarrow> alive w p)
    \<and> (\<forall>h s p. hands w h = Some (H_wake s p) \<longrightarrow> alive w p \<and> (owners w s = Some p \<or> (\<exists>k. owners_lock w = Erasing s k)))"

lemma wake_okD:
  assumes "wake_ok w"
  shows "\<not> dead_wake w" "owners_lock w = Checking p s \<Longrightarrow> alive w p"
    "hands w h = Some (H_wake s p) \<Longrightarrow> alive w p" "hands w h = Some (H_wake s p) \<Longrightarrow> owners w s = Some p \<or> (\<exists>k. owners_lock w = Erasing s k)"
  using assms by (auto simp: wake_ok_def)

lemma wake_keep:
  assumes "wake_ok w" "owners w' = owners w" "owners_lock w' = owners_lock w" "alive w' = alive w" "hands w' = hands w" "dead_wake w' = dead_wake w"
  shows "wake_ok w'"
  using assms by (simp add: wake_ok_def)

lemma wake_hands:
  assumes "wake_ok w" "owners w' = owners w" "owners_lock w' = owners_lock w" "alive w' = alive w" "\<not> dead_wake w'"
    "\<And>h s p. hands w' h = Some (H_wake s p) \<Longrightarrow> hands w h = Some (H_wake s p) \<or> alive w p \<and> owners w s = Some p"
  shows "wake_ok w'"
  unfolding wake_ok_def using wake_okD [OF assms(1)] assms(2-6) by metis

lemma wake_own: "on_plus p f w = Some w' \<Longrightarrow> wake_ok w \<Longrightarrow> wake_ok w'"
  by (auto simp: on_plus_def intro: wake_keep split: if_splits)

text \<open>A step that only moves the mutex between points that are neither \<open>Checking\<close> nor \<open>Erasing\<close>.\<close>

lemma wake_lock:
  assumes "wake_ok w" "owners w' = owners w" "alive w' = alive w" "hands w' = hands w" "dead_wake w' = dead_wake w"
    "\<And>s k. owners_lock w \<noteq> Erasing s k" "\<And>p s. owners_lock w' \<noteq> Checking p s"
  shows "wake_ok w'"
  using assms by (simp add: wake_ok_def)

lemma wake_erase:
  assumes "wake_ok w" "\<And>s k. owners_lock w \<noteq> Erasing s k"
  shows "wake_ok (erase_signal_cb sig k w)"
proof -
  have "owners w s = Some p" if "hands w h = Some (H_wake s p)" for h s p
    using wake_okD(4) [OF assms(1) that] assms(2) by blast
  with assms(1) show ?thesis by (auto simp: erase_signal_cb_def erased_def wake_ok_def split: option.splits)
qed

lemma wake_take:
  assumes "take_signal p w = Some w'" "wake_ok w" "take_ok w"
  shows "wake_ok w'"
proof -
  have "owners_lock w = Taking p" using assms(1,3) by (auto simp: take_signal_def take_ok_def Let_def split: main_point.splits)
  then show ?thesis using assms(1)
    by (intro wake_lock [OF assms(2)]) (auto simp: take_signal_def Let_def split: main_point.splits list.splits option.splits if_splits)
qed

lemma wake_signal_cb:
  assumes "signal_cb p sig cb w = Some w'" "wake_ok w" "alive w p" "owners w sig = None \<or> owners w sig = Some p"
  shows "wake_ok w'"
proof -
  have u: "owners_lock w = Unlocked" using assms(1) by (auto simp: signal_cb_def split: if_splits)
  have h: "owners w s = Some q" if "hands w h = Some (H_wake s q)" for h s q
    using wake_okD(4) [OF assms(2) that] u by auto
  from assms(4) show ?thesis
  proof
    assume "owners w sig = None"
    moreover from this h have "hands w h \<noteq> Some (H_wake sig q)" for h q by force
    ultimately show ?thesis using assms(1-3) u by (auto simp: signal_cb_def Let_def wake_ok_def split: if_splits)
  next
    assume "owners w sig = Some p"
    with assms(1) show ?thesis by (intro wake_keep [OF assms(2)]) (auto simp: signal_cb_def Let_def split: if_splits)
  qed
qed

lemma dead_wake_signal [simp]: "alive w p \<Longrightarrow> dead_wake (wake_signal cap p w) = dead_wake w"
  by (simp add: wake_signal_def)

lemma wake_check:
  assumes "check_flag cap w = Some w'" "wake_ok w"
  shows "wake_ok w'"
proof -
  obtain p sig where l: "owners_lock w = Checking p sig"
    "w' = (if flags w sig \<noteq> 0 then wake_signal cap p w else w)\<lparr>owners_lock := Unlocked\<rparr>"
    using assms(1) by (auto simp: check_flag_def split: lock_point.splits)
  with wake_okD(2) [OF assms(2)] show ?thesis by (intro wake_lock [OF assms(2)]) auto
qed

lemma wake_spin:
  assumes "erase_spin w = Some w'" "wake_ok w" "hands_ok w"
  shows "wake_ok w'"
proof -
  obtain sig k where l: "owners_lock w = Erasing sig k" "even (flags w sig)" and w: "owners w' = owners w" "alive w' = alive w" "hands w' = hands w"
      "dead_wake w' = dead_wake w" "owners_lock w' = erased k"
    using assms(1) by (auto simp: erase_spin_def split: lock_point.splits if_splits)
  have "owners w s = Some q" if "hands w h = Some (H_wake s q)" for h s q
  proof -
    from assms(3) that have "flags w s = 1" by (force simp: hands_ok_def)
    with l(2) have "s \<noteq> sig" by auto
    with wake_okD(4) [OF assms(2) that] l(1) show ?thesis by auto
  qed
  with assms(2) w show ?thesis by (auto simp: wake_ok_def erased_def split: option.splits)
qed

lemma wake_delete:
  assumes "delete_next w = Some w'" "wake_ok w" "own_ok w"
  shows "wake_ok w'"
proof -
  obtain p where l: "owners_lock w = Deleting p" using assms(1) by (auto simp: delete_next_def split: lock_point.splits)
  show ?thesis
  proof (cases "sig_keys (signal_cbs (psets w p))")
    case Nil
    then have "owners w s \<noteq> Some p" for s using own_ok_empty [OF assms(3)] by blast
    moreover have "owners w s = Some q" if "hands w h = Some (H_wake s q)" for h s q
      using wake_okD(4) [OF assms(2) that] l by auto
    ultimately have "hands w h \<noteq> Some (H_wake s p)" for h s by blast
    with Nil l assms(1,2) show ?thesis by (auto simp: delete_next_def wake_ok_def)
  next
    case (Cons sig sigs)
    with l assms(1,2) show ?thesis by (auto simp: delete_next_def intro!: wake_erase)
  qed
qed

lemma wake_handler:
  assumes "signal_handler cap h w = Some w'" "wake_ok w" "own_ok w"
  shows "wake_ok w'"
  using assms(1) own_okD(1) [OF assms(3)] wake_okD(1,3) [OF assms(2)]
  by (intro wake_hands [OF assms(2)]) (auto simp: signal_handler_def split: option.splits hand_point.splits if_splits)

lemma wake_step:
  assumes "plus_act cap a w = Some w'" "no_steal a w" "wake_ok w" "own_ok w" "take_ok w" "hands_ok w"
  shows "wake_ok w'"
proof (cases a)
  case (Inject p cb)
  then show ?thesis using assms by (auto intro: wake_own split: if_splits)
next
  case (Wake p)
  then show ?thesis using assms by (auto intro: wake_own split: if_splits)
next
  case (Async p cb)
  then show ?thesis using assms by (auto intro: wake_own split: if_splits)
next
  case (Work_done p cb)
  then show ?thesis using assms by (auto intro: wake_own split: if_splits)
next
  case (Poll p)
  then show ?thesis using assms by (auto intro: wake_own split: if_splits)
next
  case (Drain p)
  then show ?thesis using assms by (auto intro: wake_own split: if_splits)
next
  case (Swap p)
  then show ?thesis using assms by (auto intro: wake_own split: if_splits)
next
  case (Run p)
  then show ?thesis using assms by (auto intro: wake_own split: if_splits)
next
  case (Throw p)
  then show ?thesis using assms by (auto simp: throw_async_def intro!: wake_keep [of w] split: main_point.splits list.splits)
next
  case (Scan p)
  then show ?thesis using assms by (auto simp: scan_signals_def Let_def intro: wake_keep wake_lock split: if_splits)
next
  case (Look p)
  then show ?thesis using assms by (auto simp: look_flag_def Let_def intro!: wake_keep [of w] split: main_point.splits list.splits)
next
  case (Take p)
  then show ?thesis using assms by (auto intro: wake_take)
next
  case (Return p)
  then show ?thesis using assms by (auto simp: call_returns_def intro!: wake_lock [of w] split: main_point.splits if_splits)
next
  case (Call_throw p)
  then show ?thesis using assms by (auto simp: call_throws_def intro!: wake_keep [of w] split: main_point.splits)
next
  case (Signal_cb p sig cb)
  then show ?thesis using assms by (auto simp: no_steal_def intro: wake_signal_cb split: if_splits)
next
  case Check
  then show ?thesis using assms by (auto intro: wake_check)
next
  case (Clear sig)
  then show ?thesis using assms by (auto simp: signal_cb_clear_def intro!: wake_erase split: if_splits)
next
  case Spin
  then show ?thesis using assms by (auto intro: wake_spin)
next
  case (Delete p)
  then show ?thesis using assms by (auto simp: delete_start_def intro!: wake_lock [of w] split: if_splits)
next
  case Delete_next
  then show ?thesis using assms by (auto intro: wake_delete)
next
  case (Deliver h sig)
  then show ?thesis using assms by (auto simp: deliver_def wake_okD intro!: wake_hands [of w] split: if_splits)
next
  case (Handler h)
  then show ?thesis using assms by (auto intro: wake_handler)
qed

section \<open>Histories\<close>

lemma dropped_step: "plus_act cap a w = Some w' \<Longrightarrow> dropped w \<Longrightarrow> dropped w'"
  by (cases a) (auto simp: plus_defs wake_signal_def split: plus_splits)

lemma reach_run: "plus_run cap ok as w = Some w' \<Longrightarrow> plus_reach cap ok ps w \<Longrightarrow> plus_reach cap ok ps w'"
proof (induction as arbitrary: w)
  case (Cons a as)
  then obtain w1 where "ok a w" "plus_act cap a w = Some w1" "plus_run cap ok as w1 = Some w'"
    by (auto split: if_splits bind_splits)
  with Cons plus_step show ?case by blast
qed simp

lemma new_plus_ok:
  "own_ok (new_plus_world ps)" "take_ok (new_plus_world ps)" "hands_ok (new_plus_world ps)" "wake_ok (new_plus_world ps)"
  "cover_ok (new_plus_world ps)" "pend_ok new_plus" "awake new_plus" "in_order new_plus"
  by (simp_all add: own_ok_def take_ok_def hands_ok_def wake_ok_def cover_ok_def pend_ok_def awake_def in_order_def to_run_def
      new_plus_world_def new_plus_def)

lemma psets_new [simp]: "psets (new_plus_world ps) p = new_plus"
  by (simp add: new_plus_world_def)

lemma reach_own: "plus_reach cap ok ps w \<Longrightarrow> own_ok w \<and> take_ok w \<and> (\<forall>p. pend_ok (psets w p))"
proof (induction rule: plus_reach.induct)
  case (plus_step w a w')
  then show ?case using own_step [of cap a w w'] take_step [of cap a w w'] pend_step [of cap a w w'] by blast
qed (simp add: new_plus_ok)

lemma reach_hands:
  assumes "plus_reach cap ok ps w" "\<And>a w. ok a w \<Longrightarrow> one_handler a w"
  shows "hands_ok w"
  using assms(1)
proof (induction rule: plus_reach.induct)
  case (plus_step w a w')
  then show ?case using hands_step [of cap a w w'] assms(2) by blast
qed (simp add: new_plus_ok)

lemma reach_awake: "plus_reach cap ok ps w \<Longrightarrow> 0 < cap \<Longrightarrow> awake (psets w p)"
proof (induction arbitrary: p rule: plus_reach.induct)
  case (plus_step w a w')
  then show ?case using awake_step [of cap a w w'] by blast
qed (simp add: new_plus_ok)

lemma reach_in_order: "plus_reach cap ok ps w \<Longrightarrow> \<not> overrun w \<Longrightarrow> in_order (psets w p)"
proof (induction arbitrary: p rule: plus_reach.induct)
  case (plus_step w a w')
  then show ?case using in_order_step [of cap a w w'] overrun_step [of cap a w w'] by blast
qed (simp add: new_plus_ok)

lemma reach_cover:
  assumes "plus_reach cap ok ps w" "\<And>a w. ok a w \<Longrightarrow> one_handler a w" "\<not> dropped w"
  shows "cover_ok w"
  using assms(1,3)
proof (induction rule: plus_reach.induct)
  case (plus_step w a w')
  then show ?case
    using cover_step [of cap a w w'] dropped_step [of cap a w w'] reach_own [OF plus_step(1)] reach_hands [OF plus_step(1) assms(2)] by blast
qed (simp add: new_plus_ok)

text \<open>Without a callback that throws, a set leaves \<open>poll\<close> with no signal pending.\<close>

definition quiet :: "'cb plus \<Rightarrow> bool" where
  "quiet s \<longleftrightarrow> (main_at s = M_out \<longrightarrow> \<not> signal_pending s)"

lemma quiet_step:
  assumes "plus_act cap a w = Some w'" "no_throw a w" "\<forall>p. quiet (psets w p)"
  shows "quiet (psets w' q)"
  using assms by (cases a) (auto simp: plus_defs no_throw_def quiet_def begin_job_def split: plus_splits)

lemma reach_quiet:
  assumes "plus_reach cap ok ps w" "\<And>a w. ok a w \<Longrightarrow> no_throw a w"
  shows "quiet (psets w p)"
  using assms(1)
proof (induction arbitrary: p rule: plus_reach.induct)
  case (plus_step w a w')
  then show ?case using quiet_step [of cap a w w'] assms(2) by blast
qed (simp add: quiet_def new_plus_def)

lemma reach_wake: "plus_reach cap (\<lambda>a w. one_handler a w \<and> no_steal a w) ps w \<Longrightarrow> wake_ok w"
proof (induction rule: plus_reach.induct)
  case (plus_step w a w')
  then show ?case using wake_step [of cap a w w'] reach_own [OF plus_step(1)] reach_hands [OF plus_step(1)] by blast
qed (simp add: new_plus_ok)

section \<open>Properties\<close>

text \<open>C13: Callbacks from other threads are run exactly once, in the order in which they were injected,
  whatever threads do: in every interleaving in which no callback throws before others, the callbacks
  injected into a set are those that have been run, those its thread is about to run and those that wait,
  in this order, and \<open>nasync_\<close> counts the tasks that have not been reported.\<close>

theorem asyncs_in_order:
  assumes "plus_reach cap ok ps w" and "\<not> overrun w"
  shows "injected (psets w p) = ran (psets w p) @ (case main_at (psets w p) of M_run js \<Rightarrow> js | _ \<Rightarrow> []) @ async_cbs (psets w p)
    \<and> nasync (psets w p) = int (length (working (psets w p))) + int (length (filter is_done (to_run (psets w p))))"
  using reach_in_order [OF assms, of p] by (auto simp: in_order_def to_run_def split: main_point.splits)

lemma sig_keys_eval: "sig_keys m = filter (\<lambda>i. m i \<noteq> None) [1, 2, 3, 4, 5, 6, 7, 8, 9, 10, 11, 12, 13, 14, 15, 16, 17, 18, 19, 20, 21, 22, 23, 24, 25, 26, 27, 28, 29, 30, 31]"
proof -
  have "[1..<32] = [1, 2, 3, 4, 5, 6, 7, 8, 9, 10, 11, 12, 13, 14, 15, 16, 17, 18, 19, 20, 21, 22, 23, 24, 25, 26, 27, 28, 29, 30, 31]" by code_simp
  then show ?thesis by (simp only: sig_keys_def)
qed

lemmas plus_eval = plus_act.simps on_plus_def in_delete_def async_def task_start_def inject_cb_def wake_def poll_returns_def drain_def
  swap_asyncs_def run_async_def begin_job_def throw_async_def new_plus_world_def new_plus_def set_plus_def signal_cb_def check_flag_def
  erase_cb_def deliver_def signal_handler_def wake_signal_def catchable_def delete_start_def delete_next_def sig_keys_eval
  one_handler_def no_steal_def no_throw_def Let_def scan_signals_def look_flag_def take_signal_def call_returns_def call_throws_def

lemma run_asyncs: "plus_run 16 (\<lambda>_ _. True) [Async 0 ''a'', Inject 0 ''b'', Poll 0, Work_done 0 ''a'', Drain 0, Drain 0, Inject 0 ''c'', Swap 0, Run 0]
    (new_plus_world {0}) = Some w \<Longrightarrow> ran (psets w 0) = [Injected ''b''] \<and> main_at (psets w 0) = M_run [Done ''a'', Injected ''c''] \<and> \<not> overrun w"
  by (auto simp: plus_eval)

theorem asyncs_in_order_witness:
  "\<exists>w :: string plus_world. injected (psets w 0) = [Injected ''b''] @ [Done ''a'', Injected ''c''] @ async_cbs (psets w 0)"
proof -
  obtain w where w: "plus_run 16 (\<lambda>_ _. True) [Async 0 ''a'', Inject 0 ''b'', Poll 0, Work_done 0 ''a'', Drain 0, Drain 0, Inject 0 ''c'', Swap 0, Run 0]
    (new_plus_world {0}) = Some w" by (simp add: plus_eval)
  from asyncs_in_order [OF reach_run [OF w plus_start], of 0] run_asyncs [OF w] show ?thesis by (intro exI [of _ w]) simp
qed

text \<open>C12: A poll set sleeps only when there is nothing to do for it: whatever threads and handlers do, if
  at most one handler of a signal runs at a time, no callback has thrown and no byte for a signal has
  found a pipe full, then for a thread asleep with an empty pipe and no handler or change of owners in
  progress there is no callback that waits, and no signal of the set whose flag is set.\<close>

theorem plus_sleeps_idle:
  assumes "plus_reach cap (\<lambda>a w. one_handler a w \<and> no_throw a w) ps w" "0 < cap" "\<not> dropped w"
    "main_at (psets w p) = M_out" "selfpipe (psets w p) = []" "\<forall>h. hands w h = None" "owners_lock w = Unlocked"
  shows "async_cbs (psets w p) = [] \<and> (\<forall>sig. owners w sig = Some p \<longrightarrow> flags w sig = 0)"
proof
  show "async_cbs (psets w p) = []" using reach_awake [OF assms(1,2), of p] assms(4,5) by (auto simp: awake_def)
  have "\<not> signal_pending (psets w p)" using reach_quiet [OF assms(1), of p] assms(4) by (auto simp: quiet_def)
  then have "\<not> covered w p sig" for sig using assms(4-7) by (auto simp: covered_def set_covers_def)
  moreover have "cover_ok w" using reach_cover [OF assms(1) _ assms(3)] by blast
  ultimately show "\<forall>sig. owners w sig = Some p \<longrightarrow> flags w sig = 0" by (auto simp: cover_ok_def)
qed

definition caught_run :: "string act list" where
  "caught_run = [Signal_cb 0 15 ''t'', Check, Deliver 0 15, Handler 0, Handler 0, Handler 0, Handler 0, Handler 0,
     Poll 0, Drain 0, Drain 0, Swap 0, Run 0, Scan 0, Look 0, Look 0, Take 0, Return 0, Take 0]"

theorem plus_sleeps_idle_witness:
  "\<exists>w. plus_run 16 (\<lambda>a w. one_handler a w \<and> no_throw a w) caught_run (new_plus_world {0}) = Some w
    \<and> caught (psets w 0) = [''t''] \<and> owners w 15 = Some 0 \<and> flags w 15 = 0"
proof -
  obtain w where w: "plus_run 16 (\<lambda>a w. one_handler a w \<and> no_throw a w) caught_run (new_plus_world {0}) = Some w"
    by (simp add: plus_eval caught_run_def)
  then have e: "\<not> dropped w" "main_at (psets w 0) = M_out" "selfpipe (psets w 0) = []" "\<forall>h. hands w h = None"
    "owners_lock w = Unlocked" "owners w 15 = Some 0" "caught (psets w 0) = [''t'']" by (auto simp: plus_eval caught_run_def)
  from plus_sleeps_idle [OF reach_run [OF w plus_start] _ e(1-5)] e w show ?thesis by auto
qed

text \<open>
  A callback that throws leaves the signals after it, whose bytes have been read, for the time when
  \<open>poll\<close> returns next: the thread sleeps with the flag of a signal set.
\<close>

lemma throw_delays_signal:
  "\<exists>w :: string plus_world. plus_reach 16 one_handler {0} w \<and> \<not> dropped w \<and> \<not> overrun w \<and> main_at (psets w 0) = M_out \<and> selfpipe (psets w 0) = []
    \<and> hands w 0 = None \<and> owners_lock w = Unlocked \<and> owners w 15 = Some 0 \<and> flags w 15 = 2"
proof -
  obtain w where w: "plus_run 16 one_handler [Signal_cb 0 2 ''i'', Check, Signal_cb 0 15 ''t'', Check,
      Deliver 0 2, Handler 0, Handler 0, Handler 0, Handler 0, Handler 0, Deliver 0 15, Handler 0, Handler 0, Handler 0, Handler 0, Handler 0,
      Poll 0, Drain 0, Drain 0, Swap 0, Run 0, Scan 0, Look 0, Look 0, Look 0, Take 0, Call_throw 0] (new_plus_world {0}) = Some w"
    by (simp add: plus_eval)
  then have "\<not> dropped w \<and> \<not> overrun w \<and> main_at (psets w 0) = M_out \<and> selfpipe (psets w 0) = [] \<and> hands w 0 = None
      \<and> owners_lock w = Unlocked \<and> owners w 15 = Some 0 \<and> flags w 15 = 2"
    by (auto simp: plus_eval)
  with reach_run [OF w plus_start] show ?thesis by blast
qed

text \<open>C31: No handler of a signal uses a deleted poll set, as long as at most one handler of a signal runs
  at a time and no set takes a signal from another one; and in every history a set has a callback for
  exactly the signals it owns, so that its destructor reaches the end of its loop.\<close>

theorem wake_safe:
  assumes "plus_reach cap (\<lambda>a w. one_handler a w \<and> no_steal a w) ps w"
  shows "\<not> dead_wake w \<and> (owners w sig = Some p) = (signal_cbs (psets w p) sig \<noteq> None) \<and> (owners w sig = Some p \<longrightarrow> alive w p)"
  using reach_wake [OF assms] reach_own [OF assms] by (auto simp: wake_ok_def own_ok_def)

theorem wake_safe_witness:
  "\<exists>w. plus_run 16 (\<lambda>a w. one_handler a w \<and> no_steal a w) [Signal_cb 0 15 ''t'', Check, Deliver 0 15, Handler 0, Handler 0, Handler 0] (new_plus_world {0}) = Some w
    \<and> hands w 0 = Some (H_wake 15 0) \<and> \<not> dead_wake w"
proof -
  obtain w where w: "plus_run 16 (\<lambda>a w. one_handler a w \<and> no_steal a w) [Signal_cb 0 15 ''t'', Check, Deliver 0 15, Handler 0, Handler 0, Handler 0]
    (new_plus_world {0}) = Some w" by (simp add: plus_eval)
  then have "hands w 0 = Some (H_wake 15 0)" by (auto simp: plus_eval)
  with wake_safe [OF reach_run [OF w plus_start]] w show ?thesis by blast
qed

text \<open>
  Taking a signal from a set does not wait for the handler that runs, unlike clearing it: the handler
  can wake the set after it has been deleted.
\<close>

lemma steal_uses_deleted:
  "\<exists>w :: string plus_world. plus_reach 16 one_handler {0, 1} w \<and> dead_wake w"
proof -
  obtain w where w: "plus_run 16 one_handler [Signal_cb 0 15 ''a'', Check, Deliver 0 15, Handler 0, Handler 0, Handler 0,
      Signal_cb 1 15 ''b'', Check, Delete 0, Delete_next, Handler 0] (new_plus_world {0, 1}) = Some w"
    by (simp add: plus_eval)
  then have "dead_wake w" by (auto simp: plus_eval)
  with reach_run [OF w plus_start] show ?thesis by blast
qed

text \<open>
  So can a second handler of the signal, in another thread: the destructor waits for a flag that the
  first one has set to 2.
\<close>

lemma second_handler_uses_deleted:
  "\<exists>w :: string plus_world. plus_reach 16 no_steal {0} w \<and> dead_wake w"
proof -
  obtain w where w: "plus_run 16 no_steal [Signal_cb 0 15 ''a'', Check, Deliver 0 15, Deliver 1 15, Handler 0, Handler 1, Handler 0, Handler 1,
      Handler 1, Handler 0, Handler 0, Handler 0, Delete 0, Delete_next, Spin, Delete_next, Handler 1] (new_plus_world {0}) = Some w"
    by (simp add: plus_eval erase_signal_cb_def erase_spin_def erased_def)
  then have "dead_wake w" by (auto simp: plus_eval erase_signal_cb_def erase_spin_def erased_def)
  with reach_run [OF w plus_start] show ?thesis by blast
qed

text \<open>A pipe that is full loses a signal: the set sleeps with the flag set, and later signals are ignored.\<close>

lemma full_pipe_loses_signal:
  "\<exists>w :: string plus_world. plus_reach 1 one_handler {0} w \<and> main_at (psets w 0) = M_out \<and> selfpipe (psets w 0) = [] \<and> \<not> signal_pending (psets w 0)
    \<and> owners w 15 = Some 0 \<and> flags w 15 = 2"
proof -
  obtain w where w: "plus_run 1 one_handler [Signal_cb 0 15 ''a'', Check, Wake 0, Deliver 0 15, Handler 0, Handler 0, Handler 0, Handler 0, Handler 0,
      Poll 0, Drain 0, Drain 0, Swap 0, Run 0, Scan 0] (new_plus_world {0}) = Some w"
    by (simp add: plus_eval)
  then have "main_at (psets w 0) = M_out \<and> selfpipe (psets w 0) = [] \<and> \<not> signal_pending (psets w 0) \<and> owners w 15 = Some 0 \<and> flags w 15 = 2"
    by (auto simp: plus_eval)
  with reach_run [OF w plus_start] show ?thesis by blast
qed

text \<open>
  \<open>pending\<close> is true for ever: the pipe itself counts as something to wait for. The loop
  \<open>while (ps.pending()) ps.poll()\<close> of the comment does not end.
\<close>

fun op_fd :: "'cb ps_op \<Rightarrow> nat option" where
  "op_fd (Set_cb fd op cb) = Some fd"
| "op_fd (Remove_cb fd op) = Some fd"
| "op_fd Consolidate = None"

theorem pending_always:
  assumes "list_all legal_op ops" "\<forall>op \<in> set ops. op_fd op \<noteq> Some fd"
  shows "\<exists>ps. bindR (plus_pollset fd cb) (ps_run ops) = Inr ps \<and> pending s ps"
proof -
  from ps_run_refines [OF new_pollset_ok(1), of "Set_cb fd Read (Some cb) # ops"] assms(1)
  obtain ps where ps: "ps_run (Set_cb fd Read (Some cb) # ops) new_pollset = Inr ps" "ps_ok ps"
    "(reads ps, writes ps) = fold abs_step (Set_cb fd Read (Some cb) # ops) (Map.empty, Map.empty)"
    by (auto simp: new_pollset_ok)
  have "fst (fold abs_step ops m) fd = fst m fd" for m :: "'a cb_maps"
    using assms(2)
  proof (induction ops arbitrary: m)
    case (Cons a as)
    then have "fst (abs_step a m) fd = fst m fd" by (cases a; cases m) auto
    with Cons show ?case by simp
  qed simp
  from this [of "abs_step (Set_cb fd Read (Some cb)) (Map.empty, Map.empty)"]
  have "fst (reads ps, writes ps) fd = Some (cb, False)" unfolding ps(3) by (simp add: has_read_def has_once_def)
  then have "fd \<in> dom (pstate ps)" by (auto simp: reads_def split: option.splits)
  with ps(2) have "pollfds ps \<noteq> []" by (auto simp: ps_ok_def)
  with ps(1) show ?thesis by (intro exI [of _ ps]) (simp add: pending_def num_cbs_def plus_pollset_def)
qed

end
