(* ===== verification/Spec2Isabelle.thy ===== *)
theory Spec2Isabelle
  imports Server_Paxos_Types Paxos_Types Rpc_Msg Server_Db_Properties Paxos_Properties Chubby_Api_Properties
    Msg_Sock_Properties Poll_Rounds Chubby_Dispatch_Properties Client_Properties Sync_Server_Properties
    Replica_Channels_Properties Union_Classes Shell Client_Apps Double_Barrier
    Printer Sockets Ini_Parse Xdrc_Headers Pollset_Plus_Properties
begin

text \<open>
  A verification development for simple-chubby, a lock service with a small file system.

  \<^bold>\<open>The program.\<close> Clients link \<open>src/libclient\<close> and talk to a cell of servers over XDR/RPC
  (\<open>src/xdrpp\<close>). A server accepts connections and dispatches requests (\<open>src/server/chubby_server\<close>)
  to the procedures of the lock service (\<open>src/server/serverimpl.cc\<close>), which keep handles, lock
  queues and event registrations in memory and everything else in a store
  (\<open>src/server/serverdb.cc\<close>, two SQL tables). The service reaches the store through
  \<open>src/server/serverdb_paxos.cc\<close>: a command is marshaled and given to the replication library
  (\<open>src/paxos\<close>), whose leader sends it to the other replicas and runs it on its own back store
  (\<open>src/server/serverdb_backstore.cc\<close>); a change of view makes another replica the leader.

  \<^bold>\<open>Theories and sources.\<close>
  \<^item> \<open>Chubby_Prelude\<close>: results as sums (\<open>bindR\<close>), C++ maps and strings, bytes and words.
    \<open>Decimal\<close>: numbers as text.
  \<^item> \<open>Xdr_Marshal\<close>, \<open>Xdr_Codec\<close>: \<open>endian.h\<close>, \<open>marshal\<close>, \<open>types.h\<close>, \<open>message.h\<close> of \<open>src/xdrpp\<close>. A
    type of the schema is a \<open>codec\<close>; the locale \<open>xdr_codec\<close> is its contract (saving fills exactly
    the announced size, loading inverts saving, loading never leaves the buffer). Combinators for
    structs, unions, strings and vectors keep the contract.
  \<^item> \<open>Server_Types\<close> (\<open>src/include/server.hh\<close>, \<open>event.hh\<close>), \<open>Server_Paxos_Types\<close>
    (\<open>src/server/server_paxos.hh\<close>), \<open>Paxos_Types\<close> (\<open>src/paxos/paxos.hh\<close>), \<open>Rpc_Msg\<close>
    (\<open>rpc_msg.x\<close>, \<open>rpc_msg.cc\<close>): the generated types as records and datatypes with their codecs,
    and interpretations of \<open>xdr_codec\<close> for what is sent.
  \<^item> \<open>Xdr_Union\<close>, \<open>Union_Classes\<close>: the classes that the XDR compiler generates for unions, with the
    lifetime of their members; a class has its two functions of the discriminant separately. The locales \<open>sound_union\<close> and \<open>union_codec\<close> are what the generator
    guarantees of a class; each union of the program is an interpretation.
  \<^item> \<open>Msg_Sock\<close>, \<open>Msg_Sock_Properties\<close>: \<open>msgsock.cc\<close> and the blocking functions of \<open>srpc.cc\<close>.
  \<^item> \<open>Pollset\<close>, \<open>Pollset_Properties\<close>: class \<open>pollset\<close> of \<open>pollset.cc\<close>. The locale \<open>poll_client\<close> is
    the contract between a round of \<open>poll\<close> and its callbacks; \<open>Poll_Rounds\<close> interprets it on
    callbacks that register and remove callbacks of any descriptors. \<open>Pollset_Plus\<close>, \<open>Pollset_Plus_Properties\<close>: the subclass
    \<open>pollset_plus\<close>, which only the tests of the library use, as steps of threads and signal handlers
    that share pipes, flags and owners of signals; histories are the inductive relation \<open>plus_reach\<close>.
  \<^item> \<open>Chubby_Names\<close>: \<open>checkName\<close> and \<open>getParentName\<close>.
  \<^item> \<open>Server_Db\<close>: one definition per method of \<open>ServerDB\<close>, on the two tables, with what the text
    of a statement does to its arguments. \<open>Server_Db_Spec\<close> is the abstract store, a map from names
    to nodes; \<open>Store_Interface\<close> the contract \<open>refined_store\<close> between a store and its users, with what
    follows from it for whole runs; \<open>Server_Db_Refine\<close> the proof that the tables meet it
    (interpretation \<open>store\<close>); \<open>Server_Db_Properties\<close> the properties.
  \<^item> \<open>Backstore\<close>: \<open>serverdb_backstore.cc\<close> and \<open>serverdb_paxos.cc\<close>; the methods that go through the
    replication library meet the same contract (interpretation \<open>replicated\<close>).
  \<^item> \<open>Paxos_Replica\<close>, \<open>Paxos_Properties\<close>: \<open>replica_state\<close>, \<open>paxos_impl.cc\<close>,
    \<open>execute_replicate_engine\<close>, \<open>change_view_engine.cc\<close>, \<open>helper.cc\<close>. A cluster is a list of
    replicas; histories are the inductive relation \<open>px_reach\<close>; the locale \<open>px_config\<close> holds what a
    configuration promises, and is interpreted on the configuration that \<open>config_txt\<close> describes.
  \<^item> \<open>Chubby_Api\<close>: the state of \<open>api_v1_server\<close> as a record, handles in an explicit heap, one
    definition per remote procedure. \<open>Chubby_Api_Handles\<close> is the invariant of the handle maps,
    \<open>Chubby_Api_Properties\<close> what the procedures do.
  \<^item> \<open>Chubby_Dispatch\<close>, \<open>Chubby_Dispatch_Properties\<close>: \<open>chubby_server.h\<close>, \<open>chubby_server.cc\<close> and the
    \<open>call_dispatch\<close> of the interface: sessions, requests, replies, events, error replies.
  \<^item> \<open>Sync_Server\<close>, \<open>Sync_Server_Properties\<close>: \<open>xdrpp/server.h\<close>, \<open>server.cc\<close> and the blocking client of
    \<open>srpc.h\<close>, with the procedures of \<open>paxos_v1\<close>. The locale \<open>sync_procedure\<close> is the contract of a
    procedure of a service, interpreted on the four of the replicas.
  \<^item> \<open>Replica_Channels\<close>, \<open>Replica_Channels_Properties\<close>: \<open>replica_client_set.cc\<close> with its mutexes, as
    a step relation over the points of the threads' programs.
  \<^item> \<open>Client_Lib\<close>, \<open>Client_Properties\<close>: \<open>chubby_client\<close>, \<open>libclient/client.cc\<close>, and the reading of
    the configuration by the client and by \<open>main\<close>.
  \<^item> \<open>Sockets\<close>, \<open>Printer\<close>, \<open>Ini_Parse\<close>: \<open>xdrpp/socket.cc\<close> with the owners of descriptors,
    \<open>xdrpp/printer.cc\<close> for traces, and \<open>xdrpp/iniparse.cc\<close> for configuration files.
  \<^item> \<open>Xdrc\<close>: the back end of the XDR compiler (\<open>xdrpp/xdrc\<close>), from the syntax trees that the parser
    builds to the items it writes to its stream; \<open>play\<close> is the text of the items. \<open>Xdrc_Properties\<close>
    shows that headers are well formed, \<open>Xdrc_Switch\<close> reads the conditional expressions it writes as
    C does, and \<open>Xdrc_Headers\<close> compares its output with headers of the repository and with the
    classes of \<open>Union_Classes\<close>.
  \<^item> \<open>Shell\<close>: \<open>src/shell/shell.cc\<close>, from the buffer of a line to the methods of the client library.
  \<^item> \<open>Client_Apps\<close>, \<open>Double_Barrier\<close>: \<open>src/apps\<close>. The callbacks of the election and of the group
    membership are functions over any service that answers their calls; the barrier is a step relation
    of several processes over a file, notifications and a lock that is granted at any time.

  \<^bold>\<open>What is shown.\<close> The store behaves like the abstract store on every valid run of commands, its
  tables form a tree, locks stay with their owner and instance numbers increase; the same run
  through the replicated methods on the leader has the same outcomes. Every reachable state of the
  cluster keeps views and leaders consistent with the configuration, a candidate without
  lower-ranked partners takes over, and a command executed by the leader is executed by every
  replica it reaches. The maps of handles stay consistent, and no request makes a handler use a
  deleted handle, except that every successful deletion reads the name of the handle it has just
  deleted, which is stated as a property of its own; a request for a lock is granted, queued, or, when
  requests wait for a lock that is free in the store, stopped by an assertion. Messages arrive in order and complete whatever the kernel transfers
  per call; every message to the server is answered, refused or ends its session; a call of the
  client returns what the procedure answered, and the broadcast of a view as messages between
  replicas has the effect of direct calls. A channel between replicas is used by one thread at a
  time. Objects of the union classes hold the member their discriminant selects, as long as no object is
  assigned one with another member. Processes pass the double barrier together, even when several of
  them have its lock, and a script is executed line by line. A round of \<open>poll\<close> serves the entries it
  was called with, whatever their callbacks register and remove. A poll set with signals sleeps only
  when there is nothing to do for it, provided that at most one handler of a signal runs at a time, no
  callback throws and no pipe is full; it runs the callbacks of other threads once and in order. The
  compiler writes headers with balanced braces and functions on discriminants that select the declared
  member; \<open>include/event.hh\<close> is its output to the character. Other properties and lemmas state where the
  code departs from what it means to do: two leaders, a lock that is handed over in memory only, with
  two holders as a consequence, a loop that does not end, a deleted handle that is used, a message that
  is never sent, a deadlock after a lost connection, an event that ends the recovery of a client, a
  script that never ends, an assignment that loses a member, a signal that waits after a callback has
  thrown, a handler that uses a deleted poll set, an event written to descriptor 0.

  \<^bold>\<open>Bounds and parameters.\<close> Integers have their width. Runs of the store are bounded so that
  instance numbers stay below \<open>2^31\<close>, the largest number that survives the format \<open>%d\<close>, and texts
  below \<open>2^29\<close> bytes, so that every message is shorter than \<open>2^31\<close>; both bounds are hypotheses of the
  properties that need them. The hash function, the value of an uninitialised variable of the back
  store, what a deleted handle's name reads as (or that reading it ends the process), when the barrier's
  lock is granted, what the callbacks of a poll set do, which replicas reach each other (\<open>link\<close>), the
  allocator, and the answers of the kernel to reads and writes are parameters of the definitions.
  Loops whose end depends on such answers consume a list of them, or return \<open>None\<close> while they wait;
  all other functions are total.

  \<^bold>\<open>Not modelled.\<close> SQLite, except for what a statement of the program does; the kernel, and threads and
  mutexes except those of the channels between replicas (elsewhere what a mutex protects is one
  step) and those of \<open>pollset_plus\<close>; in particular an iteration of the change-view thread is one step,
  although it releases its mutex before it announces a view; how the threads of a client interleave,
  and with it the agreement of the processes of \<open>leader_elect.cc\<close>; the scanner, the
  grammar and the command line of the XDR compiler; the archives for \<open>cereal\<close> and the clearing of
  values (\<open>xdrpp/cereal.h\<close>, \<open>clear.h\<close>), the functions of \<open>xdrpp/socket.cc\<close> that speak to \<open>rpcbind\<close>,
  and conversions to floating point, none of which the program uses; the command lines of the
  programs and the loops that print a state once a second; process start.
\<close>

end
